(* ===== verification/WK_Prelude.thy ===== *)
theory WK_Prelude
  imports Main "HOL-Library.Word" "HOL-Library.Monad_Syntax"
begin

unbundle bit_operations_syntax

section \<open>Prelude: machine types, decoder results, shared lemmas\<close>

text \<open>
  The vocabulary every component of the development uses: the C++ integer types at their
  width, the result type of the byte decoders, the faults that stand for undefined behaviour
  or a deliberate crash, and the facts on words and lists the component proofs share.

  The model follows the release build: an \<^verbatim>\<open>ASSERT\<close> is compiled out, so the code after a
  failed assertion is what runs. Where that code shifts past the width of the type, overflows
  a signed integer, follows a null pointer, reads outside its buffer or goes on with an object
  that a failed call left half-initialised, the model returns a \<open>fault\<close> instead of a value.
\<close>

type_synonym byte = "8 word"
type_synonym uchar = "16 word"
type_synonym ustring = "uchar list"
type_synonym int64 = "64 word"
type_synonym uint32 = "32 word"

datatype fault =
    ShiftTooFar
  | SignedOverflow
  | ReadPastEnd
  | NullPointer
  | UninitializedRead
  | AssertionFailed
  | HugeAllocation
  | DeliberateCrash
  | UseAfterFree
  | DoubleFree

text \<open>
  A decoder takes the bytes of the half-open range \<open>[p, limit)\<close>. \<open>Found v p'\<close> is a return of
  the advanced pointer with the out-parameter set to \<open>v\<close> and \<open>p'\<close> the bytes left,
  \<open>NullPtr\<close> is \<^verbatim>\<open>return 0\<close>.
\<close>

datatype 'a decoded = Found 'a "byte list" | NullPtr | Fault fault

definition bindD :: "'a decoded \<Rightarrow> ('a \<Rightarrow> byte list \<Rightarrow> 'b decoded) \<Rightarrow> 'b decoded" where
  "bindD d k = (case d of Found v p \<Rightarrow> k v p | NullPtr \<Rightarrow> NullPtr | Fault f \<Rightarrow> Fault f)"

text \<open>A computation that may fault without a pointer to return: \<open>thenS\<close> goes on with its value.\<close>

definition thenS :: "fault + 'a \<Rightarrow> ('a \<Rightarrow> fault + 'b) \<Rightarrow> fault + 'b" where
  "thenS r k = (case r of Inl f \<Rightarrow> Inl f | Inr v \<Rightarrow> k v)"

named_theorems codec_simps \<open>rewriting a decoder applied to what its encoder wrote\<close>
named_theorems consume_dests \<open>a decoder leaves no more bytes than it was given\<close>

lemma bindD_simps [simp]:
  "bindD (Found v p) k = k v p"
  "bindD NullPtr k = NullPtr"
  "bindD (Fault f) k = Fault f"
  by (simp_all add: bindD_def)

lemma thenS_simps [simp]: "thenS (Inl f) k = Inl f" "thenS (Inr v) k = k v"
  by (simp_all add: thenS_def)

lemma bindD_Found_iff:
  "bindD d k = Found w q \<longleftrightarrow> (\<exists>v p. d = Found v p \<and> k v p = Found w q)"
  by (cases d) auto

lemma bindD_FoundE:
  assumes "bindD d k = Found w q"
  obtains v p where "d = Found v p" and "k v p = Found w q"
  using assms by (auto simp: bindD_Found_iff)

lemma bindD_cong [fundef_cong]:
  "d = d' \<Longrightarrow> (\<And>v p. d' = Found v p \<Longrightarrow> k v p = k' v p) \<Longrightarrow> bindD d k = bindD d' k'"
  by (cases d') auto

subsection \<open>Signed reading of 64-bit words\<close>

text \<open>
  An \<^verbatim>\<open>int64_t\<close> is a 64-bit word read by \<^const>\<open>sint\<close>. Ids and lengths are never
  negative where the code works as meant; \<open>nonneg\<close> is that condition, and on such words the
  signed and the unsigned reading and both right shifts agree.
\<close>

definition nonneg :: "int64 \<Rightarrow> bool" where
  "nonneg n \<longleftrightarrow> 0 \<le> sint n"

lemma nonneg_iff_bit: "nonneg n \<longleftrightarrow> \<not> bit n 63"
  using bit_last_iff[of n] by (simp add: nonneg_def not_less)

lemma unat_drop_bit_div: "unat (drop_bit k n) = unat n div 2 ^ k"
  unfolding unat_drop_bit_eq by (rule drop_bit_eq_div)

lemma nonneg_iff_less: "nonneg n \<longleftrightarrow> unat n < 2 ^ 63"
proof -
  have "drop_bit 63 n = 0 \<longleftrightarrow> \<not> bit n 63"
    using drop_bit_eq_zero_iff_not_bit_last[of n] by simp
  moreover have "drop_bit 63 n = 0 \<longleftrightarrow> unat n < 2 ^ 63"
    by (simp add: unat_eq_0[symmetric] unat_drop_bit_div div_eq_0_iff del: unat_eq_0)
  ultimately show ?thesis
    by (simp add: nonneg_iff_bit)
qed

lemma uint_less_nonneg: "nonneg n \<Longrightarrow> uint n < 2 ^ 63"
proof -
  assume "nonneg n"
  then have "int (unat n) < int (2 ^ 63)"
    by (simp only: nonneg_iff_less of_nat_less_iff)
  then show ?thesis by simp
qed

lemma sint_nonneg: "nonneg n \<Longrightarrow> sint n = uint n"
  using uint_less_nonneg[of n]
  by (simp add: nonneg_iff_bit sint_uint signed_take_bit_eq_if_positive bit_uint_iff
      take_bit_int_eq_self)

lemma unat_int64_less: "unat (n :: int64) < 2 ^ 64"
proof -
  have "unat n < 2 ^ LENGTH(64)" by (rule unsigned_less)
  then show ?thesis by simp
qed

lemma nonneg_of_nat: "k < 2 ^ 63 \<Longrightarrow> nonneg (word_of_nat k)"
  by (simp add: nonneg_iff_less unat_of_nat take_bit_nat_eq_self)

lemma unat_of_nat_int64: "k < 2 ^ 63 \<Longrightarrow> unat (word_of_nat k :: int64) = k"
  by (simp add: unat_of_nat take_bit_nat_eq_self)

lemma uint_of_nat_int64: "k < 2 ^ 63 \<Longrightarrow> uint (word_of_nat k :: int64) = int k"
  using unat_of_nat_int64[of k] by (metis of_nat_unat)

lemma sint_of_nat_int64: "k < 2 ^ 63 \<Longrightarrow> sint (word_of_nat k :: int64) = int k"
  by (simp add: sint_nonneg nonneg_of_nat uint_of_nat_int64)

lemma sint_diff_nonneg:
  assumes "nonneg a" and "nonneg b"
  shows "sint (a - b) = uint a - uint b"
proof -
  have "sint (a - b) = signed_take_bit 63 (uint a - uint b)"
    using assms by (simp add: sint_word_ariths(2) sint_nonneg)
  moreover have "- (2 ^ 63) \<le> uint a - uint b" and "uint a - uint b < 2 ^ 63"
    using uint_less_nonneg[OF assms(1)] uint_less_nonneg[OF assms(2)]
      uint_nonnegative[of a] uint_nonnegative[of b] by linarith+
  ultimately show ?thesis
    by (simp only: signed_take_bit_int_eq_self)
qed

lemma signed_drop_bit_nonneg: "nonneg n \<Longrightarrow> signed_drop_bit k n = drop_bit k n"
  by (rule bit_word_eqI) (auto simp: bit_signed_drop_bit_iff bit_drop_bit_eq nonneg_iff_bit
      dest: bit_imp_le_length)

lemma nonneg_drop_bit: "nonneg n \<Longrightarrow> nonneg (drop_bit k n)"
  unfolding nonneg_iff_less unat_drop_bit_div
  by (rule le_less_trans[OF div_le_dividend])

end
