(* ===== verification/IDB_Primitives.thy ===== *)
theory IDB_Primitives
  imports WK_Prelude
begin

section \<open>IndexedDB on LevelDB: the primitive encodings\<close>

text \<open>
  \<^verbatim>\<open>storage/IDBLevelDBCoding.cpp\<close>, lines 131 to 359: bytes, fixed-size and variable-length
  integers, UTF-16 strings and doubles, as byte sequences.
\<close>

subsection \<open>Type bytes\<close>

definition kIDBKeyNullTypeByte :: byte where "kIDBKeyNullTypeByte = 0"
definition kIDBKeyStringTypeByte :: byte where "kIDBKeyStringTypeByte = 1"
definition kIDBKeyDateTypeByte :: byte where "kIDBKeyDateTypeByte = 2"
definition kIDBKeyNumberTypeByte :: byte where "kIDBKeyNumberTypeByte = 3"
definition kIDBKeyArrayTypeByte :: byte where "kIDBKeyArrayTypeByte = 4"
definition kIDBKeyMinKeyTypeByte :: byte where "kIDBKeyMinKeyTypeByte = 5"

lemmas idbkey_type_bytes = kIDBKeyNullTypeByte_def kIDBKeyStringTypeByte_def
  kIDBKeyDateTypeByte_def kIDBKeyNumberTypeByte_def kIDBKeyArrayTypeByte_def
  kIDBKeyMinKeyTypeByte_def

definition INT64_MAX :: int64 where "INT64_MAX = 0x7fffffffffffffff"

definition encodeByte :: "byte \<Rightarrow> byte list" where
  "encodeByte c = [c]"

definition maxIDBKey :: "byte list" where
  "maxIDBKey = encodeByte kIDBKeyNullTypeByte"

definition minIDBKey :: "byte list" where
  "minIDBKey = encodeByte kIDBKeyMinKeyTypeByte"

subsection \<open>Fixed-size integers\<close>

text \<open>
  \<open>encodeInt_loop\<close> is the body of the do-while loop: \<open>None\<close> is a loop that never leaves, which
  is what an arithmetic right shift of a negative number gives.
\<close>

partial_function (option) encodeInt_loop :: "int64 \<Rightarrow> byte list \<Rightarrow> byte list option" where
  "encodeInt_loop n ret =
     (let c = ucast n :: byte; ret' = ret @ [c]; n' = signed_drop_bit 8 n
      in if n' \<noteq> 0 then encodeInt_loop n' ret' else Some ret')"

definition encodeInt :: "int64 \<Rightarrow> byte list option" where
  "encodeInt n = encodeInt_loop n []"

fun decodeInt_loop :: "byte list \<Rightarrow> int64 \<Rightarrow> nat \<Rightarrow> fault + int64" where
  "decodeInt_loop [] ret shift = Inr ret"
| "decodeInt_loop (c # p) ret shift =
     (if 64 \<le> shift then Inl ShiftTooFar
      else decodeInt_loop p (ret OR push_bit shift (ucast c)) (shift + 8))"

definition decodeInt :: "byte list \<Rightarrow> fault + int64" where
  "decodeInt p = decodeInt_loop p 0 0"

text \<open>\<open>compareInts\<close>: the difference of two non-negative \<^verbatim>\<open>int64_t\<close> cannot overflow.\<close>

definition compareInts :: "int64 \<Rightarrow> int64 \<Rightarrow> int" where
  "compareInts a b =
     (let diff = a - b in if sint diff < 0 then -1 else if sint diff > 0 then 1 else 0)"

subsection \<open>Variable-length integers\<close>

partial_function (option) encodeVarInt_loop :: "int64 \<Rightarrow> byte list \<Rightarrow> byte list option" where
  "encodeVarInt_loop n ret =
     (let c = ucast (n AND 0x7f) :: byte; n' = signed_drop_bit 7 n;
          c' = (if n' \<noteq> 0 then c OR 0x80 else c); ret' = ret @ [c']
      in if n' \<noteq> 0 then encodeVarInt_loop n' ret' else Some ret')"

definition encodeVarInt :: "int64 \<Rightarrow> byte list option" where
  "encodeVarInt n = encodeVarInt_loop n []"

fun decodeVarInt_loop :: "byte list \<Rightarrow> int64 \<Rightarrow> nat \<Rightarrow> int64 decoded" where
  "decodeVarInt_loop [] foundInt shift = NullPtr"
| "decodeVarInt_loop (c # p) foundInt shift =
     (if 64 \<le> shift then Fault ShiftTooFar
      else let foundInt' = foundInt OR push_bit shift (ucast (c AND 0x7f))
           in if c AND 0x80 \<noteq> 0 then decodeVarInt_loop p foundInt' (shift + 7)
              else Found foundInt' p)"

definition decodeVarInt :: "byte list \<Rightarrow> int64 decoded" where
  "decodeVarInt p = decodeVarInt_loop p 0 0"

subsection \<open>Strings\<close>

fun encodeString :: "ustring \<Rightarrow> byte list" where
  "encodeString [] = []"
| "encodeString (u # s) =
     (let hi = ucast (drop_bit 8 u) :: byte; lo = ucast u :: byte in hi # lo # encodeString s)"

fun decodeString :: "byte list \<Rightarrow> ustring" where
  "decodeString (hi # lo # p) = (push_bit 8 (ucast hi) OR ucast lo) # decodeString p"
| "decodeString p = []"

definition encodeStringWithLength :: "ustring \<Rightarrow> byte list option" where
  "encodeStringWithLength s =
     do { ret \<leftarrow> encodeVarInt (word_of_nat (length s)); Some (ret @ encodeString s) }"

text \<open>
  \<open>len * 2\<close> is signed arithmetic on 64 bits. Addresses are integers here, so the test
  \<^verbatim>\<open>p + len * 2 > limit\<close> compares \<open>len * 2\<close> with the number of bytes left. A negative
  \<open>len\<close> passes that test, and \<^verbatim>\<open>decodeString\<close> then converts the negative distance to
  \<^verbatim>\<open>size_t\<close> and reads on past the end of the buffer (unless the reservation of its result,
  whose size is the distance truncated to \<^verbatim>\<open>unsigned\<close>, already fails).
\<close>

definition mul2_overflows :: "int64 \<Rightarrow> bool" where
  "mul2_overflows len \<longleftrightarrow> sint len * 2 < - (2 ^ 63) \<or> 2 ^ 63 \<le> sint len * 2"

definition decodeStringWithLength :: "byte list \<Rightarrow> ustring decoded" where
  "decodeStringWithLength p = bindD (decodeVarInt p) (\<lambda>len p.
     if mul2_overflows len then Fault SignedOverflow
     else if sint len * 2 > int (length p) then NullPtr
     else if sint len < 0 then Fault ReadPastEnd
     else let n = nat (sint len * 2) in Found (decodeString (take n p)) (drop n p))"

text \<open>
  \<open>memcmp\<close> on byte lists of the same length: the sign of the first difference, bytes read
  as unsigned. The standard fixes only the sign of the result; the model returns -1, 0 or 1.
\<close>

fun memcmp :: "byte list \<Rightarrow> byte list \<Rightarrow> int" where
  "memcmp (a # as) (b # bs) = (if a < b then -1 else if b < a then 1 else memcmp as bs)"
| "memcmp as bs = 0"

text \<open>
  A comparison moves two pointers and returns an \<^verbatim>\<open>int\<close>: \<open>Cmp x p q\<close>, where a pointer that
  was set to null is \<open>None\<close>.
\<close>

datatype compared = Cmp int "byte list option" "byte list option" | CmpFault fault

definition compareEncodedStringsWithLength ::
  "byte list \<Rightarrow> byte list \<Rightarrow> compared" where
  "compareEncodedStringsWithLength p q =
     (case (decodeVarInt p, decodeVarInt q) of
        (Fault f, _) \<Rightarrow> CmpFault f
      | (_, Fault f) \<Rightarrow> CmpFault f
      | (Found lenP p, Found lenQ q) \<Rightarrow>
          if mul2_overflows lenP \<or> mul2_overflows lenQ then CmpFault SignedOverflow
          else if sint lenP < 0 \<or> sint lenQ < 0 then CmpFault ReadPastEnd
          else let nP = nat (sint lenP * 2); nQ = nat (sint lenQ * 2);
                   p' = Some (drop nP p); q' = Some (drop nQ q)
               in if length p < nP \<or> length q < nQ then Cmp 0 p' q'
                  else let lmin = min nP nQ; x = memcmp (take lmin p) (take lmin q)
                       in if x \<noteq> 0 then Cmp x p' q'
                          else if lenP = lenQ then Cmp 0 p' q'
                          else Cmp (if sint lenP > sint lenQ then 1 else -1) p' q'
      | _ \<Rightarrow> CmpFault NullPointer)"

subsection \<open>Doubles\<close>

text \<open>
  A \<^verbatim>\<open>double\<close> is its IEEE 754 bit pattern. \<open>encodeDouble\<close> copies the object representation,
  least significant byte first on the little-endian hosts the code is built for.
\<close>

type_synonym double = "64 word"

definition encodeDouble :: "double \<Rightarrow> byte list" where
  "encodeDouble x = map (\<lambda>i. ucast (drop_bit (8 * i) x)) [0..<8]"

fun le_bytes :: "byte list \<Rightarrow> double" where
  "le_bytes [] = 0"
| "le_bytes (b # bs) = push_bit 8 (le_bytes bs) OR ucast b"

definition decodeDouble :: "byte list \<Rightarrow> double decoded" where
  "decodeDouble p = (if length p < 8 then NullPtr else Found (le_bytes (take 8 p)) (drop 8 p))"

text \<open>
  The comparison \<^verbatim>\<open>d < e\<close> on bit patterns: false when either side is a NaN (exponent all
  ones, fraction not zero); otherwise the sign-and-magnitude reading of the pattern is
  monotone in the value, and both zeros read as 0.
\<close>

definition is_NaN :: "double \<Rightarrow> bool" where
  "is_NaN d \<longleftrightarrow> take_bit 63 d > push_bit 52 0x7ff"

definition sign_magnitude :: "double \<Rightarrow> int" where
  "sign_magnitude d = (if bit d 63 then - uint (take_bit 63 d) else uint (take_bit 63 d))"

definition double_less :: "double \<Rightarrow> double \<Rightarrow> bool" where
  "double_less d e \<longleftrightarrow> \<not> is_NaN d \<and> \<not> is_NaN e \<and> sign_magnitude d < sign_magnitude e"

subsection \<open>Round trips of the integers\<close>

text \<open>
  Both loops run on a non-negative number as the unsigned shift, which makes the number
  smaller until it is zero, so they end.
\<close>

lemma split_low_bits:
  fixes n :: "'a::len word"
  shows "push_bit s n = push_bit s (n AND mask k) OR push_bit (s + k) (drop_bit k n)"
proof (rule bit_word_eqI)
  fix i assume "i < LENGTH('a)"
  moreover have "s \<le> i \<Longrightarrow> \<not> i - s < k \<Longrightarrow> k + (i - (s + k)) = i - s \<and> s + k \<le> i"
    by linarith
  ultimately show "bit (push_bit s n) i =
      bit (push_bit s (n AND mask k) OR push_bit (s + k) (drop_bit k n)) i"
    by (cases "i - s < k") (auto simp: bit_simps)
qed

lemma drop_bit_less:
  fixes n :: int64
  assumes "drop_bit k n \<noteq> 0" and "0 < k"
  shows "unat (drop_bit k n) < unat n"
proof -
  have "n \<noteq> 0" using assms(1) by auto
  then have "0 < unat n" by (simp add: unat_gt_0)
  moreover have "(1::nat) < 2 ^ k" using assms(2) by (intro one_less_power) auto
  ultimately show ?thesis
    by (simp add: unat_drop_bit_div)
qed

lemma encodeVarInt_loop_nonneg:
  "nonneg n \<Longrightarrow> encodeVarInt_loop n ret =
     (if drop_bit 7 n \<noteq> 0
      then encodeVarInt_loop (drop_bit 7 n) (ret @ [ucast (n AND 0x7f) OR 0x80])
      else Some (ret @ [ucast (n AND 0x7f)]))"
  by (subst encodeVarInt_loop.simps) (simp add: signed_drop_bit_nonneg Let_def)

lemma bit_0x80: "bit (0x80 :: 'a::len word) i \<longleftrightarrow> i = 7 \<and> 7 < LENGTH('a)"
proof -
  have "(0x80 :: 'a word) = 2 ^ 7" by simp
  then show ?thesis by (simp only: bit_exp_iff) (auto simp: not_le)
qed

lemma masks_7f: "(0x7f :: int64) = mask 7" "(0x7f :: byte) = mask 7"
  by (simp_all add: mask_eq_exp_minus_1)

lemma varint_byte:
  fixes n :: int64
  shows "ucast ((ucast (n AND 0x7f) OR 0x80 :: byte) AND 0x7f) = n AND 0x7f"
    and "ucast (ucast (n AND 0x7f) AND 0x7f :: byte) = n AND 0x7f"
    and "(ucast (n AND 0x7f) OR 0x80 :: byte) AND 0x80 \<noteq> 0"
    and "ucast (n AND 0x7f) AND 0x80 = (0 :: byte)"
proof -
  show "ucast ((ucast (n AND 0x7f) OR 0x80 :: byte) AND 0x7f) = n AND 0x7f"
    unfolding masks_7f
    by (rule bit_word_eqI, unfold bit_unsigned_iff bit_and_iff bit_or_iff bit_mask_iff bit_0x80) auto
  show "ucast (ucast (n AND 0x7f) AND 0x7f :: byte) = n AND 0x7f"
    unfolding masks_7f by (rule bit_word_eqI) (auto simp: bit_simps)
  have "bit ((ucast (n AND 0x7f) OR 0x80 :: byte) AND 0x80) 7"
    unfolding masks_7f by (simp add: bit_simps bit_0x80)
  then show "(ucast (n AND 0x7f) OR 0x80 :: byte) AND 0x80 \<noteq> 0"
    by (metis bit_0_eq bot_apply bot_bool_def)
  show "ucast (n AND 0x7f) AND 0x80 = (0 :: byte)"
    unfolding masks_7f
    by (rule bit_word_eqI, unfold bit_unsigned_iff bit_and_iff bit_mask_iff bit_0x80) auto
qed

text \<open>
  The invariant of the pair of loops: with \<open>shift\<close> bits already read and a number that still
  fits above them, decoding what the encoder appends gives the number shifted into place.
\<close>

lemma varint_loops:
  assumes "nonneg n" and "unat n * 2 ^ shift < 2 ^ 63"
  shows "\<exists>bs. (\<forall>ret. encodeVarInt_loop n ret = Some (ret @ bs)) \<and> bs \<noteq> [] \<and>
    (\<forall>found rest. shift < 64 \<longrightarrow>
       decodeVarInt_loop (bs @ rest) found shift = Found (found OR push_bit shift n) rest)"
  using assms
proof (induction "unat n" arbitrary: n shift rule: less_induct)
  case less
  let ?c = "ucast (n AND 0x7f) :: byte" and ?n = "drop_bit 7 n"
  have split: "push_bit shift n = push_bit shift (n AND 0x7f) OR push_bit (shift + 7) ?n"
    using split_low_bits[of shift n 7] by (simp add: masks_7f)
  show ?case
  proof (cases "?n = 0")
    case True
    with less.prems(1) have "encodeVarInt_loop n ret = Some (ret @ [?c])" for ret
      by (simp add: encodeVarInt_loop_nonneg)
    moreover have "shift < 64 \<Longrightarrow>
      decodeVarInt_loop ([?c] @ rest) found shift = Found (found OR push_bit shift n) rest" for found rest
      using True split by (simp add: varint_byte)
    ultimately show ?thesis by blast
  next
    case False
    have small: "unat ?n < unat n" using False by (rule drop_bit_less) simp
    have fits: "unat ?n * 2 ^ (shift + 7) < 2 ^ 63"
    proof -
      have "unat ?n * 2 ^ 7 \<le> unat n" by (simp add: unat_drop_bit_div)
      then have "unat ?n * 2 ^ 7 * 2 ^ shift \<le> unat n * 2 ^ shift" by (rule mult_le_mono1)
      moreover have "unat ?n * 2 ^ (shift + 7) = unat ?n * 2 ^ 7 * 2 ^ shift"
        by (simp add: power_add)
      ultimately show ?thesis using less.prems(2) by linarith
    qed
    then have shift: "shift + 7 < 64"
    proof -
      have "0 < unat ?n" using False by (simp add: unat_gt_0)
      then have "2 ^ (shift + 7) \<le> unat ?n * (2 ^ (shift + 7) :: nat)" by simp
      with fits have "(2::nat) ^ (shift + 7) < 2 ^ 63" by (rule le_less_trans[rotated])
      then have "shift + 7 < 63" by (rule power_less_imp_less_exp[rotated]) simp
      then show ?thesis by simp
    qed
    from less.hyps[OF small nonneg_drop_bit[OF less.prems(1)] fits] obtain bs where
      enc: "\<And>ret. encodeVarInt_loop ?n ret = Some (ret @ bs)" and
      dec: "\<And>found rest. decodeVarInt_loop (bs @ rest) found (shift + 7) =
        Found (found OR push_bit (shift + 7) ?n) rest"
      using shift by blast
    have "encodeVarInt_loop n ret = Some (ret @ (?c OR 0x80) # bs)" for ret
      using less.prems(1) False by (simp add: encodeVarInt_loop_nonneg enc)
    moreover have "shift < 64 \<Longrightarrow> decodeVarInt_loop (((?c OR 0x80) # bs) @ rest) found shift =
        Found (found OR push_bit shift n) rest" for found rest
      using split by (simp add: varint_byte dec or.assoc)
    ultimately show ?thesis by blast
  qed
qed

lemma encodeVarInt_total: "nonneg n \<Longrightarrow> \<exists>bs. encodeVarInt n = Some bs \<and> bs \<noteq> []"
  using varint_loops[of n 0] by (auto simp: encodeVarInt_def nonneg_iff_less)

lemma decodeVarInt_encodeVarInt [codec_simps]:
  assumes "nonneg n" and "encodeVarInt n = Some bs"
  shows "decodeVarInt (bs @ rest) = Found n rest"
  using varint_loops[of n 0] assms
  by (auto simp: encodeVarInt_def decodeVarInt_def nonneg_iff_less)

text \<open>On a negative number the loop never ends.\<close>

lemma signed_drop_bit_neg: "\<not> nonneg n \<Longrightarrow> \<not> nonneg (signed_drop_bit k n)"
  by (cases "k = 0") (auto simp: nonneg_iff_bit bit_signed_drop_bit_iff)

lemma encodeVarInt_loop_neg:
  assumes "\<not> nonneg n"
  shows "encodeVarInt_loop n ret = None"
proof (rule ccontr)
  assume "encodeVarInt_loop n ret \<noteq> None"
  then obtain bs where "encodeVarInt_loop n ret = Some bs" by blast
  then have "nonneg n"
  proof (rule encodeVarInt_loop.raw_induct[where P = "\<lambda>n ret bs. nonneg n", rotated])
    fix f :: "int64 \<Rightarrow> byte list \<Rightarrow> byte list option" and n ret bs
    assume IH: "\<And>n ret bs. f n ret = Some bs \<Longrightarrow> nonneg n"
      and eq: "(let c = ucast (n AND 0x7f) :: byte; n' = signed_drop_bit 7 n;
          c' = (if n' \<noteq> 0 then c OR 0x80 else c); ret' = ret @ [c']
        in if n' \<noteq> 0 then f n' ret' else Some ret') = Some bs"
    show "nonneg n"
    proof (cases "signed_drop_bit 7 n = 0")
      case True
      then have "nonneg (signed_drop_bit 7 n)" by (simp add: nonneg_def)
      then show ?thesis using signed_drop_bit_neg by blast
    next
      case False
      with eq have "nonneg (signed_drop_bit 7 n)"
        by (auto simp: Let_def intro: IH)
      then show ?thesis using signed_drop_bit_neg by blast
    qed
  qed
  with assms show False by blast
qed

lemma encodeVarInt_None_iff: "encodeVarInt n = None \<longleftrightarrow> \<not> nonneg n"
  using encodeVarInt_total[of n] encodeVarInt_loop_neg[of n "[]"]
  by (auto simp: encodeVarInt_def)

subsection \<open>Fixed-size integers\<close>

lemma encodeInt_loop_nonneg:
  "nonneg n \<Longrightarrow> encodeInt_loop n ret =
     (if drop_bit 8 n \<noteq> 0 then encodeInt_loop (drop_bit 8 n) (ret @ [ucast n])
      else Some (ret @ [ucast n]))"
  by (subst encodeInt_loop.simps) (simp add: signed_drop_bit_nonneg Let_def)

lemma ucast_byte_and_mask: "ucast (ucast n :: byte) = (n :: int64) AND mask 8"
  by (rule bit_word_eqI) (auto simp: bit_simps)

text \<open>As for the variable-length integers; the number of bytes written is bounded as well.\<close>

lemma int_loops:
  assumes "nonneg n" and "unat n < 2 ^ (8 * k)" and "0 < k" and "shift + 8 * k \<le> 64"
  shows "\<exists>bs. (\<forall>ret. encodeInt_loop n ret = Some (ret @ bs)) \<and> 0 < length bs \<and> length bs \<le> k \<and>
    (\<forall>found rest. decodeInt_loop (bs @ rest) found shift =
       decodeInt_loop rest (found OR push_bit shift n) (shift + 8 * length bs))"
  using assms
proof (induction k arbitrary: n shift)
  case (Suc k)
  let ?n = "drop_bit 8 n"
  have split: "push_bit shift n = push_bit shift (ucast (ucast n :: byte)) OR push_bit (shift + 8) ?n"
    unfolding ucast_byte_and_mask by (rule split_low_bits)
  show ?case
  proof (cases "?n = 0")
    case True
    then show ?thesis
      using Suc.prems split by (intro exI[of _ "[ucast n]"]) (simp add: encodeInt_loop_nonneg)
  next
    case False
    then have "0 < unat ?n" by (simp add: unat_gt_0)
    moreover have "unat ?n < 2 ^ (8 * k)"
      using Suc.prems(2) by (simp add: unat_drop_bit_div less_mult_imp_div_less power_add mult.commute)
    ultimately have k: "0 < k" "unat ?n < 2 ^ (8 * k)"
      by (auto intro: gr0I)
    from Suc.IH[OF nonneg_drop_bit[OF Suc.prems(1)] k(2,1), of "shift + 8"] Suc.prems(4) obtain bs where
      "\<forall>ret. encodeInt_loop ?n ret = Some (ret @ bs)" "0 < length bs" "length bs \<le> k"
      "\<And>found rest. decodeInt_loop (bs @ rest) found (shift + 8) =
         decodeInt_loop rest (found OR push_bit (shift + 8) ?n) (shift + 8 + 8 * length bs)"
      by auto
    then show ?thesis
      using Suc.prems split False
      by (intro exI[of _ "ucast n # bs"]) (simp add: encodeInt_loop_nonneg or.assoc algebra_simps)
  qed
qed simp

lemma encodeInt_total:
  assumes "nonneg n" and "unat n < 2 ^ (8 * k)" and "0 < k" and "k \<le> 8"
  shows "\<exists>bs. encodeInt n = Some bs \<and> 0 < length bs \<and> length bs \<le> k"
  using int_loops[OF assms(1-3), of 0] assms(4) by (auto simp: encodeInt_def)

lemma encodeInt_8:
  assumes "nonneg n"
  shows "\<exists>bs. encodeInt n = Some bs \<and> 0 < length bs \<and> length bs \<le> 8"
  using assms unat_int64_less[of n] by (intro encodeInt_total) simp_all

lemma decodeInt_encodeInt [codec_simps]:
  assumes "nonneg n" and "encodeInt n = Some bs"
  shows "decodeInt bs = Inr n"
proof -
  have "unat n < 2 ^ (8 * 8)" using unat_int64_less[of n] by simp
  from int_loops[OF assms(1) this, of 0] obtain bs' where
    "\<forall>ret. encodeInt_loop n ret = Some (ret @ bs')"
    "\<forall>found rest. decodeInt_loop (bs' @ rest) found 0 =
       decodeInt_loop rest (found OR push_bit 0 n) (0 + 8 * length bs')"
    by auto
  with assms(2) have "decodeInt_loop (bs @ []) 0 0 = decodeInt_loop [] (0 OR n) (8 * length bs)"
    by (simp del: append_Nil2 add: encodeInt_def)
  then show ?thesis by (simp add: decodeInt_def)
qed

lemma compareInts_nonneg:
  assumes "nonneg a" and "nonneg b"
  shows "compareInts a b = sgn (uint a - uint b)"
  using assms by (simp add: compareInts_def Let_def sint_diff_nonneg sgn_if)

subsection \<open>Strings and doubles\<close>

lemma decodeString_encodeString [simp]: "decodeString (encodeString s) = s"
proof (induction s)
  case (Cons u s)
  have "push_bit 8 (ucast (ucast (drop_bit 8 u) :: byte)) OR ucast (ucast u :: byte) = u"
    by (rule bit_word_eqI) (auto simp: bit_simps)
  with Cons show ?case by simp
qed simp

lemma length_encodeString [simp]: "length (encodeString s) = 2 * length s"
  by (induction s) (simp_all add: Let_def)

lemma mul2_overflows_nonneg:
  assumes "nonneg n"
  shows "mul2_overflows n \<longleftrightarrow> 2 ^ 62 \<le> uint n"
proof -
  have "\<not> sint n * 2 < - (2 ^ 63)"
    using assms unfolding nonneg_def by simp
  moreover have "2 ^ 63 \<le> sint n * 2 \<longleftrightarrow> 2 ^ 62 \<le> uint n"
    by (simp add: sint_nonneg[OF assms])
  ultimately show ?thesis by (simp only: mul2_overflows_def simp_thms)
qed

lemma encodeStringWithLength_total:
  assumes "length s < 2 ^ 32"
  shows "\<exists>bs. encodeStringWithLength s = Some bs \<and> bs \<noteq> []"
  using encodeVarInt_total[OF nonneg_of_nat, of "length s"] assms
  by (auto simp: encodeStringWithLength_def)

lemma decodeStringWithLength_encode [codec_simps]:
  assumes "length s < 2 ^ 32" and "encodeStringWithLength s = Some bs"
  shows "decodeStringWithLength (bs @ rest) = Found s rest"
proof -
  let ?n = "word_of_nat (length s) :: int64"
  have n: "nonneg ?n" "uint ?n = int (length s)"
    using assms(1) by (simp_all add: nonneg_of_nat uint_of_nat_int64)
  from assms(2) obtain ls where "encodeVarInt ?n = Some ls" and bs: "bs = ls @ encodeString s"
    by (auto simp: encodeStringWithLength_def split: Option.bind_splits)
  then show ?thesis
    using n assms(1)
    by (simp add: decodeStringWithLength_def codec_simps mul2_overflows_nonneg sint_nonneg
        nat_mult_distrib)
qed

lemma le_bytes_map:
  "k \<le> 8 \<Longrightarrow> le_bytes (map (\<lambda>i. ucast (drop_bit (8 * i) x)) [k..<8]) = drop_bit (8 * k) x"
proof (induction k rule: inc_induct)
  case base
  then show ?case by (auto intro!: bit_word_eqI simp: bit_drop_bit_eq dest: bit_imp_le_length)
next
  case (step k)
  let ?y = "drop_bit (8 * k) x"
  have "drop_bit (8 * Suc k) x = drop_bit 8 ?y" by (simp add: algebra_simps)
  moreover have "push_bit 8 (drop_bit 8 ?y) OR ucast (ucast ?y :: byte) = ?y"
    using split_low_bits[of 0 ?y 8] unfolding ucast_byte_and_mask by (simp add: or.commute)
  ultimately show ?case
    using step by (simp add: upt_conv_Cons)
qed

lemma decodeDouble_encodeDouble [codec_simps]:
  "decodeDouble (encodeDouble x @ rest) = Found x rest"
  using le_bytes_map[of 0 x] by (simp add: decodeDouble_def encodeDouble_def)

lemma length_encodeDouble [simp]: "length (encodeDouble x) = 8"
  by (simp add: encodeDouble_def)

end
