(* ===== verification/IDB_Key.thy ===== *)
theory IDB_Key
  imports IDB_Primitives
begin

section \<open>IndexedDB keys: encoding, decoding, extraction, comparison\<close>

text \<open>
  \<^verbatim>\<open>storage/IDBKey.h\<close> (the key type) and \<^verbatim>\<open>storage/IDBLevelDBCoding.cpp\<close>, lines 361 to 621.
  A key is an array of keys, a string, a date or a number; the encoding is a type byte
  followed by the payload. \<open>compareEncodedIDBKeys\<close> orders two encodings without decoding
  them; \<open>compareKeys\<close> is the order it has to implement.
\<close>

datatype key_type = InvalidType | ArrayType | StringType | DateType | NumberType | MinType

fun type_rank :: "key_type \<Rightarrow> int" where
  "type_rank InvalidType = 0"
| "type_rank ArrayType = 1"
| "type_rank StringType = 2"
| "type_rank DateType = 3"
| "type_rank NumberType = 4"
| "type_rank MinType = 5"

definition compareTypes :: "key_type \<Rightarrow> key_type \<Rightarrow> int" where
  "compareTypes a b = type_rank b - type_rank a"

datatype idbkey =
    InvalidKey
  | ArrayKey "idbkey list"
  | StringKey ustring
  | DateKey double
  | NumberKey double
  | MinKey

fun key_type_of :: "idbkey \<Rightarrow> key_type" where
  "key_type_of InvalidKey = InvalidType"
| "key_type_of (ArrayKey ks) = ArrayType"
| "key_type_of (StringKey s) = StringType"
| "key_type_of (DateKey d) = DateType"
| "key_type_of (NumberKey d) = NumberType"
| "key_type_of MinKey = MinType"

subsection \<open>Encoding\<close>

fun encodeIDBKey_into :: "idbkey \<Rightarrow> byte list \<Rightarrow> byte list option"
and encodeIDBKey_elements :: "idbkey list \<Rightarrow> byte list \<Rightarrow> byte list option" where
  "encodeIDBKey_into InvalidKey into = Some (into @ encodeByte kIDBKeyNullTypeByte)"
| "encodeIDBKey_into MinKey into = Some (into @ encodeByte kIDBKeyNullTypeByte)"
| "encodeIDBKey_into (ArrayKey ks) into =
     do { len \<leftarrow> encodeVarInt (word_of_nat (length ks));
          encodeIDBKey_elements ks (into @ encodeByte kIDBKeyArrayTypeByte @ len) }"
| "encodeIDBKey_into (StringKey s) into =
     do { bs \<leftarrow> encodeStringWithLength s;
          Some (into @ encodeByte kIDBKeyStringTypeByte @ bs) }"
| "encodeIDBKey_into (DateKey d) into =
     Some (into @ encodeByte kIDBKeyDateTypeByte @ encodeDouble d)"
| "encodeIDBKey_into (NumberKey d) into =
     Some (into @ encodeByte kIDBKeyNumberTypeByte @ encodeDouble d)"
| "encodeIDBKey_elements [] into = Some into"
| "encodeIDBKey_elements (k # ks) into =
     do { into' \<leftarrow> encodeIDBKey_into k into; encodeIDBKey_elements ks into' }"

definition encodeIDBKey :: "idbkey \<Rightarrow> byte list option" where
  "encodeIDBKey key = encodeIDBKey_into key []"

subsection \<open>Decoding\<close>

text \<open>
  The array case calls the decoder once per element; \<open>decodeIDBKey_elements\<close> is that
  \<^verbatim>\<open>while (length--)\<close> loop. Both end because every decoded key takes at least its type byte
  from the input.
\<close>

lemma decodeVarInt_loop_shorter:
  "decodeVarInt_loop p found shift = Found n p' \<Longrightarrow> length p' < length p"
proof (induction p found shift rule: decodeVarInt_loop.induct)
  case (2 c p found shift)
  then show ?case by (fastforce simp: Let_def split: if_splits)
qed simp

lemma decodeVarInt_shorter [consume_dests]:
  "decodeVarInt p = Found n p' \<Longrightarrow> length p' < length p"
  by (simp add: decodeVarInt_def decodeVarInt_loop_shorter)

lemma decodeStringWithLength_shorter [consume_dests]:
  "decodeStringWithLength p = Found s p' \<Longrightarrow> length p' < length p"
  by (fastforce simp: decodeStringWithLength_def Let_def bindD_Found_iff split: if_splits
      dest: decodeVarInt_shorter)

lemma decodeDouble_shorter [consume_dests]:
  "decodeDouble p = Found d p' \<Longrightarrow> length p' < length p"
  by (auto simp: decodeDouble_def split: if_splits)

function (sequential) decodeIDBKey :: "byte list \<Rightarrow> idbkey decoded"
and decodeIDBKey_elements :: "nat \<Rightarrow> byte list \<Rightarrow> idbkey list \<Rightarrow> idbkey list decoded" where
  "decodeIDBKey [] = NullPtr"
| "decodeIDBKey (type # p) =
     (if type = kIDBKeyNullTypeByte then Found InvalidKey p
      else if type = kIDBKeyArrayTypeByte then
        bindD (decodeVarInt p) (\<lambda>len p.
          if sint len < 0 then NullPtr
          else bindD (decodeIDBKey_elements (nat (sint len)) p []) (\<lambda>array p. Found (ArrayKey array) p))
      else if type = kIDBKeyStringTypeByte then
        bindD (decodeStringWithLength p) (\<lambda>s p. Found (StringKey s) p)
      else if type = kIDBKeyDateTypeByte then
        bindD (decodeDouble p) (\<lambda>d p. Found (DateKey d) p)
      else if type = kIDBKeyNumberTypeByte then
        bindD (decodeDouble p) (\<lambda>d p. Found (NumberKey d) p)
      else NullPtr)"
| "decodeIDBKey_elements n p array =
     (if n = 0 then Found array p
      else bindD (decodeIDBKey p) (\<lambda>key p. decodeIDBKey_elements (n - 1) p (array @ [key])))"
  by pat_completeness auto

lemma decodeIDBKey_dom_shorter:
  "decodeIDBKey_decodeIDBKey_elements_dom (Inl p) \<Longrightarrow>
     (\<forall>k p'. decodeIDBKey p = Found k p' \<longrightarrow> length p' < length p)"
  "decodeIDBKey_decodeIDBKey_elements_dom (Inr (n, q, array)) \<Longrightarrow>
     (\<forall>ks q'. decodeIDBKey_elements n q array = Found ks q' \<longrightarrow> length q' \<le> length q)"
proof (induction p and n q array rule: decodeIDBKey_decodeIDBKey_elements.pinduct)
  case (2 type p)
  then show ?case
    by (simp add: decodeIDBKey.psimps bindD_Found_iff)
       (fastforce dest: consume_dests split: if_splits)
next
  case (3 n p array)
  then show ?case
    by (simp add: decodeIDBKey_elements.psimps bindD_Found_iff)
       (metis (no_types, lifting) order.strict_implies_order order_trans)
qed (simp add: decodeIDBKey.psimps)

termination decodeIDBKey
proof (relation "measure (\<lambda>x. case x of Inl p \<Rightarrow> 2 * length p | Inr (n, q, array) \<Rightarrow> 2 * length q + 1)")
qed (auto dest: consume_dests decodeIDBKey_dom_shorter)

declare decodeIDBKey.simps [simp del] decodeIDBKey_elements.simps [simp del]

subsection \<open>Extraction\<close>

text \<open>
  \<open>extractEncodedIDBKey\<close> copies the bytes of one encoded key without building the key.
  \<open>start\<close> is the whole range, so \<^verbatim>\<open>p - start\<close> is the number of bytes read. In the string
  case the byte count \<^verbatim>\<open>p - start + length * 2\<close> is passed on as a \<^verbatim>\<open>size_t\<close>: a negative
  count is an allocation no vector can satisfy, which aborts the process; a small negative
  \<open>length\<close> only moves the pointer back over the length field.
\<close>

definition extractEncodedString :: "byte list \<Rightarrow> byte list \<Rightarrow> byte list decoded" where
  "extractEncodedString start p = bindD (decodeVarInt p) (\<lambda>len p.
     if mul2_overflows len then Fault SignedOverflow
     else if sint len * 2 > int (length p) then NullPtr
     else let n = int (length start - length p) + sint len * 2
          in if n < 0 then Fault HugeAllocation
             else Found (take (nat n) start) (drop (nat n) start))"

function (sequential) extractEncodedIDBKey :: "byte list \<Rightarrow> byte list decoded"
and extractEncodedIDBKey_elements :: "nat \<Rightarrow> byte list \<Rightarrow> byte list \<Rightarrow> byte list decoded" where
  "extractEncodedIDBKey [] = NullPtr"
| "extractEncodedIDBKey (type # p) =
     (let start = type # p
      in if type = kIDBKeyNullTypeByte \<or> type = kIDBKeyMinKeyTypeByte then
           Found (encodeByte type) p
         else if type = kIDBKeyArrayTypeByte then
           bindD (decodeVarInt p) (\<lambda>len p.
             if sint len < 0 then NullPtr
             else extractEncodedIDBKey_elements (nat (sint len)) p
                    (take (length start - length p) start))
         else if type = kIDBKeyStringTypeByte then
           extractEncodedString start p
         else if type = kIDBKeyDateTypeByte \<or> type = kIDBKeyNumberTypeByte then
           (if length p < 8 then NullPtr else Found (take 9 start) (drop 9 start))
         else NullPtr)"
| "extractEncodedIDBKey_elements n p result =
     (if n = 0 then Found result p
      else bindD (extractEncodedIDBKey p) (\<lambda>subkey p.
             extractEncodedIDBKey_elements (n - 1) p (result @ subkey)))"
  by pat_completeness auto

text \<open>
  Only a variable-length integer of ten bytes can be negative: bit 63 comes from the tenth
  byte. So the count of bytes taken for a string of negative length is odd, and with the guard
  above at least one: the pointer always moves forward.
\<close>

lemma decodeVarInt_loop_neg_length:
  "decodeVarInt_loop p found (7 * i) = Found n p' \<Longrightarrow> \<not> bit found 63 \<Longrightarrow> bit n 63 \<Longrightarrow>
     length p = length p' + (10 - i)"
proof (induction p arbitrary: found i)
  case (Cons c p)
  let ?found = "found OR push_bit (7 * i) (ucast (c AND 0x7f)) :: int64"
  from Cons.prems(1) have i: "\<not> 64 \<le> 7 * i" by (auto split: if_splits)
  show ?case
  proof (cases "i = 9")
    case True
    have "decodeVarInt_loop p ?found 70 \<noteq> Found n p'" by (cases p) auto
    then show ?thesis
      using Cons.prems(1) True by (auto simp: Let_def split: if_splits)
  next
    case False
    then have f: "\<not> bit ?found 63"
      using i Cons.prems(2) unfolding masks_7f
      by (simp only: bit_or_iff bit_push_bit_iff bit_unsigned_iff bit_and_iff bit_mask_iff) auto
    then have "decodeVarInt_loop p ?found (7 * Suc i) = Found n p'"
      using i Cons.prems(1,3) by (auto simp: Let_def add.commute split: if_splits)
    from Cons.IH[OF this f Cons.prems(3)] False i show ?thesis by simp
  qed
qed simp

lemma decodeVarInt_neg_length:
  assumes "decodeVarInt p = Found n p'" and "sint n < 0"
  shows "length p = length p' + 10"
proof -
  have "bit n 63" using assms(2) nonneg_iff_bit[of n] by (auto simp: nonneg_def)
  then show ?thesis
    using assms(1) decodeVarInt_loop_neg_length[of p 0 0 n p'] by (simp add: decodeVarInt_def)
qed

lemma extractEncodedString_shorter [consume_dests]:
  assumes "extractEncodedString (c # p) p = Found s p'"
  shows "length p' < length (c # p)"
proof -
  from assms obtain len q where dec: "decodeVarInt p = Found len q"
    and n: "0 \<le> int (length (c # p) - length q) + sint len * 2"
    and p': "p' = drop (nat (int (length (c # p) - length q) + sint len * 2)) (c # p)"
    by (auto simp: extractEncodedString_def bindD_Found_iff Let_def not_less split: if_splits)
  have "0 < int (length (c # p) - length q) + sint len * 2"
  proof (cases "sint len < 0")
    case True
    then have "int (length (c # p) - length q) = 11"
      using decodeVarInt_neg_length[OF dec] by simp
    with n show ?thesis by presburger
  next
    case False
    moreover have "1 \<le> length (c # p) - length q"
      using decodeVarInt_shorter[OF dec] by simp
    ultimately show ?thesis by simp
  qed
  then show ?thesis by (simp add: p' del: drop_Suc_Cons)
qed

lemma extractEncodedIDBKey_dom_shorter:
  "extractEncodedIDBKey_extractEncodedIDBKey_elements_dom (Inl p) \<Longrightarrow>
     (\<forall>k p'. extractEncodedIDBKey p = Found k p' \<longrightarrow> length p' < length p)"
  "extractEncodedIDBKey_extractEncodedIDBKey_elements_dom (Inr (n, q, r)) \<Longrightarrow>
     (\<forall>k q'. extractEncodedIDBKey_elements n q r = Found k q' \<longrightarrow> length q' \<le> length q)"
proof (induction p and n q r rule: extractEncodedIDBKey_extractEncodedIDBKey_elements.pinduct)
  case (2 type p)
  then show ?case
    by (simp add: extractEncodedIDBKey.psimps Let_def bindD_Found_iff)
       (fastforce dest: consume_dests split: if_splits)
next
  case (3 n p r)
  then show ?case
    by (simp add: extractEncodedIDBKey_elements.psimps bindD_Found_iff)
       (metis (no_types, lifting) order.strict_implies_order order_trans)
qed (simp add: extractEncodedIDBKey.psimps)

termination extractEncodedIDBKey
proof (relation "measure (\<lambda>x. case x of Inl p \<Rightarrow> 2 * length p | Inr (n, q, r) \<Rightarrow> 2 * length q + 1)")
qed (auto dest: consume_dests extractEncodedIDBKey_dom_shorter)

declare extractEncodedIDBKey.simps [simp del] extractEncodedIDBKey_elements.simps [simp del]

subsection \<open>Comparison\<close>

definition keyTypeByteToKeyType :: "byte \<Rightarrow> key_type" where
  "keyTypeByteToKeyType type =
     (if type = kIDBKeyNullTypeByte then InvalidType
      else if type = kIDBKeyArrayTypeByte then ArrayType
      else if type = kIDBKeyStringTypeByte then StringType
      else if type = kIDBKeyDateTypeByte then DateType
      else if type = kIDBKeyNumberTypeByte then NumberType
      else if type = kIDBKeyMinKeyTypeByte then MinType
      else InvalidType)"

definition compareEncodedDoubles :: "byte list \<Rightarrow> byte list \<Rightarrow> compared" where
  "compareEncodedDoubles p q =
     (case (decodeDouble p, decodeDouble q) of
        (Found d p, Found e q) \<Rightarrow>
          Cmp (if double_less d e then -1 else if double_less e d then 1 else 0) (Some p) (Some q)
      | _ \<Rightarrow> CmpFault UninitializedRead)"

text \<open>
  The two pointers are reference parameters. \<open>compareEncodedArrays\<close> is the element loop; a
  pointer that an inner comparison left at null is followed by the next iteration.
\<close>

function (sequential) compareEncodedIDBKeys_at :: "byte list \<Rightarrow> byte list \<Rightarrow> compared"
and compareEncodedArrays :: "nat \<Rightarrow> byte list option \<Rightarrow> byte list option \<Rightarrow> compared" where
  "compareEncodedIDBKeys_at (typeA # p) (typeB # q) =
     (let x = compareTypes (keyTypeByteToKeyType typeA) (keyTypeByteToKeyType typeB)
      in if x \<noteq> 0 then Cmp x (Some p) (Some q)
         else if typeA = kIDBKeyNullTypeByte \<or> typeA = kIDBKeyMinKeyTypeByte then
           Cmp 0 (Some p) (Some q)
         else if typeA = kIDBKeyArrayTypeByte then
           (case decodeVarInt p of Fault f \<Rightarrow> CmpFault f | NullPtr \<Rightarrow> Cmp 0 None (Some q)
            | Found lengthA p \<Rightarrow>
           (case decodeVarInt q of Fault f \<Rightarrow> CmpFault f | NullPtr \<Rightarrow> Cmp 0 (Some p) None
            | Found lengthB q \<Rightarrow>
                if sint lengthA < 0 \<or> sint lengthB < 0 then Cmp 0 (Some p) (Some q)
                else (case compareEncodedArrays (nat (min (sint lengthA) (sint lengthB)))
                             (Some p) (Some q) of
                        CmpFault f \<Rightarrow> CmpFault f
                      | Cmp cmp p q \<Rightarrow>
                          if cmp \<noteq> 0 then Cmp cmp p q
                          else if sint lengthA < sint lengthB then Cmp (-1) p q
                          else if sint lengthA > sint lengthB then Cmp 1 p q
                          else Cmp 0 p q)))
         else if typeA = kIDBKeyStringTypeByte then compareEncodedStringsWithLength p q
         else if typeA = kIDBKeyDateTypeByte \<or> typeA = kIDBKeyNumberTypeByte then
           compareEncodedDoubles p q
         else Cmp 0 (Some p) (Some q))"
| "compareEncodedIDBKeys_at p q = CmpFault ReadPastEnd"
| "compareEncodedArrays n p q =
     (if n = 0 then Cmp 0 p q
      else (case p of None \<Rightarrow> CmpFault NullPointer | Some p \<Rightarrow>
           (case q of None \<Rightarrow> CmpFault NullPointer | Some q \<Rightarrow>
           (case compareEncodedIDBKeys_at p q of CmpFault f \<Rightarrow> CmpFault f
            | Cmp cmp p q \<Rightarrow> if cmp \<noteq> 0 then Cmp cmp p q
                              else compareEncodedArrays (n - 1) p q))))"
  by pat_completeness auto

lemma compareEncodedStrings_shorter [consume_dests]:
  "compareEncodedStringsWithLength p q = Cmp x (Some p') q' \<Longrightarrow> length p' < length p"
  by (auto simp: compareEncodedStringsWithLength_def Let_def
      split: decoded.splits if_splits dest!: decodeVarInt_shorter intro: less_imp_diff_less)

lemma compareEncodedDoubles_shorter [consume_dests]:
  "compareEncodedDoubles p q = Cmp x (Some p') q' \<Longrightarrow> length p' < length p"
  by (fastforce simp: compareEncodedDoubles_def split: decoded.splits dest: decodeDouble_shorter)

lemma compareEncodedIDBKeys_dom_shorter:
  "compareEncodedIDBKeys_at_compareEncodedArrays_dom (Inl (p, q)) \<Longrightarrow>
     (\<forall>x p' q'. compareEncodedIDBKeys_at p q = Cmp x (Some p') q' \<longrightarrow> length p' < length p)"
  "compareEncodedIDBKeys_at_compareEncodedArrays_dom (Inr (n, r, t)) \<Longrightarrow>
     (\<forall>x p' q'. compareEncodedArrays n r t = Cmp x (Some p') q' \<longrightarrow>
        (\<exists>r'. r = Some r' \<and> length p' \<le> length r'))"
proof (induction p q and n r t rule: compareEncodedIDBKeys_at_compareEncodedArrays.pinduct)
  case (1 typeA p typeB q)
  then show ?case
    by (simp add: compareEncodedIDBKeys_at.psimps Let_def)
       (fastforce dest: consume_dests split: if_splits decoded.splits compared.splits)
next
  case (3 n p q)
  show ?case
  proof (intro allI impI)
    fix x p' q'
    assume eq: "compareEncodedArrays n p q = Cmp x (Some p') q'"
    show "\<exists>r'. p = Some r' \<and> length p' \<le> length r'"
    proof (cases "n = 0")
      case True
      with eq 3(1) show ?thesis by (simp add: compareEncodedArrays.psimps)
    next
      case False
      with eq 3(1) obtain r t cmp pp qq where pq: "p = Some r" "q = Some t"
        and at: "compareEncodedIDBKeys_at r t = Cmp cmp pp qq"
        and rest: "(if cmp \<noteq> 0 then Cmp cmp pp qq else compareEncodedArrays (n - 1) pp qq) =
          Cmp x (Some p') q'"
        by (auto simp: compareEncodedArrays.psimps split: option.splits compared.splits)
      from 3(2)[OF False pq] at have "\<forall>r'. pp = Some r' \<longrightarrow> length r' < length r" by blast
      moreover have "cmp = 0 \<Longrightarrow> \<exists>r'. pp = Some r' \<and> length p' \<le> length r'"
        using 3(3)[OF False pq at] rest by simp
      ultimately show ?thesis
        using rest pq by (cases "cmp = 0") fastforce+
    qed
  qed
qed (simp_all add: compareEncodedIDBKeys_at.psimps)

termination compareEncodedIDBKeys_at
proof (relation "measure (\<lambda>x. case x of Inl (p, q) \<Rightarrow> 2 * length p
    | Inr (n, p, q) \<Rightarrow> (case p of None \<Rightarrow> 0 | Some p \<Rightarrow> 2 * length p + 1))")
qed (auto dest: consume_dests compareEncodedIDBKeys_dom_shorter split: option.splits)

declare compareEncodedIDBKeys_at.simps [simp del] compareEncodedArrays.simps [simp del]

text \<open>The overload on two vectors: only the result is used, not the final pointers.\<close>

definition compareEncodedIDBKeys :: "byte list \<Rightarrow> byte list \<Rightarrow> fault + int" where
  "compareEncodedIDBKeys keyA keyB =
     (case compareEncodedIDBKeys_at keyA keyB of Cmp x p q \<Rightarrow> Inr x | CmpFault f \<Rightarrow> Inl f)"

text \<open>\<open>codePointCompare\<close> of \<^verbatim>\<open>wtf/text/StringImpl.cpp\<close>, lexicographic on UTF-16 code units.\<close>

fun codePointCompare :: "ustring \<Rightarrow> ustring \<Rightarrow> int" where
  "codePointCompare (c1 # s1) (c2 # s2) =
     (if c1 = c2 then codePointCompare s1 s2 else if c1 > c2 then 1 else -1)"
| "codePointCompare [] [] = 0"
| "codePointCompare (c1 # s1) [] = 1"
| "codePointCompare [] (c2 # s2) = -1"

end
