(* ===== verification/IDB_Keys.thy ===== *)
theory IDB_Keys
  imports IDB_Key
begin

section \<open>IndexedDB on LevelDB: the key classes\<close>

text \<open>
  \<^verbatim>\<open>storage/IDBLevelDBCoding.cpp\<close>, lines 623 to 1499, and the classes of
  \<^verbatim>\<open>IDBLevelDBCoding.h\<close>: the ternary prefix every key starts with, one class per kind of
  entry with its \<open>encode\<close>, \<open>decode\<close> and \<open>compare\<close>, and the comparator LevelDB calls. A decoder
  that only fills one member returns it; the others return a record of the members.
\<close>

definition kObjectStoreDataIndexId :: byte where "kObjectStoreDataIndexId = 1"
definition kExistsEntryIndexId :: byte where "kExistsEntryIndexId = 2"
definition kMinimumIndexId :: byte where "kMinimumIndexId = 30"
definition kSchemaVersionTypeByte :: byte where "kSchemaVersionTypeByte = 0"
definition kMaxDatabaseIdTypeByte :: byte where "kMaxDatabaseIdTypeByte = 1"
definition kDatabaseFreeListTypeByte :: byte where "kDatabaseFreeListTypeByte = 100"
definition kDatabaseNameTypeByte :: byte where "kDatabaseNameTypeByte = 201"
definition kObjectStoreMetaDataTypeByte :: byte where "kObjectStoreMetaDataTypeByte = 50"
definition kIndexMetaDataTypeByte :: byte where "kIndexMetaDataTypeByte = 100"
definition kObjectStoreFreeListTypeByte :: byte where "kObjectStoreFreeListTypeByte = 150"
definition kIndexFreeListTypeByte :: byte where "kIndexFreeListTypeByte = 151"
definition kObjectStoreNamesTypeByte :: byte where "kObjectStoreNamesTypeByte = 200"
definition kIndexNamesKeyTypeByte :: byte where "kIndexNamesKeyTypeByte = 201"

lemmas entry_type_bytes = kObjectStoreDataIndexId_def kExistsEntryIndexId_def kMinimumIndexId_def
  kSchemaVersionTypeByte_def kMaxDatabaseIdTypeByte_def kDatabaseFreeListTypeByte_def
  kDatabaseNameTypeByte_def kObjectStoreMetaDataTypeByte_def kIndexMetaDataTypeByte_def
  kObjectStoreFreeListTypeByte_def kIndexFreeListTypeByte_def kObjectStoreNamesTypeByte_def
  kIndexNamesKeyTypeByte_def

subsection \<open>KeyPrefix\<close>

record keyPrefix =
  kp_databaseId :: int64
  kp_objectStoreId :: int64
  kp_indexId :: int64

datatype keyPrefix_type =
  kGlobalMetaData | kDatabaseMetaData | kObjectStoreData | kExistsEntry | kIndexData | kInvalidType

definition KeyPrefix :: "int64 \<Rightarrow> int64 \<Rightarrow> int64 \<Rightarrow> keyPrefix" where
  "KeyPrefix databaseId objectStoreId indexId =
     \<lparr>kp_databaseId = databaseId, kp_objectStoreId = objectStoreId, kp_indexId = indexId\<rparr>"

definition KeyPrefix_decode :: "byte list \<Rightarrow> keyPrefix decoded" where
  "KeyPrefix_decode start = (case start of [] \<Rightarrow> NullPtr
   | firstByte # start \<Rightarrow>
     let databaseIdBytes = unat (drop_bit 5 firstByte AND 0x7) + 1;
         objectStoreIdBytes = unat (drop_bit 2 firstByte AND 0x7) + 1;
         indexIdBytes = unat (firstByte AND 0x3) + 1
     in if databaseIdBytes + objectStoreIdBytes + indexIdBytes > length start then NullPtr
        else let d = take databaseIdBytes start; start = drop databaseIdBytes start;
                 s = take objectStoreIdBytes start; start = drop objectStoreIdBytes start;
                 i = take indexIdBytes start; start = drop indexIdBytes start
             in case (decodeInt d, decodeInt s, decodeInt i) of
                  (Inr databaseId, Inr objectStoreId, Inr indexId) \<Rightarrow>
                    Found (KeyPrefix databaseId objectStoreId indexId) start
                | _ \<Rightarrow> Fault ShiftTooFar)"

definition KeyPrefix_encode :: "keyPrefix \<Rightarrow> byte list option" where
  "KeyPrefix_encode prefix = do {
     databaseIdString \<leftarrow> encodeInt (kp_databaseId prefix);
     objectStoreIdString \<leftarrow> encodeInt (kp_objectStoreId prefix);
     indexIdString \<leftarrow> encodeInt (kp_indexId prefix);
     let firstByte = (push_bit 5 (word_of_nat (length databaseIdString - 1))
           OR push_bit 2 (word_of_nat (length objectStoreIdString - 1))
           OR word_of_nat (length indexIdString - 1) :: byte);
     Some (firstByte # databaseIdString @ objectStoreIdString @ indexIdString) }"

definition KeyPrefix_compare :: "keyPrefix \<Rightarrow> keyPrefix \<Rightarrow> int" where
  "KeyPrefix_compare this other =
     (if kp_databaseId this \<noteq> kp_databaseId other
      then compareInts (kp_databaseId this) (kp_databaseId other)
      else if kp_objectStoreId this \<noteq> kp_objectStoreId other
      then compareInts (kp_objectStoreId this) (kp_objectStoreId other)
      else if kp_indexId this \<noteq> kp_indexId other
      then compareInts (kp_indexId this) (kp_indexId other)
      else 0)"

definition KeyPrefix_type :: "keyPrefix \<Rightarrow> keyPrefix_type" where
  "KeyPrefix_type prefix =
     (if kp_databaseId prefix = 0 then kGlobalMetaData
      else if kp_objectStoreId prefix = 0 then kDatabaseMetaData
      else if kp_indexId prefix = ucast kObjectStoreDataIndexId then kObjectStoreData
      else if kp_indexId prefix = ucast kExistsEntryIndexId then kExistsEntry
      else if sint (kp_indexId prefix) \<ge> uint kMinimumIndexId then kIndexData
      else kInvalidType)"

subsection \<open>Global meta-data keys\<close>

definition SchemaVersionKey_encode :: "byte list option" where
  "SchemaVersionKey_encode = do { ret \<leftarrow> KeyPrefix_encode (KeyPrefix 0 0 0);
     Some (ret @ encodeByte kSchemaVersionTypeByte) }"

definition MaxDatabaseIdKey_encode :: "byte list option" where
  "MaxDatabaseIdKey_encode = do { ret \<leftarrow> KeyPrefix_encode (KeyPrefix 0 0 0);
     Some (ret @ encodeByte kMaxDatabaseIdTypeByte) }"

text \<open>
  Every decoder below first reads the prefix, then the type byte, which it does not check
  (the assertions on both are compiled out), and returns null when the input ends there.
\<close>

definition DatabaseFreeListKey_decode :: "byte list \<Rightarrow> int64 decoded" where
  "DatabaseFreeListKey_decode start = bindD (KeyPrefix_decode start) (\<lambda>prefix p.
     case p of [] \<Rightarrow> NullPtr | typeByte # p \<Rightarrow>
     if p = [] then NullPtr else decodeVarInt p)"

definition DatabaseFreeListKey_encode :: "int64 \<Rightarrow> byte list option" where
  "DatabaseFreeListKey_encode databaseId = do { ret \<leftarrow> KeyPrefix_encode (KeyPrefix 0 0 0);
     n \<leftarrow> encodeVarInt databaseId;
     Some (ret @ encodeByte kDatabaseFreeListTypeByte @ n) }"

definition DatabaseFreeListKey_encodeMaxKey :: "byte list option" where
  "DatabaseFreeListKey_encodeMaxKey = DatabaseFreeListKey_encode INT64_MAX"

definition DatabaseFreeListKey_compare :: "int64 \<Rightarrow> int64 \<Rightarrow> int" where
  "DatabaseFreeListKey_compare this other = compareInts this other"

record databaseNameKey =
  dn_origin :: ustring
  dn_databaseName :: ustring

definition DatabaseNameKey_decode :: "byte list \<Rightarrow> databaseNameKey decoded" where
  "DatabaseNameKey_decode start = bindD (KeyPrefix_decode start) (\<lambda>prefix p.
     case p of [] \<Rightarrow> NullPtr | typeByte # p \<Rightarrow>
     if p = [] then NullPtr
     else bindD (decodeStringWithLength p) (\<lambda>origin p.
            bindD (decodeStringWithLength p) (\<lambda>databaseName p.
              Found \<lparr>dn_origin = origin, dn_databaseName = databaseName\<rparr> p)))"

definition DatabaseNameKey_encode :: "ustring \<Rightarrow> ustring \<Rightarrow> byte list option" where
  "DatabaseNameKey_encode origin databaseName = do { ret \<leftarrow> KeyPrefix_encode (KeyPrefix 0 0 0);
     o' \<leftarrow> encodeStringWithLength origin;
     n \<leftarrow> encodeStringWithLength databaseName;
     Some (ret @ encodeByte kDatabaseNameTypeByte @ o' @ n) }"

definition DatabaseNameKey_encodeMinKeyForOrigin :: "ustring \<Rightarrow> byte list option" where
  "DatabaseNameKey_encodeMinKeyForOrigin origin = DatabaseNameKey_encode origin []"

definition DatabaseNameKey_encodeStopKeyForOrigin :: "ustring \<Rightarrow> byte list option" where
  "DatabaseNameKey_encodeStopKeyForOrigin origin =
     DatabaseNameKey_encodeMinKeyForOrigin (origin @ [1])"

definition DatabaseNameKey_compare :: "databaseNameKey \<Rightarrow> databaseNameKey \<Rightarrow> int" where
  "DatabaseNameKey_compare this other =
     (let x = codePointCompare (dn_origin this) (dn_origin other)
      in if x \<noteq> 0 then x
         else codePointCompare (dn_databaseName this) (dn_databaseName other))"

subsection \<open>Database meta-data keys\<close>

datatype databaseMetaDataType = kOriginName | kDatabaseName | kUserVersion | kMaxObjectStoreId

fun metaDataType_byte :: "databaseMetaDataType \<Rightarrow> byte" where
  "metaDataType_byte kOriginName = 0"
| "metaDataType_byte kDatabaseName = 1"
| "metaDataType_byte kUserVersion = 2"
| "metaDataType_byte kMaxObjectStoreId = 3"

definition DatabaseMetaDataKey_encode :: "int64 \<Rightarrow> databaseMetaDataType \<Rightarrow> byte list option" where
  "DatabaseMetaDataKey_encode databaseId metaDataType = do {
     ret \<leftarrow> KeyPrefix_encode (KeyPrefix databaseId 0 0);
     Some (ret @ encodeByte (metaDataType_byte metaDataType)) }"

record objectStoreMetaDataKey =
  osm_objectStoreId :: int64
  osm_metaDataType :: int64

definition ObjectStoreMetaDataKey_decode :: "byte list \<Rightarrow> objectStoreMetaDataKey decoded" where
  "ObjectStoreMetaDataKey_decode start = bindD (KeyPrefix_decode start) (\<lambda>prefix p.
     case p of [] \<Rightarrow> NullPtr | typeByte # p \<Rightarrow>
     if p = [] then NullPtr
     else bindD (decodeVarInt p) (\<lambda>objectStoreId p.
            if p = [] then NullPtr
            else bindD (decodeVarInt p) (\<lambda>metaDataType p.
              Found \<lparr>osm_objectStoreId = objectStoreId, osm_metaDataType = metaDataType\<rparr> p)))"

definition ObjectStoreMetaDataKey_encode :: "int64 \<Rightarrow> int64 \<Rightarrow> int64 \<Rightarrow> byte list option" where
  "ObjectStoreMetaDataKey_encode databaseId objectStoreId metaDataType = do {
     ret \<leftarrow> KeyPrefix_encode (KeyPrefix databaseId 0 0);
     n \<leftarrow> encodeVarInt objectStoreId;
     t \<leftarrow> encodeVarInt metaDataType;
     Some (ret @ encodeByte kObjectStoreMetaDataTypeByte @ n @ t) }"

definition ObjectStoreMetaDataKey_encodeMaxKey :: "int64 \<Rightarrow> byte list option" where
  "ObjectStoreMetaDataKey_encodeMaxKey databaseId =
     ObjectStoreMetaDataKey_encode databaseId INT64_MAX INT64_MAX"

definition ObjectStoreMetaDataKey_encodeMaxKey2 :: "int64 \<Rightarrow> int64 \<Rightarrow> byte list option" where
  "ObjectStoreMetaDataKey_encodeMaxKey2 databaseId objectStoreId =
     ObjectStoreMetaDataKey_encode databaseId objectStoreId INT64_MAX"

text \<open>The last line of the comparison converts an \<^verbatim>\<open>int64_t\<close> difference to \<^verbatim>\<open>int\<close>.\<close>

definition ObjectStoreMetaDataKey_compare ::
  "objectStoreMetaDataKey \<Rightarrow> objectStoreMetaDataKey \<Rightarrow> int" where
  "ObjectStoreMetaDataKey_compare this other =
     (let x = compareInts (osm_objectStoreId this) (osm_objectStoreId other)
      in if x \<noteq> 0 then x
         else sint (ucast (osm_metaDataType this - osm_metaDataType other) :: 32 word))"

record indexMetaDataKey =
  im_objectStoreId :: int64
  im_indexId :: int64
  im_metaDataType :: byte

definition IndexMetaDataKey_decode :: "byte list \<Rightarrow> indexMetaDataKey decoded" where
  "IndexMetaDataKey_decode start = bindD (KeyPrefix_decode start) (\<lambda>prefix p.
     case p of [] \<Rightarrow> NullPtr | typeByte # p \<Rightarrow>
     if p = [] then NullPtr
     else bindD (decodeVarInt p) (\<lambda>objectStoreId p.
          bindD (decodeVarInt p) (\<lambda>indexId p.
            case p of [] \<Rightarrow> NullPtr | metaDataType # p \<Rightarrow>
              Found \<lparr>im_objectStoreId = objectStoreId, im_indexId = indexId,
                     im_metaDataType = metaDataType\<rparr> p)))"

definition IndexMetaDataKey_encode :: "int64 \<Rightarrow> int64 \<Rightarrow> int64 \<Rightarrow> byte \<Rightarrow> byte list option" where
  "IndexMetaDataKey_encode databaseId objectStoreId indexId metaDataType = do {
     ret \<leftarrow> KeyPrefix_encode (KeyPrefix databaseId 0 0);
     n \<leftarrow> encodeVarInt objectStoreId;
     i \<leftarrow> encodeVarInt indexId;
     Some (ret @ encodeByte kIndexMetaDataTypeByte @ n @ i @ encodeByte metaDataType) }"

definition IndexMetaDataKey_encodeMaxKey :: "int64 \<Rightarrow> int64 \<Rightarrow> byte list option" where
  "IndexMetaDataKey_encodeMaxKey databaseId objectStoreId =
     IndexMetaDataKey_encode databaseId objectStoreId INT64_MAX 255"

definition IndexMetaDataKey_compare :: "indexMetaDataKey \<Rightarrow> indexMetaDataKey \<Rightarrow> int" where
  "IndexMetaDataKey_compare this other =
     (let x = compareInts (im_objectStoreId this) (im_objectStoreId other)
      in if x \<noteq> 0 then x
         else let x = compareInts (im_indexId this) (im_indexId other)
              in if x \<noteq> 0 then x
                 else uint (im_metaDataType this) - uint (im_metaDataType other))"

subsection \<open>Free lists and names\<close>

definition ObjectStoreFreeListKey_decode :: "byte list \<Rightarrow> int64 decoded" where
  "ObjectStoreFreeListKey_decode start = bindD (KeyPrefix_decode start) (\<lambda>prefix p.
     case p of [] \<Rightarrow> NullPtr | typeByte # p \<Rightarrow>
     if p = [] then NullPtr else decodeVarInt p)"

definition ObjectStoreFreeListKey_encode :: "int64 \<Rightarrow> int64 \<Rightarrow> byte list option" where
  "ObjectStoreFreeListKey_encode databaseId objectStoreId = do {
     ret \<leftarrow> KeyPrefix_encode (KeyPrefix databaseId 0 0);
     n \<leftarrow> encodeVarInt objectStoreId;
     Some (ret @ encodeByte kObjectStoreFreeListTypeByte @ n) }"

definition ObjectStoreFreeListKey_encodeMaxKey :: "int64 \<Rightarrow> byte list option" where
  "ObjectStoreFreeListKey_encodeMaxKey databaseId = ObjectStoreFreeListKey_encode databaseId INT64_MAX"

definition ObjectStoreFreeListKey_compare :: "int64 \<Rightarrow> int64 \<Rightarrow> int" where
  "ObjectStoreFreeListKey_compare this other = compareInts this other"

record indexFreeListKey =
  ifl_objectStoreId :: int64
  ifl_indexId :: int64

definition IndexFreeListKey_decode :: "byte list \<Rightarrow> indexFreeListKey decoded" where
  "IndexFreeListKey_decode start = bindD (KeyPrefix_decode start) (\<lambda>prefix p.
     case p of [] \<Rightarrow> NullPtr | typeByte # p \<Rightarrow>
     if p = [] then NullPtr
     else bindD (decodeVarInt p) (\<lambda>objectStoreId p.
          bindD (decodeVarInt p) (\<lambda>indexId p.
            Found \<lparr>ifl_objectStoreId = objectStoreId, ifl_indexId = indexId\<rparr> p)))"

definition IndexFreeListKey_encode :: "int64 \<Rightarrow> int64 \<Rightarrow> int64 \<Rightarrow> byte list option" where
  "IndexFreeListKey_encode databaseId objectStoreId indexId = do {
     ret \<leftarrow> KeyPrefix_encode (KeyPrefix databaseId 0 0);
     n \<leftarrow> encodeVarInt objectStoreId;
     i \<leftarrow> encodeVarInt indexId;
     Some (ret @ encodeByte kIndexFreeListTypeByte @ n @ i) }"

definition IndexFreeListKey_encodeMaxKey :: "int64 \<Rightarrow> int64 \<Rightarrow> byte list option" where
  "IndexFreeListKey_encodeMaxKey databaseId objectStoreId =
     IndexFreeListKey_encode databaseId objectStoreId INT64_MAX"

definition IndexFreeListKey_compare :: "indexFreeListKey \<Rightarrow> indexFreeListKey \<Rightarrow> int" where
  "IndexFreeListKey_compare this other =
     (let x = compareInts (ifl_objectStoreId this) (ifl_objectStoreId other)
      in if x \<noteq> 0 then x else compareInts (ifl_indexId this) (ifl_indexId other))"

definition ObjectStoreNamesKey_decode :: "byte list \<Rightarrow> ustring decoded" where
  "ObjectStoreNamesKey_decode start = bindD (KeyPrefix_decode start) (\<lambda>prefix p.
     case p of [] \<Rightarrow> NullPtr | typeByte # p \<Rightarrow> decodeStringWithLength p)"

definition ObjectStoreNamesKey_encode :: "int64 \<Rightarrow> ustring \<Rightarrow> byte list option" where
  "ObjectStoreNamesKey_encode databaseId objectStoreName = do {
     ret \<leftarrow> KeyPrefix_encode (KeyPrefix databaseId 0 0);
     n \<leftarrow> encodeStringWithLength objectStoreName;
     Some (ret @ encodeByte kObjectStoreNamesTypeByte @ n) }"

definition ObjectStoreNamesKey_compare :: "ustring \<Rightarrow> ustring \<Rightarrow> int" where
  "ObjectStoreNamesKey_compare this other = codePointCompare this other"

record indexNamesKey =
  in_objectStoreId :: int64
  in_indexName :: ustring

definition IndexNamesKey_decode :: "byte list \<Rightarrow> indexNamesKey decoded" where
  "IndexNamesKey_decode start = bindD (KeyPrefix_decode start) (\<lambda>prefix p.
     case p of [] \<Rightarrow> NullPtr | typeByte # p \<Rightarrow>
     if p = [] then NullPtr
     else bindD (decodeVarInt p) (\<lambda>objectStoreId p.
          bindD (decodeStringWithLength p) (\<lambda>indexName p.
            Found \<lparr>in_objectStoreId = objectStoreId, in_indexName = indexName\<rparr> p)))"

definition IndexNamesKey_encode :: "int64 \<Rightarrow> int64 \<Rightarrow> ustring \<Rightarrow> byte list option" where
  "IndexNamesKey_encode databaseId objectStoreId indexName = do {
     ret \<leftarrow> KeyPrefix_encode (KeyPrefix databaseId 0 0);
     n \<leftarrow> encodeVarInt objectStoreId;
     s \<leftarrow> encodeStringWithLength indexName;
     Some (ret @ encodeByte kIndexNamesKeyTypeByte @ n @ s) }"

definition IndexNamesKey_compare :: "indexNamesKey \<Rightarrow> indexNamesKey \<Rightarrow> int" where
  "IndexNamesKey_compare this other =
     (let x = compareInts (in_objectStoreId this) (in_objectStoreId other)
      in if x \<noteq> 0 then x else codePointCompare (in_indexName this) (in_indexName other))"

subsection \<open>Object store data, exists entries, index data\<close>

definition ObjectStoreDataKey_decode :: "byte list \<Rightarrow> byte list decoded" where
  "ObjectStoreDataKey_decode start = bindD (KeyPrefix_decode start) (\<lambda>prefix p.
     if p = [] then NullPtr else extractEncodedIDBKey p)"

definition ObjectStoreDataKey_encode :: "int64 \<Rightarrow> int64 \<Rightarrow> byte list \<Rightarrow> byte list option" where
  "ObjectStoreDataKey_encode databaseId objectStoreId encodedUserKey = do {
     ret \<leftarrow> KeyPrefix_encode (KeyPrefix databaseId objectStoreId (ucast kObjectStoreDataIndexId));
     Some (ret @ encodedUserKey) }"

definition ObjectStoreDataKey_encode_key :: "int64 \<Rightarrow> int64 \<Rightarrow> idbkey \<Rightarrow> byte list option" where
  "ObjectStoreDataKey_encode_key databaseId objectStoreId userKey = do {
     k \<leftarrow> encodeIDBKey userKey; ObjectStoreDataKey_encode databaseId objectStoreId k }"

definition ObjectStoreDataKey_compare :: "byte list \<Rightarrow> byte list \<Rightarrow> fault + int" where
  "ObjectStoreDataKey_compare this other = compareEncodedIDBKeys this other"

text \<open>\<open>userKey\<close> ignores the returned pointer: on a failed decode it hands out a null key.\<close>

definition ObjectStoreDataKey_userKey :: "byte list \<Rightarrow> fault + idbkey option" where
  "ObjectStoreDataKey_userKey this = (case decodeIDBKey this of
     Found key p \<Rightarrow> Inr (Some key) | NullPtr \<Rightarrow> Inr None | Fault f \<Rightarrow> Inl f)"

definition ExistsEntryKey_decode :: "byte list \<Rightarrow> byte list decoded" where
  "ExistsEntryKey_decode start = bindD (KeyPrefix_decode start) (\<lambda>prefix p.
     if p = [] then NullPtr else extractEncodedIDBKey p)"

definition ExistsEntryKey_encode :: "int64 \<Rightarrow> int64 \<Rightarrow> byte list \<Rightarrow> byte list option" where
  "ExistsEntryKey_encode databaseId objectStoreId encodedKey = do {
     ret \<leftarrow> KeyPrefix_encode (KeyPrefix databaseId objectStoreId (ucast kExistsEntryIndexId));
     Some (ret @ encodedKey) }"

definition ExistsEntryKey_encode_key :: "int64 \<Rightarrow> int64 \<Rightarrow> idbkey \<Rightarrow> byte list option" where
  "ExistsEntryKey_encode_key databaseId objectStoreId userKey = do {
     k \<leftarrow> encodeIDBKey userKey; ExistsEntryKey_encode databaseId objectStoreId k }"

definition ExistsEntryKey_compare :: "byte list \<Rightarrow> byte list \<Rightarrow> fault + int" where
  "ExistsEntryKey_compare this other = compareEncodedIDBKeys this other"

record indexDataKey =
  id_databaseId :: int64
  id_objectStoreId :: int64
  id_indexId :: int64
  id_encodedUserKey :: "byte list"
  id_encodedPrimaryKey :: "byte list"
  id_sequenceNumber :: int64

definition IndexDataKey_decode :: "byte list \<Rightarrow> indexDataKey decoded" where
  "IndexDataKey_decode start = bindD (KeyPrefix_decode start) (\<lambda>prefix p.
     bindD (extractEncodedIDBKey p) (\<lambda>encodedUserKey p.
       let result = \<lparr>id_databaseId = kp_databaseId prefix, id_objectStoreId = kp_objectStoreId prefix,
                     id_indexId = kp_indexId prefix, id_encodedUserKey = encodedUserKey,
                     id_encodedPrimaryKey = minIDBKey, id_sequenceNumber = -1\<rparr>
       in if p = [] then Found result p
          else bindD (decodeVarInt p) (\<lambda>sequenceNumber p.
            let result = result\<lparr>id_sequenceNumber := sequenceNumber\<rparr>
            in if p = [] then Found result p
               else bindD (extractEncodedIDBKey p) (\<lambda>encodedPrimaryKey p.
                 Found (result\<lparr>id_encodedPrimaryKey := encodedPrimaryKey\<rparr>) p))))"

definition IndexDataKey_encode ::
  "int64 \<Rightarrow> int64 \<Rightarrow> int64 \<Rightarrow> byte list \<Rightarrow> byte list \<Rightarrow> int64 \<Rightarrow> byte list option" where
  "IndexDataKey_encode databaseId objectStoreId indexId encodedUserKey encodedPrimaryKey
       sequenceNumber = do {
     ret \<leftarrow> KeyPrefix_encode (KeyPrefix databaseId objectStoreId indexId);
     n \<leftarrow> encodeVarInt sequenceNumber;
     Some (ret @ encodedUserKey @ n @ encodedPrimaryKey) }"

definition IndexDataKey_encode_key :: "int64 \<Rightarrow> int64 \<Rightarrow> int64 \<Rightarrow> idbkey \<Rightarrow> byte list option" where
  "IndexDataKey_encode_key databaseId objectStoreId indexId userKey = do {
     k \<leftarrow> encodeIDBKey userKey;
     IndexDataKey_encode databaseId objectStoreId indexId k minIDBKey 0 }"

definition IndexDataKey_encodeMinKey :: "int64 \<Rightarrow> int64 \<Rightarrow> int64 \<Rightarrow> byte list option" where
  "IndexDataKey_encodeMinKey databaseId objectStoreId indexId =
     IndexDataKey_encode databaseId objectStoreId indexId minIDBKey minIDBKey 0"

definition IndexDataKey_encodeMaxKey :: "int64 \<Rightarrow> int64 \<Rightarrow> int64 \<Rightarrow> byte list option" where
  "IndexDataKey_encodeMaxKey databaseId objectStoreId indexId =
     IndexDataKey_encode databaseId objectStoreId indexId maxIDBKey maxIDBKey INT64_MAX"

definition IndexDataKey_compare :: "indexDataKey \<Rightarrow> indexDataKey \<Rightarrow> bool \<Rightarrow> fault + int" where
  "IndexDataKey_compare this other ignoreDuplicates =
     thenS (compareEncodedIDBKeys (id_encodedUserKey this) (id_encodedUserKey other)) (\<lambda>x.
       if x \<noteq> 0 then Inr x
       else if ignoreDuplicates then Inr 0
       else thenS (compareEncodedIDBKeys (id_encodedPrimaryKey this) (id_encodedPrimaryKey other)) (\<lambda>x.
              if x \<noteq> 0 then Inr x
              else Inr (compareInts (id_sequenceNumber this) (id_sequenceNumber other))))"

subsection \<open>The comparator\<close>

definition decodeAndCompare ::
  "(byte list \<Rightarrow> 'k decoded) \<Rightarrow> ('k \<Rightarrow> 'k \<Rightarrow> fault + int) \<Rightarrow> byte list \<Rightarrow> byte list \<Rightarrow> fault + int" where
  "decodeAndCompare decode cmp a b =
     (case (decode a, decode b) of
        (Found keyA pa, Found keyB pb) \<Rightarrow> cmp keyA keyB
      | (Fault f, _) \<Rightarrow> Inl f
      | (_, Fault f) \<Rightarrow> Inl f
      | _ \<Rightarrow> Inl AssertionFailed)"

definition compareGlobalMetaData ::
  "byte list \<Rightarrow> byte list \<Rightarrow> byte list \<Rightarrow> byte list \<Rightarrow> fault + int" where
  "compareGlobalMetaData a b ptrA ptrB = (case (ptrA, ptrB) of
     (typeByteA # _, typeByteB # _) \<Rightarrow>
       let x = uint typeByteA - uint typeByteB
       in if x \<noteq> 0 then Inr x
          else if typeByteA \<le> 1 then Inr 0
          else if typeByteA = kDatabaseFreeListTypeByte then
            decodeAndCompare DatabaseFreeListKey_decode
              (\<lambda>k l. Inr (DatabaseFreeListKey_compare k l)) a b
          else if typeByteA = kDatabaseNameTypeByte then
            decodeAndCompare DatabaseNameKey_decode (\<lambda>k l. Inr (DatabaseNameKey_compare k l)) a b
          else Inr 0
   | _ \<Rightarrow> Inl ReadPastEnd)"

definition compareDatabaseMetaData ::
  "byte list \<Rightarrow> byte list \<Rightarrow> byte list \<Rightarrow> byte list \<Rightarrow> fault + int" where
  "compareDatabaseMetaData a b ptrA ptrB = (case (ptrA, ptrB) of
     (typeByteA # _, typeByteB # _) \<Rightarrow>
       let x = uint typeByteA - uint typeByteB
       in if x \<noteq> 0 then Inr x
          else if typeByteA \<le> 3 then Inr 0
          else if typeByteA = kObjectStoreMetaDataTypeByte then
            decodeAndCompare ObjectStoreMetaDataKey_decode
              (\<lambda>k l. Inr (ObjectStoreMetaDataKey_compare k l)) a b
          else if typeByteA = kIndexMetaDataTypeByte then
            decodeAndCompare IndexMetaDataKey_decode (\<lambda>k l. Inr (IndexMetaDataKey_compare k l)) a b
          else if typeByteA = kObjectStoreFreeListTypeByte then
            decodeAndCompare ObjectStoreFreeListKey_decode
              (\<lambda>k l. Inr (ObjectStoreFreeListKey_compare k l)) a b
          else if typeByteA = kIndexFreeListTypeByte then
            decodeAndCompare IndexFreeListKey_decode (\<lambda>k l. Inr (IndexFreeListKey_compare k l)) a b
          else if typeByteA = kObjectStoreNamesTypeByte then
            decodeAndCompare ObjectStoreNamesKey_decode
              (\<lambda>k l. Inr (ObjectStoreNamesKey_compare k l)) a b
          else if typeByteA = kIndexNamesKeyTypeByte then
            decodeAndCompare IndexNamesKey_decode (\<lambda>k l. Inr (IndexNamesKey_compare k l)) a b
          else Inr 0
   | _ \<Rightarrow> Inl ReadPastEnd)"

text \<open>The three kinds of data keys treat a key that ends after its prefix as the smallest one.\<close>

definition compareUnlessEmpty :: "byte list \<Rightarrow> byte list \<Rightarrow> fault + int \<Rightarrow> fault + int" where
  "compareUnlessEmpty ptrA ptrB rest =
     (if ptrA = [] \<and> ptrB = [] then Inr 0
      else if ptrA = [] then Inr (-1)
      else if ptrB = [] then Inr 1
      else rest)"

definition compare :: "byte list \<Rightarrow> byte list \<Rightarrow> bool \<Rightarrow> fault + int" where
  "compare a b indexKeys =
     (case (KeyPrefix_decode a, KeyPrefix_decode b) of
        (Found prefixA ptrA, Found prefixB ptrB) \<Rightarrow>
          let x = KeyPrefix_compare prefixA prefixB
          in if x \<noteq> 0 then Inr x
             else (case KeyPrefix_type prefixA of
                 kGlobalMetaData \<Rightarrow> compareGlobalMetaData a b ptrA ptrB
               | kDatabaseMetaData \<Rightarrow> compareDatabaseMetaData a b ptrA ptrB
               | kObjectStoreData \<Rightarrow> compareUnlessEmpty ptrA ptrB
                   (decodeAndCompare ObjectStoreDataKey_decode ObjectStoreDataKey_compare a b)
               | kExistsEntry \<Rightarrow> compareUnlessEmpty ptrA ptrB
                   (decodeAndCompare ExistsEntryKey_decode ExistsEntryKey_compare a b)
               | kIndexData \<Rightarrow> compareUnlessEmpty ptrA ptrB
                   (decodeAndCompare IndexDataKey_decode
                      (\<lambda>k l. IndexDataKey_compare k l indexKeys) a b)
               | kInvalidType \<Rightarrow> Inr 0)
      | (Fault f, _) \<Rightarrow> Inl f
      | (_, Fault f) \<Rightarrow> Inl f
      | _ \<Rightarrow> Inl AssertionFailed)"

end
