(* ===== verification/WK_Comparator.thy ===== *)
theory WK_Comparator
  imports WK_Prelude
begin

section \<open>Three-way comparators\<close>

text \<open>
  LevelDB, like every ordered container, relies on its comparator being a total preorder: a
  function of two values whose result is negative, zero or positive, that gives zero on equal
  values, changes sign when the arguments are swapped, and is transitive. \<open>comparator\<close> states
  that contract on the values a \<open>carrier\<close> admits; the lemmas after it build comparators for
  pairs, lists and images.
\<close>

locale comparator =
  fixes carrier :: "'a \<Rightarrow> bool" and cmp :: "'a \<Rightarrow> 'a \<Rightarrow> int"
  assumes cmp_refl: "carrier a \<Longrightarrow> cmp a a = 0"
    and cmp_swap: "carrier a \<Longrightarrow> carrier b \<Longrightarrow> sgn (cmp b a) = - sgn (cmp a b)"
    and cmp_trans: "carrier a \<Longrightarrow> carrier b \<Longrightarrow> carrier c \<Longrightarrow>
      cmp a b \<le> 0 \<Longrightarrow> cmp b c \<le> 0 \<Longrightarrow> cmp a c \<le> 0"
begin

lemma cmp_pos_iff: "carrier a \<Longrightarrow> carrier b \<Longrightarrow> cmp b a > 0 \<longleftrightarrow> cmp a b < 0"
  using cmp_swap[of a b] by (auto simp: sgn_if split: if_splits)

lemma cmp_zero_iff: "carrier a \<Longrightarrow> carrier b \<Longrightarrow> cmp b a = 0 \<longleftrightarrow> cmp a b = 0"
  using cmp_swap[of a b] by (auto simp: sgn_if split: if_splits)

lemma cmp_nonpos_iff: "carrier a \<Longrightarrow> carrier b \<Longrightarrow> cmp b a \<le> 0 \<longleftrightarrow> cmp a b \<ge> 0"
  using cmp_pos_iff[of a b] by (auto simp: not_less[symmetric])

lemma cmp_total: "carrier a \<Longrightarrow> carrier b \<Longrightarrow> cmp a b \<le> 0 \<or> cmp b a \<le> 0"
  using cmp_nonpos_iff[of a b] by linarith

text \<open>One strict step makes the composition strict.\<close>

lemma cmp_strict:
  assumes "carrier a" and "carrier b" and "carrier c"
    and "cmp a b \<le> 0" and "cmp b c \<le> 0" and "cmp a b < 0 \<or> cmp b c < 0"
  shows "cmp a c < 0"
proof (rule ccontr)
  assume "\<not> cmp a c < 0"
  then have ca: "cmp c a \<le> 0" using assms(1,3) by (simp add: cmp_nonpos_iff)
  have "cmp b a \<le> 0" using assms(2,3,1,5) ca by (rule cmp_trans)
  moreover have "cmp c b \<le> 0" using assms(3,1,2) ca assms(4) by (rule cmp_trans)
  ultimately show False
    using assms(1-3,6) by (auto simp: cmp_nonpos_iff)
qed

end

text \<open>A comparison on the first difference, as \<^verbatim>\<open>if (int x = ...) return x;\<close> writes it.\<close>

definition andThen :: "int \<Rightarrow> int \<Rightarrow> int" where
  "andThen x y = (if x \<noteq> 0 then x else y)"

lemma andThen_simps [simp]: "andThen 0 y = y" "x \<noteq> 0 \<Longrightarrow> andThen x y = x"
  by (simp_all add: andThen_def)

fun lexcmp :: "('a \<Rightarrow> 'a \<Rightarrow> int) \<Rightarrow> 'a list \<Rightarrow> 'a list \<Rightarrow> int" where
  "lexcmp cmp (a # as) (b # bs) = andThen (cmp a b) (lexcmp cmp as bs)"
| "lexcmp cmp [] [] = 0"
| "lexcmp cmp (a # as) [] = 1"
| "lexcmp cmp [] (b # bs) = -1"

text \<open>
  The laws of a list comparison from the laws on its elements, for the elements only: in this
  form a comparator on a recursive type can be proved by induction on the type.
\<close>

lemma lexcmp_refl: "(\<And>a. a \<in> set as \<Longrightarrow> cmp a a = 0) \<Longrightarrow> lexcmp cmp as as = 0"
  by (induction as) simp_all

lemma lexcmp_swap:
  "(\<And>a b. a \<in> set as \<Longrightarrow> b \<in> set bs \<Longrightarrow> sgn (cmp b a) = - sgn (cmp a b)) \<Longrightarrow>
     sgn (lexcmp cmp bs as) = - sgn (lexcmp cmp as bs)"
proof (induction as bs rule: list_induct2')
  case (4 a as b bs)
  from "4.prems"[of a b] have s: "sgn (cmp b a) = - sgn (cmp a b)" by simp
  then have z: "cmp b a = 0 \<longleftrightarrow> cmp a b = 0" by (metis neg_0_equal_iff_equal sgn_0_0)
  show ?case
    using 4 s z by (cases "cmp a b = 0") simp_all
qed simp_all

definition strong_trans :: "('a \<Rightarrow> 'a \<Rightarrow> int) \<Rightarrow> 'a \<Rightarrow> 'a \<Rightarrow> 'a \<Rightarrow> bool" where
  "strong_trans cmp a b c \<longleftrightarrow> (cmp a b \<le> 0 \<longrightarrow> cmp b c \<le> 0 \<longrightarrow>
     cmp a c \<le> 0 \<and> (cmp a b < 0 \<or> cmp b c < 0 \<longrightarrow> cmp a c < 0) \<and>
     (cmp a b = 0 \<and> cmp b c = 0 \<longrightarrow> cmp a c = 0))"

lemma lexcmp_strong_trans:
  "(\<And>a b c. a \<in> set as \<Longrightarrow> b \<in> set bs \<Longrightarrow> c \<in> set cs \<Longrightarrow> strong_trans cmp a b c) \<Longrightarrow>
     strong_trans (lexcmp cmp) as bs cs"
proof (induction as arbitrary: bs cs)
  case Nil
  show ?case by (cases bs; cases cs) (simp_all add: strong_trans_def)
next
  case (Cons a as)
  show ?case
  proof (cases bs; cases cs)
    fix b bs' c cs'
    assume eq: "bs = b # bs'" "cs = c # cs'"
    from Cons.prems[of a b c] eq have "strong_trans cmp a b c" by simp
    moreover have "strong_trans (lexcmp cmp) as bs' cs'"
      using Cons.prems eq by (intro Cons.IH) simp
    ultimately show ?thesis
      unfolding eq strong_trans_def lexcmp.simps andThen_def by (auto split: if_splits)
  qed (auto simp: strong_trans_def)
qed

context comparator
begin

lemma strong_trans_cmp: "carrier a \<Longrightarrow> carrier b \<Longrightarrow> carrier c \<Longrightarrow> strong_trans cmp a b c"
  using cmp_trans[of a b c] cmp_trans[of c b a] cmp_strict[of a b c] cmp_nonpos_iff[of a c]
    cmp_zero_iff[of a b] cmp_zero_iff[of b c]
  unfolding strong_trans_def by auto

lemma comparator_lexcmp: "comparator (list_all carrier) (lexcmp cmp)"
proof
  fix as bs cs :: "'a list"
  assume as: "list_all carrier as"
  then show "lexcmp cmp as as = 0"
    by (intro lexcmp_refl) (auto simp: list_all_iff cmp_refl)
  assume bs: "list_all carrier bs"
  then show "sgn (lexcmp cmp bs as) = - sgn (lexcmp cmp as bs)"
    using as by (intro lexcmp_swap cmp_swap) (auto simp: list_all_iff)
  assume cs: "list_all carrier cs"
  have "strong_trans (lexcmp cmp) as bs cs"
    using as bs cs by (intro lexcmp_strong_trans strong_trans_cmp) (auto simp: list_all_iff)
  moreover assume "lexcmp cmp as bs \<le> 0" "lexcmp cmp bs cs \<le> 0"
  ultimately show "lexcmp cmp as cs \<le> 0" by (simp add: strong_trans_def)
qed

lemma comparator_image:
  assumes "\<And>x. D x \<Longrightarrow> carrier (h x)"
  shows "comparator D (\<lambda>x y. cmp (h x) (h y))"
  using assms by unfold_locales (auto intro: cmp_refl cmp_swap cmp_trans)

end

lemma comparator_pair:
  assumes "comparator C f" and "comparator D g"
  shows "comparator (\<lambda>p. C (fst p) \<and> D (snd p))
    (\<lambda>p q. andThen (f (fst p) (fst q)) (g (snd p) (snd q)))"
proof -
  have swap: "sgn (andThen y' x') = - sgn (andThen y x)"
    if "sgn y' = - sgn y" "sgn x' = - sgn x" for x y x' y' :: int
    using that by (cases "y = 0") (auto simp: andThen_def sgn_if split: if_splits)
  have trans: "andThen (f a c) (g a' c') \<le> 0"
    if "strong_trans f a b c" "strong_trans g a' b' c'"
      "andThen (f a b) (g a' b') \<le> 0" "andThen (f b c) (g b' c') \<le> 0" for a b c a' b' c'
    using that unfolding strong_trans_def andThen_def by (auto split: if_splits)
  show ?thesis
  proof
    fix p q r :: "'a \<times> 'b"
    assume p: "C (fst p) \<and> D (snd p)"
    then show "andThen (f (fst p) (fst p)) (g (snd p) (snd p)) = 0"
      using assms by (simp add: comparator.cmp_refl)
    assume q: "C (fst q) \<and> D (snd q)"
    show "sgn (andThen (f (fst q) (fst p)) (g (snd q) (snd p))) =
        - sgn (andThen (f (fst p) (fst q)) (g (snd p) (snd q)))"
      using p q
      by (intro swap comparator.cmp_swap[OF assms(1)] comparator.cmp_swap[OF assms(2)]) auto
    assume r: "C (fst r) \<and> D (snd r)"
    have "strong_trans f (fst p) (fst q) (fst r)" and "strong_trans g (snd p) (snd q) (snd r)"
      using p q r
      by (auto intro: comparator.strong_trans_cmp[OF assms(1)] comparator.strong_trans_cmp[OF assms(2)])
    then show "andThen (f (fst p) (fst r)) (g (snd p) (snd r)) \<le> 0"
      if "andThen (f (fst p) (fst q)) (g (snd p) (snd q)) \<le> 0"
        "andThen (f (fst q) (fst r)) (g (snd q) (snd r)) \<le> 0"
      using that by (rule trans)
  qed
qed

lemma comparator_int: "comparator (\<lambda>_. True) (\<lambda>a b :: int. sgn (a - b))"
  by unfold_locales (auto simp: sgn_if split: if_splits)

end
