(* ===== verification/IDB_Key_Correct.thy ===== *)
theory IDB_Key_Correct
  imports IDB_Key WK_Comparator
begin

section \<open>IndexedDB keys: correctness of the encoding\<close>

text \<open>
  The keys a page can store are the \<open>encodable\<close> ones: no invalid or minimum marker inside,
  string lengths that fit the \<^verbatim>\<open>unsigned\<close> length of a string. For them the encoder returns,
  the decoder and the extractor invert it whatever follows in the buffer, and the comparison
  of two encodings is the order \<open>compareKeys\<close> on the keys.
\<close>

fun encodable :: "idbkey \<Rightarrow> bool" where
  "encodable InvalidKey = False"
| "encodable MinKey = False"
| "encodable (ArrayKey ks) = (length ks < 2 ^ 62 \<and> list_all encodable ks)"
| "encodable (StringKey s) = (length s < 2 ^ 32)"
| "encodable (DateKey d) = True"
| "encodable (NumberKey d) = True"

text \<open>The bytes of an encodable key, without the append-only buffer.\<close>

definition lengthBytes :: "nat \<Rightarrow> byte list" where
  "lengthBytes n = the (encodeVarInt (word_of_nat n))"

fun keyBytes :: "idbkey \<Rightarrow> byte list" where
  "keyBytes InvalidKey = [kIDBKeyNullTypeByte]"
| "keyBytes MinKey = [kIDBKeyNullTypeByte]"
| "keyBytes (ArrayKey ks) =
     kIDBKeyArrayTypeByte # lengthBytes (length ks) @ concat (map keyBytes ks)"
| "keyBytes (StringKey s) = kIDBKeyStringTypeByte # lengthBytes (length s) @ encodeString s"
| "keyBytes (DateKey d) = kIDBKeyDateTypeByte # encodeDouble d"
| "keyBytes (NumberKey d) = kIDBKeyNumberTypeByte # encodeDouble d"

lemma encodeVarInt_length: "n < 2 ^ 63 \<Longrightarrow> encodeVarInt (word_of_nat n) = Some (lengthBytes n)"
  using encodeVarInt_total[OF nonneg_of_nat, of n] by (auto simp: lengthBytes_def)

lemma decodeVarInt_length [codec_simps]:
  "n < 2 ^ 63 \<Longrightarrow> decodeVarInt (lengthBytes n @ rest) = Found (word_of_nat n) rest"
  by (rule decodeVarInt_encodeVarInt) (simp_all add: encodeVarInt_length nonneg_of_nat)

lemma encodeStringWithLength_bytes:
  "length s < 2 ^ 32 \<Longrightarrow> encodeStringWithLength s = Some (lengthBytes (length s) @ encodeString s)"
  by (simp add: encodeStringWithLength_def encodeVarInt_length)

lemma encodeIDBKey_into_bytes:
  "encodable k \<Longrightarrow> encodeIDBKey_into k into = Some (into @ keyBytes k)"
  "list_all encodable ks \<Longrightarrow> encodeIDBKey_elements ks into' = Some (into' @ concat (map keyBytes ks))"
  by (induction k into and ks into' rule: encodeIDBKey_into_encodeIDBKey_elements.induct)
    (simp_all add: encodeByte_def encodeStringWithLength_bytes encodeVarInt_length)

lemma encodeIDBKey_bytes: "encodable k \<Longrightarrow> encodeIDBKey k = Some (keyBytes k)"
  by (simp add: encodeIDBKey_def encodeIDBKey_into_bytes)

lemma keyBytes_not_Nil [simp]: "keyBytes k \<noteq> []"
  by (cases k) simp_all

subsection \<open>Decoding and extraction\<close>

lemma decodeIDBKey_elements_bytes:
  assumes "\<And>k rest. k \<in> set ks \<Longrightarrow> decodeIDBKey (keyBytes k @ rest) = Found k rest"
  shows "decodeIDBKey_elements (length ks) (concat (map keyBytes ks) @ rest) array =
    Found (array @ ks) rest"
  using assms
  by (induction ks arbitrary: array) (simp_all add: decodeIDBKey_elements.simps)

lemma decodeStringWithLength_bytes [codec_simps]:
  "length s < 2 ^ 32 \<Longrightarrow>
     decodeStringWithLength (lengthBytes (length s) @ encodeString s @ rest) = Found s rest"
  using decodeStringWithLength_encode[of s "lengthBytes (length s) @ encodeString s" rest]
  by (simp add: encodeStringWithLength_bytes)

lemma decodeIDBKey_bytes:
  "encodable k \<Longrightarrow> decodeIDBKey (keyBytes k @ rest) = Found k rest"
proof (induction k arbitrary: rest)
  case (ArrayKey ks)
  then have "decodeIDBKey_elements (length ks) (concat (map keyBytes ks) @ rest) [] = Found ks rest"
    by (subst decodeIDBKey_elements_bytes) (auto simp: list_all_iff)
  with ArrayKey.prems show ?case
    by (simp add: decodeIDBKey.simps idbkey_type_bytes codec_simps sint_of_nat_int64)
qed (simp_all add: decodeIDBKey.simps idbkey_type_bytes codec_simps)

lemma extractEncodedIDBKey_elements_bytes:
  assumes "\<And>k rest. k \<in> set ks \<Longrightarrow> extractEncodedIDBKey (keyBytes k @ rest) = Found (keyBytes k) rest"
  shows "extractEncodedIDBKey_elements (length ks) (concat (map keyBytes ks) @ rest) result =
    Found (result @ concat (map keyBytes ks)) rest"
  using assms
  by (induction ks arbitrary: result) (simp_all add: extractEncodedIDBKey_elements.simps)

lemma extractEncodedIDBKey_bytes:
  "encodable k \<Longrightarrow> extractEncodedIDBKey (keyBytes k @ rest) = Found (keyBytes k) rest"
proof (induction k arbitrary: rest)
  case (ArrayKey ks)
  then have "extractEncodedIDBKey_elements (length ks) (concat (map keyBytes ks) @ rest) result =
      Found (result @ concat (map keyBytes ks)) rest" for result
    by (intro extractEncodedIDBKey_elements_bytes) (auto simp: list_all_iff)
  with ArrayKey.prems show ?case
    by (simp add: extractEncodedIDBKey.simps idbkey_type_bytes codec_simps sint_of_nat_int64)
next
  case (StringKey s)
  let ?n = "word_of_nat (length s) :: int64"
  have "nonneg ?n" "sint ?n = int (length s)" "uint ?n = int (length s)"
    using StringKey by (simp_all add: nonneg_of_nat sint_of_nat_int64 uint_of_nat_int64)
  with StringKey show ?case
    by (simp add: extractEncodedIDBKey.simps extractEncodedString_def idbkey_type_bytes codec_simps
        mul2_overflows_nonneg nat_add_distrib nat_mult_distrib Let_def)
qed (simp_all add: extractEncodedIDBKey.simps idbkey_type_bytes)

subsection \<open>The order on keys\<close>

definition compareDoubles :: "double \<Rightarrow> double \<Rightarrow> int" where
  "compareDoubles d e = (if double_less d e then -1 else if double_less e d then 1 else 0)"

fun compareKeys :: "idbkey \<Rightarrow> idbkey \<Rightarrow> int"
and compareKeyLists :: "idbkey list \<Rightarrow> idbkey list \<Rightarrow> int" where
  "compareKeys (ArrayKey as) (ArrayKey bs) = compareKeyLists as bs"
| "compareKeys (StringKey s) (StringKey t) = codePointCompare s t"
| "compareKeys (DateKey d) (DateKey e) = compareDoubles d e"
| "compareKeys (NumberKey d) (NumberKey e) = compareDoubles d e"
| "compareKeys a b = compareTypes (key_type_of a) (key_type_of b)"
| "compareKeyLists (a # as) (b # bs) =
     (let x = compareKeys a b in if x \<noteq> 0 then x else compareKeyLists as bs)"
| "compareKeyLists [] [] = 0"
| "compareKeyLists (a # as) [] = 1"
| "compareKeyLists [] (b # bs) = -1"

subsection \<open>Comparison of encodings implements the order\<close>

lemma uchar_halves:
  fixes u :: uchar
  shows "unat u = unat (ucast (drop_bit 8 u) :: byte) * 256 + unat (ucast u :: byte)"
proof -
  have "unat u < 2 ^ LENGTH(16)" by (rule unsigned_less)
  then have "unat (ucast (drop_bit 8 u) :: byte) = unat u div 256"
    by (simp add: unsigned_ucast_eq unat_drop_bit_div take_bit_nat_eq_self less_mult_imp_div_less)
  moreover have "unat (ucast u :: byte) = unat u mod 256"
    by (simp add: unsigned_ucast_eq take_bit_eq_mod)
  ultimately show ?thesis by simp
qed

lemma memcmp_uchar:
  fixes u v :: uchar
  shows "memcmp (ucast (drop_bit 8 u) # ucast u # as) (ucast (drop_bit 8 v) # ucast v # bs) =
    (if u = v then memcmp as bs else if u > v then 1 else -1)"
proof -
  have less: "unat (w :: byte) < 256" for w
  proof -
    have "unat w < 2 ^ LENGTH(8)" by (rule unsigned_less)
    then show ?thesis by simp
  qed
  show ?thesis
    using uchar_halves[of u] uchar_halves[of v]
      less[of "ucast u"] less[of "ucast v"]
    by (auto simp: word_less_nat_alt word_unat_eq_iff)
qed

lemma take_encodeString: "take (2 * n) (encodeString s) = encodeString (take n s)"
proof (induction s arbitrary: n)
  case (Cons u s)
  then show ?case by (cases n) (simp_all add: Let_def)
qed simp

lemma take_encodeString': "take (n * 2) (encodeString s) = encodeString (take n s)"
  using take_encodeString[of n s] by (simp add: mult.commute)

lemma codePointCompare_memcmp:
  "codePointCompare s t =
     (let m = min (length s) (length t);
          x = memcmp (encodeString (take m s)) (encodeString (take m t))
      in if x \<noteq> 0 then x else if length s = length t then 0
         else if length t < length s then 1 else -1)"
proof (induction s t rule: codePointCompare.induct)
  case (1 c1 s1 c2 s2)
  then show ?case
    by (simp only: codePointCompare.simps list.size Let_def take_Suc_Cons min_Suc_Suc
        encodeString.simps memcmp_uchar add_Suc_right add_0_right) auto
qed (simp_all add: Let_def)

lemma compareEncodedStrings_bytes:
  assumes "length s < 2 ^ 32" and "length t < 2 ^ 32"
  shows "compareEncodedStringsWithLength
      (lengthBytes (length s) @ encodeString s @ ra) (lengthBytes (length t) @ encodeString t @ rb) =
    Cmp (codePointCompare s t) (Some ra) (Some rb)"
proof -
  let ?m = "word_of_nat (length s) :: int64" and ?n = "word_of_nat (length t) :: int64"
  have n: "nonneg ?m" "sint ?m = int (length s)" "uint ?m = int (length s)"
    "nonneg ?n" "sint ?n = int (length t)" "uint ?n = int (length t)"
    using assms by (simp_all add: nonneg_of_nat sint_of_nat_int64 uint_of_nat_int64)
  have eq: "?m = ?n \<longleftrightarrow> length s = length t"
    using n(3,6) by (metis of_nat_eq_iff)
  have "min (2 * length s) (2 * length t) = 2 * min (length s) (length t)" by (simp add: min_def)
  with assms n eq show ?thesis
    by (simp add: compareEncodedStringsWithLength_def codec_simps mul2_overflows_nonneg Let_def
        nat_mult_distrib take_encodeString take_encodeString' codePointCompare_memcmp[of s t])
qed

lemma compareEncodedDoubles_bytes:
  "compareEncodedDoubles (encodeDouble d @ ra) (encodeDouble e @ rb) =
     Cmp (compareDoubles d e) (Some ra) (Some rb)"
  by (simp add: compareEncodedDoubles_def codec_simps compareDoubles_def)

definition agrees :: "int \<Rightarrow> byte list \<Rightarrow> byte list \<Rightarrow> compared \<Rightarrow> bool" where
  "agrees x ra rb c \<longleftrightarrow>
     (\<exists>p q. c = Cmp x p q \<and> (x = 0 \<longrightarrow> p = Some ra \<and> q = Some rb))"

lemma agrees_Cmp [simp]: "agrees x ra rb (Cmp y p q) \<longleftrightarrow> x = y \<and> (x = 0 \<longrightarrow> p = Some ra \<and> q = Some rb)"
  by (auto simp: agrees_def)

lemma compareEncodedArrays_step:
  "compareEncodedArrays 0 p' q' = Cmp 0 p' q'"
  "compareEncodedArrays (Suc n) (Some p) (Some q) =
     (case compareEncodedIDBKeys_at p q of CmpFault f \<Rightarrow> CmpFault f
      | Cmp cmp p q \<Rightarrow> if cmp \<noteq> 0 then Cmp cmp p q else compareEncodedArrays n p q)"
  by (simp_all add: compareEncodedArrays.simps[of "Suc n"] compareEncodedArrays.simps[of 0]
      split: compared.split)

lemma compareEncodedArrays_bytes:
  assumes "\<And>a b ra rb. a \<in> set as \<Longrightarrow> b \<in> set bs \<Longrightarrow>
    agrees (compareKeys a b) ra rb (compareEncodedIDBKeys_at (keyBytes a @ ra) (keyBytes b @ rb))"
  shows "\<exists>x p q. compareEncodedArrays (min (length as) (length bs))
      (Some (concat (map keyBytes as) @ ra)) (Some (concat (map keyBytes bs) @ rb)) = Cmp x p q \<and>
    compareKeyLists as bs =
      (if x \<noteq> 0 then x else if length as < length bs then -1
       else if length bs < length as then 1 else 0) \<and>
    (x = 0 \<and> length as = length bs \<longrightarrow> p = Some ra \<and> q = Some rb)"
  using assms
proof (induction as bs rule: list_induct2')
  case (4 a as b bs)
  let ?A = "concat (map keyBytes as) @ ra" and ?B = "concat (map keyBytes bs) @ rb"
  from "4.prems"[of a b ?A ?B] obtain p q where at:
    "compareEncodedIDBKeys_at (keyBytes a @ ?A) (keyBytes b @ ?B) = Cmp (compareKeys a b) p q"
    "compareKeys a b = 0 \<longrightarrow> p = Some ?A \<and> q = Some ?B"
    by (auto simp: agrees_def)
  have "\<exists>x p q. compareEncodedArrays (min (length as) (length bs)) (Some ?A) (Some ?B) = Cmp x p q \<and>
    compareKeyLists as bs =
      (if x \<noteq> 0 then x else if length as < length bs then -1
       else if length bs < length as then 1 else 0) \<and>
    (x = 0 \<and> length as = length bs \<longrightarrow> p = Some ra \<and> q = Some rb)"
    using "4.prems" by (intro "4.IH") simp
  then obtain x p' q' where IH:
    "compareEncodedArrays (min (length as) (length bs)) (Some ?A) (Some ?B) = Cmp x p' q'"
    "compareKeyLists as bs = (if x \<noteq> 0 then x else if length as < length bs then -1
       else if length bs < length as then 1 else 0)"
    "x = 0 \<and> length as = length bs \<longrightarrow> p' = Some ra \<and> q' = Some rb"
    by blast
  show ?case
  proof (cases "compareKeys a b = 0")
    case True
    with at IH show ?thesis
      by (intro exI[of _ x] exI[of _ p'] exI[of _ q']) (simp add: compareEncodedArrays_step)
  next
    case False
    with at show ?thesis
      by (intro exI[of _ "compareKeys a b"] exI[of _ p] exI[of _ q])
        (simp add: compareEncodedArrays_step)
  qed
qed (simp_all add: compareEncodedArrays_step)

lemma compareEncodedIDBKeys_at_bytes:
  "encodable a \<Longrightarrow> encodable b \<Longrightarrow>
     agrees (compareKeys a b) ra rb (compareEncodedIDBKeys_at (keyBytes a @ ra) (keyBytes b @ rb))"
proof (induction a arbitrary: b ra rb)
  case (ArrayKey as)
  show ?case
  proof (cases b)
    case (ArrayKey bs)
    let ?m = "word_of_nat (length as) :: int64" and ?n = "word_of_nat (length bs) :: int64"
    have n: "sint ?m = int (length as)" "sint ?n = int (length bs)"
      using ArrayKey.prems ArrayKey by (simp_all add: sint_of_nat_int64)
    have "nat (min (int (length as)) (int (length bs))) = min (length as) (length bs)" by simp
    moreover obtain x p q where "compareEncodedArrays (min (length as) (length bs))
        (Some (concat (map keyBytes as) @ ra)) (Some (concat (map keyBytes bs) @ rb)) = Cmp x p q"
      "compareKeyLists as bs = (if x \<noteq> 0 then x else if length as < length bs then -1
         else if length bs < length as then 1 else 0)"
      "x = 0 \<and> length as = length bs \<longrightarrow> p = Some ra \<and> q = Some rb"
      using compareEncodedArrays_bytes[of as bs ra rb] ArrayKey.IH ArrayKey.prems ArrayKey
      by (fastforce simp: list_all_iff)
    ultimately show ?thesis
      using ArrayKey.prems ArrayKey n
      by (auto simp: compareEncodedIDBKeys_at.simps compareTypes_def keyTypeByteToKeyType_def
          idbkey_type_bytes codec_simps Let_def)
  qed (use ArrayKey.prems in \<open>simp_all add: compareEncodedIDBKeys_at.simps compareTypes_def
        keyTypeByteToKeyType_def idbkey_type_bytes\<close>)
next
  case (StringKey s)
  then show ?case
    by (cases b) (simp_all add: compareEncodedIDBKeys_at.simps compareTypes_def
        keyTypeByteToKeyType_def idbkey_type_bytes compareEncodedStrings_bytes)
next
  case (DateKey d)
  then show ?case
    by (cases b) (simp_all add: compareEncodedIDBKeys_at.simps compareTypes_def
        keyTypeByteToKeyType_def idbkey_type_bytes compareEncodedDoubles_bytes)
next
  case (NumberKey d)
  then show ?case
    by (cases b) (simp_all add: compareEncodedIDBKeys_at.simps compareTypes_def
        keyTypeByteToKeyType_def idbkey_type_bytes compareEncodedDoubles_bytes)
qed simp_all

lemma compareEncodedIDBKeys_bytes:
  "encodable a \<Longrightarrow> encodable b \<Longrightarrow>
     compareEncodedIDBKeys (keyBytes a) (keyBytes b) = Inr (compareKeys a b)"
  using compareEncodedIDBKeys_at_bytes[of a b "[]" "[]"]
  by (auto simp: compareEncodedIDBKeys_def agrees_def)

subsection \<open>The order is a total preorder\<close>

text \<open>
  A number or date key is never a NaN (the bindings reject it); on such keys the order is a
  comparator in the sense LevelDB needs.
\<close>

fun NaN_free :: "idbkey \<Rightarrow> bool" where
  "NaN_free (ArrayKey ks) = list_all NaN_free ks"
| "NaN_free (DateKey d) = (\<not> is_NaN d)"
| "NaN_free (NumberKey d) = (\<not> is_NaN d)"
| "NaN_free k = True"

definition uchar_cmp :: "uchar \<Rightarrow> uchar \<Rightarrow> int" where
  "uchar_cmp u v = sgn (uint u - uint v)"

interpretation ucharc: comparator "\<lambda>_. True" uchar_cmp
  unfolding uchar_cmp_def by (rule comparator.comparator_image[OF comparator_int]) simp

lemma codePointCompare_lexcmp: "codePointCompare s t = lexcmp uchar_cmp s t"
proof (induction s t rule: codePointCompare.induct)
  case (1 c1 s1 c2 s2)
  then show ?case
    by (cases "c1 = c2") (auto simp: uchar_cmp_def sgn_if word_less_def word_uint_eq_iff andThen_def)
qed simp_all

lemma comparator_codePointCompare: "comparator (\<lambda>_. True) codePointCompare"
proof -
  have "list_all (\<lambda>_. True) = (\<lambda>_ :: ustring. True)"
    by (simp add: fun_eq_iff list_all_iff)
  moreover have "codePointCompare = lexcmp uchar_cmp"
    by (intro ext) (rule codePointCompare_lexcmp)
  ultimately show ?thesis
    using ucharc.comparator_lexcmp by simp
qed

interpretation strc: comparator "\<lambda>_. True" codePointCompare
  by (rule comparator_codePointCompare)

lemma compareDoubles_sgn:
  "\<not> is_NaN d \<Longrightarrow> \<not> is_NaN e \<Longrightarrow> compareDoubles d e = sgn (sign_magnitude d - sign_magnitude e)"
  by (simp add: compareDoubles_def double_less_def sgn_if)

lemma comparator_compareDoubles: "comparator (\<lambda>d. \<not> is_NaN d) compareDoubles"
  by unfold_locales (auto simp: compareDoubles_sgn sgn_if split: if_splits)

interpretation dblc: comparator "\<lambda>d. \<not> is_NaN d" compareDoubles
  by (rule comparator_compareDoubles)

lemma compareKeyLists_lexcmp: "compareKeyLists as bs = lexcmp compareKeys as bs"
  by (induction as bs rule: list_induct2') (simp_all add: Let_def andThen_def)

lemma compareKeys_types:
  "key_type_of a \<noteq> key_type_of b \<Longrightarrow>
     compareKeys a b = type_rank (key_type_of b) - type_rank (key_type_of a)"
  by (cases a; cases b) (simp_all add: compareTypes_def)

lemma type_rank_inj: "type_rank s = type_rank t \<longleftrightarrow> s = t"
  by (cases s; cases t) simp_all

lemma compareKeys_refl: "compareKeys a a = 0"
proof (induction a)
  case (ArrayKey ks)
  then show ?case by (simp add: compareKeyLists_lexcmp lexcmp_refl)
qed (simp_all add: strc.cmp_refl compareDoubles_def double_less_def compareTypes_def)

lemma compareKeys_swap:
  "NaN_free a \<Longrightarrow> NaN_free b \<Longrightarrow> sgn (compareKeys b a) = - sgn (compareKeys a b)"
proof (induction a arbitrary: b)
  case (ArrayKey ks)
  then show ?case
    by (cases b) (auto simp: compareKeyLists_lexcmp compareTypes_def list_all_iff intro!: lexcmp_swap)
next
  case (StringKey s)
  then show ?case using strc.cmp_swap[of s] by (cases b) (simp_all add: compareTypes_def)
next
  case (DateKey d)
  then show ?case using dblc.cmp_swap[of d] by (cases b) (simp_all add: compareTypes_def)
next
  case (NumberKey d)
  then show ?case using dblc.cmp_swap[of d] by (cases b) (simp_all add: compareTypes_def)
qed (case_tac b; simp add: compareTypes_def)+

text \<open>Keys of different types are ordered by their types alone.\<close>

lemma compareKeys_strong_trans_types:
  assumes "\<not> (key_type_of a = key_type_of b \<and> key_type_of b = key_type_of c)"
  shows "strong_trans compareKeys a b c"
proof -
  have neq: "key_type_of x \<noteq> key_type_of y \<Longrightarrow> compareKeys x y \<noteq> 0" for x y
    by (simp add: compareKeys_types type_rank_inj)
  show ?thesis
    using assms neq[of a b] neq[of b c] compareKeys_types[of a b] compareKeys_types[of b c]
      compareKeys_types[of a c]
    unfolding strong_trans_def
    by (cases "key_type_of a = key_type_of b"; cases "key_type_of b = key_type_of c";
        cases "key_type_of a = key_type_of c") simp_all
qed

lemma same_key_type_cases:
  "key_type_of (ArrayKey as) = key_type_of b \<Longrightarrow> \<exists>bs. b = ArrayKey bs"
  "key_type_of (StringKey s) = key_type_of b \<Longrightarrow> \<exists>t. b = StringKey t"
  "key_type_of (DateKey d) = key_type_of b \<Longrightarrow> \<exists>e. b = DateKey e"
  "key_type_of (NumberKey d) = key_type_of b \<Longrightarrow> \<exists>e. b = NumberKey e"
  "key_type_of InvalidKey = key_type_of b \<Longrightarrow> b = InvalidKey"
  "key_type_of MinKey = key_type_of b \<Longrightarrow> b = MinKey"
  by (cases b; simp)+

lemma compareKeys_strong_trans_same:
  assumes "NaN_free a" and "NaN_free b" and "NaN_free c"
    and "key_type_of a = key_type_of b" and "key_type_of a = key_type_of c"
    and "\<And>as bs cs. a = ArrayKey as \<Longrightarrow> b = ArrayKey bs \<Longrightarrow> c = ArrayKey cs \<Longrightarrow>
      strong_trans (lexcmp compareKeys) as bs cs"
  shows "strong_trans compareKeys a b c"
proof (cases a)
  case (StringKey s)
  then obtain t u where "b = StringKey t" "c = StringKey u"
    using assms(4,5) same_key_type_cases by metis
  with StringKey strc.strong_trans_cmp[of s t u] show ?thesis by (simp add: strong_trans_def)
next
  case (DateKey d)
  then obtain e f where "b = DateKey e" "c = DateKey f"
    using assms(4,5) same_key_type_cases by metis
  with DateKey assms dblc.strong_trans_cmp[of d e f] show ?thesis by (simp add: strong_trans_def)
next
  case (NumberKey d)
  then obtain e f where "b = NumberKey e" "c = NumberKey f"
    using assms(4,5) same_key_type_cases by metis
  with NumberKey assms dblc.strong_trans_cmp[of d e f] show ?thesis by (simp add: strong_trans_def)
next
  case (ArrayKey as)
  then obtain bs cs where "b = ArrayKey bs" "c = ArrayKey cs"
    using assms(4,5) same_key_type_cases by metis
  with ArrayKey assms(6)[of as bs cs] show ?thesis
    by (simp add: strong_trans_def compareKeyLists_lexcmp)
next
  case InvalidKey
  then have "b = InvalidKey" "c = InvalidKey" using assms(4,5) same_key_type_cases(5) by metis+
  with InvalidKey show ?thesis by (simp add: strong_trans_def compareTypes_def)
next
  case MinKey
  then have "b = MinKey" "c = MinKey" using assms(4,5) same_key_type_cases(6) by metis+
  with MinKey show ?thesis by (simp add: strong_trans_def compareTypes_def)
qed

lemma compareKeys_strong_trans:
  "NaN_free a \<Longrightarrow> NaN_free b \<Longrightarrow> NaN_free c \<Longrightarrow> strong_trans compareKeys a b c"
proof (induction a arbitrary: b c)
  case (ArrayKey as)
  then have "strong_trans (lexcmp compareKeys) as bs cs"
    if "b = ArrayKey bs" "c = ArrayKey cs" for bs cs
    using that by (intro lexcmp_strong_trans ArrayKey.IH) (auto simp: list_all_iff)
  with ArrayKey.prems show ?case
    using compareKeys_strong_trans_same[of "ArrayKey as" b c]
      compareKeys_strong_trans_types[of "ArrayKey as" b c] by auto
qed (metis compareKeys_strong_trans_same compareKeys_strong_trans_types idbkey.distinct)+

interpretation keyc: comparator NaN_free compareKeys
proof
  fix a b c
  assume ab: "NaN_free a" "NaN_free b"
  then show "sgn (compareKeys b a) = - sgn (compareKeys a b)" by (rule compareKeys_swap)
  assume "NaN_free c" "compareKeys a b \<le> 0" "compareKeys b c \<le> 0"
  with ab compareKeys_strong_trans[of a b c] show "compareKeys a c \<le> 0"
    by (simp add: strong_trans_def)
qed (rule compareKeys_refl)

end
