(* ===== verification/IDB_Keys_Correct.thy ===== *)
theory IDB_Keys_Correct
  imports IDB_Keys IDB_Key_Correct
begin

section \<open>IndexedDB on LevelDB: correctness of the key classes\<close>

text \<open>
  Ids that fit their fields are \<open>valid_id\<close> (non-negative) and, for the index id of a prefix,
  below \<open>2 ^ 32\<close>. Under these conditions every encoder returns, every decoder inverts its
  encoder and leaves the bytes that follow, and \<open>compare\<close> orders entries by prefix, type byte
  and members.
\<close>

lemma bits_of_small_nat:
  fixes n :: nat
  assumes "n < 2 ^ k" and "bit n i"
  shows "i < k"
  using assms by (metis bit_take_bit_iff take_bit_nat_eq_self)

definition firstByte :: "nat \<Rightarrow> nat \<Rightarrow> nat \<Rightarrow> byte" where
  "firstByte a b c = push_bit 5 (word_of_nat a) OR push_bit 2 (word_of_nat b) OR word_of_nat c"

lemma firstByte_fields:
  assumes "a < 8" and "b < 8" and "c < 4"
  shows "unat (drop_bit 5 (firstByte a b c) AND 0x7) = a"
    and "unat (drop_bit 2 (firstByte a b c) AND 0x7) = b"
    and "unat (firstByte a b c AND 0x3) = c"
proof -
  let ?a = "word_of_nat a :: byte" and ?b = "word_of_nat b :: byte" and ?c = "word_of_nat c :: byte"
  have u: "unat ?a = a" "unat ?b = b" "unat ?c = c"
    using assms by (simp_all add: unat_of_nat take_bit_nat_eq_self)
  have bits: "bit a i \<Longrightarrow> i < 3" "bit b i \<Longrightarrow> i < 3" "bit c i \<Longrightarrow> i < 2" for i
    using bits_of_small_nat[of a 3 i] bits_of_small_nat[of b 3 i] bits_of_small_nat[of c 2 i]
      assms by simp_all
  have m: "(0x7 :: byte) = mask 3" "(0x3 :: byte) = mask 2" by (simp_all add: mask_eq_exp_minus_1)
  have "drop_bit 5 (firstByte a b c) AND 0x7 = ?a"
    unfolding firstByte_def m
    by (rule bit_word_eqI) (auto simp: bit_simps dest: bits)
  then show "unat (drop_bit 5 (firstByte a b c) AND 0x7) = a" using u by simp
  have "drop_bit 2 (firstByte a b c) AND 0x7 = ?b"
    unfolding firstByte_def m
    by (rule bit_word_eqI) (auto simp: bit_simps dest: bits)
  then show "unat (drop_bit 2 (firstByte a b c) AND 0x7) = b" using u by simp
  have "firstByte a b c AND 0x3 = ?c"
    unfolding firstByte_def m
    by (rule bit_word_eqI) (auto simp: bit_simps dest: bits)
  then show "unat (firstByte a b c AND 0x3) = c" using u by simp
qed

definition valid_prefix :: "keyPrefix \<Rightarrow> bool" where
  "valid_prefix p \<longleftrightarrow> nonneg (kp_databaseId p) \<and> nonneg (kp_objectStoreId p) \<and>
     nonneg (kp_indexId p) \<and> unat (kp_indexId p) < 2 ^ 32"

lemma valid_prefix_KeyPrefix [simp]:
  "valid_prefix (KeyPrefix d s i) \<longleftrightarrow> nonneg d \<and> nonneg s \<and> nonneg i \<and> unat i < 2 ^ 32"
  by (simp add: valid_prefix_def KeyPrefix_def)

lemma KeyPrefix_roundtrip:
  assumes "valid_prefix p"
  shows "\<exists>bs. KeyPrefix_encode p = Some bs \<and> (\<forall>rest. KeyPrefix_decode (bs @ rest) = Found p rest)"
proof -
  from assms have v: "nonneg (kp_databaseId p)" "nonneg (kp_objectStoreId p)"
    "nonneg (kp_indexId p)" "unat (kp_indexId p) < 2 ^ (8 * 4)"
    by (simp_all add: valid_prefix_def)
  from encodeInt_8[OF v(1)] obtain d where d: "encodeInt (kp_databaseId p) = Some d"
    "0 < length d" "length d \<le> 8" by blast
  from encodeInt_8[OF v(2)] obtain s where s: "encodeInt (kp_objectStoreId p) = Some s"
    "0 < length s" "length s \<le> 8" by blast
  from encodeInt_total[OF v(3,4)] obtain i where i: "encodeInt (kp_indexId p) = Some i"
    "0 < length i" "length i \<le> 4" by auto
  let ?fb = "firstByte (length d - 1) (length s - 1) (length i - 1)"
  have "KeyPrefix_encode p = Some (?fb # d @ s @ i)"
    using d(1) s(1) i(1) by (simp add: KeyPrefix_encode_def firstByte_def Let_def)
  moreover have "KeyPrefix_decode ((?fb # d @ s @ i) @ rest) = Found p rest" for rest
  proof -
    have f: "unat (drop_bit 5 ?fb AND 0x7) + 1 = length d" "unat (drop_bit 2 ?fb AND 0x7) + 1 = length s"
      "unat (?fb AND 0x3) + 1 = length i"
      using d s i by (simp_all add: firstByte_fields)
    show ?thesis
      unfolding KeyPrefix_decode_def append_Cons list.case Let_def f
      using d(1) s(1) i(1) v by (simp add: codec_simps KeyPrefix_def)
  qed
  ultimately show ?thesis by blast
qed

subsection \<open>The bytes each class writes\<close>

definition prefixBytes :: "keyPrefix \<Rightarrow> byte list" where
  "prefixBytes p = the (KeyPrefix_encode p)"

definition varBytes :: "int64 \<Rightarrow> byte list" where
  "varBytes n = the (encodeVarInt n)"

definition stringBytes :: "ustring \<Rightarrow> byte list" where
  "stringBytes s = the (encodeStringWithLength s)"

lemma prefixBytes [codec_simps]:
  assumes "valid_prefix p"
  shows "KeyPrefix_encode p = Some (prefixBytes p)"
    and "KeyPrefix_decode (prefixBytes p @ rest) = Found p rest"
  using KeyPrefix_roundtrip[OF assms] by (auto simp: prefixBytes_def)

lemma varBytes [codec_simps]:
  assumes "nonneg n"
  shows "encodeVarInt n = Some (varBytes n)"
    and "decodeVarInt (varBytes n @ rest) = Found n rest"
    and "decodeVarInt (varBytes n) = Found n []"
    and "varBytes n \<noteq> []"
proof -
  from encodeVarInt_total[OF assms] obtain bs where bs: "encodeVarInt n = Some bs" "bs \<noteq> []" by blast
  then show "encodeVarInt n = Some (varBytes n)" "varBytes n \<noteq> []" by (simp_all add: varBytes_def)
  show "decodeVarInt (varBytes n @ rest) = Found n rest" for rest
    using decodeVarInt_encodeVarInt[OF assms bs(1)] bs(1) by (simp add: varBytes_def)
  from this[of "[]"] show "decodeVarInt (varBytes n) = Found n []" by simp
qed

lemma stringBytes [codec_simps]:
  assumes "length s < 2 ^ 32"
  shows "encodeStringWithLength s = Some (stringBytes s)"
    and "decodeStringWithLength (stringBytes s @ rest) = Found s rest"
    and "decodeStringWithLength (stringBytes s) = Found s []"
    and "stringBytes s \<noteq> []"
proof -
  from encodeStringWithLength_total[OF assms] obtain bs where
    bs: "encodeStringWithLength s = Some bs" "bs \<noteq> []" by blast
  then show "encodeStringWithLength s = Some (stringBytes s)" "stringBytes s \<noteq> []"
    by (simp_all add: stringBytes_def)
  show "decodeStringWithLength (stringBytes s @ rest) = Found s rest" for rest
    using decodeStringWithLength_encode[OF assms bs(1)] bs(1) by (simp add: stringBytes_def)
  from this[of "[]"] show "decodeStringWithLength (stringBytes s) = Found s []" by simp
qed

lemma extractEncodedIDBKey_bytes0:
  "encodable k \<Longrightarrow> extractEncodedIDBKey (keyBytes k) = Found (keyBytes k) []"
  using extractEncodedIDBKey_bytes[of k "[]"] by simp

subsection \<open>Entries\<close>

text \<open>
  The kinds of entries of the backing store, as the comment at the head of the source file
  lists them, with the class that encodes each.
\<close>

datatype entry =
    SchemaVersion
  | MaxDatabaseId
  | DatabaseFreeList int64
  | DatabaseName ustring ustring
  | DatabaseMetaData int64 databaseMetaDataType
  | ObjectStoreMetaData int64 int64 int64
  | IndexMetaData int64 int64 int64 byte
  | ObjectStoreFreeList int64 int64
  | IndexFreeList int64 int64 int64
  | ObjectStoreNames int64 ustring
  | IndexNames int64 int64 ustring
  | ObjectStoreData int64 int64 idbkey
  | ExistsEntry int64 int64 idbkey
  | IndexData int64 int64 int64 idbkey idbkey int64

fun encode_entry :: "entry \<Rightarrow> byte list option" where
  "encode_entry SchemaVersion = SchemaVersionKey_encode"
| "encode_entry MaxDatabaseId = MaxDatabaseIdKey_encode"
| "encode_entry (DatabaseFreeList d) = DatabaseFreeListKey_encode d"
| "encode_entry (DatabaseName org n) = DatabaseNameKey_encode org n"
| "encode_entry (DatabaseMetaData d t) = DatabaseMetaDataKey_encode d t"
| "encode_entry (ObjectStoreMetaData d s t) = ObjectStoreMetaDataKey_encode d s t"
| "encode_entry (IndexMetaData d s i t) = IndexMetaDataKey_encode d s i t"
| "encode_entry (ObjectStoreFreeList d s) = ObjectStoreFreeListKey_encode d s"
| "encode_entry (IndexFreeList d s i) = IndexFreeListKey_encode d s i"
| "encode_entry (ObjectStoreNames d n) = ObjectStoreNamesKey_encode d n"
| "encode_entry (IndexNames d s n) = IndexNamesKey_encode d s n"
| "encode_entry (ObjectStoreData d s k) = ObjectStoreDataKey_encode_key d s k"
| "encode_entry (ExistsEntry d s k) = ExistsEntryKey_encode_key d s k"
| "encode_entry (IndexData d s i k pk n) = do { kb \<leftarrow> encodeIDBKey k; pb \<leftarrow> encodeIDBKey pk;
     IndexDataKey_encode d s i kb pb n }"

definition valid_id :: "int64 \<Rightarrow> bool" where
  "valid_id n \<longleftrightarrow> nonneg n \<and> n \<noteq> 0"

text \<open>
  Valid entries: ids are positive, an index id is at least \<open>kMinimumIndexId\<close> and fits four
  bytes, names fit a string, keys are encodable, and the meta-data type of an object store
  fits an \<^verbatim>\<open>int\<close>.
\<close>

fun valid_entry :: "entry \<Rightarrow> bool" where
  "valid_entry SchemaVersion = True"
| "valid_entry MaxDatabaseId = True"
| "valid_entry (DatabaseFreeList d) = nonneg d"
| "valid_entry (DatabaseName org n) = (length org < 2 ^ 32 \<and> length n < 2 ^ 32)"
| "valid_entry (DatabaseMetaData d t) = valid_id d"
| "valid_entry (ObjectStoreMetaData d s t) = (valid_id d \<and> nonneg s \<and> nonneg t \<and> uint t < 2 ^ 31)"
| "valid_entry (IndexMetaData d s i t) = (valid_id d \<and> nonneg s \<and> nonneg i)"
| "valid_entry (ObjectStoreFreeList d s) = (valid_id d \<and> nonneg s)"
| "valid_entry (IndexFreeList d s i) = (valid_id d \<and> nonneg s \<and> nonneg i)"
| "valid_entry (ObjectStoreNames d n) = (valid_id d \<and> length n < 2 ^ 32)"
| "valid_entry (IndexNames d s n) = (valid_id d \<and> nonneg s \<and> length n < 2 ^ 32)"
| "valid_entry (ObjectStoreData d s k) = (valid_id d \<and> valid_id s \<and> encodable k)"
| "valid_entry (ExistsEntry d s k) = (valid_id d \<and> valid_id s \<and> encodable k)"
| "valid_entry (IndexData d s i k pk n) =
     (valid_id d \<and> valid_id s \<and> nonneg i \<and> 30 \<le> uint i \<and> unat i < 2 ^ 32 \<and>
      encodable k \<and> encodable pk \<and> nonneg n)"

fun entry_prefix :: "entry \<Rightarrow> keyPrefix" where
  "entry_prefix SchemaVersion = KeyPrefix 0 0 0"
| "entry_prefix MaxDatabaseId = KeyPrefix 0 0 0"
| "entry_prefix (DatabaseFreeList d) = KeyPrefix 0 0 0"
| "entry_prefix (DatabaseName org n) = KeyPrefix 0 0 0"
| "entry_prefix (DatabaseMetaData d t) = KeyPrefix d 0 0"
| "entry_prefix (ObjectStoreMetaData d s t) = KeyPrefix d 0 0"
| "entry_prefix (IndexMetaData d s i t) = KeyPrefix d 0 0"
| "entry_prefix (ObjectStoreFreeList d s) = KeyPrefix d 0 0"
| "entry_prefix (IndexFreeList d s i) = KeyPrefix d 0 0"
| "entry_prefix (ObjectStoreNames d n) = KeyPrefix d 0 0"
| "entry_prefix (IndexNames d s n) = KeyPrefix d 0 0"
| "entry_prefix (ObjectStoreData d s k) = KeyPrefix d s 1"
| "entry_prefix (ExistsEntry d s k) = KeyPrefix d s 2"
| "entry_prefix (IndexData d s i k pk n) = KeyPrefix d s i"

fun entry_rest :: "entry \<Rightarrow> byte list" where
  "entry_rest SchemaVersion = [0]"
| "entry_rest MaxDatabaseId = [1]"
| "entry_rest (DatabaseFreeList d) = 100 # varBytes d"
| "entry_rest (DatabaseName org n) = 201 # stringBytes org @ stringBytes n"
| "entry_rest (DatabaseMetaData d t) = [metaDataType_byte t]"
| "entry_rest (ObjectStoreMetaData d s t) = 50 # varBytes s @ varBytes t"
| "entry_rest (IndexMetaData d s i t) = 100 # varBytes s @ varBytes i @ [t]"
| "entry_rest (ObjectStoreFreeList d s) = 150 # varBytes s"
| "entry_rest (IndexFreeList d s i) = 151 # varBytes s @ varBytes i"
| "entry_rest (ObjectStoreNames d n) = 200 # stringBytes n"
| "entry_rest (IndexNames d s n) = 201 # varBytes s @ stringBytes n"
| "entry_rest (ObjectStoreData d s k) = keyBytes k"
| "entry_rest (ExistsEntry d s k) = keyBytes k"
| "entry_rest (IndexData d s i k pk n) = keyBytes k @ varBytes n @ keyBytes pk"

lemmas entry_encoders = SchemaVersionKey_encode_def MaxDatabaseIdKey_encode_def
  DatabaseFreeListKey_encode_def DatabaseNameKey_encode_def DatabaseMetaDataKey_encode_def
  ObjectStoreMetaDataKey_encode_def IndexMetaDataKey_encode_def ObjectStoreFreeListKey_encode_def
  IndexFreeListKey_encode_def ObjectStoreNamesKey_encode_def IndexNamesKey_encode_def
  ObjectStoreDataKey_encode_key_def ObjectStoreDataKey_encode_def ExistsEntryKey_encode_key_def
  ExistsEntryKey_encode_def IndexDataKey_encode_def

lemma nonneg_small [simp]: "nonneg 0" "nonneg 1" "nonneg 2"
  by (simp_all add: nonneg_def)

lemma valid_entry_prefix: "valid_entry e \<Longrightarrow> valid_prefix (entry_prefix e)"
  by (cases e) (simp_all add: valid_id_def)

lemma encode_entry_bytes:
  "valid_entry e \<Longrightarrow> encode_entry e = Some (prefixBytes (entry_prefix e) @ entry_rest e)"
  by (cases e)
    (simp_all add: entry_encoders entry_type_bytes encodeByte_def codec_simps valid_id_def
      encodeIDBKey_bytes)


subsection \<open>Decoding an entry\<close>

text \<open>Each class decodes what it encoded, whatever follows; \<open>entryBytes\<close> is the encoding.\<close>

definition entryBytes :: "entry \<Rightarrow> byte list" where
  "entryBytes e = prefixBytes (entry_prefix e) @ entry_rest e"

lemma prefix_of_entryBytes [simp]:
  "valid_entry e \<Longrightarrow> KeyPrefix_decode (entryBytes e) = Found (entry_prefix e) (entry_rest e)"
  by (simp add: entryBytes_def codec_simps valid_entry_prefix)

lemmas entry_decoders = DatabaseFreeListKey_decode_def DatabaseNameKey_decode_def
  ObjectStoreMetaDataKey_decode_def IndexMetaDataKey_decode_def ObjectStoreFreeListKey_decode_def
  IndexFreeListKey_decode_def ObjectStoreNamesKey_decode_def IndexNamesKey_decode_def
  ObjectStoreDataKey_decode_def ExistsEntryKey_decode_def IndexDataKey_decode_def

lemmas entry_codec = entry_decoders codec_simps valid_id_def extractEncodedIDBKey_bytes
  extractEncodedIDBKey_bytes0

lemma decode_entryBytes:
  "valid_entry (DatabaseFreeList d) \<Longrightarrow>
     DatabaseFreeListKey_decode (entryBytes (DatabaseFreeList d)) = Found d []"
  "valid_entry (DatabaseName org nm) \<Longrightarrow>
     DatabaseNameKey_decode (entryBytes (DatabaseName org nm)) =
       Found \<lparr>dn_origin = org, dn_databaseName = nm\<rparr> []"
  "valid_entry (ObjectStoreMetaData d s t) \<Longrightarrow>
     ObjectStoreMetaDataKey_decode (entryBytes (ObjectStoreMetaData d s t)) =
       Found \<lparr>osm_objectStoreId = s, osm_metaDataType = t\<rparr> []"
  "valid_entry (IndexMetaData d s i b) \<Longrightarrow>
     IndexMetaDataKey_decode (entryBytes (IndexMetaData d s i b)) =
       Found \<lparr>im_objectStoreId = s, im_indexId = i, im_metaDataType = b\<rparr> []"
  "valid_entry (ObjectStoreFreeList d s) \<Longrightarrow>
     ObjectStoreFreeListKey_decode (entryBytes (ObjectStoreFreeList d s)) = Found s []"
  "valid_entry (IndexFreeList d s i) \<Longrightarrow>
     IndexFreeListKey_decode (entryBytes (IndexFreeList d s i)) =
       Found \<lparr>ifl_objectStoreId = s, ifl_indexId = i\<rparr> []"
  "valid_entry (ObjectStoreNames d nm) \<Longrightarrow>
     ObjectStoreNamesKey_decode (entryBytes (ObjectStoreNames d nm)) = Found nm []"
  "valid_entry (IndexNames d s nm) \<Longrightarrow>
     IndexNamesKey_decode (entryBytes (IndexNames d s nm)) =
       Found \<lparr>in_objectStoreId = s, in_indexName = nm\<rparr> []"
  "valid_entry (ObjectStoreData d s k) \<Longrightarrow>
     ObjectStoreDataKey_decode (entryBytes (ObjectStoreData d s k)) = Found (keyBytes k) []"
  "valid_entry (ExistsEntry d s k) \<Longrightarrow>
     ExistsEntryKey_decode (entryBytes (ExistsEntry d s k)) = Found (keyBytes k) []"
  "valid_entry (IndexData d s i k pk n) \<Longrightarrow>
     IndexDataKey_decode (entryBytes (IndexData d s i k pk n)) =
       Found \<lparr>id_databaseId = d, id_objectStoreId = s, id_indexId = i,
         id_encodedUserKey = keyBytes k, id_encodedPrimaryKey = keyBytes pk,
         id_sequenceNumber = n\<rparr> []"
  by (subst entry_decoders, subst prefix_of_entryBytes, assumption,
      simp add: entry_codec KeyPrefix_def Let_def)+

subsection \<open>The order on entries\<close>

text \<open>
  The order the backing store relies on: by database, object store and index id, then by the
  type byte, then by the members of the class. With \<open>indexKeys\<close> set, entries of an index that
  differ only in their primary key or sequence number are duplicates.
\<close>

definition icmp :: "int \<Rightarrow> int \<Rightarrow> int" where
  "icmp x y = sgn (x - y)"

definition prefix_ids :: "keyPrefix \<Rightarrow> int list" where
  "prefix_ids p = [uint (kp_databaseId p), uint (kp_objectStoreId p), uint (kp_indexId p)]"

fun entry_members :: "bool \<Rightarrow> entry \<Rightarrow> int list \<times> ustring list \<times> idbkey list \<times> int" where
  "entry_members indexKeys SchemaVersion = ([0], [], [], 0)"
| "entry_members indexKeys MaxDatabaseId = ([1], [], [], 0)"
| "entry_members indexKeys (DatabaseFreeList d) = ([100, uint d], [], [], 0)"
| "entry_members indexKeys (DatabaseName org n) = ([201], [org, n], [], 0)"
| "entry_members indexKeys (DatabaseMetaData d t) = ([uint (metaDataType_byte t)], [], [], 0)"
| "entry_members indexKeys (ObjectStoreMetaData d s t) = ([50, uint s, uint t], [], [], 0)"
| "entry_members indexKeys (IndexMetaData d s i t) = ([100, uint s, uint i, uint t], [], [], 0)"
| "entry_members indexKeys (ObjectStoreFreeList d s) = ([150, uint s], [], [], 0)"
| "entry_members indexKeys (IndexFreeList d s i) = ([151, uint s, uint i], [], [], 0)"
| "entry_members indexKeys (ObjectStoreNames d n) = ([200], [n], [], 0)"
| "entry_members indexKeys (IndexNames d s n) = ([201, uint s], [n], [], 0)"
| "entry_members indexKeys (ObjectStoreData d s k) = ([], [], [k], 0)"
| "entry_members indexKeys (ExistsEntry d s k) = ([], [], [k], 0)"
| "entry_members indexKeys (IndexData d s i k pk n) =
     (if indexKeys then ([], [], [k], 0) else ([], [], [k, pk], uint n))"

definition compare_members ::
  "int list \<times> ustring list \<times> idbkey list \<times> int \<Rightarrow>
   int list \<times> ustring list \<times> idbkey list \<times> int \<Rightarrow> int" where
  "compare_members m n =
     andThen (lexcmp icmp (fst m) (fst n))
       (andThen (lexcmp codePointCompare (fst (snd m)) (fst (snd n)))
         (andThen (lexcmp compareKeys (fst (snd (snd m))) (fst (snd (snd n))))
           (icmp (snd (snd (snd m))) (snd (snd (snd n))))))"

definition compare_entries :: "bool \<Rightarrow> entry \<Rightarrow> entry \<Rightarrow> int" where
  "compare_entries indexKeys a b =
     andThen (lexcmp icmp (prefix_ids (entry_prefix a)) (prefix_ids (entry_prefix b)))
       (compare_members (entry_members indexKeys a) (entry_members indexKeys b))"

subsection \<open>compare implements the order\<close>

lemma compareInts_icmp: "nonneg a \<Longrightarrow> nonneg b \<Longrightarrow> compareInts a b = icmp (uint a) (uint b)"
  by (simp add: compareInts_nonneg icmp_def)

lemma icmp_simps [simp]: "icmp x x = 0" "icmp x y = 0 \<longleftrightarrow> x = y"
  by (simp_all add: icmp_def sgn_0_0)

lemma KeyPrefix_compare_ids:
  assumes "valid_prefix p" and "valid_prefix q"
  shows "KeyPrefix_compare p q = lexcmp icmp (prefix_ids p) (prefix_ids q)"
  using assms
  by (auto simp: valid_prefix_def KeyPrefix_compare_def prefix_ids_def compareInts_icmp
      andThen_def word_uint_eq_iff)

lemma prefix_ids_eq: "lexcmp icmp (prefix_ids p) (prefix_ids q) = 0 \<longleftrightarrow> p = q"
  by (auto simp: prefix_ids_def andThen_def word_uint_eq_iff intro: keyPrefix.equality split: if_splits)

lemma compare_entries_ne_prefix:
  assumes "valid_entry a" and "valid_entry b" and "entry_prefix a \<noteq> entry_prefix b"
  shows "compare (entryBytes a) (entryBytes b) indexKeys = Inr (compare_entries indexKeys a b)"
  using assms prefix_ids_eq[of "entry_prefix a" "entry_prefix b"]
  by (simp add: compare_def KeyPrefix_compare_ids valid_entry_prefix compare_entries_def)

fun entry_kind :: "entry \<Rightarrow> nat" where
  "entry_kind SchemaVersion = 0"
| "entry_kind MaxDatabaseId = 1"
| "entry_kind (DatabaseFreeList d) = 2"
| "entry_kind (DatabaseName org n) = 3"
| "entry_kind (DatabaseMetaData d t) = 4"
| "entry_kind (ObjectStoreMetaData d s t) = 5"
| "entry_kind (IndexMetaData d s i t) = 6"
| "entry_kind (ObjectStoreFreeList d s) = 7"
| "entry_kind (IndexFreeList d s i) = 8"
| "entry_kind (ObjectStoreNames d n) = 9"
| "entry_kind (IndexNames d s n) = 10"
| "entry_kind (ObjectStoreData d s k) = 11"
| "entry_kind (ExistsEntry d s k) = 12"
| "entry_kind (IndexData d s i k pk n) = 13"

text \<open>Entries of the meta-data prefixes carry a type byte, the first of \<open>entry_rest\<close>.\<close>

definition entry_tag :: "entry \<Rightarrow> int" where
  "entry_tag e = uint (hd (entry_rest e))"


lemma KeyPrefix_type_entry:
  "valid_entry e \<Longrightarrow> KeyPrefix_type (entry_prefix e) =
     (if entry_kind e < 4 then kGlobalMetaData else if entry_kind e < 11 then kDatabaseMetaData
      else if entry_kind e = 11 then kObjectStoreData else if entry_kind e = 12 then kExistsEntry
      else kIndexData)"
proof (cases e)
  case (IndexData d s i k pk n)
  moreover assume "valid_entry e"
  moreover from calculation have "i \<noteq> 1" "i \<noteq> 2" "sint i \<ge> 30" by (auto simp: sint_nonneg)
  ultimately show ?thesis
    by (simp add: KeyPrefix_type_def KeyPrefix_def valid_id_def entry_type_bytes)
qed (simp_all add: KeyPrefix_type_def KeyPrefix_def valid_id_def entry_type_bytes)

lemma metaDataType_byte_le [simp]:
  "metaDataType_byte t \<le> 3" "uint (metaDataType_byte t) \<le> 3"
  "3 < c \<Longrightarrow> uint (metaDataType_byte t) \<noteq> c" "3 < c \<Longrightarrow> c \<noteq> uint (metaDataType_byte t)"
  by (cases t; simp)+

lemma kinds_of_prefix:
  assumes "valid_entry a" and "valid_entry b" and "entry_prefix a = entry_prefix b"
  shows "entry_kind a < 4 \<longleftrightarrow> entry_kind b < 4" and "entry_kind a < 11 \<longleftrightarrow> entry_kind b < 11"
    and "entry_kind a = 11 \<longleftrightarrow> entry_kind b = 11" and "entry_kind a = 12 \<longleftrightarrow> entry_kind b = 12"
proof -
  have "KeyPrefix_type (entry_prefix a) = KeyPrefix_type (entry_prefix b)" using assms by simp
  with assms(1,2) show "entry_kind a < 4 \<longleftrightarrow> entry_kind b < 4" "entry_kind a < 11 \<longleftrightarrow> entry_kind b < 11"
    "entry_kind a = 11 \<longleftrightarrow> entry_kind b = 11" "entry_kind a = 12 \<longleftrightarrow> entry_kind b = 12"
    by (auto simp: KeyPrefix_type_entry split: if_splits)
qed

lemma same_kind:
  assumes "valid_entry a" and "valid_entry b" and "entry_prefix a = entry_prefix b"
    and "entry_kind a < 11 \<longrightarrow> entry_tag a = entry_tag b"
  shows "entry_kind a = entry_kind b"
proof (cases "entry_kind a < 11")
  case True
  with assms(4) have "entry_tag a = entry_tag b" by simp
  with kinds_of_prefix[OF assms(1-3)] True show ?thesis
    by (cases a; cases b) (simp_all add: entry_tag_def)
next
  case False
  with kinds_of_prefix[OF assms(1-3)] show ?thesis by (cases a; cases b) simp_all
qed

lemma entry_rest_tag: "entry_kind e < 11 \<Longrightarrow> \<exists>t r. entry_rest e = t # r \<and> uint t = entry_tag e"
  by (cases e) (simp_all add: entry_tag_def)

lemma entry_members_tag: "entry_kind e < 11 \<Longrightarrow> \<exists>r. fst (entry_members indexKeys e) = entry_tag e # r"
  by (cases e) (simp_all add: entry_tag_def)

lemma compare_entries_ne_tag:
  assumes "valid_entry a" and "valid_entry b" and "entry_prefix a = entry_prefix b"
    and "entry_kind a < 11" and "entry_tag a \<noteq> entry_tag b"
  shows "compare (entryBytes a) (entryBytes b) indexKeys = Inr (entry_tag a - entry_tag b)"
    and "compare_entries indexKeys a b = sgn (entry_tag a - entry_tag b)"
proof -
  have kb: "entry_kind b < 11" using assms(4) kinds_of_prefix[OF assms(1-3)] by simp
  from entry_rest_tag[OF assms(4)] entry_rest_tag[OF kb] obtain t r t' r' where
    r: "entry_rest a = t # r" "uint t = entry_tag a" "entry_rest b = t' # r'" "uint t' = entry_tag b"
    by blast
  have k0: "KeyPrefix_compare p p = 0" for p by (simp add: KeyPrefix_compare_def)
  from assms kb r show "compare (entryBytes a) (entryBytes b) indexKeys = Inr (entry_tag a - entry_tag b)"
    by (auto simp: compare_def k0 KeyPrefix_type_entry compareGlobalMetaData_def
        compareDatabaseMetaData_def Let_def)
  from entry_members_tag[OF assms(4)] entry_members_tag[OF kb] obtain s s' where
    "fst (entry_members indexKeys a) = entry_tag a # s" "fst (entry_members indexKeys b) = entry_tag b # s'"
    by blast
  with assms show "compare_entries indexKeys a b = sgn (entry_tag a - entry_tag b)"
    by (simp add: compare_entries_def compare_members_def prefix_ids_def icmp_def sgn_0_0)
qed

lemmas entry_comparators = DatabaseFreeListKey_compare_def DatabaseNameKey_compare_def
  ObjectStoreMetaDataKey_compare_def IndexMetaDataKey_compare_def ObjectStoreFreeListKey_compare_def
  IndexFreeListKey_compare_def ObjectStoreNamesKey_compare_def IndexNamesKey_compare_def
  ObjectStoreDataKey_compare_def ExistsEntryKey_compare_def IndexDataKey_compare_def

text \<open>The truncated difference has the sign of the exact one when both sides fit an \<^verbatim>\<open>int\<close>.\<close>

lemma truncated_difference:
  fixes t u :: int64
  assumes "uint t < 2 ^ 31" and "uint u < 2 ^ 31"
  shows "sint (ucast (t - u) :: 32 word) = uint t - uint u"
proof -
  have "0 \<le> uint t" "0 \<le> uint u" "uint t < 2147483648" "uint u < 2147483648"
    using assms by simp_all
  then have "- 2147483648 \<le> uint t - uint u" "uint t - uint u < 2147483648" by linarith+
  moreover have "uint (ucast (t - u) :: 32 word) = take_bit 32 (take_bit 64 (uint t - uint u))"
    by (simp add: unsigned_ucast_eq uint_word_ariths take_bit_eq_mod)
  then have "sint (ucast (t - u) :: 32 word) = signed_take_bit 31 (uint t - uint u)"
    by (simp add: sint_uint signed_take_bit_take_bit del: take_bit_take_bit)
  ultimately show ?thesis by (simp add: signed_take_bit_int_eq_self)
qed


lemma compare_entries_same_kind:
  assumes "valid_entry a" and "valid_entry b" and "entry_prefix a = entry_prefix b"
    and "entry_kind a = entry_kind b" and "entry_kind a < 11 \<longrightarrow> entry_tag a = entry_tag b"
  shows "\<exists>v. compare (entryBytes a) (entryBytes b) indexKeys = Inr v \<and>
    sgn v = sgn (compare_entries indexKeys a b)"
proof -
  have k0: "KeyPrefix_compare p p = 0" for p by (simp add: KeyPrefix_compare_def)
  have le: "\<not> (100 :: byte) \<le> 1" "\<not> (201 :: byte) \<le> 1" by (simp_all add: word_le_def)
  have start: "compare (entryBytes a) (entryBytes b) indexKeys =
    (case KeyPrefix_type (entry_prefix a) of
       kGlobalMetaData \<Rightarrow> compareGlobalMetaData (entryBytes a) (entryBytes b) (entry_rest a) (entry_rest b)
     | kDatabaseMetaData \<Rightarrow> compareDatabaseMetaData (entryBytes a) (entryBytes b) (entry_rest a) (entry_rest b)
     | kObjectStoreData \<Rightarrow> compareUnlessEmpty (entry_rest a) (entry_rest b)
         (decodeAndCompare ObjectStoreDataKey_decode ObjectStoreDataKey_compare (entryBytes a) (entryBytes b))
     | kExistsEntry \<Rightarrow> compareUnlessEmpty (entry_rest a) (entry_rest b)
         (decodeAndCompare ExistsEntryKey_decode ExistsEntryKey_compare (entryBytes a) (entryBytes b))
     | kIndexData \<Rightarrow> compareUnlessEmpty (entry_rest a) (entry_rest b)
         (decodeAndCompare IndexDataKey_decode (\<lambda>k l. IndexDataKey_compare k l indexKeys)
            (entryBytes a) (entryBytes b))
     | kInvalidType \<Rightarrow> Inr 0)"
    using assms by (simp add: compare_def k0)
  have pre: "compare_entries indexKeys a b =
      compare_members (entry_members indexKeys a) (entry_members indexKeys b)"
    using assms(3) by (simp add: compare_entries_def prefix_ids_def)
  show ?thesis
    unfolding start KeyPrefix_type_entry[OF assms(1)] pre
    using assms
    by (cases a; cases b)
      (simp_all add: compareGlobalMetaData_def compareDatabaseMetaData_def compareUnlessEmpty_def
        decodeAndCompare_def decode_entryBytes entry_type_bytes entry_comparators compare_members_def
        compareInts_icmp valid_id_def andThen_def truncated_difference compareEncodedIDBKeys_bytes
        thenS_def icmp_def entry_tag_def Let_def le)
qed


text \<open>The byte comparator implements the order on every pair of valid entries.\<close>

lemma compare_entryBytes:
  assumes "valid_entry a" and "valid_entry b"
  shows "\<exists>v. compare (entryBytes a) (entryBytes b) indexKeys = Inr v \<and>
    sgn v = sgn (compare_entries indexKeys a b)"
proof (cases "entry_prefix a = entry_prefix b")
  case True
  show ?thesis
  proof (cases "entry_kind a < 11 \<and> entry_tag a \<noteq> entry_tag b")
    case ne: True
    then show ?thesis using compare_entries_ne_tag[OF assms True] by simp
  next
    case False
    then show ?thesis
      using compare_entries_same_kind[OF assms True] same_kind[OF assms True] by blast
  qed
next
  case False
  then show ?thesis by (simp add: compare_entries_ne_prefix[OF assms])
qed

subsection \<open>The comparator is one LevelDB can use\<close>

fun NaN_free_entry :: "entry \<Rightarrow> bool" where
  "NaN_free_entry (ObjectStoreData d s k) = NaN_free k"
| "NaN_free_entry (ExistsEntry d s k) = NaN_free k"
| "NaN_free_entry (IndexData d s i k pk n) = (NaN_free k \<and> NaN_free pk)"
| "NaN_free_entry _ = True"

lemma comparator_members:
  "comparator (\<lambda>m. list_all NaN_free (fst (snd (snd m)))) compare_members"
proof -
  note i = comparator_int[folded icmp_def]
  have L: "list_all (\<lambda>_. True) = (\<lambda>_. True)" by (simp add: fun_eq_iff list_all_iff)
  note li = comparator.comparator_lexcmp[OF i, unfolded L]
    and ls = strc.comparator_lexcmp[unfolded L] and lk = keyc.comparator_lexcmp
  show ?thesis
    using comparator_pair[OF li comparator_pair[OF ls comparator_pair[OF lk i]]]
    by (simp add: compare_members_def[abs_def])
qed

lemma comparator_entries: "comparator NaN_free_entry (compare_entries indexKeys)"
proof -
  have L: "list_all (\<lambda>_. True) = (\<lambda>_. True)" by (simp add: fun_eq_iff list_all_iff)
  note li = comparator.comparator_lexcmp[OF comparator_int[folded icmp_def], unfolded L]
  have "NaN_free_entry e \<Longrightarrow> list_all NaN_free (fst (snd (snd (entry_members indexKeys e))))" for e
    by (cases e) simp_all
  then show ?thesis
    using comparator.comparator_image[OF comparator_pair[OF li comparator_members],
        of NaN_free_entry "\<lambda>e. (prefix_ids (entry_prefix e), entry_members indexKeys e)"]
    by (simp add: compare_entries_def[abs_def])
qed

text \<open>
  \<open>compareBytes\<close> is the result LevelDB sees; on the encodings of valid entries it is a total
  preorder.
\<close>

definition compareBytes :: "bool \<Rightarrow> byte list \<Rightarrow> byte list \<Rightarrow> int" where
  "compareBytes indexKeys a b = (case compare a b indexKeys of Inr v \<Rightarrow> v | Inl f \<Rightarrow> 0)"

definition storable :: "entry \<Rightarrow> bool" where
  "storable e \<longleftrightarrow> valid_entry e \<and> NaN_free_entry e"

lemma sgn_compareBytes:
  assumes "storable a" and "storable b"
  shows "sgn (compareBytes indexKeys (entryBytes a) (entryBytes b)) = sgn (compare_entries indexKeys a b)"
  using assms compare_entryBytes[of a b indexKeys] by (auto simp: storable_def compareBytes_def)

interpretation entc: comparator NaN_free_entry "compare_entries indexKeys" for indexKeys
  by (rule comparator_entries)

lemma compareBytes_nonpos:
  assumes "storable a" and "storable b"
  shows "compareBytes indexKeys (entryBytes a) (entryBytes b) \<le> 0 \<longleftrightarrow> compare_entries indexKeys a b \<le> 0"
  using sgn_compareBytes[OF assms, of indexKeys] by (auto simp: sgn_if split: if_splits)

interpretation levelDB: comparator storable
  "\<lambda>a b. compareBytes indexKeys (entryBytes a) (entryBytes b)" for indexKeys
proof
  fix a b c :: entry
  assume a: "storable a"
  then have "sgn (compareBytes indexKeys (entryBytes a) (entryBytes a)) = 0"
    by (simp add: sgn_compareBytes entc.cmp_refl storable_def)
  then show "compareBytes indexKeys (entryBytes a) (entryBytes a) = 0" by (simp add: sgn_0_0)
  assume b: "storable b"
  with a show "sgn (compareBytes indexKeys (entryBytes b) (entryBytes a)) =
      - sgn (compareBytes indexKeys (entryBytes a) (entryBytes b))"
    using entc.cmp_swap[of a b indexKeys] by (simp add: sgn_compareBytes storable_def)
  assume c: "storable c"
    and ab: "compareBytes indexKeys (entryBytes a) (entryBytes b) \<le> 0"
    and bc: "compareBytes indexKeys (entryBytes b) (entryBytes c) \<le> 0"
  with a b have "compare_entries indexKeys a b \<le> 0" "compare_entries indexKeys b c \<le> 0"
    by (simp_all add: compareBytes_nonpos)
  with a b c show "compareBytes indexKeys (entryBytes a) (entryBytes c) \<le> 0"
    using entc.cmp_trans[of a b c indexKeys] by (simp add: storable_def compareBytes_nonpos)
qed

end
