(* ===== verification/IDB_Properties.thy ===== *)
theory IDB_Properties
  imports IDB_Keys_Correct
begin

section \<open>IndexedDB on LevelDB: what the coding layer promises\<close>

text \<open>
  The properties of the coding layer as its client, the backing store, relies on them: entries
  are ordered as the comment at the head of \<^verbatim>\<open>IDBLevelDBCoding.cpp\<close> lists them, the order is
  one LevelDB can use, encodings are inverted by decoders, and the range keys bound what they
  are meant to bound, with the exception the last section states.
\<close>

lemma encode_entryBytes: "valid_entry e \<Longrightarrow> encode_entry e = Some (entryBytes e)"
  by (simp add: encode_entry_bytes entryBytes_def)

lemma compareBytes_eq: "compare a b indexKeys = Inr v \<Longrightarrow> compareBytes indexKeys a b = v"
  by (simp add: compareBytes_def)

lemma sgn_eq_iff_neg: "sgn x = sgn (y :: int) \<Longrightarrow> x < 0 \<longleftrightarrow> y < 0"
  by (auto simp: sgn_if split: if_splits)

text \<open>
  C1. On the encodings of two valid entries the comparator returns, and its sign is the sign of
  the specified order: ids of the prefix, then type byte, then the members of the class; with
  \<open>indexKeys\<close> set, primary key and sequence number of an index entry are ignored.
\<close>

theorem compare_refines_order:
  assumes "valid_entry a" and "valid_entry b"
  shows "\<exists>A B v. encode_entry a = Some A \<and> encode_entry b = Some B \<and>
    compare A B indexKeys = Inr v \<and> sgn v = sgn (compare_entries indexKeys a b)"
  using compare_entryBytes[OF assms, of indexKeys] assms by (simp add: encode_entryBytes)

theorem compare_refines_order_witness:
  "\<exists>A B v. encode_entry (IndexData 1 1 30 (StringKey [65]) (NumberKey 0) 7) = Some A \<and>
     encode_entry (DatabaseName [104] [100]) = Some B \<and> compare A B False = Inr v \<and> sgn v = 1"
  using compare_refines_order[of "IndexData 1 1 30 (StringKey [65]) (NumberKey 0) 7"
      "DatabaseName [104] [100]" False]
  by (simp add: valid_id_def nonneg_def compare_entries_def prefix_ids_def KeyPrefix_def icmp_def)

text \<open>
  C7. On encodings of storable entries (valid, no NaN inside a key) the comparator is a total
  preorder: zero on equal keys, antisymmetric, transitive.
\<close>

theorem compare_total_preorder:
  assumes "storable a" and "storable b" and "storable c"
  shows "\<exists>A B C ab ba bc ac. encode_entry a = Some A \<and> encode_entry b = Some B \<and>
    encode_entry c = Some C \<and> compare A A indexKeys = Inr 0 \<and>
    compare A B indexKeys = Inr ab \<and> compare B A indexKeys = Inr ba \<and>
    compare B C indexKeys = Inr bc \<and> compare A C indexKeys = Inr ac \<and>
    sgn ba = - sgn ab \<and> (ab \<le> 0 \<longrightarrow> bc \<le> 0 \<longrightarrow> ac \<le> 0)"
proof -
  have v: "valid_entry a" "valid_entry b" "valid_entry c" using assms by (simp_all add: storable_def)
  obtain aa ab ba bc ac where
    r: "compare (entryBytes a) (entryBytes a) indexKeys = Inr aa"
      "compare (entryBytes a) (entryBytes b) indexKeys = Inr ab"
      "compare (entryBytes b) (entryBytes a) indexKeys = Inr ba"
      "compare (entryBytes b) (entryBytes c) indexKeys = Inr bc"
      "compare (entryBytes a) (entryBytes c) indexKeys = Inr ac"
    using compare_entryBytes[of _ _ indexKeys] v by meson
  note e = r[THEN compareBytes_eq]
  from levelDB.cmp_refl[OF assms(1), of indexKeys] levelDB.cmp_swap[OF assms(1,2), of indexKeys]
    levelDB.cmp_trans[OF assms, of indexKeys]
  show ?thesis unfolding e using r v by (simp add: encode_entryBytes)
qed

theorem compare_total_preorder_witness:
  "\<exists>A B C ab ba bc ac. encode_entry (ObjectStoreData 1 1 (NumberKey 0)) = Some A \<and>
    encode_entry (ObjectStoreData 1 1 (StringKey [])) = Some B \<and>
    encode_entry (ObjectStoreData 1 1 (ArrayKey [])) = Some C \<and> compare A A False = Inr 0 \<and>
    compare A B False = Inr ab \<and> compare B A False = Inr ba \<and>
    compare B C False = Inr bc \<and> compare A C False = Inr ac \<and>
    sgn ba = - sgn ab \<and> (ab \<le> 0 \<longrightarrow> bc \<le> 0 \<longrightarrow> ac \<le> 0)"
  by (rule compare_total_preorder)
    (simp_all add: storable_def valid_id_def nonneg_def is_NaN_def)

text \<open>
  C12. A key that can be stored is encoded, and the encoding, whatever bytes follow it, decodes
  to the key and is cut out unchanged by \<open>extractEncodedIDBKey\<close>.
\<close>

theorem IDBKey_roundtrip:
  assumes "encodable k"
  shows "\<exists>bs. encodeIDBKey k = Some bs \<and>
    (\<forall>rest. decodeIDBKey (bs @ rest) = Found k rest \<and>
       extractEncodedIDBKey (bs @ rest) = Found bs rest)"
  using assms by (simp add: encodeIDBKey_bytes decodeIDBKey_bytes extractEncodedIDBKey_bytes)

theorem IDBKey_roundtrip_witness:
  "\<exists>bs. encodeIDBKey (ArrayKey [StringKey [0x3b1], NumberKey 0]) = Some bs \<and>
    (\<forall>rest. decodeIDBKey (bs @ rest) = Found (ArrayKey [StringKey [0x3b1], NumberKey 0]) rest \<and>
       extractEncodedIDBKey (bs @ rest) = Found bs rest)"
  by (rule IDBKey_roundtrip) simp

text \<open>
  C15. The comparison of two encoded keys, which never decodes them, is the order on the keys:
  by type, then component by component.
\<close>

theorem compareEncodedIDBKeys_correct:
  assumes "encodeIDBKey a = Some A" and "encodeIDBKey b = Some B"
    and "encodable a" and "encodable b"
  shows "compareEncodedIDBKeys A B = Inr (compareKeys a b)"
  using assms by (auto simp: encodeIDBKey_bytes compareEncodedIDBKeys_bytes)

theorem compareEncodedIDBKeys_correct_witness:
  "\<exists>A B. encodeIDBKey (ArrayKey [StringKey [1], StringKey [2]]) = Some A \<and>
     encodeIDBKey (ArrayKey [StringKey [1], StringKey [3]]) = Some B \<and>
     compareEncodedIDBKeys A B = Inr (-1)"
proof -
  let ?a = "ArrayKey [StringKey [1], StringKey [2]]" and ?b = "ArrayKey [StringKey [1], StringKey [3]]"
  have c: "compareKeys ?a ?b = -1" by (simp add: word_less_def)
  show ?thesis
    using compareEncodedIDBKeys_correct[of ?a _ ?b, OF encodeIDBKey_bytes encodeIDBKey_bytes]
    unfolding c by (simp add: encodeIDBKey_bytes)
qed

text \<open>A prefix whose ids fit its fields is written and read back, whatever follows.\<close>

lemma KeyPrefix_encode_decode:
  assumes "valid_prefix p"
  shows "\<exists>bs. KeyPrefix_encode p = Some bs \<and> (\<forall>rest. KeyPrefix_decode (bs @ rest) = Found p rest)"
  using assms by (rule KeyPrefix_roundtrip)

lemma KeyPrefix_encode_decode_witness:
  "\<exists>bs. KeyPrefix_encode (KeyPrefix 300 70000 30) = Some bs \<and>
     (\<forall>rest. KeyPrefix_decode (bs @ rest) = Found (KeyPrefix 300 70000 30) rest)"
  by (rule KeyPrefix_encode_decode) (simp add: nonneg_def)

text \<open>
  The variable-length coding: it returns exactly on non-negative input (on a negative one
  the loop shifts in sign bits forever), and then the decoder inverts it.
\<close>

theorem VarInt_roundtrip:
  "(encodeVarInt n = None \<longleftrightarrow> \<not> nonneg n) \<and>
   (\<forall>bs rest. encodeVarInt n = Some bs \<longrightarrow> decodeVarInt (bs @ rest) = Found n rest)"
  using encodeVarInt_None_iff[of n] decodeVarInt_encodeVarInt[of n] by (metis option.distinct(1))

theorem VarInt_roundtrip_witness:
  "decodeVarInt (the (encodeVarInt 1000) @ [7]) = Found 1000 [7]"
  using VarInt_roundtrip[of 1000] by (auto simp: nonneg_def)


text \<open>\<open>decodes_back\<close> states for each class what its decoder finds in an encoding.\<close>

fun decodes_back :: "entry \<Rightarrow> byte list \<Rightarrow> bool" where
  "decodes_back (DatabaseFreeList d) A = (DatabaseFreeListKey_decode A = Found d [])"
| "decodes_back (DatabaseName org n) A =
     (DatabaseNameKey_decode A = Found \<lparr>dn_origin = org, dn_databaseName = n\<rparr> [])"
| "decodes_back (ObjectStoreMetaData d s t) A =
     (ObjectStoreMetaDataKey_decode A = Found \<lparr>osm_objectStoreId = s, osm_metaDataType = t\<rparr> [])"
| "decodes_back (IndexMetaData d s i b) A =
     (IndexMetaDataKey_decode A =
        Found \<lparr>im_objectStoreId = s, im_indexId = i, im_metaDataType = b\<rparr> [])"
| "decodes_back (ObjectStoreFreeList d s) A = (ObjectStoreFreeListKey_decode A = Found s [])"
| "decodes_back (IndexFreeList d s i) A =
     (IndexFreeListKey_decode A = Found \<lparr>ifl_objectStoreId = s, ifl_indexId = i\<rparr> [])"
| "decodes_back (ObjectStoreNames d n) A = (ObjectStoreNamesKey_decode A = Found n [])"
| "decodes_back (IndexNames d s n) A =
     (IndexNamesKey_decode A = Found \<lparr>in_objectStoreId = s, in_indexName = n\<rparr> [])"
| "decodes_back (ObjectStoreData d s k) A =
     (\<exists>kb. ObjectStoreDataKey_decode A = Found kb [] \<and> ObjectStoreDataKey_userKey kb = Inr (Some k))"
| "decodes_back (ExistsEntry d s k) A =
     (\<exists>kb. ExistsEntryKey_decode A = Found kb [] \<and> decodeIDBKey kb = Found k [])"
| "decodes_back (IndexData d s i k pk n) A =
     (\<exists>r. IndexDataKey_decode A = Found r [] \<and> id_databaseId r = d \<and> id_objectStoreId r = s \<and>
        id_indexId r = i \<and> decodeIDBKey (id_encodedUserKey r) = Found k [] \<and>
        decodeIDBKey (id_encodedPrimaryKey r) = Found pk [] \<and> id_sequenceNumber r = n)"
| "decodes_back _ A = (\<exists>p. KeyPrefix_decode A = Found p [last A])"

lemma decodeIDBKey_bytes0: "encodable k \<Longrightarrow> decodeIDBKey (keyBytes k) = Found k []"
  using decodeIDBKey_bytes[of k "[]"] by simp

lemma decodes_back_entryBytes: "valid_entry e \<Longrightarrow> decodes_back e (entryBytes e)"
  using prefix_of_entryBytes[of e]
  by (cases e) (simp_all add: decode_entryBytes ObjectStoreDataKey_userKey_def decodeIDBKey_bytes0,
      simp_all add: entryBytes_def)

text \<open>
  C36. Every class reads back what it wrote: the members of a valid entry, for the classes that
  have a decoder, with the user and primary key of the data classes still encoded.
\<close>

theorem entry_roundtrip:
  assumes "valid_entry e"
  shows "\<exists>A. encode_entry e = Some A \<and> decodes_back e A"
  using assms by (simp add: encode_entryBytes decodes_back_entryBytes)

theorem entry_roundtrip_witness:
  "\<exists>A. encode_entry (IndexData 1 2 30 (NumberKey 0) (StringKey [97]) 4) = Some A \<and>
     decodes_back (IndexData 1 2 30 (NumberKey 0) (StringKey [97]) 4) A"
  by (rule entry_roundtrip) (simp add: valid_id_def nonneg_def)

text \<open>The minimum and the maximum key bracket every encodable key.\<close>

theorem min_max_IDBKey:
  assumes "encodable k" and "encodeIDBKey k = Some bs"
  shows "\<exists>v w. compareEncodedIDBKeys minIDBKey bs = Inr v \<and> v < 0 \<and>
    compareEncodedIDBKeys bs maxIDBKey = Inr w \<and> w < 0"
  using assms
  by (cases k) (auto simp: encodeIDBKey_bytes compareEncodedIDBKeys_def compareEncodedIDBKeys_at.simps
      compareTypes_def keyTypeByteToKeyType_def idbkey_type_bytes minIDBKey_def maxIDBKey_def encodeByte_def)

theorem min_max_IDBKey_witness:
  "\<exists>v w. compareEncodedIDBKeys minIDBKey [4, 0] = Inr v \<and> v < 0 \<and>
    compareEncodedIDBKeys [4, 0] maxIDBKey = Inr w \<and> w < 0"
proof -
  have "encodeIDBKey (ArrayKey []) = Some [4, 0]"
    by (simp add: encodeIDBKey_def idbkey_type_bytes encodeByte_def encodeVarInt_def
        encodeVarInt_loop.simps)
  then show ?thesis by (rule min_max_IDBKey[rotated]) simp
qed


subsection \<open>Range keys\<close>

lemma extract_min_max:
  "extractEncodedIDBKey (minIDBKey @ r) = Found minIDBKey r"
  "extractEncodedIDBKey (maxIDBKey @ r) = Found maxIDBKey r"
  by (simp_all add: extractEncodedIDBKey.simps minIDBKey_def maxIDBKey_def encodeByte_def idbkey_type_bytes)

lemma compare_min_max:
  assumes "encodable k"
  shows "\<exists>v<0. compareEncodedIDBKeys minIDBKey (keyBytes k) = Inr v"
    and "\<exists>v<0. compareEncodedIDBKeys (keyBytes k) maxIDBKey = Inr v"
  using assms
  by (cases k; simp add: compareEncodedIDBKeys_def compareEncodedIDBKeys_at.simps
      compareTypes_def keyTypeByteToKeyType_def idbkey_type_bytes minIDBKey_def maxIDBKey_def encodeByte_def)+

lemma nonneg_INT64_MAX [simp]: "nonneg INT64_MAX"
  by (simp add: nonneg_def INT64_MAX_def)

lemma compare_IndexData:
  assumes "valid_prefix p" and "KeyPrefix_type p = kIndexData" and "rA \<noteq> []" and "rB \<noteq> []"
    and "IndexDataKey_decode (prefixBytes p @ rA) = Found kA pA"
    and "IndexDataKey_decode (prefixBytes p @ rB) = Found kB pB"
  shows "compare (prefixBytes p @ rA) (prefixBytes p @ rB) indexKeys =
    IndexDataKey_compare kA kB indexKeys"
  using assms
  by (simp add: compare_def codec_simps KeyPrefix_compare_def compareUnlessEmpty_def decodeAndCompare_def)

text \<open>
  C39. The range keys of an index: every entry of the index, whatever its keys and sequence
  number, lies strictly between \<open>encodeMinKey\<close> and \<open>encodeMaxKey\<close>, with and without duplicates.
\<close>

theorem IndexDataKey_range:
  assumes "valid_entry (IndexData d s i k pk n)"
  shows "\<exists>lo e hi v w. IndexDataKey_encodeMinKey d s i = Some lo \<and>
    encode_entry (IndexData d s i k pk n) = Some e \<and> IndexDataKey_encodeMaxKey d s i = Some hi \<and>
    compare lo e indexKeys = Inr v \<and> v < 0 \<and> compare e hi indexKeys = Inr w \<and> w < 0"
proof -
  let ?p = "KeyPrefix d s i" and ?e = "IndexData d s i k pk n"
  let ?lo = "minIDBKey @ varBytes 0 @ minIDBKey" and ?hi = "maxIDBKey @ varBytes INT64_MAX @ maxIDBKey"
  from assms have v: "valid_prefix ?p" "encodable k"
    using valid_entry_prefix[of ?e] by simp_all
  have t: "KeyPrefix_type ?p = kIndexData" using KeyPrefix_type_entry[OF assms] by simp
  have e: "entryBytes ?e = prefixBytes ?p @ keyBytes k @ varBytes n @ keyBytes pk"
    by (simp add: entryBytes_def)
  have em: "extractEncodedIDBKey minIDBKey = Found minIDBKey []"
    "extractEncodedIDBKey maxIDBKey = Found maxIDBKey []"
    using extract_min_max[of "[]"] by simp_all
  have ne: "minIDBKey \<noteq> []" "maxIDBKey \<noteq> []"
    by (simp_all add: minIDBKey_def maxIDBKey_def encodeByte_def)
  obtain r where de: "IndexDataKey_decode (entryBytes ?e) = Found r []" "id_encodedUserKey r = keyBytes k"
    using decode_entryBytes(11)[OF assms] by simp
  obtain rlo where lo: "IndexDataKey_decode (prefixBytes ?p @ ?lo) = Found rlo []"
      "id_encodedUserKey rlo = minIDBKey"
    using v by (simp add: IndexDataKey_decode_def codec_simps extract_min_max em ne Let_def)
  obtain rhi where hi: "IndexDataKey_decode (prefixBytes ?p @ ?hi) = Found rhi []"
      "id_encodedUserKey rhi = maxIDBKey"
    using v by (simp add: IndexDataKey_decode_def codec_simps extract_min_max em ne Let_def)
  obtain a b where a: "compareEncodedIDBKeys minIDBKey (keyBytes k) = Inr a" "a < 0"
      and b: "compareEncodedIDBKeys (keyBytes k) maxIDBKey = Inr b" "b < 0"
    using compare_min_max[OF v(2)] by blast
  have "compare (prefixBytes ?p @ ?lo) (entryBytes ?e) indexKeys = Inr a"
    using compare_IndexData[OF v(1) t _ _ lo(1) de(1)[unfolded e]] a lo(2) de(2)
    by (simp add: ne IndexDataKey_compare_def thenS_def e)
  moreover have "compare (entryBytes ?e) (prefixBytes ?p @ ?hi) indexKeys = Inr b"
    using compare_IndexData[OF v(1) t _ _ de(1)[unfolded e] hi(1)] b hi(2) de(2)
    by (simp add: ne IndexDataKey_compare_def thenS_def e)
  moreover have "IndexDataKey_encodeMinKey d s i = Some (prefixBytes ?p @ ?lo)"
    "IndexDataKey_encodeMaxKey d s i = Some (prefixBytes ?p @ ?hi)"
    using v(1) by (simp_all add: IndexDataKey_encodeMinKey_def IndexDataKey_encodeMaxKey_def
        IndexDataKey_encode_def codec_simps)
  ultimately show ?thesis
    using a(2) b(2) encode_entryBytes[OF assms] by blast
qed

theorem IndexDataKey_range_witness:
  "\<exists>lo e hi v w. IndexDataKey_encodeMinKey 1 1 30 = Some lo \<and>
    encode_entry (IndexData 1 1 30 (NumberKey 0) (NumberKey 0) 0) = Some e \<and>
    IndexDataKey_encodeMaxKey 1 1 30 = Some hi \<and>
    compare lo e True = Inr v \<and> v < 0 \<and> compare e hi True = Inr w \<and> w < 0"
  by (rule IndexDataKey_range) (simp add: valid_id_def nonneg_def)

lemma codePointCompare_stop:
  "0 \<notin> set t \<Longrightarrow> codePointCompare s t \<le> 0 \<and> codePointCompare t (s @ [1]) < 0 \<longleftrightarrow> t = s"
proof (induction s t rule: codePointCompare.induct)
  case (1 c1 s1 c2 s2)
  then show ?case by (auto simp: not_less)
next
  case (4 c s)
  have "c = 1" if "c \<noteq> 0" "\<not> 1 < c"
    using that by (metis linorder_neqE word_less_1)
  with 4 show ?case by (cases s) auto
qed auto

lemma compare_DatabaseName:
  assumes "valid_entry (DatabaseName o1 n1)" and "valid_entry (DatabaseName o2 n2)"
  shows "compareBytes False (entryBytes (DatabaseName o1 n1)) (entryBytes (DatabaseName o2 n2)) < 0 \<longleftrightarrow>
      codePointCompare o1 o2 < 0 \<or> codePointCompare o1 o2 = 0 \<and> codePointCompare n1 n2 < 0"
proof -
  have "storable (DatabaseName o1 n1)" "storable (DatabaseName o2 n2)"
    using assms by (simp_all add: storable_def)
  from sgn_eq_iff_neg[OF sgn_compareBytes[OF this, of False]] show ?thesis
    by (auto simp: compare_entries_def prefix_ids_def compare_members_def andThen_def)
qed

text \<open>
  The range of an origin: for origins without a null character, the name entries between
  \<open>encodeMinKeyForOrigin\<close> and \<open>encodeStopKeyForOrigin\<close> are exactly those of that origin.
\<close>

theorem DatabaseNameKey_origin_range:
  assumes "length org < 2 ^ 32 - 1" and "valid_entry (DatabaseName org' n)" and "0 \<notin> set org'"
  shows "\<exists>lo e hi v w. DatabaseNameKey_encodeMinKeyForOrigin org = Some lo \<and>
    encode_entry (DatabaseName org' n) = Some e \<and>
    DatabaseNameKey_encodeStopKeyForOrigin org = Some hi \<and>
    compare lo e False = Inr v \<and> compare e hi False = Inr w \<and>
    (v \<le> 0 \<and> w < 0 \<longleftrightarrow> org' = org)"
proof -
  let ?lo = "DatabaseName org []" and ?e = "DatabaseName org' n" and ?hi = "DatabaseName (org @ [1]) []"
  have v: "valid_entry ?lo" "valid_entry ?hi" using assms(1) by simp_all
  obtain x y where x: "compare (entryBytes ?lo) (entryBytes ?e) False = Inr x"
      and y: "compare (entryBytes ?e) (entryBytes ?hi) False = Inr y"
    using compare_entryBytes[OF v(1) assms(2)] compare_entryBytes[OF assms(2) v(2)] by blast
  have st: "storable ?lo" "storable ?e" "storable ?hi" using v assms(2) by (simp_all add: storable_def)
  have n: "codePointCompare [] n \<le> 0" "\<not> codePointCompare n [] < 0" by (cases n; simp)+
  have "x \<le> 0 \<longleftrightarrow> codePointCompare org org' \<le> 0"
    using compareBytes_nonpos[OF st(1,2), of False] n(1)
    by (auto simp: compareBytes_eq[OF x] compare_entries_def prefix_ids_def compare_members_def andThen_def)
  moreover have "y < 0 \<longleftrightarrow> codePointCompare org' (org @ [1]) < 0"
    using compare_DatabaseName[OF assms(2) v(2)] n(2) by (simp add: compareBytes_eq[OF y])
  ultimately have "x \<le> 0 \<and> y < 0 \<longleftrightarrow> org' = org"
    using codePointCompare_stop[OF assms(3)] by simp
  moreover have "DatabaseNameKey_encodeMinKeyForOrigin org = Some (entryBytes ?lo)"
    "DatabaseNameKey_encodeStopKeyForOrigin org = Some (entryBytes ?hi)"
    using encode_entryBytes[OF v(1)] encode_entryBytes[OF v(2)]
    by (simp_all add: DatabaseNameKey_encodeMinKeyForOrigin_def DatabaseNameKey_encodeStopKeyForOrigin_def)
  ultimately show ?thesis using x y encode_entryBytes[OF assms(2)] by blast
qed

theorem DatabaseNameKey_origin_range_witness:
  "\<exists>lo e hi v w. DatabaseNameKey_encodeMinKeyForOrigin [104] = Some lo \<and>
    encode_entry (DatabaseName [104] [98]) = Some e \<and>
    DatabaseNameKey_encodeStopKeyForOrigin [104] = Some hi \<and>
    compare lo e False = Inr v \<and> compare e hi False = Inr w \<and>
    (v \<le> 0 \<and> w < 0 \<longleftrightarrow> [104] = ([104] :: ustring))"
  by (rule DatabaseNameKey_origin_range) simp_all


subsection \<open>Where the code falls short\<close>

text \<open>
  \<^verbatim>\<open>ObjectStoreMetaDataKey::encodeMaxKey(databaseId, objectStoreId)\<close> is not an upper
  bound: its meta-data type is the largest \<^verbatim>\<open>int64_t\<close>, and the comparison truncates the
  difference of meta-data types to \<^verbatim>\<open>int\<close>, so every meta-data entry of the object store
  compares above it.
\<close>

lemma ObjectStoreMetaDataKey_max_key_too_small:
  assumes "valid_entry (ObjectStoreMetaData d s t)" and "uint t < 2 ^ 31 - 1"
  shows "\<exists>e hi v. encode_entry (ObjectStoreMetaData d s t) = Some e \<and>
    ObjectStoreMetaDataKey_encodeMaxKey2 d s = Some hi \<and> compare e hi indexKeys = Inr v \<and> v > 0"
proof -
  let ?e = "ObjectStoreMetaData d s t" and ?p = "KeyPrefix d 0 0"
  let ?hi = "prefixBytes ?p @ 50 # varBytes s @ varBytes INT64_MAX"
  have v: "valid_prefix ?p" "nonneg s" "d \<noteq> 0" using assms(1) by (simp_all add: valid_id_def)
  have "0 \<le> uint t" "uint t < 2147483647" using assms(2) by simp_all
  have "uint (ucast (t - INT64_MAX) :: 32 word) = take_bit 32 (take_bit 64 (uint t - (2 ^ 63 - 1)))"
    by (simp add: unsigned_ucast_eq uint_word_ariths take_bit_eq_mod INT64_MAX_def)
  then have "sint (ucast (t - INT64_MAX) :: 32 word) = signed_take_bit 31 (uint t - (2 ^ 63 - 1))"
    by (simp only: sint_uint) (simp add: signed_take_bit_take_bit del: take_bit_take_bit)
  also have "\<dots> = signed_take_bit 31 (take_bit 32 (uint t - (2 ^ 63 - 1)))"
    by (simp add: signed_take_bit_take_bit)
  also have "take_bit 32 (uint t - (2 ^ 63 - 1)) = uint t + 1"
  proof -
    have eq: "uint t - (2 ^ 63 - 1) = (uint t + 1) + 2 ^ 32 * (- 2147483648)" by simp
    show ?thesis
      unfolding take_bit_eq_mod eq mod_mult_self2
      using \<open>0 \<le> uint t\<close> \<open>uint t < 2147483647\<close> by (intro mod_pos_pos_trivial) simp_all
  qed
  also have "signed_take_bit 31 (uint t + 1) = uint t + 1"
    using \<open>0 \<le> uint t\<close> \<open>uint t < 2147483647\<close> by (intro signed_take_bit_int_eq_self) simp_all
  finally have x: "sint (ucast (t - INT64_MAX) :: 32 word) = uint t + 1" .
  have hi: "ObjectStoreMetaDataKey_decode ?hi =
      Found \<lparr>osm_objectStoreId = s, osm_metaDataType = INT64_MAX\<rparr> []"
    using v by (simp add: ObjectStoreMetaDataKey_decode_def codec_simps)
  have ty: "KeyPrefix_type ?p = kDatabaseMetaData" "\<not> (50 :: byte) \<le> 3"
    using v by (simp_all add: KeyPrefix_type_def KeyPrefix_def word_le_def)
  have "compare (entryBytes ?e) ?hi indexKeys = compareDatabaseMetaData (entryBytes ?e) ?hi
      (entry_rest ?e) (50 # varBytes s @ varBytes INT64_MAX)"
    using v ty prefix_of_entryBytes[OF assms(1)]
    by (simp add: compare_def codec_simps KeyPrefix_compare_def)
  also have "\<dots> = Inr (uint t + 1)"
    using v ty x decode_entryBytes(3)[OF assms(1)] hi
    by (simp add: compareDatabaseMetaData_def decodeAndCompare_def entry_type_bytes
        ObjectStoreMetaDataKey_compare_def compareInts_icmp Let_def)
  finally show ?thesis
    using v encode_entryBytes[OF assms(1)] \<open>0 \<le> uint t\<close>
    by (simp add: ObjectStoreMetaDataKey_encodeMaxKey2_def ObjectStoreMetaDataKey_encode_def
        codec_simps encodeByte_def entry_type_bytes)
qed

lemma ObjectStoreMetaDataKey_max_key_too_small_witness:
  "\<exists>e hi v. encode_entry (ObjectStoreMetaData 1 1 4) = Some e \<and>
    ObjectStoreMetaDataKey_encodeMaxKey2 1 1 = Some hi \<and> compare e hi False = Inr v \<and> v > 0"
  by (rule ObjectStoreMetaDataKey_max_key_too_small) (simp_all add: valid_id_def nonneg_def)

text \<open>
  \<open>decodeStringWithLength\<close> does not reject a negative length: the ten bytes below encode
  the length -1000, which passes the test against the end of the buffer, and the characters
  are read past the end of it.
\<close>

lemma decodeStringWithLength_negative_length:
  "decodeVarInt [152, 248, 255, 255, 255, 255, 255, 255, 255, 1] = Found (-1000) [] \<and>
   decodeStringWithLength [152, 248, 255, 255, 255, 255, 255, 255, 255, 1] = Fault ReadPastEnd"
  by code_simp

end
