(* ===== verification/HTML_Token.thy ===== *)
theory HTML_Token
  imports WK_Prelude
begin

section \<open>HTML tokens\<close>

text \<open>
  \<^verbatim>\<open>xml/parser/MarkupTokenBase.h\<close> and \<^verbatim>\<open>html/parser/HTMLToken.h\<close>: the token a tokenizer fills
  in. \<^verbatim>\<open>m_currentAttribute\<close>, a pointer into \<^verbatim>\<open>m_attributes\<close>, is the index of the attribute or
  \<open>None\<close> for null, and \<^verbatim>\<open>m_doctypeData\<close> is optional as the owning pointer is. The members the
  C++ leaves uninitialised until a tag begins start with fixed values here.

  The functions of the class state their preconditions with \<^verbatim>\<open>ASSERT\<close>, which release builds
  drop, and follow both pointers without a test. The field \<open>tk_sound\<close> records that, so far,
  every assertion on the type of the token held and no null pointer was followed; no operation
  reads it. The assertions that a character is not null are not recorded: a numeric character
  reference can violate them.
\<close>

datatype tokenType =
  Uninitialized | DOCTYPE | StartTag | EndTag | Comment | Character | EndOfFile

record doctypeData =
  dt_hasPublicIdentifier :: bool
  dt_hasSystemIdentifier :: bool
  dt_publicIdentifier :: ustring
  dt_systemIdentifier :: ustring
  dt_forceQuirks :: bool

record attribute =
  at_nameStart :: int
  at_nameEnd :: int
  at_valueStart :: int
  at_valueEnd :: int
  at_name :: ustring
  at_value :: ustring

record token =
  tk_type :: tokenType
  tk_rangeStart :: int
  tk_rangeEnd :: int
  tk_baseOffset :: int
  tk_data :: ustring
  tk_doctypeData :: "doctypeData option"
  tk_selfClosing :: bool
  tk_attributes :: "attribute list"
  tk_currentAttribute :: "nat option"
  tk_sound :: bool

definition emptyAttribute :: attribute where
  "emptyAttribute = \<lparr>at_nameStart = 0, at_nameEnd = 0, at_valueStart = 0, at_valueEnd = 0,
     at_name = [], at_value = []\<rparr>"

definition emptyDoctype :: doctypeData where
  "emptyDoctype = \<lparr>dt_hasPublicIdentifier = False, dt_hasSystemIdentifier = False,
     dt_publicIdentifier = [], dt_systemIdentifier = [], dt_forceQuirks = False\<rparr>"

definition newToken :: token where
  "newToken = \<lparr>tk_type = Uninitialized, tk_rangeStart = 0, tk_rangeEnd = 0, tk_baseOffset = 0,
     tk_data = [], tk_doctypeData = None, tk_selfClosing = False, tk_attributes = [],
     tk_currentAttribute = None, tk_sound = True\<rparr>"

definition assertT :: "bool \<Rightarrow> token \<Rightarrow> token" where
  "assertT p t = t\<lparr>tk_sound := tk_sound t \<and> p\<rparr>"

definition token_clear :: "token \<Rightarrow> token" where
  "token_clear t = t\<lparr>tk_type := Uninitialized, tk_rangeStart := 0, tk_rangeEnd := 0,
     tk_baseOffset := 0, tk_data := []\<rparr>"

definition setBaseOffset :: "int \<Rightarrow> token \<Rightarrow> token" where
  "setBaseOffset offset t = t\<lparr>tk_baseOffset := offset\<rparr>"

definition token_end :: "int \<Rightarrow> token \<Rightarrow> token" where
  "token_end endOffset t = t\<lparr>tk_rangeEnd := endOffset - tk_baseOffset t\<rparr>"

definition makeEndOfFile :: "token \<Rightarrow> token" where
  "makeEndOfFile t = (assertT (tk_type t = Uninitialized) t)\<lparr>tk_type := EndOfFile\<rparr>"

definition beginStartTag :: "uchar \<Rightarrow> token \<Rightarrow> token" where
  "beginStartTag character t = (assertT (tk_type t = Uninitialized) t)
     \<lparr>tk_type := StartTag, tk_selfClosing := False, tk_currentAttribute := None,
      tk_attributes := [], tk_data := tk_data t @ [character]\<rparr>"

definition beginEndTag :: "ustring \<Rightarrow> token \<Rightarrow> token" where
  "beginEndTag characters t = (assertT (tk_type t = Uninitialized) t)
     \<lparr>tk_type := EndTag, tk_selfClosing := False, tk_currentAttribute := None,
      tk_attributes := [], tk_data := tk_data t @ characters\<rparr>"

definition ensureIsCharacterToken :: "token \<Rightarrow> token" where
  "ensureIsCharacterToken t =
     (assertT (tk_type t = Uninitialized \<or> tk_type t = Character) t)\<lparr>tk_type := Character\<rparr>"

definition beginComment :: "token \<Rightarrow> token" where
  "beginComment t = (assertT (tk_type t = Uninitialized) t)\<lparr>tk_type := Comment\<rparr>"

definition beginDOCTYPE :: "token \<Rightarrow> token" where
  "beginDOCTYPE t = (assertT (tk_type t = Uninitialized) t)
     \<lparr>tk_type := DOCTYPE, tk_doctypeData := Some emptyDoctype\<rparr>"

definition beginDOCTYPE_char :: "uchar \<Rightarrow> token \<Rightarrow> token" where
  "beginDOCTYPE_char character t =
     (let t = beginDOCTYPE t in t\<lparr>tk_data := tk_data t @ [character]\<rparr>)"

definition appendToCharacter :: "ustring \<Rightarrow> token \<Rightarrow> token" where
  "appendToCharacter characters t =
     (assertT (tk_type t = Character) t)\<lparr>tk_data := tk_data t @ characters\<rparr>"

definition appendToComment :: "uchar \<Rightarrow> token \<Rightarrow> token" where
  "appendToComment character t =
     (assertT (tk_type t = Comment) t)\<lparr>tk_data := tk_data t @ [character]\<rparr>"

definition isTag :: "token \<Rightarrow> bool" where
  "isTag t \<longleftrightarrow> tk_type t = StartTag \<or> tk_type t = EndTag"

definition addNewAttribute :: "token \<Rightarrow> token" where
  "addNewAttribute t = (assertT (isTag t) t)
     \<lparr>tk_attributes := tk_attributes t @ [emptyAttribute],
      tk_currentAttribute := Some (length (tk_attributes t))\<rparr>"

text \<open>A write through \<^verbatim>\<open>m_currentAttribute\<close>.\<close>

definition updateCurrent :: "(attribute \<Rightarrow> attribute) \<Rightarrow> token \<Rightarrow> token" where
  "updateCurrent f t = (case tk_currentAttribute t of
     Some i \<Rightarrow> if i < length (tk_attributes t)
               then t\<lparr>tk_attributes := (tk_attributes t)[i := f (tk_attributes t ! i)]\<rparr>
               else assertT False t
   | None \<Rightarrow> assertT False t)"

definition beginAttributeName :: "int \<Rightarrow> token \<Rightarrow> token" where
  "beginAttributeName offset t =
     updateCurrent (\<lambda>a. a\<lparr>at_nameStart := offset - tk_baseOffset t\<rparr>) t"

definition endAttributeName :: "int \<Rightarrow> token \<Rightarrow> token" where
  "endAttributeName offset t =
     (let index = offset - tk_baseOffset t
      in updateCurrent (\<lambda>a. a\<lparr>at_nameEnd := index, at_valueStart := index, at_valueEnd := index\<rparr>) t)"

definition beginAttributeValue :: "int \<Rightarrow> token \<Rightarrow> token" where
  "beginAttributeValue offset t =
     updateCurrent (\<lambda>a. a\<lparr>at_valueStart := offset - tk_baseOffset t\<rparr>) t"

definition endAttributeValue :: "int \<Rightarrow> token \<Rightarrow> token" where
  "endAttributeValue offset t =
     updateCurrent (\<lambda>a. a\<lparr>at_valueEnd := offset - tk_baseOffset t\<rparr>) t"

definition appendToAttributeName :: "uchar \<Rightarrow> token \<Rightarrow> token" where
  "appendToAttributeName character t =
     updateCurrent (\<lambda>a. a\<lparr>at_name := at_name a @ [character]\<rparr>)
       (assertT (isTag t) t)"

definition appendToAttributeValue :: "uchar \<Rightarrow> token \<Rightarrow> token" where
  "appendToAttributeValue character t =
     updateCurrent (\<lambda>a. a\<lparr>at_value := at_value a @ [character]\<rparr>)
       (assertT (isTag t) t)"

definition setSelfClosing :: "token \<Rightarrow> token" where
  "setSelfClosing t = (assertT (isTag t) t)\<lparr>tk_selfClosing := True\<rparr>"

text \<open>A write through \<^verbatim>\<open>m_doctypeData\<close>.\<close>

definition updateDoctype :: "(doctypeData \<Rightarrow> bool) \<Rightarrow> (doctypeData \<Rightarrow> doctypeData) \<Rightarrow> token \<Rightarrow> token" where
  "updateDoctype p f t = (case tk_doctypeData t of
     Some d \<Rightarrow> (assertT (tk_type t = DOCTYPE \<and> p d) t)\<lparr>tk_doctypeData := Some (f d)\<rparr>
   | None \<Rightarrow> assertT False t)"

definition setForceQuirks :: "token \<Rightarrow> token" where
  "setForceQuirks = updateDoctype (\<lambda>d. True) (\<lambda>d. d\<lparr>dt_forceQuirks := True\<rparr>)"

definition setPublicIdentifierToEmptyString :: "token \<Rightarrow> token" where
  "setPublicIdentifierToEmptyString = updateDoctype (\<lambda>d. True)
     (\<lambda>d. d\<lparr>dt_hasPublicIdentifier := True, dt_publicIdentifier := []\<rparr>)"

definition setSystemIdentifierToEmptyString :: "token \<Rightarrow> token" where
  "setSystemIdentifierToEmptyString = updateDoctype (\<lambda>d. True)
     (\<lambda>d. d\<lparr>dt_hasSystemIdentifier := True, dt_systemIdentifier := []\<rparr>)"

definition appendToPublicIdentifier :: "uchar \<Rightarrow> token \<Rightarrow> token" where
  "appendToPublicIdentifier character =
     updateDoctype dt_hasPublicIdentifier
       (\<lambda>d. d\<lparr>dt_publicIdentifier := dt_publicIdentifier d @ [character]\<rparr>)"

definition appendToSystemIdentifier :: "uchar \<Rightarrow> token \<Rightarrow> token" where
  "appendToSystemIdentifier character =
     updateDoctype dt_hasSystemIdentifier
       (\<lambda>d. d\<lparr>dt_systemIdentifier := dt_systemIdentifier d @ [character]\<rparr>)"

definition appendToName :: "uchar \<Rightarrow> token \<Rightarrow> token" where
  "appendToName character t = (assertT (isTag t \<or> tk_type t = DOCTYPE) t)
     \<lparr>tk_data := tk_data t @ [character]\<rparr>"

end
