(* ===== verification/WK_SegmentedString.thy ===== *)
theory WK_SegmentedString
  imports WK_Prelude
begin

section \<open>SegmentedString: the input of the tokenizers\<close>

text \<open>
  \<^verbatim>\<open>platform/text/SegmentedString.h\<close> and \<^verbatim>\<open>SegmentedString.cpp\<close>. A substring keeps a pointer
  to its current character and the number of characters left; here it is the list of the
  characters left, which is empty exactly when \<^verbatim>\<open>m_current\<close> is null, and the length of the
  string it was made from. Up to two characters can be pushed back; null stands for none, as in
  the source. The pointer \<^verbatim>\<open>m_currentChar\<close> always points to the first pushed character or into
  the current substring, so it is computed (\<open>current\<close>) and not stored. Counters are unbounded
  integers; lines and columns are kept as the source keeps them.
\<close>

record segmentedSubstring =
  sub_chars :: ustring
  sub_stringLength :: nat
  sub_doNotExcludeLineNumbers :: bool

definition SegmentedSubstring :: "ustring \<Rightarrow> segmentedSubstring" where
  "SegmentedSubstring str =
     \<lparr>sub_chars = str, sub_stringLength = length str, sub_doNotExcludeLineNumbers = True\<rparr>"

definition sub_clear :: "segmentedSubstring \<Rightarrow> segmentedSubstring" where
  "sub_clear s = s\<lparr>sub_chars := []\<rparr>"

definition sub_numberOfCharactersConsumed :: "segmentedSubstring \<Rightarrow> int" where
  "sub_numberOfCharactersConsumed s = int (sub_stringLength s) - int (length (sub_chars s))"

record segmentedString =
  ss_pushedChar1 :: uchar
  ss_pushedChar2 :: uchar
  ss_currentString :: segmentedSubstring
  ss_priorToCurrentString :: int
  ss_priorToCurrentLine :: int
  ss_currentLine :: int
  ss_substrings :: "segmentedSubstring list"
  ss_closed :: bool

definition SegmentedString :: "ustring \<Rightarrow> segmentedString" where
  "SegmentedString str =
     \<lparr>ss_pushedChar1 = 0, ss_pushedChar2 = 0, ss_currentString = SegmentedSubstring str,
      ss_priorToCurrentString = 0, ss_priorToCurrentLine = 0, ss_currentLine = 0,
      ss_substrings = [], ss_closed = False\<rparr>"

text \<open>The character \<^verbatim>\<open>*source\<close> reads, none when \<^verbatim>\<open>m_currentChar\<close> is null.\<close>

definition current :: "segmentedString \<Rightarrow> uchar option" where
  "current s = (if ss_pushedChar1 s \<noteq> 0 then Some (ss_pushedChar1 s)
     else case sub_chars (ss_currentString s) of [] \<Rightarrow> None | c # cs \<Rightarrow> Some c)"

definition isEmpty :: "segmentedString \<Rightarrow> bool" where
  "isEmpty s \<longleftrightarrow> current s = None"

definition isClosed :: "segmentedString \<Rightarrow> bool" where
  "isClosed s = ss_closed s"

definition numberOfCharactersConsumed :: "segmentedString \<Rightarrow> int" where
  "numberOfCharactersConsumed s =
     ss_priorToCurrentString s + sub_numberOfCharactersConsumed (ss_currentString s) -
     (if ss_pushedChar1 s \<noteq> 0 then if ss_pushedChar2 s \<noteq> 0 then 2 else 1 else 0)"

definition ss_length :: "segmentedString \<Rightarrow> nat" where
  "ss_length s = length (sub_chars (ss_currentString s)) +
     (if ss_pushedChar1 s \<noteq> 0 then if ss_pushedChar2 s \<noteq> 0 then 2 else 1 else 0) +
     sum_list (map (\<lambda>t. length (sub_chars t)) (ss_substrings s))"

definition toString :: "segmentedString \<Rightarrow> ustring" where
  "toString s =
     (if ss_pushedChar1 s \<noteq> 0
      then ss_pushedChar1 s # (if ss_pushedChar2 s \<noteq> 0 then [ss_pushedChar2 s] else []) else []) @
     sub_chars (ss_currentString s) @ concat (map sub_chars (ss_substrings s))"

definition setExcludeLineNumbers :: "segmentedString \<Rightarrow> segmentedString" where
  "setExcludeLineNumbers s = s\<lparr>
     ss_currentString := (ss_currentString s)\<lparr>sub_doNotExcludeLineNumbers := False\<rparr>,
     ss_substrings := map (\<lambda>t. t\<lparr>sub_doNotExcludeLineNumbers := False\<rparr>) (ss_substrings s)\<rparr>"

definition clear :: "segmentedString \<Rightarrow> segmentedString" where
  "clear s = s\<lparr>ss_pushedChar1 := 0, ss_pushedChar2 := 0,
     ss_currentString := sub_clear (ss_currentString s), ss_priorToCurrentString := 0,
     ss_priorToCurrentLine := 0, ss_currentLine := 0, ss_substrings := [], ss_closed := False\<rparr>"

definition close :: "segmentedString \<Rightarrow> segmentedString" where
  "close s = s\<lparr>ss_closed := True\<rparr>"

definition push :: "uchar \<Rightarrow> segmentedString \<Rightarrow> segmentedString" where
  "push c s = (if ss_pushedChar1 s = 0 then s\<lparr>ss_pushedChar1 := c\<rparr> else s\<lparr>ss_pushedChar2 := c\<rparr>)"

subsection \<open>Appending and prepending\<close>

definition append_sub :: "segmentedSubstring \<Rightarrow> segmentedString \<Rightarrow> segmentedString" where
  "append_sub t s =
     (if sub_chars t = [] then s
      else if sub_chars (ss_currentString s) = []
      then s\<lparr>ss_priorToCurrentString := ss_priorToCurrentString s +
                 sub_numberOfCharactersConsumed (ss_currentString s),
             ss_currentString := t\<rparr>
      else s\<lparr>ss_substrings := ss_substrings s @ [t]\<rparr>)"

definition prepend_sub :: "segmentedSubstring \<Rightarrow> segmentedString \<Rightarrow> segmentedString" where
  "prepend_sub t s =
     (if sub_chars t = [] then s
      else let s' = s\<lparr>ss_priorToCurrentString := ss_priorToCurrentString s +
                 sub_numberOfCharactersConsumed (ss_currentString s) - int (length (sub_chars t))\<rparr>
           in if sub_chars (ss_currentString s) = [] then s'\<lparr>ss_currentString := t\<rparr>
              else s'\<lparr>ss_substrings := ss_currentString s # ss_substrings s, ss_currentString := t\<rparr>)"

definition ss_append :: "segmentedString \<Rightarrow> segmentedString \<Rightarrow> segmentedString" where
  "ss_append t s = fold append_sub (ss_substrings t) (append_sub (ss_currentString t) s)"

definition ss_prepend :: "segmentedString \<Rightarrow> segmentedString \<Rightarrow> segmentedString" where
  "ss_prepend t s = prepend_sub (ss_currentString t) (fold prepend_sub (rev (ss_substrings t)) s)"

subsection \<open>Advancing\<close>

definition advanceSubstring :: "segmentedString \<Rightarrow> segmentedString" where
  "advanceSubstring s = (case ss_substrings s of
     [] \<Rightarrow> s\<lparr>ss_currentString := sub_clear (ss_currentString s)\<rparr>
   | t # ts \<Rightarrow> s\<lparr>ss_priorToCurrentString := ss_priorToCurrentString s +
         sub_numberOfCharactersConsumed (ss_currentString s) - sub_numberOfCharactersConsumed t,
       ss_currentString := t, ss_substrings := ts\<rparr>)"

definition dropChar :: "segmentedString \<Rightarrow> segmentedString" where
  "dropChar s = s\<lparr>ss_currentString := (ss_currentString s)\<lparr>sub_chars := tl (sub_chars (ss_currentString s))\<rparr>\<rparr>"

definition countLine :: "int \<Rightarrow> segmentedString \<Rightarrow> int \<times> segmentedString" where
  "countLine lineNumber s =
     (lineNumber + 1, s\<lparr>ss_currentLine := ss_currentLine s + 1,
        ss_priorToCurrentLine := numberOfCharactersConsumed s + 1\<rparr>)"

definition advanceSlowCase :: "segmentedString \<Rightarrow> segmentedString" where
  "advanceSlowCase s =
     (if ss_pushedChar1 s \<noteq> 0 then s\<lparr>ss_pushedChar1 := ss_pushedChar2 s, ss_pushedChar2 := 0\<rparr>
      else case sub_chars (ss_currentString s) of [] \<Rightarrow> s
           | c # cs \<Rightarrow> let s = dropChar s in if cs = [] then advanceSubstring s else s)"

definition advance :: "segmentedString \<Rightarrow> segmentedString" where
  "advance s = (if ss_pushedChar1 s = 0 \<and> length (sub_chars (ss_currentString s)) > 1
     then dropChar s else advanceSlowCase s)"

text \<open>The overload that counts lines into the caller's \<^verbatim>\<open>lineNumber\<close>.\<close>

definition advanceSlowCase_line :: "int \<Rightarrow> segmentedString \<Rightarrow> int \<times> segmentedString" where
  "advanceSlowCase_line lineNumber s =
     (if ss_pushedChar1 s \<noteq> 0
      then (lineNumber, s\<lparr>ss_pushedChar1 := ss_pushedChar2 s, ss_pushedChar2 := 0\<rparr>)
      else case sub_chars (ss_currentString s) of [] \<Rightarrow> (lineNumber, s)
           | c # cs \<Rightarrow>
             let (lineNumber, s) = (if c = 0x0A \<and> sub_doNotExcludeLineNumbers (ss_currentString s)
                                    then countLine lineNumber s else (lineNumber, s));
                 s = dropChar s
             in (lineNumber, if cs = [] then advanceSubstring s else s))"

definition advance_line :: "int \<Rightarrow> segmentedString \<Rightarrow> int \<times> segmentedString" where
  "advance_line lineNumber s =
     (if ss_pushedChar1 s = 0 \<and> length (sub_chars (ss_currentString s)) > 1
      then let (lineNumber, s) =
                 (if hd (sub_chars (ss_currentString s)) = 0x0A \<and>
                     sub_doNotExcludeLineNumbers (ss_currentString s)
                  then countLine lineNumber s else (lineNumber, s))
           in (lineNumber, dropChar s)
      else advanceSlowCase_line lineNumber s)"

definition advancePastNewline :: "int \<Rightarrow> segmentedString \<Rightarrow> int \<times> segmentedString" where
  "advancePastNewline lineNumber s =
     (if ss_pushedChar1 s = 0 \<and> length (sub_chars (ss_currentString s)) > 1
      then let (lineNumber, s) = (if sub_doNotExcludeLineNumbers (ss_currentString s)
                                  then countLine lineNumber s else (lineNumber, s))
           in (lineNumber, dropChar s)
      else advanceSlowCase_line lineNumber s)"

definition advancePastNonNewline :: "segmentedString \<Rightarrow> segmentedString" where
  "advancePastNonNewline s = (if ss_pushedChar1 s = 0 \<and> length (sub_chars (ss_currentString s)) > 1
     then dropChar s else advanceSlowCase s)"

text \<open>\<open>advance_count\<close> fills an array with the characters it consumes.\<close>

fun advance_count :: "nat \<Rightarrow> segmentedString \<Rightarrow> ustring \<times> segmentedString" where
  "advance_count 0 s = ([], s)"
| "advance_count (Suc n) s =
     (let c = the (current s); (cs, s) = advance_count n (advance s) in (c # cs, s))"

subsection \<open>Look-ahead\<close>

datatype lookAheadResult = DidNotMatch | DidMatch | NotEnoughCharacters

definition lookAheadSlowCase ::
  "(ustring \<Rightarrow> ustring \<Rightarrow> bool) \<Rightarrow> ustring \<Rightarrow> segmentedString \<Rightarrow> lookAheadResult \<times> segmentedString" where
  "lookAheadSlowCase equals string s =
     (if length string > ss_length s then (NotEnoughCharacters, s)
      else let (consumed, s) = advance_count (length string) s
           in (if equals string consumed then DidMatch else DidNotMatch,
               ss_prepend (SegmentedString consumed) s))"

definition lookAheadInline ::
  "(ustring \<Rightarrow> ustring \<Rightarrow> bool) \<Rightarrow> ustring \<Rightarrow> segmentedString \<Rightarrow> lookAheadResult \<times> segmentedString" where
  "lookAheadInline equals string s =
     (if ss_pushedChar1 s = 0 \<and> length string \<le> length (sub_chars (ss_currentString s))
      then (if equals string (take (length string) (sub_chars (ss_currentString s)))
            then DidMatch else DidNotMatch, s)
      else lookAheadSlowCase equals string s)"

definition lookAhead :: "ustring \<Rightarrow> segmentedString \<Rightarrow> lookAheadResult \<times> segmentedString" where
  "lookAhead = lookAheadInline (\<lambda>a b. a = b)"

text \<open>Case folding is GLib's; the comparison function is a parameter.\<close>

definition lookAheadIgnoringCase ::
  "(ustring \<Rightarrow> ustring \<Rightarrow> int) \<Rightarrow> ustring \<Rightarrow> segmentedString \<Rightarrow> lookAheadResult \<times> segmentedString" where
  "lookAheadIgnoringCase umemcasecmp = lookAheadInline (\<lambda>a b. umemcasecmp a b = 0)"

subsection \<open>Positions\<close>

definition currentLine :: "segmentedString \<Rightarrow> int" where
  "currentLine s = ss_currentLine s"

definition currentColumn :: "segmentedString \<Rightarrow> int" where
  "currentColumn s = numberOfCharactersConsumed s - ss_priorToCurrentLine s"

definition setCurrentPosition :: "int \<Rightarrow> int \<Rightarrow> int \<Rightarrow> segmentedString \<Rightarrow> segmentedString" where
  "setCurrentPosition line columnAfterProlog prologLength s = s\<lparr>ss_currentLine := line,
     ss_priorToCurrentLine := numberOfCharactersConsumed s + prologLength - columnAfterProlog\<rparr>"

subsection \<open>Well-formed strings\<close>

text \<open>
  The invariant: queued substrings are not empty, nothing is queued behind an empty current
  string, and a second pushed character needs a first one.
\<close>

definition ss_wf :: "segmentedString \<Rightarrow> bool" where
  "ss_wf s \<longleftrightarrow> (ss_pushedChar1 s = 0 \<longrightarrow> ss_pushedChar2 s = 0) \<and>
     (sub_chars (ss_currentString s) = [] \<longrightarrow> ss_substrings s = []) \<and>
     (\<forall>t \<in> set (ss_substrings s). sub_chars t \<noteq> [])"

lemmas ss_basic = current_def isEmpty_def toString_def ss_length_def ss_wf_def
  numberOfCharactersConsumed_def sub_numberOfCharactersConsumed_def

lemma ss_length_toString: "ss_length s = length (toString s)"
  by (simp add: ss_length_def toString_def length_concat comp_def)

lemma current_toString: "ss_wf s \<Longrightarrow> current s = (case toString s of [] \<Rightarrow> None | c # cs \<Rightarrow> Some c)"
  by (auto simp: ss_basic split: list.splits)

lemma isEmpty_iff: "ss_wf s \<Longrightarrow> isEmpty s \<longleftrightarrow> toString s = []"
  by (simp add: isEmpty_def current_toString split: list.splits)

lemma wf_SegmentedString [simp]: "ss_wf (SegmentedString str)" "toString (SegmentedString str) = str"
  by (simp_all add: SegmentedString_def SegmentedSubstring_def ss_basic)


subsection \<open>Streams of characters\<close>

text \<open>
  What a tokenizer needs of its input: a step drops the first character of the contents and
  moves the position by one. \<open>SegmentedString\<close> provides it with either overload of advance.
\<close>

locale char_stream =
  fixes ok :: "'s \<Rightarrow> bool" and contents :: "'s \<Rightarrow> 'c list" and position :: "'s \<Rightarrow> int"
    and step :: "'s \<Rightarrow> 's"
  assumes step_ok: "ok s \<Longrightarrow> ok (step s)"
    and step_contents: "ok s \<Longrightarrow> contents (step s) = tl (contents s)"
    and step_position: "ok s \<Longrightarrow> contents s \<noteq> [] \<Longrightarrow> position (step s) = position s + 1"
begin

lemma steps_ok: "ok s \<Longrightarrow> ok ((step ^^ n) s)"
  by (induction n) (simp_all add: step_ok)

lemma steps_contents: "ok s \<Longrightarrow> contents ((step ^^ n) s) = drop n (contents s)"
  by (induction n) (simp_all add: step_contents steps_ok drop_Suc tl_drop)

lemma steps_position:
  "ok s \<Longrightarrow> n \<le> length (contents s) \<Longrightarrow> position ((step ^^ n) s) = position s + int n"
  by (induction n) (simp_all add: step_position steps_ok steps_contents)

lemma step_shorter: "ok s \<Longrightarrow> contents s \<noteq> [] \<Longrightarrow> length (contents (step s)) < length (contents s)"
  by (simp add: step_contents)

end

lemma advance_slow: "advance s = advanceSlowCase s"
  by (auto simp: advance_def advanceSlowCase_def Let_def split: list.splits)

lemma advancePastNonNewline_advance: "advancePastNonNewline s = advance s"
  by (simp add: advancePastNonNewline_def advance_def)

lemma advance_line_slow: "advance_line n s = advanceSlowCase_line n s"
  by (auto simp: advance_line_def advanceSlowCase_line_def Let_def split: list.splits)

lemma advancePastNewline_line: "current s = Some 0x0A \<Longrightarrow> advancePastNewline n s = advance_line n s"
  by (auto simp: advancePastNewline_def advance_line_def current_def split: list.splits if_splits)

text \<open>Counting lines does not change what is advanced over.\<close>

definition same_text :: "segmentedString \<Rightarrow> segmentedString \<Rightarrow> bool" where
  "same_text s t \<longleftrightarrow> ss_pushedChar1 s = ss_pushedChar1 t \<and> ss_pushedChar2 s = ss_pushedChar2 t \<and>
     ss_currentString s = ss_currentString t \<and> ss_substrings s = ss_substrings t \<and>
     ss_priorToCurrentString s = ss_priorToCurrentString t \<and> ss_closed s = ss_closed t"

lemma same_text_dests:
  assumes "same_text s t"
  shows "ss_wf t = ss_wf s" "toString t = toString s" "ss_closed t = ss_closed s"
    "numberOfCharactersConsumed t = numberOfCharactersConsumed s"
  using assms by (simp_all add: same_text_def ss_basic)

lemma advance_line_same_text: "same_text (advance s) (snd (advance_line n s))"
  by (cases "sub_chars (ss_currentString s)"; cases "ss_substrings s")
    (simp_all add: same_text_def advance_line_slow advance_slow advanceSlowCase_def
      advanceSlowCase_line_def countLine_def dropChar_def advanceSubstring_def Let_def)

lemma wf_advance:
  assumes "ss_wf s"
  shows "ss_wf (advance s)" and "toString (advance s) = tl (toString s)"
    and "ss_closed (advance s) = ss_closed s"
  using assms
  by (auto simp: advance_slow advanceSlowCase_def dropChar_def advanceSubstring_def sub_clear_def
      ss_basic Let_def split: list.splits)

lemma position_advance:
  assumes "ss_wf s" and "toString s \<noteq> []"
  shows "numberOfCharactersConsumed (advance s) = numberOfCharactersConsumed s + 1"
  using assms
  by (auto simp: advance_slow advanceSlowCase_def dropChar_def advanceSubstring_def sub_clear_def
      ss_basic Let_def split: list.splits)

interpretation seg: char_stream ss_wf toString numberOfCharactersConsumed advance
  by unfold_locales (simp_all add: wf_advance position_advance)

interpretation segl: char_stream ss_wf toString numberOfCharactersConsumed "\<lambda>s. snd (advance_line n s)" for n
  by unfold_locales
    (simp_all add: same_text_dests[OF advance_line_same_text] wf_advance position_advance)


subsection \<open>Pushing, prepending, appending\<close>

lemma wf_push:
  assumes "ss_wf s" and "c \<noteq> 0" and "ss_pushedChar1 s = 0"
  shows "ss_wf (push c s)" and "toString (push c s) = c # toString s"
    and "ss_closed (push c s) = ss_closed s"
    and "numberOfCharactersConsumed (push c s) = numberOfCharactersConsumed s - 1"
  using assms by (simp_all add: push_def ss_basic)

lemma wf_push2:
  assumes "ss_wf s" and "c \<noteq> 0" and "d \<noteq> 0" and "ss_pushedChar1 s = 0"
  shows "ss_wf (push d (push c s))" and "toString (push d (push c s)) = c # d # toString s"
    and "ss_closed (push d (push c s)) = ss_closed s"
    and "numberOfCharactersConsumed (push d (push c s)) = numberOfCharactersConsumed s - 2"
  using assms by (simp_all add: push_def ss_basic)

lemma wf_prepend:
  assumes "ss_wf s" and "ss_pushedChar1 s = 0"
  shows "ss_wf (ss_prepend (SegmentedString str) s)"
    and "toString (ss_prepend (SegmentedString str) s) = str @ toString s"
    and "ss_closed (ss_prepend (SegmentedString str) s) = ss_closed s"
    and "numberOfCharactersConsumed (ss_prepend (SegmentedString str) s) =
      numberOfCharactersConsumed s - int (length str)"
  using assms
  by (auto simp: ss_prepend_def prepend_sub_def SegmentedString_def SegmentedSubstring_def ss_basic Let_def)

lemma wf_append_sub:
  assumes "ss_wf s"
  shows "ss_wf (append_sub t s)" and "toString (append_sub t s) = toString s @ sub_chars t"
    and "ss_closed (append_sub t s) = ss_closed s"
    and "sub_numberOfCharactersConsumed t = 0 \<Longrightarrow>
      numberOfCharactersConsumed (append_sub t s) = numberOfCharactersConsumed s"
  using assms by (auto simp: append_sub_def ss_basic)

lemma wf_append:
  assumes "ss_wf s" and "ss_pushedChar1 t = 0"
  shows "ss_wf (ss_append t s)" and "toString (ss_append t s) = toString s @ toString t"
    and "ss_closed (ss_append t s) = ss_closed s"
proof -
  have "ss_wf (fold append_sub ts u) \<and> toString (fold append_sub ts u) = toString u @ concat (map sub_chars ts) \<and>
      ss_closed (fold append_sub ts u) = ss_closed u" if "ss_wf u" for ts u
    using that by (induction ts arbitrary: u) (simp_all add: wf_append_sub)
  from this[OF wf_append_sub(1)[OF assms(1)], of "ss_substrings t" "ss_currentString t"]
  show "ss_wf (ss_append t s)" "toString (ss_append t s) = toString s @ toString t"
    "ss_closed (ss_append t s) = ss_closed s"
    using assms by (simp_all add: ss_append_def wf_append_sub toString_def[of t])
qed

subsection \<open>Look-ahead\<close>

lemma advance_count_steps:
  "snd (advance_count n s) = (advance ^^ n) s"
  by (induction n arbitrary: s) (simp_all add: funpow_swap1 Let_def split: prod.splits, metis snd_conv)

lemma advance_count_chars:
  "ss_wf s \<Longrightarrow> n \<le> length (toString s) \<Longrightarrow> fst (advance_count n s) = take n (toString s)"
proof (induction n arbitrary: s)
  case (Suc n)
  then obtain c cs where c: "toString s = c # cs" by (cases "toString s") auto
  have "fst (advance_count n (advance s)) = take n cs"
    using Suc c by (simp add: wf_advance)
  with c Suc.prems show ?case
    by (simp add: Let_def current_toString split: prod.split) (metis fst_conv)
qed simp

text \<open>Two steps leave no pushed character behind.\<close>

lemma no_pushed_after:
  assumes "ss_wf s" and "2 \<le> n \<or> ss_pushedChar1 s = 0"
  shows "ss_pushedChar1 ((advance ^^ n) s) = 0"
proof -
  have keep: "ss_pushedChar1 ((advance ^^ m) u) = 0" if "ss_pushedChar1 u = 0" for m u
    using that
    by (induction m) (auto simp: advance_slow advanceSlowCase_def dropChar_def advanceSubstring_def
        Let_def split: list.splits)
  show ?thesis
  proof (cases "ss_pushedChar1 s = 0")
    case True
    then show ?thesis by (rule keep)
  next
    case False
    with assms obtain m where m: "n = m + 2" by (metis add.commute le_Suc_ex)
    have "ss_pushedChar1 (advance (advance s)) = 0"
      using False by (auto simp: advance_slow advanceSlowCase_def dropChar_def advanceSubstring_def
          Let_def split: list.splits)
    then show ?thesis using keep[of "advance (advance s)" m] by (simp add: m funpow_swap1)
  qed
qed

lemma lookAheadInline_spec:
  assumes "ss_wf s" and "2 \<le> length str \<or> ss_pushedChar1 s = 0"
  shows "\<exists>s'. lookAheadInline equals str s =
      ((if length (toString s) < length str then NotEnoughCharacters
        else if equals str (take (length str) (toString s)) then DidMatch else DidNotMatch), s') \<and>
    ss_wf s' \<and> toString s' = toString s \<and> ss_closed s' = ss_closed s \<and>
    numberOfCharactersConsumed s' = numberOfCharactersConsumed s"
proof -
  let ?n = "length str" and ?T = "toString s"
  have slow: "\<exists>s'. lookAheadSlowCase equals str s =
      ((if length ?T < ?n then NotEnoughCharacters
        else if equals str (take ?n ?T) then DidMatch else DidNotMatch), s') \<and>
    ss_wf s' \<and> toString s' = ?T \<and> ss_closed s' = ss_closed s \<and>
    numberOfCharactersConsumed s' = numberOfCharactersConsumed s"
  proof (cases "length ?T < ?n")
    case True
    with assms(1) show ?thesis by (simp add: lookAheadSlowCase_def ss_length_toString)
  next
    case False
    let ?s = "(advance ^^ ?n) s" and ?c = "take ?n ?T"
    have ac: "advance_count ?n s = (?c, ?s)"
      using advance_count_chars[OF assms(1)] advance_count_steps[of ?n s] False
      by (metis linorder_not_less prod.collapse)
    have closed: "ss_closed ((advance ^^ m) s) = ss_closed s" for m
      using assms(1) by (induction m) (simp_all add: wf_advance seg.steps_ok)
    note p = wf_prepend[OF seg.steps_ok[OF assms(1)] no_pushed_after[OF assms], of ?c]
    show ?thesis
      using False ac p closed seg.steps_contents[OF assms(1), of ?n]
        seg.steps_position[OF assms(1), of ?n]
      by (simp add: lookAheadSlowCase_def ss_length_toString)
  qed
  show ?thesis
  proof (cases "ss_pushedChar1 s = 0 \<and> ?n \<le> length (sub_chars (ss_currentString s))")
    case True
    then have "take ?n ?T = take ?n (sub_chars (ss_currentString s))" "\<not> length ?T < ?n"
      by (simp_all add: toString_def)
    with True assms(1) show ?thesis by (simp add: lookAheadInline_def)
  next
    case False
    then have "lookAheadInline equals str s = lookAheadSlowCase equals str s"
      by (auto simp: lookAheadInline_def)
    with slow show ?thesis by simp
  qed
qed

end
