(* ===== verification/WTF_Unicode.thy ===== *)
theory WTF_Unicode
  imports WK_Prelude
begin

section \<open>Code points and code units\<close>

text \<open>
  The macros of \<^verbatim>\<open>icu/unicode/utf.h\<close> and \<^verbatim>\<open>icu/unicode/utf16.h\<close> on a code point, an \<^verbatim>\<open>int32_t\<close>
  modelled as a 32-bit word, and the code units it splits into.
\<close>

unbundle bit_operations_syntax

type_synonym uchar32 = "32 word"

definition U_IS_BMP :: "uchar32 \<Rightarrow> bool" where
  "U_IS_BMP c \<longleftrightarrow> c \<le> 0xFFFF"

definition U_IS_SURROGATE :: "uchar32 \<Rightarrow> bool" where
  "U_IS_SURROGATE c \<longleftrightarrow> c AND 0xFFFFF800 = 0xD800"

definition U_IS_SUPPLEMENTARY :: "uchar32 \<Rightarrow> bool" where
  "U_IS_SUPPLEMENTARY c \<longleftrightarrow> c - 0x10000 \<le> 0xFFFFF"

definition U16_LEAD :: "uchar32 \<Rightarrow> uchar" where
  "U16_LEAD c = ucast (signed_drop_bit 10 c + 0xD7C0)"

definition U16_TRAIL :: "uchar32 \<Rightarrow> uchar" where
  "U16_TRAIL c = ucast ((c AND 0x3FF) OR 0xDC00)"

lemma split_masked_word: "(v :: 'a::len word) = (v AND NOT m) + (v AND m)"
  using word_plus_and_or[of "v AND NOT m" "v AND m"] bit.conj_disj_distrib[of v "NOT m" m]
  by (simp add: and.assoc and.left_commute)

lemma uint_trail: "uint (U16_TRAIL c) = uint c mod 1024 + 0xDC00"
proof -
  let ?l = "c AND 0x3FF"
  have "?l AND 0xDC00 = 0" by (simp add: and.assoc)
  then have or: "?l OR 0xDC00 = ?l + 0xDC00" using word_plus_and_or[of ?l "0xDC00"] by simp
  have m: "?l = take_bit 10 c" by (simp add: take_bit_eq_mask mask_eq_exp_minus_1)
  have l: "uint ?l = uint c mod 1024" unfolding m unsigned_take_bit_eq by (simp add: take_bit_eq_mod)
  then have "uint (?l + 0xDC00) = uint c mod 1024 + 0xDC00"
    by (simp add: uint_word_ariths mod_pos_pos_trivial)
  then show ?thesis by (simp add: U16_TRAIL_def or unsigned_ucast_eq take_bit_eq_mod)
qed

lemma uint_lead:
  assumes "0 \<le> sint c" and "sint c \<le> 0x10FFFF" and "0x10000 \<le> sint c"
  shows "uint (U16_LEAD c) = sint c div 1024 + 0xD7C0"
proof -
  let ?h = "signed_drop_bit 10 c"
  have s: "sint ?h = sint c div 1024" by (simp add: sint_signed_drop_bit_eq drop_bit_eq_div)
  then have h: "uint ?h = sint c div 1024" using assms by (simp add: uint_sint take_bit_eq_mod)
  then have "uint (?h + 0xD7C0) = sint c div 1024 + 0xD7C0" using assms
    by (simp add: uint_word_ariths mod_pos_pos_trivial)
  then show ?thesis using assms by (simp add: U16_LEAD_def unsigned_ucast_eq take_bit_eq_mod)
qed

lemma uint_sint_nonneg: "0 \<le> sint (v :: uchar32) \<Longrightarrow> uint v = sint v"
  using sint_lt[of v] by (simp add: uint_sint take_bit_eq_mod)

lemma U_IS_BMP_sint: "0 \<le> sint v \<Longrightarrow> U_IS_BMP v \<longleftrightarrow> sint v \<le> 0xFFFF"
  by (simp add: U_IS_BMP_def word_le_def uint_sint_nonneg)

end
