(* ===== verification/HTML_Entity.thy ===== *)
theory HTML_Entity
  imports WK_SegmentedString WTF_Unicode
begin

section \<open>Character references\<close>

text \<open>
  \<^verbatim>\<open>xml/parser/CharacterReferenceParserInlineMethods.h\<close>, \<^verbatim>\<open>html/parser/HTMLEntityParser.cpp\<close> and
  \<^verbatim>\<open>html/parser/HTMLEntitySearch.cpp\<close>: decoding of \<^verbatim>\<open>&amp;\<close>, \<^verbatim>\<open>&#38;\<close> and \<^verbatim>\<open>&#x26;\<close>. The table of
  named entities is generated when WebKit is built, so it is a parameter: its entries in order
  and the two functions that give the first and the last entry with a given first character.
  Pointers to entries are indices.
\<close>

record entityEntry =
  en_entity :: ustring
  en_firstValue :: uchar32
  en_secondValue :: uchar32

record entityTable =
  tb_entries :: "entityEntry list"
  tb_firstEntryStartingWith :: "uchar \<Rightarrow> nat option"
  tb_lastEntryStartingWith :: "uchar \<Rightarrow> nat option"

subsection \<open>Searching the table\<close>

record entitySearch =
  es_currentLength :: nat
  es_mostRecentMatch :: "nat option"
  es_first :: "nat option"
  es_last :: "nat option"

definition HTMLEntitySearch :: "entityTable \<Rightarrow> entitySearch" where
  "HTMLEntitySearch tb = \<lparr>es_currentLength = 0, es_mostRecentMatch = None, es_first = Some 0,
     es_last = Some (length (tb_entries tb) - 1)\<rparr>"

datatype compareResult = Before | Prefix | After

definition entryLength :: "entityTable \<Rightarrow> nat \<Rightarrow> nat" where
  "entryLength tb e = length (en_entity (tb_entries tb ! e))"

definition search_compare :: "entityTable \<Rightarrow> nat \<Rightarrow> nat \<Rightarrow> uchar \<Rightarrow> compareResult" where
  "search_compare tb currentLength e nextCharacter =
     (if entryLength tb e < currentLength + 1 then Before
      else let entryNextCharacter = en_entity (tb_entries tb ! e) ! currentLength
           in if entryNextCharacter = nextCharacter then Prefix
              else if entryNextCharacter < nextCharacter then Before else After)"

definition halfway :: "nat \<Rightarrow> nat \<Rightarrow> nat" where
  "halfway left right = left + (right - left) div 2"

function findFirst_loop :: "entityTable \<Rightarrow> nat \<Rightarrow> uchar \<Rightarrow> nat \<Rightarrow> nat \<Rightarrow> nat" where
  "findFirst_loop tb n c left right =
     (if left + 1 < right
      then let probe = halfway left right
           in if search_compare tb n probe c = Before then findFirst_loop tb n c probe right
              else findFirst_loop tb n c left probe
      else right)"
  by pat_completeness auto
termination
  by (relation "measure (\<lambda>(tb, n, c, left, right). right - left)") (auto simp: halfway_def)

definition findFirst :: "entityTable \<Rightarrow> nat \<Rightarrow> uchar \<Rightarrow> nat \<Rightarrow> nat \<Rightarrow> nat" where
  "findFirst tb n c left right =
     (if left = right then left
      else case search_compare tb n left c of
             Prefix \<Rightarrow> left
           | After \<Rightarrow> right
           | Before \<Rightarrow> findFirst_loop tb n c left right)"

function findLast_loop :: "entityTable \<Rightarrow> nat \<Rightarrow> uchar \<Rightarrow> nat \<Rightarrow> nat \<Rightarrow> nat" where
  "findLast_loop tb n c left right =
     (if left + 1 < right
      then let probe = halfway left right
           in if search_compare tb n probe c = After then findLast_loop tb n c left probe
              else findLast_loop tb n c probe right
      else left)"
  by pat_completeness auto
termination
  by (relation "measure (\<lambda>(tb, n, c, left, right). right - left)") (auto simp: halfway_def)

definition findLast :: "entityTable \<Rightarrow> nat \<Rightarrow> uchar \<Rightarrow> nat \<Rightarrow> nat \<Rightarrow> nat" where
  "findLast tb n c left right =
     (if left = right then right
      else case search_compare tb n right c of
             Prefix \<Rightarrow> right
           | Before \<Rightarrow> left
           | After \<Rightarrow> findLast_loop tb n c left right)"

declare findFirst_loop.simps [simp del] findLast_loop.simps [simp del]

definition isEntityPrefix :: "entitySearch \<Rightarrow> bool" where
  "isEntityPrefix es \<longleftrightarrow> es_first es \<noteq> None"

definition search_fail :: "entitySearch \<Rightarrow> entitySearch" where
  "search_fail es = es\<lparr>es_first := None, es_last := None\<rparr>"

definition search_advanceTo :: "entityTable \<Rightarrow> nat \<Rightarrow> nat \<Rightarrow> entitySearch \<Rightarrow> entitySearch" where
  "search_advanceTo tb firstE lastE es =
     (let es = es\<lparr>es_first := Some firstE, es_last := Some lastE,
                  es_currentLength := es_currentLength es + 1\<rparr>
      in if entryLength tb firstE \<noteq> es_currentLength es then es
         else es\<lparr>es_mostRecentMatch := Some firstE\<rparr>)"

definition search_advance :: "entityTable \<Rightarrow> uchar \<Rightarrow> entitySearch \<Rightarrow> entitySearch" where
  "search_advance tb nextCharacter es =
     (if es_currentLength es = 0
      then case (tb_firstEntryStartingWith tb nextCharacter, tb_lastEntryStartingWith tb nextCharacter) of
             (Some firstE, Some lastE) \<Rightarrow> search_advanceTo tb firstE lastE es
           | _ \<Rightarrow> search_fail es
      else case (es_first es, es_last es) of
             (Some left, Some right) \<Rightarrow>
               let n = es_currentLength es;
                   firstE = findFirst tb n nextCharacter left right;
                   lastE = findLast tb n nextCharacter firstE right
               in if firstE = lastE \<and> search_compare tb n firstE nextCharacter \<noteq> Prefix
                  then search_fail es
                  else search_advanceTo tb firstE lastE es
           | _ \<Rightarrow> search_fail es)"

subsection \<open>Numeric references\<close>

definition windowsLatin1ExtensionArray :: "uchar list" where
  "windowsLatin1ExtensionArray =
    [0x20AC, 0x0081, 0x201A, 0x0192, 0x201E, 0x2026, 0x2020, 0x2021,
     0x02C6, 0x2030, 0x0160, 0x2039, 0x0152, 0x008D, 0x017D, 0x008F,
     0x0090, 0x2018, 0x2019, 0x201C, 0x201D, 0x2022, 0x2013, 0x2014,
     0x02DC, 0x2122, 0x0161, 0x203A, 0x0153, 0x009D, 0x017E, 0x0178]"

definition adjustEntity :: "uchar32 \<Rightarrow> uchar" where
  "adjustEntity v = (if v AND NOT 0x1F \<noteq> 0x0080 then ucast v
     else windowsLatin1ExtensionArray ! unat (v - 0x80))"

text \<open>\<^verbatim>\<open>UChar32\<close> is a signed 32-bit integer; the comparisons read the sign.\<close>

definition legalEntityFor :: "uchar32 \<Rightarrow> uchar32" where
  "legalEntityFor v =
     (if v = 0 \<or> sint v > 0x10FFFF \<or> (sint v \<ge> 0xD800 \<and> sint v \<le> 0xDFFF) then 0xFFFD
      else if U_IS_BMP v then ucast (adjustEntity v)
      else v)"

definition convertToUTF16 :: "uchar32 \<Rightarrow> ustring" where
  "convertToUTF16 v = (if U_IS_BMP v then [ucast v] else [U16_LEAD v, U16_TRAIL v])"

definition isHexDigit :: "uchar \<Rightarrow> bool" where
  "isHexDigit cc \<longleftrightarrow> (0x30 \<le> cc \<and> cc \<le> 0x39) \<or> (0x61 \<le> cc \<and> cc \<le> 0x66) \<or> (0x41 \<le> cc \<and> cc \<le> 0x46)"

definition isAlphaNumeric :: "uchar \<Rightarrow> bool" where
  "isAlphaNumeric cc \<longleftrightarrow>
     (0x30 \<le> cc \<and> cc \<le> 0x39) \<or> (0x61 \<le> cc \<and> cc \<le> 0x7A) \<or> (0x41 \<le> cc \<and> cc \<le> 0x5A)"

definition unconsumeCharacters :: "ustring \<Rightarrow> segmentedString \<Rightarrow> segmentedString" where
  "unconsumeCharacters consumed source = (case consumed of
     [a] \<Rightarrow> push a source
   | [a, b] \<Rightarrow> push b (push a source)
   | _ \<Rightarrow> ss_prepend (SegmentedString consumed) source)"


subsection \<open>Named references\<close>

record entityResult =
  er_success :: bool
  er_decoded :: ustring
  er_notEnoughCharacters :: bool
  er_source :: segmentedString

lemma ss_length_advance: "\<not> isEmpty s \<Longrightarrow> ss_length (advance s) < ss_length s"
  by (auto simp: advance_slow advanceSlowCase_def dropChar_def advanceSubstring_def sub_clear_def
      isEmpty_def current_def ss_length_def Let_def split: list.splits if_splits)

text \<open>The first loop: consume while the characters are the prefix of some entity.\<close>

function named_loop :: "entityTable \<Rightarrow> entitySearch \<Rightarrow> ustring \<Rightarrow> segmentedString \<Rightarrow>
    entitySearch \<times> ustring \<times> segmentedString" where
  "named_loop tb es consumed source =
     (if isEmpty source then (es, consumed, source)
      else let cc = the (current source); es = search_advance tb cc es
           in if \<not> isEntityPrefix es then (es, consumed, source)
              else named_loop tb es (consumed @ [cc]) (advance source))"
  by pat_completeness auto
termination
  by (relation "measure (\<lambda>(tb, es, consumed, source). ss_length source)") (simp_all add: ss_length_advance)

definition decodedEntity :: "entityEntry \<Rightarrow> ustring" where
  "decodedEntity e = convertToUTF16 (en_firstValue e) @
     (if en_secondValue e \<noteq> 0 then convertToUTF16 (en_secondValue e) else [])"

definition consumeNamedEntity :: "entityTable \<Rightarrow> uchar \<Rightarrow> segmentedString \<Rightarrow> entityResult" where
  "consumeNamedEntity tb additionalAllowedCharacter source =
     (let (es, consumed, source) = named_loop tb (HTMLEntitySearch tb) [] source;
          failed = (\<lambda>notEnough consumed source. \<lparr>er_success = False, er_decoded = [],
             er_notEnoughCharacters = notEnough, er_source = unconsumeCharacters consumed source\<rparr>)
      in if isEmpty source then failed True consumed source
         else case es_mostRecentMatch es of None \<Rightarrow> failed False consumed source
         | Some m \<Rightarrow>
           let entry = tb_entries tb ! m;
               len = length (en_entity entry);
               (consumed, source) = (if len \<noteq> es_currentLength es
                  then advance_count len (unconsumeCharacters consumed source)
                  else (consumed, source));
               cc = the (current source)
           in if last (en_entity entry) = 0x3B \<or> additionalAllowedCharacter = 0 \<or>
                 \<not> (isAlphaNumeric cc \<or> cc = 0x3D)
              then \<lparr>er_success = True, er_decoded = decodedEntity entry,
                    er_notEnoughCharacters = False, er_source = source\<rparr>
              else failed False consumed source)"

subsection \<open>The reference parser\<close>

datatype entityState = Initial | Number | MaybeHexLowerCaseX | MaybeHexUpperCaseX | Hex | Decimal | Named

fun entityState_rank :: "entityState \<Rightarrow> nat" where
  "entityState_rank Initial = 3"
| "entityState_rank Number = 2"
| "entityState_rank MaybeHexLowerCaseX = 1"
| "entityState_rank MaybeHexUpperCaseX = 1"
| "entityState_rank _ = 0"

definition hexValue :: "uchar \<Rightarrow> uchar32" where
  "hexValue cc = (if cc \<le> 0x39 then ucast cc - 0x30 else if 0x61 \<le> cc then 10 + ucast cc - 0x61
     else 10 + ucast cc - 0x41)"

definition entityDone :: "uchar32 \<Rightarrow> segmentedString \<Rightarrow> entityResult" where
  "entityDone result source = \<lparr>er_success = True, er_decoded = convertToUTF16 (legalEntityFor result),
     er_notEnoughCharacters = False, er_source = source\<rparr>"

definition entityNone :: "segmentedString \<Rightarrow> entityResult" where
  "entityNone source = \<lparr>er_success = False, er_decoded = [], er_notEnoughCharacters = False,
     er_source = source\<rparr>"

text \<open>
  The accumulated value wraps around at 32 bits. HTML accepts a reference without its semicolon
  (\<open>acceptMalformed\<close>), so the branches of the template that give the characters back on a
  malformed number do not occur.
\<close>

function consumeCharacterReference_loop ::
  "entityTable \<Rightarrow> uchar \<Rightarrow> entityState \<Rightarrow> uchar32 \<Rightarrow> ustring \<Rightarrow> segmentedString \<Rightarrow> entityResult" where
  "consumeCharacterReference_loop tb allowed entityState result consumed source =
     (if isEmpty source
      then \<lparr>er_success = False, er_decoded = [], er_notEnoughCharacters = True,
            er_source = unconsumeCharacters consumed source\<rparr>
      else let cc = the (current source)
      in case entityState of
        Initial \<Rightarrow>
          if cc = 0x09 \<or> cc = 0x0A \<or> cc = 0x0C \<or> cc = 0x20 \<or> cc = 0x3C \<or> cc = 0x26
          then entityNone source
          else if allowed \<noteq> 0 \<and> cc = allowed then entityNone source
          else if cc = 0x23
          then consumeCharacterReference_loop tb allowed Number result (consumed @ [cc]) (advance source)
          else if (0x61 \<le> cc \<and> cc \<le> 0x7A) \<or> (0x41 \<le> cc \<and> cc \<le> 0x5A)
          then consumeCharacterReference_loop tb allowed Named result consumed source
          else entityNone source
      | Number \<Rightarrow>
          if cc = 0x78
          then consumeCharacterReference_loop tb allowed MaybeHexLowerCaseX result (consumed @ [cc]) (advance source)
          else if cc = 0x58
          then consumeCharacterReference_loop tb allowed MaybeHexUpperCaseX result (consumed @ [cc]) (advance source)
          else if 0x30 \<le> cc \<and> cc \<le> 0x39
          then consumeCharacterReference_loop tb allowed Decimal result consumed source
          else entityNone (push 0x23 source)
      | MaybeHexLowerCaseX \<Rightarrow>
          if isHexDigit cc then consumeCharacterReference_loop tb allowed Hex result consumed source
          else entityNone (push 0x78 (push 0x23 source))
      | MaybeHexUpperCaseX \<Rightarrow>
          if isHexDigit cc then consumeCharacterReference_loop tb allowed Hex result consumed source
          else entityNone (push 0x58 (push 0x23 source))
      | Hex \<Rightarrow>
          if isHexDigit cc
          then consumeCharacterReference_loop tb allowed Hex (result * 16 + hexValue cc) (consumed @ [cc]) (advance source)
          else if cc = 0x3B then entityDone result (advance source)
          else entityDone result source
      | Decimal \<Rightarrow>
          if 0x30 \<le> cc \<and> cc \<le> 0x39
          then consumeCharacterReference_loop tb allowed Decimal (result * 10 + (ucast cc - 0x30)) (consumed @ [cc]) (advance source)
          else if cc = 0x3B then entityDone result (advance source)
          else entityDone result source
      | Named \<Rightarrow> consumeNamedEntity tb allowed source)"
  by pat_completeness auto
termination
  by (relation "measures [\<lambda>(tb, al, st, r, c, source). ss_length source,
      \<lambda>(tb, al, st, r, c, source). entityState_rank st]") (simp_all add: ss_length_advance)

declare named_loop.simps [simp del] consumeCharacterReference_loop.simps [simp del]

definition consumeHTMLEntity :: "entityTable \<Rightarrow> uchar \<Rightarrow> segmentedString \<Rightarrow> entityResult" where
  "consumeHTMLEntity tb additionalAllowedCharacter source =
     consumeCharacterReference_loop tb additionalAllowedCharacter Initial 0 [] source"

text \<open>\<open>decodeNamedEntity\<close>, used by the XML parser, needs the semicolon and a single code unit.\<close>

fun decodeNamedEntity_loop :: "entityTable \<Rightarrow> entitySearch \<Rightarrow> ustring \<Rightarrow> entitySearch" where
  "decodeNamedEntity_loop tb es [] = es"
| "decodeNamedEntity_loop tb es (c # name) =
     (let es = search_advance tb c es
      in if \<not> isEntityPrefix es then es else decodeNamedEntity_loop tb es name)"

definition decodeNamedEntity :: "entityTable \<Rightarrow> ustring \<Rightarrow> fault + uchar" where
  "decodeNamedEntity tb name =
     (let es = decodeNamedEntity_loop tb (HTMLEntitySearch tb) name
      in if \<not> isEntityPrefix es then Inr 0
         else let es = search_advance tb 0x3B es
         in if \<not> isEntityPrefix es then Inr 0
         else case es_mostRecentMatch es of None \<Rightarrow> Inl NullPointer
         | Some m \<Rightarrow> let e = tb_entries tb ! m
              in if \<not> U_IS_BMP (en_firstValue e) \<or> en_secondValue e \<noteq> 0 then Inr 0
                 else Inr (ucast (en_firstValue e)))"

end
