(* ===== verification/HTML_Tokenizer.thy ===== *)
theory HTML_Tokenizer
  imports HTML_Token HTML_Entity
begin

section \<open>The HTML tokenizer\<close>

text \<open>
  \<^verbatim>\<open>html/parser/HTMLTokenizer.cpp\<close> with its base class
  \<^verbatim>\<open>xml/parser/MarkupTokenizerBase.h\<close> and the macros of
  \<^verbatim>\<open>xml/parser/MarkupTokenizerInlineMethods.h\<close>. Each state of the machine is one definition, a
  function of the tokenizer, the source and the current character; it either returns from
  \<open>nextToken\<close> or jumps to the next state with the next character, as the macros do. The token
  under construction, which the tokenizer holds by pointer, is the field \<open>m_token\<close>.
  \<open>parseError\<close> has no effect in the source and is left out.
\<close>

subsection \<open>Characters and states\<close>

abbreviation (input) endOfFileMarker :: uchar where "endOfFileMarker \<equiv> 0x0000"
abbreviation (input) c_tab :: uchar where "c_tab \<equiv> 0x0009"
abbreviation (input) c_lf :: uchar where "c_lf \<equiv> 0x000A"
abbreviation (input) c_ff :: uchar where "c_ff \<equiv> 0x000C"
abbreviation (input) c_cr :: uchar where "c_cr \<equiv> 0x000D"
abbreviation (input) c_space :: uchar where "c_space \<equiv> 0x0020"
abbreviation (input) c_bang :: uchar where "c_bang \<equiv> 0x0021"
abbreviation (input) c_dquot :: uchar where "c_dquot \<equiv> 0x0022"
abbreviation (input) c_amp :: uchar where "c_amp \<equiv> 0x0026"
abbreviation (input) c_squot :: uchar where "c_squot \<equiv> 0x0027"
abbreviation (input) c_dash :: uchar where "c_dash \<equiv> 0x002D"
abbreviation (input) c_slash :: uchar where "c_slash \<equiv> 0x002F"
abbreviation (input) c_lt :: uchar where "c_lt \<equiv> 0x003C"
abbreviation (input) c_eq :: uchar where "c_eq \<equiv> 0x003D"
abbreviation (input) c_gt :: uchar where "c_gt \<equiv> 0x003E"
abbreviation (input) c_quest :: uchar where "c_quest \<equiv> 0x003F"
abbreviation (input) c_lbracket :: uchar where "c_lbracket \<equiv> 0x005B"
abbreviation (input) c_rbracket :: uchar where "c_rbracket \<equiv> 0x005D"

abbreviation (input) dashDashString :: ustring where "dashDashString \<equiv> [0x2D, 0x2D]"
abbreviation (input) doctypeString :: ustring where
  "doctypeString \<equiv> [0x64, 0x6F, 0x63, 0x74, 0x79, 0x70, 0x65]"
abbreviation (input) cdataString :: ustring where
  "cdataString \<equiv> [0x5B, 0x43, 0x44, 0x41, 0x54, 0x41, 0x5B]"
abbreviation (input) publicString :: ustring where
  "publicString \<equiv> [0x70, 0x75, 0x62, 0x6C, 0x69, 0x63]"
abbreviation (input) systemString :: ustring where
  "systemString \<equiv> [0x73, 0x79, 0x73, 0x74, 0x65, 0x6D]"
abbreviation (input) scriptTag :: ustring where
  "scriptTag \<equiv> [0x73, 0x63, 0x72, 0x69, 0x70, 0x74]"

definition isASCIIUpper :: "uchar \<Rightarrow> bool" where
  "isASCIIUpper cc \<longleftrightarrow> 0x41 \<le> cc \<and> cc \<le> 0x5A"

definition isASCIILower :: "uchar \<Rightarrow> bool" where
  "isASCIILower cc \<longleftrightarrow> 0x61 \<le> cc \<and> cc \<le> 0x7A"

definition toLowerCase :: "uchar \<Rightarrow> uchar" where
  "toLowerCase cc = cc + 0x20"

definition isTokenizerWhitespace :: "uchar \<Rightarrow> bool" where
  "isTokenizerWhitespace cc \<longleftrightarrow> cc = c_space \<or> cc = c_lf \<or> cc = c_tab \<or> cc = c_ff"

datatype (plugins only: code size) tokenizerState =
    DataState
  | CharacterReferenceInDataState
  | RCDATAState
  | CharacterReferenceInRCDATAState
  | RAWTEXTState
  | ScriptDataState
  | PLAINTEXTState
  | TagOpenState
  | EndTagOpenState
  | TagNameState
  | RCDATALessThanSignState
  | RCDATAEndTagOpenState
  | RCDATAEndTagNameState
  | RAWTEXTLessThanSignState
  | RAWTEXTEndTagOpenState
  | RAWTEXTEndTagNameState
  | ScriptDataLessThanSignState
  | ScriptDataEndTagOpenState
  | ScriptDataEndTagNameState
  | ScriptDataEscapeStartState
  | ScriptDataEscapeStartDashState
  | ScriptDataEscapedState
  | ScriptDataEscapedDashState
  | ScriptDataEscapedDashDashState
  | ScriptDataEscapedLessThanSignState
  | ScriptDataEscapedEndTagOpenState
  | ScriptDataEscapedEndTagNameState
  | ScriptDataDoubleEscapeStartState
  | ScriptDataDoubleEscapedState
  | ScriptDataDoubleEscapedDashState
  | ScriptDataDoubleEscapedDashDashState
  | ScriptDataDoubleEscapedLessThanSignState
  | ScriptDataDoubleEscapeEndState
  | BeforeAttributeNameState
  | AttributeNameState
  | AfterAttributeNameState
  | BeforeAttributeValueState
  | AttributeValueDoubleQuotedState
  | AttributeValueSingleQuotedState
  | AttributeValueUnquotedState
  | CharacterReferenceInAttributeValueState
  | AfterAttributeValueQuotedState
  | SelfClosingStartTagState
  | BogusCommentState
  | ContinueBogusCommentState
  | MarkupDeclarationOpenState
  | CommentStartState
  | CommentStartDashState
  | CommentState
  | CommentEndDashState
  | CommentEndState
  | CommentEndBangState
  | DOCTYPEState
  | BeforeDOCTYPENameState
  | DOCTYPENameState
  | AfterDOCTYPENameState
  | AfterDOCTYPEPublicKeywordState
  | BeforeDOCTYPEPublicIdentifierState
  | DOCTYPEPublicIdentifierDoubleQuotedState
  | DOCTYPEPublicIdentifierSingleQuotedState
  | AfterDOCTYPEPublicIdentifierState
  | BetweenDOCTYPEPublicAndSystemIdentifiersState
  | AfterDOCTYPESystemKeywordState
  | BeforeDOCTYPESystemIdentifierState
  | DOCTYPESystemIdentifierDoubleQuotedState
  | DOCTYPESystemIdentifierSingleQuotedState
  | AfterDOCTYPESystemIdentifierState
  | BogusDOCTYPEState
  | CDATASectionState
  | CDATASectionRightSquareBracketState
  | CDATASectionDoubleRightSquareBracketState

definition isEndTagBufferingState :: "tokenizerState \<Rightarrow> bool" where
  "isEndTagBufferingState s \<longleftrightarrow> s \<in> {RCDATAEndTagOpenState, RCDATAEndTagNameState,
     RAWTEXTEndTagOpenState, RAWTEXTEndTagNameState, ScriptDataEndTagOpenState,
     ScriptDataEndTagNameState, ScriptDataEscapedEndTagOpenState, ScriptDataEscapedEndTagNameState}"

record tokenizer =
  m_state :: tokenizerState
  m_token :: token
  m_lineNumber :: int
  m_forceNullCharacterReplacement :: bool
  m_additionalAllowedCharacter :: uchar
  m_nextInputCharacter :: uchar
  m_skipNextNewLine :: bool
  m_appropriateEndTagName :: ustring
  m_shouldAllowCDATA :: bool
  m_temporaryBuffer :: ustring
  m_bufferedEndTagName :: ustring
  m_usePreHTML5ParserQuirks :: bool

text \<open>What the tokenizer calls outside the repository: the entity table and GLib's case folding.\<close>

record tokenizer_env =
  env_entities :: entityTable
  env_umemcasecmp :: "ustring \<Rightarrow> ustring \<Rightarrow> int"

definition HTMLTokenizer :: "bool \<Rightarrow> tokenizer" where
  "HTMLTokenizer usePreHTML5ParserQuirks =
     \<lparr>m_state = DataState, m_token = newToken, m_lineNumber = 0,
      m_forceNullCharacterReplacement = False, m_additionalAllowedCharacter = 0,
      m_nextInputCharacter = 0, m_skipNextNewLine = False, m_appropriateEndTagName = [],
      m_shouldAllowCDATA = False, m_temporaryBuffer = [], m_bufferedEndTagName = [],
      m_usePreHTML5ParserQuirks = usePreHTML5ParserQuirks\<rparr>"

text \<open>
  \<open>reset\<close> leaves the end-tag name, the two buffers and the preprocessor as they are.
\<close>

definition reset :: "tokenizer \<Rightarrow> tokenizer" where
  "reset t = t\<lparr>m_state := DataState, m_lineNumber := 0, m_forceNullCharacterReplacement := False,
     m_shouldAllowCDATA := False, m_additionalAllowedCharacter := 0\<rparr>"

definition shouldSkipNullCharacters :: "tokenizer \<Rightarrow> bool" where
  "shouldSkipNullCharacters t \<longleftrightarrow> \<not> m_forceNullCharacterReplacement t \<and>
     (m_state t = DataState \<or> m_state t = RCDATAState \<or> m_state t = RAWTEXTState)"

subsection \<open>The input stream preprocessor\<close>

definition shouldTreatNullAsEndOfFileMarker :: "segmentedString \<Rightarrow> bool" where
  "shouldTreatNullAsEndOfFileMarker source \<longleftrightarrow> isClosed source \<and> ss_length source = 1"

text \<open>The part of \<open>peek\<close> that drops the newline of a carriage return, newline pair.\<close>

definition skipNewLine :: "tokenizer \<Rightarrow> segmentedString \<Rightarrow> tokenizer \<times> segmentedString" where
  "skipNewLine t source =
     (if the (current source) = c_lf \<and> m_skipNextNewLine t
      then let (lineNumber, source) = advancePastNewline (m_lineNumber t) source
           in (t\<lparr>m_skipNextNewLine := False, m_lineNumber := lineNumber\<rparr>, source)
      else (t, source))"

lemma ss_length_advancePastNewline:
  "ss_length (snd (advancePastNewline n s)) \<le> ss_length s"
  by (auto simp: advancePastNewline_def advanceSlowCase_line_def countLine_def dropChar_def
      advanceSubstring_def sub_clear_def ss_length_def Let_def split: list.splits)

lemma ss_length_skipNewLine: "ss_length (snd (skipNewLine t s)) \<le> ss_length s"
  using ss_length_advancePastNewline[of "m_lineNumber t" s]
  by (auto simp: skipNewLine_def split: prod.splits)

lemma isEmpty_advance: "isEmpty s \<Longrightarrow> advance s = s"
  by (auto simp: isEmpty_def current_def advance_def advanceSlowCase_def split: if_splits list.splits)

function peek :: "tokenizer \<Rightarrow> segmentedString \<Rightarrow> bool \<times> tokenizer \<times> segmentedString" where
  "peek t source =
     (let cc = the (current source)
      in if cc AND NOT 0x000F \<noteq> 0
         then (True, t\<lparr>m_nextInputCharacter := cc, m_skipNextNewLine := False\<rparr>, source)
         else (case skipNewLine t source of (t, source) \<Rightarrow>
           if isEmpty source then (False, t\<lparr>m_nextInputCharacter := cc\<rparr>, source)
           else let cc = the (current source)
                in if cc = c_cr
                   then (True, t\<lparr>m_nextInputCharacter := c_lf, m_skipNextNewLine := True\<rparr>, source)
                   else let t = t\<lparr>m_nextInputCharacter := cc, m_skipNextNewLine := False\<rparr>
                        in if cc = 0 \<and> \<not> shouldTreatNullAsEndOfFileMarker source
                           then if shouldSkipNullCharacters t
                                then if isEmpty (advancePastNonNewline source)
                                     then (False, t, advancePastNonNewline source)
                                     else peek t (advancePastNonNewline source)
                                else (True, t\<lparr>m_nextInputCharacter := 0xFFFD\<rparr>, source)
                           else (True, t, source)))"
  by pat_completeness auto
termination
proof (relation "measure (\<lambda>(t, source). ss_length source)")
  fix t :: tokenizer and source source' :: segmentedString and t' t'' cc cc'
  assume p: "(t', source') = skipNewLine t source" and n: "\<not> isEmpty source'"
  have "ss_length (advance source') < ss_length source'" using n by (rule ss_length_advance)
  also have "\<dots> \<le> ss_length source" using ss_length_skipNewLine[of t source] p by (metis snd_conv)
  finally show "((t'', advancePastNonNewline source'), (t, source)) \<in> measure (\<lambda>(t, source). ss_length source)"
    by (simp add: advancePastNonNewline_advance)
qed simp

declare peek.simps [simp del]

definition pp_advance :: "tokenizer \<Rightarrow> segmentedString \<Rightarrow> bool \<times> tokenizer \<times> segmentedString" where
  "pp_advance t source =
     (case advance_line (m_lineNumber t) source of (lineNumber, source) \<Rightarrow>
        let t = t\<lparr>m_lineNumber := lineNumber\<rparr>
        in if isEmpty source then (False, t, source) else peek t source)"

subsection \<open>Leaving a state\<close>

text \<open>
  \<open>Return\<close> leaves \<open>nextToken\<close> with its result; \<open>Goto\<close> continues in the state stored in the
  tokenizer with the given current character.
\<close>

datatype outcome =
    Return bool tokenizer segmentedString
  | Goto tokenizer segmentedString uchar

type_synonym state_function = "tokenizer \<Rightarrow> segmentedString \<Rightarrow> uchar \<Rightarrow> outcome"

definition haveBufferedCharacterToken :: "tokenizer \<Rightarrow> bool" where
  "haveBufferedCharacterToken t \<longleftrightarrow> tk_type (m_token t) = Character"

definition afterPeek :: "bool \<times> tokenizer \<times> segmentedString \<Rightarrow> outcome" where
  "afterPeek r = (case r of (found, t, source) \<Rightarrow>
     if found then Goto t source (m_nextInputCharacter t)
     else Return (haveBufferedCharacterToken t) t source)"

definition RECONSUME_IN :: "tokenizerState \<Rightarrow> state_function" where
  "RECONSUME_IN s t source cc = Goto (t\<lparr>m_state := s\<rparr>) source cc"

definition ADVANCE_TO :: "tokenizerState \<Rightarrow> tokenizer \<Rightarrow> segmentedString \<Rightarrow> outcome" where
  "ADVANCE_TO s t source = afterPeek (pp_advance (t\<lparr>m_state := s\<rparr>) source)"

definition SWITCH_TO :: "tokenizerState \<Rightarrow> tokenizer \<Rightarrow> segmentedString \<Rightarrow> outcome" where
  "SWITCH_TO s t source =
     (let t = t\<lparr>m_state := s\<rparr>
      in if isEmpty source then Return (haveBufferedCharacterToken t) t source
         else afterPeek (peek t source))"

definition onToken :: "(token \<Rightarrow> token) \<Rightarrow> tokenizer \<Rightarrow> tokenizer" where
  "onToken f t = t\<lparr>m_token := f (m_token t)\<rparr>"

definition bufferCharacter :: "uchar \<Rightarrow> tokenizer \<Rightarrow> tokenizer" where
  "bufferCharacter character t =
     onToken (\<lambda>tk. appendToCharacter [character] (ensureIsCharacterToken tk)) t"

definition saveEndTagNameIfNeeded :: "tokenizer \<Rightarrow> tokenizer" where
  "saveEndTagNameIfNeeded t =
     (let t = onToken (\<lambda>tk. assertT (tk_type tk \<noteq> Uninitialized) tk) t
      in if tk_type (m_token t) = StartTag
         then t\<lparr>m_appropriateEndTagName := tk_data (m_token t)\<rparr> else t)"

definition advanceTokenizer :: "tokenizer \<Rightarrow> segmentedString \<Rightarrow> tokenizer \<times> segmentedString" where
  "advanceTokenizer t source = (case advance_line (m_lineNumber t) source of
     (lineNumber, source) \<Rightarrow> (t\<lparr>m_lineNumber := lineNumber\<rparr>, source))"

definition emitAndResumeIn :: "tokenizerState \<Rightarrow> tokenizer \<Rightarrow> segmentedString \<Rightarrow> outcome" where
  "emitAndResumeIn s t source =
     (case advanceTokenizer ((saveEndTagNameIfNeeded t)\<lparr>m_state := s\<rparr>) source of
        (t, source) \<Rightarrow> Return True t source)"

definition emitAndReconsumeIn :: "tokenizerState \<Rightarrow> tokenizer \<Rightarrow> segmentedString \<Rightarrow> outcome" where
  "emitAndReconsumeIn s t source = Return True ((saveEndTagNameIfNeeded t)\<lparr>m_state := s\<rparr>) source"

definition emitEndOfFile :: "tokenizer \<Rightarrow> segmentedString \<Rightarrow> outcome" where
  "emitEndOfFile t source =
     (if haveBufferedCharacterToken t then Return True t source
      else case advanceTokenizer (t\<lparr>m_state := DataState\<rparr>) source of (t, source) \<Rightarrow>
        Return True (onToken (\<lambda>tk. makeEndOfFile (token_clear tk)) t) source)"

definition flushBufferedEndTag ::
  "tokenizer \<Rightarrow> segmentedString \<Rightarrow> bool \<times> tokenizer \<times> segmentedString" where
  "flushBufferedEndTag t source =
     (case advanceTokenizer (onToken (\<lambda>tk. assertT (tk_type tk = Character \<or> tk_type tk = Uninitialized) tk) t)
             source of (t, source) \<Rightarrow>
        if tk_type (m_token t) = Character then (True, t, source)
        else (False, (onToken (beginEndTag (m_bufferedEndTagName t)) t)
                \<lparr>m_bufferedEndTagName := [], m_temporaryBuffer := []\<rparr>, source))"

definition FLUSH_AND_ADVANCE_TO :: "tokenizerState \<Rightarrow> tokenizer \<Rightarrow> segmentedString \<Rightarrow> outcome" where
  "FLUSH_AND_ADVANCE_TO s t source =
     (case flushBufferedEndTag (t\<lparr>m_state := s\<rparr>) source of (emit, t, source) \<Rightarrow>
        if emit then Return True t source
        else if isEmpty source then Return (haveBufferedCharacterToken t) t source
        else afterPeek (peek t source))"

definition flushEmitAndResumeIn :: "tokenizerState \<Rightarrow> tokenizer \<Rightarrow> segmentedString \<Rightarrow> outcome" where
  "flushEmitAndResumeIn s t source =
     (case flushBufferedEndTag (t\<lparr>m_state := s\<rparr>) source of (emit, t, source) \<Rightarrow> Return True t source)"

definition isAppropriateEndTag :: "tokenizer \<Rightarrow> bool" where
  "isAppropriateEndTag t \<longleftrightarrow> m_bufferedEndTagName t = m_appropriateEndTagName t"

definition temporaryBufferIs :: "ustring \<Rightarrow> tokenizer \<Rightarrow> bool" where
  "temporaryBufferIs expectedString t \<longleftrightarrow> m_temporaryBuffer t = expectedString"

definition appendTemporary :: "uchar \<Rightarrow> tokenizer \<Rightarrow> tokenizer" where
  "appendTemporary cc t = t\<lparr>m_temporaryBuffer := m_temporaryBuffer t @ [cc]\<rparr>"

definition addToPossibleEndTag :: "uchar \<Rightarrow> tokenizer \<Rightarrow> tokenizer" where
  "addToPossibleEndTag cc t = (onToken (assertT (isEndTagBufferingState (m_state t))) t)
     \<lparr>m_bufferedEndTagName := m_bufferedEndTagName t @ [cc]\<rparr>"

text \<open>\<open>processEntity\<close> returns false when the source ends inside the reference.\<close>

definition processEntity ::
  "tokenizer_env \<Rightarrow> tokenizer \<Rightarrow> segmentedString \<Rightarrow> bool \<times> tokenizer \<times> segmentedString" where
  "processEntity env t source =
     (let r = consumeHTMLEntity (env_entities env) 0 source
      in if er_notEnoughCharacters r then (False, t, er_source r)
         else if \<not> er_success r then (True, bufferCharacter c_amp t, er_source r)
         else (True, fold bufferCharacter (er_decoded r) t, er_source r))"

subsection \<open>Text states\<close>

definition step_DataState :: state_function where
  "step_DataState t source cc =
     (if cc = c_amp
      then ADVANCE_TO CharacterReferenceInDataState t source
      else if cc = c_lt
      then if tk_type (m_token t) = Character then Return True t source
           else ADVANCE_TO TagOpenState t source
      else if cc = endOfFileMarker
      then emitEndOfFile t source
      else ADVANCE_TO DataState (bufferCharacter cc t) source)"

definition step_CharacterReferenceInDataState :: "tokenizer_env \<Rightarrow> state_function" where
  "step_CharacterReferenceInDataState env t source cc =
     (case processEntity env t source of (enough, t, source) \<Rightarrow>
        if \<not> enough then Return (haveBufferedCharacterToken t) t source
        else SWITCH_TO DataState t source)"

definition step_RCDATAState :: state_function where
  "step_RCDATAState t source cc =
     (if cc = c_amp
      then ADVANCE_TO CharacterReferenceInRCDATAState t source
      else if cc = c_lt
      then ADVANCE_TO RCDATALessThanSignState t source
      else if cc = endOfFileMarker
      then emitEndOfFile t source
      else ADVANCE_TO RCDATAState (bufferCharacter cc t) source)"

definition step_CharacterReferenceInRCDATAState :: "tokenizer_env \<Rightarrow> state_function" where
  "step_CharacterReferenceInRCDATAState env t source cc =
     (case processEntity env t source of (enough, t, source) \<Rightarrow>
        if \<not> enough then Return (haveBufferedCharacterToken t) t source
        else SWITCH_TO RCDATAState t source)"

definition step_RAWTEXTState :: state_function where
  "step_RAWTEXTState t source cc =
     (if cc = c_lt
      then ADVANCE_TO RAWTEXTLessThanSignState t source
      else if cc = endOfFileMarker
      then emitEndOfFile t source
      else ADVANCE_TO RAWTEXTState (bufferCharacter cc t) source)"

definition step_ScriptDataState :: state_function where
  "step_ScriptDataState t source cc =
     (if cc = c_lt
      then ADVANCE_TO ScriptDataLessThanSignState t source
      else if cc = endOfFileMarker
      then emitEndOfFile t source
      else ADVANCE_TO ScriptDataState (bufferCharacter cc t) source)"

definition step_PLAINTEXTState :: state_function where
  "step_PLAINTEXTState t source cc =
     (if cc = endOfFileMarker
      then emitEndOfFile t source
      else ADVANCE_TO PLAINTEXTState (bufferCharacter cc t) source)"

subsection \<open>Tags\<close>

definition step_TagOpenState :: state_function where
  "step_TagOpenState t source cc =
     (if cc = c_bang
      then ADVANCE_TO MarkupDeclarationOpenState t source
      else if cc = c_slash
      then ADVANCE_TO EndTagOpenState t source
      else if isASCIIUpper cc
      then ADVANCE_TO TagNameState (onToken (beginStartTag (toLowerCase cc)) t) source
      else if isASCIILower cc
      then ADVANCE_TO TagNameState (onToken (beginStartTag cc) t) source
      else if cc = c_quest
      then RECONSUME_IN BogusCommentState t source cc
      else RECONSUME_IN DataState (bufferCharacter c_lt t) source cc)"

definition step_EndTagOpenState :: state_function where
  "step_EndTagOpenState t source cc =
     (if isASCIIUpper cc
      then ADVANCE_TO TagNameState (onToken (beginEndTag [toLowerCase cc]) t) source
      else if isASCIILower cc
      then ADVANCE_TO TagNameState (onToken (beginEndTag [cc]) t) source
      else if cc = c_gt
      then ADVANCE_TO DataState t source
      else if cc = endOfFileMarker
      then RECONSUME_IN DataState (bufferCharacter c_slash (bufferCharacter c_lt t)) source cc
      else RECONSUME_IN BogusCommentState t source cc)"

definition step_TagNameState :: state_function where
  "step_TagNameState t source cc =
     (if isTokenizerWhitespace cc
      then ADVANCE_TO BeforeAttributeNameState t source
      else if cc = c_slash
      then ADVANCE_TO SelfClosingStartTagState t source
      else if cc = c_gt
      then emitAndResumeIn DataState t source
      else if m_usePreHTML5ParserQuirks t \<and> cc = c_lt
      then emitAndReconsumeIn DataState t source
      else if isASCIIUpper cc
      then ADVANCE_TO TagNameState (onToken (appendToName (toLowerCase cc)) t) source
      else if cc = endOfFileMarker
      then RECONSUME_IN DataState t source cc
      else ADVANCE_TO TagNameState (onToken (appendToName cc) t) source)"

subsection \<open>End tags inside raw text\<close>

text \<open>
  The \<^verbatim>\<open>LessThanSign\<close>, \<^verbatim>\<open>EndTagOpen\<close> and \<^verbatim>\<open>EndTagName\<close> states exist four times in the source,
  for RCDATA, RAWTEXT, script data and escaped script data, with the same text up to the names
  of the states; the two functions below are that text.
\<close>

definition endTagOpenIn :: "tokenizerState \<Rightarrow> tokenizerState \<Rightarrow> state_function" where
  "endTagOpenIn nameState textState t source cc =
     (if isASCIIUpper cc
      then ADVANCE_TO nameState (addToPossibleEndTag (toLowerCase cc) (appendTemporary cc t)) source
      else if isASCIILower cc
      then ADVANCE_TO nameState (addToPossibleEndTag cc (appendTemporary cc t)) source
      else RECONSUME_IN textState (bufferCharacter c_slash (bufferCharacter c_lt t)) source cc)"

definition endTagNameIn :: "tokenizerState \<Rightarrow> tokenizerState \<Rightarrow> state_function" where
  "endTagNameIn nameState textState t source cc =
     (if isASCIIUpper cc
      then ADVANCE_TO nameState (addToPossibleEndTag (toLowerCase cc) (appendTemporary cc t)) source
      else if isASCIILower cc
      then ADVANCE_TO nameState (addToPossibleEndTag cc (appendTemporary cc t)) source
      else if isTokenizerWhitespace cc \<and> isAppropriateEndTag t
      then FLUSH_AND_ADVANCE_TO BeforeAttributeNameState (appendTemporary cc t) source
      else if cc = c_slash \<and> isAppropriateEndTag t
      then FLUSH_AND_ADVANCE_TO SelfClosingStartTagState (appendTemporary cc t) source
      else if cc = c_gt \<and> isAppropriateEndTag t
      then flushEmitAndResumeIn DataState (appendTemporary cc t) source
      else let t = bufferCharacter c_slash (bufferCharacter c_lt t);
               t = onToken (appendToCharacter (m_temporaryBuffer t)) t
           in RECONSUME_IN textState (t\<lparr>m_bufferedEndTagName := [], m_temporaryBuffer := []\<rparr>) source cc)"

definition step_RCDATALessThanSignState :: state_function where
  "step_RCDATALessThanSignState t source cc =
     (if cc = c_slash
      then ADVANCE_TO RCDATAEndTagOpenState (onToken (assertT (m_bufferedEndTagName t = [])) (t\<lparr>m_temporaryBuffer := []\<rparr>)) source
      else RECONSUME_IN RCDATAState (bufferCharacter c_lt t) source cc)"

definition step_RCDATAEndTagOpenState :: state_function where
  "step_RCDATAEndTagOpenState t source cc =
     (endTagOpenIn RCDATAEndTagNameState RCDATAState t source cc)"

definition step_RCDATAEndTagNameState :: state_function where
  "step_RCDATAEndTagNameState t source cc =
     (endTagNameIn RCDATAEndTagNameState RCDATAState t source cc)"

definition step_RAWTEXTLessThanSignState :: state_function where
  "step_RAWTEXTLessThanSignState t source cc =
     (if cc = c_slash
      then ADVANCE_TO RAWTEXTEndTagOpenState (onToken (assertT (m_bufferedEndTagName t = [])) (t\<lparr>m_temporaryBuffer := []\<rparr>)) source
      else RECONSUME_IN RAWTEXTState (bufferCharacter c_lt t) source cc)"

definition step_RAWTEXTEndTagOpenState :: state_function where
  "step_RAWTEXTEndTagOpenState t source cc =
     (endTagOpenIn RAWTEXTEndTagNameState RAWTEXTState t source cc)"

definition step_RAWTEXTEndTagNameState :: state_function where
  "step_RAWTEXTEndTagNameState t source cc =
     (endTagNameIn RAWTEXTEndTagNameState RAWTEXTState t source cc)"

subsection \<open>Script data\<close>

definition step_ScriptDataLessThanSignState :: state_function where
  "step_ScriptDataLessThanSignState t source cc =
     (if cc = c_slash
      then ADVANCE_TO ScriptDataEndTagOpenState (onToken (assertT (m_bufferedEndTagName t = [])) (t\<lparr>m_temporaryBuffer := []\<rparr>)) source
      else if cc = c_bang
      then ADVANCE_TO ScriptDataEscapeStartState (bufferCharacter c_bang (bufferCharacter c_lt t)) source
      else RECONSUME_IN ScriptDataState (bufferCharacter c_lt t) source cc)"

definition step_ScriptDataEndTagOpenState :: state_function where
  "step_ScriptDataEndTagOpenState t source cc =
     (endTagOpenIn ScriptDataEndTagNameState ScriptDataState t source cc)"

definition step_ScriptDataEndTagNameState :: state_function where
  "step_ScriptDataEndTagNameState t source cc =
     (endTagNameIn ScriptDataEndTagNameState ScriptDataState t source cc)"

definition step_ScriptDataEscapeStartState :: state_function where
  "step_ScriptDataEscapeStartState t source cc =
     (if cc = c_dash
      then ADVANCE_TO ScriptDataEscapeStartDashState (bufferCharacter cc t) source
      else RECONSUME_IN ScriptDataState t source cc)"

definition step_ScriptDataEscapeStartDashState :: state_function where
  "step_ScriptDataEscapeStartDashState t source cc =
     (if cc = c_dash
      then ADVANCE_TO ScriptDataEscapedDashDashState (bufferCharacter cc t) source
      else RECONSUME_IN ScriptDataState t source cc)"

definition step_ScriptDataEscapedState :: state_function where
  "step_ScriptDataEscapedState t source cc =
     (if cc = c_dash
      then ADVANCE_TO ScriptDataEscapedDashState (bufferCharacter cc t) source
      else if cc = c_lt
      then ADVANCE_TO ScriptDataEscapedLessThanSignState t source
      else if cc = endOfFileMarker
      then RECONSUME_IN DataState t source cc
      else ADVANCE_TO ScriptDataEscapedState (bufferCharacter cc t) source)"

definition step_ScriptDataEscapedDashState :: state_function where
  "step_ScriptDataEscapedDashState t source cc =
     (if cc = c_dash
      then ADVANCE_TO ScriptDataEscapedDashDashState (bufferCharacter cc t) source
      else if cc = c_lt
      then ADVANCE_TO ScriptDataEscapedLessThanSignState t source
      else if cc = endOfFileMarker
      then RECONSUME_IN DataState t source cc
      else ADVANCE_TO ScriptDataEscapedState (bufferCharacter cc t) source)"

definition step_ScriptDataEscapedDashDashState :: state_function where
  "step_ScriptDataEscapedDashDashState t source cc =
     (if cc = c_dash
      then ADVANCE_TO ScriptDataEscapedDashDashState (bufferCharacter cc t) source
      else if cc = c_lt
      then ADVANCE_TO ScriptDataEscapedLessThanSignState t source
      else if cc = c_gt
      then ADVANCE_TO ScriptDataState (bufferCharacter cc t) source
      else if cc = endOfFileMarker
      then RECONSUME_IN DataState t source cc
      else ADVANCE_TO ScriptDataEscapedState (bufferCharacter cc t) source)"

definition step_ScriptDataEscapedLessThanSignState :: state_function where
  "step_ScriptDataEscapedLessThanSignState t source cc =
     (if cc = c_slash
      then ADVANCE_TO ScriptDataEscapedEndTagOpenState (onToken (assertT (m_bufferedEndTagName t = [])) (t\<lparr>m_temporaryBuffer := []\<rparr>)) source
      else if isASCIIUpper cc
      then ADVANCE_TO ScriptDataDoubleEscapeStartState ((bufferCharacter cc (bufferCharacter c_lt t))
             \<lparr>m_temporaryBuffer := [toLowerCase cc]\<rparr>) source
      else if isASCIILower cc
      then ADVANCE_TO ScriptDataDoubleEscapeStartState ((bufferCharacter cc (bufferCharacter c_lt t))
             \<lparr>m_temporaryBuffer := [cc]\<rparr>) source
      else RECONSUME_IN ScriptDataEscapedState (bufferCharacter c_lt t) source cc)"

definition step_ScriptDataEscapedEndTagOpenState :: state_function where
  "step_ScriptDataEscapedEndTagOpenState t source cc =
     (endTagOpenIn ScriptDataEscapedEndTagNameState ScriptDataEscapedState t source cc)"

definition step_ScriptDataEscapedEndTagNameState :: state_function where
  "step_ScriptDataEscapedEndTagNameState t source cc =
     (endTagNameIn ScriptDataEscapedEndTagNameState ScriptDataEscapedState t source cc)"

definition step_ScriptDataDoubleEscapeStartState :: state_function where
  "step_ScriptDataDoubleEscapeStartState t source cc =
     (if isTokenizerWhitespace cc \<or> cc = c_slash \<or> cc = c_gt
      then if temporaryBufferIs scriptTag t
           then ADVANCE_TO ScriptDataDoubleEscapedState (bufferCharacter cc t) source
           else ADVANCE_TO ScriptDataEscapedState (bufferCharacter cc t) source
      else if isASCIIUpper cc
      then ADVANCE_TO ScriptDataDoubleEscapeStartState (appendTemporary (toLowerCase cc) (bufferCharacter cc t)) source
      else if isASCIILower cc
      then ADVANCE_TO ScriptDataDoubleEscapeStartState (appendTemporary cc (bufferCharacter cc t)) source
      else RECONSUME_IN ScriptDataEscapedState t source cc)"

definition step_ScriptDataDoubleEscapedState :: state_function where
  "step_ScriptDataDoubleEscapedState t source cc =
     (if cc = c_dash
      then ADVANCE_TO ScriptDataDoubleEscapedDashState (bufferCharacter cc t) source
      else if cc = c_lt
      then ADVANCE_TO ScriptDataDoubleEscapedLessThanSignState (bufferCharacter cc t) source
      else if cc = endOfFileMarker
      then RECONSUME_IN DataState t source cc
      else ADVANCE_TO ScriptDataDoubleEscapedState (bufferCharacter cc t) source)"

definition step_ScriptDataDoubleEscapedDashState :: state_function where
  "step_ScriptDataDoubleEscapedDashState t source cc =
     (if cc = c_dash
      then ADVANCE_TO ScriptDataDoubleEscapedDashDashState (bufferCharacter cc t) source
      else if cc = c_lt
      then ADVANCE_TO ScriptDataDoubleEscapedLessThanSignState (bufferCharacter cc t) source
      else if cc = endOfFileMarker
      then RECONSUME_IN DataState t source cc
      else ADVANCE_TO ScriptDataDoubleEscapedState (bufferCharacter cc t) source)"

definition step_ScriptDataDoubleEscapedDashDashState :: state_function where
  "step_ScriptDataDoubleEscapedDashDashState t source cc =
     (if cc = c_dash
      then ADVANCE_TO ScriptDataDoubleEscapedDashDashState (bufferCharacter cc t) source
      else if cc = c_lt
      then ADVANCE_TO ScriptDataDoubleEscapedLessThanSignState (bufferCharacter cc t) source
      else if cc = c_gt
      then ADVANCE_TO ScriptDataState (bufferCharacter cc t) source
      else if cc = endOfFileMarker
      then RECONSUME_IN DataState t source cc
      else ADVANCE_TO ScriptDataDoubleEscapedState (bufferCharacter cc t) source)"

definition step_ScriptDataDoubleEscapedLessThanSignState :: state_function where
  "step_ScriptDataDoubleEscapedLessThanSignState t source cc =
     (if cc = c_slash
      then ADVANCE_TO ScriptDataDoubleEscapeEndState ((bufferCharacter cc t)\<lparr>m_temporaryBuffer := []\<rparr>) source
      else RECONSUME_IN ScriptDataDoubleEscapedState t source cc)"

definition step_ScriptDataDoubleEscapeEndState :: state_function where
  "step_ScriptDataDoubleEscapeEndState t source cc =
     (if isTokenizerWhitespace cc \<or> cc = c_slash \<or> cc = c_gt
      then if temporaryBufferIs scriptTag t
           then ADVANCE_TO ScriptDataEscapedState (bufferCharacter cc t) source
           else ADVANCE_TO ScriptDataDoubleEscapedState (bufferCharacter cc t) source
      else if isASCIIUpper cc
      then ADVANCE_TO ScriptDataDoubleEscapeEndState (appendTemporary (toLowerCase cc) (bufferCharacter cc t)) source
      else if isASCIILower cc
      then ADVANCE_TO ScriptDataDoubleEscapeEndState (appendTemporary cc (bufferCharacter cc t)) source
      else RECONSUME_IN ScriptDataDoubleEscapedState t source cc)"

subsection \<open>Attributes\<close>

definition newAttribute :: "uchar \<Rightarrow> segmentedString \<Rightarrow> tokenizer \<Rightarrow> tokenizer" where
  "newAttribute c source t = onToken (\<lambda>tk. appendToAttributeName c
     (beginAttributeName (numberOfCharactersConsumed source) (addNewAttribute tk))) t"

abbreviation (input) endName :: "segmentedString \<Rightarrow> tokenizer \<Rightarrow> tokenizer" where
  "endName source \<equiv> onToken (endAttributeName (numberOfCharactersConsumed source))"

abbreviation (input) endValue :: "segmentedString \<Rightarrow> tokenizer \<Rightarrow> tokenizer" where
  "endValue source \<equiv> onToken (endAttributeValue (numberOfCharactersConsumed source))"

definition step_BeforeAttributeNameState :: state_function where
  "step_BeforeAttributeNameState t source cc =
     (if isTokenizerWhitespace cc
      then ADVANCE_TO BeforeAttributeNameState t source
      else if cc = c_slash
      then ADVANCE_TO SelfClosingStartTagState t source
      else if cc = c_gt
      then emitAndResumeIn DataState t source
      else if m_usePreHTML5ParserQuirks t \<and> cc = c_lt
      then emitAndReconsumeIn DataState t source
      else if isASCIIUpper cc
      then ADVANCE_TO AttributeNameState (newAttribute (toLowerCase cc) source t) source
      else if cc = endOfFileMarker
      then RECONSUME_IN DataState t source cc
      else ADVANCE_TO AttributeNameState (newAttribute cc source t) source)"

definition step_AttributeNameState :: state_function where
  "step_AttributeNameState t source cc =
     (if isTokenizerWhitespace cc
      then ADVANCE_TO AfterAttributeNameState (endName source t) source
      else if cc = c_slash
      then ADVANCE_TO SelfClosingStartTagState (endName source t) source
      else if cc = c_eq
      then ADVANCE_TO BeforeAttributeValueState (endName source t) source
      else if cc = c_gt
      then emitAndResumeIn DataState (endName source t) source
      else if m_usePreHTML5ParserQuirks t \<and> cc = c_lt
      then emitAndReconsumeIn DataState (endName source t) source
      else if isASCIIUpper cc
      then ADVANCE_TO AttributeNameState (onToken (appendToAttributeName (toLowerCase cc)) t) source
      else if cc = endOfFileMarker
      then RECONSUME_IN DataState (endName source t) source cc
      else ADVANCE_TO AttributeNameState (onToken (appendToAttributeName cc) t) source)"

definition step_AfterAttributeNameState :: state_function where
  "step_AfterAttributeNameState t source cc =
     (if isTokenizerWhitespace cc
      then ADVANCE_TO AfterAttributeNameState t source
      else if cc = c_slash
      then ADVANCE_TO SelfClosingStartTagState t source
      else if cc = c_eq
      then ADVANCE_TO BeforeAttributeValueState t source
      else if cc = c_gt
      then emitAndResumeIn DataState t source
      else if m_usePreHTML5ParserQuirks t \<and> cc = c_lt
      then emitAndReconsumeIn DataState t source
      else if isASCIIUpper cc
      then ADVANCE_TO AttributeNameState (newAttribute (toLowerCase cc) source t) source
      else if cc = endOfFileMarker
      then RECONSUME_IN DataState t source cc
      else ADVANCE_TO AttributeNameState (newAttribute cc source t) source)"

definition step_BeforeAttributeValueState :: state_function where
  "step_BeforeAttributeValueState t source cc =
     (if isTokenizerWhitespace cc
      then ADVANCE_TO BeforeAttributeValueState t source
      else if cc = c_dquot
      then ADVANCE_TO AttributeValueDoubleQuotedState (onToken (beginAttributeValue (numberOfCharactersConsumed source + 1)) t) source
      else if cc = c_amp
      then RECONSUME_IN AttributeValueUnquotedState (onToken (beginAttributeValue (numberOfCharactersConsumed source)) t) source cc
      else if cc = c_squot
      then ADVANCE_TO AttributeValueSingleQuotedState (onToken (beginAttributeValue (numberOfCharactersConsumed source + 1)) t) source
      else if cc = c_gt
      then emitAndResumeIn DataState t source
      else if cc = endOfFileMarker
      then RECONSUME_IN DataState t source cc
      else ADVANCE_TO AttributeValueUnquotedState (onToken (appendToAttributeValue cc) (onToken (beginAttributeValue (numberOfCharactersConsumed source)) t)) source)"

definition step_AttributeValueDoubleQuotedState :: state_function where
  "step_AttributeValueDoubleQuotedState t source cc =
     (if cc = c_dquot
      then ADVANCE_TO AfterAttributeValueQuotedState (endValue source t) source
      else if cc = c_amp
      then ADVANCE_TO CharacterReferenceInAttributeValueState (t\<lparr>m_additionalAllowedCharacter := c_dquot\<rparr>) source
      else if cc = endOfFileMarker
      then RECONSUME_IN DataState (endValue source t) source cc
      else ADVANCE_TO AttributeValueDoubleQuotedState (onToken (appendToAttributeValue cc) t) source)"

definition step_AttributeValueSingleQuotedState :: state_function where
  "step_AttributeValueSingleQuotedState t source cc =
     (if cc = c_squot
      then ADVANCE_TO AfterAttributeValueQuotedState (endValue source t) source
      else if cc = c_amp
      then ADVANCE_TO CharacterReferenceInAttributeValueState (t\<lparr>m_additionalAllowedCharacter := c_squot\<rparr>) source
      else if cc = endOfFileMarker
      then RECONSUME_IN DataState (endValue source t) source cc
      else ADVANCE_TO AttributeValueSingleQuotedState (onToken (appendToAttributeValue cc) t) source)"

definition step_AttributeValueUnquotedState :: state_function where
  "step_AttributeValueUnquotedState t source cc =
     (if isTokenizerWhitespace cc
      then ADVANCE_TO BeforeAttributeNameState (endValue source t) source
      else if cc = c_amp
      then ADVANCE_TO CharacterReferenceInAttributeValueState (t\<lparr>m_additionalAllowedCharacter := c_gt\<rparr>) source
      else if cc = c_gt
      then emitAndResumeIn DataState (endValue source t) source
      else if cc = endOfFileMarker
      then RECONSUME_IN DataState (endValue source t) source cc
      else ADVANCE_TO AttributeValueUnquotedState (onToken (appendToAttributeValue cc) t) source)"

definition step_CharacterReferenceInAttributeValueState :: "tokenizer_env \<Rightarrow> state_function" where
  "step_CharacterReferenceInAttributeValueState env t source cc =
     (let r = consumeHTMLEntity (env_entities env) (m_additionalAllowedCharacter t) source
      in if er_notEnoughCharacters r then Return (haveBufferedCharacterToken t) t (er_source r)
         else let t = (if \<not> er_success r then onToken (appendToAttributeValue c_amp) t
                       else onToken (fold appendToAttributeValue (er_decoded r)) t);
                  source = er_source r
              in if m_additionalAllowedCharacter t = c_dquot
                 then SWITCH_TO AttributeValueDoubleQuotedState t source
                 else if m_additionalAllowedCharacter t = c_squot
                 then SWITCH_TO AttributeValueSingleQuotedState t source
                 else if m_additionalAllowedCharacter t = c_gt
                 then SWITCH_TO AttributeValueUnquotedState t source
                 else Return False (onToken (assertT False) t) source)"

definition step_AfterAttributeValueQuotedState :: state_function where
  "step_AfterAttributeValueQuotedState t source cc =
     (if isTokenizerWhitespace cc
      then ADVANCE_TO BeforeAttributeNameState t source
      else if cc = c_slash
      then ADVANCE_TO SelfClosingStartTagState t source
      else if cc = c_gt
      then emitAndResumeIn DataState t source
      else if m_usePreHTML5ParserQuirks t \<and> cc = c_lt
      then emitAndReconsumeIn DataState t source
      else if cc = endOfFileMarker
      then RECONSUME_IN DataState t source cc
      else RECONSUME_IN BeforeAttributeNameState t source cc)"

definition step_SelfClosingStartTagState :: state_function where
  "step_SelfClosingStartTagState t source cc =
     (if cc = c_gt
      then emitAndResumeIn DataState (onToken (setSelfClosing) t) source
      else if cc = endOfFileMarker
      then RECONSUME_IN DataState t source cc
      else RECONSUME_IN BeforeAttributeNameState t source cc)"

subsection \<open>Comments\<close>

definition step_BogusCommentState :: state_function where
  "step_BogusCommentState t source cc =
     (RECONSUME_IN ContinueBogusCommentState (onToken (beginComment) t) source cc)"

definition step_ContinueBogusCommentState :: state_function where
  "step_ContinueBogusCommentState t source cc =
     (if cc = c_gt
      then emitAndResumeIn DataState t source
      else if cc = endOfFileMarker
      then emitAndReconsumeIn DataState t source
      else ADVANCE_TO ContinueBogusCommentState (onToken (appendToComment cc) t) source)"

text \<open>\<open>look\<close> is the shape of the three look-aheads: match, not enough characters, or go on.\<close>

definition look :: "lookAheadResult \<times> segmentedString \<Rightarrow> tokenizer \<Rightarrow>
    (segmentedString \<Rightarrow> outcome) \<Rightarrow> (segmentedString \<Rightarrow> outcome) \<Rightarrow> outcome" where
  "look r t matched other = (case r of
     (DidMatch, source) \<Rightarrow> matched source
   | (NotEnoughCharacters, source) \<Rightarrow> Return (haveBufferedCharacterToken t) t source
   | (DidNotMatch, source) \<Rightarrow> other source)"

text \<open>\<open>advanceString\<close> stands for the calls of \<open>advanceAndASSERT\<close> over a matched string.\<close>

definition advanceString :: "ustring \<Rightarrow> segmentedString \<Rightarrow> segmentedString" where
  "advanceString expectedCharacters source = (advance ^^ length expectedCharacters) source"

definition step_MarkupDeclarationOpenState :: "tokenizer_env \<Rightarrow> state_function" where
  "step_MarkupDeclarationOpenState env t source cc =
     (let bogus = (\<lambda>source. RECONSUME_IN BogusCommentState t source cc)
      in if cc = c_dash
         then look (lookAhead dashDashString source) t
                (\<lambda>source. SWITCH_TO CommentStartState (onToken beginComment t) (advanceString dashDashString source))
                bogus
         else if cc = 0x44 \<or> cc = 0x64
         then look (lookAheadIgnoringCase (env_umemcasecmp env) doctypeString source) t
                (\<lambda>source. SWITCH_TO DOCTYPEState t (advanceString doctypeString source))
                bogus
         else if cc = c_lbracket \<and> m_shouldAllowCDATA t
         then look (lookAhead cdataString source) t
                (\<lambda>source. SWITCH_TO CDATASectionState t (advanceString cdataString source))
                bogus
         else bogus source)"

definition step_CommentStartState :: state_function where
  "step_CommentStartState t source cc =
     (if cc = c_dash
      then ADVANCE_TO CommentStartDashState t source
      else if cc = c_gt
      then emitAndResumeIn DataState t source
      else if cc = endOfFileMarker
      then emitAndReconsumeIn DataState t source
      else ADVANCE_TO CommentState (onToken (appendToComment cc) t) source)"

definition step_CommentStartDashState :: state_function where
  "step_CommentStartDashState t source cc =
     (if cc = c_dash
      then ADVANCE_TO CommentEndState t source
      else if cc = c_gt
      then emitAndResumeIn DataState t source
      else if cc = endOfFileMarker
      then emitAndReconsumeIn DataState t source
      else ADVANCE_TO CommentState (onToken (fold appendToComment [c_dash, cc]) t) source)"

definition step_CommentState :: state_function where
  "step_CommentState t source cc =
     (if cc = c_dash
      then ADVANCE_TO CommentEndDashState t source
      else if cc = endOfFileMarker
      then emitAndReconsumeIn DataState t source
      else ADVANCE_TO CommentState (onToken (appendToComment cc) t) source)"

definition step_CommentEndDashState :: state_function where
  "step_CommentEndDashState t source cc =
     (if cc = c_dash
      then ADVANCE_TO CommentEndState t source
      else if cc = endOfFileMarker
      then emitAndReconsumeIn DataState t source
      else ADVANCE_TO CommentState (onToken (fold appendToComment [c_dash, cc]) t) source)"

definition step_CommentEndState :: state_function where
  "step_CommentEndState t source cc =
     (if cc = c_gt
      then emitAndResumeIn DataState t source
      else if cc = c_bang
      then ADVANCE_TO CommentEndBangState t source
      else if cc = c_dash
      then ADVANCE_TO CommentEndState (onToken (appendToComment c_dash) t) source
      else if cc = endOfFileMarker
      then emitAndReconsumeIn DataState t source
      else ADVANCE_TO CommentState (onToken (fold appendToComment [c_dash, c_dash, cc]) t) source)"

definition step_CommentEndBangState :: state_function where
  "step_CommentEndBangState t source cc =
     (if cc = c_dash
      then ADVANCE_TO CommentEndDashState (onToken (fold appendToComment [c_dash, c_dash, c_bang]) t) source
      else if cc = c_gt
      then emitAndResumeIn DataState t source
      else if cc = endOfFileMarker
      then emitAndReconsumeIn DataState t source
      else ADVANCE_TO CommentState (onToken (fold appendToComment [c_dash, c_dash, c_bang, cc]) t) source)"

subsection \<open>DOCTYPE\<close>

definition step_DOCTYPEState :: state_function where
  "step_DOCTYPEState t source cc =
     (if isTokenizerWhitespace cc
      then ADVANCE_TO BeforeDOCTYPENameState t source
      else if cc = endOfFileMarker
      then emitAndReconsumeIn DataState (onToken (\<lambda>tk. setForceQuirks (beginDOCTYPE tk)) t) source
      else RECONSUME_IN BeforeDOCTYPENameState t source cc)"

definition step_BeforeDOCTYPENameState :: state_function where
  "step_BeforeDOCTYPENameState t source cc =
     (if isTokenizerWhitespace cc
      then ADVANCE_TO BeforeDOCTYPENameState t source
      else if isASCIIUpper cc
      then ADVANCE_TO DOCTYPENameState (onToken (beginDOCTYPE_char (toLowerCase cc)) t) source
      else if cc = c_gt
      then emitAndResumeIn DataState (onToken (\<lambda>tk. setForceQuirks (beginDOCTYPE tk)) t) source
      else if cc = endOfFileMarker
      then emitAndReconsumeIn DataState (onToken (\<lambda>tk. setForceQuirks (beginDOCTYPE tk)) t) source
      else ADVANCE_TO DOCTYPENameState (onToken (beginDOCTYPE_char cc) t) source)"

definition step_DOCTYPENameState :: state_function where
  "step_DOCTYPENameState t source cc =
     (if isTokenizerWhitespace cc
      then ADVANCE_TO AfterDOCTYPENameState t source
      else if cc = c_gt
      then emitAndResumeIn DataState t source
      else if isASCIIUpper cc
      then ADVANCE_TO DOCTYPENameState (onToken (appendToName (toLowerCase cc)) t) source
      else if cc = endOfFileMarker
      then emitAndReconsumeIn DataState (onToken (setForceQuirks) t) source
      else ADVANCE_TO DOCTYPENameState (onToken (appendToName cc) t) source)"

definition step_AfterDOCTYPENameState :: "tokenizer_env \<Rightarrow> state_function" where
  "step_AfterDOCTYPENameState env t source cc =
     (if isTokenizerWhitespace cc then ADVANCE_TO AfterDOCTYPENameState t source
      else if cc = c_gt then emitAndResumeIn DataState t source
      else if cc = endOfFileMarker then emitAndReconsumeIn DataState (onToken setForceQuirks t) source
      else let bogus = (\<lambda>source. ADVANCE_TO BogusDOCTYPEState (onToken setForceQuirks t) source)
      in if cc = 0x50 \<or> cc = 0x70
         then look (lookAheadIgnoringCase (env_umemcasecmp env) publicString source) t
                (\<lambda>source. SWITCH_TO AfterDOCTYPEPublicKeywordState t (advanceString publicString source))
                bogus
         else if cc = 0x53 \<or> cc = 0x73
         then look (lookAheadIgnoringCase (env_umemcasecmp env) systemString source) t
                (\<lambda>source. SWITCH_TO AfterDOCTYPESystemKeywordState t (advanceString systemString source))
                bogus
         else bogus source)"

definition step_AfterDOCTYPEPublicKeywordState :: state_function where
  "step_AfterDOCTYPEPublicKeywordState t source cc =
     (if isTokenizerWhitespace cc
      then ADVANCE_TO BeforeDOCTYPEPublicIdentifierState t source
      else if cc = c_dquot
      then ADVANCE_TO DOCTYPEPublicIdentifierDoubleQuotedState (onToken (setPublicIdentifierToEmptyString) t) source
      else if cc = c_squot
      then ADVANCE_TO DOCTYPEPublicIdentifierSingleQuotedState (onToken (setPublicIdentifierToEmptyString) t) source
      else if cc = c_gt
      then emitAndResumeIn DataState (onToken (setForceQuirks) t) source
      else if cc = endOfFileMarker
      then emitAndReconsumeIn DataState (onToken (setForceQuirks) t) source
      else ADVANCE_TO BogusDOCTYPEState (onToken (setForceQuirks) t) source)"

definition step_BeforeDOCTYPEPublicIdentifierState :: state_function where
  "step_BeforeDOCTYPEPublicIdentifierState t source cc =
     (if isTokenizerWhitespace cc
      then ADVANCE_TO BeforeDOCTYPEPublicIdentifierState t source
      else if cc = c_dquot
      then ADVANCE_TO DOCTYPEPublicIdentifierDoubleQuotedState (onToken (setPublicIdentifierToEmptyString) t) source
      else if cc = c_squot
      then ADVANCE_TO DOCTYPEPublicIdentifierSingleQuotedState (onToken (setPublicIdentifierToEmptyString) t) source
      else if cc = c_gt
      then emitAndResumeIn DataState (onToken (setForceQuirks) t) source
      else if cc = endOfFileMarker
      then emitAndReconsumeIn DataState (onToken (setForceQuirks) t) source
      else ADVANCE_TO BogusDOCTYPEState (onToken (setForceQuirks) t) source)"

definition step_DOCTYPEPublicIdentifierDoubleQuotedState :: state_function where
  "step_DOCTYPEPublicIdentifierDoubleQuotedState t source cc =
     (if cc = c_dquot
      then ADVANCE_TO AfterDOCTYPEPublicIdentifierState t source
      else if cc = c_gt
      then emitAndResumeIn DataState (onToken (setForceQuirks) t) source
      else if cc = endOfFileMarker
      then emitAndReconsumeIn DataState (onToken (setForceQuirks) t) source
      else ADVANCE_TO DOCTYPEPublicIdentifierDoubleQuotedState (onToken (appendToPublicIdentifier cc) t) source)"

definition step_DOCTYPEPublicIdentifierSingleQuotedState :: state_function where
  "step_DOCTYPEPublicIdentifierSingleQuotedState t source cc =
     (if cc = c_squot
      then ADVANCE_TO AfterDOCTYPEPublicIdentifierState t source
      else if cc = c_gt
      then emitAndResumeIn DataState (onToken (setForceQuirks) t) source
      else if cc = endOfFileMarker
      then emitAndReconsumeIn DataState (onToken (setForceQuirks) t) source
      else ADVANCE_TO DOCTYPEPublicIdentifierSingleQuotedState (onToken (appendToPublicIdentifier cc) t) source)"

definition step_AfterDOCTYPEPublicIdentifierState :: state_function where
  "step_AfterDOCTYPEPublicIdentifierState t source cc =
     (if isTokenizerWhitespace cc
      then ADVANCE_TO BetweenDOCTYPEPublicAndSystemIdentifiersState t source
      else if cc = c_gt
      then emitAndResumeIn DataState t source
      else if cc = c_dquot
      then ADVANCE_TO DOCTYPESystemIdentifierDoubleQuotedState (onToken (setSystemIdentifierToEmptyString) t) source
      else if cc = c_squot
      then ADVANCE_TO DOCTYPESystemIdentifierSingleQuotedState (onToken (setSystemIdentifierToEmptyString) t) source
      else if cc = endOfFileMarker
      then emitAndReconsumeIn DataState (onToken (setForceQuirks) t) source
      else ADVANCE_TO BogusDOCTYPEState (onToken (setForceQuirks) t) source)"

definition step_BetweenDOCTYPEPublicAndSystemIdentifiersState :: state_function where
  "step_BetweenDOCTYPEPublicAndSystemIdentifiersState t source cc =
     (if isTokenizerWhitespace cc
      then ADVANCE_TO BetweenDOCTYPEPublicAndSystemIdentifiersState t source
      else if cc = c_gt
      then emitAndResumeIn DataState t source
      else if cc = c_dquot
      then ADVANCE_TO DOCTYPESystemIdentifierDoubleQuotedState (onToken (setSystemIdentifierToEmptyString) t) source
      else if cc = c_squot
      then ADVANCE_TO DOCTYPESystemIdentifierSingleQuotedState (onToken (setSystemIdentifierToEmptyString) t) source
      else if cc = endOfFileMarker
      then emitAndReconsumeIn DataState (onToken (setForceQuirks) t) source
      else ADVANCE_TO BogusDOCTYPEState (onToken (setForceQuirks) t) source)"

definition step_AfterDOCTYPESystemKeywordState :: state_function where
  "step_AfterDOCTYPESystemKeywordState t source cc =
     (if isTokenizerWhitespace cc
      then ADVANCE_TO BeforeDOCTYPESystemIdentifierState t source
      else if cc = c_dquot
      then ADVANCE_TO DOCTYPESystemIdentifierDoubleQuotedState (onToken (setSystemIdentifierToEmptyString) t) source
      else if cc = c_squot
      then ADVANCE_TO DOCTYPESystemIdentifierSingleQuotedState (onToken (setSystemIdentifierToEmptyString) t) source
      else if cc = c_gt
      then emitAndResumeIn DataState (onToken (setForceQuirks) t) source
      else if cc = endOfFileMarker
      then emitAndReconsumeIn DataState (onToken (setForceQuirks) t) source
      else ADVANCE_TO BogusDOCTYPEState (onToken (setForceQuirks) t) source)"

definition step_BeforeDOCTYPESystemIdentifierState :: state_function where
  "step_BeforeDOCTYPESystemIdentifierState t source cc =
     (if isTokenizerWhitespace cc
      then ADVANCE_TO BeforeDOCTYPESystemIdentifierState t source
      else if cc = c_dquot
      then ADVANCE_TO DOCTYPESystemIdentifierDoubleQuotedState (onToken (setSystemIdentifierToEmptyString) t) source
      else if cc = c_squot
      then ADVANCE_TO DOCTYPESystemIdentifierSingleQuotedState (onToken (setSystemIdentifierToEmptyString) t) source
      else if cc = c_gt
      then emitAndResumeIn DataState (onToken (setForceQuirks) t) source
      else if cc = endOfFileMarker
      then emitAndReconsumeIn DataState (onToken (setForceQuirks) t) source
      else ADVANCE_TO BogusDOCTYPEState (onToken (setForceQuirks) t) source)"

definition step_DOCTYPESystemIdentifierDoubleQuotedState :: state_function where
  "step_DOCTYPESystemIdentifierDoubleQuotedState t source cc =
     (if cc = c_dquot
      then ADVANCE_TO AfterDOCTYPESystemIdentifierState t source
      else if cc = c_gt
      then emitAndResumeIn DataState (onToken (setForceQuirks) t) source
      else if cc = endOfFileMarker
      then emitAndReconsumeIn DataState (onToken (setForceQuirks) t) source
      else ADVANCE_TO DOCTYPESystemIdentifierDoubleQuotedState (onToken (appendToSystemIdentifier cc) t) source)"

definition step_DOCTYPESystemIdentifierSingleQuotedState :: state_function where
  "step_DOCTYPESystemIdentifierSingleQuotedState t source cc =
     (if cc = c_squot
      then ADVANCE_TO AfterDOCTYPESystemIdentifierState t source
      else if cc = c_gt
      then emitAndResumeIn DataState (onToken (setForceQuirks) t) source
      else if cc = endOfFileMarker
      then emitAndReconsumeIn DataState (onToken (setForceQuirks) t) source
      else ADVANCE_TO DOCTYPESystemIdentifierSingleQuotedState (onToken (appendToSystemIdentifier cc) t) source)"

definition step_AfterDOCTYPESystemIdentifierState :: state_function where
  "step_AfterDOCTYPESystemIdentifierState t source cc =
     (if isTokenizerWhitespace cc
      then ADVANCE_TO AfterDOCTYPESystemIdentifierState t source
      else if cc = c_gt
      then emitAndResumeIn DataState t source
      else if cc = endOfFileMarker
      then emitAndReconsumeIn DataState (onToken (setForceQuirks) t) source
      else ADVANCE_TO BogusDOCTYPEState t source)"

definition step_BogusDOCTYPEState :: state_function where
  "step_BogusDOCTYPEState t source cc =
     (if cc = c_gt
      then emitAndResumeIn DataState t source
      else if cc = endOfFileMarker
      then emitAndReconsumeIn DataState t source
      else ADVANCE_TO BogusDOCTYPEState t source)"

subsection \<open>CDATA sections\<close>

definition step_CDATASectionState :: state_function where
  "step_CDATASectionState t source cc =
     (if cc = c_rbracket
      then ADVANCE_TO CDATASectionRightSquareBracketState t source
      else if cc = endOfFileMarker
      then RECONSUME_IN DataState t source cc
      else ADVANCE_TO CDATASectionState (bufferCharacter cc t) source)"

definition step_CDATASectionRightSquareBracketState :: state_function where
  "step_CDATASectionRightSquareBracketState t source cc =
     (if cc = c_rbracket
      then ADVANCE_TO CDATASectionDoubleRightSquareBracketState t source
      else RECONSUME_IN CDATASectionState (bufferCharacter c_rbracket t) source cc)"

definition step_CDATASectionDoubleRightSquareBracketState :: state_function where
  "step_CDATASectionDoubleRightSquareBracketState t source cc =
     (if cc = c_gt
      then ADVANCE_TO DataState t source
      else RECONSUME_IN CDATASectionState (bufferCharacter c_rbracket (bufferCharacter c_rbracket t)) source cc)"

subsection \<open>The machine\<close>

primrec step :: "tokenizerState \<Rightarrow> tokenizer_env \<Rightarrow> state_function" where
  "step DataState env = step_DataState"
| "step CharacterReferenceInDataState env = step_CharacterReferenceInDataState env"
| "step RCDATAState env = step_RCDATAState"
| "step CharacterReferenceInRCDATAState env = step_CharacterReferenceInRCDATAState env"
| "step RAWTEXTState env = step_RAWTEXTState"
| "step ScriptDataState env = step_ScriptDataState"
| "step PLAINTEXTState env = step_PLAINTEXTState"
| "step TagOpenState env = step_TagOpenState"
| "step EndTagOpenState env = step_EndTagOpenState"
| "step TagNameState env = step_TagNameState"
| "step RCDATALessThanSignState env = step_RCDATALessThanSignState"
| "step RCDATAEndTagOpenState env = step_RCDATAEndTagOpenState"
| "step RCDATAEndTagNameState env = step_RCDATAEndTagNameState"
| "step RAWTEXTLessThanSignState env = step_RAWTEXTLessThanSignState"
| "step RAWTEXTEndTagOpenState env = step_RAWTEXTEndTagOpenState"
| "step RAWTEXTEndTagNameState env = step_RAWTEXTEndTagNameState"
| "step ScriptDataLessThanSignState env = step_ScriptDataLessThanSignState"
| "step ScriptDataEndTagOpenState env = step_ScriptDataEndTagOpenState"
| "step ScriptDataEndTagNameState env = step_ScriptDataEndTagNameState"
| "step ScriptDataEscapeStartState env = step_ScriptDataEscapeStartState"
| "step ScriptDataEscapeStartDashState env = step_ScriptDataEscapeStartDashState"
| "step ScriptDataEscapedState env = step_ScriptDataEscapedState"
| "step ScriptDataEscapedDashState env = step_ScriptDataEscapedDashState"
| "step ScriptDataEscapedDashDashState env = step_ScriptDataEscapedDashDashState"
| "step ScriptDataEscapedLessThanSignState env = step_ScriptDataEscapedLessThanSignState"
| "step ScriptDataEscapedEndTagOpenState env = step_ScriptDataEscapedEndTagOpenState"
| "step ScriptDataEscapedEndTagNameState env = step_ScriptDataEscapedEndTagNameState"
| "step ScriptDataDoubleEscapeStartState env = step_ScriptDataDoubleEscapeStartState"
| "step ScriptDataDoubleEscapedState env = step_ScriptDataDoubleEscapedState"
| "step ScriptDataDoubleEscapedDashState env = step_ScriptDataDoubleEscapedDashState"
| "step ScriptDataDoubleEscapedDashDashState env = step_ScriptDataDoubleEscapedDashDashState"
| "step ScriptDataDoubleEscapedLessThanSignState env = step_ScriptDataDoubleEscapedLessThanSignState"
| "step ScriptDataDoubleEscapeEndState env = step_ScriptDataDoubleEscapeEndState"
| "step BeforeAttributeNameState env = step_BeforeAttributeNameState"
| "step AttributeNameState env = step_AttributeNameState"
| "step AfterAttributeNameState env = step_AfterAttributeNameState"
| "step BeforeAttributeValueState env = step_BeforeAttributeValueState"
| "step AttributeValueDoubleQuotedState env = step_AttributeValueDoubleQuotedState"
| "step AttributeValueSingleQuotedState env = step_AttributeValueSingleQuotedState"
| "step AttributeValueUnquotedState env = step_AttributeValueUnquotedState"
| "step CharacterReferenceInAttributeValueState env = step_CharacterReferenceInAttributeValueState env"
| "step AfterAttributeValueQuotedState env = step_AfterAttributeValueQuotedState"
| "step SelfClosingStartTagState env = step_SelfClosingStartTagState"
| "step BogusCommentState env = step_BogusCommentState"
| "step ContinueBogusCommentState env = step_ContinueBogusCommentState"
| "step MarkupDeclarationOpenState env = step_MarkupDeclarationOpenState env"
| "step CommentStartState env = step_CommentStartState"
| "step CommentStartDashState env = step_CommentStartDashState"
| "step CommentState env = step_CommentState"
| "step CommentEndDashState env = step_CommentEndDashState"
| "step CommentEndState env = step_CommentEndState"
| "step CommentEndBangState env = step_CommentEndBangState"
| "step DOCTYPEState env = step_DOCTYPEState"
| "step BeforeDOCTYPENameState env = step_BeforeDOCTYPENameState"
| "step DOCTYPENameState env = step_DOCTYPENameState"
| "step AfterDOCTYPENameState env = step_AfterDOCTYPENameState env"
| "step AfterDOCTYPEPublicKeywordState env = step_AfterDOCTYPEPublicKeywordState"
| "step BeforeDOCTYPEPublicIdentifierState env = step_BeforeDOCTYPEPublicIdentifierState"
| "step DOCTYPEPublicIdentifierDoubleQuotedState env = step_DOCTYPEPublicIdentifierDoubleQuotedState"
| "step DOCTYPEPublicIdentifierSingleQuotedState env = step_DOCTYPEPublicIdentifierSingleQuotedState"
| "step AfterDOCTYPEPublicIdentifierState env = step_AfterDOCTYPEPublicIdentifierState"
| "step BetweenDOCTYPEPublicAndSystemIdentifiersState env = step_BetweenDOCTYPEPublicAndSystemIdentifiersState"
| "step AfterDOCTYPESystemKeywordState env = step_AfterDOCTYPESystemKeywordState"
| "step BeforeDOCTYPESystemIdentifierState env = step_BeforeDOCTYPESystemIdentifierState"
| "step DOCTYPESystemIdentifierDoubleQuotedState env = step_DOCTYPESystemIdentifierDoubleQuotedState"
| "step DOCTYPESystemIdentifierSingleQuotedState env = step_DOCTYPESystemIdentifierSingleQuotedState"
| "step AfterDOCTYPESystemIdentifierState env = step_AfterDOCTYPESystemIdentifierState"
| "step BogusDOCTYPEState env = step_BogusDOCTYPEState"
| "step CDATASectionState env = step_CDATASectionState"
| "step CDATASectionRightSquareBracketState env = step_CDATASectionRightSquareBracketState"
| "step CDATASectionDoubleRightSquareBracketState env = step_CDATASectionDoubleRightSquareBracketState"

text \<open>
  The switch and the jumps between its cases. A jump into a state leads to that state's code;
  the loop may not end for a source that is not well-formed, so it is a partial function.
\<close>

partial_function (option) run ::
  "tokenizer_env \<Rightarrow> tokenizer \<Rightarrow> segmentedString \<Rightarrow> uchar \<Rightarrow> (bool \<times> tokenizer \<times> segmentedString) option" where
  "run env t source cc = (case step (m_state t) env t source cc of
     Return emitted t source \<Rightarrow> Some (emitted, t, source)
   | Goto t source cc \<Rightarrow> run env t source cc)"

declare run.simps [code]

definition nextToken ::
  "tokenizer_env \<Rightarrow> token \<Rightarrow> tokenizer \<Rightarrow> segmentedString \<Rightarrow> (bool \<times> tokenizer \<times> segmentedString) option" where
  "nextToken env token t source =
     (let t = t\<lparr>m_token := token\<rparr>;
          pending = (m_bufferedEndTagName t \<noteq> [] \<and> \<not> isEndTagBufferingState (m_state t));
          t = (if pending then (onToken (beginEndTag (m_bufferedEndTagName t)) t)
                 \<lparr>m_bufferedEndTagName := [], m_temporaryBuffer := []\<rparr> else t)
      in if pending \<and> m_state t = DataState then Some (True, t, source)
         else if isEmpty source then Some (haveBufferedCharacterToken t, t, source)
         else case peek t source of (found, t, source) \<Rightarrow>
           if found then run env t source (m_nextInputCharacter t)
           else Some (haveBufferedCharacterToken t, t, source))"

subsection \<open>The rest of the class\<close>

definition numberOfBufferedCharacters :: "tokenizer \<Rightarrow> nat" where
  "numberOfBufferedCharacters t =
     (if m_temporaryBuffer t \<noteq> [] then length (m_temporaryBuffer t) + 2 else 0)"

definition bufferedCharacters :: "tokenizer \<Rightarrow> ustring" where
  "bufferedCharacters t = [c_lt, c_slash] @ m_temporaryBuffer t"

text \<open>
  Tag names are compared as interned names; whether plugins and scripts are enabled is a
  question to the frame and so an argument here.
\<close>

datatype tagName = textareaTag | titleTag | plaintextTag | script_Tag | styleTag | iframeTag | xmpTag
  | noembedTag | noframesTag | noscriptTag | otherTag ustring

definition updateStateFor :: "tagName \<Rightarrow> bool \<Rightarrow> bool \<Rightarrow> tokenizer \<Rightarrow> tokenizer" where
  "updateStateFor name pluginsEnabled scriptEnabled t =
     (if name = textareaTag \<or> name = titleTag then t\<lparr>m_state := RCDATAState\<rparr>
      else if name = plaintextTag then t\<lparr>m_state := PLAINTEXTState\<rparr>
      else if name = script_Tag then t\<lparr>m_state := ScriptDataState\<rparr>
      else if name = styleTag \<or> name = iframeTag \<or> name = xmpTag \<or>
              (name = noembedTag \<and> pluginsEnabled) \<or> name = noframesTag \<or>
              (name = noscriptTag \<and> scriptEnabled)
      then t\<lparr>m_state := RAWTEXTState\<rparr>
      else t)"

end
