(* ===== verification/HTML_Entity_Correct.thy ===== *)
theory HTML_Entity_Correct
  imports HTML_Entity "HOL-Library.Sublist"
begin

section \<open>Character references: correctness\<close>

text \<open>
  What the code relies on in the generated table (\<open>entityTable_ok\<close>): entries are sorted by
  code units, names are made of letters, digits and a semicolon, and the two index functions
  give the first and the last entry with a first character. Under these hypotheses the binary
  search of \<open>HTMLEntitySearch\<close> is a search for prefixes, and a character reference that is not
  recognised leaves the source as it was.
\<close>

fun entity_less :: "ustring \<Rightarrow> ustring \<Rightarrow> bool" where
  "entity_less (a # as) (b # bs) \<longleftrightarrow> a < b \<or> a = b \<and> entity_less as bs"
| "entity_less [] bs \<longleftrightarrow> bs \<noteq> []"
| "entity_less (a # as) [] \<longleftrightarrow> False"

abbreviation (input) entryName :: "entityTable \<Rightarrow> nat \<Rightarrow> ustring" where
  "entryName tb i \<equiv> en_entity (tb_entries tb ! i)"

definition entityTable_ok :: "entityTable \<Rightarrow> bool" where
  "entityTable_ok tb \<longleftrightarrow>
     sorted_wrt (\<lambda>d e. entity_less (en_entity d) (en_entity e)) (tb_entries tb) \<and>
     (\<forall>e \<in> set (tb_entries tb). 2 \<le> length (en_entity e) \<and>
        (\<forall>c \<in> set (en_entity e). isAlphaNumeric c \<or> c = 0x3B)) \<and>
     (\<forall>c. case tb_firstEntryStartingWith tb c of
        None \<Rightarrow> \<forall>i < length (tb_entries tb). hd (entryName tb i) \<noteq> c
      | Some i \<Rightarrow> i < length (tb_entries tb) \<and> hd (entryName tb i) = c \<and>
          (\<forall>j < i. hd (entryName tb j) \<noteq> c)) \<and>
     (\<forall>c. case tb_lastEntryStartingWith tb c of
        None \<Rightarrow> \<forall>i < length (tb_entries tb). hd (entryName tb i) \<noteq> c
      | Some i \<Rightarrow> i < length (tb_entries tb) \<and> hd (entryName tb i) = c \<and>
          (\<forall>j < length (tb_entries tb). i < j \<longrightarrow> hd (entryName tb j) \<noteq> c))"

lemma entry_length:
  assumes "entityTable_ok tb" and "i < length (tb_entries tb)"
  shows "2 \<le> length (entryName tb i)" and "entryName tb i \<noteq> []"
proof -
  show "2 \<le> length (entryName tb i)" using assms by (simp add: entityTable_ok_def)
  then show "entryName tb i \<noteq> []" by auto
qed

subsection \<open>The binary searches\<close>

text \<open>
  On a range whose classification does not decrease, as it is in a sorted table, the searches
  find the first and the last prefix.
\<close>

fun class_rank :: "compareResult \<Rightarrow> nat" where
  "class_rank Before = 0"
| "class_rank Prefix = 1"
| "class_rank After = 2"

definition ascending :: "entityTable \<Rightarrow> nat \<Rightarrow> uchar \<Rightarrow> nat \<Rightarrow> nat \<Rightarrow> bool" where
  "ascending tb n c l r \<longleftrightarrow> (\<forall>i j. l \<le> i \<longrightarrow> i \<le> j \<longrightarrow> j \<le> r \<longrightarrow>
     class_rank (search_compare tb n i c) \<le> class_rank (search_compare tb n j c))"

lemma class_rank_simps:
  "class_rank x = 0 \<longleftrightarrow> x = Before" "class_rank x = Suc 0 \<longleftrightarrow> x = Prefix" "class_rank x = 2 \<longleftrightarrow> x = After"
  by (cases x; simp)+

lemma findFirst_loop_spec:
  assumes "ascending tb n c l r" and "l \<le> left" and "left < right" and "right \<le> r"
    and "search_compare tb n left c = Before"
    and "right < r \<longrightarrow> search_compare tb n right c \<noteq> Before"
  shows "let f = findFirst_loop tb n c left right in left < f \<and> f \<le> r \<and>
    search_compare tb n (f - 1) c = Before \<and> (f < r \<longrightarrow> search_compare tb n f c \<noteq> Before)"
  using assms
proof (induction tb n c left right rule: findFirst_loop.induct)
  case (1 tb n c left right)
  show ?case
  proof (cases "left + 1 < right")
    case True
    let ?p = "halfway left right"
    have p: "left < ?p" "?p < right" using True by (auto simp: halfway_def)
    show ?thesis
    proof (cases "search_compare tb n ?p c = Before")
      case b: True
      with 1 True p show ?thesis
        by (subst findFirst_loop.simps) (auto simp: Let_def)
    next
      case False
      with 1 True p show ?thesis
        by (subst findFirst_loop.simps) (auto simp: Let_def)
    qed
  next
    case False
    with 1 have "right - 1 = left" by simp
    with False 1 show ?thesis by (subst findFirst_loop.simps) (simp add: Let_def)
  qed
qed

lemma findLast_loop_spec:
  assumes "ascending tb n c l r" and "l \<le> left" and "left < right" and "right \<le> r"
    and "search_compare tb n right c = After"
    and "l < left \<longrightarrow> search_compare tb n left c \<noteq> After"
  shows "let f = findLast_loop tb n c left right in left \<le> f \<and> f < r \<and>
    search_compare tb n (f + 1) c = After \<and> (l < f \<longrightarrow> search_compare tb n f c \<noteq> After)"
  using assms
proof (induction tb n c left right rule: findLast_loop.induct)
  case (1 tb n c left right)
  show ?case
  proof (cases "left + 1 < right")
    case True
    let ?p = "halfway left right"
    have p: "left < ?p" "?p < right" using True by (auto simp: halfway_def)
    show ?thesis
    proof (cases "search_compare tb n ?p c = After")
      case b: True
      with 1 True p show ?thesis
        by (subst findLast_loop.simps) (auto simp: Let_def)
    next
      case False
      with 1 True p show ?thesis
        by (subst findLast_loop.simps) (auto simp: Let_def)
    qed
  next
    case False
    with 1 have "right = left + 1" by simp
    with False 1 show ?thesis by (subst findLast_loop.simps) (simp add: Let_def)
  qed
qed


lemma ascendingD:
  "ascending tb n c l r \<Longrightarrow> l \<le> i \<Longrightarrow> i \<le> j \<Longrightarrow> j \<le> r \<Longrightarrow>
     class_rank (search_compare tb n i c) \<le> class_rank (search_compare tb n j c)"
  by (auto simp: ascending_def)

lemma findFirst_spec:
  assumes "ascending tb n c l r" and "l \<le> r" and "f = findFirst tb n c l r"
  shows "l \<le> f \<and> f \<le> r \<and> (f < r \<longrightarrow> search_compare tb n f c \<noteq> Before) \<and>
    ((\<forall>i. l \<le> i \<and> i < f \<longrightarrow> search_compare tb n i c = Before) \<or>
     f = r \<and> search_compare tb n l c = After)"
proof (cases "l < r \<and> search_compare tb n l c = Before")
  case True
  with findFirst_loop_spec[OF assms(1), of l r]
  have f: "f = findFirst_loop tb n c l r" "l < f" "f \<le> r" "search_compare tb n (f - 1) c = Before"
    "f < r \<longrightarrow> search_compare tb n f c \<noteq> Before"
    using assms by (auto simp: findFirst_def Let_def)
  have "search_compare tb n i c = Before" if "l \<le> i" "i < f" for i
    using ascendingD[OF assms(1), of i "f - 1"] that f class_rank_simps(1) by simp
  with f show ?thesis by auto
next
  case False
  with assms(2,3) show ?thesis
    by (cases "search_compare tb n l c") (auto simp: findFirst_def split: if_splits)
qed

lemma findLast_spec:
  assumes "ascending tb n c f r" and "f \<le> r" and "g = findLast tb n c f r"
    and "f < r \<longrightarrow> search_compare tb n f c \<noteq> Before"
  shows "f \<le> g \<and> g \<le> r \<and> (\<forall>i. g < i \<and> i \<le> r \<longrightarrow> search_compare tb n i c = After) \<and>
    (f < g \<longrightarrow> search_compare tb n g c \<noteq> After)"
proof (cases "f < r \<and> search_compare tb n r c = After")
  case True
  with findLast_loop_spec[OF assms(1), of f r]
  have g: "g = findLast_loop tb n c f r" "f \<le> g" "g < r" "search_compare tb n (g + 1) c = After"
    "f < g \<longrightarrow> search_compare tb n g c \<noteq> After"
    using assms by (auto simp: findLast_def Let_def)
  have "search_compare tb n i c = After" if "g < i" "i \<le> r" for i
  proof -
    have "class_rank (search_compare tb n (g + 1) c) \<le> class_rank (search_compare tb n i c)"
      using that g(2) by (intro ascendingD[OF assms(1)]) simp_all
    then show ?thesis unfolding g(4) by (cases "search_compare tb n i c") simp_all
  qed
  with g show ?thesis by auto
next
  case False
  moreover have "search_compare tb n r c \<noteq> Before" if "f < r"
    using ascendingD[OF assms(1), of f r] that assms(4)
    by (cases "search_compare tb n f c") auto
  ultimately show ?thesis
    using assms(2,3) by (cases "search_compare tb n r c") (auto simp: findLast_def split: if_splits)
qed

lemma find_range:
  assumes asc: "ascending tb n c l r" and lr: "l \<le> r"
    and f: "f = findFirst tb n c l r" and g: "g = findLast tb n c f r"
  shows "f = g \<and> search_compare tb n f c \<noteq> Prefix \<longleftrightarrow>
      (\<forall>i. l \<le> i \<and> i \<le> r \<longrightarrow> search_compare tb n i c \<noteq> Prefix)"
    and "\<exists>i. l \<le> i \<and> i \<le> r \<and> search_compare tb n i c = Prefix \<Longrightarrow>
      l \<le> f \<and> f \<le> g \<and> g \<le> r \<and>
      (\<forall>i. l \<le> i \<and> i \<le> r \<longrightarrow> (search_compare tb n i c = Prefix \<longleftrightarrow> f \<le> i \<and> i \<le> g))"
proof -
  note F = findFirst_spec[OF asc lr f]
  from F have fr: "f \<le> r" "f < r \<longrightarrow> search_compare tb n f c \<noteq> Before" "l \<le> f" by blast+
  have asc': "ascending tb n c f r" using asc fr(3) by (auto simp: ascending_def)
  note G = findLast_spec[OF asc' fr(1) g fr(2)]
  from G have fg: "l \<le> f" "f \<le> g" "g \<le> r" and after: "\<And>i. g < i \<Longrightarrow> i \<le> r \<Longrightarrow> search_compare tb n i c = After"
    and gA: "f < g \<Longrightarrow> search_compare tb n g c \<noteq> After"
    using fr(3) by blast+
  have main: "\<forall>i. l \<le> i \<and> i \<le> r \<longrightarrow> (search_compare tb n i c = Prefix \<longleftrightarrow> f \<le> i \<and> i \<le> g)"
    if ex: "l \<le> k" "k \<le> r" "search_compare tb n k c = Prefix" for k
  proof -
    have "search_compare tb n l c \<noteq> After" using ascendingD[OF asc, of l k] ex by auto
    with F have before: "\<And>i. l \<le> i \<Longrightarrow> i < f \<Longrightarrow> search_compare tb n i c = Before" by blast
    have k: "f \<le> k" using before[of k] ex by (cases "f \<le> k") auto
    have k': "k \<le> g" using after[of k] ex by (cases "k \<le> g") auto
    note k = k k'
    have "search_compare tb n f c = Prefix"
    proof (cases "f < r")
      case True
      then show ?thesis
        using fr(2) ascendingD[OF asc, of f k] ex k fg by (cases "search_compare tb n f c") auto
    next
      case False
      then have "k = f" using k fg ex by simp
      with ex show ?thesis by simp
    qed
    moreover have "search_compare tb n g c = Prefix"
      using gA ascendingD[OF asc, of k g] ex k fg calculation
      by (cases "f = g"; cases "search_compare tb n g c") auto
    ultimately have "search_compare tb n i c = Prefix" if "f \<le> i" "i \<le> g" for i
      using ascendingD[OF asc, of f i] ascendingD[OF asc, of i g] that fg
      by (cases "search_compare tb n i c") auto
    then show ?thesis using before after by (metis compareResult.distinct(1,5) not_le)
  qed
  then show "\<exists>i. l \<le> i \<and> i \<le> r \<and> search_compare tb n i c = Prefix \<Longrightarrow>
      l \<le> f \<and> f \<le> g \<and> g \<le> r \<and>
      (\<forall>i. l \<le> i \<and> i \<le> r \<longrightarrow> (search_compare tb n i c = Prefix \<longleftrightarrow> f \<le> i \<and> i \<le> g))"
    using fg by blast
  have "f = g" if no: "\<forall>i. l \<le> i \<and> i \<le> r \<longrightarrow> search_compare tb n i c \<noteq> Prefix"
  proof (rule ccontr)
    assume "f \<noteq> g"
    with fg have lt: "f < g" by simp
    with F fg no have "search_compare tb n f c = After"
      by (cases "search_compare tb n f c") auto
    with ascendingD[OF asc, of f g] fg have "search_compare tb n g c = After"
      by (cases "search_compare tb n g c") auto
    with gA lt show False by simp
  qed
  then show "f = g \<and> search_compare tb n f c \<noteq> Prefix \<longleftrightarrow>
      (\<forall>i. l \<le> i \<and> i \<le> r \<longrightarrow> search_compare tb n i c \<noteq> Prefix)"
    using main fg by (metis order_refl order_trans)
qed


subsection \<open>The search is a search for prefixes\<close>

lemma entity_less_append: "entity_less (w @ x) (w @ y) \<longleftrightarrow> entity_less x y"
  by (induction w) simp_all

lemma search_compare_append:
  assumes "entryName tb i = w @ x"
  shows "search_compare tb (length w) i c =
    (case x of [] \<Rightarrow> Before | a # _ \<Rightarrow> if a = c then Prefix else if a < c then Before else After)"
  using assms by (auto simp: search_compare_def entryLength_def nth_append split: list.split)

lemma search_compare_Prefix:
  assumes "prefix w (entryName tb i)"
  shows "search_compare tb (length w) i c = Prefix \<longleftrightarrow> prefix (w @ [c]) (entryName tb i)"
proof -
  from assms obtain x where x: "entryName tb i = w @ x" by (auto simp: prefix_def)
  show ?thesis unfolding search_compare_append[OF x] x by (cases x) auto
qed

lemma sorted_entries:
  assumes "entityTable_ok tb" and "i < j" and "j < length (tb_entries tb)"
  shows "entity_less (entryName tb i) (entryName tb j)"
  using assms by (simp add: entityTable_ok_def sorted_wrt_iff_nth_less)

lemma ascending_prefixes:
  assumes ok: "entityTable_ok tb" and r: "r < length (tb_entries tb)"
    and pre: "\<And>i. l \<le> i \<Longrightarrow> i \<le> r \<Longrightarrow> prefix w (entryName tb i)"
  shows "ascending tb (length w) c l r"
  unfolding ascending_def
proof (intro allI impI)
  fix i j assume ij: "l \<le> i" "i \<le> j" "j \<le> r"
  then have "prefix w (entryName tb i)" "prefix w (entryName tb j)" using pre by simp_all
  then obtain x y where x: "entryName tb i = w @ x" and y: "entryName tb j = w @ y"
    by (auto simp: prefix_def)
  show "class_rank (search_compare tb (length w) i c) \<le> class_rank (search_compare tb (length w) j c)"
  proof (cases "i = j")
    case False
    with ij have "entity_less (entryName tb i) (entryName tb j)"
      by (intro sorted_entries[OF ok]) (use r in simp_all)
    then have "entity_less x y" unfolding x y entity_less_append .
    then show ?thesis
      unfolding search_compare_append[OF x] search_compare_append[OF y]
      by (cases x; cases y) (auto split: if_splits)
  qed simp
qed

definition match_ok :: "entityTable \<Rightarrow> ustring \<Rightarrow> nat option \<Rightarrow> bool" where
  "match_ok tb w m \<longleftrightarrow> (case m of
     None \<Rightarrow> \<forall>i < length (tb_entries tb). \<not> prefix (entryName tb i) w
   | Some k \<Rightarrow> k < length (tb_entries tb) \<and> prefix (entryName tb k) w \<and>
       (\<forall>i < length (tb_entries tb). prefix (entryName tb i) w \<longrightarrow>
          length (entryName tb i) \<le> length (entryName tb k)))"

definition range_ok :: "entityTable \<Rightarrow> ustring \<Rightarrow> nat \<Rightarrow> nat \<Rightarrow> bool" where
  "range_ok tb w l r \<longleftrightarrow> l \<le> r \<and> r < length (tb_entries tb) \<and>
     (\<forall>i < length (tb_entries tb). prefix w (entryName tb i) \<longleftrightarrow> l \<le> i \<and> i \<le> r)"

definition search_for :: "entityTable \<Rightarrow> ustring \<Rightarrow> entitySearch \<Rightarrow> bool" where
  "search_for tb w es \<longleftrightarrow> es_currentLength es = length w \<and> match_ok tb w (es_mostRecentMatch es) \<and>
     (w \<noteq> [] \<longrightarrow> (\<exists>l r. es_first es = Some l \<and> es_last es = Some r \<and> range_ok tb w l r))"

lemma search_for_initial: "entityTable_ok tb \<Longrightarrow> search_for tb [] (HTMLEntitySearch tb)"
  by (auto simp: search_for_def HTMLEntitySearch_def match_ok_def dest: entry_length)

text \<open>The entry that equals the word, if there is one, is the first of its range.\<close>

lemma first_is_match:
  assumes ok: "entityTable_ok tb" and rg: "range_ok tb w l r"
  shows "length (entryName tb l) = length w \<longleftrightarrow> (\<exists>i < length (tb_entries tb). entryName tb i = w)"
proof
  have l: "l < length (tb_entries tb)" "prefix w (entryName tb l)" using rg by (auto simp: range_ok_def)
  assume "length (entryName tb l) = length w"
  with l(2) have "entryName tb l = w" by (auto simp: prefix_def)
  with l(1) show "\<exists>i < length (tb_entries tb). entryName tb i = w" by blast
next
  assume "\<exists>i < length (tb_entries tb). entryName tb i = w"
  then obtain i where i: "i < length (tb_entries tb)" "entryName tb i = w" by blast
  with rg have li: "l \<le> i" by (auto simp: range_ok_def)
  have "prefix w (entryName tb l)" using rg by (auto simp: range_ok_def)
  then obtain x where x: "entryName tb l = w @ x" by (auto simp: prefix_def)
  have "l = i"
  proof (rule ccontr)
    assume "l \<noteq> i"
    with li i have "entity_less (w @ x) (w @ [])"
      using sorted_entries[OF ok, of l i] x by simp
    then show False unfolding entity_less_append by (cases x) simp_all
  qed
  with i show "length (entryName tb l) = length w" by simp
qed

lemma match_ok_step:
  assumes "match_ok tb w m"
  shows "\<not> (\<exists>i < length (tb_entries tb). entryName tb i = w @ [c]) \<Longrightarrow> match_ok tb (w @ [c]) m"
    and "k < length (tb_entries tb) \<Longrightarrow> entryName tb k = w @ [c] \<Longrightarrow> match_ok tb (w @ [c]) (Some k)"
  using assms
  by (auto simp: match_ok_def prefix_length_le split: option.splits dest: prefix_length_le)

lemma search_advanceTo_spec:
  assumes ok: "entityTable_ok tb" and es: "search_for tb w es" and rg: "range_ok tb (w @ [c]) l r"
  shows "search_for tb (w @ [c]) (search_advanceTo tb l r es)" and "isEntityPrefix (search_advanceTo tb l r es)"
proof -
  have len: "es_currentLength es + 1 = length (w @ [c])" and m: "match_ok tb w (es_mostRecentMatch es)"
    using es by (simp_all add: search_for_def)
  have l: "l < length (tb_entries tb)" "prefix (w @ [c]) (entryName tb l)" using rg by (auto simp: range_ok_def)
  have eq: "entryName tb l = w @ [c]" if "length (entryName tb l) = Suc (length w)"
    using l(2) that by (auto simp: prefix_def)
  show "search_for tb (w @ [c]) (search_advanceTo tb l r es)"
    using rg len first_is_match[OF ok rg] match_ok_step(1)[OF m, of c] match_ok_step(2)[OF m l(1) eq]
    by (auto simp: search_for_def search_advanceTo_def entryLength_def Let_def)
  show "isEntityPrefix (search_advanceTo tb l r es)"
    by (simp add: isEntityPrefix_def search_advanceTo_def Let_def)
qed


lemma hd_mono:
  assumes ok: "entityTable_ok tb" and "i \<le> j" and j: "j < length (tb_entries tb)"
  shows "hd (entryName tb i) \<le> hd (entryName tb j)"
proof (cases "i = j")
  case False
  have "entryName tb i \<noteq> []" "entryName tb j \<noteq> []"
    using entry_length(2)[OF ok] assms(2) j by simp_all
  with sorted_entries[OF ok, of i j] False assms(2) j show ?thesis
    by (cases "entryName tb i"; cases "entryName tb j") auto
qed simp

lemma first_entry:
  assumes "entityTable_ok tb"
  shows "case tb_firstEntryStartingWith tb c of
        None \<Rightarrow> \<forall>i < length (tb_entries tb). hd (entryName tb i) \<noteq> c
      | Some i \<Rightarrow> i < length (tb_entries tb) \<and> hd (entryName tb i) = c \<and>
          (\<forall>j < i. hd (entryName tb j) \<noteq> c)"
  using assms unfolding entityTable_ok_def by blast

lemma last_entry:
  assumes "entityTable_ok tb"
  shows "case tb_lastEntryStartingWith tb c of
        None \<Rightarrow> \<forall>i < length (tb_entries tb). hd (entryName tb i) \<noteq> c
      | Some i \<Rightarrow> i < length (tb_entries tb) \<and> hd (entryName tb i) = c \<and>
          (\<forall>j < length (tb_entries tb). i < j \<longrightarrow> hd (entryName tb j) \<noteq> c)"
  using assms unfolding entityTable_ok_def by blast

lemma range_ok_first:
  assumes ok: "entityTable_ok tb"
    and f: "tb_firstEntryStartingWith tb c = Some f" and l: "tb_lastEntryStartingWith tb c = Some l"
  shows "range_ok tb [c] f l"
proof -
  let ?n = "length (tb_entries tb)"
  have F: "f < ?n" "hd (entryName tb f) = c" "\<forall>j < f. hd (entryName tb j) \<noteq> c"
    using first_entry[OF ok, of c] f by simp_all
  have L: "l < ?n" "hd (entryName tb l) = c" "\<forall>j < ?n. l < j \<longrightarrow> hd (entryName tb j) \<noteq> c"
    using last_entry[OF ok, of c] l by simp_all
  have ne: "i < ?n \<Longrightarrow> entryName tb i \<noteq> []" for i by (rule entry_length(2)[OF ok])
  have fl: "f \<le> l" using F L by (metis not_le)
  have "prefix [c] (entryName tb i) \<longleftrightarrow> f \<le> i \<and> i \<le> l" if i: "i < ?n" for i
  proof -
    have "prefix [c] (entryName tb i) \<longleftrightarrow> hd (entryName tb i) = c"
      using ne[OF i] by (cases "entryName tb i") auto
    also have "\<dots> \<longleftrightarrow> f \<le> i \<and> i \<le> l"
      using F L i hd_mono[OF ok, of f i] hd_mono[OF ok, of i l] by (metis antisym not_le)
    finally show ?thesis .
  qed
  with fl L(1) show ?thesis by (simp add: range_ok_def)
qed

lemma search_advance_first:
  assumes ok: "entityTable_ok tb" and es: "search_for tb [] es"
  shows "if \<exists>i < length (tb_entries tb). prefix [c] (entryName tb i)
    then search_for tb [c] (search_advance tb c es) \<and> isEntityPrefix (search_advance tb c es)
    else search_advance tb c es = search_fail es"
proof -
  have ne: "i < length (tb_entries tb) \<Longrightarrow> entryName tb i \<noteq> []" for i
    by (rule entry_length(2)[OF ok])
  have px: "prefix [c] (entryName tb i) \<longleftrightarrow> hd (entryName tb i) = c" if "i < length (tb_entries tb)" for i
    using ne[OF that] by (cases "entryName tb i") auto
  have len: "es_currentLength es = 0" using es by (simp add: search_for_def)
  have fN: "tb_firstEntryStartingWith tb c = None \<longleftrightarrow> \<not> (\<exists>i < length (tb_entries tb). prefix [c] (entryName tb i))"
    using first_entry[OF ok, of c] px by (auto split: option.splits)
  have lN: "tb_lastEntryStartingWith tb c = None \<longleftrightarrow> \<not> (\<exists>i < length (tb_entries tb). prefix [c] (entryName tb i))"
    using last_entry[OF ok, of c] px by (auto split: option.splits)
  show ?thesis
  proof (cases "tb_firstEntryStartingWith tb c")
    case None
    with fN have "\<not> (\<exists>i < length (tb_entries tb). prefix [c] (entryName tb i))" by blast
    with None len show ?thesis by (auto simp: search_advance_def)
  next
    case (Some f)
    then obtain l where l: "tb_lastEntryStartingWith tb c = Some l" using fN lN by fastforce
    from search_advanceTo_spec[OF ok es, of c f l] range_ok_first[OF ok Some l] Some l fN len
    show ?thesis by (simp add: search_advance_def)
  qed
qed

lemma search_advance_next:
  assumes ok: "entityTable_ok tb" and es: "search_for tb w es" and w: "w \<noteq> []"
  shows "if \<exists>i < length (tb_entries tb). prefix (w @ [c]) (entryName tb i)
    then search_for tb (w @ [c]) (search_advance tb c es) \<and> isEntityPrefix (search_advance tb c es)
    else search_advance tb c es = search_fail es"
proof -
  let ?n = "length (tb_entries tb)"
  obtain l r where lr: "es_first es = Some l" "es_last es = Some r" and rg: "range_ok tb w l r"
    and len: "es_currentLength es = length w"
    using es w by (auto simp: search_for_def)
  let ?f = "findFirst tb (length w) c l r"
  let ?g = "findLast tb (length w) c ?f r"
  have pre: "i < ?n \<Longrightarrow> prefix w (entryName tb i) \<longleftrightarrow> l \<le> i \<and> i \<le> r" for i
    using rg by (auto simp: range_ok_def)
  have r: "l \<le> r" "r < ?n" using rg by (auto simp: range_ok_def)
  have asc: "ascending tb (length w) c l r"
    using r pre by (intro ascending_prefixes[OF ok]) simp_all
  have cls: "prefix (w @ [c]) (entryName tb i) \<longleftrightarrow> l \<le> i \<and> i \<le> r \<and> search_compare tb (length w) i c = Prefix"
    if "i < ?n" for i
    using pre[OF that] search_compare_Prefix[of w tb i c] append_prefixD by blast
  note fr = find_range[OF asc r(1) refl refl]
  have adv: "search_advance tb c es =
      (if ?f = ?g \<and> search_compare tb (length w) ?f c \<noteq> Prefix then search_fail es
       else search_advanceTo tb ?f ?g es)"
    using lr len w by (simp add: search_advance_def Let_def)
  show ?thesis
  proof (cases "\<exists>i < ?n. prefix (w @ [c]) (entryName tb i)")
    case True
    then obtain i where "l \<le> i" "i \<le> r" "search_compare tb (length w) i c = Prefix" using cls by blast
    with fr have R: "l \<le> ?f" "?f \<le> ?g" "?g \<le> r"
      "\<forall>i. l \<le> i \<and> i \<le> r \<longrightarrow> (search_compare tb (length w) i c = Prefix \<longleftrightarrow> ?f \<le> i \<and> i \<le> ?g)"
      and no: "\<not> (?f = ?g \<and> search_compare tb (length w) ?f c \<noteq> Prefix)" by blast+
    have "range_ok tb (w @ [c]) ?f ?g"
      unfolding range_ok_def using R r cls by (meson le_trans less_le_trans not_le)
    moreover have "search_advance tb c es = search_advanceTo tb ?f ?g es"
      unfolding adv by (rule if_not_P[OF no])
    ultimately show ?thesis using True search_advanceTo_spec[OF ok es] by simp
  next
    case False
    then have "\<forall>i. l \<le> i \<and> i \<le> r \<longrightarrow> search_compare tb (length w) i c \<noteq> Prefix"
      using cls r(2) by (meson le_less_trans)
    with fr(1) have "?f = ?g \<and> search_compare tb (length w) ?f c \<noteq> Prefix" by blast
    then have "search_advance tb c es = search_fail es" unfolding adv by (rule if_P)
    with False show ?thesis by auto
  qed
qed

lemma search_advance_spec:
  assumes "entityTable_ok tb" and "search_for tb w es"
  shows "if \<exists>i < length (tb_entries tb). prefix (w @ [c]) (entryName tb i)
    then search_for tb (w @ [c]) (search_advance tb c es) \<and> isEntityPrefix (search_advance tb c es)
    else search_advance tb c es = search_fail es"
  using search_advance_first[OF assms(1)] search_advance_next[OF assms] assms(2)
  by (cases "w = []") (simp_all del: prefix_snoc)


subsection \<open>Giving characters back\<close>

text \<open>No pushed character is an ampersand; advancing and giving back keep that.\<close>

definition no_amp :: "segmentedString \<Rightarrow> bool" where
  "no_amp s \<longleftrightarrow> ss_pushedChar1 s \<noteq> 0x26 \<and> ss_pushedChar2 s \<noteq> 0x26"

lemma no_amp_advance: "no_amp s \<Longrightarrow> no_amp (advance s)"
  by (auto simp: no_amp_def advance_slow advanceSlowCase_def dropChar_def advanceSubstring_def
      Let_def split: list.splits)

lemma no_amp_steps: "no_amp s \<Longrightarrow> no_amp ((advance ^^ n) s)"
  by (induction n) (simp_all add: no_amp_advance)

lemma closed_steps: "ss_wf s \<Longrightarrow> ss_closed ((advance ^^ n) s) = ss_closed s"
  by (induction n) (simp_all add: wf_advance seg.steps_ok)

text \<open>
  \<open>restored\<close>: the source has the text of \<open>s\<close> again. The characters given back are pushed when
  there are one or two of them, so only a source with a second pushed character needs care.
\<close>

definition restored :: "segmentedString \<Rightarrow> segmentedString \<Rightarrow> bool" where
  "restored s u \<longleftrightarrow> ss_wf u \<and> toString u = toString s \<and> ss_closed u = ss_closed s \<and>
     numberOfCharactersConsumed u = numberOfCharactersConsumed s"

lemma pushed_after_one:
  assumes "ss_pushedChar2 s = 0" and "ss_wf s"
  shows "ss_pushedChar1 (advance s) = 0"
  using assms by (auto simp: advance_slow advanceSlowCase_def dropChar_def advanceSubstring_def
      Let_def ss_wf_def split: list.splits)

lemma prepend_nothing: "ss_prepend (SegmentedString []) s = s"
  by (simp add: ss_prepend_def prepend_sub_def SegmentedString_def SegmentedSubstring_def)

lemma unconsume_pushes:
  assumes "ss_wf v" and "cs \<noteq> [] \<Longrightarrow> ss_pushedChar1 v = 0" and "0 \<notin> set cs"
  shows "ss_wf (unconsumeCharacters cs v)" and "toString (unconsumeCharacters cs v) = cs @ toString v"
    and "ss_closed (unconsumeCharacters cs v) = ss_closed v"
    and "numberOfCharactersConsumed (unconsumeCharacters cs v) = numberOfCharactersConsumed v - int (length cs)"
  using assms
  by (cases cs rule: remdups_adj.cases; force simp: unconsumeCharacters_def prepend_nothing wf_push
      wf_push2 wf_prepend split: list.split)+

lemma unconsume_no_amp:
  assumes "no_amp v" and "0x26 \<notin> set cs"
  shows "no_amp (unconsumeCharacters cs v)"
  using assms
  by (cases cs rule: remdups_adj.cases)
    (auto simp: unconsumeCharacters_def no_amp_def push_def ss_prepend_def
      prepend_sub_def SegmentedString_def SegmentedSubstring_def Let_def split: list.split)

lemma unconsume_pushedChar2:
  assumes "cs \<noteq> [] \<Longrightarrow> ss_pushedChar1 v = 0 \<and> ss_pushedChar2 v = 0" and "0 \<notin> set cs" and "cs \<noteq> []"
    and "ss_pushedChar2 (unconsumeCharacters cs v) \<noteq> 0"
  shows "cs = [ss_pushedChar1 (unconsumeCharacters cs v), ss_pushedChar2 (unconsumeCharacters cs v)]"
  using assms
  by (cases cs rule: remdups_adj.cases)
    (auto simp: unconsumeCharacters_def no_amp_def push_def ss_prepend_def
      prepend_sub_def SegmentedString_def SegmentedSubstring_def Let_def split: list.splits if_splits)

lemma unconsume_restores:
  assumes wf: "ss_wf s" and n: "n \<le> length (toString s)"
    and nz: "0 \<notin> set (take n (toString s))" and one: "n = 1 \<longrightarrow> ss_pushedChar2 s = 0"
  defines "u \<equiv> unconsumeCharacters (take n (toString s)) ((advance ^^ n) s)"
  shows "restored s u"
    and "no_amp s \<Longrightarrow> 0x26 \<notin> set (take n (toString s)) \<Longrightarrow> no_amp u"
    and "n \<noteq> 0 \<Longrightarrow> ss_pushedChar2 u \<noteq> 0 \<Longrightarrow>
      take n (toString s) = [ss_pushedChar1 u, ss_pushedChar2 u]"
    and "n = 0 \<Longrightarrow> u = s"
proof -
  let ?s = "(advance ^^ n) s" and ?cs = "take n (toString s)"
  have s: "ss_wf ?s" "toString s = ?cs @ toString ?s" "ss_closed ?s = ss_closed s"
    "numberOfCharactersConsumed ?s = numberOfCharactersConsumed s + int (length ?cs)"
    using wf n by (simp_all add: seg.steps_ok seg.steps_contents seg.steps_position closed_steps)
  have p0: "ss_pushedChar1 ?s = 0 \<and> ss_pushedChar2 ?s = 0" if "?cs \<noteq> []"
  proof -
    have "ss_pushedChar1 ?s = 0"
      using no_pushed_after[OF wf, of n] pushed_after_one[OF _ wf] one that
      by (cases "n = 1"; cases "n = 0") simp_all
    with s(1) show ?thesis by (simp add: ss_wf_def)
  qed
  note up = unconsume_pushes[OF s(1) _ nz]
  show "restored s u"
    unfolding restored_def u_def using up p0 s by simp
  show "no_amp u" if "no_amp s" "0x26 \<notin> set ?cs"
    using that unfolding u_def by (intro unconsume_no_amp no_amp_steps)
  show "?cs = [ss_pushedChar1 u, ss_pushedChar2 u]" if "n \<noteq> 0" "ss_pushedChar2 u \<noteq> 0"
    using that n p0 nz unfolding u_def by (intro unconsume_pushedChar2) auto
  show "u = s" if "n = 0"
    using that by (simp add: u_def unconsumeCharacters_def prepend_nothing)
qed


subsection \<open>Named references\<close>

definition entity_prefix :: "entityTable \<Rightarrow> ustring \<Rightarrow> bool" where
  "entity_prefix tb w \<longleftrightarrow> (\<exists>i < length (tb_entries tb). prefix w (entryName tb i))"

lemma entity_prefix_chars:
  assumes "entityTable_ok tb" and "entity_prefix tb w" and "c \<in> set w"
  shows "isAlphaNumeric c \<or> c = 0x3B"
  using assms set_mono_prefix unfolding entity_prefix_def entityTable_ok_def
  by (metis nth_mem subsetD)

lemma entity_prefix_not_special:
  assumes "entityTable_ok tb" and "entity_prefix tb w"
  shows "0 \<notin> set w" and "0x26 \<notin> set w" and "0x23 \<notin> set w"
  using entity_prefix_chars[OF assms, of 0] entity_prefix_chars[OF assms, of "0x26"]
    entity_prefix_chars[OF assms, of "0x23"]
  by (auto simp: isAlphaNumeric_def word_le_nat_alt)

text \<open>
  The loop consumes the longest prefix of the source that continues \<open>w\<close> to the prefix of an
  entity, and the search ends with the longest entity in it.
\<close>

lemma named_loop_spec:
  assumes ok: "entityTable_ok tb" and "ss_wf s" and "search_for tb w es"
  shows "\<exists>n es'. n \<le> length (toString s) \<and>
    named_loop tb es w s = (es', w @ take n (toString s), (advance ^^ n) s) \<and>
    (0 < n \<longrightarrow> entity_prefix tb (w @ take n (toString s))) \<and>
    (n < length (toString s) \<longrightarrow> \<not> entity_prefix tb (w @ take (Suc n) (toString s))) \<and>
    es_currentLength es' = length w + n \<and>
    match_ok tb (w @ take n (toString s)) (es_mostRecentMatch es')"
  using assms
proof (induction tb es w s rule: named_loop.induct)
  case (1 tb es w s)
  show ?case
  proof (cases "toString s")
    case Nil
    with 1 show ?thesis
      by (intro exI[of _ 0] exI[of _ es]) (simp add: named_loop.simps isEmpty_iff search_for_def)
  next
    case (Cons c cs)
    have ne: "\<not> isEmpty s" and cur: "the (current s) = c"
      using 1 Cons by (simp_all add: isEmpty_iff current_toString)
    let ?es = "search_advance tb c es"
    note adv = search_advance_spec[OF "1.prems"(1,3), of c, folded entity_prefix_def]
    show ?thesis
    proof (cases "entity_prefix tb (w @ [c])")
      case True
      with adv have es: "search_for tb (w @ [c]) ?es" "isEntityPrefix ?es" by auto
      have wf: "ss_wf (advance s)" and cs: "toString (advance s) = cs"
        using "1.prems" Cons by (simp_all add: wf_advance)
      from "1.IH"[OF ne refl refl] es "1.prems"(1) wf obtain n es' where n: "n \<le> length cs"
        "named_loop tb ?es (w @ [c]) (advance s) = (es', (w @ [c]) @ take n cs, (advance ^^ n) (advance s))"
        "0 < n \<longrightarrow> entity_prefix tb ((w @ [c]) @ take n cs)"
        "n < length cs \<longrightarrow> \<not> entity_prefix tb ((w @ [c]) @ take (Suc n) cs)"
        "es_currentLength es' = length (w @ [c]) + n"
        "match_ok tb ((w @ [c]) @ take n cs) (es_mostRecentMatch es')"
        unfolding cs cur by auto
      have "named_loop tb es w s = named_loop tb ?es (w @ [c]) (advance s)"
        using ne es(2) cur by (subst named_loop.simps) (simp add: Let_def)
      with n True Cons show ?thesis
        by (intro exI[of _ "Suc n"] exI[of _ es'])
          (cases n; simp add: funpow_swap1)
    next
      case False
      with adv have f: "?es = search_fail es" by auto
      have "named_loop tb es w s = (search_fail es, w, s)"
        using ne f cur by (subst named_loop.simps) (simp add: Let_def isEntityPrefix_def search_fail_def)
      with False "1.prems" Cons show ?thesis
        by (intro exI[of _ 0] exI[of _ "search_fail es"]) (simp add: search_for_def search_fail_def)
    qed
  qed
qed


text \<open>
  A source in which a reference can be parsed again: two pushed characters are the beginning of
  a reference, so they are consumed together.
\<close>

definition charref_ok :: "entityTable \<Rightarrow> segmentedString \<Rightarrow> bool" where
  "charref_ok tb s \<longleftrightarrow> (ss_pushedChar2 s \<noteq> 0 \<longrightarrow>
     (if ss_pushedChar1 s = 0x23
      then ss_pushedChar2 s = 0x78 \<or> ss_pushedChar2 s = 0x58 \<or>
           (0x30 \<le> ss_pushedChar2 s \<and> ss_pushedChar2 s \<le> 0x39)
      else entity_prefix tb [ss_pushedChar1 s, ss_pushedChar2 s]))"

text \<open>What every result of the parser satisfies, for a source \<open>s\<close>.\<close>

definition charref_post :: "entityTable \<Rightarrow> segmentedString \<Rightarrow> entityResult \<Rightarrow> bool" where
  "charref_post tb s r \<longleftrightarrow> no_amp (er_source r) \<and>
     (if er_success r
      then \<not> er_notEnoughCharacters r \<and> ss_wf (er_source r) \<and>
        ss_closed (er_source r) = ss_closed s \<and>
        (\<exists>n > 0. n \<le> length (toString s) \<and> toString (er_source r) = drop n (toString s) \<and>
           numberOfCharactersConsumed (er_source r) = numberOfCharactersConsumed s + int n)
      else restored s (er_source r) \<and> er_decoded r = [] \<and>
        (er_notEnoughCharacters r \<longrightarrow> charref_ok tb (er_source r)))"

lemma entity_prefix_take:
  assumes "\<not> entity_prefix tb (take (Suc n) T)" and "n < length T"
    and "i < length (tb_entries tb)" and "prefix (entryName tb i) T"
  shows "prefix (entryName tb i) (take n T)"
proof -
  obtain r where T: "T = entryName tb i @ r" using assms(4) by (auto simp: prefix_def)
  have "length (entryName tb i) \<le> n"
  proof (rule ccontr)
    assume "\<not> length (entryName tb i) \<le> n"
    then have "take (Suc n) T = take (Suc n) (entryName tb i)" by (simp add: T)
    then have "prefix (take (Suc n) T) (entryName tb i)" by (simp add: take_is_prefix)
    with assms show False by (auto simp: entity_prefix_def)
  qed
  then show ?thesis by (simp add: T)
qed

lemma pushed_head:
  assumes "ss_wf s" and "ss_pushedChar2 s \<noteq> 0"
  shows "\<exists>r. toString s = ss_pushedChar1 s # ss_pushedChar2 s # r"
  using assms by (auto simp: ss_wf_def toString_def)

lemma succeeded:
  assumes "ss_wf s" and "no_amp s" and "0 < k" and "k \<le> length (toString s)"
    and "er_source r = (advance ^^ k) u" and "restored s u" and "no_amp u"
    and "er_success r" and "\<not> er_notEnoughCharacters r"
  shows "charref_post tb s r"
  using assms unfolding charref_post_def restored_def
  by (auto simp: no_amp_steps seg.steps_ok seg.steps_contents seg.steps_position closed_steps)

lemma restored_refl: "ss_wf s \<Longrightarrow> restored s s"
  by (simp add: restored_def)

lemma restored_trans: "restored s u \<Longrightarrow> restored u v \<Longrightarrow> restored s v"
  by (simp add: restored_def)

text \<open>How the loop of a named reference ends: \<open>n\<close> characters consumed, the search in \<open>es\<close>.\<close>

definition named_run :: "entityTable \<Rightarrow> segmentedString \<Rightarrow> nat \<Rightarrow> entitySearch \<Rightarrow> bool" where
  "named_run tb s n es \<longleftrightarrow> n \<le> length (toString s) \<and>
     named_loop tb (HTMLEntitySearch tb) [] s = (es, take n (toString s), (advance ^^ n) s) \<and>
     (0 < n \<longrightarrow> entity_prefix tb (take n (toString s))) \<and>
     (n < length (toString s) \<longrightarrow> \<not> entity_prefix tb (take (Suc n) (toString s))) \<and>
     es_currentLength es = n \<and> match_ok tb (take n (toString s)) (es_mostRecentMatch es)"

lemma named_run_exists:
  assumes "entityTable_ok tb" and "ss_wf s"
  shows "\<exists>n es. named_run tb s n es"
  using named_loop_spec[OF assms search_for_initial[OF assms(1)]] by (auto simp: named_run_def)

lemma named_run_unconsume:
  assumes ok: "entityTable_ok tb" and wf: "ss_wf s" and amp: "no_amp s" and co: "charref_ok tb s"
    and T: "toString s = c # cs" and c: "c \<noteq> 0x23" and run: "named_run tb s n es"
  defines "u \<equiv> unconsumeCharacters (take n (toString s)) ((advance ^^ n) s)"
  shows "restored s u" and "no_amp u" and "n = length (toString s) \<Longrightarrow> charref_ok tb u"
    and "0 \<notin> set (take n (toString s))" and "0x26 \<notin> set (take n (toString s))"
proof -
  have n: "n \<le> length (toString s)" and px: "0 < n \<longrightarrow> entity_prefix tb (take n (toString s))"
    and stop: "n < length (toString s) \<longrightarrow> \<not> entity_prefix tb (take (Suc n) (toString s))"
    using run by (auto simp: named_run_def)
  show sp: "0 \<notin> set (take n (toString s))" "0x26 \<notin> set (take n (toString s))"
    using px entity_prefix_not_special[OF ok] by (cases "n = 0"; simp)+
  have one: "n = 1 \<longrightarrow> ss_pushedChar2 s = 0"
  proof (intro impI, rule ccontr)
    assume n1: "n = 1" and p: "ss_pushedChar2 s \<noteq> 0"
    from pushed_head[OF wf p] T c co p stop n1 show False by (auto simp: charref_ok_def)
  qed
  note r = unconsume_restores[OF wf n sp(1) one, folded u_def]
  show "restored s u" "no_amp u" using r(1) r(2)[OF amp sp(2)] .
  show "charref_ok tb u" if "n = length (toString s)"
  proof -
    have "0 < n" using that T by simp
    with r(3) px that T c show ?thesis by (auto simp: charref_ok_def)
  qed
qed

lemma named_match:
  assumes ok: "entityTable_ok tb" and run: "named_run tb s n es" and k: "es_mostRecentMatch es = Some k"
  shows "k < length (tb_entries tb)" and "2 \<le> length (entryName tb k)" and "length (entryName tb k) \<le> n"
    and "prefix (entryName tb k) (toString s)"
    and "set (take (length (entryName tb k)) (toString s)) \<subseteq> set (take n (toString s))"
    and "n < length (toString s) \<Longrightarrow> i < length (tb_entries tb) \<Longrightarrow>
      prefix (entryName tb i) (toString s) \<Longrightarrow> length (entryName tb i) \<le> length (entryName tb k)"
proof -
  have m: "match_ok tb (take n (toString s)) (Some k)" and n: "n \<le> length (toString s)"
    using run k by (simp_all add: named_run_def)
  then show a: "k < length (tb_entries tb)" by (simp add: match_ok_def)
  have b: "prefix (entryName tb k) (take n (toString s))" using m by (simp add: match_ok_def)
  show "2 \<le> length (entryName tb k)" by (rule entry_length[OF ok a])
  show l: "length (entryName tb k) \<le> n" using prefix_length_le[OF b] n by simp
  show "prefix (entryName tb k) (toString s)" using b take_is_prefix prefix_order.trans by blast
  show "set (take (length (entryName tb k)) (toString s)) \<subseteq> set (take n (toString s))"
    using l by (rule set_take_subset_set_take)
  show "length (entryName tb i) \<le> length (entryName tb k)"
    if "n < length (toString s)" "i < length (tb_entries tb)" "prefix (entryName tb i) (toString s)"
    using entity_prefix_take[of tb n "toString s" i] that run m by (simp add: named_run_def match_ok_def)
qed

text \<open>The three ways \<open>consumeNamedEntity\<close> ends.\<close>

definition named_match_result :: "entityTable \<Rightarrow> uchar \<Rightarrow> nat \<Rightarrow> ustring \<Rightarrow> segmentedString \<Rightarrow> entityResult" where
  "named_match_result tb al k consumed source =
     (if last (entryName tb k) = 0x3B \<or> al = 0 \<or>
         \<not> (isAlphaNumeric (the (current source)) \<or> the (current source) = 0x3D)
      then \<lparr>er_success = True, er_decoded = decodedEntity (tb_entries tb ! k),
            er_notEnoughCharacters = False, er_source = source\<rparr>
      else \<lparr>er_success = False, er_decoded = [], er_notEnoughCharacters = False,
            er_source = unconsumeCharacters consumed source\<rparr>)"

lemma consumeNamedEntity_cases:
  assumes wf: "ss_wf s" and ok: "entityTable_ok tb" and run: "named_run tb s n es"
    and u: "restored s (unconsumeCharacters (take n (toString s)) ((advance ^^ n) s))" (is "restored s ?u")
  obtains (failed) b where "consumeNamedEntity tb al s = \<lparr>er_success = False, er_decoded = [],
      er_notEnoughCharacters = b, er_source = ?u\<rparr>" and "b \<longrightarrow> n = length (toString s)"
  | (matched) k v where "n < length (toString s)" and "es_mostRecentMatch es = Some k"
      and "v = s \<or> v = ?u" and "consumeNamedEntity tb al s = named_match_result tb al k
        (take (length (entryName tb k)) (toString s)) ((advance ^^ length (entryName tb k)) v)"
proof -
  let ?T = "toString s"
  have n: "n \<le> length ?T" and len: "es_currentLength es = n"
    and loop: "named_loop tb (HTMLEntitySearch tb) [] s = (es, take n ?T, (advance ^^ n) s)"
    using run by (simp_all add: named_run_def)
  have empty: "isEmpty ((advance ^^ n) s) \<longleftrightarrow> n = length ?T"
    using n by (auto simp: isEmpty_iff seg.steps_ok[OF wf] seg.steps_contents[OF wf])
  show thesis
  proof (cases "n = length ?T \<or> es_mostRecentMatch es = None")
    case True
    then show thesis
      using failed[of "n = length ?T"] empty by (auto simp: consumeNamedEntity_def loop)
  next
    case False
    then obtain k where k: "es_mostRecentMatch es = Some k" by auto
    let ?k = "length (entryName tb k)"
    have ac: "advance_count ?k ?u = (take ?k ?T, (advance ^^ ?k) ?u)"
      using u named_match(3)[OF ok run k] n advance_count_chars[of ?u ?k] advance_count_steps[of ?k ?u]
      by (metis (no_types, lifting) le_trans prod.collapse restored_def)
    show thesis
      using False k n empty ac matched[of k "if ?k = n then s else ?u"]
      by (cases "?k = n")
        (simp_all add: consumeNamedEntity_def loop len named_match_result_def Let_def)
  qed
qed

text \<open>A named reference is the longest entity the source starts with.\<close>

lemma consumeNamedEntity_spec:
  fixes al :: uchar
  assumes ok: "entityTable_ok tb" and wf: "ss_wf s" and amp: "no_amp s" and co: "charref_ok tb s"
    and T: "toString s = c # cs" and c: "c \<noteq> 0x23"
  defines "r \<equiv> consumeNamedEntity tb al s"
  shows "charref_post tb s r"
    and "er_success r \<Longrightarrow> \<exists>m < length (tb_entries tb). er_decoded r = decodedEntity (tb_entries tb ! m) \<and>
      prefix (entryName tb m) (toString s) \<and>
      toString (er_source r) = drop (length (entryName tb m)) (toString s) \<and>
      (\<forall>i < length (tb_entries tb). prefix (entryName tb i) (toString s) \<longrightarrow>
         length (entryName tb i) \<le> length (entryName tb m))"
proof -
  obtain n es where run: "named_run tb s n es" using named_run_exists[OF ok wf] by blast
  note u = named_run_unconsume[OF ok wf amp co T c run]
  have "charref_post tb s r \<and> (er_success r \<longrightarrow>
      (\<exists>m < length (tb_entries tb). er_decoded r = decodedEntity (tb_entries tb ! m) \<and>
      prefix (entryName tb m) (toString s) \<and>
      toString (er_source r) = drop (length (entryName tb m)) (toString s) \<and>
      (\<forall>i < length (tb_entries tb). prefix (entryName tb i) (toString s) \<longrightarrow>
         length (entryName tb i) \<le> length (entryName tb m))))"
  proof (cases rule: consumeNamedEntity_cases[OF wf ok run u(1), of al, folded r_def])
    case (1 b)
    then show ?thesis using u by (simp add: charref_post_def)
  next
    case (2 k v)
    let ?k = "length (entryName tb k)"
    note M = named_match[OF ok run 2(2)]
    have v: "restored s v" "no_amp v" using 2(3) restored_refl[OF wf] u(1,2) amp by auto
    then have vw: "ss_wf v" "toString v = toString s" by (simp_all add: restored_def)
    have kl: "?k \<le> length (toString s)" using M(3) 2(1) by simp
    have w: "restored v (unconsumeCharacters (take ?k (toString s)) ((advance ^^ ?k) v))"
      "no_amp (unconsumeCharacters (take ?k (toString s)) ((advance ^^ ?k) v))"
      using unconsume_restores[OF vw(1), of ?k] vw(2) M(2,5) kl u(4,5) v(2) by auto
    show ?thesis
    proof (cases "er_success r")
      case True
      then have r: "er_source r = (advance ^^ ?k) v" "\<not> er_notEnoughCharacters r"
        "er_decoded r = decodedEntity (tb_entries tb ! k)"
        using 2(4) by (auto simp: named_match_result_def split: if_splits)
      have "charref_post tb s r"
        using succeeded[OF wf amp _ kl r(1) v True r(2)] entry_length(2)[OF ok M(1)] by simp
      moreover have "toString (er_source r) = drop ?k (toString s)"
        using r(1) seg.steps_contents[OF vw(1), of ?k] vw(2) by simp
      ultimately show ?thesis using r(3) M(1,4,6) 2(1) by blast
    next
      case False
      then show ?thesis
        using 2(4) w(2) restored_trans[OF v(1) w(1)]
        by (auto simp: charref_post_def named_match_result_def split: if_splits)
    qed
  qed
  then show "charref_post tb s r" and "er_success r \<Longrightarrow>
      \<exists>m < length (tb_entries tb). er_decoded r = decodedEntity (tb_entries tb ! m) \<and>
      prefix (entryName tb m) (toString s) \<and>
      toString (er_source r) = drop (length (entryName tb m)) (toString s) \<and>
      (\<forall>i < length (tb_entries tb). prefix (entryName tb i) (toString s) \<longrightarrow>
         length (entryName tb i) \<le> length (entryName tb m))"
    by blast+
qed

subsection \<open>All references\<close>

text \<open>
  Where the loop stands after \<open>k\<close> characters of the reference \<open>T\<close>, per state.
\<close>

fun loop_inv :: "entityState \<Rightarrow> nat \<Rightarrow> ustring \<Rightarrow> bool" where
  "loop_inv Initial k T \<longleftrightarrow> k = 0"
| "loop_inv Number k T \<longleftrightarrow> k = 1 \<and> take 1 T = [0x23]"
| "loop_inv MaybeHexLowerCaseX k T \<longleftrightarrow> k = 2 \<and> take 2 T = [0x23, 0x78]"
| "loop_inv MaybeHexUpperCaseX k T \<longleftrightarrow> k = 2 \<and> take 2 T = [0x23, 0x58]"
| "loop_inv Hex k T \<longleftrightarrow> 2 \<le> k \<and> 0 \<notin> set (take k T) \<and> 0x26 \<notin> set (take k T) \<and>
     (\<exists>x. take 2 T = [0x23, x] \<and> (x = 0x78 \<or> x = 0x58))"
| "loop_inv Decimal k T \<longleftrightarrow> 1 \<le> k \<and> 0 \<notin> set (take k T) \<and> 0x26 \<notin> set (take k T) \<and>
     (\<exists>d. take 2 T = [0x23, d] \<and> 0x30 \<le> d \<and> d \<le> 0x39)"
| "loop_inv Named k T \<longleftrightarrow> k = 0 \<and> hd T \<noteq> 0x23"

lemma charref_ended:
  assumes wf: "ss_wf s" and amp: "no_amp s" and co: "charref_ok tb s" and k: "k = length (toString s)"
    and inv: "loop_inv st k (toString s)" and ne: "toString s \<noteq> []"
  shows "charref_post tb s \<lparr>er_success = False, er_decoded = [], er_notEnoughCharacters = True,
    er_source = unconsumeCharacters (take k (toString s)) ((advance ^^ k) s)\<rparr>"
proof -
  let ?T = "toString s"
  have sp: "0 \<notin> set (take k ?T)" "0x26 \<notin> set (take k ?T)"
    using inv k by (cases st; auto)+
  have one: "k = 1 \<longrightarrow> ss_pushedChar2 s = 0" using k pushed_head[OF wf] by fastforce
  note u = unconsume_restores[OF wf _ sp(1) one]
  let ?u = "unconsumeCharacters (take k ?T) ((advance ^^ k) s)"
  have "charref_ok tb ?u"
    unfolding charref_ok_def
  proof (intro impI)
    assume p: "ss_pushedChar2 ?u \<noteq> 0"
    have "k \<noteq> 0" using k ne by simp
    with u(3) p k have eq: "?T = [ss_pushedChar1 ?u, ss_pushedChar2 ?u]" by simp
    obtain a b where ab: "ss_pushedChar1 ?u = a" "ss_pushedChar2 ?u = b" by blast
    from eq have T: "?T = [a, b]" unfolding ab .
    with k have "k = 2" by simp
    with inv T show "if ss_pushedChar1 ?u = 0x23
      then ss_pushedChar2 ?u = 0x78 \<or> ss_pushedChar2 ?u = 0x58 \<or>
           (0x30 \<le> ss_pushedChar2 ?u \<and> ss_pushedChar2 ?u \<le> 0x39)
      else entity_prefix tb [ss_pushedChar1 ?u, ss_pushedChar2 ?u]"
      unfolding ab by (cases st) auto
  qed
  then show ?thesis using u(1,2) sp(2) amp k by (simp add: charref_post_def)
qed

lemma charref_none:
  "restored s u \<Longrightarrow> no_amp u \<Longrightarrow> charref_post tb s (entityNone u)"
  by (simp add: charref_post_def entityNone_def)

lemma charref_done:
  assumes "ss_wf s" and "no_amp s" and "0 < k" and "k \<le> length (toString s)" and "u = (advance ^^ k) s"
  shows "charref_post tb s (entityDone v u)"
  using assms by (intro succeeded[of s k _ s]) (simp_all add: entityDone_def restored_refl)

lemma take_Suc_nth: "k < length T \<Longrightarrow> drop k T = c # r \<Longrightarrow> take (Suc k) T = take k T @ [c]"
  by (metis append_take_drop_id hd_drop_conv_nth list.sel(1) take_hd_drop)


lemma hex_not_special: "isHexDigit c \<Longrightarrow> c \<noteq> 0 \<and> c \<noteq> 0x26"
  by (auto simp: isHexDigit_def word_le_nat_alt)

lemma digit_not_special: "0x30 \<le> (c :: uchar) \<Longrightarrow> c \<noteq> 0 \<and> c \<noteq> 0x26"
  by (auto simp: word_le_nat_alt)

text \<open>Pushing a number sign back, alone or with the letter after it.\<close>

lemma charref_push_sign:
  assumes wf: "ss_wf s" and amp: "no_amp s" and co: "charref_ok tb s" and T: "toString s = 0x23 # c # r"
    and c: "c \<noteq> 0x78" "c \<noteq> 0x58" "\<not> (0x30 \<le> c \<and> c \<le> 0x39)"
  shows "charref_post tb s (entityNone (push 0x23 (advance s)))"
proof -
  have "ss_pushedChar2 s = 0"
  proof (rule ccontr)
    assume p: "ss_pushedChar2 s \<noteq> 0"
    from pushed_head[OF wf p] T co p c show False by (auto simp: charref_ok_def)
  qed
  then have "ss_pushedChar1 (advance s) = 0" by (rule pushed_after_one[OF _ wf])
  then show ?thesis
    using wf_push[OF wf_advance(1)[OF wf], of "0x23"] T no_amp_advance[OF amp] wf
    by (intro charref_none)
      (simp_all add: restored_def wf_advance position_advance no_amp_def push_def)
qed

lemma charref_push_two:
  assumes wf: "ss_wf s" and amp: "no_amp s" and T: "toString s = 0x23 # x # r"
    and x: "x = 0x78 \<or> x = 0x58"
  shows "charref_post tb s (entityNone (push x (push 0x23 (advance (advance s)))))"
proof -
  let ?v = "advance (advance s)"
  have v: "ss_pushedChar1 ?v = 0" "ss_wf ?v" "toString ?v = r" "ss_closed ?v = ss_closed s"
    "numberOfCharactersConsumed ?v = numberOfCharactersConsumed s + 2"
    using no_pushed_after[OF wf, of 2] T wf
    by (simp_all add: numeral_2_eq_2 wf_advance position_advance)
  then show ?thesis
    using wf_push2[OF v(2), of "0x23" x] x T no_amp_advance[OF no_amp_advance[OF amp]]
    by (intro charref_none) (auto simp: restored_def no_amp_def push_def)
qed

lemma at_char:
  assumes "ss_wf s"
  shows "k < length (toString s) \<Longrightarrow>
      \<not> isEmpty ((advance ^^ k) s) \<and> the (current ((advance ^^ k) s)) = toString s ! k"
    and "length (toString s) \<le> k \<Longrightarrow> isEmpty ((advance ^^ k) s)"
  using assms by (auto simp: isEmpty_iff seg.steps_ok seg.steps_contents current_toString
      Cons_nth_drop_Suc[symmetric])

abbreviation (input) loop_at ::
  "entityTable \<Rightarrow> uchar \<Rightarrow> segmentedString \<Rightarrow> entityState \<Rightarrow> uchar32 \<Rightarrow> nat \<Rightarrow> entityResult" where
  "loop_at tb al s st v k \<equiv>
     consumeCharacterReference_loop tb al st v (take k (toString s)) ((advance ^^ k) s)"

lemma loop_at_end:
  assumes "ss_wf s" and "no_amp s" and "charref_ok tb s" and "toString s \<noteq> []"
    and "loop_inv st (length (toString s)) (toString s)"
  shows "charref_post tb s (loop_at tb al s st v (length (toString s)))"
  using charref_ended[OF assms(1-3) refl assms(5,4)] at_char(2)[OF assms(1)]
  by (subst consumeCharacterReference_loop.simps) simp

lemma digits_loop:
  assumes s: "ss_wf s" "no_amp s" "charref_ok tb s" "toString s \<noteq> []"
    and st: "st = Hex \<or> st = Decimal"
  shows "k \<le> length (toString s) \<Longrightarrow> loop_inv st k (toString s) \<Longrightarrow>
    charref_post tb s (loop_at tb al s st v k)"
proof (induction "length (toString s) - k" arbitrary: k v)
  case 0
  then show ?case using loop_at_end[OF s, of st al v] by simp
next
  case (Suc n)
  let ?c = "toString s ! k"
  from Suc.hyps(2) have k: "k < length (toString s)" by simp
  note c = at_char(1)[OF s(1) k]
  have step: "take (Suc k) (toString s) = take k (toString s) @ [?c]" using k by (rule take_Suc_conv_app_nth)
  have IH: "charref_post tb s (loop_at tb al s st v' (Suc k))" if "?c \<noteq> 0 \<and> ?c \<noteq> 0x26" for v'
    using Suc.hyps(2) Suc.prems k st that step by (intro Suc.hyps(1)) auto
  have k0: "0 < k" using Suc.prems(2) st by auto
  have fin: "charref_post tb s (entityDone v (advance ((advance ^^ k) s)))"
    "charref_post tb s (entityDone v ((advance ^^ k) s))"
    using charref_done[OF s(1,2), of "Suc k"] charref_done[OF s(1,2), of k] k k0 by simp_all
  from st show ?case
  proof
    assume st: "st = Hex"
    show ?thesis unfolding st
      using c fin IH[unfolded st step] hex_not_special[of ?c]
      by (subst consumeCharacterReference_loop.simps) (simp add: Let_def)
  next
    assume st: "st = Decimal"
    show ?thesis unfolding st
      using c fin IH[unfolded st step] digit_not_special[of ?c]
      by (subst consumeCharacterReference_loop.simps) (simp add: Let_def)
  qed
qed

lemma number_loop:
  assumes s: "ss_wf s" "no_amp s" "charref_ok tb s" and T: "toString s = 0x23 # r"
  shows "charref_post tb s (loop_at tb al s Number v 1)"
proof (cases r)
  case Nil
  with T loop_at_end[OF s, of Number al v] show ?thesis by simp
next
  case (Cons c r')
  have ne: "toString s \<noteq> []" using T by simp
  have T2: "toString s = 0x23 # c # r'" using T Cons by simp
  have c: "\<not> isEmpty (advance s) \<and> the (current (advance s)) = c"
    using at_char(1)[OF s(1), of 1] T Cons by simp
  have dec: "charref_post tb s (loop_at tb al s Decimal v 1)" if "0x30 \<le> c \<and> c \<le> 0x39"
    using that T2 by (intro digits_loop[OF s ne]) auto
  have two: "(advance ^^ 2) s = advance (advance s)" by (simp add: numeral_2_eq_2)
  have hex: "charref_post tb s (consumeCharacterReference_loop tb al m v [0x23, c] (advance (advance s)))"
    if m: "m = MaybeHexLowerCaseX \<and> c = 0x78 \<or> m = MaybeHexUpperCaseX \<and> c = 0x58" for m
  proof (cases r')
    case Nil
    with T2 m loop_at_end[OF s ne, of m al v] two show ?thesis by (auto simp: eval_nat_numeral)
  next
    case (Cons d r'')
    have d: "\<not> isEmpty (advance (advance s)) \<and> the (current (advance (advance s))) = d"
      using at_char(1)[OF s(1), of 2] T2 Cons two by simp
    have hx: "charref_post tb s (consumeCharacterReference_loop tb al Hex v [0x23, c] (advance (advance s)))"
      using digits_loop[OF s ne, of Hex 2 al v] m T2 two by auto
    have pu: "charref_post tb s (entityNone (push c (push 0x23 (advance (advance s)))))"
      using charref_push_two[OF s(1,2) T2] m by blast
    from m show ?thesis
      using d hx pu by (elim disjE conjE; subst consumeCharacterReference_loop.simps; simp add: Let_def)
  qed
  have "take 1 (toString s) = [0x23]" using T by simp
  then show ?thesis
    using c dec hex[of MaybeHexLowerCaseX] hex[of MaybeHexUpperCaseX] charref_push_sign[OF s T2]
    by (subst consumeCharacterReference_loop.simps) (simp add: Let_def)
qed

text \<open>
  The parser as a whole. On success it consumed at least one character; otherwise the source
  has its text and position back, and if more input is needed the parse can be repeated.
\<close>

lemma consumeHTMLEntity_spec:
  assumes ok: "entityTable_ok tb" and s: "ss_wf s" "no_amp s" "charref_ok tb s" and ne: "toString s \<noteq> []"
  shows "charref_post tb s (consumeHTMLEntity tb al s)"
proof -
  from ne obtain c r where T: "toString s = c # r" by (cases "toString s") auto
  have c: "\<not> isEmpty s" "the (current s) = c" using at_char(1)[OF s(1), of 0] T by simp_all
  have none: "charref_post tb s (entityNone s)" using s by (intro charref_none restored_refl)
  have num: "charref_post tb s (consumeCharacterReference_loop tb al Number 0 [c] (advance s))" if "c = 0x23"
    using number_loop[OF s, of r al 0] T that by simp
  have named: "charref_post tb s (consumeCharacterReference_loop tb al Named 0 [] s)" if "c \<noteq> 0x23"
    using consumeNamedEntity_spec(1)[OF ok s T that] c
    by (subst consumeCharacterReference_loop.simps) simp
  show ?thesis
    using c none num named unfolding consumeHTMLEntity_def
    by (subst consumeCharacterReference_loop.simps) (auto simp: Let_def)
qed

end
