(* ===== verification/HTML_Tokenizer_Invariant.thy ===== *)
theory HTML_Tokenizer_Invariant
  imports HTML_Tokenizer HTML_Entity_Correct
begin

section \<open>The HTML tokenizer: invariant and progress\<close>

text \<open>
  Each state expects a kind of token (\<open>state_kind\<close>, \<open>kind_ok\<close>): none or characters in the text states,
  none just after a less-than sign, a tag with a current attribute while a value is read, and
  so on. The machine keeps that relation, so no assertion on the token fails and no null
  pointer is followed, and every jump either consumes a character or goes to a state of lower
  \<open>state_rank\<close>, so it ends.
\<close>

subsection \<open>Kinds of states\<close>

datatype kind = TextK | OpenK | TagK | AttributeK | CommentK | DoctypeK | PublicK | SystemK

primrec state_kind :: "tokenizerState \<Rightarrow> kind" where
  "state_kind DataState = TextK"
| "state_kind CharacterReferenceInDataState = TextK"
| "state_kind RCDATAState = TextK"
| "state_kind CharacterReferenceInRCDATAState = TextK"
| "state_kind RAWTEXTState = TextK"
| "state_kind ScriptDataState = TextK"
| "state_kind PLAINTEXTState = TextK"
| "state_kind TagOpenState = OpenK"
| "state_kind EndTagOpenState = OpenK"
| "state_kind TagNameState = TagK"
| "state_kind RCDATALessThanSignState = TextK"
| "state_kind RCDATAEndTagOpenState = TextK"
| "state_kind RCDATAEndTagNameState = TextK"
| "state_kind RAWTEXTLessThanSignState = TextK"
| "state_kind RAWTEXTEndTagOpenState = TextK"
| "state_kind RAWTEXTEndTagNameState = TextK"
| "state_kind ScriptDataLessThanSignState = TextK"
| "state_kind ScriptDataEndTagOpenState = TextK"
| "state_kind ScriptDataEndTagNameState = TextK"
| "state_kind ScriptDataEscapeStartState = TextK"
| "state_kind ScriptDataEscapeStartDashState = TextK"
| "state_kind ScriptDataEscapedState = TextK"
| "state_kind ScriptDataEscapedDashState = TextK"
| "state_kind ScriptDataEscapedDashDashState = TextK"
| "state_kind ScriptDataEscapedLessThanSignState = TextK"
| "state_kind ScriptDataEscapedEndTagOpenState = TextK"
| "state_kind ScriptDataEscapedEndTagNameState = TextK"
| "state_kind ScriptDataDoubleEscapeStartState = TextK"
| "state_kind ScriptDataDoubleEscapedState = TextK"
| "state_kind ScriptDataDoubleEscapedDashState = TextK"
| "state_kind ScriptDataDoubleEscapedDashDashState = TextK"
| "state_kind ScriptDataDoubleEscapedLessThanSignState = TextK"
| "state_kind ScriptDataDoubleEscapeEndState = TextK"
| "state_kind BeforeAttributeNameState = TagK"
| "state_kind AttributeNameState = AttributeK"
| "state_kind AfterAttributeNameState = AttributeK"
| "state_kind BeforeAttributeValueState = AttributeK"
| "state_kind AttributeValueDoubleQuotedState = AttributeK"
| "state_kind AttributeValueSingleQuotedState = AttributeK"
| "state_kind AttributeValueUnquotedState = AttributeK"
| "state_kind CharacterReferenceInAttributeValueState = AttributeK"
| "state_kind AfterAttributeValueQuotedState = TagK"
| "state_kind SelfClosingStartTagState = TagK"
| "state_kind BogusCommentState = OpenK"
| "state_kind ContinueBogusCommentState = CommentK"
| "state_kind MarkupDeclarationOpenState = OpenK"
| "state_kind CommentStartState = CommentK"
| "state_kind CommentStartDashState = CommentK"
| "state_kind CommentState = CommentK"
| "state_kind CommentEndDashState = CommentK"
| "state_kind CommentEndState = CommentK"
| "state_kind CommentEndBangState = CommentK"
| "state_kind DOCTYPEState = OpenK"
| "state_kind BeforeDOCTYPENameState = OpenK"
| "state_kind DOCTYPENameState = DoctypeK"
| "state_kind AfterDOCTYPENameState = DoctypeK"
| "state_kind AfterDOCTYPEPublicKeywordState = DoctypeK"
| "state_kind BeforeDOCTYPEPublicIdentifierState = DoctypeK"
| "state_kind DOCTYPEPublicIdentifierDoubleQuotedState = PublicK"
| "state_kind DOCTYPEPublicIdentifierSingleQuotedState = PublicK"
| "state_kind AfterDOCTYPEPublicIdentifierState = DoctypeK"
| "state_kind BetweenDOCTYPEPublicAndSystemIdentifiersState = DoctypeK"
| "state_kind AfterDOCTYPESystemKeywordState = DoctypeK"
| "state_kind BeforeDOCTYPESystemIdentifierState = DoctypeK"
| "state_kind DOCTYPESystemIdentifierDoubleQuotedState = SystemK"
| "state_kind DOCTYPESystemIdentifierSingleQuotedState = SystemK"
| "state_kind AfterDOCTYPESystemIdentifierState = DoctypeK"
| "state_kind BogusDOCTYPEState = DoctypeK"
| "state_kind CDATASectionState = TextK"
| "state_kind CDATASectionRightSquareBracketState = TextK"
| "state_kind CDATASectionDoubleRightSquareBracketState = TextK"

text \<open>A jump without consuming a character lowers the rank.\<close>

primrec state_rank :: "tokenizerState \<Rightarrow> nat" where
  "state_rank DataState = 0"
| "state_rank CharacterReferenceInDataState = 1"
| "state_rank RCDATAState = 0"
| "state_rank CharacterReferenceInRCDATAState = 1"
| "state_rank RAWTEXTState = 0"
| "state_rank ScriptDataState = 0"
| "state_rank PLAINTEXTState = 0"
| "state_rank TagOpenState = 2"
| "state_rank EndTagOpenState = 2"
| "state_rank TagNameState = 1"
| "state_rank RCDATALessThanSignState = 1"
| "state_rank RCDATAEndTagOpenState = 1"
| "state_rank RCDATAEndTagNameState = 1"
| "state_rank RAWTEXTLessThanSignState = 1"
| "state_rank RAWTEXTEndTagOpenState = 1"
| "state_rank RAWTEXTEndTagNameState = 1"
| "state_rank ScriptDataLessThanSignState = 1"
| "state_rank ScriptDataEndTagOpenState = 1"
| "state_rank ScriptDataEndTagNameState = 1"
| "state_rank ScriptDataEscapeStartState = 1"
| "state_rank ScriptDataEscapeStartDashState = 1"
| "state_rank ScriptDataEscapedState = 1"
| "state_rank ScriptDataEscapedDashState = 1"
| "state_rank ScriptDataEscapedDashDashState = 1"
| "state_rank ScriptDataEscapedLessThanSignState = 2"
| "state_rank ScriptDataEscapedEndTagOpenState = 2"
| "state_rank ScriptDataEscapedEndTagNameState = 2"
| "state_rank ScriptDataDoubleEscapeStartState = 2"
| "state_rank ScriptDataDoubleEscapedState = 1"
| "state_rank ScriptDataDoubleEscapedDashState = 1"
| "state_rank ScriptDataDoubleEscapedDashDashState = 1"
| "state_rank ScriptDataDoubleEscapedLessThanSignState = 2"
| "state_rank ScriptDataDoubleEscapeEndState = 2"
| "state_rank BeforeAttributeNameState = 1"
| "state_rank AttributeNameState = 1"
| "state_rank AfterAttributeNameState = 1"
| "state_rank BeforeAttributeValueState = 2"
| "state_rank AttributeValueDoubleQuotedState = 1"
| "state_rank AttributeValueSingleQuotedState = 1"
| "state_rank AttributeValueUnquotedState = 1"
| "state_rank CharacterReferenceInAttributeValueState = 2"
| "state_rank AfterAttributeValueQuotedState = 2"
| "state_rank SelfClosingStartTagState = 2"
| "state_rank BogusCommentState = 1"
| "state_rank ContinueBogusCommentState = 0"
| "state_rank MarkupDeclarationOpenState = 2"
| "state_rank CommentStartState = 0"
| "state_rank CommentStartDashState = 0"
| "state_rank CommentState = 0"
| "state_rank CommentEndDashState = 0"
| "state_rank CommentEndState = 0"
| "state_rank CommentEndBangState = 0"
| "state_rank DOCTYPEState = 1"
| "state_rank BeforeDOCTYPENameState = 0"
| "state_rank DOCTYPENameState = 0"
| "state_rank AfterDOCTYPENameState = 0"
| "state_rank AfterDOCTYPEPublicKeywordState = 0"
| "state_rank BeforeDOCTYPEPublicIdentifierState = 0"
| "state_rank DOCTYPEPublicIdentifierDoubleQuotedState = 0"
| "state_rank DOCTYPEPublicIdentifierSingleQuotedState = 0"
| "state_rank AfterDOCTYPEPublicIdentifierState = 0"
| "state_rank BetweenDOCTYPEPublicAndSystemIdentifiersState = 0"
| "state_rank AfterDOCTYPESystemKeywordState = 0"
| "state_rank BeforeDOCTYPESystemIdentifierState = 0"
| "state_rank DOCTYPESystemIdentifierDoubleQuotedState = 0"
| "state_rank DOCTYPESystemIdentifierSingleQuotedState = 0"
| "state_rank AfterDOCTYPESystemIdentifierState = 0"
| "state_rank BogusDOCTYPEState = 0"
| "state_rank CDATASectionState = 1"
| "state_rank CDATASectionRightSquareBracketState = 2"
| "state_rank CDATASectionDoubleRightSquareBracketState = 2"

definition doctype_with :: "(doctypeData \<Rightarrow> bool) \<Rightarrow> token \<Rightarrow> bool" where
  "doctype_with p tk \<longleftrightarrow> tk_type tk = DOCTYPE \<and> (\<exists>d. tk_doctypeData tk = Some d \<and> p d)"

fun kind_ok :: "kind \<Rightarrow> token \<Rightarrow> bool" where
  "kind_ok TextK tk \<longleftrightarrow> tk_type tk = Uninitialized \<or> tk_type tk = Character"
| "kind_ok OpenK tk \<longleftrightarrow> tk_type tk = Uninitialized"
| "kind_ok TagK tk \<longleftrightarrow> isTag tk"
| "kind_ok AttributeK tk \<longleftrightarrow> isTag tk \<and>
     (\<exists>i. tk_currentAttribute tk = Some i \<and> i < length (tk_attributes tk))"
| "kind_ok CommentK tk \<longleftrightarrow> tk_type tk = Comment"
| "kind_ok DoctypeK tk \<longleftrightarrow> doctype_with (\<lambda>d. True) tk"
| "kind_ok PublicK tk \<longleftrightarrow> doctype_with dt_hasPublicIdentifier tk"
| "kind_ok SystemK tk \<longleftrightarrow> doctype_with dt_hasSystemIdentifier tk"

definition good :: "kind \<Rightarrow> token \<Rightarrow> bool" where
  "good k tk \<longleftrightarrow> tk_sound tk \<and> kind_ok k tk"

named_theorems token_rules

lemmas token_ops = assertT_def beginStartTag_def beginEndTag_def ensureIsCharacterToken_def
  beginComment_def beginDOCTYPE_def beginDOCTYPE_char_def appendToCharacter_def appendToComment_def
  addNewAttribute_def beginAttributeName_def endAttributeName_def beginAttributeValue_def
  endAttributeValue_def appendToAttributeName_def appendToAttributeValue_def setSelfClosing_def
  setForceQuirks_def setPublicIdentifierToEmptyString_def setSystemIdentifierToEmptyString_def
  appendToPublicIdentifier_def appendToSystemIdentifier_def appendToName_def updateCurrent_def
  updateDoctype_def isTag_def doctype_with_def good_def

lemma good_weaken:
  "good OpenK tk \<Longrightarrow> good TextK tk" "good AttributeK tk \<Longrightarrow> good TagK tk"
  "good PublicK tk \<Longrightarrow> good DoctypeK tk" "good SystemK tk \<Longrightarrow> good DoctypeK tk"
  by (auto simp: token_ops)

lemma good_begin [token_rules]:
  "good OpenK tk \<Longrightarrow> good TagK (beginStartTag c tk)"
  "good OpenK tk \<Longrightarrow> good TagK (beginEndTag cs tk)"
  "good OpenK tk \<Longrightarrow> good CommentK (beginComment tk)"
  "good OpenK tk \<Longrightarrow> good DoctypeK (beginDOCTYPE tk)"
  "good OpenK tk \<Longrightarrow> good DoctypeK (beginDOCTYPE_char c tk)"
  by (simp_all add: token_ops Let_def)

lemma good_tag [token_rules]:
  "good TagK tk \<Longrightarrow> good TagK (appendToName c tk)"
  "good TagK tk \<Longrightarrow> good TagK (setSelfClosing tk)"
  "good TagK tk \<Longrightarrow> good AttributeK (addNewAttribute tk)"
  by (auto simp: token_ops)

lemma good_attribute [token_rules]:
  "good AttributeK tk \<Longrightarrow> good AttributeK (beginAttributeName n tk)"
  "good AttributeK tk \<Longrightarrow> good AttributeK (endAttributeName n tk)"
  "good AttributeK tk \<Longrightarrow> good AttributeK (beginAttributeValue n tk)"
  "good AttributeK tk \<Longrightarrow> good AttributeK (endAttributeValue n tk)"
  "good AttributeK tk \<Longrightarrow> good AttributeK (appendToAttributeName c tk)"
  "good AttributeK tk \<Longrightarrow> good AttributeK (appendToAttributeValue c tk)"
  by (auto simp: token_ops Let_def)

lemma good_attribute_fold [token_rules]:
  "good AttributeK tk \<Longrightarrow> good AttributeK (fold appendToAttributeValue cs tk)"
  by (induction cs arbitrary: tk) (simp_all add: good_attribute)

lemma good_comment [token_rules]:
  "good CommentK tk \<Longrightarrow> good CommentK (appendToComment c tk)"
  by (simp add: token_ops)

lemma good_comment_fold [token_rules]:
  "good CommentK tk \<Longrightarrow> good CommentK (fold appendToComment cs tk)"
  by (induction cs arbitrary: tk) (simp_all add: good_comment)

lemma good_doctype [token_rules]:
  "good DoctypeK tk \<Longrightarrow> good DoctypeK (setForceQuirks tk)"
  "good DoctypeK tk \<Longrightarrow> good PublicK (setPublicIdentifierToEmptyString tk)"
  "good DoctypeK tk \<Longrightarrow> good SystemK (setSystemIdentifierToEmptyString tk)"
  "good DoctypeK tk \<Longrightarrow> good DoctypeK (appendToName c tk)"
  "good PublicK tk \<Longrightarrow> good PublicK (appendToPublicIdentifier c tk)"
  "good SystemK tk \<Longrightarrow> good SystemK (appendToSystemIdentifier c tk)"
  by (auto simp: token_ops)

lemma good_text:
  "good TextK tk \<Longrightarrow> good TextK (appendToCharacter cs (ensureIsCharacterToken tk))"
  "good TextK tk \<Longrightarrow> tk_type (appendToCharacter cs (ensureIsCharacterToken tk)) = Character"
  by (simp_all add: token_ops)

subsection \<open>The preprocessor\<close>

text \<open>\<open>peek\<close> changes the line number and its own two variables only.\<close>

definition same_core :: "tokenizer \<Rightarrow> tokenizer \<Rightarrow> bool" where
  "same_core t u \<longleftrightarrow> m_state u = m_state t \<and> m_token u = m_token t \<and>
     m_forceNullCharacterReplacement u = m_forceNullCharacterReplacement t \<and>
     m_additionalAllowedCharacter u = m_additionalAllowedCharacter t \<and>
     m_appropriateEndTagName u = m_appropriateEndTagName t \<and>
     m_shouldAllowCDATA u = m_shouldAllowCDATA t \<and> m_temporaryBuffer u = m_temporaryBuffer t \<and>
     m_bufferedEndTagName u = m_bufferedEndTagName t \<and>
     m_usePreHTML5ParserQuirks u = m_usePreHTML5ParserQuirks t"

lemma same_core_refl [simp]: "same_core t t"
  by (simp add: same_core_def)

lemma same_core_trans: "same_core t u \<Longrightarrow> same_core u v \<Longrightarrow> same_core t v"
  by (simp add: same_core_def)

text \<open>
  \<open>behind s u\<close>: the text of \<open>u\<close> is an end of the text of \<open>s\<close>, and its position is as much further.
\<close>

definition behind :: "segmentedString \<Rightarrow> segmentedString \<Rightarrow> bool" where
  "behind s u \<longleftrightarrow> ss_wf u \<and> no_amp u \<and> ss_closed u = ss_closed s \<and> suffix (toString u) (toString s) \<and>
     numberOfCharactersConsumed u + int (length (toString u)) =
       numberOfCharactersConsumed s + int (length (toString s))"

lemma behind_refl: "ss_wf s \<Longrightarrow> no_amp s \<Longrightarrow> behind s s"
  by (simp add: behind_def)

lemma behind_trans: "behind s u \<Longrightarrow> behind u v \<Longrightarrow> behind s v"
  by (auto simp: behind_def intro: suffix_order.trans)

lemma behind_length: "behind s u \<Longrightarrow> length (toString u) \<le> length (toString s)"
  by (auto simp: behind_def dest: suffix_length_le)

text \<open>\<open>passed s u\<close>: in addition, no second pushed character appeared.\<close>

definition passed :: "segmentedString \<Rightarrow> segmentedString \<Rightarrow> bool" where
  "passed s u \<longleftrightarrow> behind s u \<and> (ss_pushedChar2 s = 0 \<longrightarrow> ss_pushedChar2 u = 0)"

lemma passed_behind: "passed s u \<Longrightarrow> behind s u"
  by (simp add: passed_def)

lemma passed_refl: "ss_wf s \<Longrightarrow> no_amp s \<Longrightarrow> passed s s"
  by (simp add: passed_def behind_refl)

lemma passed_trans: "passed s u \<Longrightarrow> passed u v \<Longrightarrow> passed s v"
  by (auto simp: passed_def intro: behind_trans)

lemma no_amp_same_text: "same_text s u \<Longrightarrow> no_amp s \<Longrightarrow> no_amp u"
  by (auto simp: same_text_def no_amp_def)

lemma pushedChar2_advance: "ss_pushedChar2 s = 0 \<Longrightarrow> ss_pushedChar2 (advance s) = 0"
  by (auto simp: advance_slow advanceSlowCase_def dropChar_def advanceSubstring_def Let_def split: list.splits)

lemma position_advance_length:
  assumes "ss_wf s"
  shows "numberOfCharactersConsumed (advance s) + int (length (toString s) - Suc 0) =
    numberOfCharactersConsumed s + int (length (toString s))"
proof (cases "toString s = []")
  case True
  then have "advance s = s" using assms
    by (auto simp: advance_slow advanceSlowCase_def toString_def split: list.splits if_splits)
  with True show ?thesis by simp
next
  case False
  then show ?thesis using position_advance[OF assms False] by (simp add: of_nat_diff Suc_le_eq)
qed

lemma passed_advance:
  assumes "ss_wf s" and "no_amp s"
  shows "passed s (advance s)" and "passed s (snd (advance_line n s))"
    and "toString s \<noteq> [] \<Longrightarrow> length (toString (advance s)) < length (toString s)"
    and "toString s \<noteq> [] \<Longrightarrow> length (toString (snd (advance_line n s))) < length (toString s)"
  using assms no_amp_same_text[OF advance_line_same_text no_amp_advance[OF assms(2)], of n]
    advance_line_same_text[of s n]
  by (auto simp: passed_def behind_def wf_advance no_amp_advance same_text_dests[OF advance_line_same_text]
      same_text_def pushedChar2_advance suffix_tl length_tl position_advance_length)

lemma skipNewLine_spec:
  assumes "ss_wf s" and "no_amp s" and "toString s \<noteq> []" and "skipNewLine t s = (t', s')"
  shows "same_core t t'" and "passed s s'"
proof -
  have c: "current s = Some (the (current s))" using assms by (simp add: current_toString split: list.split)
  show "same_core t t'" "passed s s'"
    using assms(4) advancePastNewline_line[of s "m_lineNumber t"] c
      passed_advance(2)[OF assms(1,2), of "m_lineNumber t"] passed_refl[OF assms(1,2)]
    by (auto simp: skipNewLine_def same_core_def split: if_splits prod.splits)
qed

text \<open>
  When \<open>peek\<close> finds a character the source is not empty, and the character is an ampersand only
  if the source has one; when it finds none the source is empty.
\<close>

definition peek_ok :: "tokenizer \<Rightarrow> segmentedString \<Rightarrow> bool \<times> tokenizer \<times> segmentedString \<Rightarrow> bool" where
  "peek_ok t s r \<longleftrightarrow> (case r of (found, t', s') \<Rightarrow> same_core t t' \<and> passed s s' \<and>
     (found \<longrightarrow> toString s' \<noteq> [] \<and> (m_nextInputCharacter t' = 0x26 \<longrightarrow> current s' = Some 0x26)) \<and>
     (\<not> found \<longrightarrow> toString s' = []))"

lemma peek_spec: "ss_wf s \<Longrightarrow> no_amp s \<Longrightarrow> toString s \<noteq> [] \<Longrightarrow> peek_ok t s (peek t s)"
proof (induction t s rule: peek.induct)
  case (1 t s)
  have c: "current s = Some (the (current s))" using 1 by (simp add: current_toString split: list.split)
  obtain t' s' where sk: "skipNewLine t s = (t', s')" by fastforce
  note S = skipNewLine_spec[OF "1.prems" sk]
  have s': "ss_wf s'" "no_amp s'" using S(2) by (simp_all add: passed_def behind_def)
  let ?t = "t'\<lparr>m_nextInputCharacter := the (current s'), m_skipNextNewLine := False\<rparr>"
  let ?s = "advancePastNonNewline s'"
  have cc: "\<not> isEmpty s' \<Longrightarrow> current s' = Some (the (current s'))" by (auto simp: isEmpty_def)
  have adv: "passed s' ?s" using passed_advance(1)[OF s'] by (simp add: advancePastNonNewline_advance)
  have IH: "peek_ok t s (peek ?t ?s)"
    if "the (current s) AND NOT 0x000F = 0" "\<not> isEmpty s'" "the (current s') \<noteq> 0x0D" "the (current s') = 0"
      "\<not> shouldTreatNullAsEndOfFileMarker s'" "shouldSkipNullCharacters ?t" "\<not> isEmpty ?s"
  proof -
    have w: "ss_wf ?s" "no_amp ?s" using adv by (simp_all add: passed_def behind_def)
    with that have "peek_ok ?t ?s (peek ?t ?s)"
      by (intro "1.IH"[OF refl _ sk[symmetric] _ refl _ refl]) (simp_all add: isEmpty_iff)
    moreover have "same_core t ?t" using S(1) by (simp add: same_core_def)
    ultimately show ?thesis
      using S(2) adv unfolding peek_ok_def by (auto intro: same_core_trans passed_trans)
  qed
  have P: "peek t s =
    (if the (current s) AND NOT 0x000F \<noteq> 0
     then (True, t\<lparr>m_nextInputCharacter := the (current s), m_skipNextNewLine := False\<rparr>, s)
     else if isEmpty s' then (False, t'\<lparr>m_nextInputCharacter := the (current s)\<rparr>, s')
     else if the (current s') = 0x0D
     then (True, t'\<lparr>m_nextInputCharacter := 0x0A, m_skipNextNewLine := True\<rparr>, s')
     else if the (current s') = 0 \<and> \<not> shouldTreatNullAsEndOfFileMarker s'
     then if shouldSkipNullCharacters ?t then if isEmpty ?s then (False, ?t, ?s) else peek ?t ?s
          else (True, ?t\<lparr>m_nextInputCharacter := 0xFFFD\<rparr>, s')
     else (True, ?t, s'))"
    by (subst peek.simps) (simp add: sk Let_def)
  have found: "peek_ok t s (True, u, s')"
    if "same_core t' u" "\<not> isEmpty s'" "m_nextInputCharacter u = 0x26 \<longrightarrow> current s' = Some 0x26" for u
    using that S s' by (auto simp: peek_ok_def isEmpty_iff intro: same_core_trans)
  have ended: "peek_ok t s (False, u, v)" if "same_core t' u" "passed s' v" "isEmpty v" for u v
    using that S by (auto simp: peek_ok_def isEmpty_iff passed_def[of s' v] behind_def[of s' v] intro: same_core_trans passed_trans)
  have fast: "peek_ok t s (True, t\<lparr>m_nextInputCharacter := the (current s), m_skipNextNewLine := False\<rparr>, s)"
    using "1.prems" c passed_refl[OF "1.prems"(1,2)] by (auto simp: peek_ok_def same_core_def)
  have f: "peek_ok t s (True, t'\<lparr>m_nextInputCharacter := 0x0A, m_skipNextNewLine := True\<rparr>, s')"
    "peek_ok t s (True, ?t\<lparr>m_nextInputCharacter := 0xFFFD\<rparr>, s')" "peek_ok t s (True, ?t, s')"
    if "\<not> isEmpty s'"
    using cc[OF that] by (intro found[OF _ that]; auto simp: same_core_def)+
  have e: "isEmpty s' \<Longrightarrow> peek_ok t s (False, t'\<lparr>m_nextInputCharacter := the (current s)\<rparr>, s')"
    "isEmpty ?s \<Longrightarrow> peek_ok t s (False, ?t, ?s)"
    using ended[OF _ passed_refl[OF s']] ended[OF _ adv] by (simp_all add: same_core_def)
  show ?case
    unfolding P using fast f e IH by (auto simp del: word_neq_0_conv)
qed


subsection \<open>The invariant\<close>

definition charref_state :: "tokenizerState \<Rightarrow> bool" where
  "charref_state st \<longleftrightarrow> st = CharacterReferenceInDataState \<or> st = CharacterReferenceInRCDATAState \<or>
     st = CharacterReferenceInAttributeValueState"

definition source_ok :: "tokenizer_env \<Rightarrow> tokenizerState \<Rightarrow> segmentedString \<Rightarrow> bool" where
  "source_ok env st s \<longleftrightarrow> ss_wf s \<and> no_amp s \<and> (charref_state st \<longrightarrow> charref_ok (env_entities env) s)"

definition allowed_ok :: "tokenizer \<Rightarrow> bool" where
  "allowed_ok t \<longleftrightarrow> (m_state t = CharacterReferenceInAttributeValueState \<longrightarrow>
     m_additionalAllowedCharacter t \<in> {0x22, 0x27, 0x3E})"

definition isEndTagNameState :: "tokenizerState \<Rightarrow> bool" where
  "isEndTagNameState s \<longleftrightarrow> s \<in> {RCDATAEndTagNameState, RAWTEXTEndTagNameState,
     ScriptDataEndTagNameState, ScriptDataEscapedEndTagNameState}"

definition buffers_ok :: "tokenizer \<Rightarrow> bool" where
  "buffers_ok t \<longleftrightarrow> (m_bufferedEndTagName t \<noteq> [] \<longleftrightarrow> isEndTagNameState (m_state t))"

text \<open>An end tag seen but not emitted yet, because characters had to be emitted first.\<close>

definition pending :: "tokenizer \<Rightarrow> bool" where
  "pending t \<longleftrightarrow> m_bufferedEndTagName t \<noteq> [] \<and> \<not> isEndTagBufferingState (m_state t)"

text \<open>
  \<open>settled\<close>: between two calls with the token still in progress. \<open>emitted\<close>: a token is complete.
  \<open>running\<close>: inside the machine; at the end of the file the data state takes any token.
\<close>

definition settled :: "tokenizer_env \<Rightarrow> tokenizer \<Rightarrow> segmentedString \<Rightarrow> bool" where
  "settled env t s \<longleftrightarrow> good (state_kind (m_state t)) (m_token t) \<and> buffers_ok t \<and> allowed_ok t \<and>
     source_ok env (m_state t) s"

definition emitted :: "tokenizer_env \<Rightarrow> tokenizer \<Rightarrow> segmentedString \<Rightarrow> bool" where
  "emitted env t s \<longleftrightarrow> tk_sound (m_token t) \<and> tk_type (m_token t) \<noteq> Uninitialized \<and>
     source_ok env (m_state t) s \<and> allowed_ok t \<and>
     (tk_type (m_token t) \<noteq> Character \<longrightarrow> m_state t = DataState \<and> m_bufferedEndTagName t = []) \<and>
     (if pending t then m_state t \<in> {DataState, BeforeAttributeNameState, SelfClosingStartTagState}
      else state_kind (m_state t) = TextK \<and> buffers_ok t)"

definition running :: "tokenizer_env \<Rightarrow> tokenizer \<Rightarrow> segmentedString \<Rightarrow> uchar \<Rightarrow> bool" where
  "running env t s cc \<longleftrightarrow> tk_sound (m_token t) \<and>
     (kind_ok (state_kind (m_state t)) (m_token t) \<or> m_state t = DataState \<and> cc = 0) \<and>
     buffers_ok t \<and> allowed_ok t \<and> source_ok env (m_state t) s \<and> toString s \<noteq> [] \<and>
     (cc = 0x26 \<longrightarrow> current s = Some 0x26)"

definition outcome_ok :: "tokenizer_env \<Rightarrow> tokenizerState \<Rightarrow> segmentedString \<Rightarrow> outcome \<Rightarrow> bool" where
  "outcome_ok env st s r \<longleftrightarrow> (case r of
     Return b t u \<Rightarrow> behind s u \<and> (if b then emitted env t u else settled env t u)
   | Goto t u cc \<Rightarrow> behind s u \<and> running env t u cc \<and>
       (length (toString u) < length (toString s) \<or>
        length (toString u) = length (toString s) \<and> state_rank (m_state t) < state_rank st))"

definition ready :: "segmentedString \<Rightarrow> bool" where
  "ready s \<longleftrightarrow> ss_wf s \<and> no_amp s \<and> toString s \<noteq> []"

subsection \<open>The exits keep the invariant\<close>

lemma good_Character: "good k tk \<Longrightarrow> tk_type tk = Character \<Longrightarrow> k = TextK"
  by (cases k) (auto simp: token_ops)

lemma data_not_buffering [simp]: "\<not> isEndTagNameState DataState" "\<not> isEndTagBufferingState DataState"
  by (simp_all add: isEndTagNameState_def isEndTagBufferingState_def)

lemma endTagName_buffering: "isEndTagNameState st \<Longrightarrow> isEndTagBufferingState st"
  by (auto simp: isEndTagNameState_def isEndTagBufferingState_def)

lemma settled_return:
  assumes "settled env t s"
  shows "if haveBufferedCharacterToken t then emitted env t s else settled env t s"
  using assms good_Character[of "state_kind (m_state t)" "m_token t"] endTagName_buffering
  by (auto simp: settled_def emitted_def haveBufferedCharacterToken_def buffers_ok_def pending_def good_def)

lemma same_core_settled:
  assumes "same_core t u"
  shows "settled env u s \<longleftrightarrow> settled env t s"
  using assms by (simp add: settled_def same_core_def buffers_ok_def allowed_ok_def)

lemma no_second_pushed: "ss_pushedChar2 s = 0 \<Longrightarrow> charref_ok tb s"
  by (simp add: charref_ok_def)

lemma source_ok_passed:
  assumes "source_ok env st s" and "passed s u" and "charref_state st \<longrightarrow> ss_pushedChar2 s = 0"
  shows "source_ok env st u"
  using assms no_second_pushed by (auto simp: source_ok_def passed_def behind_def)

lemma source_ok_empty: "ss_wf s \<Longrightarrow> no_amp s \<Longrightarrow> toString s = [] \<Longrightarrow> source_ok env st s"
  using no_second_pushed[of s] by (auto simp: source_ok_def ss_wf_def toString_def split: if_splits)

text \<open>What follows a \<open>peek\<close> on a source that has made progress.\<close>

lemma afterPeek_ok:
  assumes inv: "settled env t u" and pk: "peek_ok t u r" and bh: "behind s u"
    and no2: "charref_state (m_state t) \<longrightarrow> ss_pushedChar2 u = 0"
    and prog: "length (toString u) < length (toString s) \<or> state_rank (m_state t) < state_rank st"
  shows "outcome_ok env st s (afterPeek r)"
proof -
  obtain found t' u' where r: "r = (found, t', u')" by (cases r)
  have same: "same_core t t'" and ps: "passed u u'" using pk by (simp_all add: peek_ok_def r)
  have su: "source_ok env (m_state t) u'"
    using source_ok_passed[OF _ ps no2] inv by (simp add: settled_def)
  have st: "m_state t' = m_state t" using same by (simp add: same_core_def)
  have inv': "settled env t' u'"
    using inv su same_core_settled[OF same] by (simp add: settled_def)
  have bh': "behind s u'" using bh passed_behind[OF ps] by (rule behind_trans)
  have l: "length (toString u') \<le> length (toString u)" using behind_length[OF passed_behind[OF ps]] .
  have l': "length (toString u) \<le> length (toString s)" using behind_length[OF bh] .
  show ?thesis
  proof (cases found)
    case True
    then have run: "running env t' u' (m_nextInputCharacter t')"
      using inv' pk by (simp add: running_def settled_def good_def peek_ok_def r)
    have "length (toString u') < length (toString s) \<or>
        length (toString u') = length (toString s) \<and> state_rank (m_state t') < state_rank st"
      using prog l l' st by (metis le_neq_implies_less order.strict_trans1 order.trans)
    with True run bh' show ?thesis by (simp add: outcome_ok_def afterPeek_def r)
  next
    case False
    with bh' settled_return[OF inv'] show ?thesis
      by (simp add: outcome_ok_def afterPeek_def r)
  qed
qed

text \<open>The preconditions of entering state \<open>st\<close> with tokenizer \<open>t\<close>.\<close>

definition enters :: "tokenizerState \<Rightarrow> tokenizer \<Rightarrow> bool" where
  "enters st t \<longleftrightarrow> good (state_kind st) (m_token t) \<and>
     (m_bufferedEndTagName t \<noteq> [] \<longleftrightarrow> isEndTagNameState st) \<and>
     (st = CharacterReferenceInAttributeValueState \<longrightarrow>
        m_additionalAllowedCharacter t \<in> {0x22, 0x27, 0x3E})"

lemma enters_settled:
  "enters st t \<Longrightarrow> source_ok env st s \<Longrightarrow> settled env (t\<lparr>m_state := st\<rparr>) s"
  by (auto simp: enters_def settled_def buffers_ok_def allowed_ok_def)

lemma settled_line [simp]: "settled env (t\<lparr>m_lineNumber := n\<rparr>) s = settled env t s"
  by (simp add: settled_def buffers_ok_def allowed_ok_def)

lemma amp_not_pushed:
  assumes "ss_wf s" and "no_amp s" and "current s = Some 0x26"
  shows "ss_pushedChar1 s = 0" and "ss_pushedChar2 s = 0"
  using assms by (auto simp: current_def no_amp_def ss_wf_def split: if_splits)

lemma ADVANCE_TO_ok:
  assumes rd: "ready s" and en: "enters st t" and amp: "charref_state st \<longrightarrow> current s = Some 0x26"
  shows "outcome_ok env st0 s (ADVANCE_TO st t s)"
proof -
  have w: "ss_wf s" "no_amp s" "toString s \<noteq> []" using rd by (simp_all add: ready_def)
  let ?t = "t\<lparr>m_state := st\<rparr>"
  obtain n u where adv: "advance_line (m_lineNumber ?t) s = (n, u)" by fastforce
  have ps: "passed s u" "length (toString u) < length (toString s)"
    using passed_advance(2,4)[OF w(1,2), of "m_lineNumber ?t"] w(3) adv by simp_all
  have u: "ss_wf u" "no_amp u" using ps(1) by (simp_all add: passed_def behind_def)
  have p2: "charref_state st \<longrightarrow> ss_pushedChar2 u = 0"
    using amp amp_not_pushed(2)[OF w(1,2)] ps(1) by (simp add: passed_def)
  have so: "source_ok env st u" using u p2 no_second_pushed by (auto simp: source_ok_def)
  let ?t' = "?t\<lparr>m_lineNumber := n\<rparr>"
  have inv: "settled env ?t' u" using enters_settled[OF en so] by simp
  show ?thesis
  proof (cases "isEmpty u")
    case True
    then have "ADVANCE_TO st t s = Return (haveBufferedCharacterToken ?t') ?t' u"
      using adv by (simp add: ADVANCE_TO_def pp_advance_def afterPeek_def)
    then show ?thesis
      using settled_return[OF inv] passed_behind[OF ps(1)] by (simp add: outcome_ok_def)
  next
    case False
    then have "ADVANCE_TO st t s = afterPeek (peek ?t' u)"
      using adv by (simp add: ADVANCE_TO_def pp_advance_def)
    moreover have "peek_ok ?t' u (peek ?t' u)"
      using u False by (intro peek_spec) (simp_all add: isEmpty_iff)
    ultimately show ?thesis
      using afterPeek_ok[OF inv _ passed_behind[OF ps(1)]] p2 ps(2) by simp
  qed
qed

lemma SWITCH_TO_ok:
  assumes bh: "behind s u" and en: "enters st t" and no: "\<not> charref_state st"
    and prog: "length (toString u) < length (toString s) \<or> state_rank st < state_rank st0"
  shows "outcome_ok env st0 s (SWITCH_TO st t u)"
proof -
  let ?t = "t\<lparr>m_state := st\<rparr>"
  have u: "ss_wf u" "no_amp u" using bh by (simp_all add: behind_def)
  have inv: "settled env ?t u"
    using u no by (intro enters_settled[OF en]) (simp add: source_ok_def)
  show ?thesis
  proof (cases "isEmpty u")
    case True
    then show ?thesis
      using settled_return[OF inv] bh by (simp add: SWITCH_TO_def outcome_ok_def Let_def)
  next
    case False
    have "peek_ok ?t u (peek ?t u)" using u False by (intro peek_spec) (simp_all add: isEmpty_iff)
    with False show ?thesis
      using afterPeek_ok[OF inv _ bh] no prog by (simp add: SWITCH_TO_def)
  qed
qed

lemma RECONSUME_IN_ok:
  assumes bh: "behind s u" "toString u = toString s" and rd: "ready s" and no: "\<not> charref_state st"
    and en: "enters st t" and rk: "state_rank st < state_rank st0"
    and amp: "cc = 0x26 \<longrightarrow> current s = Some 0x26"
  shows "outcome_ok env st0 s (RECONSUME_IN st t u cc)"
proof -
  have "current u = current s" using bh rd by (simp add: current_toString behind_def ready_def)
  then show ?thesis
    using assms by (auto simp: outcome_ok_def RECONSUME_IN_def running_def enters_def good_def
        buffers_ok_def allowed_ok_def source_ok_def ready_def behind_def)
qed

text \<open>At the end of the file the data state takes over with any token.\<close>

lemma RECONSUME_EOF_ok:
  assumes rd: "ready s" and tk: "tk_sound (m_token t)" and bf: "m_bufferedEndTagName t = []"
    and rk: "0 < state_rank st0"
  shows "outcome_ok env st0 s (RECONSUME_IN DataState t s 0)"
  using assms behind_refl[of s]
  by (simp add: outcome_ok_def RECONSUME_IN_def running_def buffers_ok_def allowed_ok_def source_ok_def
      charref_state_def ready_def)


lemma advanceTokenizer_spec:
  assumes "ready s" and "advanceTokenizer t s = (t', u)"
  shows "\<exists>n. t' = t\<lparr>m_lineNumber := n\<rparr>" and "behind s u" and "source_ok env DataState u"
    and "length (toString u) < length (toString s)"
  using assms passed_advance(2,4)[of s "m_lineNumber t"]
  by (auto simp: advanceTokenizer_def passed_def behind_def ready_def source_ok_def charref_state_def
      split: prod.splits)

lemma saveEndTag_core:
  "m_token (saveEndTagNameIfNeeded t) = assertT (tk_type (m_token t) \<noteq> Uninitialized) (m_token t)"
  "m_bufferedEndTagName (saveEndTagNameIfNeeded t) = m_bufferedEndTagName t"
  "m_state (saveEndTagNameIfNeeded t) = m_state t"
  by (simp_all add: saveEndTagNameIfNeeded_def onToken_def Let_def)

lemma emit_ok:
  assumes "ready s" and "tk_sound (m_token t)" and "tk_type (m_token t) \<noteq> Uninitialized"
    and "m_bufferedEndTagName t = []"
  shows "outcome_ok env st0 s (emitAndResumeIn DataState t s)"
    and "outcome_ok env st0 s (emitAndReconsumeIn DataState t s)"
proof -
  let ?t = "(saveEndTagNameIfNeeded t)\<lparr>m_state := DataState\<rparr>"
  obtain t' u where a: "advanceTokenizer ?t s = (t', u)" by fastforce
  note A = advanceTokenizer_spec[OF assms(1) a]
  show "outcome_ok env st0 s (emitAndResumeIn DataState t s)"
    using A(1,2) A(3)[of env] assms
    by (auto simp: emitAndResumeIn_def a outcome_ok_def emitted_def pending_def allowed_ok_def
        buffers_ok_def saveEndTag_core assertT_def)
  show "outcome_ok env st0 s (emitAndReconsumeIn DataState t s)"
    using assms behind_refl[of s]
    by (simp add: emitAndReconsumeIn_def outcome_ok_def emitted_def pending_def allowed_ok_def
        buffers_ok_def saveEndTag_core assertT_def ready_def source_ok_def charref_state_def)
qed

lemma emitEndOfFile_ok:
  assumes rd: "ready s" and tk: "tk_sound (m_token t)" and bf: "buffers_ok t"
    and st: "state_kind (m_state t) = TextK" "\<not> charref_state (m_state t)" "\<not> isEndTagNameState (m_state t)"
  shows "outcome_ok env st0 s (emitEndOfFile t s)"
proof (cases "haveBufferedCharacterToken t")
  case True
  then show ?thesis
    using assms behind_refl[of s]
    by (auto simp: emitEndOfFile_def outcome_ok_def emitted_def pending_def allowed_ok_def ready_def
        source_ok_def charref_state_def haveBufferedCharacterToken_def buffers_ok_def)
next
  case False
  obtain t' u where a: "advanceTokenizer (t\<lparr>m_state := DataState\<rparr>) s = (t', u)" by fastforce
  note A = advanceTokenizer_spec[OF rd a]
  have "m_bufferedEndTagName t = []" using bf st(3) by (auto simp: buffers_ok_def)
  then show ?thesis
    using False A(1,2) A(3)[of env] tk
    by (auto simp: emitEndOfFile_def a outcome_ok_def emitted_def pending_def allowed_ok_def onToken_def
        buffers_ok_def makeEndOfFile_def token_clear_def assertT_def)
qed

lemma flush_spec:
  assumes rd: "ready s" and gd: "good TextK (m_token t)" and fl: "flushBufferedEndTag t s = (b, t', u)"
  shows "behind s u" and "ss_wf u" and "no_amp u" and "length (toString u) < length (toString s)"
    and "m_state t' = m_state t"
    and "b \<Longrightarrow> tk_sound (m_token t') \<and> tk_type (m_token t') = Character \<and>
      m_bufferedEndTagName t' = m_bufferedEndTagName t"
    and "\<not> b \<Longrightarrow> good TagK (m_token t') \<and> tk_type (m_token t') = EndTag \<and> m_bufferedEndTagName t' = []"
proof -
  let ?t = "onToken (\<lambda>tk. assertT (tk_type tk = Character \<or> tk_type tk = Uninitialized) tk) t"
  obtain t1 u1 where a: "advanceTokenizer ?t s = (t1, u1)" by fastforce
  note A = advanceTokenizer_spec[OF rd a]
  have f: "(if tk_type (m_token t1) = Character then (True, t1, u1)
      else (False, (onToken (beginEndTag (m_bufferedEndTagName t1)) t1)
        \<lparr>m_bufferedEndTagName := [], m_temporaryBuffer := []\<rparr>, u1)) = (b, t', u)"
    using fl by (simp add: flushBufferedEndTag_def a)
  have t1: "tk_type (m_token t1) = tk_type (m_token t)" "tk_sound (m_token t1)"
    "m_bufferedEndTagName t1 = m_bufferedEndTagName t" "m_state t1 = m_state t"
    "good TextK (m_token t1)"
    using A(1) gd by (auto simp: onToken_def token_ops)
  show "behind s u" "ss_wf u" "no_amp u" "length (toString u) < length (toString s)" "m_state t' = m_state t"
    using A(2,4) f t1(4) by (auto simp: onToken_def behind_def split: if_splits)
  show "b \<Longrightarrow> tk_sound (m_token t') \<and> tk_type (m_token t') = Character \<and>
      m_bufferedEndTagName t' = m_bufferedEndTagName t"
    using f t1 by (auto split: if_splits)
  show "\<not> b \<Longrightarrow> good TagK (m_token t') \<and> tk_type (m_token t') = EndTag \<and> m_bufferedEndTagName t' = []"
    using f t1(5) by (auto simp: onToken_def token_ops split: if_splits)
qed

lemma FLUSH_ok:
  assumes rd: "ready s" and gd: "good TextK (m_token t)" and bf: "m_bufferedEndTagName t \<noteq> []"
    and st: "st = BeforeAttributeNameState \<or> st = SelfClosingStartTagState"
  shows "outcome_ok env st0 s (FLUSH_AND_ADVANCE_TO st t s)"
proof -
  obtain b t' u where f: "flushBufferedEndTag (t\<lparr>m_state := st\<rparr>) s = (b, t', u)" by (metis prod_cases3)
  have gd': "good TextK (m_token (t\<lparr>m_state := st\<rparr>))" using gd by simp
  note F = flush_spec[OF rd gd' f]
  have st': "\<not> isEndTagBufferingState st" "state_kind st = TagK" "\<not> charref_state st"
    "st \<noteq> CharacterReferenceInAttributeValueState"
    using st by (auto simp: isEndTagBufferingState_def charref_state_def)
  have so: "source_ok env st u" using F(2,3) st' by (simp add: source_ok_def)
  show ?thesis
  proof (cases b)
    case True
    then show ?thesis
      using F st st' so bf
      by (auto simp: FLUSH_AND_ADVANCE_TO_def f outcome_ok_def emitted_def pending_def allowed_ok_def)
  next
    case False
    then have inv: "settled env t' u"
      using F st' so endTagName_buffering by (auto simp: settled_def buffers_ok_def allowed_ok_def)
    show ?thesis
    proof (cases "isEmpty u")
      case True
      with False show ?thesis
        using settled_return[OF inv] F(1) by (simp add: FLUSH_AND_ADVANCE_TO_def f outcome_ok_def)
    next
      case ne: False
      have "peek_ok t' u (peek t' u)" using F(2,3) ne by (intro peek_spec) (simp_all add: isEmpty_iff)
      with False ne F(4,5) st' show ?thesis
        using afterPeek_ok[OF inv _ F(1)] by (simp add: FLUSH_AND_ADVANCE_TO_def f)
    qed
  qed
qed

lemma flushEmit_ok:
  assumes rd: "ready s" and gd: "good TextK (m_token t)" and bf: "m_bufferedEndTagName t \<noteq> []"
  shows "outcome_ok env st0 s (flushEmitAndResumeIn DataState t s)"
proof -
  obtain b t' u where f: "flushBufferedEndTag (t\<lparr>m_state := DataState\<rparr>) s = (b, t', u)" by (metis prod_cases3)
  have gd': "good TextK (m_token (t\<lparr>m_state := DataState\<rparr>))" using gd by simp
  note F = flush_spec[OF rd gd' f]
  have "source_ok env DataState u" using F(2,3) by (simp add: source_ok_def charref_state_def)
  then show ?thesis
    using F bf
    by (cases b) (auto simp: flushEmitAndResumeIn_def f outcome_ok_def emitted_def pending_def
        allowed_ok_def good_def buffers_ok_def)
qed

end
