(* ===== verification/HTML_Tokenizer_States.thy ===== *)
theory HTML_Tokenizer_States
  imports HTML_Tokenizer_Invariant
begin

section \<open>The HTML tokenizer: every state keeps the invariant\<close>

text \<open>
  One lemma per group of states: a step from a state whose invariant holds ends in an
  \<open>outcome_ok\<close>. The proofs apply the lemmas on the exits (\<open>ADVANCE_TO_ok\<close> and the others) and
  the rules on the token operations.
\<close>

lemma onToken_fields [simp]:
  "m_token (onToken f t) = f (m_token t)" "m_state (onToken f t) = m_state t"
  "m_bufferedEndTagName (onToken f t) = m_bufferedEndTagName t"
  "m_temporaryBuffer (onToken f t) = m_temporaryBuffer t"
  "m_additionalAllowedCharacter (onToken f t) = m_additionalAllowedCharacter t"
  by (simp_all add: onToken_def)

lemma bufferCharacter_fields [simp]:
  "m_state (bufferCharacter c t) = m_state t"
  "m_bufferedEndTagName (bufferCharacter c t) = m_bufferedEndTagName t"
  "m_temporaryBuffer (bufferCharacter c t) = m_temporaryBuffer t"
  by (simp_all add: bufferCharacter_def)

lemma appendTemporary_fields [simp]:
  "m_token (appendTemporary c t) = m_token t" "m_state (appendTemporary c t) = m_state t"
  "m_bufferedEndTagName (appendTemporary c t) = m_bufferedEndTagName t"
  by (simp_all add: appendTemporary_def)

lemma good_bufferCharacter [token_rules]:
  "good TextK (m_token t) \<Longrightarrow> good TextK (m_token (bufferCharacter c t))"
  by (simp add: bufferCharacter_def good_text)

lemma type_bufferCharacter:
  "good TextK (m_token t) \<Longrightarrow> tk_type (m_token (bufferCharacter c t)) = Character"
  by (simp add: bufferCharacter_def good_text)

lemma good_buffer_fold:
  "good TextK (m_token t) \<Longrightarrow> good TextK (m_token (fold bufferCharacter cs t))"
  "m_bufferedEndTagName (fold bufferCharacter cs t) = m_bufferedEndTagName t"
  by (induction cs arbitrary: t) (simp_all add: good_bufferCharacter)

lemma good_TagK_type: "good TagK tk \<Longrightarrow> tk_sound tk \<and> tk_type tk \<noteq> Uninitialized"
  by (auto simp: token_ops)

lemma good_other_type:
  "good CommentK tk \<Longrightarrow> tk_sound tk \<and> tk_type tk \<noteq> Uninitialized"
  "good DoctypeK tk \<Longrightarrow> tk_sound tk \<and> tk_type tk \<noteq> Uninitialized"
  by (auto simp: token_ops)

lemma good_sound: "good k tk \<Longrightarrow> tk_sound tk"
  by (simp add: good_def)

lemma running_facts:
  assumes "running env t s cc"
  shows "ready s" and "cc = 0x26 \<Longrightarrow> current s = Some 0x26" and "tk_sound (m_token t)" and "buffers_ok t"
    and "\<not> isEndTagNameState (m_state t) \<Longrightarrow> m_bufferedEndTagName t = []"
    and "m_state t \<noteq> DataState \<or> cc \<noteq> 0 \<Longrightarrow> good (state_kind (m_state t)) (m_token t)"
    and "behind s s" and "source_ok env (m_state t) s" and "allowed_ok t"
  using assms behind_refl[of s]
  by (auto simp: running_def ready_def source_ok_def good_def buffers_ok_def)

lemma good_text_open: "good TextK tk \<Longrightarrow> tk_type tk \<noteq> Character \<Longrightarrow> good OpenK tk"
  by (auto simp: good_def)

lemma return_characters_ok:
  assumes "running env t s cc" and "m_state t = DataState" and "tk_type (m_token t) = Character"
  shows "outcome_ok env st0 s (Return True t s)"
  using assms running_facts[OF assms(1)]
  by (auto simp: outcome_ok_def emitted_def pending_def isEndTagBufferingState_def)

lemmas state_sets = enters_def isEndTagBufferingState_def isEndTagNameState_def charref_state_def

lemma text_states_ok:
  assumes run: "running env t s cc"
  shows "m_state t = DataState \<Longrightarrow> outcome_ok env DataState s (step_DataState t s cc)"
    and "m_state t = RCDATAState \<Longrightarrow> outcome_ok env RCDATAState s (step_RCDATAState t s cc)"
    and "m_state t = RAWTEXTState \<Longrightarrow> outcome_ok env RAWTEXTState s (step_RAWTEXTState t s cc)"
    and "m_state t = ScriptDataState \<Longrightarrow> outcome_ok env ScriptDataState s (step_ScriptDataState t s cc)"
    and "m_state t = PLAINTEXTState \<Longrightarrow> outcome_ok env PLAINTEXTState s (step_PLAINTEXTState t s cc)"
  using running_facts[OF run] return_characters_ok[OF run]
  by (auto simp: step_DataState_def step_RCDATAState_def step_RAWTEXTState_def step_ScriptDataState_def
      step_PLAINTEXTState_def state_sets
      intro!: ADVANCE_TO_ok emitEndOfFile_ok token_rules intro: good_text_open)

lemma processEntity_spec:
  assumes ok: "entityTable_ok (env_entities env)" and rd: "ready s"
    and co: "charref_ok (env_entities env) s" and gd: "good TextK (m_token t)"
    and pe: "processEntity env t s = (enough, t', u)"
  shows "behind s u" and "good TextK (m_token t')" and "m_state t' = m_state t \<or> enough"
    and "m_bufferedEndTagName t' = m_bufferedEndTagName t"
    and "\<not> enough \<Longrightarrow> t' = t \<and> charref_ok (env_entities env) u"
proof -
  let ?r = "consumeHTMLEntity (env_entities env) 0 s"
  have post: "charref_post (env_entities env) s ?r"
    using consumeHTMLEntity_spec[OF ok _ _ co] rd by (simp add: ready_def)
  then have "behind s (er_source ?r)"
    by (auto simp: charref_post_def behind_def restored_def suffix_drop split: if_splits)
  moreover have "er_notEnoughCharacters ?r \<Longrightarrow> charref_ok (env_entities env) (er_source ?r)"
    using post by (auto simp: charref_post_def split: if_splits)
  ultimately show "behind s u" "good TextK (m_token t')" "m_state t' = m_state t \<or> enough"
    "m_bufferedEndTagName t' = m_bufferedEndTagName t"
    "\<not> enough \<Longrightarrow> t' = t \<and> charref_ok (env_entities env) u"
    using pe gd by (auto simp: processEntity_def Let_def good_buffer_fold good_bufferCharacter split: if_splits)
qed

text \<open>A character reference in text: wait for more input, or go back to the text state.\<close>

lemma charref_text_ok:
  assumes ok: "entityTable_ok (env_entities env)" and run: "running env t s cc"
    and st: "m_state t = CharacterReferenceInDataState \<and> back = DataState \<or>
      m_state t = CharacterReferenceInRCDATAState \<and> back = RCDATAState"
  shows "outcome_ok env (m_state t) s (case processEntity env t s of (enough, t, u) \<Rightarrow>
    if \<not> enough then Return (haveBufferedCharacterToken t) t u else SWITCH_TO back t u)"
proof -
  note R = running_facts[OF run]
  obtain enough t' u where pe: "processEntity env t s = (enough, t', u)" by (metis prod_cases3)
  have gd: "good TextK (m_token t)" using R(6) st by auto
  have co: "charref_ok (env_entities env) s" using R(8) st by (auto simp: source_ok_def charref_state_def)
  note P = processEntity_spec[OF ok R(1) co gd pe]
  show ?thesis
  proof (cases enough)
    case True
    have "m_bufferedEndTagName t = []" using R(5) st by (auto simp: isEndTagNameState_def)
    then have "outcome_ok env (m_state t) s (SWITCH_TO back t' u)"
      using st P by (intro SWITCH_TO_ok[OF P(1)]) (auto simp: state_sets)
    with True show ?thesis by (simp add: pe)
  next
    case False
    have "settled env t' u"
      using False P R st by (auto simp: settled_def source_ok_def behind_def)
    from settled_return[OF this] False P(1) show ?thesis by (simp add: pe outcome_ok_def)
  qed
qed


lemma open_states_ok:
  assumes run: "running env t s cc"
  shows "m_state t = TagOpenState \<Longrightarrow> outcome_ok env TagOpenState s (step_TagOpenState t s cc)"
    and "m_state t = EndTagOpenState \<Longrightarrow> outcome_ok env EndTagOpenState s (step_EndTagOpenState t s cc)"
    and "m_state t = BogusCommentState \<Longrightarrow> outcome_ok env BogusCommentState s (step_BogusCommentState t s cc)"
  using running_facts[OF run] good_weaken(1)[of "m_token t"]
  by (auto simp: step_TagOpenState_def step_EndTagOpenState_def step_BogusCommentState_def state_sets
      intro!: ADVANCE_TO_ok RECONSUME_IN_ok token_rules)

lemma tag_states_ok:
  assumes run: "running env t s cc"
  shows "m_state t = TagNameState \<Longrightarrow> outcome_ok env TagNameState s (step_TagNameState t s cc)"
    and "m_state t = AfterAttributeValueQuotedState \<Longrightarrow>
      outcome_ok env AfterAttributeValueQuotedState s (step_AfterAttributeValueQuotedState t s cc)"
    and "m_state t = SelfClosingStartTagState \<Longrightarrow>
      outcome_ok env SelfClosingStartTagState s (step_SelfClosingStartTagState t s cc)"
    and "m_state t = BeforeAttributeNameState \<Longrightarrow>
      outcome_ok env BeforeAttributeNameState s (step_BeforeAttributeNameState t s cc)"
  using running_facts[OF run] good_TagK_type[of "m_token t"]
    good_TagK_type[OF good_tag(2)[of "m_token t"]]
  by (auto simp: step_TagNameState_def step_AfterAttributeValueQuotedState_def
      step_SelfClosingStartTagState_def step_BeforeAttributeNameState_def newAttribute_def state_sets
      intro!: ADVANCE_TO_ok RECONSUME_EOF_ok RECONSUME_IN_ok emit_ok token_rules)

lemma attribute_types:
  assumes "good AttributeK tk"
  shows "good TagK (endAttributeName n tk)" "good TagK (endAttributeValue n tk)" "good TagK tk"
    and "tk_sound (endAttributeName n tk) \<and> tk_type (endAttributeName n tk) \<noteq> Uninitialized"
    and "tk_sound (endAttributeValue n tk) \<and> tk_type (endAttributeValue n tk) \<noteq> Uninitialized"
    and "tk_sound tk \<and> tk_type tk \<noteq> Uninitialized"
  using good_weaken(2)[OF good_attribute(2)[OF assms, of n]]
    good_weaken(2)[OF good_attribute(4)[OF assms, of n]] good_weaken(2)[OF assms] good_TagK_type
  by blast+

lemma attribute_states_ok:
  assumes run: "running env t s cc"
  shows "m_state t = AttributeNameState \<Longrightarrow> outcome_ok env AttributeNameState s (step_AttributeNameState t s cc)"
    and "m_state t = AfterAttributeNameState \<Longrightarrow>
      outcome_ok env AfterAttributeNameState s (step_AfterAttributeNameState t s cc)"
    and "m_state t = BeforeAttributeValueState \<Longrightarrow>
      outcome_ok env BeforeAttributeValueState s (step_BeforeAttributeValueState t s cc)"
  using running_facts[OF run] attribute_types[of "m_token t"]
  by (auto simp: step_AttributeNameState_def step_AfterAttributeNameState_def
      step_BeforeAttributeValueState_def newAttribute_def state_sets
      intro!: ADVANCE_TO_ok RECONSUME_EOF_ok RECONSUME_IN_ok emit_ok token_rules)

lemma attribute_value_states_ok:
  assumes run: "running env t s cc"
  shows "m_state t = AttributeValueDoubleQuotedState \<Longrightarrow>
      outcome_ok env AttributeValueDoubleQuotedState s (step_AttributeValueDoubleQuotedState t s cc)"
    and "m_state t = AttributeValueSingleQuotedState \<Longrightarrow>
      outcome_ok env AttributeValueSingleQuotedState s (step_AttributeValueSingleQuotedState t s cc)"
    and "m_state t = AttributeValueUnquotedState \<Longrightarrow>
      outcome_ok env AttributeValueUnquotedState s (step_AttributeValueUnquotedState t s cc)"
  using running_facts[OF run] attribute_types[of "m_token t"]
  by (auto simp: step_AttributeValueDoubleQuotedState_def step_AttributeValueSingleQuotedState_def
      step_AttributeValueUnquotedState_def state_sets
      intro!: ADVANCE_TO_ok RECONSUME_EOF_ok emit_ok token_rules)


lemma comment_type: "good CommentK tk \<Longrightarrow> tk_sound tk \<and> tk_type tk \<noteq> Uninitialized"
  by (auto simp: token_ops)

lemma comment_states_ok:
  assumes run: "running env t s cc"
  shows "m_state t = CommentStartState \<Longrightarrow>
      outcome_ok env CommentStartState s (step_CommentStartState t s cc)"
    and "m_state t = CommentStartDashState \<Longrightarrow>
      outcome_ok env CommentStartDashState s (step_CommentStartDashState t s cc)"
    and "m_state t = CommentState \<Longrightarrow>
      outcome_ok env CommentState s (step_CommentState t s cc)"
    and "m_state t = CommentEndDashState \<Longrightarrow>
      outcome_ok env CommentEndDashState s (step_CommentEndDashState t s cc)"
    and "m_state t = CommentEndState \<Longrightarrow>
      outcome_ok env CommentEndState s (step_CommentEndState t s cc)"
    and "m_state t = CommentEndBangState \<Longrightarrow>
      outcome_ok env CommentEndBangState s (step_CommentEndBangState t s cc)"
    and "m_state t = ContinueBogusCommentState \<Longrightarrow>
      outcome_ok env ContinueBogusCommentState s (step_ContinueBogusCommentState t s cc)"
  using running_facts[OF run] comment_type[of "m_token t"]
  by (auto simp: step_CommentStartState_def step_CommentStartDashState_def step_CommentState_def
      step_CommentEndDashState_def step_CommentEndState_def step_CommentEndBangState_def
      step_ContinueBogusCommentState_def state_sets
      intro!: ADVANCE_TO_ok emit_ok good_comment good_comment_fold)

lemma doctype_types:
  assumes "good DoctypeK tk"
  shows "tk_sound tk \<and> tk_type tk \<noteq> Uninitialized"
    and "tk_sound (setForceQuirks tk) \<and> tk_type (setForceQuirks tk) \<noteq> Uninitialized"
  using good_other_type(2)[OF assms] good_other_type(2)[OF good_doctype(1)[OF assms]] by blast+

lemma doctype_begin_types:
  "good OpenK tk \<Longrightarrow> tk_sound (setForceQuirks (beginDOCTYPE tk)) \<and>
     tk_type (setForceQuirks (beginDOCTYPE tk)) \<noteq> Uninitialized"
  by (intro doctype_types good_begin)

lemma doctype_open_states_ok:
  assumes run: "running env t s cc"
  shows "m_state t = DOCTYPEState \<Longrightarrow>
      outcome_ok env DOCTYPEState s (step_DOCTYPEState t s cc)"
    and "m_state t = BeforeDOCTYPENameState \<Longrightarrow>
      outcome_ok env BeforeDOCTYPENameState s (step_BeforeDOCTYPENameState t s cc)"
  using running_facts[OF run] doctype_begin_types[of "m_token t"]
  by (auto simp: step_DOCTYPEState_def step_BeforeDOCTYPENameState_def state_sets
      intro!: ADVANCE_TO_ok RECONSUME_IN_ok emit_ok token_rules)

lemma doctype_states_ok:
  assumes run: "running env t s cc"
  shows "m_state t = DOCTYPENameState \<Longrightarrow>
      outcome_ok env DOCTYPENameState s (step_DOCTYPENameState t s cc)"
    and "m_state t = AfterDOCTYPEPublicKeywordState \<Longrightarrow>
      outcome_ok env AfterDOCTYPEPublicKeywordState s (step_AfterDOCTYPEPublicKeywordState t s cc)"
    and "m_state t = BeforeDOCTYPEPublicIdentifierState \<Longrightarrow>
      outcome_ok env BeforeDOCTYPEPublicIdentifierState s (step_BeforeDOCTYPEPublicIdentifierState t s cc)"
    and "m_state t = AfterDOCTYPEPublicIdentifierState \<Longrightarrow>
      outcome_ok env AfterDOCTYPEPublicIdentifierState s (step_AfterDOCTYPEPublicIdentifierState t s cc)"
    and "m_state t = BetweenDOCTYPEPublicAndSystemIdentifiersState \<Longrightarrow>
      outcome_ok env BetweenDOCTYPEPublicAndSystemIdentifiersState s (step_BetweenDOCTYPEPublicAndSystemIdentifiersState t s cc)"
  using running_facts[OF run] doctype_types[of "m_token t"]
  by (auto simp: step_DOCTYPENameState_def step_AfterDOCTYPEPublicKeywordState_def
      step_BeforeDOCTYPEPublicIdentifierState_def step_AfterDOCTYPEPublicIdentifierState_def
      step_BetweenDOCTYPEPublicAndSystemIdentifiersState_def state_sets
      intro!: ADVANCE_TO_ok emit_ok token_rules)

lemma doctype_system_states_ok:
  assumes run: "running env t s cc"
  shows "m_state t = AfterDOCTYPESystemKeywordState \<Longrightarrow>
      outcome_ok env AfterDOCTYPESystemKeywordState s (step_AfterDOCTYPESystemKeywordState t s cc)"
    and "m_state t = BeforeDOCTYPESystemIdentifierState \<Longrightarrow>
      outcome_ok env BeforeDOCTYPESystemIdentifierState s (step_BeforeDOCTYPESystemIdentifierState t s cc)"
    and "m_state t = AfterDOCTYPESystemIdentifierState \<Longrightarrow>
      outcome_ok env AfterDOCTYPESystemIdentifierState s (step_AfterDOCTYPESystemIdentifierState t s cc)"
    and "m_state t = BogusDOCTYPEState \<Longrightarrow>
      outcome_ok env BogusDOCTYPEState s (step_BogusDOCTYPEState t s cc)"
  using running_facts[OF run] doctype_types[of "m_token t"]
  by (auto simp: step_AfterDOCTYPESystemKeywordState_def
      step_BeforeDOCTYPESystemIdentifierState_def step_AfterDOCTYPESystemIdentifierState_def
      step_BogusDOCTYPEState_def state_sets
      intro!: ADVANCE_TO_ok emit_ok token_rules)

lemma doctype_quoted_states_ok:
  assumes run: "running env t s cc"
  shows "m_state t = DOCTYPEPublicIdentifierDoubleQuotedState \<Longrightarrow>
      outcome_ok env DOCTYPEPublicIdentifierDoubleQuotedState s (step_DOCTYPEPublicIdentifierDoubleQuotedState t s cc)"
    and "m_state t = DOCTYPEPublicIdentifierSingleQuotedState \<Longrightarrow>
      outcome_ok env DOCTYPEPublicIdentifierSingleQuotedState s (step_DOCTYPEPublicIdentifierSingleQuotedState t s cc)"
    and "m_state t = DOCTYPESystemIdentifierDoubleQuotedState \<Longrightarrow>
      outcome_ok env DOCTYPESystemIdentifierDoubleQuotedState s (step_DOCTYPESystemIdentifierDoubleQuotedState t s cc)"
    and "m_state t = DOCTYPESystemIdentifierSingleQuotedState \<Longrightarrow>
      outcome_ok env DOCTYPESystemIdentifierSingleQuotedState s (step_DOCTYPESystemIdentifierSingleQuotedState t s cc)"
  using running_facts[OF run] doctype_types[of "m_token t"] good_weaken(3,4)[of "m_token t"]
  by (auto simp: step_DOCTYPEPublicIdentifierDoubleQuotedState_def
      step_DOCTYPEPublicIdentifierSingleQuotedState_def
      step_DOCTYPESystemIdentifierDoubleQuotedState_def
      step_DOCTYPESystemIdentifierSingleQuotedState_def state_sets
      intro!: ADVANCE_TO_ok emit_ok token_rules)

lemma cdata_states_ok:
  assumes run: "running env t s cc"
  shows "m_state t = CDATASectionState \<Longrightarrow>
      outcome_ok env CDATASectionState s (step_CDATASectionState t s cc)"
    and "m_state t = CDATASectionRightSquareBracketState \<Longrightarrow>
      outcome_ok env CDATASectionRightSquareBracketState s (step_CDATASectionRightSquareBracketState t s cc)"
    and "m_state t = CDATASectionDoubleRightSquareBracketState \<Longrightarrow>
      outcome_ok env CDATASectionDoubleRightSquareBracketState s (step_CDATASectionDoubleRightSquareBracketState t s cc)"
  using running_facts[OF run]
  by (auto simp: step_CDATASectionState_def step_CDATASectionRightSquareBracketState_def
      step_CDATASectionDoubleRightSquareBracketState_def state_sets
      intro!: ADVANCE_TO_ok RECONSUME_EOF_ok RECONSUME_IN_ok token_rules)


text \<open>The end tag states of the four raw text modes.\<close>

lemma good_addToPossibleEndTag:
  "good TextK (m_token t) \<Longrightarrow> isEndTagBufferingState (m_state t) \<Longrightarrow>
     good TextK (m_token (addToPossibleEndTag c t))"
  "m_bufferedEndTagName (addToPossibleEndTag c t) \<noteq> []"
  by (simp_all add: addToPossibleEndTag_def good_def assertT_def)

lemma endTagOpenIn_ok:
  assumes run: "running env t s cc" and buf: "isEndTagBufferingState (m_state t)" "\<not> isEndTagNameState (m_state t)"
    and st: "isEndTagNameState nameState" "state_kind nameState = TextK" "state_kind textState = TextK"
      "\<not> isEndTagNameState textState" "\<not> charref_state textState" "state_rank textState < state_rank (m_state t)"
    and kd: "state_kind (m_state t) = TextK" "m_state t \<noteq> DataState"
  shows "outcome_ok env (m_state t) s (endTagOpenIn nameState textState t s cc)"
proof -
  note R = running_facts[OF run]
  have gd: "good TextK (m_token t)" using R(6) kd by simp
  have "\<not> charref_state nameState" "nameState \<noteq> CharacterReferenceInAttributeValueState"
    "textState \<noteq> CharacterReferenceInAttributeValueState"
    using st(1,5) by (auto simp: isEndTagNameState_def charref_state_def)
  moreover have "m_bufferedEndTagName t = []" using R(5) buf(2) by simp
  ultimately show ?thesis
    using R gd st buf good_addToPossibleEndTag[where t = "appendTemporary cc t"]
    by (auto simp: endTagOpenIn_def enters_def intro!: ADVANCE_TO_ok RECONSUME_IN_ok good_bufferCharacter)
qed

lemma endTagNameIn_ok:
  assumes run: "running env t s cc" and nm: "isEndTagNameState (m_state t)" "nameState = m_state t"
    and st: "state_kind nameState = TextK" "state_kind textState = TextK"
      "\<not> isEndTagNameState textState" "\<not> charref_state textState" "state_rank textState < state_rank (m_state t)"
  shows "outcome_ok env (m_state t) s (endTagNameIn nameState textState t s cc)"
proof -
  note R = running_facts[OF run]
  have gd: "good TextK (m_token t)" using R(6) nm st(1) data_not_buffering(1) by metis
  have bf: "isEndTagBufferingState (m_state t)" using nm(1) by (rule endTagName_buffering)
  have st': "\<not> charref_state nameState" "nameState \<noteq> CharacterReferenceInAttributeValueState"
    "textState \<noteq> CharacterReferenceInAttributeValueState"
    using nm st(4) by (auto simp: isEndTagNameState_def charref_state_def)
  have ne: "m_bufferedEndTagName t \<noteq> []" using R(4) nm(1) by (simp add: buffers_ok_def)
  let ?t1 = "bufferCharacter 0x002F (bufferCharacter 0x003C t)"
  let ?t2 = "onToken (appendToCharacter (m_temporaryBuffer ?t1)) ?t1"
  have "good TextK (m_token ?t1)" "tk_type (m_token ?t1) = Character"
    using gd by (simp_all add: good_bufferCharacter type_bufferCharacter)
  then have g2: "good TextK (m_token ?t2)" by (simp add: token_ops)
  have adv: "outcome_ok env (m_state t) s (ADVANCE_TO nameState (addToPossibleEndTag c (appendTemporary cc t)) s)" for c
    using R(1) gd nm st st' bf good_addToPossibleEndTag[where t = "appendTemporary cc t" and c = c]
    by (intro ADVANCE_TO_ok) (auto simp: enters_def)
  have rec: "outcome_ok env (m_state t) s
      (RECONSUME_IN textState (?t2\<lparr>m_bufferedEndTagName := [], m_temporaryBuffer := []\<rparr>) s cc)"
    using R g2 st st' by (intro RECONSUME_IN_ok) (auto simp: enters_def)
  show ?thesis
    using adv rec R(1) gd ne
    by (simp add: endTagNameIn_def Let_def FLUSH_ok flushEmit_ok)
qed

lemma raw_end_tag_states_ok:
  assumes run: "running env t s cc"
  shows "m_state t = RCDATAEndTagOpenState \<Longrightarrow> outcome_ok env RCDATAEndTagOpenState s (step_RCDATAEndTagOpenState t s cc)"
    and "m_state t = RAWTEXTEndTagOpenState \<Longrightarrow> outcome_ok env RAWTEXTEndTagOpenState s (step_RAWTEXTEndTagOpenState t s cc)"
    and "m_state t = ScriptDataEndTagOpenState \<Longrightarrow>
      outcome_ok env ScriptDataEndTagOpenState s (step_ScriptDataEndTagOpenState t s cc)"
    and "m_state t = ScriptDataEscapedEndTagOpenState \<Longrightarrow>
      outcome_ok env ScriptDataEscapedEndTagOpenState s (step_ScriptDataEscapedEndTagOpenState t s cc)"
    and "m_state t = RCDATAEndTagNameState \<Longrightarrow> outcome_ok env RCDATAEndTagNameState s (step_RCDATAEndTagNameState t s cc)"
    and "m_state t = RAWTEXTEndTagNameState \<Longrightarrow> outcome_ok env RAWTEXTEndTagNameState s (step_RAWTEXTEndTagNameState t s cc)"
    and "m_state t = ScriptDataEndTagNameState \<Longrightarrow>
      outcome_ok env ScriptDataEndTagNameState s (step_ScriptDataEndTagNameState t s cc)"
    and "m_state t = ScriptDataEscapedEndTagNameState \<Longrightarrow>
      outcome_ok env ScriptDataEscapedEndTagNameState s (step_ScriptDataEscapedEndTagNameState t s cc)"
  using endTagOpenIn_ok[OF run] endTagNameIn_ok[OF run]
  by (simp_all add: step_RCDATAEndTagOpenState_def step_RAWTEXTEndTagOpenState_def
      step_ScriptDataEndTagOpenState_def step_ScriptDataEscapedEndTagOpenState_def
      step_RCDATAEndTagNameState_def step_RAWTEXTEndTagNameState_def step_ScriptDataEndTagNameState_def
      step_ScriptDataEscapedEndTagNameState_def state_sets)

end
