(* ===== verification/HTML_Tokenizer_Correct.thy ===== *)
theory HTML_Tokenizer_Correct
  imports HTML_Tokenizer_States
begin

section \<open>The HTML tokenizer: the remaining states and the machine\<close>

text \<open>
  The script data states, the states that look ahead and the character reference in an
  attribute value; then the step function as a whole, and the machine, which ends because
  every jump lowers the pair of remaining text and state rank.
\<close>

lemma good_assertT: "good k tk \<Longrightarrow> p \<Longrightarrow> good k (assertT p tk)"
  by (cases k) (simp_all add: token_ops)

lemma less_than_states_ok:
  assumes run: "running env t s cc"
  shows "m_state t = RCDATALessThanSignState \<Longrightarrow>
      outcome_ok env RCDATALessThanSignState s (step_RCDATALessThanSignState t s cc)"
    and "m_state t = RAWTEXTLessThanSignState \<Longrightarrow>
      outcome_ok env RAWTEXTLessThanSignState s (step_RAWTEXTLessThanSignState t s cc)"
    and "m_state t = ScriptDataLessThanSignState \<Longrightarrow>
      outcome_ok env ScriptDataLessThanSignState s (step_ScriptDataLessThanSignState t s cc)"
    and "m_state t = ScriptDataEscapedLessThanSignState \<Longrightarrow>
      outcome_ok env ScriptDataEscapedLessThanSignState s (step_ScriptDataEscapedLessThanSignState t s cc)"
    and "m_state t = ScriptDataDoubleEscapedLessThanSignState \<Longrightarrow>
      outcome_ok env ScriptDataDoubleEscapedLessThanSignState s (step_ScriptDataDoubleEscapedLessThanSignState t s cc)"
  using running_facts[OF run]
  by (auto simp: step_RCDATALessThanSignState_def step_RAWTEXTLessThanSignState_def
      step_ScriptDataLessThanSignState_def step_ScriptDataEscapedLessThanSignState_def
      step_ScriptDataDoubleEscapedLessThanSignState_def state_sets
      intro!: ADVANCE_TO_ok RECONSUME_IN_ok good_bufferCharacter good_assertT)

lemma script_states_ok:
  assumes run: "running env t s cc"
  shows "m_state t = ScriptDataEscapeStartState \<Longrightarrow>
      outcome_ok env ScriptDataEscapeStartState s (step_ScriptDataEscapeStartState t s cc)"
    and "m_state t = ScriptDataEscapeStartDashState \<Longrightarrow>
      outcome_ok env ScriptDataEscapeStartDashState s (step_ScriptDataEscapeStartDashState t s cc)"
    and "m_state t = ScriptDataEscapedState \<Longrightarrow>
      outcome_ok env ScriptDataEscapedState s (step_ScriptDataEscapedState t s cc)"
    and "m_state t = ScriptDataEscapedDashState \<Longrightarrow>
      outcome_ok env ScriptDataEscapedDashState s (step_ScriptDataEscapedDashState t s cc)"
    and "m_state t = ScriptDataEscapedDashDashState \<Longrightarrow>
      outcome_ok env ScriptDataEscapedDashDashState s (step_ScriptDataEscapedDashDashState t s cc)"
  using running_facts[OF run]
  by (auto simp: step_ScriptDataEscapeStartState_def step_ScriptDataEscapeStartDashState_def
      step_ScriptDataEscapedState_def step_ScriptDataEscapedDashState_def
      step_ScriptDataEscapedDashDashState_def state_sets
      intro!: ADVANCE_TO_ok RECONSUME_IN_ok RECONSUME_EOF_ok good_bufferCharacter)

lemma script_double_states_ok:
  assumes run: "running env t s cc"
  shows "m_state t = ScriptDataDoubleEscapeStartState \<Longrightarrow>
      outcome_ok env ScriptDataDoubleEscapeStartState s (step_ScriptDataDoubleEscapeStartState t s cc)"
    and "m_state t = ScriptDataDoubleEscapedState \<Longrightarrow>
      outcome_ok env ScriptDataDoubleEscapedState s (step_ScriptDataDoubleEscapedState t s cc)"
    and "m_state t = ScriptDataDoubleEscapedDashState \<Longrightarrow>
      outcome_ok env ScriptDataDoubleEscapedDashState s (step_ScriptDataDoubleEscapedDashState t s cc)"
    and "m_state t = ScriptDataDoubleEscapedDashDashState \<Longrightarrow>
      outcome_ok env ScriptDataDoubleEscapedDashDashState s (step_ScriptDataDoubleEscapedDashDashState t s cc)"
    and "m_state t = ScriptDataDoubleEscapeEndState \<Longrightarrow>
      outcome_ok env ScriptDataDoubleEscapeEndState s (step_ScriptDataDoubleEscapeEndState t s cc)"
  using running_facts[OF run]
  by (auto simp: step_ScriptDataDoubleEscapeStartState_def step_ScriptDataDoubleEscapedState_def
      step_ScriptDataDoubleEscapedDashState_def step_ScriptDataDoubleEscapedDashDashState_def
      step_ScriptDataDoubleEscapeEndState_def state_sets
      intro!: ADVANCE_TO_ok RECONSUME_IN_ok RECONSUME_EOF_ok good_bufferCharacter)

subsection \<open>A character reference in an attribute value\<close>

lemma charref_behind:
  assumes "entityTable_ok tb" and "ready s" and "charref_ok tb s"
  shows "behind s (er_source (consumeHTMLEntity tb al s))"
    and "er_notEnoughCharacters (consumeHTMLEntity tb al s) \<Longrightarrow>
      charref_ok tb (er_source (consumeHTMLEntity tb al s))"
  using consumeHTMLEntity_spec[OF assms(1) _ _ assms(3), of al] assms(2)
  by (auto simp: charref_post_def behind_def restored_def ready_def suffix_drop split: if_splits)

lemma attribute_charref_ok:
  assumes ok: "entityTable_ok (env_entities env)" and run: "running env t s cc"
    and st: "m_state t = CharacterReferenceInAttributeValueState"
  shows "outcome_ok env CharacterReferenceInAttributeValueState s
    (step_CharacterReferenceInAttributeValueState env t s cc)"
proof -
  note R = running_facts[OF run]
  let ?r = "consumeHTMLEntity (env_entities env) (m_additionalAllowedCharacter t) s"
  have gd: "good AttributeK (m_token t)" using R(6) st by simp
  have co: "charref_ok (env_entities env) s" using R(8) st by (simp add: source_ok_def charref_state_def)
  note C = charref_behind[OF ok R(1) co, of "m_additionalAllowedCharacter t"]
  have bf: "m_bufferedEndTagName t = []" using R(5) st by (simp add: isEndTagNameState_def)
  have al: "m_additionalAllowedCharacter t \<in> {0x22, 0x27, 0x3E}" using R(9) st by (simp add: allowed_ok_def)
  show ?thesis
  proof (cases "er_notEnoughCharacters ?r")
    case True
    then have "settled env t (er_source ?r)"
      using C R st gd by (auto simp: settled_def source_ok_def behind_def)
    from settled_return[OF this] True C(1) show ?thesis
      by (simp add: step_CharacterReferenceInAttributeValueState_def outcome_ok_def Let_def)
  next
    case False
    define u where "u = er_source ?r"
    define v where "v = (if \<not> er_success ?r then onToken (appendToAttributeValue 0x26) t
      else onToken (fold appendToAttributeValue (er_decoded ?r)) t)"
    have v: "good AttributeK (m_token v)" "m_bufferedEndTagName v = []"
      "m_additionalAllowedCharacter v = m_additionalAllowedCharacter t"
      using gd bf by (auto simp: v_def intro: token_rules)
    have sw: "outcome_ok env CharacterReferenceInAttributeValueState s (SWITCH_TO st' v u)"
      if "st' \<in> {AttributeValueDoubleQuotedState, AttributeValueSingleQuotedState, AttributeValueUnquotedState}" for st'
      unfolding u_def using that v(1,2) by (intro SWITCH_TO_ok[OF C(1)]) (auto simp: state_sets)
    have "step_CharacterReferenceInAttributeValueState env t s cc =
        (if m_additionalAllowedCharacter v = 0x22 then SWITCH_TO AttributeValueDoubleQuotedState v u
         else if m_additionalAllowedCharacter v = 0x27 then SWITCH_TO AttributeValueSingleQuotedState v u
         else if m_additionalAllowedCharacter v = 0x3E then SWITCH_TO AttributeValueUnquotedState v u
         else Return False (onToken (assertT False) v) u)"
      using False
      by (simp only: step_CharacterReferenceInAttributeValueState_def Let_def u_def[symmetric]
          v_def[symmetric] if_False)
    with sw al v(3) show ?thesis by auto
  qed
qed

subsection \<open>The states that look ahead\<close>

lemma no_amp_lookAhead:
  "no_amp s \<Longrightarrow> no_amp (snd (lookAheadInline equals str s))"
  using no_amp_steps[of s "length str"] advance_count_steps[of "length str" s]
  by (auto simp: lookAheadInline_def lookAheadSlowCase_def no_amp_def ss_prepend_def prepend_sub_def
      SegmentedString_def SegmentedSubstring_def Let_def split: prod.split)

lemma look_ok:
  assumes rd: "ready s" and str: "2 \<le> length str"
    and inv: "\<And>u. behind s u \<Longrightarrow> settled env t u"
    and matched: "\<And>u. behind s u \<Longrightarrow> toString u = drop (length str) (toString s) \<Longrightarrow>
      length (toString u) < length (toString s) \<Longrightarrow> outcome_ok env st s (matched u)"
    and other: "\<And>u. behind s u \<Longrightarrow> toString u = toString s \<Longrightarrow> outcome_ok env st s (other u)"
  shows "outcome_ok env st s (look (lookAheadInline equals str s) t (\<lambda>u. matched (advanceString str u)) other)"
proof -
  have w: "ss_wf s" "no_amp s" using rd by (simp_all add: ready_def)
  obtain r u where l: "lookAheadInline equals str s = (r, u)" by fastforce
  from lookAheadInline_spec[OF w(1), of str equals] str l
  have u: "ss_wf u" "toString u = toString s" "ss_closed u = ss_closed s"
    "numberOfCharactersConsumed u = numberOfCharactersConsumed s"
    and r: "r = DidMatch \<Longrightarrow> length str \<le> length (toString s)" by (auto split: if_splits)
  have amp: "no_amp u" using no_amp_lookAhead[OF w(2), of equals str] l by simp
  have bh: "behind s u" using u amp by (simp add: behind_def)
  have adv: "behind s (advanceString str u)" "toString (advanceString str u) = drop (length str) (toString s)"
    if "length str \<le> length (toString s)"
    using that u amp seg.steps_position[OF u(1), of "length str"] by (simp_all add: behind_def advanceString_def seg.steps_ok seg.steps_contents no_amp_steps
        suffix_drop closed_steps)
  show ?thesis
  proof (cases r)
    case DidMatch
    with r str adv matched show ?thesis by (simp add: look_def l)
  next
    case DidNotMatch
    with bh u other show ?thesis by (simp add: look_def l)
  next
    case NotEnoughCharacters
    with bh settled_return[OF inv[OF bh]] show ?thesis by (simp add: look_def l outcome_ok_def)
  qed
qed

lemma settled_behind:
  assumes "running env t s cc" and "m_state t \<noteq> DataState" and "\<not> charref_state (m_state t)" and "behind s u"
  shows "settled env t u"
  using assms running_facts[OF assms(1)] by (auto simp: settled_def source_ok_def behind_def)

lemma markup_declaration_ok:
  assumes run: "running env t s cc" and st: "m_state t = MarkupDeclarationOpenState"
  shows "outcome_ok env MarkupDeclarationOpenState s (step_MarkupDeclarationOpenState env t s cc)"
proof -
  note R = running_facts[OF run]
  have gd: "good OpenK (m_token t)" and bf: "m_bufferedEndTagName t = []"
    using R(5,6) st by (simp_all add: isEndTagNameState_def)
  have inv: "settled env t u" if "behind s u" for u
    using settled_behind[OF run _ _ that] st by (simp add: charref_state_def)
  have bogus: "outcome_ok env MarkupDeclarationOpenState s (RECONSUME_IN BogusCommentState t u cc)"
    if "behind s u" "toString u = toString s" for u
    using that R gd bf by (intro RECONSUME_IN_ok) (auto simp: state_sets)
  have look: "outcome_ok env MarkupDeclarationOpenState s
      (look (lookAheadInline equals str s) t (\<lambda>u. SWITCH_TO st' v (advanceString str u))
        (\<lambda>u. RECONSUME_IN BogusCommentState t u cc))"
    if "2 \<le> length str" "enters st' v" "\<not> charref_state st'" for equals str st' v
    using that SWITCH_TO_ok bogus by (intro look_ok[OF R(1) _ inv]) auto
  have "enters CommentStartState (onToken beginComment t)" "enters DOCTYPEState t" "enters CDATASectionState t"
    using gd bf good_weaken(1)[OF gd] good_begin(3)[OF gd] by (simp_all add: state_sets)
  note enter = this
  define other where "other = (\<lambda>u. RECONSUME_IN BogusCommentState t u cc)"
  note L = look[folded other_def, OF _ enter(1)] look[folded other_def, OF _ enter(2)]
    look[folded other_def, OF _ enter(3)] bogus[OF R(7)]
  have o: "other s = RECONSUME_IN BogusCommentState t s cc" by (simp add: other_def)
  show ?thesis
    unfolding step_MarkupDeclarationOpenState_def lookAhead_def lookAheadIgnoringCase_def Let_def
      other_def[symmetric] o[symmetric]
    using L[folded o] by (simp add: charref_state_def)
qed

lemma after_doctype_name_ok:
  assumes run: "running env t s cc" and st: "m_state t = AfterDOCTYPENameState"
  shows "outcome_ok env AfterDOCTYPENameState s (step_AfterDOCTYPENameState env t s cc)"
proof -
  note R = running_facts[OF run]
  have gd: "good DoctypeK (m_token t)" and bf: "m_bufferedEndTagName t = []"
    using R(5,6) st by (simp_all add: isEndTagNameState_def)
  have inv: "settled env t u" if "behind s u" for u
    using settled_behind[OF run _ _ that] st by (simp add: charref_state_def)
  have bogus: "outcome_ok env AfterDOCTYPENameState s (ADVANCE_TO BogusDOCTYPEState (onToken setForceQuirks t) u)"
    if "behind s u" "toString u = toString s" for u
  proof -
    have "ready u" using that R(1) by (simp add: ready_def behind_def)
    then have "outcome_ok env AfterDOCTYPENameState u (ADVANCE_TO BogusDOCTYPEState (onToken setForceQuirks t) u)"
      using gd bf by (intro ADVANCE_TO_ok) (simp_all add: state_sets good_doctype)
    then show ?thesis
      using that by (auto simp: outcome_ok_def intro: behind_trans split: outcome.splits)
  qed
  have look: "outcome_ok env AfterDOCTYPENameState s
      (look (lookAheadInline equals str s) t (\<lambda>u. SWITCH_TO st' t (advanceString str u))
        (\<lambda>u. ADVANCE_TO BogusDOCTYPEState (onToken setForceQuirks t) u))"
    if "2 \<le> length str" "enters st' t" "\<not> charref_state st'" for equals str st'
    using that SWITCH_TO_ok bogus by (intro look_ok[OF R(1) _ inv]) auto
  have "enters AfterDOCTYPEPublicKeywordState t" "enters AfterDOCTYPESystemKeywordState t"
    using gd bf by (simp_all add: state_sets)
  note look = look[OF _ this(1)] look[OF _ this(2)]
  have "outcome_ok env AfterDOCTYPENameState s (ADVANCE_TO AfterDOCTYPENameState t s)"
    "outcome_ok env AfterDOCTYPENameState s (emitAndResumeIn DataState t s)"
    "outcome_ok env AfterDOCTYPENameState s (emitAndReconsumeIn DataState (onToken setForceQuirks t) s)"
    using R(1) gd bf doctype_types[OF gd] by (auto simp: state_sets intro!: ADVANCE_TO_ok emit_ok)
  then show ?thesis
    using bogus[OF R(7)] look
    by (simp add: step_AfterDOCTYPENameState_def lookAheadIgnoringCase_def charref_state_def Let_def)
qed

subsection \<open>The machine\<close>

text \<open>Every state, every character: the step keeps the invariant and makes progress.\<close>

lemmas states_ok = text_states_ok open_states_ok tag_states_ok attribute_states_ok
  attribute_value_states_ok comment_states_ok doctype_open_states_ok doctype_states_ok
  doctype_system_states_ok doctype_quoted_states_ok cdata_states_ok raw_end_tag_states_ok
  less_than_states_ok script_states_ok script_double_states_ok markup_declaration_ok after_doctype_name_ok

lemma step_ok:
  assumes ok: "entityTable_ok (env_entities env)" and run: "running env t s cc"
  shows "outcome_ok env (m_state t) s (step (m_state t) env t s cc)"
proof -
  have "outcome_ok env CharacterReferenceInDataState s (step_CharacterReferenceInDataState env t s cc)"
    if "m_state t = CharacterReferenceInDataState"
    using charref_text_ok[OF ok run, of DataState] that by (simp add: step_CharacterReferenceInDataState_def)
  moreover have "outcome_ok env CharacterReferenceInRCDATAState s (step_CharacterReferenceInRCDATAState env t s cc)"
    if "m_state t = CharacterReferenceInRCDATAState"
    using charref_text_ok[OF ok run, of RCDATAState] that by (simp add: step_CharacterReferenceInRCDATAState_def)
  ultimately show ?thesis
    using attribute_charref_ok[OF ok run] states_ok[OF run]
    by (cases "m_state t") (simp_all only: step.simps)
qed

definition finished :: "tokenizer_env \<Rightarrow> segmentedString \<Rightarrow> (bool \<times> tokenizer \<times> segmentedString) option \<Rightarrow> bool" where
  "finished env s r \<longleftrightarrow> (\<exists>b t u. r = Some (b, t, u) \<and> behind s u \<and>
     (if b then emitted env t u else settled env t u))"

lemma finished_behind: "finished env u r \<Longrightarrow> behind s u \<Longrightarrow> finished env s r"
  unfolding finished_def using behind_trans by blast

definition run_measure :: "((tokenizer \<times> segmentedString) \<times> (tokenizer \<times> segmentedString)) set" where
  "run_measure = measures [\<lambda>(t, s). length (toString s), \<lambda>(t, s). state_rank (m_state t)]"

text \<open>The loop returns, with the invariant of the call's result.\<close>

lemma run_ok:
  assumes ok: "entityTable_ok (env_entities env)"
  shows "running env t s cc \<Longrightarrow> finished env s (run env t s cc)"
proof -
  have wf: "wf run_measure" by (simp add: run_measure_def)
  have "running env (fst p) (snd p) cc \<longrightarrow> finished env (snd p) (run env (fst p) (snd p) cc)" for p cc
    using wf
  proof (induction p arbitrary: cc rule: wf_induct_rule)
    case (less p)
    obtain t s where p: "p = (t, s)" by fastforce
    show ?case
    proof (intro impI)
      assume "running env (fst p) (snd p) cc"
      then have st: "outcome_ok env (m_state t) s (step (m_state t) env t s cc)"
        using step_ok[OF ok] p by simp
      show "finished env (snd p) (run env (fst p) (snd p) cc)"
      proof (cases "step (m_state t) env t s cc")
        case (Return b t' u)
        with st show ?thesis by (subst run.simps) (auto simp: p finished_def outcome_ok_def)
      next
        case (Goto t' u cc')
        have "((t', u), p) \<in> run_measure" using st by (auto simp: p Goto outcome_ok_def run_measure_def)
        then have "finished env u (run env t' u cc')"
          using less.IH[of "(t', u)" cc'] st by (simp add: Goto outcome_ok_def)
        then show ?thesis
          using st by (subst run.simps) (auto simp: p Goto outcome_ok_def intro: finished_behind)
      qed
    qed
  qed
  from this[of "(t, s)" cc] show "running env t s cc \<Longrightarrow> finished env s (run env t s cc)" by simp
qed

subsection \<open>\<open>nextToken\<close>\<close>

text \<open>
  Between calls the tokenizer is \<open>settled\<close>, and then the caller hands back the same token, or
  it has \<open>emitted\<close> a token, and then the caller hands over a cleared one.
\<close>

definition callable :: "tokenizer_env \<Rightarrow> token \<Rightarrow> tokenizer \<Rightarrow> segmentedString \<Rightarrow> bool" where
  "callable env token t s \<longleftrightarrow>
     settled env (t\<lparr>m_token := token\<rparr>) s \<or>
     emitted env t s \<and> tk_sound token \<and> tk_type token = Uninitialized"

lemma fresh_settled:
  assumes "emitted env t s" and "tk_sound token" and "tk_type token = Uninitialized"
  shows "\<not> pending t \<Longrightarrow> settled env (t\<lparr>m_token := token\<rparr>) s"
    and "pending t \<Longrightarrow> m_state t \<noteq> DataState \<Longrightarrow>
      settled env ((onToken (beginEndTag (m_bufferedEndTagName t)) (t\<lparr>m_token := token\<rparr>))
        \<lparr>m_bufferedEndTagName := [], m_temporaryBuffer := []\<rparr>) s"
    and "pending t \<Longrightarrow> m_state t = DataState \<Longrightarrow>
      emitted env ((onToken (beginEndTag (m_bufferedEndTagName t)) (t\<lparr>m_token := token\<rparr>))
        \<lparr>m_bufferedEndTagName := [], m_temporaryBuffer := []\<rparr>) s"
proof -
  have tk: "good OpenK token" "good TextK token" using assms by (simp_all add: good_def)
  note tag = good_begin(2)[OF tk(1), of "m_bufferedEndTagName t"]
  show "\<not> pending t \<Longrightarrow> settled env (t\<lparr>m_token := token\<rparr>) s"
    using assms(1) tk(2) by (simp add: emitted_def settled_def buffers_ok_def allowed_ok_def)
  show "pending t \<Longrightarrow> m_state t \<noteq> DataState \<Longrightarrow>
      settled env ((onToken (beginEndTag (m_bufferedEndTagName t)) (t\<lparr>m_token := token\<rparr>))
        \<lparr>m_bufferedEndTagName := [], m_temporaryBuffer := []\<rparr>) s"
    using assms(1) tag by (auto simp: emitted_def settled_def buffers_ok_def allowed_ok_def isEndTagNameState_def)
  show "pending t \<Longrightarrow> m_state t = DataState \<Longrightarrow>
      emitted env ((onToken (beginEndTag (m_bufferedEndTagName t)) (t\<lparr>m_token := token\<rparr>))
        \<lparr>m_bufferedEndTagName := [], m_temporaryBuffer := []\<rparr>) s"
    using assms(1) good_TagK_type[OF tag]
    by (simp add: emitted_def pending_def buffers_ok_def allowed_ok_def)
qed

lemma settled_not_pending: "settled env t s \<Longrightarrow> \<not> pending t"
  using endTagName_buffering by (auto simp: settled_def pending_def buffers_ok_def)

lemma pending_token [simp]: "pending (t\<lparr>m_token := tk\<rparr>) = pending t"
  by (simp add: pending_def)

text \<open>A pushed back character reference does not start with a control character: \<open>peek\<close> keeps it.\<close>

lemma control_character: "(c :: uchar) AND NOT 0x000F = 0 \<Longrightarrow> c \<le> 0x000F"
proof -
  assume "c AND NOT 0x000F = 0"
  then have "c = c AND 0x000F"
    using bit.conj_disj_distrib[of c "0x000F" "NOT 0x000F"] by simp
  then show ?thesis using word_and_le1[of c "0x000F"] by simp
qed

lemma peek_fast:
  assumes "entityTable_ok tb" and "ss_wf s" and "charref_ok tb s" and "ss_pushedChar2 s \<noteq> 0"
  shows "snd (snd (peek t s)) = s"
proof -
  have p: "ss_pushedChar1 s \<noteq> 0" using assms by (auto simp: ss_wf_def)
  have "ss_pushedChar1 s = 0x23 \<or> isAlphaNumeric (ss_pushedChar1 s) \<or> ss_pushedChar1 s = 0x3B"
    using assms entity_prefix_chars[OF assms(1), of "[ss_pushedChar1 s, ss_pushedChar2 s]" "ss_pushedChar1 s"]
    by (auto simp: charref_ok_def split: if_splits)
  then have "\<not> ss_pushedChar1 s \<le> 0x000F"
    by (auto simp: isAlphaNumeric_def word_le_nat_alt)
  then have "ss_pushedChar1 s AND NOT 0x000F \<noteq> 0" using control_character by blast
  then show ?thesis using p by (subst peek.simps) (simp add: current_def)
qed

text \<open>The part of a call after the pending end tag.\<close>

lemma resume_ok:
  assumes ok: "entityTable_ok (env_entities env)" and inv: "settled env t s"
  shows "finished env s (if isEmpty s then Some (haveBufferedCharacterToken t, t, s)
    else case peek t s of (found, t, s) \<Rightarrow>
      if found then run env t s (m_nextInputCharacter t) else Some (haveBufferedCharacterToken t, t, s))"
proof (cases "isEmpty s")
  case True
  then show ?thesis
    using settled_return[OF inv] inv behind_refl[of s] by (simp add: finished_def settled_def source_ok_def)
next
  case False
  have w: "ss_wf s" "no_amp s" using inv by (simp_all add: settled_def source_ok_def)
  obtain found t' u where pk: "peek t s = (found, t', u)" by (metis prod_cases3)
  have po: "peek_ok t s (found, t', u)" using peek_spec[OF w, of t] False pk w by (simp add: isEmpty_iff)
  have same: "same_core t t'" and ps: "passed s u" using po by (simp_all add: peek_ok_def)
  have su: "source_ok env (m_state t) u"
  proof (cases "ss_pushedChar2 s = 0 \<or> \<not> charref_state (m_state t)")
    case True
    then show ?thesis
      using source_ok_passed[OF _ ps] inv by (auto simp: settled_def)
  next
    case False
    then have "charref_ok (env_entities env) s" using inv by (simp add: settled_def source_ok_def)
    with False have "u = s" using pk peek_fast[OF ok w(1), of t] by simp
    with inv show ?thesis by (simp add: settled_def)
  qed
  have st: "settled env t' u" using same_core_settled[OF same, of env u] su inv by (simp add: settled_def)
  show ?thesis
  proof (cases found)
    case True
    then have "running env t' u (m_nextInputCharacter t')"
      using st po by (simp add: running_def settled_def good_def peek_ok_def)
    from finished_behind[OF run_ok[OF ok this] passed_behind[OF ps]] True False pk show ?thesis by simp
  next
    case nf: False
    with settled_return[OF st] passed_behind[OF ps] False pk show ?thesis by (simp add: finished_def)
  qed
qed

lemma nextToken_ok:
  assumes ok: "entityTable_ok (env_entities env)" and call: "callable env token t s"
  shows "finished env s (nextToken env token t s)"
proof (cases "pending t")
  case False
  have "settled env (t\<lparr>m_token := token\<rparr>) s"
    using call fresh_settled(1)[of env t s token] False by (auto simp: callable_def)
  from resume_ok[OF ok this] False show ?thesis
    by (cases "m_bufferedEndTagName t = []"; cases "isEmpty s")
      (simp_all add: nextToken_def pending_def Let_def)
next
  case True
  then have em: "emitted env t s" "tk_sound token" "tk_type token = Uninitialized"
    using call settled_not_pending[of env "t\<lparr>m_token := token\<rparr>" s] by (auto simp: callable_def)
  let ?t = "(onToken (beginEndTag (m_bufferedEndTagName t)) (t\<lparr>m_token := token\<rparr>))
        \<lparr>m_bufferedEndTagName := [], m_temporaryBuffer := []\<rparr>"
  show ?thesis
  proof (cases "m_state t = DataState")
    case data: True
    then have "nextToken env token t s = Some (True, ?t, s)"
      using True by (simp add: nextToken_def pending_def Let_def)
    moreover have "behind s s" using em(1) behind_refl[of s] by (simp add: emitted_def source_ok_def)
    ultimately show ?thesis using fresh_settled(3)[OF em True data] by (auto simp: finished_def)
  next
    case nd: False
    from resume_ok[OF ok fresh_settled(2)[OF em True nd]] nd True
    show ?thesis by (cases "isEmpty s") (simp_all add: nextToken_def pending_def Let_def)
  qed
qed

end
