(* ===== verification/HTML_Input.thy ===== *)
theory HTML_Input
  imports HTML_Tokenizer
begin

section \<open>The input stream and the source tracker of the HTML parser\<close>

text \<open>
  \<^verbatim>\<open>html/parser/HTMLInputStream.h\<close>: the text the parser still has to read is a sequence of
  segmented strings. The parser consumes the first; \<^verbatim>\<open>document.write\<close> appends to the first; the
  network appends to the last. An \<open>insertionPoint\<close> (class \<^verbatim>\<open>InsertionPointRecord\<close>) lives on the
  stack of the C++ program while a script runs and holds the text after the insertion point. The
  records alive are a list, the oldest first, and the pointer \<^verbatim>\<open>m_last\<close> is the address of the
  first string or the index of a record.

  \<^verbatim>\<open>html/parser/HTMLSourceTracker.cpp\<close>: recovers the source text of a token.
\<close>

subsection \<open>The input stream\<close>

datatype segPtr = FirstPtr | NextPtr nat

record insertionPoint =
  ip_next :: segmentedString
  ip_line :: int
  ip_column :: int

record inputStream =
  is_first :: segmentedString
  is_records :: "insertionPoint list"
  is_last :: segPtr

definition HTMLInputStream :: inputStream where
  "HTMLInputStream = \<lparr>is_first = SegmentedString [], is_records = [], is_last = FirstPtr\<rparr>"

text \<open>Reading and writing through \<^verbatim>\<open>m_last\<close>.\<close>

definition readLast :: "inputStream \<Rightarrow> segmentedString" where
  "readLast st = (case is_last st of FirstPtr \<Rightarrow> is_first st | NextPtr i \<Rightarrow> ip_next (is_records st ! i))"

definition updateLast :: "(segmentedString \<Rightarrow> segmentedString) \<Rightarrow> inputStream \<Rightarrow> inputStream" where
  "updateLast f st = (case is_last st of
     FirstPtr \<Rightarrow> st\<lparr>is_first := f (is_first st)\<rparr>
   | NextPtr i \<Rightarrow> st\<lparr>is_records := (is_records st)
       [i := (is_records st ! i)\<lparr>ip_next := f (ip_next (is_records st ! i))\<rparr>]\<rparr>)"

definition appendToEnd :: "segmentedString \<Rightarrow> inputStream \<Rightarrow> inputStream" where
  "appendToEnd string st = updateLast (ss_append string) st"

definition insertAtCurrentInsertionPoint :: "segmentedString \<Rightarrow> inputStream \<Rightarrow> inputStream" where
  "insertAtCurrentInsertionPoint string st = st\<lparr>is_first := ss_append string (is_first st)\<rparr>"

definition hasInsertionPoint :: "inputStream \<Rightarrow> bool" where
  "hasInsertionPoint st \<longleftrightarrow> is_last st \<noteq> FirstPtr"

definition markEndOfFile :: "inputStream \<Rightarrow> inputStream" where
  "markEndOfFile st = updateLast close (updateLast (ss_append (SegmentedString [0])) st)"

definition haveSeenEndOfFile :: "inputStream \<Rightarrow> bool" where
  "haveSeenEndOfFile st = isClosed (readLast st)"

text \<open>\<open>splitInto\<close> for the string of the record at index \<open>next\<close>.\<close>

definition splitInto :: "nat \<Rightarrow> inputStream \<Rightarrow> inputStream" where
  "splitInto next st =
     (let st = st\<lparr>is_records := (is_records st)[next := (is_records st ! next)\<lparr>ip_next := is_first st\<rparr>],
                  is_first := SegmentedString []\<rparr>
      in if is_last st = FirstPtr then st\<lparr>is_last := NextPtr next\<rparr> else st)"

definition mergeFrom :: "nat \<Rightarrow> inputStream \<Rightarrow> inputStream" where
  "mergeFrom next st =
     (let string = ip_next (is_records st ! next);
          st = st\<lparr>is_first := ss_append string (is_first st)\<rparr>;
          st = (if is_last st = NextPtr next then st\<lparr>is_last := FirstPtr\<rparr> else st)
      in if isClosed string then st\<lparr>is_first := close (is_first st)\<rparr> else st)"

text \<open>The constructor and the destructor of an insertion point.\<close>

definition InsertionPointRecord :: "inputStream \<Rightarrow> inputStream" where
  "InsertionPointRecord st =
     (let line = currentLine (is_first st);
          column = currentColumn (is_first st);
          next = length (is_records st);
          st = st\<lparr>is_records := is_records st @
                 [\<lparr>ip_next = SegmentedString [], ip_line = line, ip_column = column\<rparr>]\<rparr>;
          st = splitInto next st
      in st\<lparr>is_first := setCurrentPosition line column 0 (is_first st)\<rparr>)"

definition destroyInsertionPoint :: "inputStream \<Rightarrow> inputStream" where
  "destroyInsertionPoint st =
     (let unparsedRemainderLength = int (ss_length (is_first st));
          next = length (is_records st) - 1;
          record = is_records st ! next;
          st = mergeFrom next st
      in st\<lparr>is_first := setCurrentPosition (ip_line record) (ip_column record)
              unparsedRemainderLength (is_first st),
            is_records := butlast (is_records st)\<rparr>)"

subsection \<open>The source tracker\<close>

record sourceTracker =
  st_previousSource :: segmentedString
  st_currentSource :: segmentedString
  st_cachedSourceForToken :: ustring

definition HTMLSourceTracker :: sourceTracker where
  "HTMLSourceTracker = \<lparr>st_previousSource = SegmentedString [], st_currentSource = SegmentedString [],
     st_cachedSourceForToken = []\<rparr>"

definition tracker_start ::
  "inputStream \<Rightarrow> tokenizer \<Rightarrow> token \<Rightarrow> sourceTracker \<Rightarrow> token \<times> sourceTracker" where
  "tracker_start input t tk tr =
     (let previous = (if tk_type tk = Uninitialized
            then if numberOfBufferedCharacters t \<noteq> 0 then SegmentedString (bufferedCharacters t)
                 else clear (st_previousSource tr)
            else ss_append (st_currentSource tr) (st_previousSource tr));
          source = is_first input
      in (setBaseOffset (numberOfCharactersConsumed source - int (ss_length previous)) tk,
          tr\<lparr>st_previousSource := previous, st_currentSource := source\<rparr>))"

definition tracker_end ::
  "inputStream \<Rightarrow> tokenizer \<Rightarrow> token \<Rightarrow> sourceTracker \<Rightarrow> token \<times> sourceTracker" where
  "tracker_end input t tk tr =
     (token_end (numberOfCharactersConsumed (is_first input) - int (numberOfBufferedCharacters t)) tk,
      tr\<lparr>st_cachedSourceForToken := []\<rparr>)"

text \<open>
  The two loops of \<open>sourceForToken\<close>: up to \<open>n\<close> characters while the string lasts, then exactly
  the rest. Reading past the end of the second string is a null pointer access, here \<open>None\<close>.
\<close>

primrec takeWhileNotEmpty :: "nat \<Rightarrow> segmentedString \<Rightarrow> ustring \<Rightarrow> nat \<times> segmentedString \<times> ustring" where
  "takeWhileNotEmpty 0 s source = (0, s, source)"
| "takeWhileNotEmpty (Suc n) s source =
     (if isEmpty s then (Suc n, s, source)
      else takeWhileNotEmpty n (advance s) (source @ [the (current s)]))"

primrec takeExactly :: "nat \<Rightarrow> segmentedString \<Rightarrow> ustring \<Rightarrow> (segmentedString \<times> ustring) option" where
  "takeExactly 0 s source = Some (s, source)"
| "takeExactly (Suc n) s source = (case current s of
     None \<Rightarrow> None
   | Some c \<Rightarrow> takeExactly n (advance s) (source @ [c]))"

definition sourceForToken :: "token \<Rightarrow> sourceTracker \<Rightarrow> (ustring \<times> sourceTracker) option" where
  "sourceForToken tk tr =
     (if tk_type tk = EndOfFile then Some ([], tr)
      else if st_cachedSourceForToken tr \<noteq> [] then Some (st_cachedSourceForToken tr, tr)
      else let length = nat ((tk_rangeEnd tk - tk_rangeStart tk) mod 2 ^ 64)
           in case takeWhileNotEmpty length (st_previousSource tr) [] of (rest, previous, source) \<Rightarrow>
                case takeExactly rest (st_currentSource tr) source of
                  None \<Rightarrow> None
                | Some (rem, source) \<Rightarrow>
                    Some (source, tr\<lparr>st_previousSource := previous, st_currentSource := rem,
                            st_cachedSourceForToken := source\<rparr>))"

subsection \<open>The input stream as one text\<close>

definition stream_text :: "inputStream \<Rightarrow> ustring" where
  "stream_text st = toString (is_first st) @ concat (map (toString \<circ> ip_next) (rev (is_records st)))"

text \<open>
  The invariant: \<open>m_last\<close> points to the oldest record, or to the first string when there is none;
  strings are well-formed, a string after the insertion point has no pushed character, and only
  the last string may be closed.
\<close>

definition stream_ok :: "inputStream \<Rightarrow> bool" where
  "stream_ok st \<longleftrightarrow>
     is_last st = (if is_records st = [] then FirstPtr else NextPtr 0) \<and> ss_wf (is_first st) \<and>
     (\<forall>r \<in> set (is_records st). ss_wf (ip_next r) \<and> ss_pushedChar1 (ip_next r) = 0) \<and>
     (is_records st \<noteq> [] \<longrightarrow> \<not> ss_closed (is_first st)) \<and>
     (\<forall>r \<in> set (tl (is_records st)). \<not> ss_closed (ip_next r))"

definition unescaped :: "segmentedString \<Rightarrow> bool" where
  "unescaped s \<longleftrightarrow> ss_wf s \<and> ss_pushedChar1 s = 0"

lemma pushed_append: "ss_pushedChar1 (ss_append u s) = ss_pushedChar1 s" "ss_pushedChar2 (ss_append u s) = ss_pushedChar2 s"
proof -
  have "ss_pushedChar1 (fold append_sub ts v) = ss_pushedChar1 v \<and> ss_pushedChar2 (fold append_sub ts v) = ss_pushedChar2 v" for ts v
    by (induction ts arbitrary: v) (simp_all add: append_sub_def)
  then show "ss_pushedChar1 (ss_append u s) = ss_pushedChar1 s" "ss_pushedChar2 (ss_append u s) = ss_pushedChar2 s"
    by (simp_all add: ss_append_def append_sub_def)
qed

lemma basic_close: "ss_wf (close s) = ss_wf s" "toString (close s) = toString s"
  "ss_pushedChar1 (close s) = ss_pushedChar1 s" "ss_closed (close s)"
  by (simp_all add: close_def ss_basic)

lemma basic_setCurrentPosition:
  "ss_wf (setCurrentPosition l c n s) = ss_wf s" "toString (setCurrentPosition l c n s) = toString s"
  "ss_closed (setCurrentPosition l c n s) = ss_closed s"
  "ss_pushedChar1 (setCurrentPosition l c n s) = ss_pushedChar1 s"
  "numberOfCharactersConsumed (setCurrentPosition l c n s) = numberOfCharactersConsumed s"
  by (simp_all add: setCurrentPosition_def ss_basic)

lemma basic_empty: "ss_pushedChar1 (SegmentedString x) = 0" "\<not> ss_closed (SegmentedString x)"
  by (simp_all add: SegmentedString_def)

lemmas stream_basic = pushed_append basic_close basic_setCurrentPosition basic_empty

text \<open>Writing through \<open>m_last\<close> changes the end of the text.\<close>

lemma updateLast_ok:
  assumes ok: "stream_ok st"
    and f: "\<And>s. ss_wf s \<Longrightarrow> ss_wf (f s) \<and> toString (f s) = toString s @ x \<and> ss_pushedChar1 (f s) = ss_pushedChar1 s"
  shows "stream_ok (updateLast f st)" and "stream_text (updateLast f st) = stream_text st @ x"
    and "readLast (updateLast f st) = f (readLast st)"
  using assms
  by (cases "is_records st"; auto simp: stream_ok_def updateLast_def stream_text_def readLast_def)+

lemma appendToEnd_ok:
  assumes "stream_ok st" and "unescaped u"
  shows "stream_ok (appendToEnd u st)" and "stream_text (appendToEnd u st) = stream_text st @ toString u"
    and "readLast (appendToEnd u st) = ss_append u (readLast st)"
  using updateLast_ok[OF assms(1), of "ss_append u" "toString u"] assms(2)
  by (simp_all add: appendToEnd_def wf_append stream_basic unescaped_def)

lemma markEndOfFile_ok:
  assumes "stream_ok st"
  shows "stream_ok (markEndOfFile st)" and "stream_text (markEndOfFile st) = stream_text st @ [0]"
    and "haveSeenEndOfFile (markEndOfFile st)"
proof -
  note A = appendToEnd_ok[OF assms, of "SegmentedString [0]", unfolded appendToEnd_def]
  have u: "unescaped (SegmentedString [0])" by (simp add: unescaped_def stream_basic)
  note B = updateLast_ok[OF A(1)[OF u], of close "[]"]
  show "stream_ok (markEndOfFile st)" "stream_text (markEndOfFile st) = stream_text st @ [0]"
    "haveSeenEndOfFile (markEndOfFile st)"
    using A(2)[OF u] B
    by (simp_all add: markEndOfFile_def haveSeenEndOfFile_def isClosed_def stream_basic)
qed

lemma insert_ok:
  assumes "stream_ok st" and "unescaped u"
  shows "stream_ok (insertAtCurrentInsertionPoint u st)"
    and "stream_text (insertAtCurrentInsertionPoint u st) =
      toString (is_first st) @ toString u @ drop (length (toString (is_first st))) (stream_text st)"
  using assms
  by (auto simp: stream_ok_def insertAtCurrentInsertionPoint_def wf_append unescaped_def stream_text_def)

text \<open>Opening an insertion point moves the text behind it.\<close>

lemma InsertionPointRecord_ok:
  assumes "stream_ok st" and "ss_pushedChar1 (is_first st) = 0"
  shows "stream_ok (InsertionPointRecord st)" and "stream_text (InsertionPointRecord st) = stream_text st"
    and "toString (is_first (InsertionPointRecord st)) = []" and "hasInsertionPoint (InsertionPointRecord st)"
    and "haveSeenEndOfFile (InsertionPointRecord st) = haveSeenEndOfFile st"
    and "is_records (InsertionPointRecord st) = is_records st @
      [\<lparr>ip_next = is_first st, ip_line = currentLine (is_first st), ip_column = currentColumn (is_first st)\<rparr>]"
proof -
  have eq: "InsertionPointRecord st = \<lparr>is_first = setCurrentPosition (currentLine (is_first st))
        (currentColumn (is_first st)) 0 (SegmentedString []),
      is_records = is_records st @ [\<lparr>ip_next = is_first st, ip_line = currentLine (is_first st),
        ip_column = currentColumn (is_first st)\<rparr>],
      is_last = NextPtr 0\<rparr>"
    using assms by (cases st) (auto simp: InsertionPointRecord_def splitInto_def stream_ok_def Let_def)
  show "stream_ok (InsertionPointRecord st)" "stream_text (InsertionPointRecord st) = stream_text st"
    "toString (is_first (InsertionPointRecord st)) = []" "hasInsertionPoint (InsertionPointRecord st)"
    "is_records (InsertionPointRecord st) = is_records st @
      [\<lparr>ip_next = is_first st, ip_line = currentLine (is_first st), ip_column = currentColumn (is_first st)\<rparr>]"
    unfolding eq using assms
    by (auto simp: stream_ok_def stream_basic stream_text_def hasInsertionPoint_def tl_append split: list.splits)
  show "haveSeenEndOfFile (InsertionPointRecord st) = haveSeenEndOfFile st"
    unfolding eq using assms
    by (cases "is_records st") (auto simp: haveSeenEndOfFile_def readLast_def stream_ok_def)
qed

text \<open>Closing one puts the text back, and the position with it.\<close>

lemma destroyInsertionPoint_ok:
  assumes ok: "stream_ok st" and rs: "is_records st = rs @ [r]"
  shows "stream_ok (destroyInsertionPoint st)" and "stream_text (destroyInsertionPoint st) = stream_text st"
    and "is_records (destroyInsertionPoint st) = rs"
    and "haveSeenEndOfFile (destroyInsertionPoint st) = haveSeenEndOfFile st"
    and "currentLine (is_first (destroyInsertionPoint st)) = ip_line r"
    and "toString (is_first (destroyInsertionPoint st)) = toString (is_first st) @ toString (ip_next r)"
    and "currentColumn ((advance ^^ length (toString (is_first st))) (is_first (destroyInsertionPoint st))) = ip_column r"
proof -
  have r: "ss_wf (ip_next r)" "ss_pushedChar1 (ip_next r) = 0" and w: "ss_wf (is_first st)"
    and lst: "is_last st = NextPtr 0" and op: "\<not> ss_closed (is_first st)"
    using ok rs by (auto simp: stream_ok_def)
  let ?a = "ss_append (ip_next r) (is_first st)"
  let ?f = "setCurrentPosition (ip_line r) (ip_column r) (int (ss_length (is_first st)))
    (if ss_closed (ip_next r) then close ?a else ?a)"
  have eq: "destroyInsertionPoint st =
      \<lparr>is_first = ?f, is_records = rs, is_last = (if rs = [] then FirstPtr else NextPtr 0)\<rparr>"
    using rs lst by (cases st) (auto simp: destroyInsertionPoint_def mergeFrom_def isClosed_def Let_def)
  have f: "ss_wf ?f" "toString ?f = toString (is_first st) @ toString (ip_next r)"
    "ss_closed ?f = ss_closed (ip_next r)" "ss_pushedChar1 ?f = ss_pushedChar1 (is_first st)"
    using w r op by (simp_all add: stream_basic wf_append)
  show "stream_ok (destroyInsertionPoint st)" "stream_text (destroyInsertionPoint st) = stream_text st"
    "is_records (destroyInsertionPoint st) = rs"
    "haveSeenEndOfFile (destroyInsertionPoint st) = haveSeenEndOfFile st"
    unfolding eq using ok rs f lst
    by (cases rs; auto simp: stream_ok_def stream_text_def haveSeenEndOfFile_def readLast_def isClosed_def)+
  show "currentLine (is_first (destroyInsertionPoint st)) = ip_line r"
    unfolding eq by (simp add: currentLine_def setCurrentPosition_def)
  show "toString (is_first (destroyInsertionPoint st)) = toString (is_first st) @ toString (ip_next r)"
    unfolding eq using f by simp
  have line: "ss_priorToCurrentLine ((advance ^^ n) s) = ss_priorToCurrentLine s" for n s
    by (induction n) (auto simp: advance_slow advanceSlowCase_def dropChar_def advanceSubstring_def Let_def split: list.splits)
  show "currentColumn ((advance ^^ length (toString (is_first st))) (is_first (destroyInsertionPoint st))) = ip_column r"
    unfolding eq using seg.steps_position[OF f(1), of "length (toString (is_first st))"] f(2)
    by (simp add: currentColumn_def line stream_basic ss_length_toString) (simp add: setCurrentPosition_def)
qed

subsection \<open>The source of a token\<close>

lemma takeWhileNotEmpty_spec:
  "ss_wf s \<Longrightarrow> takeWhileNotEmpty n s source =
     (n - length (toString s), (advance ^^ min n (length (toString s))) s, source @ take n (toString s))"
proof (induction n arbitrary: s source)
  case (Suc n)
  show ?case
  proof (cases "toString s")
    case Nil
    with Suc.prems show ?thesis by (simp add: isEmpty_iff)
  next
    case (Cons c cs)
    with Suc.prems Suc.IH[of "advance s" "source @ [c]"] show ?thesis
      by (simp add: isEmpty_iff current_toString wf_advance funpow_swap1)
  qed
qed simp

lemma takeExactly_spec:
  "ss_wf s \<Longrightarrow> n \<le> length (toString s) \<Longrightarrow>
     takeExactly n s source = Some ((advance ^^ n) s, source @ take n (toString s))"
proof (induction n arbitrary: s source)
  case (Suc n)
  then obtain c cs where "toString s = c # cs" by (cases "toString s") auto
  with Suc.prems Suc.IH[of "advance s" "source @ [c]"] show ?case
    by (simp add: current_toString wf_advance funpow_swap1)
qed simp

definition pendingSource :: "tokenizer \<Rightarrow> ustring" where
  "pendingSource t = (if m_temporaryBuffer t = [] then [] else bufferedCharacters t)"

lemma pendingSource_length: "length (pendingSource t) = numberOfBufferedCharacters t"
  by (simp add: pendingSource_def numberOfBufferedCharacters_def bufferedCharacters_def)

lemma tracker_start_fresh:
  assumes "tk_type tk = Uninitialized" and "tracker_start input t tk tr = (tk1, tr1)"
  shows "toString (st_previousSource tr1) = pendingSource t" "ss_wf (st_previousSource tr1)"
    "st_currentSource tr1 = is_first input"
    "tk_baseOffset tk1 = numberOfCharactersConsumed (is_first input) - int (length (pendingSource t))"
proof -
  have c: "toString (clear u) = [] \<and> ss_wf (clear u)" for u by (simp add: clear_def sub_clear_def ss_basic)
  have p: "ss_wf (st_previousSource tr1) \<and> toString (st_previousSource tr1) = pendingSource t"
    using assms c[of "st_previousSource tr"]
    by (auto simp: tracker_start_def pendingSource_def numberOfBufferedCharacters_def Let_def)
  then show "toString (st_previousSource tr1) = pendingSource t" "ss_wf (st_previousSource tr1)" by simp_all
  with assms(2) show "st_currentSource tr1 = is_first input"
    "tk_baseOffset tk1 = numberOfCharactersConsumed (is_first input) - int (length (pendingSource t))"
    by (auto simp: tracker_start_def setBaseOffset_def ss_length_toString Let_def)
qed

text \<open>
  For a token read by one call from \<open>s\<close> to a later source \<open>u\<close>: the recovered source is what the
  tokenizer had buffered before, then the text read, without what it buffers now.
\<close>

lemma sourceForToken_spec:
  assumes fresh: "tk_type tk = Uninitialized" and s: "ss_wf (is_first input)"
    and start: "tracker_start input t tk tr = (tk1, tr1)"
    and tok: "tk_type tk2 \<noteq> EndOfFile" "tk_baseOffset tk2 = tk_baseOffset tk1" "tk_rangeStart tk2 = 0"
    and u: "numberOfCharactersConsumed (is_first input') + int (length (toString (is_first input'))) =
      numberOfCharactersConsumed (is_first input) + int (length (toString (is_first input)))"
      "toString (is_first input) = consumed @ toString (is_first input')"
    and fin: "tracker_end input' t' tk2 tr1 = (tk3, tr2)"
    and buf: "pendingSource t @ consumed = source @ pendingSource t'"
      "length (pendingSource t @ consumed) < 2 ^ 64"
  shows "\<exists>tr3. sourceForToken tk3 tr2 = Some (source, tr3)"
proof -
  note S = tracker_start_fresh[OF fresh start]
  let ?P = "pendingSource t" and ?T = "toString (is_first input)"
  have tr2: "st_previousSource tr2 = st_previousSource tr1" "st_currentSource tr2 = st_currentSource tr1"
    "st_cachedSourceForToken tr2 = []" and tk3: "tk_type tk3 = tk_type tk2" "tk_rangeStart tk3 = 0"
    using fin tok by (auto simp: tracker_end_def token_end_def)
  have "tk_rangeEnd tk3 = int (length ?P) + int (length consumed) - int (length (pendingSource t'))"
    using fin tok S(4) u by (auto simp: tracker_end_def token_end_def pendingSource_length)
  also have "\<dots> = int (length source)"
    using arg_cong[OF buf(1), of length] by simp
  finally have len: "nat ((tk_rangeEnd tk3 - tk_rangeStart tk3) mod 2 ^ 64) = length source"
    using buf tk3(2) arg_cong[OF buf(1), of length] by simp
  have n: "length source - length ?P \<le> length ?T"
    using arg_cong[OF buf(1), of length] u(2) by simp
  have src: "take (length source) ?P @ take (length source - length ?P) ?T = source"
  proof -
    have "take (length source) (?P @ ?T) = take (length source) (?P @ consumed)"
      using arg_cong[OF buf(1), of length] u(2) by simp
    also have "\<dots> = source" by (simp add: buf(1))
    finally show ?thesis by simp
  qed
  show ?thesis
    using takeWhileNotEmpty_spec[OF S(2), of "length source" "[]"]
      takeExactly_spec[OF s n, of "take (length source) ?P"] src len tok(1)
    by (simp add: sourceForToken_def tr2 tk3 S(1,3) Let_def)
qed

end
