(* ===== verification/HTML_Session.thy ===== *)
theory HTML_Session
  imports HTML_Tokenizer_Correct HTML_Input
begin

section \<open>Sessions of the HTML tokenizer\<close>

text \<open>
  How the clients of the tokenizer use it (\<^verbatim>\<open>HTMLDocumentParser::pumpTokenizer\<close>,
  \<^verbatim>\<open>HTMLPreloadScanner::scan\<close>, \<^verbatim>\<open>HTMLViewSourceParser\<close>): text arrives in pieces, \<open>nextToken\<close> is
  called with the same token until it is complete, and a complete token is processed and
  cleared. Processing a start tag may move the tokenizer into a raw text state (\<open>updateStateFor\<close>)
  and set its two flags; the source tracker sets the base offset of the token. A \<open>session\<close> is any
  sequence of these steps.
\<close>

inductive consumer :: "tokenizer \<Rightarrow> tokenizer \<Rightarrow> bool" for t where
  keep: "consumer t t"
| retarget: "consumer t u \<Longrightarrow> tk_type (m_token u) = StartTag \<Longrightarrow> consumer t (updateStateFor name p sc u)"
| allowCDATA: "consumer t u \<Longrightarrow> consumer t (u\<lparr>m_shouldAllowCDATA := b\<rparr>)"
| forceNulls: "consumer t u \<Longrightarrow> consumer t (u\<lparr>m_forceNullCharacterReplacement := b\<rparr>)"

inductive session :: "tokenizer_env \<Rightarrow> tokenizer \<Rightarrow> token \<Rightarrow> segmentedString \<Rightarrow> bool" for env where
  opened: "session env (HTMLTokenizer quirks) newToken (SegmentedString chars)"
| receive: "session env t tk s \<Longrightarrow> \<not> isClosed s \<Longrightarrow> unescaped u \<Longrightarrow> session env t tk (ss_append u s)"
| finish: "session env t tk s \<Longrightarrow> \<not> isClosed s \<Longrightarrow>
    session env t tk (close (ss_append (SegmentedString [0]) s))"
| offset: "session env t tk s \<Longrightarrow> session env t (setBaseOffset n tk) s"
| partial: "session env t tk s \<Longrightarrow> nextToken env tk t s = Some (False, t', s') \<Longrightarrow>
    session env t' (m_token t') s'"
| complete: "session env t tk s \<Longrightarrow> nextToken env tk t s = Some (True, t', s') \<Longrightarrow> consumer t' t'' \<Longrightarrow>
    session env t'' (token_clear (m_token t'')) s'"

inductive_cases session_cases: "session env t tk s"

subsection \<open>Every session keeps the tokenizer callable\<close>

text \<open>What processing a complete token leaves.\<close>

definition processed :: "tokenizer_env \<Rightarrow> tokenizer \<Rightarrow> segmentedString \<Rightarrow> bool" where
  "processed env t s \<longleftrightarrow> tk_sound (m_token t) \<and> (tk_type (m_token t) = StartTag \<longrightarrow> m_bufferedEndTagName t = []) \<and>
     (if pending t then emitted env t s else settled env (t\<lparr>m_token := token_clear (m_token t)\<rparr>) s)"

lemma token_clear_fields: "tk_sound (token_clear tk) = tk_sound tk" "tk_type (token_clear tk) = Uninitialized"
  by (simp_all add: token_clear_def)

lemma emitted_processed: "emitted env t s \<Longrightarrow> processed env t s"
  using fresh_settled(1)[of env t s "token_clear (m_token t)"]
  by (auto simp: processed_def token_clear_fields emitted_def)

lemma updateStateFor_state:
  "updateStateFor name p sc t = t \<or>
   (\<exists>st \<in> {RCDATAState, PLAINTEXTState, ScriptDataState, RAWTEXTState}. updateStateFor name p sc t = t\<lparr>m_state := st\<rparr>)"
  by (simp add: updateStateFor_def)

lemma raw_text_state_settled:
  assumes "settled env (t\<lparr>m_token := tk\<rparr>) s" and "m_bufferedEndTagName t = []" and "good TextK tk"
    and "st \<in> {RCDATAState, PLAINTEXTState, ScriptDataState, RAWTEXTState}"
  shows "settled env (t\<lparr>m_state := st, m_token := tk\<rparr>) s"
proof -
  have "state_kind st = TextK" "\<not> isEndTagNameState st" "\<not> charref_state st"
    "st \<noteq> CharacterReferenceInAttributeValueState"
    using assms(4) by (auto simp: state_sets)
  then show ?thesis using assms(1-3) by (simp add: settled_def buffers_ok_def allowed_ok_def source_ok_def)
qed

lemma processed_flags:
  "processed env (t\<lparr>m_shouldAllowCDATA := b\<rparr>) s = processed env t s"
  "processed env (t\<lparr>m_forceNullCharacterReplacement := b\<rparr>) s = processed env t s"
  by (simp_all add: processed_def pending_def settled_def emitted_def buffers_ok_def allowed_ok_def)

lemma consumer_processed: "consumer t u \<Longrightarrow> processed env t s \<Longrightarrow> processed env u s"
proof (induction rule: consumer.induct)
  case (retarget u name p sc)
  let ?tk = "token_clear (m_token u)"
  have u: "m_bufferedEndTagName u = []" "tk_sound (m_token u)" "settled env (u\<lparr>m_token := ?tk\<rparr>) s"
    using retarget by (auto simp: processed_def pending_def)
  have g: "good TextK ?tk" using u(2) by (simp add: good_def token_clear_fields)
  from updateStateFor_state[of name p sc u] show ?case
  proof (elim disjE bexE)
    fix st assume st: "st \<in> {RCDATAState, PLAINTEXTState, ScriptDataState, RAWTEXTState}"
      and up: "updateStateFor name p sc u = u\<lparr>m_state := st\<rparr>"
    show ?thesis
      using u(1,2) raw_text_state_settled[OF u(3,1) g st] by (simp add: processed_def up pending_def)
  qed (use retarget in simp)
qed (simp_all add: processed_flags)

lemma processed_callable: "processed env t s \<Longrightarrow> callable env (token_clear (m_token t)) t s"
  by (auto simp: processed_def callable_def token_clear_fields split: if_splits)

lemma source_ok_append:
  assumes "source_ok env st s" and "unescaped u"
  shows "source_ok env st (ss_append u s)" and "source_ok env st (close (ss_append u s))"
  using assms
  by (simp_all add: source_ok_def wf_append unescaped_def stream_basic no_amp_def charref_ok_def)
    (simp_all add: close_def stream_basic)

lemma callable_source:
  assumes "callable env tk t s" and "\<And>st. source_ok env st s \<Longrightarrow> source_ok env st u"
  shows "callable env tk t u"
  using assms by (auto simp: callable_def settled_def emitted_def)

lemma setBaseOffset_fields:
  "good k (setBaseOffset n tk) = good k tk" "tk_sound (setBaseOffset n tk) = tk_sound tk"
  "tk_type (setBaseOffset n tk) = tk_type tk"
  by (cases k) (simp_all add: good_def setBaseOffset_def isTag_def doctype_with_def)

lemma session_callable:
  assumes "entityTable_ok (env_entities env)"
  shows "session env t tk s \<Longrightarrow> callable env tk t s"
proof (induction rule: session.induct)
  case (opened quirks chars)
  show ?case
    by (simp add: callable_def settled_def HTMLTokenizer_def newToken_def good_def buffers_ok_def allowed_ok_def
        source_ok_def charref_state_def no_amp_def SegmentedString_def) (simp add: ss_wf_def SegmentedSubstring_def)
next
  case (receive t tk s u)
  then show ?case using callable_source source_ok_append(1) by blast
next
  case (finish t tk s)
  have "unescaped (SegmentedString [0])" by (simp add: unescaped_def stream_basic)
  with finish show ?case using callable_source source_ok_append(2) by blast
next
  case (offset t tk s n)
  then show ?case by (simp add: callable_def settled_def setBaseOffset_fields buffers_ok_def allowed_ok_def)
next
  case (partial t tk s t' s')
  with nextToken_ok[OF assms partial.IH] show ?case by (auto simp: finished_def callable_def)
next
  case (complete t tk s t' s' t'')
  with nextToken_ok[OF assms complete.IH] have "emitted env t' s'" by (auto simp: finished_def)
  then show ?case
    using processed_callable consumer_processed[OF complete.hyps(3)] emitted_processed by blast
qed

subsection \<open>Plain text\<close>

text \<open>
  What the preprocessor makes of raw text: a carriage return, alone or before a newline, is a
  newline, and a null character is U+FFFD. The flag says that the previous character was a
  carriage return.
\<close>

fun normalise :: "bool \<Rightarrow> ustring \<Rightarrow> ustring" where
  "normalise b [] = []"
| "normalise b (c # cs) =
     (if b \<and> c = 0x0A then normalise False cs
      else if c = 0x0D then 0x0A # normalise True cs
      else if c = 0 then 0xFFFD # normalise False cs
      else c # normalise False cs)"

fun afterReturn :: "bool \<Rightarrow> ustring \<Rightarrow> bool" where
  "afterReturn b [] = b"
| "afterReturn b (c # cs) = afterReturn (c = 0x0D) cs"

lemma normalise_append: "normalise b (xs @ ys) = normalise b xs @ normalise (afterReturn b xs) ys"
  by (induction b xs rule: normalise.induct) auto

definition normalChar :: "uchar \<Rightarrow> uchar" where
  "normalChar c = (if c = 0x0D then 0x0A else if c = 0 then 0xFFFD else c)"

text \<open>The text without a newline that belongs to a carriage return.\<close>

definition stripNewline :: "bool \<Rightarrow> ustring \<Rightarrow> ustring" where
  "stripNewline b cs = (if b \<and> cs \<noteq> [] \<and> hd cs = 0x0A then tl cs else cs)"

lemma normalise_strip:
  assumes "cs \<noteq> []"
  shows "normalise b cs = (case stripNewline b cs of [] \<Rightarrow> [] | d # ds \<Rightarrow> normalChar d # normalise (d = 0x0D) ds)"
    and "afterReturn b cs = (case stripNewline b cs of [] \<Rightarrow> False | d # ds \<Rightarrow> afterReturn (d = 0x0D) ds)"
  using assms
  by (cases cs; cases "tl cs"; auto simp: stripNewline_def normalChar_def)+

definition peeked :: "tokenizer \<Rightarrow> segmentedString \<Rightarrow> tokenizer \<Rightarrow> segmentedString \<Rightarrow> bool" where
  "peeked t s t' s' \<longleftrightarrow> same_core t t' \<and> ss_wf s' \<and> \<not> ss_closed s' \<and>
     toString s' = stripNewline (m_skipNextNewLine t) (toString s) \<and>
     m_skipNextNewLine t' = (\<exists>ds. toString s' = 0x0D # ds)"

lemma peek_plain:
  assumes wf: "ss_wf s" and op: "\<not> ss_closed s" and T: "toString s \<noteq> []"
    and ns: "\<not> shouldSkipNullCharacters t"
  shows "\<exists>t' s'. peek t s = (toString s' \<noteq> [], t', s') \<and> peeked t s t' s' \<and>
    (\<forall>d ds. toString s' = d # ds \<longrightarrow> m_nextInputCharacter t' = normalChar d)"
proof -
  obtain c cs where c: "toString s = c # cs" "current s = Some c"
    using wf T by (cases "toString s") (auto simp: current_toString)
  obtain t1 s1 where sk: "skipNewLine t s = (t1, s1)" by fastforce
  have s1: "ss_wf s1" "ss_closed s1 = ss_closed s" "toString s1 = stripNewline (m_skipNextNewLine t) (toString s)"
    and t1: "same_core t t1" "m_skipNextNewLine t1 \<longrightarrow> c \<noteq> 0x0A"
    using sk c wf advancePastNewline_line[of s "m_lineNumber t"]
      same_text_dests[OF advance_line_same_text[of s "m_lineNumber t"]]
    by (auto simp: skipNewLine_def stripNewline_def same_core_def wf_advance split: if_splits prod.splits)
  have fast: "c \<noteq> 0 \<and> c \<noteq> 0x0D \<and> c \<noteq> 0x0A" if "c AND NOT 0x000F \<noteq> 0" using that by auto
  have ns1: "\<not> shouldSkipNullCharacters (t1\<lparr>m_nextInputCharacter := x, m_skipNextNewLine := y\<rparr>)" for x y
    using ns t1 by (simp add: shouldSkipNullCharacters_def same_core_def)
  have eof: "\<not> shouldTreatNullAsEndOfFileMarker s1"
    using op s1 by (simp add: shouldTreatNullAsEndOfFileMarker_def isClosed_def)
  have c1: "current s1 = (case toString s1 of [] \<Rightarrow> None | d # ds \<Rightarrow> Some d)" using s1(1) by (rule current_toString)
  show ?thesis
  proof (cases "c AND NOT 0x000F \<noteq> 0")
    case True
    with fast c wf op show ?thesis
      by (subst peek.simps) (auto simp: peeked_def same_core_def normalChar_def stripNewline_def)
  next
    case False
    show ?thesis
    proof (cases "toString s1")
      case Nil
      then have "\<not> m_skipNextNewLine t1" using sk c(1,2) s1(3)
        by (auto simp: skipNewLine_def stripNewline_def split: if_splits prod.splits)
      with Nil False c sk c1 s1 op t1 show ?thesis
        by (subst peek.simps) (auto simp: isEmpty_def peeked_def same_core_def)
    next
      case (Cons d ds)
      then have "current s1 = Some d" using c1 by simp
      then have "peek t s = (True, t1\<lparr>m_nextInputCharacter := normalChar d, m_skipNextNewLine := (d = 0x0D)\<rparr>, s1)"
        using False c(2) sk ns1 eof by (subst peek.simps) (simp add: isEmpty_def normalChar_def Let_def)
      moreover have "same_core t (t1\<lparr>m_nextInputCharacter := normalChar d, m_skipNextNewLine := (d = 0x0D)\<rparr>)"
        using t1(1) by (simp add: same_core_def)
      ultimately show ?thesis using Cons s1 op by (auto simp: peeked_def)
    qed
  qed
qed

lemma run_plain:
  assumes "m_state t = PLAINTEXTState" and "good TextK (m_token t)" and "ss_wf s" and "\<not> ss_closed s"
    and "toString s = c # cs" and "m_skipNextNewLine t = (c = 0x0D)"
  shows "\<exists>t' s'. run env t s (normalChar c) = Some (True, t', s') \<and> toString s' = [] \<and>
    m_state t' = PLAINTEXTState \<and> good TextK (m_token t') \<and> tk_type (m_token t') = Character \<and>
    tk_data (m_token t') = tk_data (m_token t) @ normalChar c # normalise (c = 0x0D) cs \<and>
    m_skipNextNewLine t' = afterReturn (c = 0x0D) cs"
  using assms
proof (induction "length cs" arbitrary: t s c cs rule: less_induct)
  case less
  let ?t = "bufferCharacter (normalChar c) t\<lparr>m_state := PLAINTEXTState\<rparr>"
  obtain n u where adv: "advance_line (m_lineNumber ?t) s = (n, u)" by fastforce
  let ?t' = "?t\<lparr>m_lineNumber := n\<rparr>"
  have u: "ss_wf u" "\<not> ss_closed u" "toString u = cs"
    using same_text_dests[OF advance_line_same_text[of s "m_lineNumber ?t"]] adv wf_advance[OF less.prems(3)] less.prems
    by simp_all
  have tk: "good TextK (m_token ?t')" "tk_type (m_token ?t') = Character"
    "tk_data (m_token ?t') = tk_data (m_token t) @ [normalChar c]" "m_skipNextNewLine ?t' = (c = 0x0D)"
    using less.prems good_text[of "m_token t" "[normalChar c]"]
    by (simp_all add: bufferCharacter_def onToken_def appendToCharacter_def ensureIsCharacterToken_def assertT_def)
  have nz: "normalChar c \<noteq> 0" by (simp add: normalChar_def)
  have st: "step_PLAINTEXTState t s (normalChar c) = ADVANCE_TO PLAINTEXTState (bufferCharacter (normalChar c) t) s"
    using less.prems nz by (simp add: step_PLAINTEXTState_def)
  show ?case
  proof (cases "cs = []")
    case True
    with u tk less.prems adv show ?thesis
      by (subst run.simps) (simp add: st ADVANCE_TO_def pp_advance_def isEmpty_iff afterPeek_def
          haveBufferedCharacterToken_def)
  next
    case ne: False
    obtain t2 v where pk: "peek ?t' u = (toString v \<noteq> [], t2, v)" "peeked ?t' u t2 v"
      "\<And>d ds. toString v = d # ds \<Longrightarrow> m_nextInputCharacter t2 = normalChar d"
      using peek_plain[OF u(1,2), of ?t'] ne u(3) by (auto simp: shouldSkipNullCharacters_def)
    have v: "ss_wf v" "\<not> ss_closed v" "toString v = stripNewline (c = 0x0D) cs"
      "m_skipNextNewLine t2 = (\<exists>ds. toString v = 0x0D # ds)"
      and t2: "m_state t2 = PLAINTEXTState" "m_token t2 = m_token ?t'"
      using pk(2) u(3) tk(4) by (auto simp: peeked_def same_core_def)
    have out: "step_PLAINTEXTState t s (normalChar c) = afterPeek (toString v \<noteq> [], t2, v)"
      using ne u pk(1) adv by (simp add: st ADVANCE_TO_def pp_advance_def isEmpty_iff)
    note N = normalise_strip[OF ne, of "c = 0x0D", folded v(3)]
    show ?thesis
    proof (cases "toString v")
      case Nil
      with v(1,2,4) N tk t2 show ?thesis
        using less.prems(1) by (subst run.simps) (simp add: out afterPeek_def haveBufferedCharacterToken_def)
    next
      case (Cons d ds)
      then have "length ds < length cs"
        using v(3) ne by (cases cs) (auto simp: stripNewline_def split: if_splits)
      from less.hyps[OF this t2(1) _ v(1,2) Cons] tk t2 v(4) Cons
      obtain t' s' where r: "run env t2 v (normalChar d) = Some (True, t', s')" "toString s' = []"
        "m_state t' = PLAINTEXTState" "good TextK (m_token t')" "tk_type (m_token t') = Character"
        "tk_data (m_token t') = tk_data (m_token t2) @ normalChar d # normalise (d = 0x0D) ds"
        "m_skipNextNewLine t' = afterReturn (d = 0x0D) ds"
        by auto
      have "run env t s (normalChar c) = run env t2 v (normalChar d)"
        using Cons pk(3) less.prems(1) by (subst run.simps) (simp add: out afterPeek_def)
      with r N Cons tk t2 show ?thesis by simp
    qed
  qed
qed

end
