(* ===== verification/HTML_Entity_Numeric.thy ===== *)
theory HTML_Entity_Numeric
  imports HTML_Entity_Correct
begin

section \<open>Numeric character references\<close>

text \<open>
  The code units a numeric reference decodes to, as the scalar value they stand for, and the
  digit loops of \<open>consumeCharacterReference\<close> with their 32-bit accumulator.
\<close>

unbundle bit_operations_syntax

subsection \<open>UTF-16\<close>

definition scalarValue :: "ustring \<Rightarrow> int" where
  "scalarValue cs = (case cs of [c] \<Rightarrow> uint c
     | [c, d] \<Rightarrow> 0x10000 + (uint c - 0xD800) * 0x400 + (uint d - 0xDC00) | _ \<Rightarrow> -1)"

lemma windows_range: "(v :: uchar32) AND NOT 0x1F = 0x80 \<Longrightarrow> 0x80 \<le> v \<and> v \<le> 0x9F"
proof -
  assume "v AND NOT 0x1F = 0x80"
  then have v: "v = 0x80 + (v AND 0x1F)" using split_masked_word[of v "0x1F"] by simp
  have "v AND 0x1F \<le> 0x1F" by (rule word_and_le1)
  then have "unat (v AND 0x1F) \<le> 31" by (simp add: word_le_nat_alt)
  moreover have "unat v = 0x80 + unat (v AND 0x1F)"
    using calculation by (subst v, subst unat_add_lem[THEN iffD1]) (simp_all del: unat_add_lem)
  ultimately show ?thesis by (simp add: word_le_nat_alt)
qed

lemma legal_scalar:
  assumes v: "0 < sint v" "sint v \<le> 0x10FFFF" "\<not> (0xD800 \<le> sint v \<and> sint v \<le> 0xDFFF)"
    and w: "\<not> (0x80 \<le> sint v \<and> sint v \<le> 0x9F)"
  shows "legalEntityFor v = v"
proof -
  have u: "uint v = sint v" using v by (intro uint_sint_nonneg) simp
  have a: "adjustEntity v = ucast v"
    using windows_range[of v] w u by (auto simp: adjustEntity_def word_le_def)
  have "ucast (ucast v :: uchar) = v" if "sint v \<le> 0xFFFF"
  proof (rule word_uint_eqI)
    have "uint (ucast (ucast v :: uchar) :: uchar32) = uint (ucast v :: uchar)"
      by (rule uint_up_ucast) (simp add: is_up)
    also have "\<dots> = uint v" unfolding unsigned_ucast_eq using that v u by (simp add: take_bit_eq_mod)
    finally show "uint (ucast (ucast v :: uchar) :: uchar32) = uint v" .
  qed
  then show ?thesis
    using v U_IS_BMP_sint[of v] by (auto simp: legalEntityFor_def a)
qed

lemma scalarValue_UTF16:
  assumes "0 < sint v" and "sint v \<le> 0x10FFFF"
  shows "scalarValue (convertToUTF16 v) = sint v"
proof (cases "U_IS_BMP v")
  case True
  then have "sint v \<le> 0xFFFF" using assms U_IS_BMP_sint by simp
  then show ?thesis
    using True assms uint_sint_nonneg[of v]
    by (simp add: convertToUTF16_def scalarValue_def unsigned_ucast_eq take_bit_eq_mod)
next
  case False
  then have "0x10000 \<le> sint v" using assms U_IS_BMP_sint[of v] by simp
  then show ?thesis
    using False assms uint_trail[of v] uint_lead[of v] uint_sint_nonneg[of v]
    by (simp add: convertToUTF16_def scalarValue_def)
qed

subsection \<open>The digit loops\<close>

definition isDigit :: "uchar \<Rightarrow> bool" where
  "isDigit c \<longleftrightarrow> 0x30 \<le> c \<and> c \<le> 0x39"

text \<open>The value of digits, without a bound.\<close>

definition decimalValue :: "ustring \<Rightarrow> int" where
  "decimalValue ds = foldl (\<lambda>v d. v * 10 + (uint d - 0x30)) 0 ds"

definition hexDigitValue :: "uchar \<Rightarrow> int" where
  "hexDigitValue c = (if c \<le> 0x39 then uint c - 0x30 else if 0x61 \<le> c then uint c - 0x61 + 10 else uint c - 0x41 + 10)"

definition hexadecimalValue :: "ustring \<Rightarrow> int" where
  "hexadecimalValue ds = foldl (\<lambda>v d. v * 16 + hexDigitValue d) 0 ds"

lemma foldl_word_of_int:
  assumes "\<And>v d. f (word_of_int v) d = (word_of_int (g v d) :: uchar32)"
  shows "foldl f (word_of_int v) ds = (word_of_int (foldl g v ds) :: uchar32)"
  by (induction ds arbitrary: v) (simp_all add: assms)

lemma ucast_word_of_int: "(ucast (d :: uchar) :: uchar32) = word_of_int (uint d)"
  by simp

lemma decimal_digit_word:
  "word_of_int v * 10 + (ucast (d :: uchar) - 0x30) = (word_of_int (v * 10 + (uint d - 0x30)) :: uchar32)"
  unfolding ucast_word_of_int of_int_add of_int_mult of_int_diff of_int_numeral ..

lemma hex_digit_word:
  "word_of_int v * 16 + hexValue d = (word_of_int (v * 16 + hexDigitValue d) :: uchar32)"
  unfolding hexValue_def hexDigitValue_def ucast_word_of_int
  by (simp only: of_int_add of_int_mult of_int_diff of_int_numeral if_distrib[of word_of_int] add_diff_eq add.commute)

lemma decimal_word: "foldl (\<lambda>v d. v * 10 + (ucast (d :: uchar) - 0x30)) 0 ds = (word_of_int (decimalValue ds) :: uchar32)"
  using foldl_word_of_int[of "\<lambda>v d. v * 10 + (ucast (d :: uchar) - 0x30)" "\<lambda>v d. v * 10 + (uint d - 0x30)" 0 ds,
      OF decimal_digit_word]
  unfolding decimalValue_def of_int_0 .

lemma hexadecimal_word: "foldl (\<lambda>v d. v * 16 + hexValue d) 0 ds = (word_of_int (hexadecimalValue ds) :: uchar32)"
  using foldl_word_of_int[of "\<lambda>v d. v * 16 + hexValue d" "\<lambda>v d. v * 16 + hexDigitValue d" 0 ds, OF hex_digit_word]
  unfolding hexadecimalValue_def of_int_0 .

lemma funpow_after:
  "(f ^^ (n + 2)) x = (f ^^ Suc n) (f x)" "(f ^^ (n + 3)) x = (f ^^ Suc n) (f (f x))"
  by (simp_all add: funpow_swap1 numeral_3_eq_3)

lemma at_head: "ss_wf s \<Longrightarrow> toString s = c # cs \<Longrightarrow> \<not> isEmpty s \<and> the (current s) = c"
  by (simp add: isEmpty_iff current_toString)

lemma decimal_loop:
  "ss_wf s \<Longrightarrow> toString s = ds @ 0x3B # rest \<Longrightarrow> list_all isDigit ds \<Longrightarrow>
   consumeCharacterReference_loop tb al Decimal v consumed s =
     entityDone (foldl (\<lambda>v d. v * 10 + (ucast d - 0x30)) v ds) ((advance ^^ Suc (length ds)) s)"
proof (induction ds arbitrary: s v consumed)
  case Nil
  with at_head[of s] show ?case by (subst consumeCharacterReference_loop.simps) simp
next
  case (Cons d ds)
  have "consumeCharacterReference_loop tb al Decimal v consumed s =
      consumeCharacterReference_loop tb al Decimal (v * 10 + (ucast d - 0x30)) (consumed @ [d]) (advance s)"
    using at_head[OF Cons.prems(1)] Cons.prems
    by (subst consumeCharacterReference_loop.simps) (simp add: isDigit_def)
  with Cons show ?case by (simp add: wf_advance funpow_swap1)
qed

lemma hexadecimal_loop:
  "ss_wf s \<Longrightarrow> toString s = ds @ 0x3B # rest \<Longrightarrow> list_all isHexDigit ds \<Longrightarrow>
   consumeCharacterReference_loop tb al Hex v consumed s =
     entityDone (foldl (\<lambda>v d. v * 16 + hexValue d) v ds) ((advance ^^ Suc (length ds)) s)"
proof (induction ds arbitrary: s v consumed)
  case Nil
  with at_head[of s] show ?case by (subst consumeCharacterReference_loop.simps) (simp add: isHexDigit_def)
next
  case (Cons d ds)
  have "consumeCharacterReference_loop tb al Hex v consumed s =
      consumeCharacterReference_loop tb al Hex (v * 16 + hexValue d) (consumed @ [d]) (advance s)"
    using at_head[OF Cons.prems(1)] Cons.prems
    by (subst consumeCharacterReference_loop.simps) simp
  with Cons show ?case by (simp add: wf_advance funpow_swap1)
qed

text \<open>A whole reference, from the number sign to the semicolon.\<close>

definition allowed_character :: "uchar \<Rightarrow> bool" where
  "allowed_character al \<longleftrightarrow> al = 0 \<or> al = 0x22 \<or> al = 0x27 \<or> al = 0x3E"

lemma decimal_reference:
  assumes wf: "ss_wf s" and T: "toString s = 0x23 # ds @ 0x3B # rest" and ds: "ds \<noteq> []" "list_all isDigit ds"
    and al: "allowed_character al"
  shows "consumeHTMLEntity tb al s =
    entityDone (word_of_int (decimalValue ds)) ((advance ^^ (length ds + 2)) s)"
proof -
  obtain d ds' where d: "ds = d # ds'" "isDigit d" using ds by (cases ds) auto
  have w: "ss_wf (advance s)" "toString (advance s) = ds @ 0x3B # rest" using wf T by (simp_all add: wf_advance)
  have "d \<noteq> 0x78 \<and> d \<noteq> 0x58" using d(2) by (auto simp: isDigit_def)
  then have "consumeCharacterReference_loop tb al Number 0 [0x23] (advance s) =
      consumeCharacterReference_loop tb al Decimal 0 [0x23] (advance s)"
    using at_head[OF w(1), of d] w(2) d by (subst consumeCharacterReference_loop.simps) (simp add: isDigit_def)
  moreover have "consumeHTMLEntity tb al s = consumeCharacterReference_loop tb al Number 0 [0x23] (advance s)"
    using at_head[OF wf T] al unfolding consumeHTMLEntity_def
    by (subst consumeCharacterReference_loop.simps) (auto simp: allowed_character_def)
  ultimately show ?thesis
    using decimal_loop[OF w ds(2), of tb al 0 "[0x23]"] by (simp only: decimal_word funpow_after)
qed

lemma hexadecimal_reference:
  assumes wf: "ss_wf s" and T: "toString s = 0x23 # x # ds @ 0x3B # rest" and x: "x = 0x78 \<or> x = 0x58"
    and ds: "ds \<noteq> []" "list_all isHexDigit ds" and al: "allowed_character al"
  shows "consumeHTMLEntity tb al s =
    entityDone (word_of_int (hexadecimalValue ds)) ((advance ^^ (length ds + 3)) s)"
proof -
  obtain d ds' where d: "ds = d # ds'" "isHexDigit d" using ds by (cases ds) auto
  have w: "ss_wf (advance s)" "toString (advance s) = x # ds @ 0x3B # rest" using wf T by (simp_all add: wf_advance)
  have v: "ss_wf (advance (advance s))" "toString (advance (advance s)) = ds @ 0x3B # rest"
    using w by (simp_all add: wf_advance)
  have hd: "\<not> isEmpty (advance (advance s)) \<and> the (current (advance (advance s))) = d"
    using at_head[OF v(1), of d] v(2) d(1) by simp
  have "consumeCharacterReference_loop tb al m 0 [0x23, x] (advance (advance s)) =
      consumeCharacterReference_loop tb al Hex 0 [0x23, x] (advance (advance s))"
    if "m = MaybeHexLowerCaseX \<or> m = MaybeHexUpperCaseX" for m
    using that hd d(2) by (elim disjE; subst consumeCharacterReference_loop.simps; simp)
  note hex = this[of MaybeHexLowerCaseX] this[of MaybeHexUpperCaseX]
  have "consumeCharacterReference_loop tb al Number 0 [0x23] (advance s) =
      consumeCharacterReference_loop tb al Hex 0 [0x23, x] (advance (advance s))"
    using x at_head[OF w] hex by (elim disjE; subst consumeCharacterReference_loop.simps; simp)
  moreover have "consumeHTMLEntity tb al s = consumeCharacterReference_loop tb al Number 0 [0x23] (advance s)"
    using at_head[OF wf T] al unfolding consumeHTMLEntity_def
    by (subst consumeCharacterReference_loop.simps) (auto simp: allowed_character_def)
  ultimately show ?thesis
    using hexadecimal_loop[OF v ds(2), of tb al 0 "[0x23, x]"] by (simp only: hexadecimal_word funpow_after)
qed

end
