(* ===== verification/HTML_Token_Range.thy ===== *)
theory HTML_Token_Range
  imports HTML_Session
begin

section \<open>The tokenizer does not touch the range of its token\<close>

text \<open>
  The base offset and the start of the range of a token are set by the source tracker. The
  tokenizer keeps them, unless it makes the token an end of file token.
\<close>

definition based :: "int \<Rightarrow> token \<Rightarrow> bool" where
  "based n tk \<longleftrightarrow> tk_baseOffset tk = n \<and> tk_rangeStart tk = 0"

definition keeps :: "int \<Rightarrow> outcome \<Rightarrow> bool" where
  "keeps n r \<longleftrightarrow> (case r of
     Return b t u \<Rightarrow> based n (m_token t) \<or> tk_type (m_token t) = EndOfFile
   | Goto t u cc \<Rightarrow> based n (m_token t))"

named_theorems range_simps

lemma based_updates [range_simps]:
  "based n (tk\<lparr>tk_type := x1\<rparr>) = based n tk" "based n (tk\<lparr>tk_data := x2\<rparr>) = based n tk"
  "based n (tk\<lparr>tk_doctypeData := x3\<rparr>) = based n tk" "based n (tk\<lparr>tk_selfClosing := x4\<rparr>) = based n tk"
  "based n (tk\<lparr>tk_attributes := x5\<rparr>) = based n tk" "based n (tk\<lparr>tk_currentAttribute := x6\<rparr>) = based n tk"
  "based n (tk\<lparr>tk_sound := x7\<rparr>) = based n tk"
  by (simp_all add: based_def)

lemma based_helpers [range_simps]:
  "based n (assertT p tk) = based n tk" "based n (updateCurrent f tk) = based n tk"
  "based n (updateDoctype q g tk) = based n tk"
  by (simp_all add: assertT_def updateCurrent_def updateDoctype_def range_simps split: option.split)

lemma based_operations [range_simps]:
  "based n (beginStartTag c tk) = based n tk" "based n (beginEndTag cs tk) = based n tk"
  "based n (ensureIsCharacterToken tk) = based n tk" "based n (beginComment tk) = based n tk"
  "based n (beginDOCTYPE tk) = based n tk" "based n (beginDOCTYPE_char c tk) = based n tk"
  "based n (appendToCharacter cs tk) = based n tk" "based n (appendToComment c tk) = based n tk"
  "based n (addNewAttribute tk) = based n tk" "based n (beginAttributeName i tk) = based n tk"
  "based n (endAttributeName i tk) = based n tk" "based n (beginAttributeValue i tk) = based n tk"
  "based n (endAttributeValue i tk) = based n tk" "based n (appendToAttributeName c tk) = based n tk"
  "based n (appendToAttributeValue c tk) = based n tk" "based n (setSelfClosing tk) = based n tk"
  "based n (setForceQuirks tk) = based n tk" "based n (setPublicIdentifierToEmptyString tk) = based n tk"
  "based n (setSystemIdentifierToEmptyString tk) = based n tk" "based n (appendToPublicIdentifier c tk) = based n tk"
  "based n (appendToSystemIdentifier c tk) = based n tk" "based n (appendToName c tk) = based n tk"
  by (simp_all add: beginStartTag_def beginEndTag_def ensureIsCharacterToken_def beginComment_def
      beginDOCTYPE_def beginDOCTYPE_char_def appendToCharacter_def appendToComment_def addNewAttribute_def
      beginAttributeName_def endAttributeName_def beginAttributeValue_def endAttributeValue_def
      appendToAttributeName_def appendToAttributeValue_def setSelfClosing_def setForceQuirks_def
      setPublicIdentifierToEmptyString_def setSystemIdentifierToEmptyString_def
      appendToPublicIdentifier_def appendToSystemIdentifier_def appendToName_def Let_def range_simps)

lemma based_folds [range_simps]:
  "based n (fold appendToComment cs tk) = based n tk" "based n (fold appendToAttributeValue cs tk) = based n tk"
  by (induction cs arbitrary: tk) (simp_all add: range_simps)

lemma based_buffer [range_simps]:
  "based n (m_token (bufferCharacter c t)) = based n (m_token t)"
  "based n (m_token (fold bufferCharacter cs t)) = based n (m_token t)"
  "based n (m_token (addToPossibleEndTag c t)) = based n (m_token t)"
  "based n (m_token (newAttribute c s t)) = based n (m_token t)"
  "based n (m_token (saveEndTagNameIfNeeded t)) = based n (m_token t)"
proof -
  show b: "based n (m_token (bufferCharacter c t)) = based n (m_token t)" for c t
    by (simp add: bufferCharacter_def range_simps)
  show "based n (m_token (fold bufferCharacter cs t)) = based n (m_token t)"
    by (induction cs arbitrary: t) (simp_all add: b)
  show "based n (m_token (addToPossibleEndTag c t)) = based n (m_token t)"
    "based n (m_token (newAttribute c s t)) = based n (m_token t)"
    "based n (m_token (saveEndTagNameIfNeeded t)) = based n (m_token t)"
    by (simp_all add: addToPossibleEndTag_def newAttribute_def saveEndTagNameIfNeeded_def range_simps Let_def)
qed

lemma skipNewLine_token: "m_token (fst (skipNewLine t s)) = m_token t"
  by (simp add: skipNewLine_def split: prod.split)

lemma peek_token: "m_token (fst (snd (peek t s))) = m_token t"
proof (induction t s rule: peek.induct)
  case (1 t s)
  obtain t1 s1 where sk: "skipNewLine t s = (t1, s1)" by fastforce
  show ?case
    using "1.IH"[OF refl _ sk[symmetric] _ refl _ refl] skipNewLine_token[of t s] sk
    by (subst peek.simps) (simp add: Let_def)
qed

lemma afterPeek_keeps [range_simps]: "based n (m_token t) \<Longrightarrow> keeps n (afterPeek (peek t s))"
  using peek_token[of t s] by (auto simp: afterPeek_def keeps_def split: prod.splits)

lemma advanceTokenizer_token: "m_token (fst (advanceTokenizer t s)) = m_token t"
  by (simp add: advanceTokenizer_def split: prod.split)

lemma exits_keep [range_simps]:
  assumes "based n (m_token t)"
  shows "keeps n (ADVANCE_TO st t s)" "keeps n (SWITCH_TO st t s)" "keeps n (RECONSUME_IN st t s cc)"
    "keeps n (emitAndResumeIn st t s)" "keeps n (emitAndReconsumeIn st t s)" "keeps n (emitEndOfFile t s)"
    "keeps n (Return b t s)"
proof -
  have "keeps n (afterPeek (pp_advance (t\<lparr>m_state := st\<rparr>) s))"
    using assms afterPeek_keeps[of n "t\<lparr>m_state := st, m_lineNumber := x\<rparr>" y for x y]
    by (auto simp: pp_advance_def afterPeek_def[of "(False, _)"] keeps_def[of n "Return _ _ _"] Let_def split: prod.split)
  then show "keeps n (ADVANCE_TO st t s)" by (simp add: ADVANCE_TO_def)
  show "keeps n (SWITCH_TO st t s)" "keeps n (RECONSUME_IN st t s cc)" "keeps n (emitAndReconsumeIn st t s)"
    "keeps n (Return b t s)"
    using assms afterPeek_keeps[of n "t\<lparr>m_state := st\<rparr>" s]
    by (simp_all add: SWITCH_TO_def RECONSUME_IN_def emitAndReconsumeIn_def keeps_def range_simps Let_def)
  show "keeps n (emitAndResumeIn st t s)" "keeps n (emitEndOfFile t s)"
    using assms advanceTokenizer_token[of "(saveEndTagNameIfNeeded t)\<lparr>m_state := st\<rparr>" s]
    by (auto simp: emitAndResumeIn_def emitEndOfFile_def keeps_def makeEndOfFile_def range_simps split: prod.split)
qed

lemma flush_keeps [range_simps]:
  assumes "based n (m_token t)"
  shows "keeps n (FLUSH_AND_ADVANCE_TO st t s)" "keeps n (flushEmitAndResumeIn st t s)"
proof -
  have f: "based n (m_token (fst (snd (flushBufferedEndTag (t\<lparr>m_state := st\<rparr>) s))))"
    using assms advanceTokenizer_token[of "onToken (\<lambda>tk. assertT (tk_type tk = Character \<or> tk_type tk = Uninitialized) tk)
        (t\<lparr>m_state := st\<rparr>)" s]
    by (auto simp: flushBufferedEndTag_def range_simps split: prod.splits)
  obtain b t' u where r: "flushBufferedEndTag (t\<lparr>m_state := st\<rparr>) s = (b, t', u)" by (metis prod_cases3)
  show "keeps n (FLUSH_AND_ADVANCE_TO st t s)" "keeps n (flushEmitAndResumeIn st t s)"
    using f r by (simp_all add: FLUSH_AND_ADVANCE_TO_def flushEmitAndResumeIn_def range_simps)
qed

lemma look_keeps [range_simps]:
  "based n (m_token t) \<Longrightarrow> (\<And>u. keeps n (f u)) \<Longrightarrow> (\<And>u. keeps n (g u)) \<Longrightarrow> keeps n (look r t f g)"
  by (simp add: look_def range_simps split: prod.split lookAheadResult.split)

lemmas step_defs = step_DataState_def step_CharacterReferenceInDataState_def step_RCDATAState_def
  step_CharacterReferenceInRCDATAState_def step_RAWTEXTState_def step_ScriptDataState_def step_PLAINTEXTState_def
  step_TagOpenState_def step_EndTagOpenState_def step_TagNameState_def step_RCDATALessThanSignState_def
  step_RCDATAEndTagOpenState_def step_RCDATAEndTagNameState_def step_RAWTEXTLessThanSignState_def
  step_RAWTEXTEndTagOpenState_def step_RAWTEXTEndTagNameState_def step_ScriptDataLessThanSignState_def
  step_ScriptDataEndTagOpenState_def step_ScriptDataEndTagNameState_def step_ScriptDataEscapeStartState_def
  step_ScriptDataEscapeStartDashState_def step_ScriptDataEscapedState_def step_ScriptDataEscapedDashState_def
  step_ScriptDataEscapedDashDashState_def step_ScriptDataEscapedLessThanSignState_def
  step_ScriptDataEscapedEndTagOpenState_def step_ScriptDataEscapedEndTagNameState_def
  step_ScriptDataDoubleEscapeStartState_def step_ScriptDataDoubleEscapedState_def
  step_ScriptDataDoubleEscapedDashState_def step_ScriptDataDoubleEscapedDashDashState_def
  step_ScriptDataDoubleEscapedLessThanSignState_def step_ScriptDataDoubleEscapeEndState_def
  step_BeforeAttributeNameState_def step_AttributeNameState_def step_AfterAttributeNameState_def
  step_BeforeAttributeValueState_def step_AttributeValueDoubleQuotedState_def
  step_AttributeValueSingleQuotedState_def step_AttributeValueUnquotedState_def
  step_CharacterReferenceInAttributeValueState_def step_AfterAttributeValueQuotedState_def
  step_SelfClosingStartTagState_def step_BogusCommentState_def step_ContinueBogusCommentState_def
  step_MarkupDeclarationOpenState_def step_CommentStartState_def step_CommentStartDashState_def
  step_CommentState_def step_CommentEndDashState_def step_CommentEndState_def step_CommentEndBangState_def
  step_DOCTYPEState_def step_BeforeDOCTYPENameState_def step_DOCTYPENameState_def step_AfterDOCTYPENameState_def
  step_AfterDOCTYPEPublicKeywordState_def step_BeforeDOCTYPEPublicIdentifierState_def
  step_DOCTYPEPublicIdentifierDoubleQuotedState_def step_DOCTYPEPublicIdentifierSingleQuotedState_def
  step_AfterDOCTYPEPublicIdentifierState_def step_BetweenDOCTYPEPublicAndSystemIdentifiersState_def
  step_AfterDOCTYPESystemKeywordState_def step_BeforeDOCTYPESystemIdentifierState_def
  step_DOCTYPESystemIdentifierDoubleQuotedState_def step_DOCTYPESystemIdentifierSingleQuotedState_def
  step_AfterDOCTYPESystemIdentifierState_def step_BogusDOCTYPEState_def step_CDATASectionState_def
  step_CDATASectionRightSquareBracketState_def step_CDATASectionDoubleRightSquareBracketState_def

lemma step_keeps: "based n (m_token t) \<Longrightarrow> keeps n (step st env t s cc)"
  by (cases st)
    (simp_all add: step_defs endTagOpenIn_def endTagNameIn_def processEntity_def Let_def range_simps)

lemma run_keeps:
  "run env t s cc = Some r \<Longrightarrow> based n (m_token t) \<longrightarrow>
     based n (m_token (fst (snd r))) \<or> tk_type (m_token (fst (snd r))) = EndOfFile"
proof (erule run.raw_induct[where P = "\<lambda>env t s cc r. based n (m_token t) \<longrightarrow>
     based n (m_token (fst (snd r))) \<or> tk_type (m_token (fst (snd r))) = EndOfFile", rotated])
  fix run env t s cc r
  assume IH: "\<And>env t s cc r. run env t s cc = Some r \<Longrightarrow> based n (m_token t) \<longrightarrow>
     based n (m_token (fst (snd r))) \<or> tk_type (m_token (fst (snd r))) = EndOfFile"
    and r: "(case step (m_state t) env t s cc of Return b t s \<Rightarrow> Some (b, t, s) | Goto t s cc \<Rightarrow> run env t s cc) = Some r"
  show "based n (m_token t) \<longrightarrow>
     based n (m_token (fst (snd r))) \<or> tk_type (m_token (fst (snd r))) = EndOfFile"
    using r IH step_keeps[of n t "m_state t" env s cc]
    by (cases "step (m_state t) env t s cc") (auto simp: keeps_def)
qed

lemma nextToken_keeps:
  assumes "nextToken env tk t s = Some (b, t', s')" and "based n tk"
  shows "based n (m_token t') \<or> tk_type (m_token t') = EndOfFile"
proof -
  define u where "u = (if m_bufferedEndTagName t \<noteq> [] \<and> \<not> isEndTagBufferingState (m_state t)
    then (onToken (beginEndTag (m_bufferedEndTagName t)) (t\<lparr>m_token := tk\<rparr>))\<lparr>m_bufferedEndTagName := [], m_temporaryBuffer := []\<rparr>
    else t\<lparr>m_token := tk\<rparr>)"
  have u: "based n (m_token u)" using assms(2) by (simp add: u_def range_simps)
  from assms(1) consider "t' = u" | f v w where "peek u s = (f, v, w)" "t' = v"
    | f v w where "peek u s = (f, v, w)" "run env v w (m_nextInputCharacter v) = Some (b, t', s')"
    by (auto simp: nextToken_def Let_def u_def split: if_splits prod.splits)
  then show ?thesis
    using u peek_token[of u s] run_keeps[of env _ _ _ "(b, t', s')" n] by cases auto
qed

end
