(* ===== verification/HTML_Properties.thy ===== *)
theory HTML_Properties
  imports HTML_Session HTML_Entity_Numeric HTML_Token_Range
begin

section \<open>Properties of the HTML tokenizer and its input\<close>

text \<open>
  The tokenizer as its clients see it, through sessions; the character references; the
  segmented string and the input stream as texts with positions; and what the code does not do
  as intended.
\<close>

text \<open>A small table of entities and a literal comparison, for the concrete instances.\<close>

definition sampleTable :: entityTable where
  "sampleTable = \<lparr>tb_entries =
      [\<lparr>en_entity = [0x61, 0x6D, 0x70], en_firstValue = 0x26, en_secondValue = 0\<rparr>,
       \<lparr>en_entity = [0x61, 0x6D, 0x70, 0x3B], en_firstValue = 0x26, en_secondValue = 0\<rparr>,
       \<lparr>en_entity = [0x6C, 0x74, 0x3B], en_firstValue = 0x3C, en_secondValue = 0\<rparr>],
    tb_firstEntryStartingWith = (\<lambda>c. if c = 0x61 then Some 0 else if c = 0x6C then Some 2 else None),
    tb_lastEntryStartingWith = (\<lambda>c. if c = 0x61 then Some 1 else if c = 0x6C then Some 2 else None)\<rparr>"

definition sampleEnv :: tokenizer_env where
  "sampleEnv = \<lparr>env_entities = sampleTable, env_umemcasecmp = (\<lambda>a b. if a = b then 0 else 1)\<rparr>"

lemma below_2_3: "j < 2 \<longleftrightarrow> j = 0 \<or> j = 1" "j < 3 \<longleftrightarrow> j = 0 \<or> j = 1 \<or> j = 2" for j :: nat
  by auto

lemma sampleTable_ok: "entityTable_ok sampleTable"
proof -
  have l: "length (tb_entries sampleTable) = 3" by (simp add: sampleTable_def)
  show ?thesis
    unfolding entityTable_ok_def l below_2_3 by (auto simp: sampleTable_def isAlphaNumeric_def below_2_3)
qed

lemma sampleEnv_ok: "entityTable_ok (env_entities sampleEnv)"
  by (simp add: sampleEnv_def sampleTable_ok)

subsection \<open>The tokenizer\<close>

lemma session_result:
  assumes "entityTable_ok (env_entities env)" and "session env t tk s"
  shows "\<exists>b t' s'. nextToken env tk t s = Some (b, t', s')"
    and "nextToken env tk t s = Some (b, t', s') \<Longrightarrow>
      behind s s' \<and> (if b then emitted env t' s' else settled env t' s')"
  using nextToken_ok[OF assms(1) session_callable[OF assms]] unfolding finished_def by auto

text \<open>
  C8. In every session \<open>nextToken\<close> returns: the jumps between the 71 states end for every input,
  however it is cut into pieces.
\<close>

theorem nextToken_terminates:
  assumes "entityTable_ok (env_entities env)" and "session env t tk s"
  shows "\<exists>complete t' s'. nextToken env tk t s = Some (complete, t', s')"
  using session_result(1)[OF assms] by blast

theorem nextToken_terminates_witness:
  "\<exists>complete t' s'. nextToken sampleEnv newToken (HTMLTokenizer False)
     (SegmentedString [0x3C, 0x70, 0x3E, 0x26, 0x61]) = Some (complete, t', s')"
  using nextToken_terminates[OF sampleEnv_ok session.opened] .

text \<open>
  C9. In every session no call of the tokenizer violates an assertion on the type of the token or
  follows a null pointer, neither the current attribute nor the doctype data.
\<close>

theorem nextToken_sound:
  assumes "entityTable_ok (env_entities env)" and "session env t tk s"
    and "nextToken env tk t s = Some (complete, t', s')"
  shows "tk_sound (m_token t')"
  using session_result(2)[OF assms] by (simp add: emitted_def settled_def good_def split: if_splits)

theorem nextToken_sound_witness:
  "\<exists>complete t' s'. nextToken sampleEnv newToken (HTMLTokenizer False)
     (SegmentedString [0x3C, 0x70, 0x20, 0x61, 0x3D, 0x26]) = Some (complete, t', s') \<and> tk_sound (m_token t')"
proof -
  have se: "session sampleEnv (HTMLTokenizer False) newToken (SegmentedString [0x3C, 0x70, 0x20, 0x61, 0x3D, 0x26])"
    by (rule session.opened)
  from session_result(1)[OF sampleEnv_ok se] nextToken_sound[OF sampleEnv_ok se] show ?thesis by blast
qed

text \<open>
  C18. A call only consumes from the front of its source: what it leaves is an end of what it got,
  and the position counts exactly the characters in between, although entities and look-aheads
  read ahead and give characters back.
\<close>

theorem nextToken_consumes:
  assumes "entityTable_ok (env_entities env)" and "session env t tk s"
    and "nextToken env tk t s = Some (complete, t', s')"
  shows "\<exists>consumed. toString s = consumed @ toString s' \<and>
    numberOfCharactersConsumed s' = numberOfCharactersConsumed s + int (length consumed)"
proof -
  have b: "behind s s'" using session_result(2)[OF assms] by simp
  then obtain consumed where "toString s = consumed @ toString s'" by (auto simp: behind_def suffix_def)
  with b show ?thesis by (auto simp: behind_def)
qed

theorem nextToken_consumes_witness:
  "\<exists>complete t' s' consumed. nextToken sampleEnv newToken (HTMLTokenizer False)
     (SegmentedString [0x26, 0x61, 0x6D, 0x71]) = Some (complete, t', s') \<and>
     [0x26, 0x61, 0x6D, 0x71] = consumed @ toString s' \<and>
     numberOfCharactersConsumed s' = int (length consumed)"
proof -
  have se: "session sampleEnv (HTMLTokenizer False) newToken (SegmentedString [0x26, 0x61, 0x6D, 0x71])"
    by (rule session.opened)
  have 0: "numberOfCharactersConsumed (SegmentedString [0x26, 0x61, 0x6D, 0x71]) = 0" by code_simp
  obtain complete t' s' where r: "nextToken sampleEnv newToken (HTMLTokenizer False)
     (SegmentedString [0x26, 0x61, 0x6D, 0x71]) = Some (complete, t', s')"
    using session_result(1)[OF sampleEnv_ok se] by blast
  from nextToken_consumes[OF sampleEnv_ok se r] r show ?thesis by (simp only: 0 wf_SegmentedString) auto
qed

text \<open>
  C21. When a call completes a token, the token has a type; unless it is a run of characters, the
  tokenizer is back in the data state with no end tag buffered, where the tree builder may
  redirect it.
\<close>

theorem nextToken_complete:
  assumes "entityTable_ok (env_entities env)" and "session env t tk s"
    and "nextToken env tk t s = Some (True, t', s')"
  shows "tk_type (m_token t') \<noteq> Uninitialized \<and>
    (tk_type (m_token t') = Character \<or> m_state t' = DataState \<and> m_bufferedEndTagName t' = [])"
  using session_result(2)[OF assms] by (auto simp: emitted_def)

theorem nextToken_complete_witness:
  "\<exists>t' s'. nextToken sampleEnv newToken (HTMLTokenizer False) (SegmentedString [0x3C, 0x70, 0x3E]) =
       Some (True, t', s') \<and> tk_type (m_token t') = StartTag \<and> m_state t' = DataState"
proof -
  have se: "session sampleEnv (HTMLTokenizer False) newToken (SegmentedString [0x3C, 0x70, 0x3E])"
    by (rule session.opened)
  have "case nextToken sampleEnv newToken (HTMLTokenizer False) (SegmentedString [0x3C, 0x70, 0x3E]) of
     Some (complete, t', s') \<Rightarrow> complete \<and> tk_type (m_token t') = StartTag | None \<Rightarrow> False"
    by code_simp
  then obtain t' s' where r: "nextToken sampleEnv newToken (HTMLTokenizer False)
     (SegmentedString [0x3C, 0x70, 0x3E]) = Some (True, t', s')" "tk_type (m_token t') = StartTag"
    by (auto split: option.splits)
  with nextToken_complete[OF sampleEnv_ok se r(1)] show ?thesis by auto
qed

text \<open>
  C22. In the plain text state, with no end tag name buffered and a source that is not closed, the tokenizer turns the
  whole source into characters of the token: carriage returns, alone or before a newline, become newlines and null
  characters become U+FFFD, nothing else changes, and a carriage return at the end of one piece is remembered for
  the next.
\<close>

theorem plaintext_normalised:
  assumes "m_state t = PLAINTEXTState" and "m_bufferedEndTagName t = []" and "ss_wf s" and "\<not> isClosed s"
    and "tk_sound tk" and "tk_type tk = Uninitialized \<or> tk_type tk = Character"
  shows "\<exists>complete t' s'. nextToken env tk t s = Some (complete, t', s') \<and> toString s' = [] \<and>
    tk_data (m_token t') = tk_data tk @ normalise (m_skipNextNewLine t) (toString s) \<and>
    m_skipNextNewLine t' = afterReturn (m_skipNextNewLine t) (toString s) \<and> m_state t' = PLAINTEXTState"
proof (cases "toString s = []")
  case True
  with assms show ?thesis by (simp add: nextToken_def isEmpty_iff Let_def)
next
  case False
  let ?t = "t\<lparr>m_token := tk\<rparr>"
  obtain t1 u where pk: "peek ?t s = (toString u \<noteq> [], t1, u)" "peeked ?t s t1 u"
    "\<And>d ds. toString u = d # ds \<Longrightarrow> m_nextInputCharacter t1 = normalChar d"
    using peek_plain[of s ?t] assms False by (auto simp: shouldSkipNullCharacters_def isClosed_def)
  have u: "ss_wf u" "\<not> ss_closed u" "toString u = stripNewline (m_skipNextNewLine t) (toString s)"
    "m_skipNextNewLine t1 = (\<exists>ds. toString u = 0x0D # ds)" and t1: "m_state t1 = PLAINTEXTState" "m_token t1 = tk"
    using pk(2) assms by (auto simp: peeked_def same_core_def)
  note N = normalise_strip[OF False, of "m_skipNextNewLine t", folded u(3)]
  have nt: "nextToken env tk t s = (if toString u \<noteq> [] then run env t1 u (m_nextInputCharacter t1)
      else Some (haveBufferedCharacterToken t1, t1, u))"
    using assms False pk(1) by (simp add: nextToken_def isEmpty_iff)
  show ?thesis
  proof (cases "toString u")
    case Nil
    with nt N t1 u(4) show ?thesis by simp
  next
    case (Cons d ds)
    have "good TextK (m_token t1)" using t1 assms by (simp add: good_def)
    from run_plain[OF t1(1) this u(1,2) Cons, of env] u(4) Cons
    obtain t' s' where "run env t1 u (normalChar d) = Some (True, t', s')" "toString s' = []"
      "m_state t' = PLAINTEXTState" "tk_data (m_token t') = tk_data tk @ normalChar d # normalise (d = 0x0D) ds"
      "m_skipNextNewLine t' = afterReturn (d = 0x0D) ds"
      using t1(2) by auto
    with nt Cons pk(3) N show ?thesis by auto
  qed
qed

theorem plaintext_normalised_witness:
  "\<exists>complete t' s'. nextToken sampleEnv newToken ((HTMLTokenizer False)\<lparr>m_state := PLAINTEXTState\<rparr>)
     (SegmentedString [0x61, 0x0D, 0x0A, 0, 0x3C]) = Some (complete, t', s') \<and> toString s' = [] \<and>
     tk_data (m_token t') = [0x61, 0x0A, 0xFFFD, 0x3C]"
  using plaintext_normalised[of "(HTMLTokenizer False)\<lparr>m_state := PLAINTEXTState\<rparr>"
      "SegmentedString [0x61, 0x0D, 0x0A, 0, 0x3C]" newToken sampleEnv]
  by (auto simp: HTMLTokenizer_def newToken_def isClosed_def basic_empty)

text \<open>
  The end of the file is lost after a markup declaration cut short: on \<^verbatim>\<open><!DOC\<close> and the end
  of file marker the look-ahead for \<^verbatim>\<open>doctype\<close> asks for more characters although the source is
  closed, so the call and every later one return without a token, and neither the bogus comment
  nor the end of file token of the specification is ever emitted.
\<close>

lemma markup_declaration_loses_end_of_file:
  "case nextToken env newToken (HTMLTokenizer quirks)
      (close (SegmentedString [0x3C, 0x21, 0x44, 0x4F, 0x43, 0])) of
     None \<Rightarrow> False
   | Some (complete, t, s) \<Rightarrow> \<not> complete \<and> isClosed s \<and> toString s = [0x44, 0x4F, 0x43, 0] \<and>
       nextToken env (m_token t) t s = Some (False, t, s)"
  by code_simp

subsection \<open>Character references\<close>

text \<open>
  C28. A named reference that is recognised is the longest entity of the table that the source
  starts with, and exactly its characters are consumed.
\<close>

theorem consumeNamedEntity_longest:
  assumes "entityTable_ok tb" and "ss_wf s" and "no_amp s" and "charref_ok tb s"
    and "toString s = c # cs" and "c \<noteq> 0x23" and "er_success (consumeNamedEntity tb allowed s)"
  shows "\<exists>e \<in> set (tb_entries tb). er_decoded (consumeNamedEntity tb allowed s) = decodedEntity e \<and>
    toString s = en_entity e @ toString (er_source (consumeNamedEntity tb allowed s)) \<and>
    (\<forall>e' \<in> set (tb_entries tb). prefix (en_entity e') (toString s) \<longrightarrow>
       length (en_entity e') \<le> length (en_entity e))"
proof -
  from consumeNamedEntity_spec(2)[OF assms(1-6), of allowed] assms(7)
  obtain m where m: "m < length (tb_entries tb)"
    "er_decoded (consumeNamedEntity tb allowed s) = decodedEntity (tb_entries tb ! m)"
    "prefix (entryName tb m) (toString s)"
    "toString (er_source (consumeNamedEntity tb allowed s)) = drop (length (entryName tb m)) (toString s)"
    "\<forall>i < length (tb_entries tb). prefix (entryName tb i) (toString s) \<longrightarrow>
       length (entryName tb i) \<le> length (entryName tb m)" by blast
  then have eq: "toString s = entryName tb m @ toString (er_source (consumeNamedEntity tb allowed s))"
    by (auto simp: prefix_def)
  have "\<forall>e' \<in> set (tb_entries tb). prefix (en_entity e') (toString s) \<longrightarrow>
       length (en_entity e') \<le> length (entryName tb m)"
    using m(5) by (auto simp: in_set_conv_nth)
  then show ?thesis using m(1,2) eq nth_mem by blast
qed

theorem consumeNamedEntity_longest_witness:
  "\<exists>e \<in> set (tb_entries sampleTable).
     er_decoded (consumeNamedEntity sampleTable 0 (SegmentedString [0x61, 0x6D, 0x70, 0x3B, 0x78])) = decodedEntity e \<and>
     [0x61, 0x6D, 0x70, 0x3B, 0x78] = en_entity e @
       toString (er_source (consumeNamedEntity sampleTable 0 (SegmentedString [0x61, 0x6D, 0x70, 0x3B, 0x78])))"
proof -
  have su: "er_success (consumeNamedEntity sampleTable 0 (SegmentedString [0x61, 0x6D, 0x70, 0x3B, 0x78]))"
    by code_simp
  have ok: "no_amp (SegmentedString [0x61, 0x6D, 0x70, 0x3B, 0x78])"
    "charref_ok sampleTable (SegmentedString [0x61, 0x6D, 0x70, 0x3B, 0x78])"
    by (simp_all add: no_amp_def charref_ok_def SegmentedString_def)
  have "(0x61 :: uchar) \<noteq> 0x23" by simp
  from consumeNamedEntity_longest[OF sampleTable_ok wf_SegmentedString(1) ok wf_SegmentedString(2) this su]
  show ?thesis unfolding wf_SegmentedString(2) by blast
qed

text \<open>
  A character reference that is not recognised leaves the source as it was: the same text at
  the same position, however many characters the parser had read.
\<close>

theorem consumeHTMLEntity_restores:
  assumes "entityTable_ok tb" and "ss_wf s" and "no_amp s" and "charref_ok tb s" and "toString s \<noteq> []"
    and "\<not> er_success (consumeHTMLEntity tb allowed s)"
  shows "toString (er_source (consumeHTMLEntity tb allowed s)) = toString s \<and>
    numberOfCharactersConsumed (er_source (consumeHTMLEntity tb allowed s)) = numberOfCharactersConsumed s \<and>
    er_decoded (consumeHTMLEntity tb allowed s) = []"
  using consumeHTMLEntity_spec[OF assms(1-5), of allowed] assms(6)
  by (simp add: charref_post_def restored_def)

theorem consumeHTMLEntity_restores_witness:
  "toString (er_source (consumeHTMLEntity sampleTable 0 (SegmentedString [0x61, 0x6D, 0x71]))) = [0x61, 0x6D, 0x71]"
proof -
  have "\<not> er_success (consumeHTMLEntity sampleTable 0 (SegmentedString [0x61, 0x6D, 0x71]))" by code_simp
  moreover have "no_amp (SegmentedString [0x61, 0x6D, 0x71])" "charref_ok sampleTable (SegmentedString [0x61, 0x6D, 0x71])"
    by (simp_all add: no_amp_def charref_ok_def SegmentedString_def)
  ultimately show ?thesis
    using consumeHTMLEntity_restores[OF sampleTable_ok wf_SegmentedString(1)] by simp
qed

text \<open>
  C29. A decimal reference, from the number sign to the semicolon, to a Unicode scalar value other than 0 and
  outside the range 0x80 to 0x9F, which the code reads as Windows-1252, decodes to the UTF-16 code units of that value,
  and the source goes on after the semicolon.
\<close>

theorem decimal_reference_decodes:
  assumes "ss_wf s" and "toString s = 0x23 # ds @ 0x3B # rest" and "ds \<noteq> []" and "list_all isDigit ds"
    and "allowed_character allowed" and "0 < decimalValue ds" and "decimalValue ds \<le> 0x10FFFF"
    and "\<not> (0xD800 \<le> decimalValue ds \<and> decimalValue ds \<le> 0xDFFF)"
    and "\<not> (0x80 \<le> decimalValue ds \<and> decimalValue ds \<le> 0x9F)"
  shows "er_success (consumeHTMLEntity tb allowed s) \<and>
    scalarValue (er_decoded (consumeHTMLEntity tb allowed s)) = decimalValue ds \<and>
    toString (er_source (consumeHTMLEntity tb allowed s)) = rest"
proof -
  let ?v = "word_of_int (decimalValue ds) :: uchar32"
  have v: "sint ?v = decimalValue ds" using assms(6,7) by (simp add: int_word_sint)
  have "legalEntityFor ?v = ?v" using assms(6-9) by (intro legal_scalar) (simp_all only: v simp_thms)
  moreover have "scalarValue (convertToUTF16 ?v) = decimalValue ds"
    using scalarValue_UTF16[of ?v] assms(6,7) v by simp
  moreover have "toString ((advance ^^ (length ds + 2)) s) = rest"
    unfolding seg.steps_contents[OF assms(1)] assms(2) by simp
  ultimately show ?thesis
    unfolding decimal_reference[OF assms(1-5), of tb] entityDone_def by (simp only: entityResult.simps)
qed

theorem decimal_reference_decodes_witness:
  "scalarValue (er_decoded (consumeHTMLEntity sampleTable 0
     (SegmentedString [0x23, 0x31, 0x32, 0x38, 0x35, 0x31, 0x33, 0x3B, 0x61]))) = 128513"
proof -
  have "decimalValue [0x31, 0x32, 0x38, 0x35, 0x31, 0x33] = 128513"
    "list_all isDigit [0x31, 0x32, 0x38, 0x35, 0x31, 0x33]" by code_simp+
  then show ?thesis
    using decimal_reference_decodes[of "SegmentedString [0x23, 0x31, 0x32, 0x38, 0x35, 0x31, 0x33, 0x3B, 0x61]"
        "[0x31, 0x32, 0x38, 0x35, 0x31, 0x33]" "[0x61]" 0 sampleTable]
    by (simp add: allowed_character_def)
qed

text \<open>
  A hexadecimal reference decodes to the value of its digits modulo two to the 32: the
  accumulator has no overflow test, so a reference far outside Unicode can decode to any
  character.
\<close>

theorem hexadecimal_reference_wraps:
  assumes "ss_wf s" and "toString s = 0x23 # x # ds @ 0x3B # rest" and "x = 0x78 \<or> x = 0x58"
    and "ds \<noteq> []" and "list_all isHexDigit ds" and "allowed_character allowed"
  shows "er_success (consumeHTMLEntity tb allowed s) \<and>
    er_decoded (consumeHTMLEntity tb allowed s) =
      convertToUTF16 (legalEntityFor (word_of_int (hexadecimalValue ds mod 2 ^ 32))) \<and>
    toString (er_source (consumeHTMLEntity tb allowed s)) = rest"
proof -
  have w: "word_of_int (hexadecimalValue ds mod 2 ^ 32) = (word_of_int (hexadecimalValue ds) :: uchar32)"
    by (rule word_uint_eqI) (simp add: uint_word_of_int)
  have "drop (length ds + 3) (a # b # ds @ c # rest) = rest" for a b c :: uchar
    by (simp add: numeral_3_eq_3)
  then have "toString ((advance ^^ (length ds + 3)) s) = rest"
    unfolding seg.steps_contents[OF assms(1)] assms(2) .
  then show ?thesis
    unfolding hexadecimal_reference[OF assms, of tb] entityDone_def w by (simp only: entityResult.simps)
qed

theorem hexadecimal_reference_wraps_witness:
  "er_decoded (consumeHTMLEntity sampleTable 0 (SegmentedString
     [0x23, 0x78, 0x31, 0x30, 0x30, 0x30, 0x30, 0x30, 0x30, 0x34, 0x31, 0x3B])) = [0x41]"
proof -
  have "convertToUTF16 (legalEntityFor (word_of_int (hexadecimalValue
      [0x31, 0x30, 0x30, 0x30, 0x30, 0x30, 0x30, 0x34, 0x31] mod 2 ^ 32))) = [0x41]"
    "list_all isHexDigit [0x31, 0x30, 0x30, 0x30, 0x30, 0x30, 0x30, 0x34, 0x31]"
    by code_simp+
  then show ?thesis
    using hexadecimal_reference_wraps[of "SegmentedString
        [0x23, 0x78, 0x31, 0x30, 0x30, 0x30, 0x30, 0x30, 0x30, 0x34, 0x31, 0x3B]" "0x78"
        "[0x31, 0x30, 0x30, 0x30, 0x30, 0x30, 0x30, 0x34, 0x31]" "[]" 0 sampleTable]
    by (simp add: allowed_character_def)
qed

subsection \<open>The segmented string\<close>

text \<open>
  C26. A segmented string is a text with a position, whatever its segments and pushed characters:
  \<open>advance\<close> drops the first character and moves the position by one, with or without counting
  lines; \<open>append\<close> adds at the end; \<open>prepend\<close> gives characters back and moves the position back.
\<close>

theorem SegmentedString_refines_text:
  assumes "ss_wf s" and "unescaped u"
  shows "toString (advance s) = tl (toString s) \<and> toString (snd (advance_line n s)) = tl (toString s) \<and>
    (toString s \<noteq> [] \<longrightarrow> numberOfCharactersConsumed (advance s) = numberOfCharactersConsumed s + 1) \<and>
    toString (ss_append u s) = toString s @ toString u \<and>
    (ss_pushedChar1 s = 0 \<longrightarrow> toString (ss_prepend (SegmentedString cs) s) = cs @ toString s \<and>
       numberOfCharactersConsumed (ss_prepend (SegmentedString cs) s) =
         numberOfCharactersConsumed s - int (length cs)) \<and>
    current s = (case toString s of [] \<Rightarrow> None | c # _ \<Rightarrow> Some c) \<and> ss_length s = length (toString s) \<and>
    ss_wf (advance s) \<and> ss_wf (snd (advance_line n s)) \<and> ss_wf (ss_append u s)"
  using assms wf_prepend[OF assms(1)]
  by (auto simp: wf_advance wf_append unescaped_def position_advance current_toString ss_length_toString
      same_text_dests[OF advance_line_same_text])

theorem SegmentedString_refines_text_witness:
  "toString (advance (ss_append (SegmentedString [0x63]) (push 0x62 (SegmentedString [0x61])))) = [0x61, 0x63]"
proof -
  have "ss_wf (push 0x62 (SegmentedString [0x61]))" "toString (push 0x62 (SegmentedString [0x61])) = [0x62, 0x61]"
    using wf_push[of "SegmentedString [0x61]" "0x62"] by (simp_all add: basic_empty)
  moreover have "unescaped (SegmentedString [0x63])" by (simp add: unescaped_def basic_empty)
  ultimately have "toString (ss_append (SegmentedString [0x63]) (push 0x62 (SegmentedString [0x61]))) = [0x62, 0x61, 0x63]"
    "ss_wf (ss_append (SegmentedString [0x63]) (push 0x62 (SegmentedString [0x61])))"
    using SegmentedString_refines_text by simp_all
  then show ?thesis using SegmentedString_refines_text[of _ "SegmentedString [0x63]"]
    by (simp add: unescaped_def basic_empty)
qed

text \<open>
  C27. Looking ahead for a string of two or more characters answers as a comparison with the
  beginning of the text does, and leaves text and position as they were, although on the slow
  path it consumes the characters and gives them back.
\<close>

theorem lookAhead_correct:
  assumes "ss_wf s" and "2 \<le> length str"
  shows "fst (lookAhead str s) = (if length (toString s) < length str then NotEnoughCharacters
      else if prefix str (toString s) then DidMatch else DidNotMatch) \<and>
    toString (snd (lookAhead str s)) = toString s \<and>
    numberOfCharactersConsumed (snd (lookAhead str s)) = numberOfCharactersConsumed s \<and>
    ss_wf (snd (lookAhead str s))"
proof -
  have "str = take (length str) (toString s) \<longleftrightarrow> prefix str (toString s)"
    by (metis append_eq_conv_conj prefix_def take_is_prefix)
  with lookAheadInline_spec[OF assms(1), of str "\<lambda>a b. a = b"] assms(2) show ?thesis
    unfolding lookAhead_def by (auto simp: prefix_length_le)
qed

theorem lookAhead_correct_witness:
  "fst (lookAhead [0x2D, 0x2D] (push 0x2D (SegmentedString [0x2D, 0x61]))) = DidMatch \<and>
   toString (snd (lookAhead [0x2D, 0x2D] (push 0x2D (SegmentedString [0x2D, 0x61])))) = [0x2D, 0x2D, 0x61]"
proof -
  have "ss_wf (push 0x2D (SegmentedString [0x2D, 0x61]))"
    "toString (push 0x2D (SegmentedString [0x2D, 0x61])) = [0x2D, 0x2D, 0x61]"
    using wf_push[of "SegmentedString [0x2D, 0x61]" "0x2D"] by (simp_all add: basic_empty)
  then show ?thesis
    using lookAhead_correct[of "push 0x2D (SegmentedString [0x2D, 0x61])" "[0x2D, 0x2D]"] by simp
qed

subsection \<open>The input stream\<close>

text \<open>
  C25. While scripts open and close insertion points, network data goes to the end of the text
  and \<^verbatim>\<open>document.write\<close> to the insertion point: every operation keeps the invariant that \<open>m_last\<close>
  points to the last string and that only that one may be closed.
\<close>

theorem inputStream_operations:
  assumes "stream_ok st" and "unescaped u"
  shows "stream_ok (appendToEnd u st) \<and> stream_text (appendToEnd u st) = stream_text st @ toString u \<and>
    stream_ok (markEndOfFile st) \<and> haveSeenEndOfFile (markEndOfFile st) \<and>
    stream_ok (insertAtCurrentInsertionPoint u st) \<and>
    stream_text (insertAtCurrentInsertionPoint u st) =
      toString (is_first st) @ toString u @ drop (length (toString (is_first st))) (stream_text st) \<and>
    (ss_pushedChar1 (is_first st) = 0 \<longrightarrow> stream_ok (InsertionPointRecord st) \<and>
       stream_text (InsertionPointRecord st) = stream_text st \<and> hasInsertionPoint (InsertionPointRecord st)) \<and>
    (is_records st \<noteq> [] \<longrightarrow> stream_ok (destroyInsertionPoint st) \<and>
       stream_text (destroyInsertionPoint st) = stream_text st)"
proof -
  have "stream_ok (destroyInsertionPoint st) \<and> stream_text (destroyInsertionPoint st) = stream_text st"
    if "is_records st \<noteq> []"
    using destroyInsertionPoint_ok(1,2)[OF assms(1), of "butlast (is_records st)" "last (is_records st)"] that by simp
  then show ?thesis
    using appendToEnd_ok[OF assms] markEndOfFile_ok[OF assms(1)] insert_ok[OF assms]
      InsertionPointRecord_ok[OF assms(1)] by simp
qed

theorem inputStream_operations_witness:
  "stream_text (appendToEnd (SegmentedString [0x61]) HTMLInputStream) = [0x61]"
  using inputStream_operations[of HTMLInputStream "SegmentedString [0x61]"]
  by (simp add: unescaped_def basic_empty stream_ok_def HTMLInputStream_def stream_text_def)

text \<open>
  C24. A script that runs at an insertion point and writes some text: when it ends, the text stands
  before what was there, the number of the line is the old one, and after the written text the
  column is the old one too.
\<close>

theorem insertion_point_roundtrip:
  assumes "stream_ok st" and "ss_pushedChar1 (is_first st) = 0" and "unescaped u"
  shows "let st' = destroyInsertionPoint (insertAtCurrentInsertionPoint (setExcludeLineNumbers u) (InsertionPointRecord st))
    in stream_text st' = toString u @ stream_text st \<and> is_records st' = is_records st \<and> stream_ok st' \<and>
       haveSeenEndOfFile st' = haveSeenEndOfFile st \<and>
       currentLine (is_first st') = currentLine (is_first st) \<and>
       currentColumn ((advance ^^ length (toString u)) (is_first st')) = currentColumn (is_first st)"
proof -
  let ?a = "InsertionPointRecord st"
  let ?u = "setExcludeLineNumbers u"
  let ?b = "insertAtCurrentInsertionPoint ?u ?a"
  note A = InsertionPointRecord_ok[OF assms(1,2)]
  have u: "unescaped ?u" "toString ?u = toString u"
    using assms(3) by (auto simp: unescaped_def setExcludeLineNumbers_def ss_wf_def toString_def comp_def)
  note B = insert_ok[OF A(1) u(1)]
  have f: "toString (is_first ?b) = toString u" "is_records ?b = is_records ?a"
    using A(1,3) u by (simp_all add: insertAtCurrentInsertionPoint_def wf_append stream_ok_def unescaped_def)
  have eof: "haveSeenEndOfFile ?b = haveSeenEndOfFile ?a"
    using A(4) by (simp add: haveSeenEndOfFile_def readLast_def insertAtCurrentInsertionPoint_def
        hasInsertionPoint_def split: segPtr.split)
  note D = destroyInsertionPoint_ok[OF B(1) trans[OF f(2) A(6)]]
  show ?thesis
    using D B(2) A(2,3,5) f eof u(2) by (simp add: Let_def)
qed

theorem insertion_point_roundtrip_witness:
  "stream_text (destroyInsertionPoint (insertAtCurrentInsertionPoint (setExcludeLineNumbers (SegmentedString [0x62]))
     (InsertionPointRecord (appendToEnd (SegmentedString [0x61]) HTMLInputStream)))) = [0x62, 0x61]"
proof -
  have "stream_ok (appendToEnd (SegmentedString [0x61]) HTMLInputStream)"
    "ss_pushedChar1 (is_first (appendToEnd (SegmentedString [0x61]) HTMLInputStream)) = 0"
    "stream_text (appendToEnd (SegmentedString [0x61]) HTMLInputStream) = [0x61]"
    using appendToEnd_ok[of HTMLInputStream "SegmentedString [0x61]"]
    by (simp_all add: unescaped_def basic_empty stream_ok_def HTMLInputStream_def stream_text_def appendToEnd_def
        updateLast_def pushed_append)
  from insertion_point_roundtrip[OF this(1,2), of "SegmentedString [0x62]"] this(3) show ?thesis
    by (simp add: Let_def unescaped_def basic_empty)
qed

subsection \<open>The source tracker\<close>

text \<open>
  C23. For a token, other than the end of file, that one call of the tokenizer completes, the tracker gives back its
  source: what the tokenizer had buffered before the call and the text the call consumed, without what it buffers after
  it. The buffered text has to be the end of what was read, which it is not in the double escaped states.
\<close>

theorem sourceForToken_correct:
  assumes "entityTable_ok (env_entities env)" and "session env t tk (is_first input)"
    and "tk_type tk = Uninitialized" and "tk_rangeStart tk = 0"
    and "tracker_start input t tk tr = (tk1, tr1)"
    and "nextToken env tk1 t (is_first input) = Some (True, t', s')" and "tk_type (m_token t') \<noteq> EndOfFile"
    and "tracker_end (input\<lparr>is_first := s'\<rparr>) t' (m_token t') tr1 = (tk2, tr2)"
    and "toString (is_first input) = consumed @ toString s'"
    and "pendingSource t @ consumed = source @ pendingSource t'"
    and "length (pendingSource t @ consumed) < 2 ^ 64"
  shows "\<exists>tr3. sourceForToken tk2 tr2 = Some (source, tr3)"
proof -
  obtain n where tk1: "tk1 = setBaseOffset n tk" using assms(5) by (auto simp: tracker_start_def Let_def)
  have "session env t tk1 (is_first input)" unfolding tk1 using assms(2) by (rule session.offset)
  note R = session_result(2)[OF assms(1) this assms(6)]
  have "based (tk_baseOffset tk1) tk1" using assms(4) by (simp add: based_def tk1 setBaseOffset_def)
  from nextToken_keeps[OF assms(6) this] assms(7)
  have b: "tk_baseOffset (m_token t') = tk_baseOffset tk1" "tk_rangeStart (m_token t') = 0"
    by (simp_all add: based_def)
  have wf: "ss_wf (is_first input)" using session_callable[OF assms(1,2)]
    by (auto simp: callable_def settled_def emitted_def source_ok_def)
  show ?thesis
    using sourceForToken_spec[OF assms(3) wf assms(5,7) b _ _ assms(8) assms(10,11)] R assms(9)
    by (simp add: behind_def)
qed

theorem sourceForToken_correct_witness:
  "\<exists>tk1 tr1 t' s' tk2 tr2 tr3.
    tracker_start (appendToEnd (SegmentedString [0x3C, 0x70, 0x3E, 0x61]) HTMLInputStream)
      (HTMLTokenizer False) newToken HTMLSourceTracker = (tk1, tr1) \<and>
    nextToken sampleEnv tk1 (HTMLTokenizer False)
      (is_first (appendToEnd (SegmentedString [0x3C, 0x70, 0x3E, 0x61]) HTMLInputStream)) = Some (True, t', s') \<and>
    tracker_end ((appendToEnd (SegmentedString [0x3C, 0x70, 0x3E, 0x61]) HTMLInputStream)\<lparr>is_first := s'\<rparr>)
      t' (m_token t') tr1 = (tk2, tr2) \<and>
    sourceForToken tk2 tr2 = Some ([0x3C, 0x70, 0x3E], tr3)"
proof -
  let ?i = "appendToEnd (SegmentedString [0x3C, 0x70, 0x3E, 0x61]) HTMLInputStream"
  have f: "is_first ?i = SegmentedString [0x3C, 0x70, 0x3E, 0x61]" by code_simp
  have se: "session sampleEnv (HTMLTokenizer False) newToken (is_first ?i)" unfolding f by (rule session.opened)
  obtain tk1 tr1 where st: "tracker_start ?i (HTMLTokenizer False) newToken HTMLSourceTracker = (tk1, tr1)" by fastforce
  have "case tracker_start ?i (HTMLTokenizer False) newToken HTMLSourceTracker of (tk, tr) \<Rightarrow>
    (case nextToken sampleEnv tk (HTMLTokenizer False) (is_first ?i) of None \<Rightarrow> False
     | Some (b, t', s') \<Rightarrow> b \<and> tk_type (m_token t') = StartTag \<and> toString s' = [0x61] \<and> m_temporaryBuffer t' = [])"
    by code_simp
  then obtain t' s' where r: "nextToken sampleEnv tk1 (HTMLTokenizer False) (is_first ?i) = Some (True, t', s')"
    "tk_type (m_token t') = StartTag" "toString s' = [0x61]" "m_temporaryBuffer t' = []"
    unfolding st by (auto split: option.splits)
  obtain tk2 tr2 where fi: "tracker_end (?i\<lparr>is_first := s'\<rparr>) t' (m_token t') tr1 = (tk2, tr2)" by fastforce
  have "\<exists>tr3. sourceForToken tk2 tr2 = Some ([0x3C, 0x70, 0x3E], tr3)"
    by (rule sourceForToken_correct[OF sampleEnv_ok se _ _ st r(1) _ fi, where consumed = "[0x3C, 0x70, 0x3E]"])
      (simp_all add: r f newToken_def pendingSource_def HTMLTokenizer_def)
  with st r(1) fi show ?thesis by blast
qed

text \<open>
  The buffer the tokenizer reports to the tracker is not only the candidate end tag: in the
  double escape states of script data it holds a tag name whose characters are in the token
  already. For \<^verbatim>\<open><!--<script>x\<close> in script data the tracker therefore drops the last eight of the
  thirteen characters.
\<close>

lemma source_lost_in_double_escape:
  "let input = appendToEnd (SegmentedString
         [0x3C, 0x21, 0x2D, 0x2D, 0x3C, 0x73, 0x63, 0x72, 0x69, 0x70, 0x74, 0x3E, 0x78]) HTMLInputStream;
       t = (HTMLTokenizer False)\<lparr>m_state := ScriptDataState\<rparr>
   in case tracker_start input t newToken HTMLSourceTracker of (tk, tr) \<Rightarrow>
     (case nextToken env tk t (is_first input) of None \<Rightarrow> False | Some (complete, t', s') \<Rightarrow>
        complete \<and> toString s' = [] \<and>
        (case tracker_end (input\<lparr>is_first := s'\<rparr>) t' (m_token t') tr of (tk', tr') \<Rightarrow>
           map_option fst (sourceForToken tk' tr') = Some [0x3C, 0x21, 0x2D, 0x2D, 0x3C]))"
  by code_simp

text \<open>
  When a piece of input ends inside a character reference of an attribute value, the tracker
  counts the characters that were given back twice: for \<^verbatim>\<open><a b="&am\<close> followed by \<^verbatim>\<open>p;">\<close> it
  returns \<^verbatim>\<open><a b="&amamp;">\<close>.
\<close>

lemma source_doubled_in_attribute_reference:
  "let piece1 = [0x3C, 0x61, 0x20, 0x62, 0x3D, 0x22, 0x26, 0x61, 0x6D];
       piece2 = [0x70, 0x3B, 0x22, 0x3E];
       input = appendToEnd (SegmentedString piece1) HTMLInputStream
   in case tracker_start input (HTMLTokenizer False) newToken HTMLSourceTracker of (tk, tr) \<Rightarrow>
     (case nextToken sampleEnv tk (HTMLTokenizer False) (is_first input) of None \<Rightarrow> False | Some (complete, t, s) \<Rightarrow>
        \<not> complete \<and>
        (let input = appendToEnd (SegmentedString piece2) (input\<lparr>is_first := s\<rparr>)
         in case tracker_start input t (m_token t) tr of (tk, tr) \<Rightarrow>
           (case nextToken sampleEnv tk t (is_first input) of None \<Rightarrow> False | Some (complete, t, s) \<Rightarrow>
              complete \<and> toString s = [] \<and>
              (case tracker_end (input\<lparr>is_first := s\<rparr>) t (m_token t) tr of (tk, tr) \<Rightarrow>
                 map_option fst (sourceForToken tk tr) = Some (piece1 @ [0x61, 0x6D] @ piece2)))))"
  by code_simp

end
