(* ===== verification/WTF_UTF8.thy ===== *)
theory WTF_UTF8
  imports WTF_Unicode
begin

section \<open>UTF-8\<close>

text \<open>
  \<^verbatim>\<open>wtf/unicode/UTF8.cpp\<close>, the conversions between UTF-8 and UTF-16, and the two members of
  \<^verbatim>\<open>wtf/text/WTFString.cpp\<close> that use them, \<open>String::utf8\<close> and \<open>String::fromUTF8\<close>. The source
  pointer is the list of the units that are left, the target pointer the list of the units
  written so far together with the room that is left before \<open>targetEnd\<close>.
\<close>

unbundle bit_operations_syntax

datatype conversionResult = conversionOK | sourceExhausted | targetExhausted | sourceIllegal

definition isASCII :: "byte \<Rightarrow> bool" where
  "isASCII c \<longleftrightarrow> c AND NOT 0x7F = 0"

definition inlineUTF8SequenceLengthNonASCII :: "byte \<Rightarrow> nat" where
  "inlineUTF8SequenceLengthNonASCII b0 =
     (if b0 AND 0xC0 \<noteq> 0xC0 then 0
      else if b0 AND 0xE0 = 0xC0 then 2
      else if b0 AND 0xF0 = 0xE0 then 3
      else if b0 AND 0xF8 = 0xF0 then 4
      else 0)"

definition inlineUTF8SequenceLength :: "byte \<Rightarrow> nat" where
  "inlineUTF8SequenceLength b0 = (if isASCII b0 then 1 else inlineUTF8SequenceLengthNonASCII b0)"

definition firstByteMark :: "nat \<Rightarrow> uchar32" where
  "firstByteMark n = [0x00, 0x00, 0xC0, 0xE0, 0xF0, 0xF8, 0xFC] ! n"

text \<open>
  The fall-through switch that writes a code point from its last byte to its first, the same
  in both converters to UTF-8.
\<close>

fun writeBytes :: "nat \<Rightarrow> nat \<Rightarrow> uchar32 \<Rightarrow> byte list \<Rightarrow> byte list" where
  "writeBytes bytesToWrite (Suc (Suc n)) ch after =
     writeBytes bytesToWrite (Suc n) (signed_drop_bit 6 ch) (ucast ((ch OR 0x80) AND 0xBF) # after)"
| "writeBytes bytesToWrite (Suc 0) ch after = ucast (ch OR firstByteMark bytesToWrite) # after"
| "writeBytes bytesToWrite 0 ch after = after"

fun convertLatin1ToUTF8 ::
  "byte list \<Rightarrow> byte list \<Rightarrow> nat \<Rightarrow> conversionResult \<times> byte list \<times> byte list" where
  "convertLatin1ToUTF8 [] target room = (conversionOK, [], target)"
| "convertLatin1ToUTF8 (c # source) target room =
     (let ch = ucast c :: uchar32;
          bytesToWrite = (if ch < 0x80 then 1 else 2)
      in if room < bytesToWrite then (targetExhausted, c # source, target)
         else convertLatin1ToUTF8 source (target @ writeBytes bytesToWrite bytesToWrite ch [])
                (room - bytesToWrite))"

definition bytesFor :: "uchar32 \<Rightarrow> nat \<times> uchar32" where
  "bytesFor ch =
     (if ch <s 0x80 then (1, ch) else if ch <s 0x800 then (2, ch) else if ch <s 0x10000 then (3, ch)
      else if ch <s 0x110000 then (4, ch) else (3, 0xFFFD))"

definition combineSurrogates :: "uchar32 \<Rightarrow> uchar32 \<Rightarrow> uchar32" where
  "combineSurrogates ch ch2 = push_bit 10 (ch - 0xD800) + (ch2 - 0xDC00) + 0x10000"

text \<open>Reading one code point of the source: what is left of it, or the result it stops with.\<close>

definition readUTF16 :: "bool \<Rightarrow> uchar \<Rightarrow> ustring \<Rightarrow> conversionResult + (uchar32 \<times> ustring)" where
  "readUTF16 strict c source =
     (let ch = ucast c :: uchar32
      in if 0xD800 \<le> ch \<and> ch \<le> 0xDBFF then
           (case source of
              [] \<Rightarrow> Inl sourceExhausted
            | d # source' \<Rightarrow>
                (let ch2 = ucast d
                 in if 0xDC00 \<le> ch2 \<and> ch2 \<le> 0xDFFF then Inr (combineSurrogates ch ch2, source')
                    else if strict then Inl sourceIllegal
                    else Inr (ch, source)))
         else if strict \<and> 0xDC00 \<le> ch \<and> ch \<le> 0xDFFF then Inl sourceIllegal
         else Inr (ch, source))"

lemma readUTF16_shorter: "readUTF16 strict c source = Inr (ch, source') \<Longrightarrow> length source' \<le> length source"
  by (auto simp: readUTF16_def Let_def split: if_splits list.splits)

function convertUTF16ToUTF8 ::
  "bool \<Rightarrow> ustring \<Rightarrow> byte list \<Rightarrow> nat \<Rightarrow> conversionResult \<times> ustring \<times> byte list" where
  "convertUTF16ToUTF8 strict [] target room = (conversionOK, [], target)"
| "convertUTF16ToUTF8 strict (c # source) target room =
     (case readUTF16 strict c source of
        Inl r \<Rightarrow> (r, c # source, target)
      | Inr (ch0, source') \<Rightarrow>
          (case bytesFor ch0 of (bytesToWrite, ch) \<Rightarrow>
             if room < bytesToWrite then (targetExhausted, c # source, target)
             else convertUTF16ToUTF8 strict source' (target @ writeBytes bytesToWrite bytesToWrite ch [])
                    (room - bytesToWrite)))"
  by pat_completeness auto
termination
  by (relation "measure (\<lambda>(strict, source, target, room). length source)")
    (auto dest!: readUTF16_shorter)

text \<open>
  \<open>isLegalUTF8\<close> reads exactly \<open>length\<close> bytes, which the caller has checked to be there.
\<close>

definition secondByteLegal :: "byte \<Rightarrow> byte \<Rightarrow> bool" where
  "secondByteLegal b0 a \<longleftrightarrow> \<not> 0xBF < a \<and>
     (if b0 = 0xE0 then \<not> a < 0xA0
      else if b0 = 0xED then \<not> 0x9F < a
      else if b0 = 0xF0 then \<not> a < 0x90
      else if b0 = 0xF4 then \<not> 0x8F < a
      else \<not> a < 0x80)"

definition tailByteLegal :: "byte \<Rightarrow> bool" where
  "tailByteLegal a \<longleftrightarrow> \<not> (a < 0x80 \<or> 0xBF < a)"

definition firstByteLegal :: "byte \<Rightarrow> bool" where
  "firstByteLegal b0 \<longleftrightarrow> \<not> (0x80 \<le> b0 \<and> b0 < 0xC2) \<and> \<not> 0xF4 < b0"

definition isLegalUTF8 :: "byte list \<Rightarrow> nat \<Rightarrow> bool" where
  "isLegalUTF8 source len =
     (case (len, source) of
        (Suc 0, b0 # _) \<Rightarrow> firstByteLegal b0
      | (Suc (Suc 0), b0 # b1 # _) \<Rightarrow> secondByteLegal b0 b1 \<and> firstByteLegal b0
      | (Suc (Suc (Suc 0)), b0 # b1 # b2 # _) \<Rightarrow>
          tailByteLegal b2 \<and> secondByteLegal b0 b1 \<and> firstByteLegal b0
      | (Suc (Suc (Suc (Suc 0))), b0 # b1 # b2 # b3 # _) \<Rightarrow>
          tailByteLegal b3 \<and> tailByteLegal b2 \<and> secondByteLegal b0 b1 \<and> firstByteLegal b0
      | _ \<Rightarrow> False)"

definition offsetsFromUTF8 :: "nat \<Rightarrow> uchar32" where
  "offsetsFromUTF8 n = [0x00000000, 0x00003080, 0x000E2080, 0x03C82080, 0xFA082080, 0x82082080] ! n"

definition readUTF8Sequence :: "byte list \<Rightarrow> nat \<Rightarrow> uchar32" where
  "readUTF8Sequence source len =
     foldl (\<lambda>character b. push_bit 6 character + ucast b) 0 (take len source) - offsetsFromUTF8 (len - 1)"

text \<open>What one code point adds to the target: its units, or the result the conversion stops with.\<close>

definition emitUTF16 :: "bool \<Rightarrow> uchar32 \<Rightarrow> nat \<Rightarrow> conversionResult + ustring" where
  "emitUTF16 strict character room =
     (if room = 0 then Inl targetExhausted
      else if U_IS_BMP character then
        (if U_IS_SURROGATE character then (if strict then Inl sourceIllegal else Inr [0xFFFD])
         else Inr [ucast character])
      else if U_IS_SUPPLEMENTARY character then
        (if room \<le> 1 then Inl targetExhausted else Inr [U16_LEAD character, U16_TRAIL character])
      else if strict then Inl sourceIllegal else Inr [0xFFFD])"

function convertUTF8ToUTF16 ::
  "bool \<Rightarrow> byte list \<Rightarrow> ustring \<Rightarrow> nat \<Rightarrow> conversionResult \<times> byte list \<times> ustring" where
  "convertUTF8ToUTF16 strict source target room =
     (case source of
        [] \<Rightarrow> (conversionOK, [], target)
      | b0 # _ \<Rightarrow>
          (let len = inlineUTF8SequenceLength b0
           in if length source < len then (sourceExhausted, source, target)
              else if \<not> isLegalUTF8 source len then (sourceIllegal, source, target)
              else (case emitUTF16 strict (readUTF8Sequence source len) room of
                      Inl r \<Rightarrow> (r, source, target)
                    | Inr units \<Rightarrow>
                        convertUTF8ToUTF16 strict (drop len source) (target @ units)
                          (room - length units))))"
  by pat_completeness auto

lemma isLegalUTF8_pos: "isLegalUTF8 source len \<Longrightarrow> 0 < len"
  by (cases len) (simp_all add: isLegalUTF8_def)

termination convertUTF8ToUTF16
  by (relation "measure (\<lambda>(strict, source, target, room). length source)")
    (auto dest: isLegalUTF8_pos)

declare convertUTF8ToUTF16.simps [simp del]

text \<open>
  \<open>String::utf8\<close> allocates three bytes per unit. A result that is a null \<open>CString\<close> is \<open>None\<close>.
  A trailing unpaired high surrogate stops the conversion and, when it is not strict, is
  written by \<open>putUTF8Triple\<close>. A string stored in 8 bits takes the Latin-1 converter.
\<close>

definition putUTF8Triple :: "uchar \<Rightarrow> byte list" where
  "putUTF8Triple ch = [ucast ((drop_bit 12 ch AND 0x0F) OR 0xE0), ucast ((drop_bit 6 ch AND 0x3F) OR 0x80),
     ucast ((ch AND 0x3F) OR 0x80)]"

definition utf8_16Bit :: "bool \<Rightarrow> ustring \<Rightarrow> byte list option" where
  "utf8_16Bit strict s =
     (if s = [] then Some []
      else if 0xFFFFFFFF div 3 < int (length s) then None
      else case convertUTF16ToUTF8 strict s [] (length s * 3) of (result, source, target) \<Rightarrow>
        if result = sourceIllegal then None
        else if result = sourceExhausted then
          (if strict then None else Some (target @ putUTF8Triple (hd source)))
        else Some target)"

definition utf8_8Bit :: "byte list \<Rightarrow> byte list option" where
  "utf8_8Bit s =
     (if s = [] then Some []
      else if 0xFFFFFFFF div 3 < int (length s) then None
      else Some (snd (snd (convertLatin1ToUTF8 s [] (length s * 3)))))"

text \<open>
  \<open>String::fromUTF8\<close>: a null pointer gives the null string \<open>None\<close>, as does a failed conversion.
  A length that does not fit 32 bits is a deliberate \<^verbatim>\<open>CRASH()\<close>.
\<close>

definition fromUTF8 :: "byte list option \<Rightarrow> fault + ustring option" where
  "fromUTF8 stringStart =
     (case stringStart of
        None \<Rightarrow> Inr None
      | Some bytes \<Rightarrow>
          if 0xFFFFFFFF < int (length bytes) then Inl DeliberateCrash
          else (case convertUTF8ToUTF16 True bytes [] (length bytes) of (result, source, target) \<Rightarrow>
             if result \<noteq> conversionOK then Inr None else Inr (Some target)))"

end
