(* ===== verification/WTF_UTF8_Correct.thy ===== *)
theory WTF_UTF8_Correct
  imports WTF_UTF8
begin

section \<open>UTF-8 and UTF-16 encode the same scalar values\<close>

text \<open>
  The reference: the bytes and the code units of a Unicode scalar value, as arithmetic on
  natural numbers. Both converters are then functions on sequences of scalar values.
\<close>

unbundle bit_operations_syntax

definition scalar :: "nat \<Rightarrow> bool" where
  "scalar n \<longleftrightarrow> n < 0x110000 \<and> \<not> (0xD800 \<le> n \<and> n \<le> 0xDFFF)"

definition utf8Values :: "nat \<Rightarrow> nat list" where
  "utf8Values n =
     (if n < 0x80 then [n]
      else if n < 0x800 then [0xC0 + n div 64, 0x80 + n mod 64]
      else if n < 0x10000 then [0xE0 + n div 4096, 0x80 + n div 64 mod 64, 0x80 + n mod 64]
      else [0xF0 + n div 262144, 0x80 + n div 4096 mod 64, 0x80 + n div 64 mod 64, 0x80 + n mod 64])"

definition utf8Bytes :: "nat \<Rightarrow> byte list" where
  "utf8Bytes n = map word_of_nat (utf8Values n)"

definition utf16Units :: "nat \<Rightarrow> ustring" where
  "utf16Units n =
     (if n < 0x10000 then [word_of_nat n]
      else [word_of_nat (n div 1024 + 0xD7C0), word_of_nat (n mod 1024 + 0xDC00)])"

subsection \<open>Facts on single bytes\<close>

lemma unat_and_mask: "unat (v AND mask k :: 'a::len word) = unat v mod 2 ^ k"
proof -
  have "unat (take_bit k v) = unat v mod 2 ^ k" unfolding unsigned_take_bit_eq by (rule take_bit_eq_mod)
  then show ?thesis by (simp only: take_bit_eq_mask)
qed

lemma unat_and_not_mask: "unat (v AND NOT (mask k) :: 'a::len word) = unat v div 2 ^ k * 2 ^ k"
proof -
  have "v AND NOT (mask k) = v - (v AND mask k)"
    using split_masked_word[of v "mask k"] by (metis add_diff_cancel_right')
  moreover have "v AND mask k \<le> v" by (rule word_and_le2)
  ultimately show ?thesis by (simp add: unat_sub unat_and_mask minus_mod_eq_div_mult)
qed

lemma div_eq_iff: "0 < (k :: nat) \<Longrightarrow> v div k = q \<longleftrightarrow> q * k \<le> v \<and> v < q * k + k"
  using dividend_less_times_div[of k v] by (auto intro: div_nat_eqI simp: mult.commute)

lemma unat_byte: "unat (b :: byte) < 256"
  using unsigned_less[of b, where ?'a = nat] by simp

lemma high_bits:
  fixes b :: byte
  shows "b AND 0xC0 = 0xC0 \<longleftrightarrow> unat b div 64 = 3"
    and "b AND 0xE0 = 0xC0 \<longleftrightarrow> unat b div 32 = 6"
    and "b AND 0xF0 = 0xE0 \<longleftrightarrow> unat b div 16 = 14"
    and "b AND 0xF8 = 0xF0 \<longleftrightarrow> unat b div 8 = 30"
    and "b AND NOT 0x7F = 0 \<longleftrightarrow> unat b div 128 = 0"
proof -
  have u: "v = w \<longleftrightarrow> unat v = unat w" for v w :: byte by (rule word_unat_eq_iff)
  have eqs: "(0xC0 :: byte) = NOT (mask 6)" "(0xE0 :: byte) = NOT (mask 5)" "(0xF0 :: byte) = NOT (mask 4)"
    "(0xF8 :: byte) = NOT (mask 3)" "(0x7F :: byte) = mask 7"
    by (simp_all add: mask_eq_exp_minus_1)
  have "unat (b AND 0xC0) = unat b div 64 * 64" "unat (b AND 0xE0) = unat b div 32 * 32"
    "unat (b AND 0xF0) = unat b div 16 * 16" "unat (b AND 0xF8) = unat b div 8 * 8"
    "unat (b AND NOT 0x7F) = unat b div 128 * 128"
    unfolding eqs unat_and_not_mask by simp_all
  then show "b AND 0xC0 = 0xC0 \<longleftrightarrow> unat b div 64 = 3" "b AND 0xE0 = 0xC0 \<longleftrightarrow> unat b div 32 = 6"
    "b AND 0xF0 = 0xE0 \<longleftrightarrow> unat b div 16 = 14" "b AND 0xF8 = 0xF0 \<longleftrightarrow> unat b div 8 = 30"
    "b AND NOT 0x7F = 0 \<longleftrightarrow> unat b div 128 = 0"
    unfolding u by simp_all
qed

lemma sequenceLength:
  "inlineUTF8SequenceLength b =
     (if unat b < 0x80 then 1 else if unat b < 0xC0 then 0 else if unat b < 0xE0 then 2
      else if unat b < 0xF0 then 3 else if unat b < 0xF8 then 4 else 0)"
  using unat_byte[of b]
  unfolding inlineUTF8SequenceLength_def inlineUTF8SequenceLengthNonASCII_def isASCII_def high_bits
  by (simp add: div_eq_iff)

lemma tail_byte: "(b OR 0x80) AND 0xBF = ((b :: byte) AND 0x3F) OR 0x80"
proof (rule bit_word_eqI)
  fix n assume "n < LENGTH(8)"
  then have "n = 0 \<or> n = 1 \<or> n = 2 \<or> n = 3 \<or> n = 4 \<or> n = 5 \<or> n = 6 \<or> n = 7" by auto
  then show "bit ((b OR 0x80) AND 0xBF) n \<longleftrightarrow> bit ((b AND 0x3F) OR 0x80) n"
    by (elim disjE; hypsubst; simp add: bit_and_iff bit_or_iff)
qed

lemma unat_tail_byte: "unat ((b OR 0x80) AND 0xBF :: byte) = 0x80 + unat b mod 64"
proof -
  let ?l = "b AND 0x3F"
  have "?l AND 0x80 = 0" by (simp add: and.assoc)
  then have "?l OR 0x80 = ?l + 0x80" using word_plus_and_or[of ?l "0x80"] by simp
  moreover have "unat ?l = unat b mod 64" using unat_and_mask[of b 6] by (simp add: mask_eq_exp_minus_1)
  ultimately show ?thesis unfolding tail_byte by (simp add: unat_word_ariths)
qed

subsection \<open>Writing a code point\<close>

lemma unat_of_nat_byte: "n < 256 \<Longrightarrow> unat (word_of_nat n :: byte) = n"
  by (simp add: unat_of_nat take_bit_nat_eq_self)

lemma ucast_tail: "(ucast ((ch OR 0x80) AND 0xBF :: uchar32) :: byte) = word_of_nat (0x80 + unat ch mod 64)"
proof (rule word_unat_eq_iff[THEN iffD2])
  have "(ucast ((ch OR 0x80) AND 0xBF :: uchar32) :: byte) = (ucast ch OR 0x80) AND 0xBF"
    by (simp add: unsigned_and_eq unsigned_or_eq)
  moreover have "unat (ucast ch :: byte) mod 64 = unat ch mod 64"
    by (simp add: unsigned_ucast_eq take_bit_eq_mod mod_mod_cancel)
  ultimately show "unat (ucast ((ch OR 0x80) AND 0xBF :: uchar32) :: byte) = unat (word_of_nat (0x80 + unat ch mod 64) :: byte)"
    using unat_of_nat_byte[of "0x80 + unat ch mod 64"] by (simp add: unat_tail_byte del: of_nat_add)
qed

lemma signed_drop_bit_32:
  assumes "unat ch < 0x80000000"
  shows "signed_drop_bit k (ch :: uchar32) = drop_bit k ch"
proof -
  have "\<not> bit ch 31"
  proof -
    have "unat (drop_bit 31 ch) = 0" using assms by (simp add: unat_drop_bit_div del: unat_eq_0)
    then have "drop_bit 31 ch = 0" by (simp only: unat_eq_0)
    then show ?thesis by (simp add: bit_iff_odd_drop_bit)
  qed
  then show ?thesis
    by (intro bit_word_eqI) (auto simp: bit_signed_drop_bit_iff bit_drop_bit_eq dest: bit_imp_le_length)
qed

lemma ucast_first:
  assumes "unat ch < 2 ^ k" and "m AND mask k = 0" and "2 ^ k + unat m \<le> 256"
  shows "(ucast ((ch :: uchar32) OR m) :: byte) = word_of_nat (unat m + unat ch)"
proof -
  have "ch AND mask k = ch"
    using assms(1) by (simp add: word_unat_eq_iff unat_and_mask)
  then have "ch AND m = (ch AND mask k) AND m" by (simp only:)
  also have "\<dots> = ch AND (m AND mask k)" by (simp only: ac_simps)
  finally have "ch AND m = ch AND (m AND mask k)" .
  then have "ch AND m = 0" using assms(2) by simp
  then have "ch OR m = ch + m" using word_plus_and_or[of ch m] by simp
  moreover have "unat (ch + m) = unat ch + unat m"
    using assms by (simp add: unat_word_ariths)
  ultimately show ?thesis
    using assms unat_of_nat_byte[of "unat m + unat ch"]
    by (simp add: word_unat_eq_iff unsigned_ucast_eq take_bit_eq_mod add.commute del: of_nat_add)
qed

lemma sint_small: "unat ch < 0x80000000 \<Longrightarrow> sint (ch :: uchar32) = int (unat ch)"
proof -
  assume "unat ch < 0x80000000"
  then have *: "int (unat ch) < 0x80000000" by linarith
  have "sint ch = signed_take_bit 31 (uint ch)" by (simp add: sint_uint)
  also have "\<dots> = uint ch" using * by (intro signed_take_bit_int_eq_self) (simp_all add: order_trans[OF _ uint_nonnegative])
  finally show ?thesis by simp
qed

lemma writeBytes_unfold:
  "writeBytes k 1 ch a = ucast (ch OR firstByteMark k) # a"
  "writeBytes k 2 ch a = writeBytes k 1 (signed_drop_bit 6 ch) (ucast ((ch OR 0x80) AND 0xBF) # a)"
  "writeBytes k 3 ch a = writeBytes k 2 (signed_drop_bit 6 ch) (ucast ((ch OR 0x80) AND 0xBF) # a)"
  "writeBytes k 4 ch a = writeBytes k 3 (signed_drop_bit 6 ch) (ucast ((ch OR 0x80) AND 0xBF) # a)"
proof -
  have e4: "(4 :: nat) = Suc (Suc (Suc (Suc 0)))" by simp
  show "writeBytes k 1 ch a = ucast (ch OR firstByteMark k) # a"
    by (simp only: One_nat_def writeBytes.simps)
  show "writeBytes k 2 ch a = writeBytes k 1 (signed_drop_bit 6 ch) (ucast ((ch OR 0x80) AND 0xBF) # a)"
    by (simp only: One_nat_def numeral_2_eq_2 writeBytes.simps)
  show "writeBytes k 3 ch a = writeBytes k 2 (signed_drop_bit 6 ch) (ucast ((ch OR 0x80) AND 0xBF) # a)"
    by (simp only: numeral_3_eq_3 numeral_2_eq_2 writeBytes.simps)
  show "writeBytes k 4 ch a = writeBytes k 3 (signed_drop_bit 6 ch) (ucast ((ch OR 0x80) AND 0xBF) # a)"
    by (simp only: numeral_3_eq_3 e4 writeBytes.simps)
qed

lemma firstByteMark_simps:
  "firstByteMark 1 = 0" "firstByteMark 2 = 0xC0" "firstByteMark 3 = 0xE0" "firstByteMark 4 = 0xF0"
  by (simp_all add: firstByteMark_def)

lemma ucast_firstByte:
  fixes ch :: uchar32
  shows "unat ch < 32 \<Longrightarrow> ucast (ch OR 0xC0) = (word_of_nat (0xC0 + unat ch) :: byte)"
    and "unat ch < 16 \<Longrightarrow> ucast (ch OR 0xE0) = (word_of_nat (0xE0 + unat ch) :: byte)"
    and "unat ch < 8 \<Longrightarrow> ucast (ch OR 0xF0) = (word_of_nat (0xF0 + unat ch) :: byte)"
  using ucast_first[of ch 5 "0xC0"] ucast_first[of ch 4 "0xE0"] ucast_first[of ch 3 "0xF0"]
  by (simp_all add: mask_eq_exp_minus_1 del: of_nat_add)

lemma bytesFor_unat:
  assumes "unat ch < 0x110000"
  shows "bytesFor ch = (if unat ch < 0x80 then 1 else if unat ch < 0x800 then 2
    else if unat ch < 0x10000 then 3 else 4, ch)"
proof -
  have lt: "ch <s c \<longleftrightarrow> int (unat ch) < sint c" for c
    using assms by (simp add: word_sless_alt sint_small)
  have c: "sint (0x80 :: uchar32) = 0x80" "sint (0x800 :: uchar32) = 0x800"
    "sint (0x10000 :: uchar32) = 0x10000" "sint (0x110000 :: uchar32) = 0x110000" by simp_all
  have "ch <s 0x80 \<longleftrightarrow> unat ch < 0x80" "ch <s 0x800 \<longleftrightarrow> unat ch < 0x800"
    "ch <s 0x10000 \<longleftrightarrow> unat ch < 0x10000" "ch <s 0x110000 \<longleftrightarrow> unat ch < 0x110000"
    unfolding lt c by linarith+
  then show ?thesis using assms by (simp add: bytesFor_def)
qed

lemma writeBytes_bytesFor:
  assumes "unat ch < 0x110000"
  shows "(case bytesFor ch of (k, c) \<Rightarrow> writeBytes k k c []) = utf8Bytes (unat ch)"
    and "fst (bytesFor ch) = length (utf8Bytes (unat ch))"
proof -
  note lt = bytesFor_unat[OF assms]
  have u: "unat (signed_drop_bit k ch) = unat ch div 2 ^ k" for k
    using assms by (simp add: signed_drop_bit_32 unat_drop_bit_div)
  consider "unat ch < 0x80" | "0x80 \<le> unat ch" "unat ch < 0x800" | "0x800 \<le> unat ch" "unat ch < 0x10000"
    | "0x10000 \<le> unat ch" by linarith
  then show "(case bytesFor ch of (k, c) \<Rightarrow> writeBytes k k c []) = utf8Bytes (unat ch)"
  proof cases
    case 1
    then show ?thesis
      by (simp add: lt utf8Bytes_def utf8Values_def writeBytes_unfold firstByteMark_simps
          ucast_firstByte del: One_nat_def)
  next
    case 2
    then have "unat (signed_drop_bit 6 ch) < 32" by (simp add: u less_mult_imp_div_less)
    with 2 show ?thesis
      by (simp add: lt utf8Bytes_def utf8Values_def writeBytes_unfold firstByteMark_simps
          ucast_firstByte ucast_tail u del: One_nat_def of_nat_add)
  next
    case 3
    then have "unat (signed_drop_bit 12 ch) < 16" by (simp add: u less_mult_imp_div_less)
    with 3 show ?thesis
      by (simp add: lt utf8Bytes_def utf8Values_def writeBytes_unfold firstByteMark_simps
          ucast_firstByte ucast_tail u del: One_nat_def of_nat_add)
  next
    case 4
    have "unat (signed_drop_bit 18 ch) < 8"
      using assms by (simp add: u less_mult_imp_div_less)
    with 4 assms show ?thesis
      by (simp add: lt utf8Bytes_def utf8Values_def writeBytes_unfold firstByteMark_simps
          ucast_firstByte ucast_tail u del: One_nat_def of_nat_add)
  qed
  show "fst (bytesFor ch) = length (utf8Bytes (unat ch))"
    using assms by (simp add: lt utf8Bytes_def utf8Values_def)
qed

subsection \<open>Reading a sequence\<close>

lemma foldl_bytes:
  "foldl (\<lambda>character b. push_bit 6 character + ucast (b :: byte)) (word_of_nat a :: uchar32) bs =
   word_of_nat (foldl (\<lambda>n b. 64 * n + unat b) a bs)"
proof (induction bs arbitrary: a)
  case (Cons b bs)
  have "push_bit 6 (word_of_nat a :: uchar32) + ucast b = word_of_nat (64 * a + unat b)"
    by (simp add: push_bit_eq_mult)
  then show ?case using Cons[of "64 * a + unat b"] by (simp del: of_nat_add of_nat_mult)
qed simp

text \<open>The digits of a scalar value in base 64.\<close>

lemma digits64:
  assumes "w < 64" and "z < 64" and "y < (64 :: nat)"
  shows "(64 * x + w) div 64 = x" and "(64 * x + w) mod 64 = w"
    and "(4096 * x + 64 * z + w) div 64 mod 64 = z" and "(4096 * x + 64 * z + w) mod 64 = w"
    and "(4096 * x + 64 * z + w) div 4096 = x"
    and "(262144 * x + 4096 * y + 64 * z + w) div 262144 = x"
    and "(262144 * x + 4096 * y + 64 * z + w) div 4096 mod 64 = y"
    and "(262144 * x + 4096 * y + 64 * z + w) div 64 mod 64 = z"
    and "(262144 * x + 4096 * y + 64 * z + w) mod 64 = w"
proof -
  have d: "(64 * m + w) div 64 = m" "(64 * m + w) mod 64 = w" if "w < 64" for m w :: nat
    using that by simp_all
  have e: "n div 4096 = n div 64 div 64" "n div 262144 = n div 64 div 64 div 64" for n :: nat
    by (simp_all add: div_mult2_eq[symmetric])
  have r: "4096 * x + 64 * z + w = 64 * (64 * x + z) + w"
    "262144 * x + 4096 * y + 64 * z + w = 64 * (64 * (64 * x + y) + z) + w" by simp_all
  show "(64 * x + w) div 64 = x" "(64 * x + w) mod 64 = w"
    "(4096 * x + 64 * z + w) div 64 mod 64 = z" "(4096 * x + 64 * z + w) mod 64 = w"
    "(4096 * x + 64 * z + w) div 4096 = x"
    "(262144 * x + 4096 * y + 64 * z + w) div 262144 = x"
    "(262144 * x + 4096 * y + 64 * z + w) div 4096 mod 64 = y"
    "(262144 * x + 4096 * y + 64 * z + w) div 64 mod 64 = z"
    "(262144 * x + 4096 * y + 64 * z + w) mod 64 = w"
    using assms by (simp_all only: e r d)
qed

lemma utf8BytesI: "map unat bs = utf8Values n \<Longrightarrow> bs = utf8Bytes n"
proof -
  assume "map unat bs = utf8Values n"
  then have "map (word_of_nat \<circ> unat) bs = utf8Bytes n" by (simp only: utf8Bytes_def map_map[symmetric])
  moreover have "map (word_of_nat \<circ> unat) bs = bs" by (rule map_idI) simp
  ultimately show ?thesis by simp
qed

lemma isLegalUTF8_simps:
  "isLegalUTF8 (b0 # b1 # bs) (Suc (Suc 0)) \<longleftrightarrow> secondByteLegal b0 b1 \<and> firstByteLegal b0"
  "isLegalUTF8 (b0 # bs) (Suc 0) \<longleftrightarrow> firstByteLegal b0"
  "isLegalUTF8 (b0 # b1 # b2 # bs) (Suc (Suc (Suc 0))) \<longleftrightarrow>
     tailByteLegal b2 \<and> secondByteLegal b0 b1 \<and> firstByteLegal b0"
  "isLegalUTF8 (b0 # b1 # b2 # b3 # bs) (Suc (Suc (Suc (Suc 0)))) \<longleftrightarrow>
     tailByteLegal b3 \<and> tailByteLegal b2 \<and> secondByteLegal b0 b1 \<and> firstByteLegal b0"
  "isLegalUTF8 (b0 # bs) 1 \<longleftrightarrow> firstByteLegal b0"
  "isLegalUTF8 (b0 # b1 # bs) 2 \<longleftrightarrow> secondByteLegal b0 b1 \<and> firstByteLegal b0"
  "isLegalUTF8 (b0 # b1 # b2 # bs) 3 \<longleftrightarrow> tailByteLegal b2 \<and> secondByteLegal b0 b1 \<and> firstByteLegal b0"
  "isLegalUTF8 (b0 # b1 # b2 # b3 # bs) 4 \<longleftrightarrow>
     tailByteLegal b3 \<and> tailByteLegal b2 \<and> secondByteLegal b0 b1 \<and> firstByteLegal b0"
proof -
  have e4: "(4 :: nat) = Suc (Suc (Suc (Suc 0)))" by simp
  show "isLegalUTF8 (b0 # b1 # bs) (Suc (Suc 0)) \<longleftrightarrow> secondByteLegal b0 b1 \<and> firstByteLegal b0"
  "isLegalUTF8 (b0 # bs) (Suc 0) \<longleftrightarrow> firstByteLegal b0"
  "isLegalUTF8 (b0 # b1 # b2 # bs) (Suc (Suc (Suc 0))) \<longleftrightarrow>
     tailByteLegal b2 \<and> secondByteLegal b0 b1 \<and> firstByteLegal b0"
  "isLegalUTF8 (b0 # b1 # b2 # b3 # bs) (Suc (Suc (Suc (Suc 0)))) \<longleftrightarrow>
     tailByteLegal b3 \<and> tailByteLegal b2 \<and> secondByteLegal b0 b1 \<and> firstByteLegal b0"
    "isLegalUTF8 (b0 # bs) 1 \<longleftrightarrow> firstByteLegal b0"
    "isLegalUTF8 (b0 # b1 # bs) 2 \<longleftrightarrow> secondByteLegal b0 b1 \<and> firstByteLegal b0"
    "isLegalUTF8 (b0 # b1 # b2 # bs) 3 \<longleftrightarrow> tailByteLegal b2 \<and> secondByteLegal b0 b1 \<and> firstByteLegal b0"
    "isLegalUTF8 (b0 # b1 # b2 # b3 # bs) 4 \<longleftrightarrow>
       tailByteLegal b3 \<and> tailByteLegal b2 \<and> secondByteLegal b0 b1 \<and> firstByteLegal b0"
    by (simp_all add: isLegalUTF8_def numeral_2_eq_2 numeral_3_eq_3 e4)
qed

lemmas byte_order = word_less_nat_alt word_le_nat_alt word_unat_eq_iff

lemma utf8Values_less: "n < 0x110000 \<Longrightarrow> v \<in> set (utf8Values n) \<Longrightarrow> v < 256"
proof -
  have "n div 64 < 32" if "n < 0x800" using that by (simp add: less_mult_imp_div_less)
  moreover have "n div 4096 < 16" if "n < 0x10000" using that by (simp add: less_mult_imp_div_less)
  moreover have "n div 262144 < 8" if "n < 0x110000" using that by (simp add: less_mult_imp_div_less)
  moreover have "n mod 64 < 64" "n div 64 mod 64 < 64" "n div 4096 mod 64 < 64" by simp_all
  moreover assume "n < 0x110000" "v \<in> set (utf8Values n)"
  ultimately show ?thesis by (auto simp: utf8Values_def split: if_splits)
qed

lemma unat_utf8Bytes: "n < 0x110000 \<Longrightarrow> map unat (utf8Bytes n) = utf8Values n"
  unfolding utf8Bytes_def map_map comp_def
  by (rule map_idI) (use utf8Values_less in \<open>auto intro: unat_of_nat_byte\<close>)

lemma foldl_unat: "foldl (\<lambda>n b. 64 * n + unat b) a bs = foldl (\<lambda>n v. 64 * n + v) a (map unat (bs :: byte list))"
  by (induction bs arbitrary: a) simp_all

lemma expand64:
  "(n :: nat) = 64 * (n div 64) + n mod 64"
  "n = 4096 * (n div 4096) + 64 * (n div 64 mod 64) + n mod 64"
  "n = 262144 * (n div 262144) + 4096 * (n div 4096 mod 64) + 64 * (n div 64 mod 64) + n mod 64"
proof -
  have e: "n div 4096 = n div 64 div 64" "n div 262144 = n div 64 div 64 div 64"
    by (simp_all add: div_mult2_eq[symmetric])
  note s = mult_div_mod_eq[of 64]
  show "n = 64 * (n div 64) + n mod 64"
    "n = 4096 * (n div 4096) + 64 * (n div 64 mod 64) + n mod 64"
    "n = 262144 * (n div 262144) + 4096 * (n div 4096 mod 64) + 64 * (n div 64 mod 64) + n mod 64"
    using s[of n] s[of "n div 64"] s[of "n div 64 div 64"] unfolding e by linarith+
qed

lemma read_utf8Bytes:
  assumes "n < 0x110000"
  shows "readUTF8Sequence (utf8Bytes n @ rest) (length (utf8Bytes n)) = word_of_nat n"
proof -
  define k where "k = [0x00000000, 0x00003080, 0x000E2080, 0x03C82080 :: nat] ! (length (utf8Bytes n) - 1)"
  have "foldl (\<lambda>n v. 64 * n + v) 0 (utf8Values n) = n + k"
    using expand64[of n] by (auto simp: k_def utf8Bytes_def utf8Values_def)
  then have "foldl (\<lambda>character b. push_bit 6 character + ucast b) 0 (utf8Bytes n) = (word_of_nat (n + k) :: uchar32)"
    using foldl_bytes[of 0 "utf8Bytes n"] by (simp add: foldl_unat unat_utf8Bytes assms)
  moreover have "offsetsFromUTF8 (length (utf8Bytes n) - 1) = word_of_nat k"
    by (simp add: k_def offsetsFromUTF8_def utf8Bytes_def utf8Values_def)
  ultimately show ?thesis by (simp add: readUTF8Sequence_def)
qed

lemma legal_two:
  assumes "0xC0 \<le> unat b0" "unat b0 < 0xE0" "secondByteLegal b0 b1" "firstByteLegal b0"
  obtains n where "scalar n" and "[b0, b1] = utf8Bytes n"
proof -
  define x y where "x = unat b0 - 0xC0" and "y = unat b1 - 0x80"
  have b: "0x80 \<le> unat b1" "unat b1 \<le> 0xBF" "0xC2 \<le> unat b0"
    using assms by (auto simp: secondByteLegal_def firstByteLegal_def byte_order split: if_splits)
  then have xy: "unat b0 = 0xC0 + x" "unat b1 = 0x80 + y" "2 \<le> x" "x < 32" "y < 64"
    using assms by (simp_all add: x_def y_def)
  let ?n = "64 * x + y"
  have n: "0x80 \<le> ?n" "?n < 0x800" using xy by simp_all
  have "\<not> ?n < 0x80" "?n < 0x800"
    using n by linarith+
  note r = this and d = digits64[OF xy(5) xy(5) xy(5), of x]
  have "map unat [b0, b1] = utf8Values ?n"
    by (simp only: list.map utf8Values_def r d xy(1,2) if_True if_False)
  then have "[b0, b1] = utf8Bytes ?n" by (rule utf8BytesI)
  moreover have "scalar ?n" using n by (simp add: scalar_def)
  ultimately show thesis using that by blast
qed

lemma legal_three:
  assumes "0xE0 \<le> unat b0" "unat b0 < 0xF0" "secondByteLegal b0 b1" "tailByteLegal b2"
    and "b0 = 0xED \<longrightarrow> 0x80 \<le> b1"
  obtains n where "scalar n" and "[b0, b1, b2] = utf8Bytes n"
proof -
  define x y z where "x = unat b0 - 0xE0" and "y = unat b1 - 0x80" and "z = unat b2 - 0x80"
  have b: "0x80 \<le> unat b1" "unat b1 \<le> 0xBF" "0x80 \<le> unat b2" "unat b2 \<le> 0xBF"
    "unat b0 = 0xE0 \<longrightarrow> 0xA0 \<le> unat b1" "unat b0 = 0xED \<longrightarrow> unat b1 \<le> 0x9F"
    using assms by (auto simp: secondByteLegal_def tailByteLegal_def byte_order split: if_splits)
  then have xyz: "unat b0 = 0xE0 + x" "unat b1 = 0x80 + y" "unat b2 = 0x80 + z" "x < 16" "y < 64" "z < 64"
    "x = 0 \<longrightarrow> 32 \<le> y" "x = 13 \<longrightarrow> y < 32"
    using assms by (auto simp: x_def y_def z_def)
  let ?n = "4096 * x + 64 * y + z"
  have n: "0x800 \<le> ?n" "?n < 0x10000" using xyz by (cases "x = 0"; simp)+
  have "\<not> ?n < 0x80" "\<not> ?n < 0x800" "?n < 0x10000"
    using n by linarith+
  note r = this and d = digits64[OF xyz(6) xyz(5) xyz(5), of x]
  have "map unat [b0, b1, b2] = utf8Values ?n"
    by (simp only: list.map utf8Values_def r d xyz(1-3) if_True if_False)
  then have "[b0, b1, b2] = utf8Bytes ?n" by (rule utf8BytesI)
  moreover have "scalar ?n"
  proof -
    consider "x < 13" | "x = 13" | "13 < x" by linarith
    then have "?n < 0xD800 \<or> 0xE000 \<le> ?n" using xyz by cases simp_all
    then show ?thesis using n by (auto simp: scalar_def)
  qed
  ultimately show thesis using that by blast
qed

lemma legal_four:
  assumes "0xF0 \<le> unat b0" "secondByteLegal b0 b1" "firstByteLegal b0" "tailByteLegal b2" "tailByteLegal b3"
    and "b0 = 0xF4 \<longrightarrow> 0x80 \<le> b1"
  obtains n where "scalar n" and "[b0, b1, b2, b3] = utf8Bytes n"
proof -
  define x y z w where "x = unat b0 - 0xF0" and "y = unat b1 - 0x80" and "z = unat b2 - 0x80"
    and "w = unat b3 - 0x80"
  have b: "0x80 \<le> unat b1" "unat b1 \<le> 0xBF" "0x80 \<le> unat b2" "unat b2 \<le> 0xBF"
    "0x80 \<le> unat b3" "unat b3 \<le> 0xBF" "unat b0 \<le> 0xF4"
    "unat b0 = 0xF0 \<longrightarrow> 0x90 \<le> unat b1" "unat b0 = 0xF4 \<longrightarrow> unat b1 \<le> 0x8F"
    using assms
    by (auto simp: secondByteLegal_def tailByteLegal_def firstByteLegal_def byte_order split: if_splits)
  then have v: "unat b0 = 0xF0 + x" "unat b1 = 0x80 + y" "unat b2 = 0x80 + z" "unat b3 = 0x80 + w"
    "x \<le> 4" "y < 64" "z < 64" "w < 64" "x = 0 \<longrightarrow> 16 \<le> y" "x = 4 \<longrightarrow> y < 16"
    using assms by (auto simp: x_def y_def z_def w_def)
  let ?n = "262144 * x + 4096 * y + 64 * z + w"
  have n: "0x10000 \<le> ?n" "?n < 0x110000"
  proof -
    show "0x10000 \<le> ?n" using v by (cases "x = 0") simp_all
    show "?n < 0x110000" using v by (cases "x = 4") simp_all
  qed
  have "\<not> ?n < 0x80" "\<not> ?n < 0x800" "\<not> ?n < 0x10000"
    using n by linarith+
  note r = this and d = digits64[OF v(8) v(7) v(6), of x]
  have "map unat [b0, b1, b2, b3] = utf8Values ?n"
    by (simp only: list.map utf8Values_def r d v(1-4) if_True if_False)
  then have "[b0, b1, b2, b3] = utf8Bytes ?n" by (rule utf8BytesI)
  moreover have "scalar ?n" using n by (simp add: scalar_def)
  ultimately show thesis using that by blast
qed

text \<open>
  \<open>isLegalUTF8\<close> has no lower bound on the byte after \<^verbatim>\<open>0xED\<close> and \<^verbatim>\<open>0xF4\<close>. Away from such a
  byte, the sequences it accepts are exactly the encodings of scalar values.
\<close>

definition shortSecond :: "byte list \<Rightarrow> bool" where
  "shortSecond bs = (case bs of b0 # b1 # _ \<Rightarrow> (b0 = 0xED \<or> b0 = 0xF4) \<and> b1 < 0x80 | _ \<Rightarrow> False)"

lemma legal_sequence:
  assumes "source = b0 # rest" and "len = inlineUTF8SequenceLength b0" and "len \<le> length source"
    and "isLegalUTF8 source len" and "\<not> shortSecond source"
  obtains n where "scalar n" and "take len source = utf8Bytes n" and "len = length (utf8Bytes n)"
proof -
  have e4: "(4 :: nat) = Suc (Suc (Suc (Suc 0)))" by simp
  note e = numeral_2_eq_2 numeral_3_eq_3 e4
  consider (one) "unat b0 < 0x80" "len = 1" | (two) "0xC0 \<le> unat b0" "unat b0 < 0xE0" "len = 2"
    | (three) "0xE0 \<le> unat b0" "unat b0 < 0xF0" "len = 3" | (four) "0xF0 \<le> unat b0" "len = 4"
    using isLegalUTF8_pos[OF assms(4)] assms(2) unfolding sequenceLength by (simp split: if_splits)
  then have "\<exists>n. scalar n \<and> take len source = utf8Bytes n"
  proof cases
    case one
    then have "scalar (unat b0)" "[b0] = utf8Bytes (unat b0)"
      by (simp_all add: scalar_def utf8Bytes_def utf8Values_def)
    then show ?thesis using one assms by auto
  next
    case two
    then obtain b1 bs where s: "source = b0 # b1 # bs" using assms by (cases rest) auto
    then have "secondByteLegal b0 b1" "firstByteLegal b0"
      using two(3) assms(4) by (simp_all add: isLegalUTF8_simps)
    from legal_two[OF two(1,2) this] show ?thesis using s two by (metis take_Suc_Cons take0 e(1))
  next
    case three
    then obtain b1 b2 bs where s: "source = b0 # b1 # b2 # bs"
      using assms by (cases rest; cases "tl rest") auto
    then have "secondByteLegal b0 b1" "tailByteLegal b2" "b0 = 0xED \<longrightarrow> 0x80 \<le> b1"
      using three(3) assms(4,5) by (auto simp: isLegalUTF8_simps shortSecond_def)
    from legal_three[OF three(1,2) this] show ?thesis using s three by (metis take_Suc_Cons take0 e(2))
  next
    case four
    then obtain b1 b2 b3 bs where s: "source = b0 # b1 # b2 # b3 # bs"
      using assms by (cases rest; cases "tl rest"; cases "tl (tl rest)") auto
    then have "secondByteLegal b0 b1" "firstByteLegal b0" "tailByteLegal b2" "tailByteLegal b3"
      "b0 = 0xF4 \<longrightarrow> 0x80 \<le> b1"
      using four(2) assms(4,5) by (auto simp: isLegalUTF8_simps shortSecond_def)
    from legal_four[OF four(1) this] show ?thesis using s four by (metis take_Suc_Cons take0 e4)
  qed
  then obtain n where n: "scalar n" "take len source = utf8Bytes n" by blast
  moreover have "length (take len source) = len" using assms(3) by simp
  ultimately show thesis using that by (metis)
qed

lemma utf8Bytes_legal:
  assumes "scalar n"
  shows "inlineUTF8SequenceLength (hd (utf8Bytes n)) = length (utf8Bytes n)"
    and "isLegalUTF8 (utf8Bytes n @ rest) (length (utf8Bytes n))"
    and "utf8Bytes n \<noteq> []"
proof -
  show "utf8Bytes n \<noteq> []" by (simp add: utf8Bytes_def utf8Values_def)
  have lt: "n < 0x110000" using assms by (simp add: scalar_def)
  note v = utf8Values_less[OF lt]
  have d: "n div 64 < 32" if "n < 0x800" using that by (simp add: less_mult_imp_div_less)
  have d3: "n div 4096 < 16" if "n < 0x10000" using that by (simp add: less_mult_imp_div_less)
  have d4: "n div 262144 \<le> 4" using lt by simp
  have m: "n mod 64 < 64" "n div 64 mod 64 < 64" "n div 4096 mod 64 < 64" by simp_all
  show "inlineUTF8SequenceLength (hd (utf8Bytes n)) = length (utf8Bytes n)"
    unfolding sequenceLength
    using d d3 d4 by (auto simp: utf8Bytes_def utf8Values_def unat_of_nat_byte simp del: of_nat_add)
  show "isLegalUTF8 (utf8Bytes n @ rest) (length (utf8Bytes n))"
  proof -
    note legal = isLegalUTF8_simps utf8Bytes_def utf8Values_def firstByteLegal_def secondByteLegal_def
      tailByteLegal_def byte_order unat_of_nat_byte
    have l3: "isLegalUTF8 (map word_of_nat [0xE0 + x, 0x80 + y, 0x80 + z] @ rest) (Suc (Suc (Suc 0)))"
      if "x < 16" "y < 64" "z < 64" "x = 0 \<longrightarrow> 32 \<le> y" "x = 13 \<longrightarrow> y < 32" for x y z
      using that by (auto simp: legal simp del: of_nat_add)
    have l4: "isLegalUTF8 (map word_of_nat [0xF0 + x, 0x80 + y, 0x80 + z, 0x80 + w] @ rest) (Suc (Suc (Suc (Suc 0))))"
      if "x \<le> 4" "y < 64" "z < 64" "w < 64" "x = 0 \<longrightarrow> 16 \<le> y" "x = 4 \<longrightarrow> y < 16" for x y z w
      using that by (auto simp: legal simp del: of_nat_add)
    consider "n < 0x80" | "0x80 \<le> n" "n < 0x800" | "0x800 \<le> n" "n < 0x10000" | "0x10000 \<le> n" by linarith
    then show ?thesis
    proof cases
      case 2
      have "2 \<le> n div 64" "n mod 64 \<le> 63" using 2 expand64(1)[of n] m by linarith+
      with 2 d show ?thesis by (simp add: legal del: of_nat_add)
    next
      case 3
      have "n div 4096 = 0 \<longrightarrow> 32 \<le> n div 64 mod 64" using 3 expand64(2)[of n] m by linarith
      moreover have "n div 4096 = 13 \<longrightarrow> n div 64 mod 64 < 32" using assms expand64(2)[of n] m
        unfolding scalar_def by linarith
      ultimately show ?thesis using 3 l3[OF d3 m(2) m(1)] by (simp add: utf8Bytes_def utf8Values_def)
    next
      case 4
      have "n div 262144 = 0 \<longrightarrow> 16 \<le> n div 4096 mod 64" using 4 expand64(3)[of n] m by linarith
      moreover have "n div 262144 = 4 \<longrightarrow> n div 4096 mod 64 < 16" using lt expand64(3)[of n] m by linarith
      ultimately show ?thesis using 4 l4[OF d4 m(3) m(2) m(1)] by (simp add: utf8Bytes_def utf8Values_def)
    qed (simp add: legal)
  qed
qed

subsection \<open>Code units\<close>

lemma unat_uchar: "unat (c :: uchar) < 0x10000"
  using unsigned_less[of c, where ?'a = nat] by simp

lemma unat_ucast_uchar: "unat (ucast (c :: uchar) :: uchar32) = unat c"
  using unat_uchar[of c] by (simp add: unsigned_ucast_eq take_bit_nat_eq_self)

lemma uchar_of_unat: "unat (c :: uchar) = n \<Longrightarrow> c = word_of_nat n"
  by auto

lemma unat_of_nat_uchar: "n < 0x10000 \<Longrightarrow> unat (word_of_nat n :: uchar) = n"
  by (simp add: unat_of_nat take_bit_nat_eq_self)

lemma unat_of_nat_uchar32: "n < 0x110000 \<Longrightarrow> unat (word_of_nat n :: uchar32) = n"
  by (simp add: unat_of_nat take_bit_nat_eq_self)

definition isLead :: "uchar \<Rightarrow> bool" where
  "isLead c \<longleftrightarrow> 0xD800 \<le> c \<and> c \<le> 0xDBFF"

definition isTrail :: "uchar \<Rightarrow> bool" where
  "isTrail c \<longleftrightarrow> 0xDC00 \<le> c \<and> c \<le> 0xDFFF"

lemma isLead_unat: "isLead c \<longleftrightarrow> 0xD800 \<le> unat c \<and> unat c \<le> 0xDBFF"
  by (simp add: isLead_def word_le_nat_alt)

lemma isTrail_unat: "isTrail c \<longleftrightarrow> 0xDC00 \<le> unat c \<and> unat c \<le> 0xDFFF"
  by (simp add: isTrail_def word_le_nat_alt)

lemma readUTF16_eq:
  "readUTF16 strict c source =
     (if isLead c then
        (case source of [] \<Rightarrow> Inl sourceExhausted
         | d # source' \<Rightarrow> if isTrail d then Inr (combineSurrogates (ucast c) (ucast d), source')
                          else if strict then Inl sourceIllegal else Inr (ucast c, source))
      else if strict \<and> isTrail c then Inl sourceIllegal else Inr (ucast c, source))"
  by (simp add: readUTF16_def Let_def isLead_unat isTrail_unat word_le_nat_alt unat_ucast_uchar
      cong: list.case_cong)

lemma combineSurrogates:
  assumes "isLead c" and "isTrail d"
  obtains n where "0x10000 \<le> n" and "n < 0x110000" and "combineSurrogates (ucast c) (ucast d) = word_of_nat n"
    and "[c, d] = utf16Units n"
proof
  let ?x = "unat c - 0xD800" and ?y = "unat d - 0xDC00"
  let ?n = "1024 * ?x + ?y + 0x10000"
  have x: "unat c = ?x + 0xD800" "?x < 1024" and y: "unat d = ?y + 0xDC00" "?y < 1024"
    using assms by (auto simp: isLead_unat isTrail_unat)
  show "0x10000 \<le> ?n" "?n < 0x110000" using x y by linarith+
  have c: "(ucast c :: uchar32) = word_of_nat ?x + 0xD800" "(ucast d :: uchar32) = word_of_nat ?y + 0xDC00"
    using arg_cong[OF x(1), of "word_of_nat :: nat \<Rightarrow> uchar32"] arg_cong[OF y(1), of "word_of_nat :: nat \<Rightarrow> uchar32"]
    by (simp_all only: of_nat_add of_nat_numeral of_nat_unat)
  show "combineSurrogates (ucast c) (ucast d) = word_of_nat ?n"
    unfolding combineSurrogates_def c by (simp add: push_bit_eq_mult mult.commute)
  have "?n = 1024 * (?x + 64) + ?y" by simp
  then have "?n div 1024 = ?x + 64" "?n mod 1024 = ?y" using y(2) by (simp_all only: div_mult_self4 mod_mult_self4 div_less mod_less)
  then show "[c, d] = utf16Units ?n" 
    using uchar_of_unat[of c "?x + 0xD800"] uchar_of_unat[of d "?y + 0xDC00"] x(1) y(1)
    by (simp add: utf16Units_def del: of_nat_add of_nat_diff)
qed

lemma lead_trail_units:
  assumes "0x10000 \<le> n" and "n < 0x110000"
  obtains c d where "utf16Units n = [c, d]" and "isLead c" and "isTrail d"
    and "combineSurrogates (ucast c) (ucast d) = word_of_nat n"
proof
  let ?c = "word_of_nat (n div 1024 + 0xD7C0) :: uchar" and ?d = "word_of_nat (n mod 1024 + 0xDC00) :: uchar"
  have b: "64 \<le> n div 1024" "n div 1024 < 1088" "n mod 1024 < 1024"
    using assms by (simp_all add: less_mult_imp_div_less div_greater_zero_iff)
  show "utf16Units n = [?c, ?d]" using assms by (simp add: utf16Units_def)
  have u: "unat ?c = n div 1024 + 0xD7C0" "unat ?d = n mod 1024 + 0xDC00"
    using b by (intro unat_of_nat_uchar; linarith)+
  show lt: "isLead ?c" "isTrail ?d" unfolding isLead_unat isTrail_unat u using b by linarith+
  have c: "(ucast ?c :: uchar32) = word_of_nat (n div 1024) + 0xD7C0" "(ucast ?d :: uchar32) = word_of_nat (n mod 1024) + 0xDC00"
    using arg_cong[OF u(1), of "word_of_nat :: nat \<Rightarrow> uchar32"] arg_cong[OF u(2), of "word_of_nat :: nat \<Rightarrow> uchar32"]
    by (simp_all only: of_nat_add of_nat_numeral of_nat_unat)
  have "1024 * word_of_nat (n div 1024) + word_of_nat (n mod 1024) = (word_of_nat n :: uchar32)"
    by (metis of_nat_add of_nat_mult of_nat_numeral mult_div_mod_eq)
  then show "combineSurrogates (ucast ?c) (ucast ?d) = word_of_nat n"
    unfolding combineSurrogates_def c by (simp add: push_bit_eq_mult mult.commute)
qed

lemma readUTF16_units:
  assumes "scalar n" and "utf16Units n @ rest = c # source"
  shows "readUTF16 strict c source = Inr (word_of_nat n, rest)"
proof (cases "n < 0x10000")
  case True
  then have c: "c = word_of_nat n" "source = rest" and u: "unat c = n"
    using assms(2) by (auto simp: utf16Units_def unat_of_nat_uchar)
  have "\<not> isLead c" "\<not> isTrail c" using assms(1) unfolding isLead_unat isTrail_unat u scalar_def by linarith+
  moreover have "(ucast c :: uchar32) = word_of_nat n"
    using arg_cong[OF u, of "word_of_nat :: nat \<Rightarrow> uchar32"] by (simp only: of_nat_unat)
  ultimately show ?thesis using c by (simp add: readUTF16_eq)
next
  case False
  then obtain c' d where "utf16Units n = [c', d]" "isLead c'" "isTrail d"
    "combineSurrogates (ucast c') (ucast d) = word_of_nat n"
    using assms(1) lead_trail_units[of n] by (auto simp: scalar_def)
  then show ?thesis using assms(2) by (auto simp: readUTF16_eq)
qed

lemma surrogate_div: "U_IS_SURROGATE c \<longleftrightarrow> unat c div 2048 = 27"
proof -
  have m: "(0xFFFFF800 :: uchar32) = NOT (mask 11)" by (simp add: mask_eq_exp_minus_1)
  have "unat (c AND 0xFFFFF800) = unat c div 2048 * 2048" unfolding m unat_and_not_mask by simp
  then show ?thesis unfolding U_IS_SURROGATE_def word_unat_eq_iff by simp
qed

lemma emitUTF16_scalar:
  assumes "scalar n"
  shows "emitUTF16 strict (word_of_nat n) room =
    (if room < length (utf16Units n) then Inl targetExhausted else Inr (utf16Units n))"
proof -
  let ?c = "word_of_nat n :: uchar32"
  have n: "n < 0x110000" and u: "unat ?c = n" using assms unat_of_nat_uchar32 by (auto simp: scalar_def)
  have s: "sint ?c = int n" using sint_small[of ?c] n u by simp
  have "\<not> n div 2048 = 27" using assms by (auto simp: scalar_def div_eq_iff)
  then have ns: "\<not> U_IS_SURROGATE ?c" by (simp add: surrogate_div u)
  show ?thesis
  proof (cases "n < 0x10000")
    case True
    then have "U_IS_BMP ?c" "(ucast ?c :: uchar) = word_of_nat n"
      using u by (simp_all add: U_IS_BMP_def word_le_nat_alt word_unat_eq_iff unsigned_ucast_eq take_bit_eq_mod unat_of_nat)
    then show ?thesis using True ns by (simp add: emitUTF16_def utf16Units_def)
  next
    case False
    then have "\<not> U_IS_BMP ?c" using u by (simp add: U_IS_BMP_def word_le_nat_alt)
    moreover have "U_IS_SUPPLEMENTARY ?c"
    proof -
      have "0x10000 \<le> ?c" using False u by (simp add: word_le_nat_alt)
      then have "unat (?c - 0x10000) = n - 0x10000" using u by (simp add: unat_sub)
      then show ?thesis using n by (simp add: U_IS_SUPPLEMENTARY_def word_le_nat_alt)
    qed
    moreover have "[U16_LEAD ?c, U16_TRAIL ?c] = utf16Units n"
    proof -
      have "int (unat (U16_LEAD ?c)) = int (n div 1024 + 0xD7C0)"
        using uint_lead[of ?c] s n False by (simp add: zdiv_int)
      then have "unat (U16_LEAD ?c) = n div 1024 + 0xD7C0" by (simp only: of_nat_eq_iff)
      moreover have "int (unat (U16_TRAIL ?c)) = int (n mod 1024 + 0xDC00)"
        using uint_trail[of ?c] u uint_sint_nonneg[of ?c] s by (simp add: zmod_int)
      then have "unat (U16_TRAIL ?c) = n mod 1024 + 0xDC00" by (simp only: of_nat_eq_iff)
      ultimately have "U16_LEAD ?c = word_of_nat (n div 1024 + 0xD7C0)" "U16_TRAIL ?c = word_of_nat (n mod 1024 + 0xDC00)"
        by (simp_all only: uchar_of_unat)
      then show ?thesis using False by (simp add: utf16Units_def del: of_nat_add)
    qed
    ultimately show ?thesis using False by (auto simp: emitUTF16_def utf16Units_def)
  qed
qed

subsection \<open>Strings\<close>

definition utf8 :: "nat list \<Rightarrow> byte list" where
  "utf8 ns = concat (map utf8Bytes ns)"

definition utf16 :: "nat list \<Rightarrow> ustring" where
  "utf16 ns = concat (map utf16Units ns)"

definition scalars :: "nat list \<Rightarrow> bool" where
  "scalars ns \<longleftrightarrow> (\<forall>n \<in> set ns. scalar n)"

lemma utf_Cons [simp]:
  "utf8 [] = []" "utf8 (n # ns) = utf8Bytes n @ utf8 ns"
  "utf16 [] = []" "utf16 (n # ns) = utf16Units n @ utf16 ns"
  "scalars []" "scalars (n # ns) \<longleftrightarrow> scalar n \<and> scalars ns"
  by (simp_all add: utf8_def utf16_def scalars_def)

lemma units_lengths:
  "utf16Units n \<noteq> []" "length (utf16Units n) \<le> length (utf8Bytes n)"
  "length (utf8Bytes n) \<le> 3 * length (utf16Units n)"
  by (simp_all add: utf16Units_def utf8Bytes_def utf8Values_def)

lemma utf_lengths: "length (utf16 ns) \<le> length (utf8 ns)" "length (utf8 ns) \<le> 3 * length (utf16 ns)"
  by (induction ns) (auto simp: units_lengths intro: add_mono order_trans[OF add_mono[OF units_lengths(3)]])

lemma convertUTF16ToUTF8_utf16:
  assumes "scalars ns" and "length (utf8 ns) \<le> room"
  shows "convertUTF16ToUTF8 strict (utf16 ns) target room = (conversionOK, [], target @ utf8 ns)"
  using assms
proof (induction ns arbitrary: target room)
  case (Cons n ns)
  obtain c source where u: "utf16Units n @ utf16 ns = c # source" using units_lengths(1)[of n] by (cases "utf16Units n") auto
  have n: "n < 0x110000" and r: "readUTF16 strict c source = Inr (word_of_nat n, utf16 ns)"
    using Cons.prems readUTF16_units[OF _ u] by (auto simp: scalar_def)
  obtain k ch where k: "bytesFor (word_of_nat n) = (k, ch)" by (cases "bytesFor (word_of_nat n)")
  have "writeBytes k k ch [] = utf8Bytes n" "k = length (utf8Bytes n)"
    using writeBytes_bytesFor[of "word_of_nat n"] n k by (simp_all add: unat_of_nat_uchar32)
  moreover have "convertUTF16ToUTF8 strict (utf16 ns) (target @ utf8Bytes n) (room - length (utf8Bytes n)) =
      (conversionOK, [], (target @ utf8Bytes n) @ utf8 ns)"
    using Cons.prems by (intro Cons.IH) auto
  ultimately show ?case using Cons.prems by (simp add: u r k)
qed simp

lemma convertUTF8ToUTF16_utf8:
  assumes "scalars ns" and "length (utf16 ns) \<le> room"
  shows "convertUTF8ToUTF16 strict (utf8 ns) target room = (conversionOK, [], target @ utf16 ns)"
  using assms
proof (induction ns arbitrary: target room)
  case Nil
  then show ?case by (simp add: convertUTF8ToUTF16.simps)
next
  case (Cons n ns)
  have n: "n < 0x110000" "scalar n" using Cons.prems by (auto simp: scalar_def)
  note l = utf8Bytes_legal[OF n(2)] and r = read_utf8Bytes[OF n(1), of "utf8 ns"]
  obtain b0 rest where b: "utf8Bytes n = b0 # rest" using l(3) by (cases "utf8Bytes n") auto
  have "convertUTF8ToUTF16 strict (utf8 ns) (target @ utf16Units n) (room - length (utf16Units n)) =
      (conversionOK, [], (target @ utf16Units n) @ utf16 ns)"
    using Cons.prems by (intro Cons.IH) auto
  moreover have "inlineUTF8SequenceLength b0 = length (utf8Bytes n)" using l(1) b by simp
  ultimately show ?case
    using Cons.prems l(2)[of "utf8 ns"] r b
    by (subst convertUTF8ToUTF16.simps) (simp add: emitUTF16_scalar[OF n(2)])
qed

text \<open>The converse: away from the missing bound, only encodings of scalar values are accepted.\<close>

fun noShortSecond :: "byte list \<Rightarrow> bool" where
  "noShortSecond [] = True"
| "noShortSecond (b # bs) = (\<not> shortSecond (b # bs) \<and> noShortSecond bs)"

lemma noShortSecond_drop: "noShortSecond bs \<Longrightarrow> noShortSecond (drop k bs)"
  by (induction bs arbitrary: k) (auto simp: drop_Cons split: nat.splits)

lemma convertUTF8ToUTF16_Cons:
  "convertUTF8ToUTF16 strict (b0 # rest) target room =
     (let len = inlineUTF8SequenceLength b0
      in if Suc (length rest) < len then (sourceExhausted, b0 # rest, target)
         else if \<not> isLegalUTF8 (b0 # rest) len then (sourceIllegal, b0 # rest, target)
         else (case emitUTF16 strict (readUTF8Sequence (b0 # rest) len) room of
                 Inl r \<Rightarrow> (r, b0 # rest, target)
               | Inr units \<Rightarrow> convertUTF8ToUTF16 strict (drop len (b0 # rest)) (target @ units)
                               (room - length units)))"
  by (subst convertUTF8ToUTF16.simps) (simp add: Let_def)

lemma convertUTF8ToUTF16_scalars:
  assumes "convertUTF8ToUTF16 strict source target room = (conversionOK, left, out)" and "noShortSecond source"
  shows "\<exists>ns. scalars ns \<and> source = utf8 ns \<and> out = target @ utf16 ns"
  using assms
proof (induction strict source target room rule: convertUTF8ToUTF16.induct)
  case (1 strict source target room)
  show ?case
  proof (cases source)
    case Nil
    then have "scalars [] \<and> source = utf8 [] \<and> out = target @ utf16 []"
      using "1.prems"(1) by (simp add: convertUTF8ToUTF16.simps)
    then show ?thesis by blast
  next
    case (Cons b0 rest)
    let ?len = "inlineUTF8SequenceLength b0"
    have g: "\<not> length source < ?len" "isLegalUTF8 source ?len"
      using "1.prems"(1) Cons by (auto simp: convertUTF8ToUTF16_Cons Let_def split: if_splits)
    obtain n where n: "scalar n" "take ?len source = utf8Bytes n" "?len = length (utf8Bytes n)"
      using legal_sequence[of source b0 rest ?len] Cons g "1.prems"(2) by (auto simp: not_less)
    have s: "source = utf8Bytes n @ drop ?len source" by (metis n(2) append_take_drop_id)
    have r: "readUTF8Sequence source ?len = word_of_nat n"
      using read_utf8Bytes[of n "drop ?len source"] n(1,3) s by (simp add: scalar_def)
    obtain units where e: "emitUTF16 strict (word_of_nat n) room = Inr units" "units = utf16Units n"
      using "1.prems"(1) Cons g r n(1)
      by (auto simp: convertUTF8ToUTF16_Cons Let_def emitUTF16_scalar split: if_splits sum.splits)
    have "convertUTF8ToUTF16 strict (drop ?len source) (target @ units) (room - length units) = (conversionOK, left, out)"
      using "1.prems"(1) Cons g r e(1) by (simp add: convertUTF8ToUTF16_Cons Let_def)
    then obtain ns where "scalars ns" "drop ?len source = utf8 ns" "out = (target @ units) @ utf16 ns"
      using "1.IH"[OF Cons refl g(1) _ ] g(2) e(1) r "1.prems"(2) noShortSecond_drop by fastforce
    then have "scalars (n # ns) \<and> source = utf8 (n # ns) \<and> out = target @ utf16 (n # ns)"
      using s n(1) e(2) by simp
    then show ?thesis by blast
  qed
qed

text \<open>Well-formed UTF-16, the strings without an unpaired surrogate.\<close>

fun wellFormedUTF16 :: "ustring \<Rightarrow> bool" where
  "wellFormedUTF16 [] = True"
| "wellFormedUTF16 [c] = (\<not> isLead c \<and> \<not> isTrail c)"
| "wellFormedUTF16 (c # d # s) =
     (if isLead c then isTrail d \<and> wellFormedUTF16 s else \<not> isTrail c \<and> wellFormedUTF16 (d # s))"

lemma single_unit:
  assumes "\<not> isLead c" and "\<not> isTrail c"
  shows "scalar (unat c)" and "[c] = utf16Units (unat c)"
  using assms unat_uchar[of c] by (auto simp: isLead_unat isTrail_unat scalar_def utf16Units_def)

lemma wellFormedUTF16_scalars: "wellFormedUTF16 s \<Longrightarrow> \<exists>ns. scalars ns \<and> s = utf16 ns"
proof (induction s rule: wellFormedUTF16.induct)
  case 1
  show ?case by (rule exI[of _ "[]"]) simp
next
  case (2 c)
  then show ?case using single_unit[of c] by (intro exI[of _ "[unat c]"]) simp
next
  case (3 c d s)
  show ?case
  proof (cases "isLead c")
    case True
    with 3 obtain ns where ns: "scalars ns" "s = utf16 ns" by auto
    obtain n where "0x10000 \<le> n" "n < 0x110000" "[c, d] = utf16Units n"
      using combineSurrogates[of c d] True "3.prems" by auto
    then show ?thesis using ns by (intro exI[of _ "n # ns"]) (simp add: scalar_def flip: \<open>[c, d] = utf16Units n\<close>)
  next
    case False
    with 3 obtain ns where "scalars ns" "d # s = utf16 ns" by auto
    moreover have "scalar (unat c)" "[c] = utf16Units (unat c)"
      using False "3.prems" by (intro single_unit; simp)+
    ultimately have "scalars (unat c # ns) \<and> c # d # s = utf16 (unat c # ns)"
      by (metis append_Cons append_Nil utf_Cons(4,6))
    then show ?thesis by blast
  qed
qed

end
