(* ===== verification/WTF_Properties.thy ===== *)
theory WTF_Properties
  imports WTF_UTF8_Correct
begin

section \<open>What the conversions between UTF-8 and UTF-16 guarantee\<close>

text \<open>
  The round trips of \<open>String::utf8\<close> and \<open>String::fromUTF8\<close>, the agreement of the Latin-1 and the
  UTF-16 converter, and the byte sequences that \<open>isLegalUTF8\<close> accepts by mistake.
\<close>

lemma wellFormedUTF16_single:
  "\<not> isLead c \<Longrightarrow> \<not> isTrail c \<Longrightarrow> wellFormedUTF16 (c # s) \<longleftrightarrow> wellFormedUTF16 s"
  by (cases s) simp_all

lemma wellFormedUTF16_utf16: "scalars ns \<Longrightarrow> wellFormedUTF16 (utf16 ns)"
proof (induction ns)
  case (Cons n ns)
  show ?case
  proof (cases "n < 0x10000")
    case True
    then have u: "unat (word_of_nat n :: uchar) = n" by (rule unat_of_nat_uchar)
    have "\<not> isLead (word_of_nat n)" "\<not> isTrail (word_of_nat n)"
      using Cons.prems unfolding isLead_unat isTrail_unat u by (auto simp: scalar_def)
    then show ?thesis using Cons True by (simp add: utf16Units_def wellFormedUTF16_single)
  next
    case False
    then have "0x10000 \<le> n" "n < 0x110000" using Cons.prems by (simp_all add: scalar_def)
    then obtain c d where "utf16Units n = [c, d]" "isLead c" "isTrail d" by (rule lead_trail_units)
    then show ?thesis using Cons by simp
  qed
qed simp

lemma fromUTF8_run:
  "convertUTF8ToUTF16 True bytes [] (length bytes) = (conversionOK, left, s) \<Longrightarrow>
   int (length bytes) \<le> 0xFFFFFFFF \<Longrightarrow> fromUTF8 (Some bytes) = Inr (Some s)"
  by (simp add: fromUTF8_def)

lemma utf8_16Bit_utf16:
  assumes "scalars ns" and "int (length (utf16 ns)) \<le> 0xFFFFFFFF div 3"
  shows "utf8_16Bit strict (utf16 ns) = Some (utf8 ns)"
proof -
  have "length (utf8 ns) \<le> length (utf16 ns) * 3" using utf_lengths(2)[of ns] by simp
  then have "convertUTF16ToUTF8 strict (utf16 ns) [] (length (utf16 ns) * 3) = (conversionOK, [], utf8 ns)"
    using convertUTF16ToUTF8_utf16[OF assms(1)] by simp
  moreover have "utf8 ns = []" if "utf16 ns = []" using that utf_lengths(2)[of ns] by simp
  ultimately show ?thesis using assms(2) by (auto simp: utf8_16Bit_def)
qed

text \<open>
  C34. A string without an unpaired surrogate, of at most \<^verbatim>\<open>UINT_MAX / 3\<close> units, survives the
  trip through UTF-8: \<open>String::utf8\<close>, strict or not, returns bytes, and \<open>String::fromUTF8\<close>
  reads them back to the same string.
\<close>

theorem utf8_round_trip:
  assumes "wellFormedUTF16 s" and "int (length s) \<le> 0xFFFFFFFF div 3"
  shows "\<exists>bytes. utf8_16Bit strict s = Some bytes \<and> fromUTF8 (Some bytes) = Inr (Some s)"
proof -
  obtain ns where ns: "scalars ns" "s = utf16 ns" using wellFormedUTF16_scalars assms(1) by blast
  have "int (length (utf8 ns)) \<le> 0xFFFFFFFF" using utf_lengths(2)[of ns] assms(2) ns(2) by simp
  then have "fromUTF8 (Some (utf8 ns)) = Inr (Some s)"
    using convertUTF8ToUTF16_utf8[OF ns(1) utf_lengths(1)[of ns], of True "[]"] ns(2)
    by (simp add: fromUTF8_def)
  then show ?thesis using utf8_16Bit_utf16[OF ns(1)] assms(2) ns(2) by blast
qed

theorem utf8_round_trip_witness:
  "\<exists>bytes. utf8_16Bit False [0x61, 0xE9, 0x20AC, 0xD83D, 0xDE00] = Some bytes \<and>
     fromUTF8 (Some bytes) = Inr (Some [0x61, 0xE9, 0x20AC, 0xD83D, 0xDE00])"
  by (rule utf8_round_trip) (simp_all add: isLead_def isTrail_def)

text \<open>
  C35. \<open>String::fromUTF8\<close> accepts only what \<open>String::utf8\<close> writes: when it returns a string, and
  no byte \<^verbatim>\<open>0xED\<close> or \<^verbatim>\<open>0xF4\<close> of the input is followed by an ASCII byte, the string has no
  unpaired surrogate and encodes to exactly the bytes that were read. No overlong form, no
  encoded surrogate and no value above \<^verbatim>\<open>0x10FFFF\<close> is let through.
\<close>

theorem fromUTF8_canonical:
  assumes "fromUTF8 (Some bytes) = Inr (Some s)" and "noShortSecond bytes"
    and "int (length s) \<le> 0xFFFFFFFF div 3"
  shows "wellFormedUTF16 s \<and> utf8_16Bit strict s = Some bytes"
proof -
  obtain left where "convertUTF8ToUTF16 True bytes [] (length bytes) = (conversionOK, left, s)"
    using assms(1) by (auto simp: fromUTF8_def split: if_splits prod.splits)
  then obtain ns where "scalars ns" "bytes = utf8 ns" "s = utf16 ns"
    using convertUTF8ToUTF16_scalars[OF _ assms(2)] by fastforce
  then show ?thesis using wellFormedUTF16_utf16 utf8_16Bit_utf16 assms(3) by blast
qed

theorem fromUTF8_canonical_witness:
  "wellFormedUTF16 [0xD83D, 0xDE00] \<and>
   utf8_16Bit True [0xD83D, 0xDE00] = Some [0xF0, 0x9F, 0x98, 0x80]"
proof (rule fromUTF8_canonical)
  show "fromUTF8 (Some [0xF0, 0x9F, 0x98, 0x80]) = Inr (Some [0xD83D, 0xDE00])"
    by (rule fromUTF8_run[where left = "[]"]) (code_simp, simp)
  show "noShortSecond [0xF0, 0x9F, 0x98, 0x80]" by code_simp
qed simp

text \<open>
  The bound that \<open>isLegalUTF8\<close> misses: after \<^verbatim>\<open>0xED\<close> any ASCII byte is taken as a continuation
  byte, so the ill-formed three bytes become one code unit and the ASCII character is lost.
\<close>

lemma fromUTF8_swallows_ascii:
  "fromUTF8 (Some [0xED, 0x3C, 0x80]) = Inr (Some [0xBF00])"
  "utf8_16Bit True [0xBF00] = Some [0xEB, 0xBC, 0x80]"
  "fromUTF8 (Some [0xF4, 0x3C, 0x80, 0x80]) = Inr (Some [0xDAB0, 0xDC00])"
proof -
  have "convertUTF8ToUTF16 True [0xED, 0x3C, 0x80] [] (length [0xED, 0x3C, 0x80 :: byte]) = (conversionOK, [], [0xBF00])"
    "convertUTF8ToUTF16 True [0xF4, 0x3C, 0x80, 0x80] [] (length [0xF4, 0x3C, 0x80, 0x80 :: byte]) =
       (conversionOK, [], [0xDAB0, 0xDC00])"
    by code_simp+
  then show "fromUTF8 (Some [0xED, 0x3C, 0x80]) = Inr (Some [0xBF00])"
    "fromUTF8 (Some [0xF4, 0x3C, 0x80, 0x80]) = Inr (Some [0xDAB0, 0xDC00])"
    by (auto intro: fromUTF8_run)
  have "convertUTF16ToUTF8 True [0xBF00] [] 3 = (conversionOK, [], [0xEB, 0xBC, 0x80])" by code_simp
  then show "utf8_16Bit True [0xBF00] = Some [0xEB, 0xBC, 0x80]" by (simp add: utf8_16Bit_def)
qed

text \<open>A string stored in eight bits is written as if it were stored in sixteen.\<close>

lemma ucast_byte_unat: "unat (ucast (b :: byte) :: uchar32) = unat b" "unat (ucast b :: uchar) = unat b"
  using unat_byte[of b] by (simp_all add: unsigned_ucast_eq take_bit_nat_eq_self)

lemma convertLatin1ToUTF8_16:
  "fst (convertLatin1ToUTF8 s target room) = fst (convertUTF16ToUTF8 strict (map ucast s) target room) \<and>
   snd (snd (convertLatin1ToUTF8 s target room)) =
     snd (snd (convertUTF16ToUTF8 strict (map ucast s) target room)) \<and>
   fst (convertLatin1ToUTF8 s target room) \<notin> {sourceIllegal, sourceExhausted}"
proof (induction s arbitrary: target room)
  case (Cons c s)
  let ?c = "ucast c :: uchar"
  have u: "unat ?c = unat c" by (rule ucast_byte_unat)
  have "\<not> isLead ?c" "\<not> isTrail ?c" using unat_byte[of c] unfolding isLead_unat isTrail_unat u by linarith+
  moreover have "(ucast ?c :: uchar32) = ucast c"
    unfolding word_unat_eq_iff unat_ucast_uchar u by (simp add: ucast_byte_unat)
  ultimately have r: "readUTF16 strict ?c (map ucast s) = Inr (ucast c, map ucast s)"
    by (simp add: readUTF16_eq)
  have b: "bytesFor (ucast c) = (if (ucast c :: uchar32) < 0x80 then 1 else 2, ucast c)"
    using unat_byte[of c] by (simp add: bytesFor_unat ucast_byte_unat word_less_nat_alt)
  show ?case
    using Cons[of "target @ writeBytes 1 1 (ucast c) []" "room - 1"]
      Cons[of "target @ writeBytes 2 2 (ucast c) []" "room - 2"]
    by (auto simp: r b Let_def)
qed simp

lemma utf8_8Bit_16Bit: "utf8_8Bit s = utf8_16Bit strict (map ucast s)"
  using convertLatin1ToUTF8_16[of s "[]" "length s * 3" strict]
  by (auto simp: utf8_8Bit_def utf8_16Bit_def split: prod.splits)

end
