(* ===== verification/WK_Base64.thy ===== *)
theory WK_Base64
  imports WK_Prelude
begin

section \<open>Base64\<close>

text \<open>
  \<^verbatim>\<open>platform/text/Base64.cpp\<close>. The decoder converts in place: the six-bit values of the first
  pass are overwritten, front to back, by the bytes they stand for. Its vector \<open>out\<close> is a list
  updated by index.
\<close>

unbundle bit_operations_syntax

definition base64EncMap :: "byte list" where
  "base64EncMap =
     [0x41, 0x42, 0x43, 0x44, 0x45, 0x46, 0x47, 0x48, 0x49, 0x4A, 0x4B, 0x4C, 0x4D, 0x4E, 0x4F, 0x50,
      0x51, 0x52, 0x53, 0x54, 0x55, 0x56, 0x57, 0x58, 0x59, 0x5A, 0x61, 0x62, 0x63, 0x64, 0x65, 0x66,
      0x67, 0x68, 0x69, 0x6A, 0x6B, 0x6C, 0x6D, 0x6E, 0x6F, 0x70, 0x71, 0x72, 0x73, 0x74, 0x75, 0x76,
      0x77, 0x78, 0x79, 0x7A, 0x30, 0x31, 0x32, 0x33, 0x34, 0x35, 0x36, 0x37, 0x38, 0x39, 0x2B, 0x2F]"

definition base64DecMap :: "byte list" where
  "base64DecMap =
     [0x00, 0x00, 0x00, 0x00, 0x00, 0x00, 0x00, 0x00, 0x00, 0x00, 0x00, 0x00, 0x00, 0x00, 0x00, 0x00,
      0x00, 0x00, 0x00, 0x00, 0x00, 0x00, 0x00, 0x00, 0x00, 0x00, 0x00, 0x00, 0x00, 0x00, 0x00, 0x00,
      0x00, 0x00, 0x00, 0x00, 0x00, 0x00, 0x00, 0x00, 0x00, 0x00, 0x00, 0x3E, 0x00, 0x00, 0x00, 0x3F,
      0x34, 0x35, 0x36, 0x37, 0x38, 0x39, 0x3A, 0x3B, 0x3C, 0x3D, 0x00, 0x00, 0x00, 0x00, 0x00, 0x00,
      0x00, 0x00, 0x01, 0x02, 0x03, 0x04, 0x05, 0x06, 0x07, 0x08, 0x09, 0x0A, 0x0B, 0x0C, 0x0D, 0x0E,
      0x0F, 0x10, 0x11, 0x12, 0x13, 0x14, 0x15, 0x16, 0x17, 0x18, 0x19, 0x00, 0x00, 0x00, 0x00, 0x00,
      0x00, 0x1A, 0x1B, 0x1C, 0x1D, 0x1E, 0x1F, 0x20, 0x21, 0x22, 0x23, 0x24, 0x25, 0x26, 0x27, 0x28,
      0x29, 0x2A, 0x2B, 0x2C, 0x2D, 0x2E, 0x2F, 0x30, 0x31, 0x32, 0x33, 0x00, 0x00, 0x00, 0x00, 0x00]"

definition encSextet :: "byte \<Rightarrow> byte" where
  "encSextet v = base64EncMap ! unat v"

definition lineFeed :: "bool \<Rightarrow> nat \<Rightarrow> byte list" where
  "lineFeed insertLFs count = (if insertLFs \<and> 0 < count \<and> count mod 76 = 0 then [0x0A] else [])"

text \<open>The characters written before the padding.\<close>

fun base64Encode_loop :: "bool \<Rightarrow> nat \<Rightarrow> byte list \<Rightarrow> byte list" where
  "base64Encode_loop insertLFs count (a # b # c # data) =
     lineFeed insertLFs count @
     [encSextet (drop_bit 2 a AND 0x3F),
      encSextet ((drop_bit 4 b AND 0x0F) OR (push_bit 4 a AND 0x3F)),
      encSextet ((drop_bit 6 c AND 0x03) OR (push_bit 2 b AND 0x3F)),
      encSextet (c AND 0x3F)] @
     base64Encode_loop insertLFs (if insertLFs then count + 4 else count) data"
| "base64Encode_loop insertLFs count [a, b] =
     lineFeed insertLFs count @
     [encSextet (drop_bit 2 a AND 0x3F),
      encSextet ((drop_bit 4 b AND 0x0F) OR (push_bit 4 a AND 0x3F)),
      encSextet (push_bit 2 b AND 0x3F)]"
| "base64Encode_loop insertLFs count [a] =
     lineFeed insertLFs count @
     [encSextet (drop_bit 2 a AND 0x3F), encSextet (push_bit 4 a AND 0x3F)]"
| "base64Encode_loop insertLFs count [] = []"

definition maxInputBufferSize :: int where
  "maxInputBufferSize = 0xFFFFFFFF div 77 * 76 div 4 * 3 - 2"

definition base64Encode :: "bool \<Rightarrow> byte list \<Rightarrow> byte list" where
  "base64Encode insertLFs data =
     (if data = [] then []
      else if maxInputBufferSize < int (length data) then []
      else
        (let outLength0 = (length data + 2) div 3 * 4;
             insertLFs' = (insertLFs \<and> 76 < outLength0);
             outLength = (if insertLFs' then outLength0 + (outLength0 - 1) div 76 else outLength0);
             out = base64Encode_loop insertLFs' 0 data
         in out @ replicate (outLength - length out) 0x3D))"

subsection \<open>Decoding\<close>

datatype base64DecodePolicy = FailOnInvalidCharacter | IgnoreWhitespace | IgnoreInvalidCharacters

definition isBase64Character :: "byte \<Rightarrow> bool" where
  "isBase64Character ch \<longleftrightarrow> (0x30 \<le> ch \<and> ch \<le> 0x39) \<or> (0x41 \<le> ch \<and> ch \<le> 0x5A) \<or>
     (0x61 \<le> ch \<and> ch \<le> 0x7A) \<or> ch = 0x2B \<or> ch = 0x2F"

text \<open>A byte above \<^verbatim>\<open>0x7F\<close> is sign-extended to a code unit from \<^verbatim>\<open>0xFF80\<close> on, none of which is a space.\<close>

definition isSpaceOrNewline :: "byte \<Rightarrow> bool" where
  "isSpaceOrNewline c \<longleftrightarrow> c \<le> 0x20 \<and> (c = 0x20 \<or> (c \<le> 0x0D \<and> 0x09 \<le> c))"

fun base64Decode_collect :: "base64DecodePolicy \<Rightarrow> bool \<Rightarrow> byte list \<Rightarrow> byte list \<Rightarrow> (bool \<times> byte list) option" where
  "base64Decode_collect policy sawEqualsSign out [] = Some (sawEqualsSign, out)"
| "base64Decode_collect policy sawEqualsSign out (ch # data) =
     (if ch = 0x3D then base64Decode_collect policy True out data
      else if isBase64Character ch then
        (if sawEqualsSign then None
         else base64Decode_collect policy sawEqualsSign (out @ [base64DecMap ! unat ch]) data)
      else if policy = FailOnInvalidCharacter \<or> (policy = IgnoreWhitespace \<and> \<not> isSpaceOrNewline ch) then None
      else base64Decode_collect policy sawEqualsSign out data)"

definition joinSextets1 :: "byte \<Rightarrow> byte \<Rightarrow> byte" where
  "joinSextets1 x y = push_bit 2 x OR (drop_bit 4 y AND 0x03)"

definition joinSextets2 :: "byte \<Rightarrow> byte \<Rightarrow> byte" where
  "joinSextets2 x y = push_bit 4 x OR (drop_bit 2 y AND 0x0F)"

definition joinSextets3 :: "byte \<Rightarrow> byte \<Rightarrow> byte" where
  "joinSextets3 x y = push_bit 6 x OR (y AND 0x3F)"

function base64Decode_loop :: "byte list \<Rightarrow> nat \<Rightarrow> nat \<Rightarrow> nat \<Rightarrow> byte list \<times> nat \<times> nat" where
  "base64Decode_loop out outLength sidx didx =
     (if didx + 2 < outLength then
        (let out1 = out[didx := joinSextets1 (out ! sidx) (out ! (sidx + 1))];
             out2 = out1[didx + 1 := joinSextets2 (out1 ! (sidx + 1)) (out1 ! (sidx + 2))];
             out3 = out2[didx + 2 := joinSextets3 (out2 ! (sidx + 2)) (out2 ! (sidx + 3))]
         in base64Decode_loop out3 outLength (sidx + 4) (didx + 3))
      else (out, sidx, didx))"
  by pat_completeness auto
termination
  by (relation "measure (\<lambda>(out, outLength, sidx, didx). outLength - didx)") auto

declare base64Decode_loop.simps [simp del]

definition base64Decode_convert :: "byte list \<Rightarrow> nat \<Rightarrow> byte list" where
  "base64Decode_convert out0 outLength =
     (case base64Decode_loop out0 outLength 0 0 of (out, sidx, didx) \<Rightarrow>
        (let out1 = (if didx < outLength then out[didx := joinSextets1 (out ! sidx) (out ! (sidx + 1))] else out);
             out2 = (if didx + 1 < outLength
                     then out1[didx + 1 := joinSextets2 (out1 ! (sidx + 1)) (out1 ! (sidx + 2))] else out1)
         in take outLength out2))"

text \<open>
  The overload for bytes; the one for strings runs the same template on UTF-16 code units and is not
  modelled. \<open>None\<close> is \<^verbatim>\<open>return false\<close>. When the input holds ignored characters only, the code returns true
  and leaves \<open>out\<close> at the \<^verbatim>\<open>len\<close> elements it was grown to, none of which was written.
\<close>

definition base64Decode :: "base64DecodePolicy \<Rightarrow> byte list \<Rightarrow> fault + byte list option" where
  "base64Decode policy data =
     (if data = [] then Inr (Some [])
      else case base64Decode_collect policy False [] data of
        None \<Rightarrow> Inr None
      | Some (sawEqualsSign, out) \<Rightarrow>
          (let n = length out
           in if n = 0 then (if sawEqualsSign then Inr None else Inl UninitializedRead)
              else if n mod 4 = 1 then Inr None
              else if n - (n + 3) div 4 = 0 then Inr None
              else Inr (Some (base64Decode_convert out (n - (n + 3) div 4)))))"

end
