(* ===== verification/WK_Base64_Correct.thy ===== *)
theory WK_Base64_Correct
  imports WK_Base64
begin

section \<open>Base64 decodes what it encodes\<close>

text \<open>
  The in-place conversion of the decoder equals a function on the six-bit values, and those are
  the values the encoder looked up.
\<close>

unbundle bit_operations_syntax

subsection \<open>The conversion in place\<close>

fun joinQuads :: "byte list \<Rightarrow> byte list" where
  "joinQuads (a # b # c # d # rest) = joinSextets1 a b # joinSextets2 b c # joinSextets3 c d # joinQuads rest"
| "joinQuads [a, b, c] = [joinSextets1 a b, joinSextets2 b c]"
| "joinQuads [a, b] = [joinSextets1 a b]"
| "joinQuads _ = []"

definition decodedLength :: "nat \<Rightarrow> nat" where
  "decodedLength n = n - (n + 3) div 4"

lemma decodedLength_step: "decodedLength (Suc (Suc (Suc (Suc n)))) = decodedLength n + 3"
  by (simp add: decodedLength_def)

lemma update_front:
  assumes "i = length pre" and "length xs \<ge> 3"
  shows "(pre @ xs)[i := x, i + 1 := y, i + 2 := z] = pre @ x # y # z # drop 3 xs"
proof -
  obtain p q r xs' where "xs = p # q # r # xs'"
    using assms(2) by (metis Suc_le_length_iff numeral_3_eq_3)
  then show ?thesis using assms(1) by (simp add: list_update_append numeral_2_eq_2)
qed

lemma loop_step:
  assumes "out = pre @ mid @ a # b # c # d # rest" and "didx = length pre" and "sidx = didx + length mid"
    and "didx + 2 < outLength"
  shows "base64Decode_loop out outLength sidx didx =
    base64Decode_loop ((pre @ [joinSextets1 a b, joinSextets2 b c, joinSextets3 c d]) @
      drop 3 (mid @ [a, b, c, d]) @ rest) outLength (sidx + 4) (didx + 3)"
proof -
  let ?x = "joinSextets1 a b" and ?y = "joinSextets2 b c" and ?z = "joinSextets3 c d"
  have n: "out ! sidx = a" "out ! (sidx + 1) = b" "out ! (sidx + 2) = c" "out ! (sidx + 3) = d"
    using assms(1-3) by (simp_all add: nth_append numeral_2_eq_2 numeral_3_eq_3)
  have u: "out[didx := ?x] ! (sidx + 1) = b" "out[didx := ?x] ! (sidx + 2) = c"
    "out[didx := ?x, didx + 1 := ?y] ! (sidx + 2) = c" "out[didx := ?x, didx + 1 := ?y] ! (sidx + 3) = d"
    using n assms(3) by simp_all
  have "out[didx := ?x, didx + 1 := ?y, didx + 2 := ?z] =
    pre @ ?x # ?y # ?z # drop 3 (mid @ a # b # c # d # rest)"
    unfolding assms(1) using assms(2) by (intro update_front) simp_all
  also have "drop 3 (mid @ a # b # c # d # rest) = drop 3 (mid @ [a, b, c, d]) @ rest"
    using drop_append[of 3 "mid @ [a, b, c, d]" rest] by (simp del: drop_append)
  finally have e: "out[didx := ?x, didx + 1 := ?y, didx + 2 := ?z] =
    (pre @ [?x, ?y, ?z]) @ drop 3 (mid @ [a, b, c, d]) @ rest" by simp
  show ?thesis
    unfolding e[symmetric] by (subst base64Decode_loop.simps) (simp only: assms(4) if_True Let_def n u)
qed

lemma loop_joinQuads:
  assumes "length rest mod 4 \<noteq> 1"
  shows "base64Decode_loop (pre @ mid @ rest) (length pre + decodedLength (length rest)) (length pre + length mid)
      (length pre) = (out, sidx, didx) \<Longrightarrow>
    (let L = length pre + decodedLength (length rest);
         out1 = (if didx < L then out[didx := joinSextets1 (out ! sidx) (out ! (sidx + 1))] else out);
         out2 = (if didx + 1 < L then out1[didx + 1 := joinSextets2 (out1 ! (sidx + 1)) (out1 ! (sidx + 2))] else out1)
     in take L out2) = pre @ joinQuads rest"
  using assms
proof (induction rest arbitrary: pre mid rule: joinQuads.induct)
  case (1 a b c d rest)
  define pre' mid' where "pre' = pre @ [joinSextets1 a b, joinSextets2 b c, joinSextets3 c d]"
    and "mid' = drop 3 (mid @ [a, b, c, d])"
  let ?L = "length pre + decodedLength (length (a # b # c # d # rest))"
  have L: "?L = length pre' + decodedLength (length rest)"
    using decodedLength_step[of "length rest"] by (simp add: pre'_def)
  have "base64Decode_loop (pre @ mid @ a # b # c # d # rest) ?L (length pre + length mid) (length pre) =
      base64Decode_loop (pre' @ mid' @ rest) ?L (length pre + length mid + 4) (length pre + 3)"
    unfolding pre'_def mid'_def using L by (intro loop_step[where pre = pre]) (simp_all add: pre'_def)
  moreover have "length pre + length mid + 4 = length pre' + length mid'" "length pre + 3 = length pre'"
    by (simp_all add: pre'_def mid'_def)
  ultimately have "base64Decode_loop (pre' @ mid' @ rest) (length pre' + decodedLength (length rest))
      (length pre' + length mid') (length pre') = (out, sidx, didx)"
    using "1.prems"(1) L by simp
  from "1.IH"[OF this] show ?case
    using "1.prems"(2) unfolding L by (simp add: pre'_def)
next
  case (2 a b c)
  then show ?case
    by (cases mid; cases "tl mid") (auto simp: decodedLength_def base64Decode_loop.simps Let_def list_update_append nth_append numeral_2_eq_2
        nth_list_update split: nat.splits)
next
  case (3 a b)
  then show ?case
    by (cases mid) (auto simp: decodedLength_def base64Decode_loop.simps Let_def list_update_append nth_append numeral_2_eq_2
        split: nat.splits)
qed (auto simp: decodedLength_def base64Decode_loop.simps)

lemma base64Decode_convert_joinQuads:
  assumes "length out mod 4 \<noteq> 1"
  shows "base64Decode_convert out (length out - (length out + 3) div 4) = joinQuads out"
  using loop_joinQuads[OF assms, of "[]" "[]"]
  by (auto simp: base64Decode_convert_def decodedLength_def Let_def split: prod.splits)

subsection \<open>Six-bit values\<close>

lemma byte_cases8: "n < LENGTH(8) \<Longrightarrow> n = 0 \<or> n = 1 \<or> n = 2 \<or> n = 3 \<or> n = 4 \<or> n = 5 \<or> n = 6 \<or> n = 7"
  by auto

lemma joined:
  "joinSextets1 (drop_bit 2 a AND 0x3F) ((drop_bit 4 b AND 0x0F) OR (push_bit 4 a AND 0x3F)) = a"
  "joinSextets1 (drop_bit 2 a AND 0x3F) (push_bit 4 a AND 0x3F) = a"
  "joinSextets2 ((drop_bit 4 b AND 0x0F) OR (push_bit 4 a AND 0x3F)) ((drop_bit 6 c AND 0x03) OR (push_bit 2 b AND 0x3F)) = b"
  "joinSextets2 ((drop_bit 4 b AND 0x0F) OR (push_bit 4 a AND 0x3F)) (push_bit 2 b AND 0x3F) = b"
  "joinSextets3 ((drop_bit 6 c AND 0x03) OR (push_bit 2 b AND 0x3F)) (c AND 0x3F) = c"
  unfolding joinSextets1_def joinSextets2_def joinSextets3_def
  by (rule bit_word_eqI, drule byte_cases8, elim disjE; hypsubst;
      simp add: bit_and_iff bit_or_iff bit_push_bit_iff bit_drop_bit_eq)+

lemma sextet_less: "unat (x AND 0x3F :: byte) < 64"
  using word_and_le1[of x "0x3F"] by (simp add: word_le_nat_alt)

lemma sextets_less:
  "unat (drop_bit 2 a AND 0x3F :: byte) < 64"
  "unat ((drop_bit 4 b AND 0x0F) OR (push_bit 4 a AND 0x3F) :: byte) < 64"
  "unat ((drop_bit 6 c AND 0x03) OR (push_bit 2 b AND 0x3F) :: byte) < 64"
proof -
  have e: "(drop_bit 4 b AND 0x0F) OR (push_bit 4 a AND 0x3F) = ((drop_bit 4 b AND 0x0F) OR push_bit 4 a) AND (0x3F :: byte)"
    "(drop_bit 6 c AND 0x03) OR (push_bit 2 b AND 0x3F) = ((drop_bit 6 c AND 0x03) OR push_bit 2 b) AND (0x3F :: byte)"
    by (simp_all add: bit.conj_disj_distrib2 and.assoc)
  show "unat (drop_bit 2 a AND 0x3F :: byte) < 64"
    "unat ((drop_bit 4 b AND 0x0F) OR (push_bit 4 a AND 0x3F) :: byte) < 64"
    "unat ((drop_bit 6 c AND 0x03) OR (push_bit 2 b AND 0x3F) :: byte) < 64"
    unfolding e by (rule sextet_less)+
qed

lemma table_inverse: "map (\<lambda>c. base64DecMap ! unat c) base64EncMap = map word_of_nat [0..<64]"
  by code_simp

lemma table_characters: "list_all (\<lambda>c. isBase64Character c \<and> c \<noteq> 0x3D) base64EncMap"
  by code_simp

lemma encSextet:
  assumes "unat v < 64"
  shows "base64DecMap ! unat (encSextet v) = v" and "isBase64Character (encSextet v)" and "encSextet v \<noteq> 0x3D"
proof -
  have l: "length base64EncMap = 64" by (simp add: base64EncMap_def)
  show "base64DecMap ! unat (encSextet v) = v"
    using arg_cong[OF table_inverse, of "\<lambda>xs. xs ! unat v"] assms l by (simp add: encSextet_def)
  show "isBase64Character (encSextet v)" "encSextet v \<noteq> 0x3D"
    using table_characters assms l by (auto simp: encSextet_def list_all_length)
qed

subsection \<open>The characters of an encoding\<close>

fun sextets :: "byte list \<Rightarrow> byte list" where
  "sextets (a # b # c # data) =
     [drop_bit 2 a AND 0x3F, (drop_bit 4 b AND 0x0F) OR (push_bit 4 a AND 0x3F),
      (drop_bit 6 c AND 0x03) OR (push_bit 2 b AND 0x3F), c AND 0x3F] @ sextets data"
| "sextets [a, b] =
     [drop_bit 2 a AND 0x3F, (drop_bit 4 b AND 0x0F) OR (push_bit 4 a AND 0x3F), push_bit 2 b AND 0x3F]"
| "sextets [a] = [drop_bit 2 a AND 0x3F, push_bit 4 a AND 0x3F]"
| "sextets [] = []"

lemma joinQuads_sextets: "joinQuads (sextets data) = data"
  by (induction data rule: sextets.induct) (simp_all add: joined)

lemma length_sextets: "length (sextets data) mod 4 \<noteq> 1" "sextets data = [] \<longleftrightarrow> data = []"
proof -
  have "length (sextets data) mod 4 \<noteq> 1 \<and> (sextets data = [] \<longleftrightarrow> data = [])"
    by (induction data rule: sextets.induct) simp_all
  then show "length (sextets data) mod 4 \<noteq> 1" "sextets data = [] \<longleftrightarrow> data = []" by blast+
qed

lemma collect_lineFeed:
  "insertLFs \<longrightarrow> policy \<noteq> FailOnInvalidCharacter \<Longrightarrow>
   base64Decode_collect policy False out (lineFeed insertLFs count @ rest) = base64Decode_collect policy False out rest"
  by (auto simp: lineFeed_def isBase64Character_def isSpaceOrNewline_def)

lemma collect_encode:
  assumes "insertLFs \<longrightarrow> policy \<noteq> FailOnInvalidCharacter"
  shows "base64Decode_collect policy False out (base64Encode_loop insertLFs count data @ rest) =
    base64Decode_collect policy False (out @ sextets data) rest"
  using assms
  by (induction insertLFs count data arbitrary: out rule: base64Encode_loop.induct)
    (simp_all add: collect_lineFeed encSextet sextets_less sextet_less)

lemma collect_padding: "base64Decode_collect policy saw out (replicate k 0x3D) = Some (saw \<or> 0 < k, out)"
  by (induction k arbitrary: saw) auto

text \<open>
  C37. Base64 round trip: data of at most \<open>maxInputBufferSize\<close> bytes is read back from its encoding without line feeds by
  the decoder with any policy, and from its encoding with line feeds by the decoder with a policy that ignores them; the
  default policy, \<open>FailOnInvalidCharacter\<close>, does not.
\<close>

theorem base64_round_trip:
  assumes "int (length data) \<le> maxInputBufferSize"
    and "insertLFs \<longrightarrow> policy \<noteq> FailOnInvalidCharacter"
  shows "base64Decode policy (base64Encode insertLFs data) = Inr (Some data)"
proof (cases "data = []")
  case True
  then show ?thesis by (simp add: base64Encode_def base64Decode_def)
next
  case False
  obtain lf k where e: "base64Encode insertLFs data = base64Encode_loop lf 0 data @ replicate k 0x3D"
    and lf: "lf \<longrightarrow> policy \<noteq> FailOnInvalidCharacter"
    using False assms by (simp add: base64Encode_def Let_def not_less)
  have "base64Decode_collect policy False [] (base64Encode insertLFs data) = Some (0 < k, sextets data)"
    unfolding e by (simp add: collect_encode[OF lf] collect_padding)
  moreover have "base64Encode insertLFs data \<noteq> []"
    unfolding e by (cases data rule: sextets.cases) (auto simp: False)
  moreover have "length (sextets data) - (length (sextets data) + 3) div 4 \<noteq> 0"
    using length_sextets[of data] False by (cases data rule: sextets.cases) auto
  ultimately show ?thesis
    using length_sextets[of data] False base64Decode_convert_joinQuads[OF length_sextets(1)]
    by (simp add: base64Decode_def Let_def joinQuads_sextets)
qed

theorem base64_round_trip_witness:
  "0x0A \<in> set (base64Encode True (replicate 60 0x41)) \<and>
   base64Decode IgnoreWhitespace (base64Encode True (replicate 60 0x41)) = Inr (Some (replicate 60 0x41))"
proof
  show "0x0A \<in> set (base64Encode True (replicate 60 0x41))" by code_simp
  show "base64Decode IgnoreWhitespace (base64Encode True (replicate 60 0x41)) = Inr (Some (replicate 60 0x41))"
    by (rule base64_round_trip) (simp_all add: maxInputBufferSize_def)
qed

text \<open>Input of ignored characters only: the result is as long as the input and was never written.\<close>

lemma base64_whitespace_uninitialized:
  "base64Decode IgnoreWhitespace [0x20, 0x0A] = Inl UninitializedRead"
  by code_simp

end
