(* ===== verification/WS_Extension.thy ===== *)
theory WS_Extension
  imports WTF_UTF8
begin

section \<open>WebSocket extensions\<close>

text \<open>
  \<^verbatim>\<open>websockets/WebSocketExtensionDispatcher.cpp\<close>: the parser of \<^verbatim>\<open>Sec-WebSocket-Extensions\<close> and the
  dispatcher that hands each extension of the server's answer to its processor. A null
  \<^verbatim>\<open>String\<close> is \<open>None\<close>. The processors are subclasses of the abstract class in
  \<^verbatim>\<open>WebSocketExtensionProcessor.h\<close>, of which the repository has none: their virtual members are
  parameters. The order in which \<open>appendAcceptedExtension\<close> meets the entries of a hash map is
  a parameter, too.
\<close>

definition us :: "string \<Rightarrow> ustring" where
  "us s = map (\<lambda>c. word_of_nat (of_char c)) s"

definition latin1 :: "byte list \<Rightarrow> ustring" where
  "latin1 bytes = map ucast bytes"

record extensionParser =
  xp_current :: "byte list"
  xp_currentToken :: "ustring option"

definition ExtensionParser :: "byte list \<Rightarrow> extensionParser" where
  "ExtensionParser bytes = \<lparr>xp_current = bytes, xp_currentToken = None\<rparr>"

definition finished :: "extensionParser \<Rightarrow> bool" where
  "finished p \<longleftrightarrow> xp_current p = []"

definition parsedSuccessfully :: "extensionParser \<Rightarrow> bool" where
  "parsedSuccessfully p \<longleftrightarrow> xp_current p = []"

definition separatorCharacters :: "byte list" where
  "separatorCharacters = [0x28, 0x29, 0x3C, 0x3E, 0x40, 0x2C, 0x3B, 0x3A, 0x5C, 0x22, 0x2F, 0x5B, 0x5D,
     0x3F, 0x3D, 0x7B, 0x7D, 0x20, 0x09]"

definition isSeparator :: "byte \<Rightarrow> bool" where
  "isSeparator c \<longleftrightarrow> c \<in> set separatorCharacters"

definition isASCIIPrintable :: "byte \<Rightarrow> bool" where
  "isASCIIPrintable c \<longleftrightarrow> 0x20 \<le> c \<and> c \<le> 0x7E"

definition skipSpaces :: "extensionParser \<Rightarrow> extensionParser" where
  "skipSpaces p = p\<lparr>xp_current := dropWhile (\<lambda>c. c = 0x20 \<or> c = 0x09) (xp_current p)\<rparr>"

definition tokenCharacter :: "byte \<Rightarrow> bool" where
  "tokenCharacter c \<longleftrightarrow> isASCIIPrintable c \<and> \<not> isSeparator c"

definition consumeToken :: "extensionParser \<Rightarrow> bool \<times> extensionParser" where
  "consumeToken p0 =
     (let p = skipSpaces p0; token = takeWhile tokenCharacter (xp_current p)
      in if token \<noteq> [] then
           (True, p\<lparr>xp_current := drop (length token) (xp_current p), xp_currentToken := Some (latin1 token)\<rparr>)
         else (False, p))"

text \<open>The loop of \<open>consumeQuotedString\<close>: whether the closing quote was met, the buffer, the rest.\<close>

fun quotedLoop :: "byte list \<Rightarrow> byte list \<Rightarrow> bool \<times> byte list \<times> byte list" where
  "quotedLoop buffer [] = (False, buffer, [])"
| "quotedLoop buffer [c] =
     (if c = 0x22 then (True, buffer, [])
      else if c = 0x5C then (False, buffer, [])
      else (False, buffer @ [c], []))"
| "quotedLoop buffer (c # d # rest) =
     (if c = 0x22 then (True, buffer, d # rest)
      else if c = 0x5C then quotedLoop (buffer @ [d]) rest
      else quotedLoop (buffer @ [c]) (d # rest))"

text \<open>A \<^verbatim>\<open>Vector<char>\<close> that nothing was appended to has no storage: \<open>data()\<close> is a null pointer.\<close>

definition vectorData :: "byte list \<Rightarrow> byte list option" where
  "vectorData buffer = (if buffer = [] then None else Some buffer)"

definition consumeQuotedString :: "extensionParser \<Rightarrow> fault + (bool \<times> extensionParser)" where
  "consumeQuotedString p0 =
     (let p = skipSpaces p0
      in case xp_current p of
           [] \<Rightarrow> Inr (False, p)
         | c # rest \<Rightarrow>
             if c \<noteq> 0x22 then Inr (False, p)
             else (case quotedLoop [] rest of
                     (True, buffer, rest') \<Rightarrow>
                       thenS (fromUTF8 (vectorData buffer))
                         (\<lambda>token. Inr (True, p\<lparr>xp_current := rest', xp_currentToken := token\<rparr>))
                   | (False, buffer, rest') \<Rightarrow> Inr (False, p\<lparr>xp_current := rest'\<rparr>)))"

definition consumeQuotedStringOrToken :: "extensionParser \<Rightarrow> fault + (bool \<times> extensionParser)" where
  "consumeQuotedStringOrToken p =
     thenS (consumeQuotedString p) (\<lambda>(ok, p'). if ok then Inr (True, p') else Inr (consumeToken p'))"

definition consumeCharacter :: "byte \<Rightarrow> extensionParser \<Rightarrow> bool \<times> extensionParser" where
  "consumeCharacter character p0 =
     (let p = skipSpaces p0
      in case xp_current p of
           c # rest \<Rightarrow> if c = character then (True, p\<lparr>xp_current := rest\<rparr>) else (False, p)
         | [] \<Rightarrow> (False, p))"

subsection \<open>The dispatcher\<close>

type_synonym parameters = "(ustring \<times> ustring option) list"

record extensionProcessor =
  ep_extensionToken :: ustring
  ep_handshakeString :: ustring
  ep_processResponse :: "parameters \<Rightarrow> bool"
  ep_failureReason :: ustring

record extensionDispatcher =
  ed_processors :: "extensionProcessor list"
  ed_acceptedExtensions :: ustring
  ed_failureReason :: "ustring option"

definition WebSocketExtensionDispatcher :: extensionDispatcher where
  "WebSocketExtensionDispatcher = \<lparr>ed_processors = [], ed_acceptedExtensions = [], ed_failureReason = None\<rparr>"

definition dispatcher_reset :: "extensionDispatcher \<Rightarrow> extensionDispatcher" where
  "dispatcher_reset d = d\<lparr>ed_processors := []\<rparr>"

definition addProcessor :: "extensionProcessor \<Rightarrow> extensionDispatcher \<Rightarrow> extensionDispatcher" where
  "addProcessor processor d =
     (if \<exists>q \<in> set (ed_processors d). ep_extensionToken q = ep_extensionToken processor then d
      else d\<lparr>ed_processors := ed_processors d @ [processor]\<rparr>)"

definition createHeaderValue :: "extensionDispatcher \<Rightarrow> ustring option" where
  "createHeaderValue d =
     (case ed_processors d of
        [] \<Rightarrow> None
      | q # qs \<Rightarrow> Some (ep_handshakeString q @ concat (map (\<lambda>q. us '', '' @ ep_handshakeString q) qs)))"

text \<open>\<^verbatim>\<open>HashMap::add\<close> keeps the entry that is there.\<close>

definition hashMap_add :: "ustring \<Rightarrow> ustring option \<Rightarrow> parameters \<Rightarrow> parameters" where
  "hashMap_add k v m = (if k \<in> fst ` set m then m else m @ [(k, v)])"

definition parameterText :: "ustring \<times> ustring option \<Rightarrow> ustring" where
  "parameterText kv = us ''; '' @ fst kv @ (case snd kv of None \<Rightarrow> [] | Some v \<Rightarrow> us ''='' @ v)"

definition appendAcceptedExtension ::
  "(parameters \<Rightarrow> parameters) \<Rightarrow> ustring \<Rightarrow> parameters \<Rightarrow> extensionDispatcher \<Rightarrow> extensionDispatcher" where
  "appendAcceptedExtension iterate extensionToken extensionParameters d =
     d\<lparr>ed_acceptedExtensions :=
         ed_acceptedExtensions d @ (if ed_acceptedExtensions d \<noteq> [] then us '', '' else []) @
         extensionToken @ concat (map parameterText (iterate extensionParameters))\<rparr>"

definition dispatcher_fail :: "ustring \<Rightarrow> extensionDispatcher \<Rightarrow> extensionDispatcher" where
  "dispatcher_fail reason d = d\<lparr>ed_failureReason := Some reason, ed_acceptedExtensions := []\<rparr>"

definition dispatcher_acceptedExtensions :: "extensionDispatcher \<Rightarrow> ustring option" where
  "dispatcher_acceptedExtensions d = (if ed_acceptedExtensions d = [] then None else Some (ed_acceptedExtensions d))"

subsection \<open>Parsing the header value\<close>

lemma skipSpaces_le: "length (xp_current (skipSpaces p)) \<le> length (xp_current p)"
  by (simp add: skipSpaces_def length_dropWhile_le)

lemma consumeToken_le: "consumeToken p = (b, q) \<Longrightarrow>
    length (xp_current q) \<le> length (xp_current p) \<and> (b \<longrightarrow> length (xp_current q) < length (xp_current p))"
  using skipSpaces_le[of p] takeWhile_eq_Nil_iff[of tokenCharacter "xp_current (skipSpaces p)"]
  by (auto simp: consumeToken_def Let_def split: if_splits)
    (metis diff_less length_0_conv length_greater_0_conv length_takeWhile_le less_le_trans takeWhile.simps(1))

lemma consumeCharacter_le: "consumeCharacter c p = (b, q) \<Longrightarrow>
    length (xp_current q) \<le> length (xp_current p) \<and> (b \<longrightarrow> length (xp_current q) < length (xp_current p))"
  using skipSpaces_le[of p] by (auto simp: consumeCharacter_def Let_def split: list.splits if_splits)

lemma quotedLoop_le: "quotedLoop buffer rest = (b, buffer', rest') \<Longrightarrow> length rest' \<le> length rest"
  by (induction buffer rest rule: quotedLoop.induct) (auto split: if_splits)

lemma consumeQuotedString_le:
  "consumeQuotedString p = Inr (b, q) \<Longrightarrow> length (xp_current q) \<le> length (xp_current p)"
  using skipSpaces_le[of p]
  by (auto simp: consumeQuotedString_def Let_def thenS_def dest!: quotedLoop_le
      split: list.splits if_splits prod.splits bool.splits sum.splits)

lemma consumeQuotedStringOrToken_le:
  "consumeQuotedStringOrToken p = Inr (b, q) \<Longrightarrow> length (xp_current q) \<le> length (xp_current p)"
  by (auto simp: consumeQuotedStringOrToken_def thenS_def dest!: consumeQuotedString_le consumeToken_le
      split: sum.splits if_splits)

text \<open>
  The loop over the parameters of one extension. \<open>None\<close> is a syntax error.
\<close>

function parametersLoop ::
  "extensionParser \<Rightarrow> parameters \<Rightarrow> fault + (extensionParser \<times> parameters) option" where
  "parametersLoop p params =
     (case consumeCharacter 0x3B p of
        (False, p1) \<Rightarrow> Inr (Some (p1, params))
      | (True, p1) \<Rightarrow>
          (case consumeToken p1 of
             (False, p2) \<Rightarrow> Inr None
           | (True, p2) \<Rightarrow>
               (case consumeCharacter 0x3D p2 of
                  (False, p3) \<Rightarrow> parametersLoop p3 (hashMap_add (the (xp_currentToken p2)) None params)
                | (True, p3) \<Rightarrow>
                    (case consumeQuotedStringOrToken p3 of
                       Inl f \<Rightarrow> Inl f
                     | Inr (False, p4) \<Rightarrow> Inr None
                     | Inr (True, p4) \<Rightarrow>
                         parametersLoop p4
                           (hashMap_add (the (xp_currentToken p2)) (xp_currentToken p4) params)))))"
  by pat_completeness auto
termination
  by (relation "measure (\<lambda>(p, params). length (xp_current p))")
    (auto dest!: consumeCharacter_le[OF sym] consumeToken_le[OF sym] consumeQuotedStringOrToken_le)

declare parametersLoop.simps [simp del]

lemma parametersLoop_le:
  "parametersLoop p params = Inr (Some (q, params')) \<Longrightarrow> length (xp_current q) \<le> length (xp_current p)"
proof (induction p params arbitrary: q params' rule: parametersLoop.induct)
  case (1 p params)
  then show ?case
    by (subst (asm) (3) parametersLoop.simps)
      (force dest!: consumeCharacter_le consumeToken_le consumeQuotedStringOrToken_le
        split: prod.splits bool.splits sum.splits)
qed

definition invalidHeader :: ustring where
  "invalidHeader = us ''Sec-WebSocket-Extensions header is invalid''"

text \<open>The processor of an extension: the first whose token is the extension's.\<close>

definition dispatchExtension ::
  "(parameters \<Rightarrow> parameters) \<Rightarrow> ustring \<Rightarrow> parameters \<Rightarrow> extensionDispatcher \<Rightarrow> bool \<times> extensionDispatcher" where
  "dispatchExtension iterate extensionToken extensionParameters d =
     (case find (\<lambda>q. extensionToken = ep_extensionToken q) (ed_processors d) of
        Some processor \<Rightarrow>
          if ep_processResponse processor extensionParameters then
            (True, appendAcceptedExtension iterate extensionToken extensionParameters d)
          else (False, dispatcher_fail (ep_failureReason processor) d)
      | None \<Rightarrow> (False, dispatcher_fail (us ''Received unexpected extension: '' @ extensionToken) d))"

function extensionsLoop ::
  "(parameters \<Rightarrow> parameters) \<Rightarrow> extensionParser \<Rightarrow> extensionDispatcher \<Rightarrow> fault + (bool \<times> extensionDispatcher)" where
  "extensionsLoop iterate p d =
     (if finished p then Inr (parsedSuccessfully p, d)
      else case consumeToken p of
        (False, p1) \<Rightarrow> Inr (False, dispatcher_fail invalidHeader d)
      | (True, p1) \<Rightarrow>
          (case parametersLoop p1 [] of
             Inl f \<Rightarrow> Inl f
           | Inr None \<Rightarrow> Inr (False, dispatcher_fail invalidHeader d)
           | Inr (Some (p2, extensionParameters)) \<Rightarrow>
               (let (ok, p3) = (if finished p2 then (True, p2) else consumeCharacter 0x2C p2)
                in if \<not> ok then Inr (False, dispatcher_fail invalidHeader d)
                   else (case dispatchExtension iterate (the (xp_currentToken p1)) extensionParameters d of
                           (False, d') \<Rightarrow> Inr (False, d')
                         | (True, d') \<Rightarrow> extensionsLoop iterate p3 d'))))"
  by pat_completeness auto
termination
  by (relation "measure (\<lambda>(iterate, p, d). length (xp_current p))")
    (auto dest!: consumeCharacter_le[OF sym] consumeToken_le[OF sym] parametersLoop_le split: if_splits)

declare extensionsLoop.simps [simp del]

definition processHeaderValue ::
  "(parameters \<Rightarrow> parameters) \<Rightarrow> ustring \<Rightarrow> extensionDispatcher \<Rightarrow> fault + (bool \<times> extensionDispatcher)" where
  "processHeaderValue iterate headerValue d =
     (if headerValue = [] then Inr (True, d)
      else if ed_processors d = [] then
        Inr (False, dispatcher_fail (us ''Received unexpected Sec-WebSocket-Extensions header'') d)
      else extensionsLoop iterate
             (ExtensionParser (case utf8_16Bit False headerValue of None \<Rightarrow> [] | Some bytes \<Rightarrow> bytes)) d)"

end
