(* ===== verification/WTF_Digest.thy ===== *)
theory WTF_Digest
  imports WK_Prelude
begin

unbundle bit_operations_syntax

section \<open>Digests that absorb a message block by block\<close>

text \<open>
  What SHA-1 and MD5 share: the message is padded with a one bit, zeros and its length, cut into
  blocks of 64 bytes, and every block is compressed into the hash value. The two classes take
  the message in pieces of any length and keep the bytes of an unfinished block in a buffer.
  The locales state that contract and derive that the pieces do not matter.
\<close>

subsection \<open>Bytes and words\<close>

lemma shifts_rotl: "0 < n \<Longrightarrow> n < 32 \<Longrightarrow> push_bit n x OR drop_bit (32 - n) x = word_rotl n (x :: uint32)"
  by (rule bit_word_eqI) (auto simp: bit_simps bit_word_rotl_iff mod_if add.commute[of 32] dest: bit_imp_le_length)

lemma add_as_or: "a AND b = 0 \<Longrightarrow> a OR b = a + (b :: uint32)"
  by (simp add: disjunctive_add_eq_or)

lemma disjoint_bytes:
  fixes a b c d :: byte
  shows "push_bit 24 (ucast a :: uint32) AND (push_bit 16 (ucast b) OR push_bit 8 (ucast c) OR ucast d) = 0"
    and "push_bit 16 (ucast b :: uint32) AND (push_bit 8 (ucast c) OR ucast d) = 0"
    and "push_bit 8 (ucast c :: uint32) AND ucast d = 0"
  by (rule bit_word_eqI, auto simp: bit_simps dest: bit_imp_le_length)+

lemma word_of_bytes:
  fixes a b c d :: byte
  shows "push_bit 24 (ucast a :: uint32) OR push_bit 16 (ucast b) OR push_bit 8 (ucast c) OR ucast d =
     256 * (256 * (256 * ucast a + ucast b) + ucast c) + ucast d"
proof -
  note s3 = add_as_or[OF disjoint_bytes(3)[of c d]]
  note s2 = add_as_or[OF disjoint_bytes(2)[of b c d, unfolded s3]]
  note s1 = add_as_or[OF disjoint_bytes(1)[of a b c d, unfolded or.assoc s3 s2]]
  show ?thesis unfolding or.assoc s3 s2 s1 by (simp add: push_bit_eq_mult algebra_simps)
qed

lemma take_update: "n < length xs \<Longrightarrow> take (Suc n) (xs[n := x]) = take n xs @ [x]"
  by (simp add: take_Suc_conv_app_nth)

subsection \<open>Blocks\<close>

fun blocks :: "byte list \<Rightarrow> byte list list" where
  "blocks xs = (if length xs < 64 then [] else take 64 xs # blocks (drop 64 xs))"

fun unfinished :: "byte list \<Rightarrow> byte list" where
  "unfinished xs = (if length xs < 64 then xs else unfinished (drop 64 xs))"

declare blocks.simps [simp del] unfinished.simps [simp del]

lemma blocks_short [simp]: "length xs < 64 \<Longrightarrow> blocks xs = []"
  by (simp add: blocks.simps)

lemma unfinished_short [simp]: "length xs < 64 \<Longrightarrow> unfinished xs = xs"
  by (simp add: unfinished.simps)

lemma blocks_block: "length b = 64 \<Longrightarrow> blocks (b @ xs) = b # blocks xs"
  by (subst blocks.simps) simp

lemma unfinished_block: "length b = 64 \<Longrightarrow> unfinished (b @ xs) = unfinished xs"
  by (subst unfinished.simps) simp

lemma blocks_append: "blocks (xs @ ys) = blocks xs @ blocks (unfinished xs @ ys)"
proof (induction xs rule: blocks.induct)
  case (1 xs)
  then show ?case
    by (cases "length xs < 64")
      (simp_all add: blocks.simps[of "xs @ ys"] blocks.simps[of xs] unfinished.simps[of xs])
qed

lemma unfinished_append: "unfinished (xs @ ys) = unfinished (unfinished xs @ ys)"
proof (induction xs rule: unfinished.induct)
  case (1 xs)
  then show ?case
    by (cases "length xs < 64") (simp_all add: unfinished.simps[of "xs @ ys"] unfinished.simps[of xs])
qed

lemma length_unfinished: "length (unfinished xs) = length xs mod 64"
proof (induction xs rule: unfinished.induct)
  case (1 xs)
  then show ?case
    by (cases "length xs < 64") (simp_all add: unfinished.simps[of xs] le_mod_geq[of 64 "length xs"])
qed

subsection \<open>Padding\<close>

definition padding :: "(int64 \<Rightarrow> byte list) \<Rightarrow> nat \<Rightarrow> int64 \<Rightarrow> byte list" where
  "padding lengthField n bits = 0x80 # replicate ((119 - n mod 64) mod 64) 0 @ lengthField bits"

definition padded :: "(int64 \<Rightarrow> byte list) \<Rightarrow> byte list \<Rightarrow> byte list" where
  "padded lengthField m = m @ padding lengthField (length m) (8 * word_of_nat (length m))"

lemma padding_mod: "padding lengthField (n mod 64) bits = padding lengthField n bits"
  by (simp add: padding_def)

lemma short_padding:
  "n \<le> 55 \<Longrightarrow> padding lf n bits = 0x80 # replicate (55 - n) 0 @ lf bits"
  "55 < n \<Longrightarrow> n < 64 \<Longrightarrow> padding lf n bits = (0x80 # replicate (63 - n) 0) @ replicate 56 0 @ lf bits"
proof -
  show "padding lf n bits = 0x80 # replicate (55 - n) 0 @ lf bits" if "n \<le> 55"
    using that by (simp add: padding_def le_mod_geq)
  assume n: "55 < n" "n < 64"
  then have "119 - n = (63 - n) + 56" by simp
  then have "replicate (119 - n) (0 :: byte) = replicate (63 - n) 0 @ replicate 56 0" by (metis replicate_add)
  then show "padding lf n bits = (0x80 # replicate (63 - n) 0) @ replicate 56 0 @ lf bits"
    using n by (simp add: padding_def)
qed

lemma padded_whole:
  assumes "\<And>v. length (lengthField v) = 8"
  shows "length (padded lengthField m) mod 64 = 0"
proof -
  define k where "k = length m mod 64"
  have "k < 64" by (simp add: k_def)
  then have "k + (119 - k) mod 64 + 9 = (if k \<le> 55 then 64 else 128)" by (auto simp: le_mod_geq)
  moreover have "length (padded lengthField m) = length m div 64 * 64 + (k + (119 - k) mod 64 + 9)"
    using assms div_mult_mod_eq[of "length m" 64] by (simp add: padded_def padding_def k_def)
  ultimately show ?thesis by simp
qed

subsection \<open>Streams of pieces\<close>

locale block_digest =
  fixes start :: 's
    and add :: "byte list \<Rightarrow> 's \<Rightarrow> 's"
    and ready :: "'s \<Rightarrow> bool"
    and hash :: "'s \<Rightarrow> 'h"
    and pending :: "'s \<Rightarrow> byte list"
    and bits :: "'s \<Rightarrow> int64"
    and compress :: "'h \<Rightarrow> byte list \<Rightarrow> 'h"
  assumes start: "ready start" "pending start = []" "bits start = 0"
    and add_ready: "ready s \<Longrightarrow> ready (add xs s)"
    and add_hash: "ready s \<Longrightarrow> hash (add xs s) = foldl compress (hash s) (blocks (pending s @ xs))"
    and add_pending: "ready s \<Longrightarrow> pending (add xs s) = unfinished (pending s @ xs)"
    and add_bits: "ready s \<Longrightarrow> bits (add xs s) = bits s + 8 * word_of_nat (length xs)"
begin

lemma pieces:
  "ready (fold add ps start) \<and> hash (fold add ps start) = foldl compress (hash start) (blocks (concat ps)) \<and>
    pending (fold add ps start) = unfinished (concat ps) \<and> bits (fold add ps start) = 8 * word_of_nat (length (concat ps))"
proof (induction ps rule: rev_induct)
  case Nil
  then show ?case using start by simp
next
  case (snoc p ps)
  then show ?case
    by (simp add: add_ready add_hash add_pending add_bits blocks_append[of "concat ps" p]
        unfinished_append[of "concat ps" p] algebra_simps)
qed

end

locale padded_digest = block_digest +
  fixes lengthField :: "int64 \<Rightarrow> byte list"
    and digest :: "'a \<Rightarrow> byte list"
    and emit :: "'b \<Rightarrow> byte list"
  assumes digest: "ready s \<Longrightarrow> digest s =
    emit (foldl compress (hash s) (blocks (pending s @ padding lengthField (length (pending s)) (bits s))))"
begin

lemma digest_pieces:
  "digest (fold add ps start) = emit (foldl compress (hash start) (blocks (padded lengthField (concat ps))))"
  using pieces[of ps]
  by (simp add: digest padded_def blocks_append[of "concat ps" "padding _ _ _"] length_unfinished padding_mod)

end

end
