(* ===== verification/WTF_MD5.thy ===== *)
theory WTF_MD5
  imports WTF_Digest
begin

unbundle bit_operations_syntax

section \<open>MD5\<close>

text \<open>
  \<^verbatim>\<open>wtf/MD5.{h,cpp}\<close>. The code reads the bytes of a block as 32-bit words of the machine after
  \<open>reverseBytes\<close> has put them into the order of the machine; \<open>bigEndian\<close> says which that is, and
  \<open>load32\<close> and \<open>store32\<close> are the accesses through the cast pointers. The self-test of debug
  builds is not part of the model.
\<close>

subsection \<open>Words in memory\<close>

definition littleEndian32 :: "byte list \<Rightarrow> uint32" where
  "littleEndian32 buf =
     push_bit 16 (push_bit 8 (ucast (buf ! 3)) OR ucast (buf ! 2)) OR push_bit 8 (ucast (buf ! 1)) OR ucast (buf ! 0)"

definition bytes32 :: "uint32 \<Rightarrow> byte list" where
  "bytes32 w = [ucast w, ucast (drop_bit 8 w), ucast (drop_bit 16 w), ucast (drop_bit 24 w)]"

definition load32 :: "bool \<Rightarrow> byte list \<Rightarrow> uint32" where
  "load32 bigEndian buf = littleEndian32 (if bigEndian then rev (take 4 buf) else buf)"

definition store32 :: "bool \<Rightarrow> uint32 \<Rightarrow> byte list" where
  "store32 bigEndian w = (if bigEndian then rev (bytes32 w) else bytes32 w)"

fun reverseBytes :: "bool \<Rightarrow> nat \<Rightarrow> byte list \<Rightarrow> byte list" where
  "reverseBytes bigEndian 0 buf = buf"
| "reverseBytes bigEndian (Suc longs) buf =
     store32 bigEndian (littleEndian32 buf) @ reverseBytes bigEndian longs (drop 4 buf)"

fun wordsOf :: "bool \<Rightarrow> nat \<Rightarrow> byte list \<Rightarrow> uint32 list" where
  "wordsOf bigEndian 0 buf = []"
| "wordsOf bigEndian (Suc longs) buf = load32 bigEndian buf # wordsOf bigEndian longs (drop 4 buf)"

subsection \<open>The transformation of a block\<close>

definition md5_F1 :: "uint32 \<Rightarrow> uint32 \<Rightarrow> uint32 \<Rightarrow> uint32" where
  "md5_F1 x y z = z XOR (x AND (y XOR z))"

definition md5_F2 :: "uint32 \<Rightarrow> uint32 \<Rightarrow> uint32 \<Rightarrow> uint32" where
  "md5_F2 x y z = md5_F1 z x y"

definition md5_F3 :: "uint32 \<Rightarrow> uint32 \<Rightarrow> uint32 \<Rightarrow> uint32" where
  "md5_F3 x y z = x XOR y XOR z"

definition md5_F4 :: "uint32 \<Rightarrow> uint32 \<Rightarrow> uint32 \<Rightarrow> uint32" where
  "md5_F4 x y z = y XOR (x OR NOT z)"

definition MD5STEP ::
  "(uint32 \<Rightarrow> uint32 \<Rightarrow> uint32 \<Rightarrow> uint32) \<Rightarrow> uint32 \<Rightarrow> uint32 \<Rightarrow> uint32 \<Rightarrow> uint32 \<Rightarrow> uint32 \<Rightarrow> nat \<Rightarrow> uint32" where
  "MD5STEP f w x y z data s =
     (let w1 = w + (f x y z + data); w2 = push_bit s w1 OR drop_bit (32 - s) w1 in w2 + x)"

definition MD5Transform :: "uint32 list \<Rightarrow> uint32 list \<Rightarrow> uint32 list" where
  "MD5Transform buf inp =
     (let a = buf ! 0; b = buf ! 1; c = buf ! 2; d = buf ! 3;
          a = MD5STEP md5_F1 a b c d (inp ! 0 + 0xd76aa478) 7;
          d = MD5STEP md5_F1 d a b c (inp ! 1 + 0xe8c7b756) 12;
          c = MD5STEP md5_F1 c d a b (inp ! 2 + 0x242070db) 17;
          b = MD5STEP md5_F1 b c d a (inp ! 3 + 0xc1bdceee) 22;
          a = MD5STEP md5_F1 a b c d (inp ! 4 + 0xf57c0faf) 7;
          d = MD5STEP md5_F1 d a b c (inp ! 5 + 0x4787c62a) 12;
          c = MD5STEP md5_F1 c d a b (inp ! 6 + 0xa8304613) 17;
          b = MD5STEP md5_F1 b c d a (inp ! 7 + 0xfd469501) 22;
          a = MD5STEP md5_F1 a b c d (inp ! 8 + 0x698098d8) 7;
          d = MD5STEP md5_F1 d a b c (inp ! 9 + 0x8b44f7af) 12;
          c = MD5STEP md5_F1 c d a b (inp ! 10 + 0xffff5bb1) 17;
          b = MD5STEP md5_F1 b c d a (inp ! 11 + 0x895cd7be) 22;
          a = MD5STEP md5_F1 a b c d (inp ! 12 + 0x6b901122) 7;
          d = MD5STEP md5_F1 d a b c (inp ! 13 + 0xfd987193) 12;
          c = MD5STEP md5_F1 c d a b (inp ! 14 + 0xa679438e) 17;
          b = MD5STEP md5_F1 b c d a (inp ! 15 + 0x49b40821) 22;
          a = MD5STEP md5_F2 a b c d (inp ! 1 + 0xf61e2562) 5;
          d = MD5STEP md5_F2 d a b c (inp ! 6 + 0xc040b340) 9;
          c = MD5STEP md5_F2 c d a b (inp ! 11 + 0x265e5a51) 14;
          b = MD5STEP md5_F2 b c d a (inp ! 0 + 0xe9b6c7aa) 20;
          a = MD5STEP md5_F2 a b c d (inp ! 5 + 0xd62f105d) 5;
          d = MD5STEP md5_F2 d a b c (inp ! 10 + 0x02441453) 9;
          c = MD5STEP md5_F2 c d a b (inp ! 15 + 0xd8a1e681) 14;
          b = MD5STEP md5_F2 b c d a (inp ! 4 + 0xe7d3fbc8) 20;
          a = MD5STEP md5_F2 a b c d (inp ! 9 + 0x21e1cde6) 5;
          d = MD5STEP md5_F2 d a b c (inp ! 14 + 0xc33707d6) 9;
          c = MD5STEP md5_F2 c d a b (inp ! 3 + 0xf4d50d87) 14;
          b = MD5STEP md5_F2 b c d a (inp ! 8 + 0x455a14ed) 20;
          a = MD5STEP md5_F2 a b c d (inp ! 13 + 0xa9e3e905) 5;
          d = MD5STEP md5_F2 d a b c (inp ! 2 + 0xfcefa3f8) 9;
          c = MD5STEP md5_F2 c d a b (inp ! 7 + 0x676f02d9) 14;
          b = MD5STEP md5_F2 b c d a (inp ! 12 + 0x8d2a4c8a) 20;
          a = MD5STEP md5_F3 a b c d (inp ! 5 + 0xfffa3942) 4;
          d = MD5STEP md5_F3 d a b c (inp ! 8 + 0x8771f681) 11;
          c = MD5STEP md5_F3 c d a b (inp ! 11 + 0x6d9d6122) 16;
          b = MD5STEP md5_F3 b c d a (inp ! 14 + 0xfde5380c) 23;
          a = MD5STEP md5_F3 a b c d (inp ! 1 + 0xa4beea44) 4;
          d = MD5STEP md5_F3 d a b c (inp ! 4 + 0x4bdecfa9) 11;
          c = MD5STEP md5_F3 c d a b (inp ! 7 + 0xf6bb4b60) 16;
          b = MD5STEP md5_F3 b c d a (inp ! 10 + 0xbebfbc70) 23;
          a = MD5STEP md5_F3 a b c d (inp ! 13 + 0x289b7ec6) 4;
          d = MD5STEP md5_F3 d a b c (inp ! 0 + 0xeaa127fa) 11;
          c = MD5STEP md5_F3 c d a b (inp ! 3 + 0xd4ef3085) 16;
          b = MD5STEP md5_F3 b c d a (inp ! 6 + 0x04881d05) 23;
          a = MD5STEP md5_F3 a b c d (inp ! 9 + 0xd9d4d039) 4;
          d = MD5STEP md5_F3 d a b c (inp ! 12 + 0xe6db99e5) 11;
          c = MD5STEP md5_F3 c d a b (inp ! 15 + 0x1fa27cf8) 16;
          b = MD5STEP md5_F3 b c d a (inp ! 2 + 0xc4ac5665) 23;
          a = MD5STEP md5_F4 a b c d (inp ! 0 + 0xf4292244) 6;
          d = MD5STEP md5_F4 d a b c (inp ! 7 + 0x432aff97) 10;
          c = MD5STEP md5_F4 c d a b (inp ! 14 + 0xab9423a7) 15;
          b = MD5STEP md5_F4 b c d a (inp ! 5 + 0xfc93a039) 21;
          a = MD5STEP md5_F4 a b c d (inp ! 12 + 0x655b59c3) 6;
          d = MD5STEP md5_F4 d a b c (inp ! 3 + 0x8f0ccc92) 10;
          c = MD5STEP md5_F4 c d a b (inp ! 10 + 0xffeff47d) 15;
          b = MD5STEP md5_F4 b c d a (inp ! 1 + 0x85845dd1) 21;
          a = MD5STEP md5_F4 a b c d (inp ! 8 + 0x6fa87e4f) 6;
          d = MD5STEP md5_F4 d a b c (inp ! 15 + 0xfe2ce6e0) 10;
          c = MD5STEP md5_F4 c d a b (inp ! 6 + 0xa3014314) 15;
          b = MD5STEP md5_F4 b c d a (inp ! 13 + 0x4e0811a1) 21;
          a = MD5STEP md5_F4 a b c d (inp ! 4 + 0xf7537e82) 6;
          d = MD5STEP md5_F4 d a b c (inp ! 11 + 0xbd3af235) 10;
          c = MD5STEP md5_F4 c d a b (inp ! 2 + 0x2ad7d2bb) 15;
          b = MD5STEP md5_F4 b c d a (inp ! 9 + 0xeb86d391) 21
      in [buf ! 0 + a, buf ! 1 + b, buf ! 2 + c, buf ! 3 + d])"

subsection \<open>The class\<close>

record md5 =
  md_buf :: "uint32 list"
  md_bits0 :: uint32
  md_bits1 :: uint32
  md_in :: "byte list"

definition md5_start :: md5 where
  "md5_start = \<lparr>md_buf = [0x67452301, 0xefcdab89, 0x98badcfe, 0x10325476], md_bits0 = 0, md_bits1 = 0,
     md_in = replicate 64 0\<rparr>"

text \<open>\<open>memcpy\<close> and \<open>memset\<close> into the buffer at an offset.\<close>

definition overwrite :: "nat \<Rightarrow> byte list \<Rightarrow> byte list \<Rightarrow> byte list" where
  "overwrite offset xs buf = take offset buf @ xs @ drop (offset + length xs) buf"

definition md5_transformIn :: "bool \<Rightarrow> md5 \<Rightarrow> md5" where
  "md5_transformIn bigEndian s =
     (let reversed = reverseBytes bigEndian 16 (md_in s)
      in s\<lparr>md_in := reversed, md_buf := MD5Transform (md_buf s) (wordsOf bigEndian 16 reversed)\<rparr>)"

definition md5_updateBits :: "nat \<Rightarrow> md5 \<Rightarrow> md5" where
  "md5_updateBits len s =
     (let t = md_bits0 s; length64 = (word_of_nat len :: int64);
          bits0 = ucast (ucast t + push_bit 3 length64);
          bits1 = (if bits0 < t then md_bits1 s + 1 else md_bits1 s)
      in s\<lparr>md_bits0 := bits0, md_bits1 := bits1 + ucast (drop_bit 29 length64)\<rparr>)"

fun md5_chunks :: "bool \<Rightarrow> byte list \<Rightarrow> md5 \<Rightarrow> md5" where
  "md5_chunks bigEndian buf s =
     (if 64 \<le> length buf then
        md5_chunks bigEndian (drop 64 buf) (md5_transformIn bigEndian (s\<lparr>md_in := overwrite 0 (take 64 buf) (md_in s)\<rparr>))
      else s\<lparr>md_in := overwrite 0 buf (md_in s)\<rparr>)"

declare md5_chunks.simps [simp del]

definition md5_addBytes :: "bool \<Rightarrow> byte list \<Rightarrow> md5 \<Rightarrow> md5" where
  "md5_addBytes bigEndian input s =
     (let t = unat (drop_bit 3 (md_bits0 s) AND 0x3f); s1 = md5_updateBits (length input) s
      in if t \<noteq> 0 then
           (let t' = 64 - t
            in if length input < t' then s1\<lparr>md_in := overwrite t input (md_in s1)\<rparr>
               else md5_chunks bigEndian (drop t' input)
                      (md5_transformIn bigEndian (s1\<lparr>md_in := overwrite t (take t' input) (md_in s1)\<rparr>)))
         else md5_chunks bigEndian input s1)"

definition md5_checksum :: "bool \<Rightarrow> md5 \<Rightarrow> byte list \<times> md5" where
  "md5_checksum bigEndian s =
     (let count0 = unat (drop_bit 3 (md_bits0 s) AND 0x3F);
          s1 = s\<lparr>md_in := overwrite count0 [0x80] (md_in s)\<rparr>;
          p = count0 + 1; count = 64 - 1 - count0;
          s2 = (if count < 8
                then (let s' = md5_transformIn bigEndian (s1\<lparr>md_in := overwrite p (replicate count 0) (md_in s1)\<rparr>)
                      in s'\<lparr>md_in := overwrite 0 (replicate 56 0) (md_in s')\<rparr>)
                else s1\<lparr>md_in := overwrite p (replicate (count - 8) 0) (md_in s1)\<rparr>);
          in1 = reverseBytes bigEndian 14 (md_in s2);
          in2 = overwrite 56 (store32 bigEndian (md_bits0 s2)) in1;
          in3 = overwrite 60 (store32 bigEndian (md_bits1 s2)) in2;
          buf = MD5Transform (md_buf s2) (wordsOf bigEndian 16 in3)
      in (reverseBytes bigEndian 4 (concat (map (store32 bigEndian) buf)),
          \<lparr>md_buf = replicate 4 0, md_bits0 = 0, md_bits1 = 0, md_in = replicate 64 0\<rparr>))"

subsection \<open>RFC 1321\<close>

text \<open>
  The four auxiliary functions, the table \<open>T\<close>, the shifts and the order of the words, per step
  \<open>i\<close> from 0 to 63. Step \<open>i\<close> replaces the first register, after which the registers move on.
\<close>

definition rfc1321_T :: "uint32 list" where
  "rfc1321_T = [0xd76aa478, 0xe8c7b756, 0x242070db, 0xc1bdceee, 0xf57c0faf, 0x4787c62a, 0xa8304613, 0xfd469501,
     0x698098d8, 0x8b44f7af, 0xffff5bb1, 0x895cd7be, 0x6b901122, 0xfd987193, 0xa679438e, 0x49b40821,
     0xf61e2562, 0xc040b340, 0x265e5a51, 0xe9b6c7aa, 0xd62f105d, 0x02441453, 0xd8a1e681, 0xe7d3fbc8,
     0x21e1cde6, 0xc33707d6, 0xf4d50d87, 0x455a14ed, 0xa9e3e905, 0xfcefa3f8, 0x676f02d9, 0x8d2a4c8a,
     0xfffa3942, 0x8771f681, 0x6d9d6122, 0xfde5380c, 0xa4beea44, 0x4bdecfa9, 0xf6bb4b60, 0xbebfbc70,
     0x289b7ec6, 0xeaa127fa, 0xd4ef3085, 0x04881d05, 0xd9d4d039, 0xe6db99e5, 0x1fa27cf8, 0xc4ac5665,
     0xf4292244, 0x432aff97, 0xab9423a7, 0xfc93a039, 0x655b59c3, 0x8f0ccc92, 0xffeff47d, 0x85845dd1,
     0x6fa87e4f, 0xfe2ce6e0, 0xa3014314, 0x4e0811a1, 0xf7537e82, 0xbd3af235, 0x2ad7d2bb, 0xeb86d391]"

definition rfc1321_shift :: "nat \<Rightarrow> nat" where
  "rfc1321_shift i =
     [[7, 12, 17, 22], [5, 9, 14, 20], [4, 11, 16, 23], [6, 10, 15, 21]] ! (i div 16) ! (i mod 4)"

definition rfc1321_index :: "nat \<Rightarrow> nat" where
  "rfc1321_index i =
     (if i < 16 then i else if i < 32 then (5 * i + 1) mod 16 else if i < 48 then (3 * i + 5) mod 16 else 7 * i mod 16)"

definition rfc1321_aux :: "nat \<Rightarrow> uint32 \<Rightarrow> uint32 \<Rightarrow> uint32 \<Rightarrow> uint32" where
  "rfc1321_aux i x y z =
     (if i < 16 then (x AND y) OR (NOT x AND z) else if i < 32 then (x AND z) OR (y AND NOT z)
      else if i < 48 then x XOR y XOR z else y XOR (x OR NOT z))"

definition rfc1321_step :: "uint32 list \<Rightarrow> nat \<Rightarrow> uint32 \<times> uint32 \<times> uint32 \<times> uint32 \<Rightarrow> uint32 \<times> uint32 \<times> uint32 \<times> uint32" where
  "rfc1321_step X i = (\<lambda>(a, b, c, d).
     (d, b + word_rotl (rfc1321_shift i) (a + rfc1321_aux i b c d + X ! rfc1321_index i + rfc1321_T ! i), b, c))"

definition rfc1321_words :: "byte list \<Rightarrow> uint32 list" where
  "rfc1321_words block = map (\<lambda>i. foldr (\<lambda>b w. 256 * w + ucast b) (take 4 (drop (4 * i) block)) 0) [0..<16]"

definition rfc1321_compress :: "uint32 list \<Rightarrow> byte list \<Rightarrow> uint32 list" where
  "rfc1321_compress h block =
     (case fold (rfc1321_step (rfc1321_words block)) [0..<64] (h ! 0, h ! 1, h ! 2, h ! 3) of
        (a, b, c, d) \<Rightarrow> [h ! 0 + a, h ! 1 + b, h ! 2 + c, h ! 3 + d])"

definition rfc1321_length :: "int64 \<Rightarrow> byte list" where
  "rfc1321_length bits = bytes32 (ucast bits) @ bytes32 (ucast (drop_bit 32 bits))"

definition rfc1321_output :: "uint32 list \<Rightarrow> byte list" where
  "rfc1321_output h = concat (map bytes32 h)"

definition rfc1321_digest :: "byte list \<Rightarrow> byte list" where
  "rfc1321_digest m =
     rfc1321_output (foldl rfc1321_compress [0x67452301, 0xefcdab89, 0x98badcfe, 0x10325476]
       (blocks (padded rfc1321_length m)))"

end
