(* ===== verification/WS_Handshake.thy ===== *)
theory WS_Handshake
  imports WS_Extension WK_Base64 WTF_SHA1 WTF_MD5
begin

section \<open>The WebSocket opening handshake\<close>

text \<open>
  \<^verbatim>\<open>websockets/WebSocketHandshake.cpp\<close> and \<^verbatim>\<open>WebSocketHandshakeResponse.cpp\<close>: the client's request
  and the scanner of the server's answer. The parts of the URL that the request needs, the
  origin and the cookies of the document, the byte order of the machine, Unicode case folding
  and lower-casing are parameters. Random numbers are taken from a list. Lengths are not
  truncated to \<^verbatim>\<open>int\<close>: a handshake is shorter than two gigabytes.
\<close>

unbundle bit_operations_syntax

record handshakeURL =
  u_path :: ustring
  u_query :: "ustring option"
  u_host :: ustring
  u_port :: nat
  u_isSecure :: bool

record handshakeEnv =
  he_foldCase :: "uchar \<Rightarrow> uchar"
  he_lower :: "ustring \<Rightarrow> ustring"
  he_origin :: ustring
  he_cookie :: ustring
  he_bigEndian :: bool
  he_iterate :: "parameters \<Rightarrow> parameters"

definition equalIgnoringCase :: "handshakeEnv \<Rightarrow> ustring \<Rightarrow> ustring \<Rightarrow> bool" where
  "equalIgnoringCase env a b \<longleftrightarrow> map (he_foldCase env) a = map (he_foldCase env) b"

subsection \<open>The response\<close>

type_synonym headerMap = "(ustring \<times> ustring) list"

definition header_add :: "handshakeEnv \<Rightarrow> ustring \<Rightarrow> ustring \<Rightarrow> headerMap \<Rightarrow> headerMap" where
  "header_add env name val m =
     (if \<exists>kv \<in> set m. equalIgnoringCase env (fst kv) name then m else m @ [(name, val)])"

definition header_get :: "handshakeEnv \<Rightarrow> headerMap \<Rightarrow> string \<Rightarrow> ustring option" where
  "header_get env m name = map_option snd (find (\<lambda>kv. equalIgnoringCase env (fst kv) (us name)) m)"

datatype handshakeMode = Incomplete | Normal | Failed | Connected

record handshake =
  hs_url :: handshakeURL
  hs_clientProtocol :: ustring
  hs_secure :: bool
  hs_useHixie76Protocol :: bool
  hs_mode :: handshakeMode
  hs_statusCode :: int
  hs_statusText :: "ustring option"
  hs_headerFields :: headerMap
  hs_challengeResponse :: "byte list"
  hs_failureReason :: "ustring option"
  hs_hixie76SecWebSocketKey1 :: ustring
  hs_hixie76SecWebSocketKey2 :: ustring
  hs_hixie76Key3 :: "byte list"
  hs_hixie76ExpectedChallengeResponse :: "byte list"
  hs_secWebSocketKey :: ustring
  hs_expectedAccept :: ustring
  hs_extensionDispatcher :: extensionDispatcher

definition failWith :: "ustring \<Rightarrow> handshake \<Rightarrow> handshake" where
  "failWith reason h = h\<lparr>hs_failureReason := Some reason\<rparr>"

definition serverHeader :: "handshakeEnv \<Rightarrow> handshake \<Rightarrow> string \<Rightarrow> ustring option" where
  "serverHeader env h name = header_get env (hs_headerFields h) name"

subsection \<open>The status line\<close>

definition trimConsoleMessage :: "byte list \<Rightarrow> ustring" where
  "trimConsoleMessage p = latin1 (take 128 p) @ (if 128 < length p then [0x2026] else [])"

text \<open>
  The loop over the line: it stops at a null byte, at the newline, or at the end of what has
  been received. \<open>consumed\<close> bytes precede the current one, \<open>space1\<close> and \<open>space2\<close> are offsets.
\<close>

datatype statusScan = StatusNull nat | StatusNewline nat "nat option" "nat option" | StatusEnd

fun scanStatusLine :: "byte list \<Rightarrow> nat \<Rightarrow> nat option \<Rightarrow> nat option \<Rightarrow> statusScan" where
  "scanStatusLine [] consumed space1 space2 = StatusEnd"
| "scanStatusLine (c # p) consumed space1 space2 =
     (if c = 0x20 then
        (if space1 = None then scanStatusLine p (Suc consumed) (Some consumed) space2
         else if space2 = None then scanStatusLine p (Suc consumed) space1 (Some consumed)
         else scanStatusLine p (Suc consumed) space1 space2)
      else if c = 0x00 then StatusNull consumed
      else if c = 0x0A then StatusNewline consumed space1 space2
      else scanStatusLine p (Suc consumed) space1 space2)"

record statusLine =
  sl_length :: int
  sl_statusCode :: int
  sl_statusText :: "ustring option"
  sl_failureReason :: "ustring option"

definition badStatusLine :: "int \<Rightarrow> ustring option \<Rightarrow> statusLine" where
  "badStatusLine len reason =
     \<lparr>sl_length = len, sl_statusCode = -1, sl_statusText = None, sl_failureReason = reason\<rparr>"

definition slice :: "nat \<Rightarrow> nat \<Rightarrow> byte list \<Rightarrow> byte list" where
  "slice from len p = take len (drop from p)"

definition digitValue :: "byte \<Rightarrow> int" where
  "digitValue c = uint c - 0x30"

definition readStatusLine :: "byte list \<Rightarrow> statusLine" where
  "readStatusLine header =
     (case scanStatusLine header 0 None None of
        StatusEnd \<Rightarrow> badStatusLine (-1) None
      | StatusNull consumed \<Rightarrow>
          badStatusLine (int consumed + 1) (Some (us ''Status line contains embedded null''))
      | StatusNewline consumed space1 space2 \<Rightarrow>
          (let lineLength = consumed + 1
           in if 1024 < lineLength then badStatusLine 1024 (Some (us ''Status line is too long''))
              else if lineLength < 2 \<or> header ! (lineLength - 2) \<noteq> 0x0D then
                badStatusLine (int lineLength) (Some (us ''Status line does not end with CRLF''))
              else (case (space1, space2) of
                (Some s1, Some s2) \<Rightarrow>
                  (let statusCodeString = slice (s1 + 1) (s2 - s1 - 1) header
                   in if length statusCodeString \<noteq> 3 then badStatusLine (int lineLength) None
                      else if \<not> list_all (\<lambda>c. 0x30 \<le> c \<and> c \<le> 0x39) statusCodeString then
                        badStatusLine (int lineLength)
                          (Some (us ''Invalid status code: '' @ latin1 statusCodeString))
                      else \<lparr>sl_length = int lineLength,
                             sl_statusCode = foldl (\<lambda>v c. v * 10 + digitValue c) 0 statusCodeString,
                             sl_statusText = Some (latin1 (slice (s2 + 1) (lineLength - s2 - 3) header)),
                             sl_failureReason = None\<rparr>)
              | _ \<Rightarrow> badStatusLine (int lineLength)
                       (Some (us ''No response code found: '' @ trimConsoleMessage (take (lineLength - 2) header))))))"

subsection \<open>The header fields\<close>

datatype nameResult = NameRead "byte list" "byte list" | NameBlankLine "byte list" | NameFailed ustring

fun readName :: "byte list \<Rightarrow> byte list \<Rightarrow> nameResult" where
  "readName name [] = NameRead name []"
| "readName name (c # p) =
     (if c = 0x0D then
        (if name = [] then
           (case p of
              d # q \<Rightarrow> if d = 0x0A then NameBlankLine q
                      else NameFailed (us ''CR doesn't follow LF at '' @ trimConsoleMessage (c # p))
            | [] \<Rightarrow> NameFailed (us ''CR doesn't follow LF at '' @ trimConsoleMessage (c # p)))
         else NameFailed (us ''Unexpected CR in name at '' @ trimConsoleMessage name))
      else if c = 0x0A then NameFailed (us ''Unexpected LF in name at '' @ trimConsoleMessage name)
      else if c = 0x3A then NameRead name p
      else readName (name @ [c]) p)"

datatype valueResult = ValueRead "byte list" "byte list" | ValueFailed ustring

fun readValue :: "byte list \<Rightarrow> byte list \<Rightarrow> valueResult" where
  "readValue val [] = ValueRead val []"
| "readValue val (c # p) =
     (if c = 0x0D then ValueRead val p
      else if c = 0x0A then ValueFailed (us ''Unexpected LF in value at '' @ trimConsoleMessage val)
      else readValue (val @ [c]) p)"

text \<open>
  \<open>HeadersRead\<close> holds the bytes after the blank line, \<open>HeadersFailed\<close> is \<^verbatim>\<open>return 0\<close>, and
  \<open>HeadersNotReached\<close> the assertion at the end of the function.
\<close>

datatype headersResult =
    HeadersRead "byte list" handshake
  | HeadersFailed handshake
  | HeadersNotReached handshake
  | HeadersFault fault

definition storeHeader :: "handshakeEnv \<Rightarrow> ustring \<Rightarrow> ustring \<Rightarrow> handshake \<Rightarrow> fault + (bool \<times> handshake)" where
  "storeHeader env name val h =
     (if equalIgnoringCase env (us ''sec-websocket-extensions'') name then
        (case processHeaderValue (he_iterate env) val (hs_extensionDispatcher h) of
           Inl f \<Rightarrow> Inl f
         | Inr (True, d) \<Rightarrow> Inr (True, h\<lparr>hs_extensionDispatcher := d\<rparr>)
         | Inr (False, d) \<Rightarrow>
             Inr (False, h\<lparr>hs_extensionDispatcher := d, hs_failureReason := ed_failureReason d\<rparr>))
      else Inr (True, h\<lparr>hs_headerFields := header_add env name val (hs_headerFields h)\<rparr>))"

text \<open>
  One header after its name and its value have been read, up to the newline. The name is decoded by
  \<^verbatim>\<open>AtomicString::fromUTF8\<close>, which refuses what \<^verbatim>\<open>String::fromUTF8\<close> refuses and converts by the same function,
  and is modelled by it.
\<close>

definition endOfHeader ::
  "handshakeEnv \<Rightarrow> byte list \<Rightarrow> byte list \<Rightarrow> byte list \<Rightarrow> handshake \<Rightarrow> fault + (bool \<times> handshake)" where
  "endOfHeader env name val p h =
     (if p = [] \<or> hd p \<noteq> 0x0A then
        Inr (False, failWith (us ''CR doesn't follow LF after value at '' @ trimConsoleMessage p) h)
      else
        thenS (fromUTF8 (vectorData name)) (\<lambda>nameStr.
        thenS (fromUTF8 (vectorData val)) (\<lambda>valueStr.
          case nameStr of
            None \<Rightarrow> Inr (False, failWith (us ''Invalid UTF-8 sequence in header name'') h)
          | Some n \<Rightarrow>
              (case valueStr of
                 None \<Rightarrow> Inr (False, failWith (us ''Invalid UTF-8 sequence in header value'') h)
               | Some v \<Rightarrow> storeHeader env n v h))))"

lemma readName_le: "readName name p = NameRead n q \<Longrightarrow> length q \<le> length p"
  by (induction name p rule: readName.induct) (auto split: if_splits list.splits)

lemma readValue_le: "readValue val p = ValueRead v q \<Longrightarrow> length q \<le> length p"
  by (induction val p rule: readValue.induct) (auto split: if_splits)

lemma endOfHeader_True: "endOfHeader env name val p h = Inr (True, h') \<Longrightarrow> p \<noteq> []"
  by (auto simp: endOfHeader_def)

function headersLoop :: "handshakeEnv \<Rightarrow> byte list \<Rightarrow> handshake \<Rightarrow> headersResult" where
  "headersLoop env p h =
     (if p = [] then HeadersNotReached h
      else case readName [] p of
        NameBlankLine q \<Rightarrow> HeadersRead q h
      | NameFailed reason \<Rightarrow> HeadersFailed (failWith reason h)
      | NameRead name p1 \<Rightarrow>
          (case readValue [] (dropWhile (\<lambda>c. c = 0x20) p1) of
             ValueFailed reason \<Rightarrow> HeadersFailed (failWith reason h)
           | ValueRead val p2 \<Rightarrow>
               (case endOfHeader env name val p2 h of
                  Inl f \<Rightarrow> HeadersFault f
                | Inr (False, h') \<Rightarrow> HeadersFailed h'
                | Inr (True, h') \<Rightarrow> headersLoop env (tl p2) h')))"
  by pat_completeness auto
termination
proof (relation "measure (\<lambda>(env, p, h). length p)", goal_cases)
  case (2 env p h name p1 val p2 r ok h')
  have "length p1 \<le> length p" using 2 by (auto dest: readName_le)
  moreover have "length p2 \<le> length (dropWhile (\<lambda>c. c = 0x20) p1)" using 2 by (auto dest: readValue_le)
  moreover have "length (dropWhile (\<lambda>c. c = 0x20) p1) \<le> length p1" by (rule length_dropWhile_le)
  moreover have "p2 \<noteq> []" using 2 by (auto dest: endOfHeader_True)
  ultimately show ?case by (cases p2) auto
qed simp

declare headersLoop.simps [simp del]

definition readHTTPHeaders :: "handshakeEnv \<Rightarrow> byte list \<Rightarrow> handshake \<Rightarrow> headersResult" where
  "readHTTPHeaders env p h = headersLoop env p (h\<lparr>hs_headerFields := []\<rparr>)"

subsection \<open>Checking the answer\<close>

definition resourceName :: "handshakeURL \<Rightarrow> ustring" where
  "resourceName url =
     (if u_path url = [] then us ''/'' else u_path url) @
     (case u_query url of None \<Rightarrow> [] | Some q \<Rightarrow> us ''?'' @ q)"

fun showNat :: "nat \<Rightarrow> ustring" where
  "showNat n = (if n < 10 then [word_of_nat (n + 0x30)] else showNat (n div 10) @ [word_of_nat (n mod 10 + 0x30)])"

declare showNat.simps [simp del]

definition hostName :: "handshakeEnv \<Rightarrow> handshakeURL \<Rightarrow> bool \<Rightarrow> ustring" where
  "hostName env url secure =
     he_lower env (u_host url) @
     (if u_port url \<noteq> 0 \<and> ((\<not> secure \<and> u_port url \<noteq> 80) \<or> (secure \<and> u_port url \<noteq> 443))
      then us '':'' @ showNat (u_port url) else [])"

definition clientLocation :: "handshakeEnv \<Rightarrow> handshake \<Rightarrow> ustring" where
  "clientLocation env h =
     us (if hs_secure h then ''wss'' else ''ws'') @ us ''://'' @
     hostName env (hs_url h) (hs_secure h) @ resourceName (hs_url h)"

definition handshakeError :: "string \<Rightarrow> ustring" where
  "handshakeError message = us ''Error during WebSocket handshake: '' @ us message"

definition quoted :: "string \<Rightarrow> ustring" where
  "quoted s = [0x27] @ us s @ [0x27]"

definition missingHeader :: "string \<Rightarrow> ustring" where
  "missingHeader name = handshakeError '''' @ quoted name @ us '' header is missing''"

text \<open>A null string reads as the empty one when it is appended to a message.\<close>

definition checkResponseHeaders :: "handshakeEnv \<Rightarrow> handshake \<Rightarrow> bool \<times> handshake" where
  "checkResponseHeaders env h =
     (let location = serverHeader env h ''sec-websocket-location'';
          origin = serverHeader env h ''sec-websocket-origin'';
          protocol = serverHeader env h ''sec-websocket-protocol'';
          upgrade = serverHeader env h ''upgrade'';
          connection = serverHeader env h ''connection'';
          accept = serverHeader env h ''sec-websocket-accept'';
          hixie = hs_useHixie76Protocol h
      in if upgrade = None then (False, failWith (missingHeader ''Upgrade'') h)
         else if connection = None then (False, failWith (missingHeader ''Connection'') h)
         else if hixie \<and> origin = None then (False, failWith (missingHeader ''Sec-WebSocket-Origin'') h)
         else if hixie \<and> location = None then (False, failWith (missingHeader ''Sec-WebSocket-Location'') h)
         else if \<not> hixie \<and> accept = None then (False, failWith (missingHeader ''Sec-WebSocket-Accept'') h)
         else if \<not> equalIgnoringCase env (the upgrade) (us ''websocket'') then
           (False, failWith (handshakeError '''' @ quoted ''Upgrade'' @ us '' header value is not '' @ quoted ''WebSocket'') h)
         else if \<not> equalIgnoringCase env (the connection) (us ''upgrade'') then
           (False, failWith (handshakeError '''' @ quoted ''Connection'' @ us '' header value is not '' @ quoted ''Upgrade'') h)
         else if hixie \<and> he_origin env \<noteq> the origin then
           (False, failWith (handshakeError ''origin mismatch: '' @ he_origin env @ us '' != '' @ the origin) h)
         else if hixie \<and> clientLocation env h \<noteq> the location then
           (False, failWith (handshakeError ''location mismatch: '' @ clientLocation env h @ us '' != '' @ the location) h)
         else if hixie \<and> hs_clientProtocol h \<noteq> [] \<and> Some (hs_clientProtocol h) \<noteq> protocol then
           (False, failWith (handshakeError ''protocol mismatch: '' @ hs_clientProtocol h @ us '' != '' @
              (case protocol of None \<Rightarrow> [] | Some q \<Rightarrow> q)) h)
         else if \<not> hixie \<and> the accept \<noteq> hs_expectedAccept h then
           (False, failWith (handshakeError ''Sec-WebSocket-Accept mismatch'') h)
         else (True, h))"

subsection \<open>Reading the answer\<close>

text \<open>\<open>strnstr\<close> of \<^verbatim>\<open>wtf/StringExtras.h\<close> on the four bytes that end a header; it stops at a null byte.\<close>

fun strnstr_CRLFCRLF :: "byte list \<Rightarrow> bool" where
  "strnstr_CRLFCRLF [] = False"
| "strnstr_CRLFCRLF (c # p) =
     (if c = 0 \<or> length (c # p) < 4 then False
      else if take 4 (c # p) = [0x0D, 0x0A, 0x0D, 0x0A] then True
      else strnstr_CRLFCRLF p)"

definition setMode :: "handshakeMode \<Rightarrow> handshake \<Rightarrow> handshake" where
  "setMode mode h = h\<lparr>hs_mode := mode\<rparr>"

definition readChallengeResponse :: "byte list \<Rightarrow> byte list \<Rightarrow> handshake \<Rightarrow> int \<times> handshake" where
  "readChallengeResponse header p h =
     (let consumed = length header - length p
      in if length header < consumed + 16 then (-1, setMode Incomplete h)
         else
           (let h' = h\<lparr>hs_challengeResponse := take 16 p\<rparr>
            in if take 16 p \<noteq> hs_hixie76ExpectedChallengeResponse h' then
                 (int (consumed + 16), setMode Failed h')
               else (int (consumed + 16), setMode Connected h')))"

text \<open>What remains to be done once the header fields have been read and \<open>p\<close> is what follows them.\<close>

definition afterHeaders :: "handshakeEnv \<Rightarrow> byte list \<Rightarrow> byte list \<Rightarrow> handshake \<Rightarrow> int \<times> handshake" where
  "afterHeaders env header p h3 =
     (case checkResponseHeaders env h3 of
        (False, h4) \<Rightarrow> (int (length header - length p), setMode Failed h4)
      | (True, h4) \<Rightarrow>
          if \<not> hs_useHixie76Protocol h4 then (int (length header - length p), setMode Connected h4)
          else readChallengeResponse header p h4)"

definition readServerHandshake :: "handshakeEnv \<Rightarrow> byte list \<Rightarrow> handshake \<Rightarrow> fault + (int \<times> handshake)" where
  "readServerHandshake env header h0 =
     (let line = readStatusLine header;
          h1 = (setMode Incomplete h0)\<lparr>hs_failureReason :=
                  (case sl_failureReason line of None \<Rightarrow> hs_failureReason h0 | Some r \<Rightarrow> Some r)\<rparr>;
          len = int (length header)
      in if sl_length line = -1 then Inr (-1, h1)
         else if sl_statusCode line = -1 then Inr (len, setMode Failed h1)
         else
           (let h2 = h1\<lparr>hs_statusCode := sl_statusCode line, hs_statusText := sl_statusText line\<rparr>
            in if sl_statusCode line \<noteq> 101 then
                 Inr (len, setMode Failed
                   (failWith (us ''Unexpected response code: '' @ showNat (nat (sl_statusCode line))) h2))
               else if \<not> strnstr_CRLFCRLF header then Inr (-1, setMode Incomplete (setMode Normal h2))
               else case readHTTPHeaders env (drop (nat (sl_length line)) header) (setMode Normal h2) of
                      HeadersFault f \<Rightarrow> Inl f
                    | HeadersFailed h3 \<Rightarrow> Inr (len, setMode Failed h3)
                    | HeadersNotReached h3 \<Rightarrow> Inr (len, setMode Failed h3)
                    | HeadersRead p h3 \<Rightarrow> Inr (afterHeaders env header p h3)))"

definition handshake_reset :: "handshake \<Rightarrow> handshake" where
  "handshake_reset h = h\<lparr>hs_mode := Incomplete, hs_extensionDispatcher := dispatcher_reset (hs_extensionDispatcher h)\<rparr>"

definition setURL :: "handshakeURL \<Rightarrow> handshake \<Rightarrow> handshake" where
  "setURL url h = h\<lparr>hs_url := url\<rparr>"

definition setClientProtocol :: "ustring \<Rightarrow> handshake \<Rightarrow> handshake" where
  "setClientProtocol protocol h = h\<lparr>hs_clientProtocol := protocol\<rparr>"

definition addExtensionProcessor :: "extensionProcessor \<Rightarrow> handshake \<Rightarrow> handshake" where
  "addExtensionProcessor processor h = h\<lparr>hs_extensionDispatcher := addProcessor processor (hs_extensionDispatcher h)\<rparr>"

subsection \<open>The request\<close>

definition requestFields :: "handshakeEnv \<Rightarrow> handshake \<Rightarrow> ustring list" where
  "requestFields env h =
     [us (if hs_useHixie76Protocol h then ''Upgrade: WebSocket'' else ''Upgrade: websocket''),
      us ''Connection: Upgrade'',
      us ''Host: '' @ hostName env (hs_url h) (hs_secure h),
      us ''Origin: '' @ he_origin env] @
     (if hs_clientProtocol h \<noteq> [] then [us ''Sec-WebSocket-Protocol: '' @ hs_clientProtocol h] else []) @
     (if he_cookie env \<noteq> [] then [us ''Cookie: '' @ he_cookie env] else []) @
     (if hs_useHixie76Protocol h then
        [us ''Sec-WebSocket-Key1: '' @ hs_hixie76SecWebSocketKey1 h,
         us ''Sec-WebSocket-Key2: '' @ hs_hixie76SecWebSocketKey2 h]
      else
        [us ''Sec-WebSocket-Key: '' @ hs_secWebSocketKey h, us ''Sec-WebSocket-Version: 13''] @
        (case createHeaderValue (hs_extensionDispatcher h) of
           Some val \<Rightarrow> if val \<noteq> [] then [us ''Sec-WebSocket-Extensions: '' @ val] else []
         | None \<Rightarrow> []))"

definition CRLF :: ustring where "CRLF = [0x0D, 0x0A]"

text \<open>A string too long for \<open>utf8()\<close> gives a null \<^verbatim>\<open>CString\<close>, whose length is 0.\<close>

definition clientHandshakeMessage :: "handshakeEnv \<Rightarrow> handshake \<Rightarrow> byte list" where
  "clientHandshakeMessage env h =
     (let request = us ''GET '' @ resourceName (hs_url h) @ us '' HTTP/1.1'' @ CRLF @
                    concat (map (\<lambda>field. field @ CRLF) (requestFields env h)) @ CRLF;
          handshakeHeader = (case utf8_16Bit False request of None \<Rightarrow> [] | Some bytes \<Rightarrow> bytes)
      in handshakeHeader @ (if hs_useHixie76Protocol h then hs_hixie76Key3 h else []))"

text \<open>The request that is shown to the inspector; the field of the subprotocol has a colon in its name.\<close>

record handshakeRequest =
  rq_url :: handshakeURL
  rq_requestMethod :: ustring
  rq_headerFields :: headerMap
  rq_key3 :: "byte list"

definition addHeaderField :: "handshakeEnv \<Rightarrow> string \<Rightarrow> ustring \<Rightarrow> handshakeRequest \<Rightarrow> handshakeRequest" where
  "addHeaderField env name val request =
     request\<lparr>rq_headerFields := header_add env (us name) val (rq_headerFields request)\<rparr>"

definition clientHandshakeRequest :: "handshakeEnv \<Rightarrow> handshake \<Rightarrow> handshakeRequest" where
  "clientHandshakeRequest env h =
     (let hixie = hs_useHixie76Protocol h;
          r0 = \<lparr>rq_url = hs_url h, rq_requestMethod = us ''GET'', rq_headerFields = [], rq_key3 = replicate 8 0\<rparr>;
          r1 = addHeaderField env ''Upgrade'' (us (if hixie then ''WebSocket'' else ''websocket'')) r0;
          r2 = addHeaderField env ''Connection'' (us ''Upgrade'') r1;
          r3 = addHeaderField env ''Host'' (hostName env (hs_url h) (hs_secure h)) r2;
          r4 = addHeaderField env ''Origin'' (he_origin env) r3;
          r5 = (if hs_clientProtocol h \<noteq> []
                then addHeaderField env ''Sec-WebSocket-Protocol:'' (hs_clientProtocol h) r4 else r4);
          r6 = (if he_cookie env \<noteq> [] then addHeaderField env ''Cookie'' (he_cookie env) r5 else r5)
      in if hixie then
           (addHeaderField env ''Sec-WebSocket-Key2'' (hs_hixie76SecWebSocketKey2 h)
             (addHeaderField env ''Sec-WebSocket-Key1'' (hs_hixie76SecWebSocketKey1 h) r6))\<lparr>rq_key3 := hs_hixie76Key3 h\<rparr>
         else
           (let r7 = addHeaderField env ''Sec-WebSocket-Key'' (hs_secWebSocketKey h) r6;
                r8 = addHeaderField env ''Sec-WebSocket-Version'' (us ''13'') r7
            in case createHeaderValue (hs_extensionDispatcher h) of
                 Some val \<Rightarrow> if val \<noteq> [] then addHeaderField env ''Sec-WebSocket-Extensions'' val r8 else r8
               | None \<Rightarrow> r8))"

subsection \<open>The keys\<close>

fun randomLoop :: "uint32 \<Rightarrow> uint32 list \<Rightarrow> (uint32 \<times> uint32 list) option" where
  "randomLoop limit [] = None"
| "randomLoop limit (v # random) = (if limit \<le> v then randomLoop limit random else Some (v, random))"

text \<open>\<open>None\<close> means that the list of random numbers is too short for the rejection loop to end.\<close>

definition randomNumberLessThan :: "uint32 \<Rightarrow> uint32 list \<Rightarrow> (uint32 \<times> uint32 list) option" where
  "randomNumberLessThan n random =
     (if n = 0 then Some (0, random)
      else if n = 0xFFFFFFFF then (case random of [] \<Rightarrow> None | v # random' \<Rightarrow> Some (v, random'))
      else (case randomLoop (0xFFFFFFFF - 0xFFFFFFFF mod n) random of
              None \<Rightarrow> None | Some (v, random') \<Rightarrow> Some (v mod n, random')))"

definition randomCharacterInSecWebSocketKey :: ustring where
  "randomCharacterInSecWebSocketKey = map word_of_nat ([0x21..<0x30] @ [0x3A..<0x7F])"

definition string_insert :: "ustring \<Rightarrow> nat \<Rightarrow> ustring \<Rightarrow> ustring" where
  "string_insert t pos s = (if length s \<le> pos then s @ t else take pos s @ t @ drop pos s)"

fun insertRandomCharacters :: "nat \<Rightarrow> ustring \<Rightarrow> uint32 list \<Rightarrow> (ustring \<times> uint32 list) option" where
  "insertRandomCharacters 0 s random = Some (s, random)"
| "insertRandomCharacters (Suc n) s random = do {
     (pos, random1) \<leftarrow> randomNumberLessThan (word_of_nat (length s + 1)) random;
     (chpos, random2) \<leftarrow> randomNumberLessThan (word_of_nat (length randomCharacterInSecWebSocketKey)) random1;
     insertRandomCharacters n (string_insert [randomCharacterInSecWebSocketKey ! unat chpos] (unat pos) s) random2 }"

fun insertSpaces :: "nat \<Rightarrow> ustring \<Rightarrow> uint32 list \<Rightarrow> (ustring \<times> uint32 list) option" where
  "insertSpaces 0 s random = Some (s, random)"
| "insertSpaces (Suc n) s random = do {
     (pos, random1) \<leftarrow> randomNumberLessThan (word_of_nat (length s - 1)) random;
     insertSpaces n (string_insert [0x20] (unat pos + 1) s) random1 }"

definition generateHixie76SecWebSocketKey :: "uint32 list \<Rightarrow> (uint32 \<times> ustring \<times> uint32 list) option" where
  "generateHixie76SecWebSocketKey random = do {
     (space0, random1) \<leftarrow> randomNumberLessThan 12 random;
     let space = space0 + 1;
     let limit = 4294967295 div space;
     (number, random2) \<leftarrow> randomNumberLessThan limit random1;
     let product = number * space;
     (n, random3) \<leftarrow> randomNumberLessThan 12 random2;
     (s, random4) \<leftarrow> insertRandomCharacters (unat (n + 1)) (showNat (unat product)) random3;
     (key, random5) \<leftarrow> insertSpaces (unat space) s random4;
     Some (number, key, random5) }"

fun setChallengeNumber :: "nat \<Rightarrow> uint32 \<Rightarrow> byte list \<Rightarrow> byte list" where
  "setChallengeNumber 0 number after = after"
| "setChallengeNumber (Suc i) number after =
     setChallengeNumber i (drop_bit 8 number) (ucast (number AND 0xFF) # after)"

definition generateHixie76ExpectedChallengeResponse :: "handshakeEnv \<Rightarrow> uint32 \<Rightarrow> uint32 \<Rightarrow> byte list \<Rightarrow> byte list" where
  "generateHixie76ExpectedChallengeResponse env number1 number2 key3 =
     (let challenge = setChallengeNumber 4 number1 [] @ setChallengeNumber 4 number2 [] @ key3
      in fst (md5_checksum (he_bigEndian env) (md5_addBytes (he_bigEndian env) challenge md5_start)))"

definition generateSecWebSocketKey :: "byte list \<Rightarrow> ustring" where
  "generateSecWebSocketKey key = latin1 (base64Encode False key)"

definition string_ascii :: "ustring \<Rightarrow> byte list" where
  "string_ascii s = map (\<lambda>ch. if ch \<noteq> 0 \<and> (ch < 0x20 \<or> 0x7F < ch) then 0x3F else ucast ch) s"

definition webSocketKeyGUID :: "byte list" where
  "webSocketKeyGUID = map (\<lambda>c. word_of_nat (of_char c)) ''258EAFA5-E914-47DA-95CA-C5AB0DC85B11''"

definition getExpectedWebSocketAccept :: "ustring \<Rightarrow> ustring" where
  "getExpectedWebSocketAccept secWebSocketKey =
     (let sha1 = sha1_addBytes webSocketKeyGUID (sha1_addBytes (string_ascii secWebSocketKey) sha1_start)
      in latin1 (base64Encode False (fst (sha1_computeHash sha1))))"

definition emptyHandshake :: "handshakeURL \<Rightarrow> ustring \<Rightarrow> bool \<Rightarrow> handshake" where
  "emptyHandshake url protocol useHixie76Protocol =
     \<lparr>hs_url = url, hs_clientProtocol = protocol, hs_secure = u_isSecure url, hs_useHixie76Protocol = useHixie76Protocol, hs_mode = Incomplete,
      hs_statusCode = 0, hs_statusText = None, hs_headerFields = [], hs_challengeResponse = replicate 16 0,
      hs_failureReason = None, hs_hixie76SecWebSocketKey1 = [], hs_hixie76SecWebSocketKey2 = [],
      hs_hixie76Key3 = [], hs_hixie76ExpectedChallengeResponse = [], hs_secWebSocketKey = [],
      hs_expectedAccept = [], hs_extensionDispatcher = WebSocketExtensionDispatcher\<rparr>"

text \<open>The constructor: \<open>randomBytes\<close> are the eight bytes of the third key or the sixteen of the nonce.\<close>

definition WebSocketHandshake ::
  "handshakeEnv \<Rightarrow> handshakeURL \<Rightarrow> ustring \<Rightarrow> bool \<Rightarrow> uint32 list \<Rightarrow> byte list \<Rightarrow> handshake option" where
  "WebSocketHandshake env url protocol useHixie76Protocol random randomBytes =
     (let h = emptyHandshake url protocol useHixie76Protocol
      in if useHixie76Protocol then do {
           (number1, key1, random1) \<leftarrow> generateHixie76SecWebSocketKey random;
           (number2, key2, random2) \<leftarrow> generateHixie76SecWebSocketKey random1;
           Some (h\<lparr>hs_hixie76SecWebSocketKey1 := key1, hs_hixie76SecWebSocketKey2 := key2,
                   hs_hixie76Key3 := randomBytes,
                   hs_hixie76ExpectedChallengeResponse :=
                     generateHixie76ExpectedChallengeResponse env number1 number2 randomBytes\<rparr>) }
         else
           (let key = generateSecWebSocketKey randomBytes
            in Some (h\<lparr>hs_secWebSocketKey := key, hs_expectedAccept := getExpectedWebSocketAccept key\<rparr>)))"

end
