(* ===== verification/WS_Handshake_Correct.thy ===== *)
theory WS_Handshake_Correct
  imports WS_Handshake
begin

section \<open>The scanner of the server's answer\<close>

text \<open>
  How much of the buffer the scanner consumes, why it never runs off the end of the header,
  and what a connected handshake has checked.
\<close>

subsection \<open>The status line\<close>

lemma scanStatusLine_newline:
  assumes "scanStatusLine p n s1 s2 = StatusNewline k t1 t2"
  shows "n \<le> k \<and> k < n + length p \<and> p ! (k - n) = 0x0A \<and> (\<forall>i < k - n. p ! i \<noteq> 0x0A)"
  using assms
proof (induction p n s1 s2 rule: scanStatusLine.induct)
  case (2 c p n s1 s2)
  show ?case
  proof (cases "c = 0x0A")
    case True
    then show ?thesis using "2.prems" by simp
  next
    case False
    obtain u1 u2 where "scanStatusLine p (Suc n) u1 u2 = StatusNewline k t1 t2"
      "Suc n \<le> k \<and> k < Suc n + length p \<and> p ! (k - Suc n) = 0x0A \<and> (\<forall>i < k - Suc n. p ! i \<noteq> 0x0A)"
      using "2.IH" "2.prems" False by (auto split: if_splits)
    moreover from this have "k - n = Suc (k - Suc n)" by linarith
    ultimately show ?thesis using False by (auto simp: nth_Cons' less_Suc_eq_0_disj)
  qed
qed simp

lemma scanStatusLine_null: "scanStatusLine p n s1 s2 = StatusNull k \<Longrightarrow> n \<le> k \<and> k < n + length p"
proof (induction p n s1 s2 rule: scanStatusLine.induct)
  case (2 c p n s1 s2)
  show ?case
  proof (cases "c = 0")
    case False
    then have "Suc n \<le> k \<and> k < Suc n + length p" using "2.IH" "2.prems" by (auto split: if_splits)
    then show ?thesis by simp
  qed (use "2.prems" in simp)
qed simp

lemma scanStatusLine_unterminated:
  "0x0A \<notin> set p \<Longrightarrow> 0 \<notin> set p \<Longrightarrow> scanStatusLine p n s1 s2 = StatusEnd"
  by (induction p n s1 s2 rule: scanStatusLine.induct) auto

text \<open>A status line that is returned: its newline is the first of the header, after a carriage return.\<close>

lemma readStatusLine_ok:
  assumes "sl_statusCode (readStatusLine header) \<noteq> -1"
  obtains k where "sl_length (readStatusLine header) = int (k + 2)" and "k + 1 < length header"
    and "header ! k = 0x0D" and "header ! (k + 1) = 0x0A" and "\<forall>i < k + 1. header ! i \<noteq> 0x0A"
proof -
  obtain m s1 s2 where s: "scanStatusLine header 0 None None = StatusNewline m s1 s2"
    using assms by (cases "scanStatusLine header 0 None None") (auto simp: readStatusLine_def badStatusLine_def)
  have len: "\<not> m + 1 < 2" "header ! (m + 1 - 2) = 0x0D" "sl_length (readStatusLine header) = int (m + 1)"
    using assms s by (auto simp: readStatusLine_def badStatusLine_def Let_def split: if_splits option.splits)
  then obtain k where "m = Suc k" by (cases m) auto
  then show thesis using that[of k] len scanStatusLine_newline[OF s] by simp
qed

lemma readStatusLine_length: "sl_length (readStatusLine header) = -1 \<or>
    (0 < sl_length (readStatusLine header) \<and> sl_length (readStatusLine header) \<le> int (length header))"
proof (cases "scanStatusLine header 0 None None")
  case (StatusNull k)
  then show ?thesis using scanStatusLine_null[OF StatusNull] by (simp add: readStatusLine_def badStatusLine_def)
next
  case (StatusNewline k s1 s2)
  then show ?thesis using scanStatusLine_newline[OF StatusNewline]
    by (auto simp: readStatusLine_def badStatusLine_def Let_def split: option.splits)
qed (simp add: readStatusLine_def badStatusLine_def)

subsection \<open>The header fields\<close>

definition blankLine :: "byte list" where "blankLine = [0x0D, 0x0A, 0x0D, 0x0A]"

definition endsSomewhere :: "byte list \<Rightarrow> bool" where
  "endsSomewhere p \<longleftrightarrow> (\<exists>q r. p = q @ blankLine @ r) \<or> (\<exists>r. p = 0x0D # 0x0A # r)"

lemma readName_split:
  "readName name p = NameRead n q \<Longrightarrow>
   \<exists>m. n = name @ m \<and> 0x0D \<notin> set m \<and> (p = m @ 0x3A # q \<or> p = m \<and> q = [])"
proof (induction name p rule: readName.induct)
  case (2 name c p)
  show ?case
  proof (cases "c = 0x0D \<or> c = 0x0A \<or> c = 0x3A")
    case True
    then show ?thesis using "2.prems" by (auto split: if_splits list.splits intro: exI[of _ "[]"])
  next
    case False
    then obtain m where "n = (name @ [c]) @ m" "0x0D \<notin> set m" "p = m @ 0x3A # q \<or> p = m \<and> q = []"
      using 2 by auto
    then show ?thesis using False by (intro exI[of _ "c # m"]) auto
  qed
qed auto

lemma readValue_split:
  "readValue val p = ValueRead v q \<Longrightarrow>
   \<exists>m. v = val @ m \<and> 0x0D \<notin> set m \<and> (p = m @ 0x0D # q \<or> p = m \<and> q = [])"
proof (induction val p rule: readValue.induct)
  case (2 val c p)
  show ?case
  proof (cases "c = 0x0D \<or> c = 0x0A")
    case True
    then show ?thesis using "2.prems" by (auto split: if_splits intro: exI[of _ "[]"])
  next
    case False
    then obtain m where "v = (val @ [c]) @ m" "0x0D \<notin> set m" "p = m @ 0x0D # q \<or> p = m \<and> q = []"
      using 2 by auto
    then show ?thesis using False by (intro exI[of _ "c # m"]) auto
  qed
qed auto

lemma endOfHeader_newline: "endOfHeader env name val p h = Inr (True, h') \<Longrightarrow> p = 0x0A # tl p"
  by (cases p) (auto simp: endOfHeader_def split: if_splits)

text \<open>A blank line after a prefix without a carriage return is met at the first carriage return or later.\<close>

lemma blankLine_after:
  assumes "x @ 0x0D # 0x0A # p = q @ blankLine @ r" and "0x0D \<notin> set x"
  shows "endsSomewhere p"
  using assms
proof (induction x arbitrary: q)
  case Nil
  then show ?case
    by (cases q; cases "tl q")
      (auto simp: blankLine_def endsSomewhere_def Cons_eq_append_conv)
next
  case (Cons c x)
  then show ?case by (cases q) (auto simp: blankLine_def)
qed

lemma headersLoop_reached: "endsSomewhere p \<Longrightarrow> headersLoop env p h \<noteq> HeadersNotReached h'"
proof (induction env p h rule: headersLoop.induct)
  case (1 env p h)
  have p: "p \<noteq> []" using "1.prems" by (auto simp: endsSomewhere_def blankLine_def)
  show ?case
  proof (cases "readName [] p")
    case (NameRead name p1)
    obtain m where m: "0x0D \<notin> set m" "p = m @ 0x3A # p1 \<or> p = m \<and> p1 = []"
      using readName_split[OF NameRead] by auto
    show ?thesis
    proof (cases "readValue [] (dropWhile (\<lambda>c. c = 0x20) p1)")
      case (ValueRead val p2)
      obtain v where v: "0x0D \<notin> set v"
        "dropWhile (\<lambda>c. c = 0x20) p1 = v @ 0x0D # p2 \<or> dropWhile (\<lambda>c. c = 0x20) p1 = v \<and> p2 = []"
        using readValue_split[OF ValueRead] by auto
      show ?thesis
      proof (cases "\<exists>h2. endOfHeader env name val p2 h = Inr (True, h2)")
        case True
        then obtain h2 where e: "endOfHeader env name val p2 h = Inr (True, h2)" by blast
        note nl = endOfHeader_newline[OF e]
        have "p2 \<noteq> []" using nl by auto
        then have d: "dropWhile (\<lambda>c. c = 0x20) p1 = v @ 0x0D # p2" using v(2) by blast
        then have "p1 = takeWhile (\<lambda>c. c = 0x20) p1 @ v @ 0x0D # p2" by (metis takeWhile_dropWhile_id)
        then have "p = (m @ 0x3A # takeWhile (\<lambda>c. c = 0x20) p1 @ v) @ 0x0D # 0x0A # tl p2"
          using m(2) nl d by auto
        moreover have "0x0D \<notin> set (m @ 0x3A # takeWhile (\<lambda>c. c = 0x20) p1 @ v)"
          using m(1) v(1) by (auto dest: set_takeWhileD)
        ultimately obtain x where x: "p = x @ 0x0D # 0x0A # tl p2" "0x0D \<notin> set x" "x \<noteq> []" by blast
        then have "\<nexists>r. p = 0x0D # 0x0A # r" by (cases x) auto
        then have "\<exists>q r. p = q @ blankLine @ r" using "1.prems" by (auto simp: endsSomewhere_def)
        then have "endsSomewhere (tl p2)" using blankLine_after x by metis
        then show ?thesis
          using "1.IH"[OF p NameRead ValueRead e] p NameRead ValueRead e
          by (subst headersLoop.simps) simp
      next
        case False
        then show ?thesis using p NameRead ValueRead
          by (subst headersLoop.simps) (auto split: sum.splits prod.splits bool.splits)
      qed
    qed (use p NameRead in \<open>subst headersLoop.simps, simp\<close>)
  qed (use p in \<open>subst headersLoop.simps, simp\<close>)+
qed

lemma strnstr_blankLine: "strnstr_CRLFCRLF p \<Longrightarrow> \<exists>q r. p = q @ blankLine @ r"
proof (induction p rule: strnstr_CRLFCRLF.induct)
  case (2 c p)
  show ?case
  proof (cases "take 4 (c # p) = blankLine")
    case True
    then show ?thesis by (metis append_Nil append_take_drop_id)
  next
    case False
    then obtain q r where "p = q @ blankLine @ r" using 2 by (auto simp: blankLine_def split: if_splits)
    then show ?thesis by (metis append_Cons)
  qed
qed simp

lemma header_endsSomewhere:
  assumes "strnstr_CRLFCRLF header" and "sl_statusCode (readStatusLine header) \<noteq> -1"
  shows "endsSomewhere (drop (nat (sl_length (readStatusLine header))) header)"
proof -
  obtain q r where h: "header = q @ blankLine @ r" using strnstr_blankLine[OF assms(1)] by blast
  obtain k where k: "sl_length (readStatusLine header) = int (k + 2)" "k + 1 < length header"
    "header ! k = 0x0D" "header ! (k + 1) = 0x0A" "\<forall>i < k + 1. header ! i \<noteq> 0x0A"
    using readStatusLine_ok[OF assms(2)] by blast
  have "header ! (length q + 1) = 0x0A" "header ! length q = 0x0D" unfolding h by (simp_all add: nth_append blankLine_def)
  then have "\<not> length q + 1 < k + 1" "length q \<noteq> k + 1" using k(4,5) by auto
  then consider "length q = k" | "k + 2 \<le> length q" by linarith
  then show ?thesis
  proof cases
    case 1
    then have "drop (k + 2) header = 0x0D # 0x0A # r" unfolding h by (simp add: blankLine_def numeral_2_eq_2)
    then show ?thesis using k(1) by (auto simp: endsSomewhere_def nat_add_distrib)
  next
    case 2
    then have "drop (k + 2) header = drop (k + 2) q @ blankLine @ r" unfolding h by simp
    then show ?thesis using k(1) by (auto simp: endsSomewhere_def nat_add_distrib)
  qed
qed

lemma readName_blank: "readName name p = NameBlankLine q \<Longrightarrow> length q + 2 \<le> length p"
  by (induction name p rule: readName.induct) (auto split: if_splits list.splits)

lemma headersLoop_suffix: "headersLoop env p h = HeadersRead q h' \<Longrightarrow> length q + 2 \<le> length p"
proof (induction env p h rule: headersLoop.induct)
  case (1 env p h)
  have p: "p \<noteq> []" using "1.prems" by (subst (asm) headersLoop.simps) (auto split: if_splits)
  show ?case
  proof (cases "readName [] p")
    case (NameRead name p1)
    then obtain val p2 where v: "readValue [] (dropWhile (\<lambda>c. c = 0x20) p1) = ValueRead val p2"
      using "1.prems" p by (subst (asm) headersLoop.simps) (auto split: valueResult.splits)
    obtain h2 where e: "endOfHeader env name val p2 h = Inr (True, h2)" and r: "headersLoop env (tl p2) h2 = HeadersRead q h'"
      using "1.prems" p NameRead v
      by (subst (asm) headersLoop.simps) (auto split: sum.splits prod.splits bool.splits)
    have "length p1 \<le> length p" by (rule readName_le[OF NameRead])
    moreover have "length p2 \<le> length (dropWhile (\<lambda>c. c = 0x20) p1)" by (rule readValue_le[OF v])
    moreover have "length (dropWhile (\<lambda>c. c = 0x20) p1) \<le> length p1" by (rule length_dropWhile_le)
    ultimately show ?thesis using "1.IH"[OF p NameRead v e refl _ r] by simp
  next
    case (NameBlankLine q')
    then show ?thesis using "1.prems" p readName_blank[OF NameBlankLine]
      by (subst (asm) headersLoop.simps) simp
  next
    case (NameFailed reason)
    then show ?thesis using "1.prems" p by (subst (asm) headersLoop.simps) simp
  qed
qed

subsection \<open>The whole answer\<close>

lemma setMode_simps [simp]:
  "hs_mode (setMode m h) = m" "hs_headerFields (setMode m h) = hs_headerFields h"
  "hs_useHixie76Protocol (setMode m h) = hs_useHixie76Protocol h"
  "hs_expectedAccept (setMode m h) = hs_expectedAccept h"
  "hs_challengeResponse (setMode m h) = hs_challengeResponse h"
  "hs_hixie76ExpectedChallengeResponse (setMode m h) = hs_hixie76ExpectedChallengeResponse h"
  by (simp_all add: setMode_def)

lemma checkResponseHeaders_True:
  assumes "checkResponseHeaders env h = (True, h')"
  shows "h' = h"
    and "\<exists>v. serverHeader env h ''upgrade'' = Some v \<and> equalIgnoringCase env v (us ''websocket'')"
    and "\<exists>v. serverHeader env h ''connection'' = Some v \<and> equalIgnoringCase env v (us ''upgrade'')"
    and "\<not> hs_useHixie76Protocol h \<Longrightarrow> serverHeader env h ''sec-websocket-accept'' = Some (hs_expectedAccept h)"
    and "hs_useHixie76Protocol h \<Longrightarrow> serverHeader env h ''sec-websocket-origin'' = Some (he_origin env) \<and>
      serverHeader env h ''sec-websocket-location'' = Some (clientLocation env h)"
  using assms by (auto simp: checkResponseHeaders_def Let_def split: if_splits)

text \<open>What the client brought to the handshake, and the status code, are not touched by the headers.\<close>

definition clientPart where
  "clientPart h = (hs_url h, hs_clientProtocol h, hs_secure h, hs_useHixie76Protocol h, hs_expectedAccept h,
     hs_hixie76ExpectedChallengeResponse h, hs_statusCode h)"

lemma clientPart_updates [simp]:
  "clientPart (setMode m h) = clientPart h" "clientPart (failWith r h) = clientPart h"
  "clientPart (h\<lparr>hs_headerFields := m'\<rparr>) = clientPart h" "clientPart (h\<lparr>hs_extensionDispatcher := d\<rparr>) = clientPart h"
  "clientPart (h\<lparr>hs_failureReason := f\<rparr>) = clientPart h" "clientPart (h\<lparr>hs_challengeResponse := c\<rparr>) = clientPart h"
  by (simp_all add: clientPart_def setMode_def failWith_def)

lemma endOfHeader_keeps: "endOfHeader env name val p h = Inr (b, h') \<Longrightarrow> clientPart h' = clientPart h"
  by (auto simp: endOfHeader_def storeHeader_def thenS_def
      split: if_splits sum.splits option.splits prod.splits bool.splits)

lemma headersLoop_keeps: "headersLoop env p h = HeadersRead q h' \<Longrightarrow> clientPart h' = clientPart h"
proof (induction env p h rule: headersLoop.induct)
  case (1 env p h)
  have p: "p \<noteq> []" using "1.prems" by (subst (asm) headersLoop.simps) (auto split: if_splits)
  show ?case
  proof (cases "readName [] p")
    case (NameRead name p1)
    then obtain val p2 where v: "readValue [] (dropWhile (\<lambda>c. c = 0x20) p1) = ValueRead val p2"
      using "1.prems" p by (subst (asm) headersLoop.simps) (auto split: valueResult.splits)
    obtain h2 where e: "endOfHeader env name val p2 h = Inr (True, h2)" and r: "headersLoop env (tl p2) h2 = HeadersRead q h'"
      using "1.prems" p NameRead v
      by (subst (asm) headersLoop.simps) (auto split: sum.splits prod.splits bool.splits)
    show ?thesis using "1.IH"[OF p NameRead v e refl _ r] endOfHeader_keeps[OF e] by simp
  qed (use "1.prems" p in \<open>subst (asm) headersLoop.simps; simp\<close>)+
qed

end
