(* ===== verification/WS_Frame.thy ===== *)
theory WS_Frame
  imports WK_Prelude
begin

section \<open>WebSocket frames\<close>

text \<open>
  The frame formats of \<^verbatim>\<open>websockets/WebSocketChannel.cpp\<close>: \<open>parseFrame\<close> and the byte layout of
  \<open>sendFrame\<close> for hybi-10, the two scanners of \<open>processFrameHixie76\<close> and \<open>sendFrameHixie76\<close> for
  hixie-76. The receive buffer \<open>m_buffer\<close> is a list of bytes, a pointer into it the number of
  bytes before it or the list of the bytes after it. \<^verbatim>\<open>size_t\<close> has 64 bits, as on the LP64
  platforms of the GTK port.
\<close>

unbundle bit_operations_syntax

definition finalBit :: byte where "finalBit = 0x80"
definition reserved1Bit :: byte where "reserved1Bit = 0x40"
definition reserved2Bit :: byte where "reserved2Bit = 0x20"
definition reserved3Bit :: byte where "reserved3Bit = 0x10"
definition opCodeMask :: byte where "opCodeMask = 0xF"
definition maskBit :: byte where "maskBit = 0x80"
definition payloadLengthMask :: byte where "payloadLengthMask = 0x7F"
definition maxPayloadLengthWithoutExtendedLengthField :: nat where
  "maxPayloadLengthWithoutExtendedLengthField = 125"
definition payloadLengthWithTwoByteExtendedLengthField :: nat where
  "payloadLengthWithTwoByteExtendedLengthField = 126"
definition payloadLengthWithEightByteExtendedLengthField :: nat where
  "payloadLengthWithEightByteExtendedLengthField = 127"
definition maskingKeyWidthInBytes :: nat where "maskingKeyWidthInBytes = 4"

type_synonym opCode = nat

definition OpCodeContinuation :: opCode where "OpCodeContinuation = 0x0"
definition OpCodeText :: opCode where "OpCodeText = 0x1"
definition OpCodeBinary :: opCode where "OpCodeBinary = 0x2"
definition OpCodeClose :: opCode where "OpCodeClose = 0x8"
definition OpCodePing :: opCode where "OpCodePing = 0x9"
definition OpCodePong :: opCode where "OpCodePong = 0xA"

lemmas frame_constants = finalBit_def reserved1Bit_def reserved2Bit_def reserved3Bit_def opCodeMask_def
  maskBit_def payloadLengthMask_def maxPayloadLengthWithoutExtendedLengthField_def
  payloadLengthWithTwoByteExtendedLengthField_def payloadLengthWithEightByteExtendedLengthField_def
  maskingKeyWidthInBytes_def

lemmas opCodes = OpCodeContinuation_def OpCodeText_def OpCodeBinary_def OpCodeClose_def OpCodePing_def
  OpCodePong_def

definition isNonControlOpCode :: "opCode \<Rightarrow> bool" where
  "isNonControlOpCode opCode \<longleftrightarrow>
     opCode = OpCodeContinuation \<or> opCode = OpCodeText \<or> opCode = OpCodeBinary"

definition isControlOpCode :: "opCode \<Rightarrow> bool" where
  "isControlOpCode opCode \<longleftrightarrow> opCode = OpCodeClose \<or> opCode = OpCodePing \<or> opCode = OpCodePong"

definition isReservedOpCode :: "opCode \<Rightarrow> bool" where
  "isReservedOpCode opCode \<longleftrightarrow> \<not> isNonControlOpCode opCode \<and> \<not> isControlOpCode opCode"

record frameData =
  fr_opCode :: opCode
  fr_final :: bool
  fr_reserved1 :: bool
  fr_reserved2 :: bool
  fr_reserved3 :: bool
  fr_masked :: bool
  fr_payload :: "byte list"
  fr_frameEnd :: nat

text \<open>
  \<open>FrameError\<close> carries the length that the caller reports when it fails the connection.
\<close>

datatype parseFrameResult = FrameOK frameData | FrameIncomplete | FrameError int64

definition xorMask :: "byte list \<Rightarrow> byte list \<Rightarrow> byte list" where
  "xorMask key payload = map (\<lambda>(i, b). b XOR key ! (i mod maskingKeyWidthInBytes)) (enumerate 0 payload)"

definition extendedPayloadLength :: "byte list \<Rightarrow> int64" where
  "extendedPayloadLength bytes = foldl (\<lambda>l b. push_bit 8 l OR ucast b) 0 bytes"

definition maxPayloadLength :: int64 where "maxPayloadLength = 0x7FFFFFFFFFFFFFFF"

text \<open>
  The part of \<open>parseFrame\<close> after the length field: \<open>headerLength\<close> bytes precede \<open>p\<close>. The buffer
  that is returned is \<open>m_buffer\<close> after the payload has been unmasked in place.
\<close>

definition parsePayload ::
  "byte \<Rightarrow> byte \<Rightarrow> nat \<Rightarrow> int64 \<Rightarrow> byte list \<Rightarrow> byte list \<Rightarrow> parseFrameResult \<times> byte list" where
  "parsePayload firstByte secondByte headerLength payloadLength64 p m_buffer =
     (let masked = (secondByte AND maskBit \<noteq> 0);
          maskingKeyLength = (if masked then maskingKeyWidthInBytes else 0)
      in if maxPayloadLength < payloadLength64
            \<or> 0xFFFFFFFFFFFFFFFF < payloadLength64 + word_of_nat maskingKeyLength then
           (FrameError payloadLength64, m_buffer)
         else if length p < unat (word_of_nat maskingKeyLength + payloadLength64 :: int64) then
           (FrameIncomplete, m_buffer)
         else
           (let payloadLength = unat payloadLength64;
                raw = take payloadLength (drop maskingKeyLength p);
                payload = (if masked then xorMask (take maskingKeyWidthInBytes p) raw else raw);
                payloadStart = headerLength + maskingKeyLength
            in (FrameOK \<lparr>fr_opCode = unat (firstByte AND opCodeMask),
                   fr_final = (firstByte AND finalBit \<noteq> 0), fr_reserved1 = (firstByte AND reserved1Bit \<noteq> 0),
                   fr_reserved2 = (firstByte AND reserved2Bit \<noteq> 0), fr_reserved3 = (firstByte AND reserved3Bit \<noteq> 0),
                   fr_masked = masked, fr_payload = payload, fr_frameEnd = payloadStart + payloadLength\<rparr>,
                take payloadStart m_buffer @ payload @ drop (payloadStart + payloadLength) m_buffer)))"

definition parseFrame :: "byte list \<Rightarrow> parseFrameResult \<times> byte list" where
  "parseFrame m_buffer =
     (case m_buffer of
        firstByte # secondByte # p \<Rightarrow>
          (let payloadLength = unat (secondByte AND payloadLengthMask)
           in if maxPayloadLengthWithoutExtendedLengthField < payloadLength then
                (let extendedPayloadLengthSize =
                       (if payloadLength = payloadLengthWithTwoByteExtendedLengthField then 2 else 8)
                 in if length p < extendedPayloadLengthSize then (FrameIncomplete, m_buffer)
                    else parsePayload firstByte secondByte (2 + extendedPayloadLengthSize)
                           (extendedPayloadLength (take extendedPayloadLengthSize p))
                           (drop extendedPayloadLengthSize p) m_buffer)
              else parsePayload firstByte secondByte 2 (word_of_nat payloadLength) p m_buffer)
      | _ \<Rightarrow> (FrameIncomplete, m_buffer))"

text \<open>
  The loop that fills \<open>extendedPayloadLength[7 - i]\<close>, and the frame that \<open>sendFrame\<close> hands to the
  socket. The masking key is what \<open>cryptographicallyRandomValues\<close> wrote.
\<close>

fun networkOrder :: "nat \<Rightarrow> int64 \<Rightarrow> byte list \<Rightarrow> byte list" where
  "networkOrder 0 remaining after = after"
| "networkOrder (Suc n) remaining after =
     networkOrder n (drop_bit 8 remaining) (ucast (remaining AND 0xFF) # after)"

definition frameHeader :: "opCode \<Rightarrow> int64 \<Rightarrow> byte list" where
  "frameHeader opCode dataLength =
     (finalBit OR word_of_nat opCode) #
     (if dataLength \<le> word_of_nat maxPayloadLengthWithoutExtendedLengthField then
        [maskBit OR ucast dataLength]
      else if dataLength \<le> 0xFFFF then
        [maskBit OR word_of_nat payloadLengthWithTwoByteExtendedLengthField,
         ucast (drop_bit 8 (dataLength AND 0xFF00)), ucast (dataLength AND 0xFF)]
      else
        (maskBit OR word_of_nat payloadLengthWithEightByteExtendedLengthField) # networkOrder 8 dataLength [])"

definition sendFrame_bytes :: "opCode \<Rightarrow> byte list \<Rightarrow> byte list \<Rightarrow> byte list" where
  "sendFrame_bytes opCode maskingKey data =
     frameHeader opCode (word_of_nat (length data)) @ maskingKey @ xorMask maskingKey data"

subsection \<open>hixie-76\<close>

text \<open>
  The length of a frame with the high bit set, in base 128. The four ways the loop ends: a
  length, an overflow, more data needed. \<open>n\<close> counts the bytes of the length field.
\<close>

datatype lengthResult = LengthFinished int64 nat | LengthError nat | LengthIncomplete

fun readLengthHixie76 :: "byte list \<Rightarrow> nat \<Rightarrow> int64 \<Rightarrow> lengthResult" where
  "readLengthHixie76 [] n len = LengthIncomplete"
| "readLengthHixie76 (msgByte # p) n len =
     (if 0xFFFFFFFFFFFFFFFF div 128 < len then LengthError n
      else
        (let newLength = len * 128;
             lengthMsgByte = ucast (msgByte AND 0x7F) :: int64
         in if 0xFFFFFFFFFFFFFFFF - lengthMsgByte < newLength then LengthError n
            else if newLength + lengthMsgByte < len then LengthError n
            else if msgByte AND 0x80 = 0 then LengthFinished (newLength + lengthMsgByte) (Suc n)
            else readLengthHixie76 p (Suc n) (newLength + lengthMsgByte)))"

datatype hixieFrame =
    HixieIncomplete
  | HixieError
  | HixieSkipped nat
  | HixieClosing nat
  | HixieText "byte list" nat
  | HixieUnknown nat

text \<open>
  One frame of the buffer, which is not empty and starts at the address \<open>addr\<close>. \<open>HixieSkipped\<close> is
  a length-prefixed frame, \<open>HixieClosing\<close> the closing handshake \<^verbatim>\<open>FF 00\<close>, \<open>HixieUnknown\<close> a
  delimited frame whose type is not 0; each with the number of bytes of the frame.
\<close>

definition parseFrameHixie76 :: "int64 \<Rightarrow> byte list \<Rightarrow> hixieFrame" where
  "parseFrameHixie76 addr m_buffer =
     (case m_buffer of
        [] \<Rightarrow> HixieIncomplete
      | frameByte # p \<Rightarrow>
          if frameByte AND 0x80 = 0x80 then
            (case readLengthHixie76 p 0 0 of
               LengthIncomplete \<Rightarrow> HixieIncomplete
             | LengthError n \<Rightarrow> HixieError
             | LengthFinished len n \<Rightarrow>
                 (let here = addr + word_of_nat (Suc n)
                  in if here + len < here then HixieError
                     else if Suc n + unat len \<le> length m_buffer then
                       (if frameByte = 0xFF \<and> len = 0 then HixieClosing (Suc n + unat len)
                        else HixieSkipped (Suc n + unat len))
                     else HixieIncomplete))
          else
            (let message = takeWhile (\<lambda>b. b \<noteq> 0xFF) p
             in if length message < length p then
                  (if frameByte = 0x00 then HixieText message (length message + 2)
                   else HixieUnknown (length message + 2))
                else HixieIncomplete))"

definition sendFrameHixie76_bytes :: "byte list \<Rightarrow> byte list" where
  "sendFrameHixie76_bytes data = 0x00 # data @ [0xFF]"

end
