(* ===== verification/WS_Frame_Correct.thy ===== *)
theory WS_Frame_Correct
  imports WS_Frame
begin

section \<open>Frames are read back as they were written\<close>

text \<open>
  Masking is an involution, the extended length field is read in the order it is written, and
  what \<open>parseFrame\<close> returns for a complete frame does not depend on what follows it.
\<close>

unbundle bit_operations_syntax

subsection \<open>Masking\<close>

lemma length_xorMask [simp]: "length (xorMask key xs) = length xs"
  by (simp add: xorMask_def)

lemma nth_xorMask [simp]: "i < length xs \<Longrightarrow> xorMask key xs ! i = xs ! i XOR key ! (i mod maskingKeyWidthInBytes)"
  by (simp add: xorMask_def nth_enumerate_eq)

lemma xorMask_xorMask [simp]: "xorMask key (xorMask key xs) = xs"
  by (rule nth_equalityI) (simp_all add: xor.assoc)

subsection \<open>The extended length field\<close>

lemma ucast_low_byte: "(ucast (ucast (n AND 0xFF :: int64) :: byte) :: int64) = take_bit 8 n"
proof (rule bit_word_eqI)
  fix i assume "i < LENGTH(64)"
  have "(n AND 0xFF) = take_bit 8 n" by (simp add: take_bit_eq_mask mask_eq_exp_minus_1)
  then show "bit (ucast (ucast (n AND 0xFF) :: byte) :: int64) i \<longleftrightarrow> bit (take_bit 8 n) i"
    by (auto simp: bit_ucast_iff bit_take_bit_iff dest: bit_imp_le_length)
qed

lemma foldl_networkOrder:
  "foldl (\<lambda>l b. push_bit 8 l OR ucast b) acc (networkOrder k remaining after) =
   foldl (\<lambda>l b. push_bit 8 l OR ucast b) (push_bit (8 * k) acc OR take_bit (8 * k) remaining :: int64) after"
proof (induction k arbitrary: remaining after)
  case (Suc k)
  have "push_bit 8 (push_bit (8 * k) acc OR take_bit (8 * k) (drop_bit 8 remaining)) OR take_bit 8 remaining =
    push_bit (8 * Suc k) acc OR take_bit (8 * Suc k) remaining"
    by (rule bit_word_eqI) (auto simp: bit_push_bit_iff bit_take_bit_iff bit_or_iff bit_drop_bit_eq not_less)
  then show ?case using Suc by (simp add: ucast_low_byte)
qed simp

lemma length_networkOrder: "length (networkOrder k remaining after) = k + length after"
  by (induction k arbitrary: remaining after) simp_all

lemma extended_eight: "extendedPayloadLength (networkOrder 8 n []) = n"
proof -
  have "take_bit 64 n = n" by (rule take_bit_word_eq_self) simp
  then show ?thesis using foldl_networkOrder[of 0 8 n "[]"] by (simp add: extendedPayloadLength_def)
qed

lemma extended_two:
  assumes "n \<le> 0xFFFF"
  shows "extendedPayloadLength [ucast (drop_bit 8 (n AND 0xFF00)), ucast (n AND 0xFF)] = n"
proof -
  have "take_bit 16 n = n"
    using assms unfolding word_unat_eq_iff unsigned_take_bit_eq
    by (simp add: take_bit_nat_eq_self word_le_nat_alt)
  moreover have "networkOrder 2 n [] = [ucast (drop_bit 8 (n AND 0xFF00)), ucast (n AND 0xFF)]"
  proof -
    have "drop_bit 8 (n AND 0xFF00) = drop_bit 8 n AND 0xFF" by simp
    then show ?thesis by (simp add: numeral_2_eq_2)
  qed
  ultimately show ?thesis using foldl_networkOrder[of 0 2 n "[]"] by (simp add: extendedPayloadLength_def)
qed

subsection \<open>The two bytes every frame starts with\<close>

lemma byte_and_disjoint:
  assumes "unat b < 2 ^ k" and "m AND mask k = (0 :: byte)"
  shows "b AND m = 0"
proof -
  have "take_bit k b = b"
    using assms(1) unfolding word_unat_eq_iff unsigned_take_bit_eq by (simp add: take_bit_nat_eq_self)
  then have "b AND m = b AND (m AND mask k)" by (metis take_bit_eq_mask and.assoc and.commute)
  then show ?thesis using assms(2) by simp
qed

lemma byte_and_mask:
  assumes "unat (b :: byte) < 2 ^ k"
  shows "b AND mask k = b"
  using assms unfolding take_bit_eq_mask[symmetric] word_unat_eq_iff unsigned_take_bit_eq
  by (simp add: take_bit_nat_eq_self)

lemma first_byte:
  assumes "opCode < 16"
  shows "unat ((finalBit OR word_of_nat opCode) AND opCodeMask) = opCode"
    and "(finalBit OR word_of_nat opCode) AND finalBit \<noteq> 0"
    and "(finalBit OR word_of_nat opCode) AND reserved1Bit = 0"
    and "(finalBit OR word_of_nat opCode) AND reserved2Bit = 0"
    and "(finalBit OR word_of_nat opCode) AND reserved3Bit = 0"
proof -
  let ?w = "word_of_nat opCode :: byte"
  have u: "unat ?w = opCode" using assms by (simp add: unat_of_nat take_bit_nat_eq_self)
  have d: "?w AND m = 0" if "m AND mask 4 = 0" for m using byte_and_disjoint[of ?w 4 m] assms u that by simp
  have "?w AND opCodeMask = ?w"
    using byte_and_mask[of ?w 4] assms u by (simp add: opCodeMask_def mask_eq_exp_minus_1)
  then show "unat ((finalBit OR ?w) AND opCodeMask) = opCode"
    using u by (simp add: bit.conj_disj_distrib2 frame_constants)
  show "(finalBit OR ?w) AND finalBit \<noteq> 0"
    using d[of "0x80"] by (simp add: bit.conj_disj_distrib2 frame_constants mask_eq_exp_minus_1)
  show "(finalBit OR ?w) AND reserved1Bit = 0" "(finalBit OR ?w) AND reserved2Bit = 0"
    "(finalBit OR ?w) AND reserved3Bit = 0"
    using d[of "0x40"] d[of "0x20"] d[of "0x10"]
    by (simp_all add: bit.conj_disj_distrib2 frame_constants mask_eq_exp_minus_1)
qed

lemma second_byte:
  assumes "n < 128"
  shows "unat ((maskBit OR word_of_nat n) AND payloadLengthMask) = n"
    and "(maskBit OR word_of_nat n) AND maskBit \<noteq> 0"
proof -
  let ?w = "word_of_nat n :: byte"
  have u: "unat ?w = n" using assms by (simp add: unat_of_nat take_bit_nat_eq_self)
  have "?w AND payloadLengthMask = ?w"
    using byte_and_mask[of ?w 7] assms u by (simp add: payloadLengthMask_def mask_eq_exp_minus_1)
  then show "unat ((maskBit OR ?w) AND payloadLengthMask) = n"
    using u by (simp add: bit.conj_disj_distrib2 frame_constants)
  have "?w AND 0x80 = 0" using byte_and_disjoint[of ?w 7 "0x80"] assms u by (simp add: mask_eq_exp_minus_1)
  then show "(maskBit OR ?w) AND maskBit \<noteq> 0" by (simp add: bit.conj_disj_distrib2 frame_constants)
qed

subsection \<open>Reading what was written\<close>

definition sentFrame :: "opCode \<Rightarrow> byte list \<Rightarrow> nat \<Rightarrow> frameData" where
  "sentFrame opCode data frameEnd =
     \<lparr>fr_opCode = opCode, fr_final = True, fr_reserved1 = False, fr_reserved2 = False, fr_reserved3 = False,
      fr_masked = True, fr_payload = data, fr_frameEnd = frameEnd\<rparr>"

lemma parsePayload_sent:
  assumes "opCode < 16" and "length key = 4" and "length data < 2 ^ 63"
    and "secondByte AND maskBit \<noteq> 0"
  shows "fst (parsePayload (finalBit OR word_of_nat opCode) secondByte k (word_of_nat (length data))
      (key @ xorMask key data @ rest) buffer) = FrameOK (sentFrame opCode data (k + 4 + length data))"
proof -
  let ?n = "word_of_nat (length data) :: int64"
  have u: "unat ?n = length data" using assms(3) by (rule unat_of_nat_int64)
  have "\<not> maxPayloadLength < ?n" using assms(3) u by (simp add: maxPayloadLength_def word_less_nat_alt)
  moreover have "\<not> 0xFFFFFFFFFFFFFFFF < ?n + w" for w
    by (simp add: word_less_nat_alt not_less unat_int64_less[THEN Suc_leI, simplified])
  moreover have "unat (4 + ?n) = 4 + length data" using assms(3) u by (simp add: unat_word_ariths)
  ultimately show ?thesis
    using assms(2,4) u first_byte[OF assms(1)]
    by (simp add: parsePayload_def Let_def maskingKeyWidthInBytes_def sentFrame_def)
qed

lemma parseFrame_sent:
  assumes "opCode < 16" and "length key = 4" and "length data < 2 ^ 63"
  shows "fst (parseFrame (sendFrame_bytes opCode key data @ rest)) =
    FrameOK (sentFrame opCode data (length (sendFrame_bytes opCode key data)))"
proof -
  let ?n = "word_of_nat (length data) :: int64" and ?b = "sendFrame_bytes opCode key data @ rest"
  have u: "unat ?n = length data" using assms(3) by (rule unat_of_nat_int64)
  have le: "?n \<le> 125 \<longleftrightarrow> length data \<le> 125" "?n \<le> 0xFFFF \<longleftrightarrow> length data \<le> 0xFFFF"
    using u by (simp_all add: word_le_nat_alt)
  consider "length data \<le> 125" | "125 < length data" "length data \<le> 0xFFFF" | "0xFFFF < length data"
    by linarith
  then show ?thesis
  proof cases
    case 1
    let ?s = "maskBit OR word_of_nat (length data)"
    have "(ucast ?n :: byte) = word_of_nat (length data)"
      using 1 u by (simp add: word_unat_eq_iff unsigned_ucast_eq take_bit_nat_eq_self unat_of_nat)
    then have h: "frameHeader opCode ?n = [finalBit OR word_of_nat opCode, ?s]"
      using 1 le by (simp add: frameHeader_def frame_constants)
    have "unat (?s AND payloadLengthMask) = length data" using 1 by (intro second_byte) simp
    then show ?thesis
      using 1 h assms parsePayload_sent[OF assms second_byte(2), of "length data" 2 rest ?b]
      by (simp add: parseFrame_def sendFrame_bytes_def maxPayloadLengthWithoutExtendedLengthField_def Let_def)
  next
    case 2
    let ?s = "maskBit OR word_of_nat 126 :: byte"
    have h: "frameHeader opCode ?n =
        [finalBit OR word_of_nat opCode, ?s, ucast (drop_bit 8 (?n AND 0xFF00)), ucast (?n AND 0xFF)]"
      using 2 le by (simp add: frameHeader_def frame_constants)
    have m: "unat (?s AND payloadLengthMask) = 126" by (rule second_byte) simp
    have "extendedPayloadLength [ucast (drop_bit 8 (?n AND 0xFF00)), ucast (?n AND 0xFF)] = ?n"
      using 2 le by (intro extended_two) simp
    then show ?thesis
      using h m assms parsePayload_sent[OF assms second_byte(2)[of 126], of 4 rest ?b]
      by (simp add: parseFrame_def sendFrame_bytes_def maxPayloadLengthWithoutExtendedLengthField_def
          payloadLengthWithTwoByteExtendedLengthField_def)
  next
    case 3
    let ?s = "maskBit OR word_of_nat 127 :: byte" and ?e = "networkOrder 8 ?n []"
    have h: "frameHeader opCode ?n = (finalBit OR word_of_nat opCode) # ?s # ?e"
      using 3 le by (simp add: frameHeader_def frame_constants)
    have m: "unat (?s AND payloadLengthMask) = 127" by (rule second_byte) simp
    have l: "length ?e = 8" by (simp add: length_networkOrder)
    show ?thesis
      using h m l assms parsePayload_sent[OF assms second_byte(2)[of 127], of 10 rest ?b]
      by (simp add: parseFrame_def sendFrame_bytes_def maxPayloadLengthWithoutExtendedLengthField_def
          payloadLengthWithTwoByteExtendedLengthField_def extended_eight)
  qed
qed

subsection \<open>What follows a frame does not matter\<close>

definition settled :: "parseFrameResult \<Rightarrow> bool" where
  "settled r \<longleftrightarrow> r \<noteq> FrameIncomplete"

lemma unat_payload_sum:
  assumes "\<not> maxPayloadLength < n" and "k \<le> 4"
  shows "unat (word_of_nat k + n) = k + unat n"
proof -
  have "unat n \<le> 0x7FFFFFFFFFFFFFFF" using assms(1) by (simp add: maxPayloadLength_def word_less_nat_alt)
  moreover have "unat (word_of_nat k :: int64) = k" using assms(2) by (intro unat_of_nat_int64) simp
  ultimately show ?thesis using assms(2) by (subst unat_add_lem[THEN iffD1]) simp_all
qed

lemma parsePayload_append:
  assumes "settled (fst (parsePayload a b k n p buffer))" and "length buffer = k + length p"
  shows "parsePayload a b k n (p @ rest) (buffer @ rest) =
    (fst (parsePayload a b k n p buffer), snd (parsePayload a b k n p buffer) @ rest)"
  using assms unat_payload_sum[of n 4] unat_payload_sum[of n 0]
  by (auto simp: parsePayload_def Let_def settled_def maskingKeyWidthInBytes_def split: if_splits)

lemma parsePayload_bounds:
  assumes "parsePayload a b k n p buffer = (FrameOK f, buffer')" and "length buffer = k + length p"
  shows "k + length (fr_payload f) \<le> fr_frameEnd f \<and> fr_frameEnd f \<le> length buffer \<and>
    length buffer' = length buffer \<and> drop (fr_frameEnd f) buffer' = drop (fr_frameEnd f) buffer"
  using assms unat_payload_sum[of n 4] unat_payload_sum[of n 0]
  by (auto simp: parsePayload_def Let_def maskingKeyWidthInBytes_def split: if_splits)

lemma parseFrame_append:
  assumes "settled (fst (parseFrame buffer))"
  shows "parseFrame (buffer @ rest) = (fst (parseFrame buffer), snd (parseFrame buffer) @ rest)"
proof -
  obtain a b p where s: "buffer = a # b # p"
    using assms by (auto simp: parseFrame_def settled_def split: list.splits)
  have *: "parsePayload a b k n (drop d p @ rest) (a # b # p @ rest) =
      (fst (parsePayload a b k n (drop d p) buffer), snd (parsePayload a b k n (drop d p) buffer) @ rest)"
    if "settled (fst (parsePayload a b k n (drop d p) buffer))" "k = 2 + d" "d \<le> length p" for k n d
    using parsePayload_append[OF that(1)] that(2,3) s by simp
  show ?thesis
    using assms *[where d = 0] unfolding s
    by (auto simp: parseFrame_def settled_def Let_def s * split: if_splits)
qed

lemma parseFrame_bounds:
  assumes "parseFrame buffer = (FrameOK f, buffer')"
  shows "2 + length (fr_payload f) \<le> fr_frameEnd f \<and> fr_frameEnd f \<le> length buffer \<and>
    length buffer' = length buffer \<and> drop (fr_frameEnd f) buffer' = drop (fr_frameEnd f) buffer"
  using assms
  by (auto simp: parseFrame_def Let_def dest!: parsePayload_bounds split: list.splits if_splits)

text \<open>A frame cut short is never taken for one: the parser waits for the rest.\<close>

lemma parseFrame_prefix:
  assumes "opCode < 16" and "length key = 4" and "length data < 2 ^ 63" and "n < length (sendFrame_bytes opCode key data)"
  shows "fst (parseFrame (take n (sendFrame_bytes opCode key data))) = FrameIncomplete"
proof (rule ccontr)
  let ?f = "sendFrame_bytes opCode key data"
  assume "fst (parseFrame (take n ?f)) \<noteq> FrameIncomplete"
  then have "fst (parseFrame (take n ?f @ drop n ?f)) = fst (parseFrame (take n ?f))"
    using parseFrame_append[of "take n ?f" "drop n ?f"] by (simp add: settled_def)
  then have "fst (parseFrame (take n ?f)) = FrameOK (sentFrame opCode data (length ?f))"
    using parseFrame_sent[OF assms(1-3), of "[]"] by simp
  then obtain buffer' where "parseFrame (take n ?f) = (FrameOK (sentFrame opCode data (length ?f)), buffer')"
    by (cases "parseFrame (take n ?f)") simp
  from parseFrame_bounds[OF this] assms(4) show False by (simp add: sentFrame_def)
qed

subsection \<open>hixie-76 lengths\<close>

text \<open>The value of a length field without a bound on its size.\<close>

definition base128 :: "nat \<Rightarrow> byte list \<Rightarrow> nat" where
  "base128 = foldl (\<lambda>v b. v * 128 + unat (b AND 0x7F))"

lemma base128_simps [simp]:
  "base128 v [] = v" "base128 v (b # bs) = base128 (v * 128 + unat (b AND 0x7F)) bs"
  by (simp_all add: base128_def)

text \<open>Once the first test of the loop has passed, the two others cannot fail.\<close>

lemma length_step:
  assumes "\<not> (0xFFFFFFFFFFFFFFFF :: int64) div 128 < len"
  shows "unat (len * 128 + ucast (b AND 0x7F :: byte) :: int64) = unat len * 128 + unat (b AND 0x7F)"
    and "\<not> 0xFFFFFFFFFFFFFFFF - (ucast (b AND 0x7F) :: int64) < len * 128"
    and "\<not> len * 128 + ucast (b AND 0x7F) < len"
proof -
  let ?b = "ucast (b AND 0x7F) :: int64"
  have "unat len \<le> 0x1FFFFFFFFFFFFFF" using assms by (simp add: word_less_nat_alt)
  moreover have ub: "unat ?b = unat (b AND 0x7F)"
    using unsigned_less[of "b AND 0x7F", where ?'a = nat] by (simp add: unsigned_ucast_eq take_bit_nat_eq_self)
  moreover have "unat (b AND 0x7F) \<le> 127"
    using word_and_le1[of b "0x7F"] by (simp add: word_le_nat_alt)
  ultimately have m: "unat (len * 128) = unat len * 128" and s: "unat (len * 128 + ?b) = unat len * 128 + unat (b AND 0x7F)"
    and d: "unat (0xFFFFFFFFFFFFFFFF - ?b) = 0xFFFFFFFFFFFFFFFF - unat (b AND 0x7F)"
    by (simp_all add: unat_word_ariths unat_sub_if')
  show "unat (len * 128 + ?b) = unat len * 128 + unat (b AND 0x7F)" by (rule s)
  show "\<not> 0xFFFFFFFFFFFFFFFF - ?b < len * 128"
    unfolding word_less_nat_alt m d using \<open>unat len \<le> _\<close> \<open>unat (b AND 0x7F) \<le> 127\<close> by linarith
  show "\<not> len * 128 + ?b < len" unfolding word_less_nat_alt s by simp
qed

lemma readLengthHixie76_Cons:
  "readLengthHixie76 (b # p) n len =
     (if 0xFFFFFFFFFFFFFFFF div 128 < len then LengthError n
      else if b AND 0x80 = 0 then LengthFinished (len * 128 + ucast (b AND 0x7F)) (Suc n)
      else readLengthHixie76 p (Suc n) (len * 128 + ucast (b AND 0x7F)))"
proof (cases "(0xFFFFFFFFFFFFFFFF :: int64) div 128 < len")
  case False
  then show ?thesis using length_step(2,3)[OF False, of b]
    by (simp only: readLengthHixie76.simps Let_def if_False)
qed (simp only: readLengthHixie76.simps if_True)

declare readLengthHixie76.simps(2) [simp del]

lemma readLengthHixie76_value:
  assumes "readLengthHixie76 p n len = LengthFinished v m"
  shows "\<exists>field last rest. p = field @ last # rest \<and> (\<forall>b \<in> set field. b AND 0x80 \<noteq> 0) \<and> last AND 0x80 = 0 \<and>
    m = n + length field + 1 \<and> unat v = base128 (unat len) (field @ [last])"
  using assms
proof (induction p arbitrary: n len)
  case (Cons b p)
  note s = length_step[of len b]
  show ?case
  proof (cases "b AND 0x80 = 0")
    case True
    then show ?thesis using Cons.prems s
      by (intro exI[of _ "[]"] exI[of _ b] exI[of _ p])
        (auto simp: readLengthHixie76_Cons split: if_splits)
  next
    case False
    have ok: "\<not> (0xFFFFFFFFFFFFFFFF :: int64) div 128 < len"
      and r: "readLengthHixie76 p (Suc n) (len * 128 + ucast (b AND 0x7F)) = LengthFinished v m"
      using Cons.prems False by (auto simp: readLengthHixie76_Cons split: if_splits)
    obtain field last rest where f: "p = field @ last # rest" "\<forall>b \<in> set field. b AND 0x80 \<noteq> 0"
      "last AND 0x80 = 0" "m = Suc n + length field + 1"
      "unat v = base128 (unat (len * 128 + ucast (b AND 0x7F))) (field @ [last])"
      using Cons.IH[OF r] by blast
    then show ?thesis
      using False s(1)[OF ok] by (intro exI[of _ "b # field"] exI[of _ last] exI[of _ rest]) simp
  qed
qed simp

lemma readLengthHixie76_append:
  "readLengthHixie76 p n len \<noteq> LengthIncomplete \<Longrightarrow> readLengthHixie76 (p @ rest) n len = readLengthHixie76 p n len"
  by (induction p arbitrary: n len) (auto simp: readLengthHixie76_Cons split: if_splits)

lemma readLengthHixie76_bound:
  "readLengthHixie76 p n len = LengthFinished v m \<Longrightarrow> n < m \<and> m \<le> n + length p"
  by (drule readLengthHixie76_value) auto

definition hixieLength :: "hixieFrame \<Rightarrow> nat" where
  "hixieLength f = (case f of HixieSkipped n \<Rightarrow> n | HixieClosing n \<Rightarrow> n | HixieText _ n \<Rightarrow> n | HixieUnknown n \<Rightarrow> n
     | _ \<Rightarrow> 0)"

lemma parseFrameHixie76_append:
  "parseFrameHixie76 addr buffer \<noteq> HixieIncomplete \<Longrightarrow>
   parseFrameHixie76 addr (buffer @ rest) = parseFrameHixie76 addr buffer"
proof (cases buffer)
  case (Cons frameByte p)
  assume settled: "parseFrameHixie76 addr buffer \<noteq> HixieIncomplete"
  show ?thesis
  proof (cases "frameByte AND 0x80 = 0x80")
    case True
    then have "readLengthHixie76 p 0 0 \<noteq> LengthIncomplete"
      using settled Cons by (auto simp: parseFrameHixie76_def)
    then have "readLengthHixie76 (p @ rest) 0 0 = readLengthHixie76 p 0 0"
      by (rule readLengthHixie76_append)
    then show ?thesis using True settled Cons
      by (cases "readLengthHixie76 p 0 0") (auto simp: parseFrameHixie76_def Let_def split: if_splits)
  next
    case False
    then have "length (takeWhile (\<lambda>b. b \<noteq> 0xFF) p) < length p"
      using settled Cons by (auto simp: parseFrameHixie76_def Let_def split: if_splits)
    then have "takeWhile (\<lambda>b. b \<noteq> 0xFF) p \<noteq> p" by (metis less_irrefl)
    then have "0xFF \<in> set p" by (auto simp: takeWhile_eq_all_conv)
    then have "takeWhile (\<lambda>b. b \<noteq> 0xFF) (p @ rest) = takeWhile (\<lambda>b. b \<noteq> 0xFF) p"
      by (intro takeWhile_append1[of "0xFF"]) simp_all
    then show ?thesis using False settled Cons by (auto simp: parseFrameHixie76_def Let_def split: if_splits)
  qed
qed (simp add: parseFrameHixie76_def)

lemma parseFrameHixie76_bounds:
  "parseFrameHixie76 addr buffer = f \<Longrightarrow> f \<noteq> HixieIncomplete \<Longrightarrow> f \<noteq> HixieError \<Longrightarrow>
   0 < hixieLength f \<and> hixieLength f \<le> length buffer"
  by (auto simp: parseFrameHixie76_def hixieLength_def Let_def dest: readLengthHixie76_bound
      split: list.splits if_splits lengthResult.splits)

lemma parseFrameHixie76_sent:
  "0xFF \<notin> set data \<Longrightarrow>
   parseFrameHixie76 addr (sendFrameHixie76_bytes data @ rest) = HixieText data (length data + 2)"
  by (simp add: parseFrameHixie76_def sendFrameHixie76_bytes_def takeWhile_append)

end
