(* ===== verification/WS_Properties.thy ===== *)
theory WS_Properties
  imports WS_Handshake_Correct WS_Frame_Correct WTF_Properties
begin

section \<open>What the WebSocket codecs guarantee\<close>

text \<open>
  The frames and the handshake of the WebSocket implementation, as their callers use them.
\<close>

subsection \<open>A handshake to test with\<close>

definition asciiFold :: "uchar \<Rightarrow> uchar" where
  "asciiFold c = (if 0x41 \<le> c \<and> c \<le> 0x5A then c + 0x20 else c)"

definition exampleEnv :: handshakeEnv where
  "exampleEnv = \<lparr>he_foldCase = asciiFold, he_lower = map asciiFold, he_origin = us ''http://example.com'',
     he_cookie = [], he_bigEndian = False, he_iterate = (\<lambda>m. m)\<rparr>"

definition exampleURL :: handshakeURL where
  "exampleURL = \<lparr>u_path = us ''/chat'', u_query = None, u_host = us ''Example.com'', u_port = 0, u_isSecure = False\<rparr>"

text \<open>The value that the example expects for \<^verbatim>\<open>Sec-WebSocket-Accept\<close> is set here, not computed.\<close>

definition exampleHandshake :: handshake where
  "exampleHandshake = (emptyHandshake exampleURL [] False)\<lparr>hs_expectedAccept := us ''QVFJ''\<rparr>"

definition exampleAnswer :: "byte list" where
  "exampleAnswer = map (\<lambda>c. word_of_nat (of_char c)) ''HTTP/1.1 101 OK'' @ [0x0D, 0x0A] @
     map (\<lambda>c. word_of_nat (of_char c)) ''upgrade: WebSocket'' @ [0x0D, 0x0A] @
     map (\<lambda>c. word_of_nat (of_char c)) ''Connection: Upgrade'' @ [0x0D, 0x0A] @
     map (\<lambda>c. word_of_nat (of_char c)) ''Sec-WebSocket-Accept: QVFJ'' @ [0x0D, 0x0A, 0x0D, 0x0A, 0x81, 0x00]"


lemma example_connects:
  "case readServerHandshake exampleEnv exampleAnswer exampleHandshake of
     Inr (n, h) \<Rightarrow> n = 88 \<and> hs_mode h = Connected | Inl f \<Rightarrow> False"
  by code_simp

lemma example_connected:
  obtains h where "readServerHandshake exampleEnv exampleAnswer exampleHandshake = Inr (88, h)"
    and "hs_mode h = Connected"
  using example_connects by (auto split: sum.splits prod.splits)

subsection \<open>The handshake\<close>

lemma afterHeaders_range:
  assumes "length p + 2 \<le> length header" and "afterHeaders env header p h = (n, h')"
  shows "(n = -1 \<and> hs_mode h' = Incomplete) \<or>
    (0 < n \<and> n \<le> int (length header) \<and> hs_mode h' \<in> {Failed, Connected})"
  using assms
  by (auto simp: afterHeaders_def readChallengeResponse_def Let_def split: prod.splits bool.splits if_splits)

lemma readServerHandshake_read:
  assumes "readServerHandshake env header h = Inr (n, h')" and "n \<noteq> -1" and "hs_mode h' \<noteq> Failed"
  obtains p h3 where "clientPart h3 = clientPart (h\<lparr>hs_statusCode := 101\<rparr>)" and "afterHeaders env header p h3 = (n, h')"
proof -
  let ?rest = "drop (nat (sl_length (readStatusLine header))) header"
  obtain p h1 h3 where "readHTTPHeaders env ?rest h1 = HeadersRead p h3" "afterHeaders env header p h3 = (n, h')"
    and c: "clientPart h1 = clientPart (h\<lparr>hs_statusCode := 101\<rparr>)"
    using assms by (auto simp: readServerHandshake_def Let_def clientPart_def setMode_def split: if_splits headersResult.splits)
  then show ?thesis using headersLoop_keeps[of env ?rest] that c by (metis clientPart_updates(3) readHTTPHeaders_def)
qed

lemma readServerHandshake_range:
  assumes "readServerHandshake env header h = Inr (n, h')"
  shows "(n = -1 \<and> hs_mode h' = Incomplete) \<or>
    (0 < n \<and> n \<le> int (length header) \<and> hs_mode h' \<in> {Failed, Connected})"
proof -
  let ?line = "readStatusLine header"
  let ?rest = "drop (nat (sl_length ?line)) header"
  have len: "sl_length ?line \<noteq> -1 \<Longrightarrow> 0 < length header" using readStatusLine_length[of header] by linarith
  have "length p + 2 \<le> length header" if "readHTTPHeaders env ?rest g = HeadersRead p g'" for p g g'
    using headersLoop_suffix that unfolding readHTTPHeaders_def by fastforce
  then have "(n = -1 \<and> hs_mode h' = Incomplete) \<or>
      (0 < n \<and> n \<le> int (length header) \<and> hs_mode h' \<in> {Failed, Connected})"
    if "readHTTPHeaders env ?rest g = HeadersRead p g'" "afterHeaders env header p g' = (n, h')" for p g g'
    using that afterHeaders_range by blast
  then show ?thesis
    using assms len by (auto simp: readServerHandshake_def Let_def split: if_splits headersResult.splits)
qed

text \<open>
  C30. The scanner stays inside the buffer and always makes up its mind: it either asks for more
  data, or it has failed or connected and has consumed at least one and at most all of the
  bytes it was given. The assertion at the end of \<open>readHTTPHeaders\<close> is not reached: with a
  status line and a blank line in the buffer, the loop over the fields returns from inside.
\<close>

theorem readServerHandshake_consumes:
  assumes "readServerHandshake env header h = Inr (n, h')"
  shows "((n = -1 \<and> hs_mode h' = Incomplete) \<or>
     (0 < n \<and> n \<le> int (length header) \<and> hs_mode h' \<in> {Failed, Connected})) \<and>
    (strnstr_CRLFCRLF header \<longrightarrow> sl_statusCode (readStatusLine header) \<noteq> -1 \<longrightarrow>
     readHTTPHeaders env (drop (nat (sl_length (readStatusLine header))) header) h1 \<noteq> HeadersNotReached h2)"
proof (intro conjI impI)
  show "(n = -1 \<and> hs_mode h' = Incomplete) \<or>
      (0 < n \<and> n \<le> int (length header) \<and> hs_mode h' \<in> {Failed, Connected})"
    by (rule readServerHandshake_range[OF assms])
  assume "strnstr_CRLFCRLF header" "sl_statusCode (readStatusLine header) \<noteq> -1"
  then show "readHTTPHeaders env (drop (nat (sl_length (readStatusLine header))) header) h1 \<noteq> HeadersNotReached h2"
    unfolding readHTTPHeaders_def by (intro headersLoop_reached header_endsSomewhere)
qed

theorem readServerHandshake_consumes_witness:
  "\<exists>n h. readServerHandshake exampleEnv exampleAnswer exampleHandshake = Inr (n, h) \<and>
     0 < n \<and> n \<le> int (length exampleAnswer)"
proof -
  obtain h where h: "readServerHandshake exampleEnv exampleAnswer exampleHandshake = Inr (88, h)"
    by (rule example_connected)
  then show ?thesis using readServerHandshake_consumes[OF h] by auto
qed

text \<open>
  C13. A connection is only taken for established when the server has proved that it speaks the
  protocol: it has answered with status 101, \<^verbatim>\<open>Upgrade: websocket\<close> and \<^verbatim>\<open>Connection: Upgrade\<close>, and, for hybi-10, the
  accept key that belongs to the client's nonce or, for hixie-76, the client's origin and
  location and the sixteen bytes that answer the challenge.
\<close>

theorem readServerHandshake_connected:
  assumes "readServerHandshake env header h = Inr (n, h')" and "hs_mode h' = Connected"
  shows "hs_statusCode h' = 101 \<and>
    (\<exists>v. serverHeader env h' ''upgrade'' = Some v \<and> equalIgnoringCase env v (us ''websocket'')) \<and>
    (\<exists>v. serverHeader env h' ''connection'' = Some v \<and> equalIgnoringCase env v (us ''upgrade'')) \<and>
    (if hs_useHixie76Protocol h then
       serverHeader env h' ''sec-websocket-origin'' = Some (he_origin env) \<and>
       serverHeader env h' ''sec-websocket-location'' = Some (clientLocation env h) \<and>
       hs_challengeResponse h' = hs_hixie76ExpectedChallengeResponse h
     else serverHeader env h' ''sec-websocket-accept'' = Some (hs_expectedAccept h))"
proof -
  have "n \<noteq> -1" using readServerHandshake_range[OF assms(1)] assms(2) by auto
  then obtain p h3 where c3: "clientPart h3 = clientPart (h\<lparr>hs_statusCode := 101\<rparr>)" and a: "afterHeaders env header p h3 = (n, h')"
    using assms by (elim readServerHandshake_read) simp_all
  obtain h4 where c: "checkResponseHeaders env h3 = (True, h4)"
    using a assms(2) by (auto simp: afterHeaders_def split: prod.splits bool.splits)
  note t = checkResponseHeaders_True[OF c]
  have "serverHeader env h' = serverHeader env h3" "clientPart h' = clientPart h3"
    "hs_useHixie76Protocol h3 \<Longrightarrow> hs_challengeResponse h' = hs_hixie76ExpectedChallengeResponse h3"
    using a c t(1) assms(2)
    by (auto simp: afterHeaders_def readChallengeResponse_def Let_def serverHeader_def clientPart_def setMode_def
        fun_eq_iff split: if_splits)
  then show ?thesis using t(2-5) c3 by (auto simp: clientPart_def clientLocation_def)
qed

theorem readServerHandshake_connected_witness:
  "\<exists>n h. readServerHandshake exampleEnv exampleAnswer exampleHandshake = Inr (n, h) \<and>
     hs_statusCode h = 101 \<and> serverHeader exampleEnv h ''sec-websocket-accept'' = Some (us ''QVFJ'')"
proof -
  obtain h where h: "readServerHandshake exampleEnv exampleAnswer exampleHandshake = Inr (88, h)" "hs_mode h = Connected"
    by (rule example_connected)
  have "\<not> hs_useHixie76Protocol exampleHandshake" "hs_expectedAccept exampleHandshake = us ''QVFJ''"
    by (simp_all add: exampleHandshake_def emptyHandshake_def)
  then show ?thesis using h readServerHandshake_connected[OF h] by auto
qed

text \<open>
  The limit on the length of the status line does not bound what is buffered: as long as
  neither a newline nor a null byte arrives, the scanner asks for more, whatever the size of
  the buffer. The comment in \<open>readStatusLine\<close> says that the limit is there to prevent this.
\<close>

lemma status_line_unbounded:
  assumes "0x0A \<notin> set header" and "0 \<notin> set header"
  shows "\<exists>h'. readServerHandshake env header h = Inr (-1, h') \<and> hs_mode h' = Incomplete"
proof -
  have "sl_length (readStatusLine header) = -1"
    using scanStatusLine_unterminated[OF assms] by (simp add: readStatusLine_def badStatusLine_def)
  then show ?thesis by (simp add: readServerHandshake_def Let_def)
qed

lemma status_line_unbounded_witness:
  "\<exists>h'. readServerHandshake exampleEnv (replicate 5000 0x41) exampleHandshake = Inr (-1, h') \<and> hs_mode h' = Incomplete"
  by (rule status_line_unbounded) simp_all

text \<open>
  A header field with an empty value is refused with a message about UTF-8: the vector of the
  value has no storage, and \<open>String::fromUTF8\<close> of a null pointer is the null string.
\<close>

lemma empty_header_value_refused:
  assumes "fromUTF8 (vectorData name) = Inr (Some n)"
  shows "endOfHeader env name [] (0x0A # p) h = Inr (False, failWith (us ''Invalid UTF-8 sequence in header value'') h)"
  using assms by (simp add: endOfHeader_def vectorData_def fromUTF8_def)

subsection \<open>Frames\<close>

text \<open>
  C16. A frame that \<open>sendFrame\<close> writes, with any four-bit opcode, masking key and payload of less than \<open>2 ^ 63\<close> bytes,
  is read by \<open>parseFrame\<close> as exactly that frame, final and without reserved bits, with the payload
  unmasked, whatever follows it in the buffer; and for every proper prefix of it \<open>parseFrame\<close> asks for more data.
\<close>

theorem frame_round_trip:
  assumes "opCode < 16" and "length maskingKey = 4" and "length data < 2 ^ 63"
  shows "(\<exists>buffer'. parseFrame (sendFrame_bytes opCode maskingKey data @ rest) =
    (FrameOK \<lparr>fr_opCode = opCode, fr_final = True, fr_reserved1 = False, fr_reserved2 = False, fr_reserved3 = False,
       fr_masked = True, fr_payload = data, fr_frameEnd = length (sendFrame_bytes opCode maskingKey data)\<rparr>, buffer')) \<and>
    (\<forall>n < length (sendFrame_bytes opCode maskingKey data).
       fst (parseFrame (take n (sendFrame_bytes opCode maskingKey data))) = FrameIncomplete)"
  using parseFrame_sent[OF assms, of rest] parseFrame_prefix[OF assms]
  by (cases "parseFrame (sendFrame_bytes opCode maskingKey data @ rest)") (simp add: sentFrame_def)

theorem frame_round_trip_witness:
  "(\<exists>buffer'. parseFrame (sendFrame_bytes OpCodeText [1, 2, 3, 4] [0x48, 0x69] @ [0x81]) =
    (FrameOK \<lparr>fr_opCode = OpCodeText, fr_final = True, fr_reserved1 = False, fr_reserved2 = False, fr_reserved3 = False,
       fr_masked = True, fr_payload = [0x48, 0x69],
       fr_frameEnd = length (sendFrame_bytes OpCodeText [1, 2, 3, 4] [0x48, 0x69])\<rparr>, buffer')) \<and>
   fst (parseFrame (take 7 (sendFrame_bytes OpCodeText [1, 2, 3, 4] [0x48, 0x69]))) = FrameIncomplete"
proof -
  have "OpCodeText < 16" "length [1, 2, 3, 4 :: byte] = 4" "length [0x48, 0x69 :: byte] < 2 ^ 63" by (simp_all add: opCodes)
  moreover have "7 < length (sendFrame_bytes OpCodeText [1, 2, 3, 4] [0x48, 0x69])" by code_simp
  ultimately show ?thesis using frame_round_trip[of OpCodeText "[1, 2, 3, 4]" "[0x48, 0x69]" "[0x81]"] by blast
qed

end
