(* ===== verification/WS_Handshake_Key.thy ===== *)
theory WS_Handshake_Key
  imports WS_Handshake WTF_UTF8_Correct
begin

section \<open>The keys of the hixie-76 handshake\<close>

text \<open>
  The server recovers the number behind a key: it reads the digits of the key as a decimal
  number and divides it by the number of spaces.
\<close>

definition isDigitUnit :: "uchar \<Rightarrow> bool" where
  "isDigitUnit c \<longleftrightarrow> 0x30 \<le> c \<and> c \<le> 0x39"

definition digitsValue :: "ustring \<Rightarrow> nat" where
  "digitsValue s = foldl (\<lambda>v c. v * 10 + (unat c - 0x30)) 0 (filter isDigitUnit s)"

definition spaces :: "ustring \<Rightarrow> nat" where
  "spaces s = length (filter (\<lambda>c. c = 0x20) s)"

subsection \<open>Random numbers\<close>

lemma randomLoop_less: "randomLoop limit random = Some (v, random') \<Longrightarrow> v < limit"
  by (induction limit random rule: randomLoop.induct) (auto split: if_splits)

lemma unat_mod_less: "n \<noteq> 0 \<Longrightarrow> unat (v mod n :: uint32) < unat n"
  by (simp add: unat_mod unat_gt_0)

lemma randomNumberLessThan_less:
  assumes "randomNumberLessThan n random = Some (v, random')" and "n \<noteq> 0" and "n \<noteq> 0xFFFFFFFF"
  shows "unat v < unat n"
  using assms unat_mod_less[OF assms(2)]
  by (auto simp: randomNumberLessThan_def split: option.splits prod.splits)

subsection \<open>Decimal digits\<close>

lemma unat_digit: "k < 10 \<Longrightarrow> unat (word_of_nat (k + 0x30) :: uchar) = k + 0x30"
  by (rule unat_of_nat_uchar) simp

lemma unat_of_nat_uint32: "n \<le> 0xFFFFFFFF \<Longrightarrow> unat (word_of_nat n :: uint32) = n"
  by (simp add: unat_of_nat take_bit_nat_eq_self)

lemma isDigitUnit_digit: "k < 10 \<Longrightarrow> isDigitUnit (word_of_nat (k + 0x30))"
  using unat_digit[of k] by (simp add: isDigitUnit_def word_le_nat_alt del: of_nat_add)

lemma showNat_digits: "\<forall>c \<in> set (showNat n). isDigitUnit c"
proof (induction n rule: showNat.induct)
  case (1 n)
  show ?case
  proof (cases "n < 10")
    case True
    then show ?thesis using isDigitUnit_digit[of n] by (subst showNat.simps) simp
  next
    case False
    then show ?thesis using 1 isDigitUnit_digit[of "n mod 10"] by (subst showNat.simps) auto
  qed
qed

lemma showNat_value: "foldl (\<lambda>v c. v * 10 + (unat c - 0x30)) 0 (showNat n) = n"
proof (induction n rule: showNat.induct)
  case (1 n)
  show ?case
  proof (cases "n < 10")
    case True
    then show ?thesis using unat_digit[of n] by (subst showNat.simps) (simp del: of_nat_add)
  next
    case False
    then show ?thesis using 1 unat_digit[of "n mod 10"] by (subst showNat.simps) (simp del: of_nat_add)
  qed
qed

lemma showNat_nonempty: "showNat n \<noteq> []"
  by (subst showNat.simps) simp

lemma digit_not_space: "isDigitUnit c \<Longrightarrow> c \<noteq> 0x20"
  by (auto simp: isDigitUnit_def)

subsection \<open>Insertion\<close>

lemma filter_insert: "\<not> P c \<Longrightarrow> filter P (string_insert [c] pos s) = filter P s"
proof -
  assume "\<not> P c"
  moreover have "filter P (take pos s) @ filter P (drop pos s) = filter P s"
    by (metis append_take_drop_id filter_append)
  ultimately show ?thesis by (simp add: string_insert_def)
qed

lemma spaces_insert: "spaces (string_insert [0x20] pos s) = Suc (spaces s)"
proof -
  have "length (filter (\<lambda>c. c = 0x20) (take pos s)) + length (filter (\<lambda>c. c = 0x20) (drop pos s)) = spaces s"
    unfolding spaces_def by (metis append_take_drop_id filter_append length_append)
  then show ?thesis by (auto simp: string_insert_def spaces_def)
qed

lemma length_insert [simp]: "length (string_insert t pos s) = length t + length s"
  by (simp add: string_insert_def)

lemma ends_insert:
  assumes "0 < pos" and "pos < length s"
  shows "hd (string_insert [c] pos s) = hd s" and "last (string_insert [c] pos s) = last s"
  using assms by (auto simp: string_insert_def hd_append hd_take)

lemma randomCharacter:
  assumes "c \<in> set randomCharacterInSecWebSocketKey"
  shows "\<not> isDigitUnit c" and "c \<noteq> 0x20"
proof -
  obtain k where "k \<in> set ([0x21..<0x30] @ [0x3A..<0x7F])" "c = word_of_nat k"
    using assms unfolding randomCharacterInSecWebSocketKey_def set_map by blast
  then have k: "c = word_of_nat k" "0x21 \<le> k" "k < 0x7F" "\<not> (0x30 \<le> k \<and> k < 0x3A)"
    unfolding set_append set_upt by auto
  then have "unat c = k" using unat_of_nat_uchar[of k] by simp
  then show "\<not> isDigitUnit c" "c \<noteq> 0x20" using k by (auto simp: isDigitUnit_def word_le_nat_alt)
qed

lemma insertRandomCharacters_keeps:
  assumes "insertRandomCharacters n s random = Some (s', random')"
  shows "filter isDigitUnit s' = filter isDigitUnit s \<and> filter (\<lambda>c. c = 0x20) s' = filter (\<lambda>c. c = 0x20) s \<and>
    length s' = length s + n"
  using assms
proof (induction n s random rule: insertRandomCharacters.induct)
  case (2 n s random)
  obtain pos random1 chpos random2 where r: "randomNumberLessThan (word_of_nat (length s + 1)) random = Some (pos, random1)"
    "randomNumberLessThan (word_of_nat (length randomCharacterInSecWebSocketKey)) random1 = Some (chpos, random2)"
    "insertRandomCharacters n (string_insert [randomCharacterInSecWebSocketKey ! unat chpos] (unat pos) s) random2 = Some (s', random')"
    using "2.prems" by (auto split: bind_splits)
  have l: "length randomCharacterInSecWebSocketKey = 84" by (simp add: randomCharacterInSecWebSocketKey_def)
  then have "unat chpos < 84" using randomNumberLessThan_less[OF r(2)] by simp
  then have "randomCharacterInSecWebSocketKey ! unat chpos \<in> set randomCharacterInSecWebSocketKey" using l by simp
  note c = randomCharacter[OF this]
  show ?case using "2.IH"[OF r(1) refl r(2) refl r(3)] c by (simp add: filter_insert)
qed simp

lemma insertSpaces_keeps:
  assumes "insertSpaces n s random = Some (s', random')" and "2 \<le> length s" and "length s + n < 0xFFFFFFFF"
  shows "filter isDigitUnit s' = filter isDigitUnit s \<and> spaces s' = spaces s + n \<and> hd s' = hd s \<and> last s' = last s"
  using assms
proof (induction n s random rule: insertSpaces.induct)
  case (2 n s random)
  obtain pos random1 where r: "randomNumberLessThan (word_of_nat (length s - 1)) random = Some (pos, random1)"
    "insertSpaces n (string_insert [0x20] (unat pos + 1) s) random1 = Some (s', random')"
    using "2.prems"(1) by (auto split: bind_splits)
  have u: "unat (word_of_nat (length s - 1) :: uint32) = length s - 1"
    using "2.prems" by (intro unat_of_nat_uint32) simp
  then have "(word_of_nat (length s - 1) :: uint32) \<noteq> 0" "(word_of_nat (length s - 1) :: uint32) \<noteq> 0xFFFFFFFF"
    using "2.prems" by (auto simp: word_unat_eq_iff)
  then have pos: "unat pos + 1 < length s" using randomNumberLessThan_less[OF r(1)] u by linarith
  have "\<not> isDigitUnit 0x20" by (simp add: isDigitUnit_def)
  then show ?case
    using "2.IH"[OF r(1) refl r(2)] "2.prems" pos ends_insert[of "unat pos + 1" s "0x20"]
    by (simp add: filter_insert spaces_insert)
qed simp

lemma length_showNat: "n < 10 ^ Suc k \<Longrightarrow> length (showNat n) \<le> Suc k"
proof (induction k arbitrary: n)
  case 0
  then show ?case by (subst showNat.simps) simp
next
  case (Suc k)
  then have "length (showNat (n div 10)) \<le> Suc k" by (intro Suc.IH) (simp add: less_mult_imp_div_less mult.commute)
  then show ?case by (subst showNat.simps) simp
qed

lemma product_exact:
  assumes "randomNumberLessThan (4294967295 div space) random = Some (number, random')"
    and "0 < unat space" and "unat space \<le> 12"
  shows "unat (number * space) = unat number * unat space"
proof -
  have l: "unat (4294967295 div space :: uint32) = 4294967295 div unat space" by (simp add: unat_div)
  have "1 \<le> 4294967295 div unat space" using assms(2,3) by (simp add: Suc_le_eq div_greater_zero_iff)
  then have nz: "4294967295 div space \<noteq> (0 :: uint32)" using l by (metis not_one_le_zero unat_0)
  have "unat number * unat space \<le> 4294967295"
  proof (cases "4294967295 div space = (0xFFFFFFFF :: uint32)")
    case True
    then have "4294967295 div unat space = 4294967295" using l by simp
    then have "unat space = 1" using assms(2) by (metis div_less_dividend less_irrefl nat_neq_iff less_one zero_less_numeral)
    moreover have "unat number < 2 ^ LENGTH(32)" by (rule unsigned_less)
    ultimately show ?thesis by simp
  next
    case False
    have "unat number < 4294967295 div unat space" using randomNumberLessThan_less[OF assms(1) nz False] l by simp
    then have "unat number * unat space \<le> 4294967295 div unat space * unat space" by simp
    then show ?thesis using div_times_less_eq_dividend[of 4294967295 "unat space"] by linarith
  qed
  then show ?thesis by (simp add: unat_word_ariths)
qed

text \<open>
  C33. A key of the hixie-76 handshake carries its number: the decimal number formed by the
  digits of the key is the number times the count of spaces, without overflow, so that
  dividing gives the number back; there is at least one space, and none at either end.
\<close>

theorem hixie76_key_carries_number:
  assumes "generateHixie76SecWebSocketKey random = Some (number, key, random')"
  shows "0 < spaces key \<and> digitsValue key = unat number * spaces key \<and>
    digitsValue key div spaces key = unat number \<and> hd key \<noteq> 0x20 \<and> last key \<noteq> 0x20"
proof -
  obtain space0 random1 random2 n random3 t random4 random5 where
    r0: "randomNumberLessThan 12 random = Some (space0, random1)" and
    r1: "randomNumberLessThan (4294967295 div (space0 + 1)) random1 = Some (number, random2)" and
    r2: "randomNumberLessThan 12 random2 = Some (n, random3)" and
    r3: "insertRandomCharacters (unat (n + 1)) (showNat (unat (number * (space0 + 1)))) random3 = Some (t, random4)" and
    r4: "insertSpaces (unat (space0 + 1)) t random4 = Some (key, random5)"
    using assms by (auto simp: generateHixie76SecWebSocketKey_def Let_def split: bind_splits)
  have small: "unat (v + 1) = unat v + 1" "unat v < 12" if "randomNumberLessThan 12 x = Some (v, y)" for v x y
    using randomNumberLessThan_less[OF that] by (simp_all add: unat_word_ariths)
  let ?sp = "unat (space0 + 1)" and ?p = "unat number * unat (space0 + 1)"
  have sp: "0 < ?sp" "?sp \<le> 12" and cn: "0 < unat (n + 1)" "unat (n + 1) \<le> 12"
    using small[OF r0] small[OF r2] by simp_all
  have p: "unat (number * (space0 + 1)) = ?p" by (rule product_exact[OF r1 sp])
  have t: "filter isDigitUnit t = showNat ?p" "filter (\<lambda>c. c = 0x20) t = []" "length t = length (showNat ?p) + unat (n + 1)"
    using insertRandomCharacters_keeps[OF r3] showNat_digits[of ?p] digit_not_space unfolding p
    by (auto simp: filter_id_conv filter_empty_conv)
  have "?p < 10 ^ Suc 9" using p unsigned_less[of "number * (space0 + 1)", where ?'a = nat] by simp
  then have "length (showNat ?p) \<le> 10" using length_showNat[of ?p 9] by simp
  moreover have "0 < length (showNat ?p)" using showNat_nonempty by simp
  ultimately have "2 \<le> length t" "length t + ?sp < 0xFFFFFFFF" using t(3) cn sp by linarith+
  moreover have "spaces t = 0" using t(2) by (simp add: spaces_def)
  ultimately have k: "filter isDigitUnit key = showNat ?p" "spaces key = ?sp" "hd key = hd t" "last key = last t"
    using insertSpaces_keeps[OF r4] t(1) by simp_all
  have "t \<noteq> []" using t(3) cn by auto
  then have "hd t \<in> set t" "last t \<in> set t" by simp_all
  then have "hd key \<noteq> 0x20" "last key \<noteq> 0x20" using k(3,4) t(2) by (auto simp: filter_empty_conv)
  moreover have "digitsValue key = ?p" unfolding digitsValue_def k(1) by (rule showNat_value)
  ultimately show ?thesis using k(2) sp by simp
qed

text \<open>
  Six zeros from the random source make a key: one space, the number 0 and one random
  character, at the front.
\<close>

theorem hixie76_key_carries_number_witness:
  "\<exists>number key random'. generateHixie76SecWebSocketKey [0, 0, 0, 0, 0, 0] = Some (number, key, random') \<and>
     digitsValue key div spaces key = unat number"
proof -
  have "generateHixie76SecWebSocketKey [0, 0, 0, 0, 0, 0] = Some (0, [0x21, 0x20, 0x30], [])"
    by (simp add: generateHixie76SecWebSocketKey_def randomNumberLessThan_def randomCharacterInSecWebSocketKey_def
        string_insert_def showNat.simps)
  then show ?thesis using hixie76_key_carries_number by blast
qed

end
