(* ===== verification/WTF_SHA1_Correct.thy ===== *)
theory WTF_SHA1_Correct
  imports WTF_SHA1
begin

unbundle bit_operations_syntax

section \<open>SHA-1 computes the digest of RFC 3174\<close>

text \<open>
  Rotation by shifts, the expansion of a block in place, the eighty rounds, the buffer and the
  padding, each against its definition in the RFC.
\<close>

subsection \<open>One block\<close>

lemma rotateLeft_rotl: "0 < n \<Longrightarrow> n < 32 \<Longrightarrow> rotateLeft n x = word_rotl n x"
  by (simp add: rotateLeft_def shifts_rotl)

lemma bigEndianWord_rfc3174:
  assumes "length block = 64" and "t < 16"
  shows "bigEndianWord block t = rfc3174_W block t"
proof -
  have "take 4 (drop (4 * t) block) = [block ! (t * 4), block ! (t * 4 + 1), block ! (t * 4 + 2), block ! (t * 4 + 3)]"
    using assms by (intro nth_equalityI) (auto simp: less_Suc_eq eval_nat_numeral mult.commute)
  then show ?thesis
    using assms(2) by (subst rfc3174_W.simps) (simp add: bigEndianWord_def word_of_bytes)
qed

lemma fill_words: "n \<le> length w \<Longrightarrow> fold (\<lambda>t w. w[t := f t]) [0..<n] w = map f [0..<n] @ drop n w"
proof (induction n)
  case (Suc n)
  then show ?case by (simp add: list_update_append Cons_nth_drop_Suc[symmetric])
qed simp

lemma fill_words_nth:
  assumes "n \<le> length w"
  shows "length (fold (\<lambda>t w. w[t := f t]) [0..<n] w) = length w"
    and "t < n \<Longrightarrow> fold (\<lambda>t w. w[t := f t]) [0..<n] w ! t = f t"
  using assms by (simp_all add: fill_words nth_append)

lemma expand_words:
  assumes "length w = 80" and "\<And>t. t < 16 \<Longrightarrow> w ! t = rfc3174_W block t" and "16 \<le> n" and "n \<le> 80"
  defines "x \<equiv> fold (\<lambda>t w. w[t := rotateLeft 1 (w ! (t - 3) XOR w ! (t - 8) XOR w ! (t - 14) XOR w ! (t - 16))]) [16..<n] w"
  shows "length x = 80 \<and> (\<forall>t < n. x ! t = rfc3174_W block t)"
  using assms(3,4) unfolding x_def
proof (induction n rule: dec_induct)
  case base
  then show ?case using assms(1,2) by simp
next
  case (step n)
  define y where "y = fold (\<lambda>t w. w[t := rotateLeft 1 (w ! (t - 3) XOR w ! (t - 8) XOR w ! (t - 14) XOR w ! (t - 16))]) [16..<n] w"
  have y: "length y = 80" "\<And>t. t < n \<Longrightarrow> y ! t = rfc3174_W block t" using step y_def by simp_all
  have "rfc3174_W block n = rotateLeft 1 (y ! (n - 3) XOR y ! (n - 8) XOR y ! (n - 14) XOR y ! (n - 16))"
    using step(1) y(2) by (subst rfc3174_W.simps) (simp add: rotateLeft_rotl)
  then have "y[n := rotateLeft 1 (y ! (n - 3) XOR y ! (n - 8) XOR y ! (n - 14) XOR y ! (n - 16))] ! t = rfc3174_W block t"
    if "t < Suc n" for t
    using that y step by (cases "t = n") simp_all
  then show ?case using step(1) y(1) y_def by simp
qed

lemma sha1_expand_rfc3174:
  assumes "length block = 64" and "t < 80"
  shows "sha1_expand block ! t = rfc3174_W block t"
proof -
  let ?w = "fold (\<lambda>t w. w[t := bigEndianWord block t]) [0..<16] (replicate 80 0)"
  have l: "length ?w = 80" by (subst fill_words_nth(1)) simp_all
  have w: "?w ! u = rfc3174_W block u" if "u < 16" for u
    using that assms(1) by (subst fill_words_nth(2)) (simp_all add: bigEndianWord_rfc3174)
  have "16 \<le> (80 :: nat)" "80 \<le> (80 :: nat)" by simp_all
  from expand_words[OF l w this] show ?thesis unfolding sha1_expand_def using assms(2) by blast
qed

lemma length_rfc3174_state: "length h = 5 \<Longrightarrow> length (rfc3174_state h block t) = 5"
  by (induction t) (simp_all add: Let_def)

lemma round_constants:
  assumes "t < 80"
  shows "sha1_f t b c d = rfc3174_f t b c d" and "sha1_k t = rfc3174_K t"
proof -
  show "sha1_f t b c d = rfc3174_f t b c d" by (simp add: sha1_f_def rfc3174_f_def)
  consider "t div 20 = 0" "t < 20" | "t div 20 = 1" "20 \<le> t" "t < 40" | "t div 20 = 2" "40 \<le> t" "t < 60" | "t div 20 = 3" "60 \<le> t"
    using assms by linarith
  then show "sha1_k t = rfc3174_K t" by cases (simp_all add: sha1_k_def rfc3174_K_def)
qed

lemma rounds:
  assumes "\<And>t. t < n \<Longrightarrow> w ! t = rfc3174_W block t" and "n \<le> 80" and "length h = 5"
  shows "fold (sha1_round w) [0..<n] (h ! 0, h ! 1, h ! 2, h ! 3, h ! 4) =
    (let r = rfc3174_state h block n in (r ! 0, r ! 1, r ! 2, r ! 3, r ! 4))"
  using assms(1,2)
proof (induction n)
  case (Suc n)
  then show ?case using round_constants[of n] by (simp add: sha1_round_def rotateLeft_rotl Let_def)
qed simp

lemma length_rfc3174_compress: "length h = 5 \<Longrightarrow> length (rfc3174_compress h block) = 5"
  by (simp add: rfc3174_compress_def length_rfc3174_state)

lemma list5: "length h = 5 \<Longrightarrow> h = [h ! 0, h ! 1, h ! 2, h ! 3, h ! 4]"
  by (intro nth_equalityI) (auto simp: less_Suc_eq eval_nat_numeral)

lemma sha1_processBlock_eq:
  assumes "length (sh_buffer s) = 64" and "length (sh_hash s) = 5"
  shows "sha1_processBlock s = s\<lparr>sh_hash := rfc3174_compress (sh_hash s) (sh_buffer s), sh_cursor := 0\<rparr>"
proof -
  let ?r = "rfc3174_state (sh_hash s) (sh_buffer s) 80"
  have "rfc3174_compress (sh_hash s) (sh_buffer s) = map2 (+) [sh_hash s ! 0, sh_hash s ! 1, sh_hash s ! 2, sh_hash s ! 3, sh_hash s ! 4]
      [?r ! 0, ?r ! 1, ?r ! 2, ?r ! 3, ?r ! 4]"
    unfolding rfc3174_compress_def using list5[OF assms(2)] list5[OF length_rfc3174_state[OF assms(2)]] by metis
  then show ?thesis
    using rounds[of 80 "sha1_expand (sh_buffer s)" "sh_buffer s" "sh_hash s"] sha1_expand_rfc3174 assms
    by (simp add: sha1_processBlock_def Let_def)
qed

subsection \<open>The buffer\<close>

definition sha1_ready :: "sha1 \<Rightarrow> bool" where
  "sha1_ready s \<longleftrightarrow> length (sh_buffer s) = 64 \<and> sh_cursor s < 64 \<and> length (sh_hash s) = 5"

definition sha1_pending :: "sha1 \<Rightarrow> byte list" where
  "sha1_pending s = take (sh_cursor s) (sh_buffer s)"

lemma sha1_addByte_spec:
  assumes "sha1_ready s"
  shows "sha1_ready (sha1_addByte b s)"
    and "sh_hash (sha1_addByte b s) = foldl rfc3174_compress (sh_hash s) (blocks (sha1_pending s @ [b]))"
    and "sha1_pending (sha1_addByte b s) = unfinished (sha1_pending s @ [b])"
    and "sh_totalBytes (sha1_addByte b s) = sh_totalBytes s + 1"
proof -
  let ?s = "s\<lparr>sh_buffer := (sh_buffer s)[sh_cursor s := b], sh_cursor := sh_cursor s + 1, sh_totalBytes := sh_totalBytes s + 1\<rparr>"
  have p: "take (Suc (sh_cursor s)) ((sh_buffer s)[sh_cursor s := b]) = sha1_pending s @ [b]"
    using assms by (simp add: sha1_ready_def sha1_pending_def take_update)
  have "sha1_ready (sha1_addByte b s) \<and>
    sh_hash (sha1_addByte b s) = foldl rfc3174_compress (sh_hash s) (blocks (sha1_pending s @ [b])) \<and>
    sha1_pending (sha1_addByte b s) = unfinished (sha1_pending s @ [b]) \<and>
    sh_totalBytes (sha1_addByte b s) = sh_totalBytes s + 1"
  proof (cases "sh_cursor s = 63")
    case True
    then have "(sh_buffer s)[sh_cursor s := b] = sha1_pending s @ [b]" using p assms by (simp add: sha1_ready_def)
    moreover have "length (sha1_pending s @ [b]) = 64" using True assms by (simp add: sha1_ready_def sha1_pending_def)
    ultimately show ?thesis
      using True assms sha1_processBlock_eq[of ?s] blocks_block[of "sha1_pending s @ [b]" "[]"]
        unfinished_block[of "sha1_pending s @ [b]" "[]"]
      by (simp add: sha1_addByte_def sha1_ready_def length_rfc3174_compress sha1_pending_def[of "_\<lparr>sh_cursor := 0\<rparr>"])
  next
    case False
    moreover have "length (sha1_pending s @ [b]) < 64" using False assms by (simp add: sha1_ready_def sha1_pending_def)
    moreover have "sha1_pending ?s = sha1_pending s @ [b]" unfolding sha1_pending_def[of ?s] using p by simp
    ultimately show ?thesis using assms by (simp add: sha1_addByte_def sha1_ready_def)
  qed
  then show "sha1_ready (sha1_addByte b s)"
    and "sh_hash (sha1_addByte b s) = foldl rfc3174_compress (sh_hash s) (blocks (sha1_pending s @ [b]))"
    and "sha1_pending (sha1_addByte b s) = unfinished (sha1_pending s @ [b])"
    and "sh_totalBytes (sha1_addByte b s) = sh_totalBytes s + 1" by simp_all
qed

lemma sha1_addBytes_spec:
  assumes "sha1_ready s"
  shows "sha1_ready (sha1_addBytes xs s)"
    and "sh_hash (sha1_addBytes xs s) = foldl rfc3174_compress (sh_hash s) (blocks (sha1_pending s @ xs))"
    and "sha1_pending (sha1_addBytes xs s) = unfinished (sha1_pending s @ xs)"
    and "sh_totalBytes (sha1_addBytes xs s) = sh_totalBytes s + word_of_nat (length xs)"
proof -
  have "sha1_ready (sha1_addBytes xs s) \<and>
    sh_hash (sha1_addBytes xs s) = foldl rfc3174_compress (sh_hash s) (blocks (sha1_pending s @ xs)) \<and>
    sha1_pending (sha1_addBytes xs s) = unfinished (sha1_pending s @ xs) \<and>
    sh_totalBytes (sha1_addBytes xs s) = sh_totalBytes s + word_of_nat (length xs)"
  proof (induction xs rule: rev_induct)
    case Nil
    then show ?case using assms by (simp add: sha1_addBytes_def sha1_pending_def sha1_ready_def)
  next
    case (snoc x xs)
    then have "sha1_addBytes (xs @ [x]) s = sha1_addByte x (sha1_addBytes xs s)" by (simp add: sha1_addBytes_def)
    then show ?case
      using snoc sha1_addByte_spec[of "sha1_addBytes xs s" x] blocks_append[of "sha1_pending s @ xs" "[x]"]
        unfinished_append[of "sha1_pending s @ xs" "[x]"]
      by simp
  qed
  then show "sha1_ready (sha1_addBytes xs s)"
    and "sh_hash (sha1_addBytes xs s) = foldl rfc3174_compress (sh_hash s) (blocks (sha1_pending s @ xs))"
    and "sha1_pending (sha1_addBytes xs s) = unfinished (sha1_pending s @ xs)"
    and "sh_totalBytes (sha1_addBytes xs s) = sh_totalBytes s + word_of_nat (length xs)" by simp_all
qed

subsection \<open>The padding\<close>

lemma zeroRange_eq:
  assumes "from \<le> to" and "to \<le> length b"
  shows "zeroRange from to b = take from b @ replicate (to - from) 0 @ drop to b"
  using assms unfolding zeroRange_def
proof (induction to rule: dec_induct)
  case (step n)
  have "drop n b = b ! n # drop (Suc n) b" using step by (simp add: Cons_nth_drop_Suc)
  then show ?case using step by (simp add: list_update_append Suc_diff_le replicate_append_same[symmetric])
qed simp

lemma rfc3174_bytes_Suc:
  fixes v :: "'a::len word"
  shows "rfc3174_bytes (Suc n) v = rfc3174_bytes n (drop_bit 8 v) @ [ucast v]"
proof -
  have "unat v div 256 ^ Suc i = unat (drop_bit 8 v) div 256 ^ i" for i
    unfolding unat_drop_bit_div by (simp add: div_mult2_eq)
  then have "rfc3174_bytes n (drop_bit 8 v) = map (\<lambda>i. word_of_nat (unat v div 256 ^ Suc i)) (rev [0..<n])"
    unfolding rfc3174_bytes_def by simp
  moreover have "[0..<Suc n] = 0 # map Suc [0..<n]" by (simp add: map_Suc_upt upt_conv_Cons del: upt_Suc)
  then have "rev [0..<Suc n] = map Suc (rev [0..<n]) @ [0]" by (simp add: rev_map del: upt_Suc)
  ultimately show ?thesis by (simp add: rfc3174_bytes_def of_nat_unat o_def del: upt_Suc)
qed

lemma bigEndianBytes_rfc3174: "bigEndianBytes n v after = rfc3174_bytes n v @ after"
proof (induction n v after rule: bigEndianBytes.induct)
  case (2 n v after)
  have "v AND 0xFF = take_bit 8 v" by (simp add: take_bit_eq_mask mask_eq_exp_minus_1)
  then have "(ucast (v AND 0xFF) :: byte) = ucast v" by (simp add: bit_word_eqI bit_simps)
  with 2 show ?case by (simp add: rfc3174_bytes_Suc)
qed (simp add: rfc3174_bytes_def)

lemma length_rfc3174_bytes [simp]: "length (rfc3174_bytes n v) = n"
  by (simp add: rfc3174_bytes_def)

lemma sha1_output_rfc3174:
  assumes "length h = 5"
  shows "sha1_output h = concat (map (rfc3174_bytes 4) h)"
proof -
  have "map (\<lambda>i. rfc3174_bytes 4 (h ! i)) [0..<5] = map (rfc3174_bytes 4) h"
    using assms by (intro nth_equalityI) simp_all
  then show ?thesis by (simp add: sha1_output_def bigEndianBytes_rfc3174)
qed

lemma length_fold_compress: "length h = 5 \<Longrightarrow> length (foldl rfc3174_compress h bs) = 5"
  by (induction bs arbitrary: h) (simp_all add: length_rfc3174_compress)

lemma sha1_finalize_spec:
  assumes "sha1_ready s"
  shows "sh_hash (sha1_finalize s) = foldl rfc3174_compress (sh_hash s)
    (blocks (sha1_pending s @ padding (rfc3174_bytes 8) (length (sha1_pending s)) (8 * sh_totalBytes s)))"
proof -
  let ?n = "sh_cursor s" and ?l = "rfc3174_bytes 8 (8 * sh_totalBytes s)" and ?p = "sha1_pending s"
  let ?s = "s\<lparr>sh_buffer := (sh_buffer s)[?n := 0x80], sh_cursor := ?n + 1\<rparr>"
  have r: "length (sh_buffer s) = 64" "?n < 64" "length (sh_hash s) = 5" using assms by (simp_all add: sha1_ready_def)
  have p: "take (Suc ?n) ((sh_buffer s)[?n := 0x80]) = ?p @ [0x80]" "length ?p = ?n"
    using r by (simp_all add: sha1_pending_def take_update)
  show ?thesis
  proof (cases "?n \<le> 55")
    case True
    let ?b = "?p @ 0x80 # replicate (55 - ?n) 0 @ ?l"
    have "take 56 (zeroRange (Suc ?n) 56 ((sh_buffer s)[?n := 0x80])) @ ?l = ?b"
      using True r p by (simp add: zeroRange_eq take_Cons')
    moreover have "length ?b = 64" using True p by simp
    ultimately show ?thesis
      using True r p blocks_block[of ?b "[]"]
      by (simp add: sha1_finalize_def Let_def sha1_processBlock_eq short_padding(1) mult.commute bigEndianBytes_rfc3174)
  next
    case False
    let ?b1 = "?p @ 0x80 # replicate (63 - ?n) 0" and ?b2 = "replicate 56 0 @ ?l"
    have z1: "zeroRange (Suc ?n) 64 ((sh_buffer s)[?n := 0x80]) = ?b1"
      using False r p by (simp add: zeroRange_eq)
    have l1: "length ?b1 = 64" using False r p by simp
    have z2: "take 56 (zeroRange 0 56 ?b1) @ ?l = ?b2" using l1 by (simp add: zeroRange_eq)
    have l2: "length ?b2 = 64" by simp
    have "sh_hash (sha1_finalize s) = rfc3174_compress (rfc3174_compress (sh_hash s) ?b1) ?b2"
      using False r z1 z2 l1 l2
      by (simp add: sha1_finalize_def Let_def sha1_processBlock_eq length_rfc3174_compress mult.commute bigEndianBytes_rfc3174)
    then show ?thesis
      using False r p l1 l2 blocks_block[of ?b1 ?b2] blocks_block[of ?b2 "[]"] short_padding(2)[of ?n]
      by simp
  qed
qed

subsection \<open>The digest\<close>

interpretation sha1: padded_digest sha1_start sha1_addBytes sha1_ready sh_hash sha1_pending
  "\<lambda>s. 8 * sh_totalBytes s" rfc3174_compress "rfc3174_bytes 8" "\<lambda>s. fst (sha1_computeHash s)" "\<lambda>h. concat (map (rfc3174_bytes 4) h)"
proof unfold_locales
  show "sha1_ready sha1_start" "sha1_pending sha1_start = []" "8 * sh_totalBytes sha1_start = 0"
    by (simp_all add: sha1_ready_def sha1_pending_def sha1_start_def)
  show "fst (sha1_computeHash s) = concat (map (rfc3174_bytes 4) (foldl rfc3174_compress (sh_hash s)
      (blocks (sha1_pending s @ padding (rfc3174_bytes 8) (length (sha1_pending s)) (8 * sh_totalBytes s)))))"
    if "sha1_ready s" for s
    using that sha1_finalize_spec[OF that] length_fold_compress[of "sh_hash s"]
    by (simp add: sha1_computeHash_def sha1_output_rfc3174 sha1_ready_def Let_def)
qed (simp_all add: sha1_addBytes_spec algebra_simps)

text \<open>
  C31. However a message is cut into pieces, adding them one after the other and computing the
  hash gives the digest that RFC 3174 defines for the whole message, and leaves the object as a
  new one.
\<close>

theorem sha1_rfc3174:
  "fst (sha1_computeHash (fold sha1_addBytes pieces sha1_start)) = rfc3174_digest (concat pieces) \<and>
   snd (sha1_computeHash (fold sha1_addBytes pieces sha1_start)) = sha1_start"
proof
  show "fst (sha1_computeHash (fold sha1_addBytes pieces sha1_start)) = rfc3174_digest (concat pieces)"
    using sha1.digest_pieces[of pieces] by (simp add: rfc3174_digest_def sha1_start_def)
  show "snd (sha1_computeHash (fold sha1_addBytes pieces sha1_start)) = sha1_start"
    by (simp add: sha1_computeHash_def sha1_reset_def sha1_start_def Let_def)
qed

end
