(* ===== verification/WTF_MD5_Correct.thy ===== *)
theory WTF_MD5_Correct
  imports WTF_MD5
begin

unbundle bit_operations_syntax

section \<open>MD5 computes the digest of RFC 1321\<close>

text \<open>
  The words of a block on machines of either byte order, the unrolled transformation, the
  buffer with its bit count in two words, and the padding, each against its definition in the
  RFC.
\<close>

subsection \<open>Words in memory\<close>

lemma littleEndian32_bytes32: "littleEndian32 (bytes32 w @ xs) = w"
proof (rule bit_word_eqI)
  fix n :: nat
  assume "n < LENGTH(32)"
  then show "bit (littleEndian32 (bytes32 w @ xs)) n = bit w n"
    by (cases "n < 8"; cases "n < 16"; cases "n < 24") (auto simp: littleEndian32_def bytes32_def bit_simps)
qed

lemma bytes32_littleEndian32: "bytes32 (littleEndian32 (a # b # c # d # xs)) = [a, b, c, d]"
  unfolding bytes32_def littleEndian32_def
  by (simp, intro conjI; rule bit_word_eqI) (auto simp: bit_simps dest: bit_imp_le_length)

lemma length_bytes32 [simp]: "length (bytes32 w) = 4" "length (store32 bigEndian w) = 4"
  by (simp_all add: bytes32_def store32_def)

lemma load32_store32 [simp]: "load32 bigEndian (store32 bigEndian w @ xs) = w"
  using littleEndian32_bytes32[of w] littleEndian32_bytes32[of w "[]"] by (simp add: load32_def store32_def)

lemma store32_reversed: "store32 bigEndian (littleEndian32 (store32 bigEndian w @ xs)) = bytes32 w"
proof (cases bigEndian)
  case True
  have "rev (bytes32 w) @ xs = ucast (drop_bit 24 w) # ucast (drop_bit 16 w) # ucast (drop_bit 8 w) # ucast w # xs"
    by (simp add: bytes32_def)
  then show ?thesis using True by (simp add: store32_def bytes32_littleEndian32 bytes32_def[of w])
qed (simp add: store32_def littleEndian32_bytes32)

lemma wordsOf_reverseBytes: "wordsOf bigEndian n (reverseBytes bigEndian n buf) = wordsOf False n buf"
  by (induction n arbitrary: buf) (simp_all add: load32_def[of False])

lemma length_reverseBytes: "4 * n \<le> length buf \<Longrightarrow> length (reverseBytes bigEndian n buf) = length buf"
  by (induction n arbitrary: buf) simp_all

lemma four_bytes:
  assumes "length xs = 4 * Suc n"
  obtains a b c d ys where "xs = a # b # c # d # ys" and "length ys = 4 * n"
  using assms by (auto simp: length_Suc_conv numeral_eq_Suc)

lemma reverseBytes_append:
  "length xs = 4 * n \<Longrightarrow> reverseBytes bigEndian n (xs @ ys) = reverseBytes bigEndian n xs @ ys"
proof (induction n arbitrary: xs)
  case (Suc n)
  from Suc.prems show ?case by (rule four_bytes) (simp add: Suc.IH littleEndian32_def)
qed simp

lemma wordsOf_append:
  "length xs = 4 * n \<Longrightarrow> wordsOf bigEndian (n + k) (xs @ ys) = wordsOf bigEndian n xs @ wordsOf bigEndian k ys"
proof (induction n arbitrary: xs)
  case (Suc n)
  from Suc.prems show ?case by (rule four_bytes) (simp add: Suc.IH load32_def littleEndian32_def)
qed simp

lemma wordsOf_map: "wordsOf False n buf = map (\<lambda>i. littleEndian32 (drop (4 * i) buf)) [0..<n]"
proof (induction n arbitrary: buf)
  case (Suc n)
  have "[0..<Suc n] = 0 # map Suc [0..<n]" by (simp add: map_Suc_upt upt_conv_Cons del: upt_Suc)
  then show ?case by (simp add: Suc load32_def add.commute del: upt_Suc)
qed simp

lemma littleEndian32_word: "littleEndian32 (a # b # c # d # xs) = foldr (\<lambda>b w. 256 * w + ucast b) [a, b, c, d] 0"
  using word_of_bytes[of d c b a] by (simp add: littleEndian32_def push_bit_or or.assoc)

lemma wordsOf_rfc1321:
  assumes "length block = 64"
  shows "wordsOf False 16 block = rfc1321_words block"
proof -
  have "littleEndian32 (drop (4 * i) block) = foldr (\<lambda>b w. 256 * w + ucast b) (take 4 (drop (4 * i) block)) 0"
    if "i < 16" for i
  proof -
    have "length (drop (4 * i) block) = 4 * Suc (15 - i)" using that assms by simp
    then show ?thesis by (rule four_bytes) (simp add: littleEndian32_word)
  qed
  then show ?thesis unfolding wordsOf_map rfc1321_words_def by simp
qed

lemma reverseBytes_output: "reverseBytes bigEndian (length h) (concat (map (store32 bigEndian) h)) = rfc1321_output h"
  by (induction h) (simp_all add: rfc1321_output_def store32_reversed)

subsection \<open>The transformation\<close>

text \<open>The steps as data: the round, the word, the constant and the shift.\<close>

definition md5_aux :: "nat \<Rightarrow> uint32 \<Rightarrow> uint32 \<Rightarrow> uint32 \<Rightarrow> uint32" where
  "md5_aux r = (if r = 0 then md5_F1 else if r = 1 then md5_F2 else if r = 2 then md5_F3 else md5_F4)"

definition md5_row :: "uint32 list \<Rightarrow> nat \<times> nat \<times> uint32 \<times> nat \<Rightarrow>
    uint32 \<times> uint32 \<times> uint32 \<times> uint32 \<Rightarrow> uint32 \<times> uint32 \<times> uint32 \<times> uint32" where
  "md5_row X = (\<lambda>(r, k, t, s) (a, b, c, d). (d, MD5STEP (md5_aux r) a b c d (X ! k + t) s, b, c))"

definition md5_finish :: "uint32 list \<Rightarrow> uint32 \<times> uint32 \<times> uint32 \<times> uint32 \<Rightarrow> uint32 list" where
  "md5_finish h = (\<lambda>(a, b, c, d). [h ! 0 + a, h ! 1 + b, h ! 2 + c, h ! 3 + d])"

lemma md5_table:
  "map (\<lambda>i. (i div 16, rfc1321_index i, rfc1321_T ! i, rfc1321_shift i)) [0..<64] =
    [(0, 0, 0xd76aa478, 7), (0, 1, 0xe8c7b756, 12), (0, 2, 0x242070db, 17), (0, 3, 0xc1bdceee, 22),
     (0, 4, 0xf57c0faf, 7), (0, 5, 0x4787c62a, 12), (0, 6, 0xa8304613, 17), (0, 7, 0xfd469501, 22),
     (0, 8, 0x698098d8, 7), (0, 9, 0x8b44f7af, 12), (0, 10, 0xffff5bb1, 17), (0, 11, 0x895cd7be, 22),
     (0, 12, 0x6b901122, 7), (0, 13, 0xfd987193, 12), (0, 14, 0xa679438e, 17), (0, 15, 0x49b40821, 22),
     (1, 1, 0xf61e2562, 5), (1, 6, 0xc040b340, 9), (1, 11, 0x265e5a51, 14), (1, 0, 0xe9b6c7aa, 20),
     (1, 5, 0xd62f105d, 5), (1, 10, 0x02441453, 9), (1, 15, 0xd8a1e681, 14), (1, 4, 0xe7d3fbc8, 20),
     (1, 9, 0x21e1cde6, 5), (1, 14, 0xc33707d6, 9), (1, 3, 0xf4d50d87, 14), (1, 8, 0x455a14ed, 20),
     (1, 13, 0xa9e3e905, 5), (1, 2, 0xfcefa3f8, 9), (1, 7, 0x676f02d9, 14), (1, 12, 0x8d2a4c8a, 20),
     (2, 5, 0xfffa3942, 4), (2, 8, 0x8771f681, 11), (2, 11, 0x6d9d6122, 16), (2, 14, 0xfde5380c, 23),
     (2, 1, 0xa4beea44, 4), (2, 4, 0x4bdecfa9, 11), (2, 7, 0xf6bb4b60, 16), (2, 10, 0xbebfbc70, 23),
     (2, 13, 0x289b7ec6, 4), (2, 0, 0xeaa127fa, 11), (2, 3, 0xd4ef3085, 16), (2, 6, 0x04881d05, 23),
     (2, 9, 0xd9d4d039, 4), (2, 12, 0xe6db99e5, 11), (2, 15, 0x1fa27cf8, 16), (2, 2, 0xc4ac5665, 23),
     (3, 0, 0xf4292244, 6), (3, 7, 0x432aff97, 10), (3, 14, 0xab9423a7, 15), (3, 5, 0xfc93a039, 21),
     (3, 12, 0x655b59c3, 6), (3, 3, 0x8f0ccc92, 10), (3, 10, 0xffeff47d, 15), (3, 1, 0x85845dd1, 21),
     (3, 8, 0x6fa87e4f, 6), (3, 15, 0xfe2ce6e0, 10), (3, 6, 0xa3014314, 15), (3, 13, 0x4e0811a1, 21),
     (3, 4, 0xf7537e82, 6), (3, 11, 0xbd3af235, 10), (3, 2, 0x2ad7d2bb, 15), (3, 9, 0xeb86d391, 21)]"
  by code_simp

lemma md5_aux_rfc1321: "i < 64 \<Longrightarrow> md5_aux (i div 16) x y z = rfc1321_aux i x y z"
proof -
  have "md5_F1 x y z = (x AND y) OR (NOT x AND z)" "md5_F2 x y z = (x AND z) OR (y AND NOT z)"
    by (rule bit_word_eqI, auto simp: md5_F2_def md5_F1_def bit_simps)+
  moreover assume "i < 64"
  moreover have "i div 16 = 0 \<longleftrightarrow> i < 16" "i div 16 = 1 \<longleftrightarrow> 16 \<le> i \<and> i < 32" "i div 16 = 2 \<longleftrightarrow> 32 \<le> i \<and> i < 48"
    by auto
  ultimately show ?thesis by (auto simp: md5_aux_def rfc1321_aux_def md5_F3_def md5_F4_def)
qed

lemma rfc1321_shift_range: "i < 64 \<Longrightarrow> 0 < rfc1321_shift i \<and> rfc1321_shift i < 32"
proof -
  assume "i < 64"
  then have "i div 16 < 4" "i mod 4 < 4" by auto
  then have "i div 16 \<in> {0, 1, 2, 3}" "i mod 4 \<in> {0, 1, 2, 3}" by auto
  then show ?thesis by (auto simp: rfc1321_shift_def)
qed

lemma rfc1321_step_row:
  "i < 64 \<Longrightarrow> rfc1321_step X i = md5_row X (i div 16, rfc1321_index i, rfc1321_T ! i, rfc1321_shift i)"
  using rfc1321_shift_range[of i]
  by (auto simp: fun_eq_iff rfc1321_step_def md5_row_def MD5STEP_def shifts_rotl md5_aux_rfc1321 algebra_simps)

lemma rfc1321_fold_rows:
  "fold (rfc1321_step X) [0..<64] v =
    fold (md5_row X) (map (\<lambda>i. (i div 16, rfc1321_index i, rfc1321_T ! i, rfc1321_shift i)) [0..<64]) v"
  unfolding fold_map by (rule fold_cong) (simp_all add: rfc1321_step_row)

lemma md5_finish_row:
  "md5_finish h (fold (md5_row X) ((r, k, t, s) # rows) (a, b, c, d)) =
    (let w = MD5STEP (md5_aux r) a b c d (X ! k + t) s in md5_finish h (fold (md5_row X) rows (d, w, b, c)))"
  by (simp add: md5_row_def)

lemma md5_finish_Nil:
  "md5_finish h (fold (md5_row X) [] (a, b, c, d)) = [h ! 0 + a, h ! 1 + b, h ! 2 + c, h ! 3 + d]"
  by (simp add: md5_finish_def)

lemma md5_finish_start:
  "md5_finish h (fold (md5_row X) rows (h ! 0, h ! 1, h ! 2, h ! 3)) =
    (let a = h ! 0; b = h ! 1; c = h ! 2; d = h ! 3 in md5_finish h (fold (md5_row X) rows (a, b, c, d)))"
  by simp

lemma md5_aux_simps: "md5_aux 0 = md5_F1" "md5_aux 1 = md5_F2" "md5_aux 2 = md5_F3" "md5_aux 3 = md5_F4"
  by (simp_all add: md5_aux_def)

lemma MD5Transform_rfc1321:
  assumes "wordsOf False 16 block = rfc1321_words block"
  shows "MD5Transform h (wordsOf False 16 block) = rfc1321_compress h block"
proof -
  have "rfc1321_compress h block =
      md5_finish h (fold (md5_row (rfc1321_words block))
        (map (\<lambda>i. (i div 16, rfc1321_index i, rfc1321_T ! i, rfc1321_shift i)) [0..<64]) (h ! 0, h ! 1, h ! 2, h ! 3))"
    unfolding rfc1321_compress_def rfc1321_fold_rows md5_finish_def by (rule refl)
  also have "\<dots> = MD5Transform h (rfc1321_words block)"
    unfolding md5_table MD5Transform_def
    by (subst md5_finish_start) (simp only: md5_finish_row md5_finish_Nil md5_aux_simps)
  finally show ?thesis using assms by simp
qed

subsection \<open>The bit count\<close>

definition md5_bits :: "md5 \<Rightarrow> int64" where
  "md5_bits s = word_of_nat (unat (md_bits0 s) + 2 ^ 32 * unat (md_bits1 s))"

definition md5_count :: "md5 \<Rightarrow> nat" where
  "md5_count s = unat (drop_bit 3 (md_bits0 s) AND 0x3F)"

lemma md5_count_eq: "md5_count s = unat (md_bits0 s) div 8 mod 64"
proof -
  have t: "drop_bit 3 (md_bits0 s) AND 0x3F = take_bit 6 (drop_bit 3 (md_bits0 s))"
    by (simp add: take_bit_eq_mask mask_eq_exp_minus_1)
  show ?thesis unfolding md5_count_def t unsigned_take_bit_eq unat_drop_bit_div by (simp add: take_bit_eq_mod)
qed

lemma unat_uint32_less: "unat (w :: uint32) < 2 ^ 32"
  using unsigned_less[of w, where ?'a = nat] by simp

lemma unat_bits: "unat (md5_bits s) = unat (md_bits0 s) + 2 ^ 32 * unat (md_bits1 s)"
proof -
  have "unat (md_bits0 s) + 2 ^ 32 * unat (md_bits1 s) < 2 ^ 64"
    using unat_uint32_less[of "md_bits0 s"] unat_uint32_less[of "md_bits1 s"] by simp
  then show ?thesis unfolding md5_bits_def by (subst unat_of_nat) (simp add: take_bit_nat_eq_self)
qed

lemma unat_push3: "unat (push_bit 3 (word_of_nat n :: int64)) = 8 * n mod 2 ^ 64"
proof -
  have "push_bit 3 (word_of_nat n :: int64) = word_of_nat (8 * n)" by (simp add: push_bit_eq_mult)
  then show ?thesis by (simp only: unat_of_nat take_bit_eq_mod len_of_numeral_defs) simp
qed

lemma low_sum: "unat (ucast (ucast (t :: uint32) + (v :: int64)) :: uint32) = (unat t + unat v mod 2 ^ 32) mod 2 ^ 32"
proof -
  have "unat (ucast (ucast t + v) :: uint32) = unat (ucast t + v) mod 2 ^ 32"
    by (simp add: unsigned_ucast_eq take_bit_eq_mod)
  also have "unat (ucast t + v) = (unat t + unat v) mod 2 ^ 64"
    using unat_uint32_less[of t] by (simp add: unat_word_ariths unsigned_ucast_eq take_bit_eq_mod)
  also have "(unat t + unat v) mod 2 ^ 64 mod 2 ^ 32 = (unat t + unat v) mod 2 ^ 32"
    by (rule mod_mod_cancel) (simp add: le_imp_power_dvd)
  finally show ?thesis by (simp only: mod_add_right_eq)
qed

lemma high_part: "unat (ucast (drop_bit 29 (word_of_nat n :: int64)) :: uint32) = 8 * n mod 2 ^ 64 div 2 ^ 32"
proof -
  have "ucast (drop_bit 29 w) = (ucast (drop_bit 32 (push_bit 3 w)) :: uint32)" for w :: int64
    by (rule bit_word_eqI) (auto simp: bit_simps)
  then have "unat (ucast (drop_bit 29 (word_of_nat n :: int64)) :: uint32) = unat (push_bit 3 (word_of_nat n :: int64)) div 2 ^ 32 mod 2 ^ 32"
    by (simp only: unsigned_ucast_eq take_bit_eq_mod unat_drop_bit_div) simp
  moreover have "8 * n mod 2 ^ 64 div 2 ^ 32 < 2 ^ 32" by (rule less_mult_imp_div_less) simp
  ultimately show ?thesis unfolding unat_push3 by simp
qed

lemma carry: "x < m \<Longrightarrow> y < m \<Longrightarrow> (x + y) mod m < x \<longleftrightarrow> m \<le> x + (y :: nat)"
  by (auto simp: mod_if)

lemma unat_updateBits:
  fixes s :: md5 and n :: nat
  defines "x \<equiv> unat (md_bits0 s)" and "y \<equiv> 8 * n mod 2 ^ 64"
  shows "unat (md_bits0 (md5_updateBits n s)) = (x + y mod 2 ^ 32) mod 2 ^ 32"
    and "unat (md_bits1 (md5_updateBits n s)) =
      (unat (md_bits1 s) + (if 2 ^ 32 \<le> x + y mod 2 ^ 32 then 1 else 0) + y div 2 ^ 32) mod 2 ^ 32"
proof -
  let ?b = "ucast (ucast (md_bits0 s) + push_bit 3 (word_of_nat n :: int64)) :: uint32"
  have b: "unat ?b = (x + y mod 2 ^ 32) mod 2 ^ 32" unfolding low_sum unat_push3 x_def y_def by (rule refl)
  then show "unat (md_bits0 (md5_updateBits n s)) = (x + y mod 2 ^ 32) mod 2 ^ 32"
    by (simp add: md5_updateBits_def Let_def)
  have "?b < md_bits0 s \<longleftrightarrow> 2 ^ 32 \<le> x + y mod 2 ^ 32"
    unfolding word_less_nat_alt b using unat_uint32_less[of "md_bits0 s"] unfolding x_def[symmetric]
    by (rule carry) simp
  then show "unat (md_bits1 (md5_updateBits n s)) =
      (unat (md_bits1 s) + (if 2 ^ 32 \<le> x + y mod 2 ^ 32 then 1 else 0) + y div 2 ^ 32) mod 2 ^ 32"
    using high_part[of n] unfolding y_def[symmetric]
    by (simp add: md5_updateBits_def Let_def unat_word_ariths mod_simps)
qed

lemma sum_words:
  fixes x y b m :: nat
  assumes "x < m"
  shows "((x + y mod m) mod m + m * ((b + (if m \<le> x + y mod m then 1 else 0) + y div m) mod m)) mod (m * m) =
    (x + m * b + y) mod (m * m)"
proof -
  let ?c = "if m \<le> x + y mod m then 1 else 0 :: nat"
  have "y mod m < m" using assms by simp
  then have c: "(x + y mod m) mod m + m * ?c = x + y mod m"
    using assms by (cases "m \<le> x + y mod m") (simp_all only: le_mod_geq mod_less not_le if_True if_False, simp_all)
  have "((x + y mod m) mod m + m * ((b + ?c + y div m) mod m)) mod (m * m) = ((x + y mod m) mod m + m * (b + ?c + y div m)) mod (m * m)"
    by (simp only: mult_mod_right mod_add_right_eq)
  also have "(x + y mod m) mod m + m * (b + ?c + y div m) = x + y mod m + m * b + m * (y div m)"
    using c unfolding distrib_left by linarith
  also have "\<dots> = x + m * b + y" using mult_div_mod_eq[of m y] by linarith
  finally show ?thesis .
qed

lemma md5_updateBits_bits: "md5_bits (md5_updateBits n s) = md5_bits s + 8 * word_of_nat n"
proof -
  let ?s = "md5_updateBits n s"
  have "(unat (md_bits0 ?s) + 2 ^ 32 * unat (md_bits1 ?s)) mod (2 ^ 32 * 2 ^ 32) =
      (unat (md_bits0 s) + 2 ^ 32 * unat (md_bits1 s) + 8 * n mod 2 ^ 64) mod (2 ^ 32 * 2 ^ 32)"
    unfolding unat_updateBits by (rule sum_words[OF unat_uint32_less])
  then have "(unat (md_bits0 ?s) + 2 ^ 32 * unat (md_bits1 ?s)) mod 2 ^ 64 =
      (unat (md_bits0 s) + 2 ^ 32 * unat (md_bits1 s) + 8 * n) mod 2 ^ 64"
    by (simp add: mod_simps)
  then have "md5_bits ?s = word_of_nat (unat (md_bits0 s) + 2 ^ 32 * unat (md_bits1 s) + 8 * n)"
    unfolding md5_bits_def by (simp only: word_of_nat_eq_iff take_bit_eq_mod) simp
  then show ?thesis by (simp add: md5_bits_def)
qed

lemma mod_div_mod: "z mod 2 ^ 32 div 8 mod 64 = z div 8 mod (64 :: nat)"
proof -
  have "z mod (8 * 2 ^ 29) div 8 = z div 8 mod 2 ^ 29" by (simp only: mod_mult2_eq)
  moreover have "z div 8 mod 2 ^ 29 mod 64 = z div 8 mod 64" by (rule mod_mod_cancel) simp
  ultimately show ?thesis by simp
qed

lemma md5_updateBits_count: "md5_count (md5_updateBits n s) = (md5_count s + n) mod 64"
proof -
  have "(unat (md_bits0 s) + 8 * n mod 2 ^ 64 mod 2 ^ 32) mod 2 ^ 32 = (unat (md_bits0 s) + 8 * n) mod 2 ^ 32"
    by (simp only: mod_mod_cancel[of "2 ^ 32" "2 ^ 64"] le_imp_power_dvd mod_add_right_eq)
  then have "md5_count (md5_updateBits n s) = (unat (md_bits0 s) + 8 * n) div 8 mod 64"
    unfolding md5_count_eq unat_updateBits(1) by (simp only: mod_div_mod)
  also have "\<dots> = (unat (md_bits0 s) div 8 + n) mod 64" by (simp add: add.commute)
  finally show ?thesis unfolding md5_count_eq by (simp add: mod_simps)
qed

subsection \<open>The buffer\<close>

definition md5_ready :: "md5 \<Rightarrow> bool" where
  "md5_ready s \<longleftrightarrow> length (md_in s) = 64 \<and> length (md_buf s) = 4"

definition md5_pending :: "md5 \<Rightarrow> byte list" where
  "md5_pending s = take (md5_count s) (md_in s)"

lemma md5_count_less: "md5_count s < 64"
  by (simp add: md5_count_eq)

lemma md5_count_cong: "md_bits0 s = md_bits0 s' \<Longrightarrow> md5_count s = md5_count s'"
  by (simp add: md5_count_def)

lemma length_overwrite: "offset + length xs \<le> length buf \<Longrightarrow> length (overwrite offset xs buf) = length buf"
  by (simp add: overwrite_def)

lemma length_rfc1321_compress: "length (rfc1321_compress h block) = 4"
  by (simp add: rfc1321_compress_def split: prod.splits)

lemma md5_transformIn_spec:
  assumes "length (md_in s) = 64"
  shows "md_buf (md5_transformIn bigEndian s) = rfc1321_compress (md_buf s) (md_in s)"
    and "length (md_in (md5_transformIn bigEndian s)) = 64"
    and "md_bits0 (md5_transformIn bigEndian s) = md_bits0 s" and "md_bits1 (md5_transformIn bigEndian s) = md_bits1 s"
  using assms MD5Transform_rfc1321[OF wordsOf_rfc1321[OF assms]] length_reverseBytes[of 16 "md_in s"]
  by (simp_all only: md5_transformIn_def Let_def wordsOf_reverseBytes md5.simps) simp_all

lemma md5_chunks_spec:
  assumes "md5_ready s"
  shows "md5_ready (md5_chunks bigEndian buf s) \<and>
    md_buf (md5_chunks bigEndian buf s) = foldl rfc1321_compress (md_buf s) (blocks buf) \<and>
    take (length buf mod 64) (md_in (md5_chunks bigEndian buf s)) = unfinished buf \<and>
    md_bits0 (md5_chunks bigEndian buf s) = md_bits0 s \<and> md_bits1 (md5_chunks bigEndian buf s) = md_bits1 s"
  using assms
proof (induction bigEndian buf s rule: md5_chunks.induct)
  case (1 bigEndian buf s)
  show ?case
  proof (cases "64 \<le> length buf")
    case True
    let ?s = "md5_transformIn bigEndian (s\<lparr>md_in := overwrite 0 (take 64 buf) (md_in s)\<rparr>)"
    have o: "overwrite 0 (take 64 buf) (md_in s) = take 64 buf"
      using True "1.prems" by (simp add: overwrite_def md5_ready_def)
    have r: "md_buf ?s = rfc1321_compress (md_buf s) (take 64 buf)" "length (md_in ?s) = 64"
      "md_bits0 ?s = md_bits0 s" "md_bits1 ?s = md_bits1 s"
      using True md5_transformIn_spec[of "s\<lparr>md_in := take 64 buf\<rparr>"] unfolding o by simp_all
    then have "md5_ready ?s" by (simp add: md5_ready_def length_rfc1321_compress)
    note IH = "1.IH"[OF True this]
    have "blocks buf = take 64 buf # blocks (drop 64 buf)" "unfinished buf = unfinished (drop 64 buf)"
      "length buf mod 64 = length (drop 64 buf) mod 64"
      using True by (simp_all add: blocks.simps[of buf] unfinished.simps[of buf] le_mod_geq)
    then show ?thesis using IH r True by (simp add: md5_chunks.simps[of bigEndian buf s])
  next
    case False
    then show ?thesis using "1.prems"
      by (simp add: md5_chunks.simps[of bigEndian buf s] md5_ready_def length_overwrite) (simp add: overwrite_def)
  qed
qed

lemma md5_addBytes_spec:
  assumes "md5_ready s"
  shows "md5_ready (md5_addBytes bigEndian xs s) \<and>
    md_buf (md5_addBytes bigEndian xs s) = foldl rfc1321_compress (md_buf s) (blocks (md5_pending s @ xs)) \<and>
    md5_pending (md5_addBytes bigEndian xs s) = unfinished (md5_pending s @ xs) \<and>
    md5_bits (md5_addBytes bigEndian xs s) = md5_bits s + 8 * word_of_nat (length xs)"
proof -
  let ?u = "md5_updateBits (length xs) s" and ?t = "md5_count s" and ?r = "md5_addBytes bigEndian xs s"
  have u: "md_in ?u = md_in s" "md_buf ?u = md_buf s" by (simp_all add: md5_updateBits_def Let_def)
  have p: "length (md5_pending s) = ?t"
    using assms md5_count_less[of s] by (simp add: md5_pending_def md5_ready_def)
  have done_: "?thesis" if "md5_ready ?r" "md_buf ?r = foldl rfc1321_compress (md_buf s) (blocks (md5_pending s @ xs))"
    "md_bits0 ?r = md_bits0 ?u" "md_bits1 ?r = md_bits1 ?u"
    "take ((?t + length xs) mod 64) (md_in ?r) = unfinished (md5_pending s @ xs)"
  proof -
    have "md5_bits ?r = md5_bits ?u" using that(3,4) by (simp add: md5_bits_def)
    moreover have "md5_count ?r = (?t + length xs) mod 64"
      using md5_count_cong[OF that(3)] md5_updateBits_count by simp
    ultimately show ?thesis using that md5_updateBits_bits by (simp add: md5_pending_def[of ?r])
  qed
  consider "?t = 0" | "?t \<noteq> 0" "length xs < 64 - ?t" | "?t \<noteq> 0" "64 - ?t \<le> length xs" by linarith
  then show ?thesis
  proof cases
    case 1
    have "md5_ready ?u" using assms u by (simp add: md5_ready_def)
    note c = md5_chunks_spec[OF this, of bigEndian xs]
    have r: "?r = md5_chunks bigEndian xs ?u" using 1 by (simp add: md5_addBytes_def Let_def md5_count_def)
    show ?thesis by (rule done_) (use c u 1 in \<open>simp_all add: r md5_pending_def\<close>)
  next
    case 2
    then have r: "?r = ?u\<lparr>md_in := overwrite ?t xs (md_in s)\<rparr>"
      using u by (simp add: md5_addBytes_def Let_def md5_count_def)
    have l: "length (md5_pending s @ xs) < 64" "length (md_in s) = 64" using 2 p assms by (simp_all add: md5_ready_def)
    show ?thesis
      by (rule done_) (use l 2 p u assms in \<open>simp_all add: r md5_ready_def length_overwrite overwrite_def md5_pending_def\<close>)
  next
    case 3
    let ?k = "64 - ?t"
    let ?v = "?u\<lparr>md_in := overwrite ?t (take ?k xs) (md_in s)\<rparr>"
    have k: "overwrite ?t (take ?k xs) (md_in s) = md5_pending s @ take ?k xs" "length (md5_pending s @ take ?k xs) = 64"
      using 3 p assms md5_count_less[of s] by (simp_all add: overwrite_def md5_ready_def md5_pending_def)
    have v: "md_buf (md5_transformIn bigEndian ?v) = rfc1321_compress (md_buf s) (md5_pending s @ take ?k xs)"
      "length (md_in (md5_transformIn bigEndian ?v)) = 64"
      "md_bits0 (md5_transformIn bigEndian ?v) = md_bits0 ?u" "md_bits1 (md5_transformIn bigEndian ?v) = md_bits1 ?u"
      using md5_transformIn_spec[of ?v bigEndian] k u by simp_all
    then have "md5_ready (md5_transformIn bigEndian ?v)" by (simp add: md5_ready_def length_rfc1321_compress)
    note c = md5_chunks_spec[OF this, of bigEndian "drop ?k xs"]
    have r: "?r = md5_chunks bigEndian (drop ?k xs) (md5_transformIn bigEndian ?v)"
      using 3 u by (simp add: md5_addBytes_def Let_def md5_count_def)
    have s: "md5_pending s @ xs = (md5_pending s @ take ?k xs) @ drop ?k xs" by simp
    have m: "(?t + length xs) mod 64 = length (drop ?k xs) mod 64"
      using 3 md5_count_less[of s] by (simp add: le_mod_geq add.commute)
    show ?thesis
      by (rule done_) (use c v r m blocks_block[OF k(2)] unfinished_block[OF k(2)] s in \<open>simp_all only: foldl.simps\<close>)
  qed
qed

subsection \<open>The padding\<close>

lemma rfc1321_length_bits: "rfc1321_length (md5_bits s) = bytes32 (md_bits0 s) @ bytes32 (md_bits1 s)"
proof -
  have "unat (ucast (md5_bits s) :: uint32) = unat (md_bits0 s)"
    using unat_uint32_less[of "md_bits0 s"] by (simp add: unsigned_ucast_eq take_bit_eq_mod unat_bits)
  moreover have "unat (ucast (drop_bit 32 (md5_bits s)) :: uint32) = unat (md_bits1 s)"
    using unat_uint32_less[of "md_bits0 s"] unat_uint32_less[of "md_bits1 s"]
    by (simp only: unsigned_ucast_eq take_bit_eq_mod unat_drop_bit_div unat_bits) simp
  ultimately have "ucast (md5_bits s) = md_bits0 s" "ucast (drop_bit 32 (md5_bits s)) = md_bits1 s"
    by (simp_all only: word_unat_eq_iff)
  then show ?thesis by (simp add: rfc1321_length_def)
qed

lemma wordsOf_pair: "wordsOf bigEndian 2 (store32 bigEndian w0 @ store32 bigEndian w1) = [w0, w1]"
  using load32_store32[of bigEndian w1 "[]"] by (simp add: numeral_2_eq_2)

lemma last_block:
  fixes bigEndian :: bool and low high :: uint32
  assumes "length front = 56" and "length junk = 8"
  defines "in1 \<equiv> reverseBytes bigEndian 14 (front @ junk)"
  defines "in3 \<equiv> overwrite 60 (store32 bigEndian high) (overwrite 56 (store32 bigEndian low) in1)"
  shows "MD5Transform h (wordsOf bigEndian 16 in3) = rfc1321_compress h (front @ bytes32 low @ bytes32 high)"
proof -
  have l: "length (reverseBytes bigEndian 14 front) = 4 * 14" using assms(1) by (simp add: length_reverseBytes)
  have "in1 = reverseBytes bigEndian 14 front @ junk" unfolding in1_def using assms(1) by (intro reverseBytes_append) simp
  then have "in3 = reverseBytes bigEndian 14 front @ store32 bigEndian low @ store32 bigEndian high"
    using l assms(2) by (simp add: in3_def overwrite_def)
  then have "wordsOf bigEndian (14 + 2) in3 = wordsOf False 14 front @ [low, high]"
    using wordsOf_append[OF l] by (simp only: wordsOf_reverseBytes wordsOf_pair)
  moreover have "wordsOf False (14 + 2) (front @ bytes32 low @ bytes32 high) = wordsOf False 14 front @ [low, high]"
    using wordsOf_append[of front 14 False 2 "bytes32 low @ bytes32 high"] assms(1) wordsOf_pair[of False low high]
    by (simp add: store32_def)
  moreover have "length (front @ bytes32 low @ bytes32 high) = 64" using assms(1) by simp
  ultimately show ?thesis using MD5Transform_rfc1321[OF wordsOf_rfc1321, of "front @ bytes32 low @ bytes32 high" h] by simp
qed

lemma overwrite_front: "length xs = offset \<Longrightarrow> overwrite offset ys (xs @ zs) = xs @ ys @ drop (length ys) zs"
  by (simp add: overwrite_def)

lemma md5_checksum_spec:
  assumes "md5_ready s"
  shows "fst (md5_checksum bigEndian s) = rfc1321_output (foldl rfc1321_compress (md_buf s)
    (blocks (md5_pending s @ padding rfc1321_length (length (md5_pending s)) (md5_bits s))))"
proof -
  let ?n = "md5_count s" and ?p = "md5_pending s" and ?l = "bytes32 (md_bits0 s) @ bytes32 (md_bits1 s)"
  have r: "length (md_in s) = 64" "length (md_buf s) = 4" "?n < 64" using assms md5_count_less by (simp_all add: md5_ready_def)
  have p: "md_in s = ?p @ drop ?n (md_in s)" "length ?p = ?n" using r by (simp_all add: md5_pending_def)
  define junk where "junk = drop (Suc ?n) (md_in s)"
  have i1: "overwrite ?n [0x80] (md_in s) = (?p @ [0x80]) @ junk"
    using r by (simp add: overwrite_def md5_pending_def junk_def)
  have j: "length junk = 63 - ?n" "length (?p @ [0x80]) = Suc ?n" using r p by (simp_all add: junk_def)
  have out: "reverseBytes bigEndian 4 (concat (map (store32 bigEndian) (rfc1321_compress h b))) = rfc1321_output (rfc1321_compress h b)" for h b
    using reverseBytes_output[of bigEndian "rfc1321_compress h b"] by (simp add: length_rfc1321_compress)
  show ?thesis
  proof (cases "?n \<le> 55")
    case True
    let ?front = "?p @ 0x80 # replicate (55 - ?n) 0"
    have c: "\<not> 63 - ?n < 8" using True by linarith
    have i2: "overwrite (Suc ?n) (replicate (63 - ?n - 8) 0) ((?p @ [0x80]) @ junk) = ?front @ drop (55 - ?n) junk"
      using j True by (subst overwrite_front) (simp_all add: diff_diff_eq)
    have f: "length ?front = 56" "length (drop (55 - ?n) junk) = 8" using j p True by simp_all
    note t = last_block[OF f, where bigEndian = bigEndian and low = "md_bits0 s" and high = "md_bits1 s" and h = "md_buf s"]
    have "fst (md5_checksum bigEndian s) = rfc1321_output (rfc1321_compress (md_buf s) (?front @ ?l))"
      using True c i1 i2 t out by (simp add: md5_checksum_def Let_def md5_count_def[symmetric])
    moreover have "blocks (?front @ ?l) = [?front @ ?l]" using blocks_block[of "?front @ ?l" "[]"] f by simp
    ultimately show ?thesis using True p by (simp add: short_padding(1) rfc1321_length_bits)
  next
    case False
    let ?b1 = "?p @ 0x80 # replicate (63 - ?n) 0"
    let ?s = "md5_transformIn bigEndian (s\<lparr>md_in := ?b1\<rparr>)"
    have c: "63 - ?n < 8" using False by linarith
    have i2: "overwrite (Suc ?n) (replicate (63 - ?n) 0) ((?p @ [0x80]) @ junk) = ?b1"
      using j by (subst overwrite_front) simp_all
    have l: "length ?b1 = 64" using p r by simp
    have s: "md_buf ?s = rfc1321_compress (md_buf s) ?b1" "length (md_in ?s) = 64" "md_bits0 ?s = md_bits0 s" "md_bits1 ?s = md_bits1 s"
      using md5_transformIn_spec[of "s\<lparr>md_in := ?b1\<rparr>" bigEndian] l by simp_all
    have i3: "overwrite 0 (replicate 56 0) (md_in ?s) = replicate 56 0 @ drop 56 (md_in ?s)" by (simp add: overwrite_def)
    have f: "length (replicate 56 (0 :: byte)) = 56" "length (drop 56 (md_in ?s)) = 8" using s by simp_all
    note t = last_block[OF f, where bigEndian = bigEndian and low = "md_bits0 s" and high = "md_bits1 s" and h = "md_buf ?s"]
    have "fst (md5_checksum bigEndian s) =
        rfc1321_output (rfc1321_compress (rfc1321_compress (md_buf s) ?b1) (replicate 56 0 @ ?l))"
      using False c i1 i2 i3 s t out by (simp add: md5_checksum_def Let_def md5_count_def[symmetric])
    moreover have "blocks (?b1 @ replicate 56 0 @ ?l) = [?b1, replicate 56 0 @ ?l]"
      using blocks_block[OF l] blocks_block[of "replicate 56 0 @ ?l" "[]"] by simp
    ultimately show ?thesis using False p r by (simp add: short_padding(2) rfc1321_length_bits)
  qed
qed

subsection \<open>The digest\<close>

interpretation md5: padded_digest md5_start "md5_addBytes bigEndian" md5_ready md_buf md5_pending md5_bits
  rfc1321_compress rfc1321_length "\<lambda>s. fst (md5_checksum bigEndian s)" rfc1321_output for bigEndian
proof unfold_locales
  show "md5_ready md5_start" "md5_pending md5_start = []" "md5_bits md5_start = 0"
    by (simp_all add: md5_ready_def md5_pending_def md5_start_def md5_count_def md5_bits_def)
qed (simp_all add: md5_addBytes_spec md5_checksum_spec)

text \<open>
  C32. On machines of either byte order, and however a message is cut into pieces, adding them one
  after the other and taking the checksum gives the digest that RFC 1321 defines for the whole
  message.
\<close>

theorem md5_rfc1321:
  "fst (md5_checksum bigEndian (fold (md5_addBytes bigEndian) pieces md5_start)) = rfc1321_digest (concat pieces)"
  using md5.digest_pieces[of bigEndian pieces] by (simp add: rfc1321_digest_def md5_start_def)

text \<open>
  Unlike \<open>SHA1::computeHash\<close>, taking the checksum does not make the object a new one, although
  the declaration says that it resets the state: the four words of the hash value are left at zero.
\<close>

lemma md5_not_reset: "snd (md5_checksum bigEndian s) \<noteq> md5_start"
proof -
  have "md_buf (snd (md5_checksum bigEndian s)) ! 0 = 0" by (simp add: md5_checksum_def Let_def)
  moreover have "md_buf md5_start ! 0 \<noteq> 0" by (simp add: md5_start_def)
  ultimately show ?thesis by metis
qed

end
