(* ===== verification/WS_World.thy ===== *)
theory WS_World
  imports WS_Handshake WS_Frame
begin

section \<open>A WebSocket, its channel and its socket\<close>

text \<open>
  The three objects of a connection: \<^verbatim>\<open>websockets/WebSocket.cpp\<close>, which the script sees,
  \<^verbatim>\<open>WebSocketChannel.cpp\<close>, which speaks the protocol, and \<^verbatim>\<open>SocketStreamHandle\<close>, in
  \<^verbatim>\<open>platform/network/SocketStreamHandleBase.cpp\<close> and \<^verbatim>\<open>soup/SocketStreamHandleSoup.cpp\<close>. They call
  each other and, through events, the script, which calls back. The state of all three is one
  record, \<open>world\<close>; a pointer that is only tested for null is a boolean.

  Reference counts decide when the channel and the handle are freed. The channel lives as long
  as its own reference, the \<^verbatim>\<open>WebSocket\<close> or a \<^verbatim>\<open>RefPtr\<close> on the stack holds it; the handle as long
  as the channel or the stack does. Where the code goes on with an object after a call that may
  have released it, the model looks whether it is alive. Frames made of a Blob are left out.
\<close>

subsection \<open>The state\<close>

datatype webSocketState = CONNECTING | OPEN | CLOSING | CLOSED

datatype binaryType = BinaryTypeBlob | BinaryTypeArrayBuffer

datatype scriptEvent =
    OpenEvent
  | MessageEvent ustring
  | BinaryEvent binaryType "byte list"
  | ErrorEvent
  | CloseEvent bool nat "ustring option"

record webSocket =
  ws_channel :: bool
  ws_readyState :: webSocketState
  ws_bufferedAmount :: nat
  ws_bufferedAmountAfterClose :: int64
  ws_binaryType :: binaryType
  ws_subprotocol :: ustring

datatype queuedFrame = QueuedFrameTypeString opCode ustring | QueuedFrameTypeVector opCode "byte list"

datatype outgoingFrameQueueStatus = OutgoingFrameQueueOpen | OutgoingFrameQueueClosing | OutgoingFrameQueueClosed

record channel =
  ch_document :: bool
  ch_client :: bool
  ch_handle :: bool
  ch_handshake :: handshake
  ch_buffer :: "byte list"
  ch_resumeTimer :: bool
  ch_suspended :: bool
  ch_closing :: bool
  ch_receivedClosingHandshake :: bool
  ch_closingTimer :: bool
  ch_closed :: bool
  ch_shouldDiscardReceivedData :: bool
  ch_unhandledBufferedAmount :: nat
  ch_useHixie76Protocol :: bool
  ch_hasContinuousFrame :: bool
  ch_continuousFrameOpCode :: opCode
  ch_continuousFrameData :: "byte list"
  ch_closeEventCode :: nat
  ch_closeEventReason :: "ustring option"
  ch_outgoingFrameQueue :: "queuedFrame list"
  ch_outgoingFrameQueueStatus :: outgoingFrameQueueStatus
  ch_selfReference :: bool
  ch_protected :: bool

datatype socketStreamState = StreamConnecting | StreamOpen | StreamClosing | StreamClosed

datatype heapBuffer = NoBuffer | Allocated | Freed

record socketStreamHandle =
  so_state :: socketStreamState
  so_buffer :: "byte list"
  so_socketConnection :: bool
  so_streamClosed :: bool
  so_readBuffer :: heapBuffer
  so_active :: bool
  so_writeReadySource :: bool
  so_protected :: bool

text \<open>
  What the outside has seen: the bytes on the wire and the events of the script. The rest is kept
  for the proofs: the data that \<open>send\<close> has accepted, whether a send was refused, a write failed or
  the page was suspended, and the first fault.
\<close>

record outside =
  ou_writes :: nat
  ou_frames :: nat
  ou_wire :: "byte list"
  ou_accepted :: "byte list"
  ou_events :: "scriptEvent list"
  ou_refused :: bool
  ou_writeFailed :: bool
  ou_suspended :: bool
  ou_fault :: "fault option"

record world =
  w_ws :: webSocket
  w_ch :: channel
  w_so :: socketStreamHandle
  w_ou :: outside

text \<open>
  The script reacts to an event with the calls it makes on its WebSocket; \<open>Stop\<close> is the document
  going away, \<open>Suspend\<close> and \<open>Resume\<close> come from a dialog or the page cache. A write to the socket
  takes some of the bytes, would block or fails.
\<close>

datatype command = Send ustring | SendBinary "byte list" | Close int ustring | SetBinaryType ustring | Stop | Suspend | Resume

datatype writeResult = Written nat | WouldBlock | WriteFailed

record channelEnv =
  en_handshake :: handshakeEnv
  en_script :: "scriptEvent list \<Rightarrow> command list"
  en_write :: "nat \<Rightarrow> writeResult"
  en_mask :: "nat \<Rightarrow> uint32"
  en_closeFails :: bool
  en_address :: int64

definition raise :: "fault \<Rightarrow> world \<Rightarrow> world" where
  "raise f w = (if ou_fault (w_ou w) = None then w\<lparr>w_ou := (w_ou w)\<lparr>ou_fault := Some f\<rparr>\<rparr> else w)"

definition channelAlive :: "world \<Rightarrow> bool" where
  "channelAlive w \<longleftrightarrow> ch_selfReference (w_ch w) \<or> ws_channel (w_ws w) \<or> ch_protected (w_ch w)"

definition handleAlive :: "world \<Rightarrow> bool" where
  "handleAlive w \<longleftrightarrow> ch_handle (w_ch w) \<or> so_protected (w_so w)"

definition useChannel :: "world \<Rightarrow> world" where
  "useChannel w = (if channelAlive w then w else raise UseAfterFree w)"

subsection \<open>Calls of the script\<close>

definition saturateAdd :: "int64 \<Rightarrow> int64 \<Rightarrow> int64" where
  "saturateAdd a b = (if 0xFFFFFFFFFFFFFFFF - a < b then 0xFFFFFFFFFFFFFFFF else a + b)"

definition getFramingOverhead :: "bool \<Rightarrow> int64 \<Rightarrow> int64" where
  "getFramingOverhead useHixie76Protocol payloadSize =
     (if useHixie76Protocol then 2
      else 2 + 4 + (if 0x10000 \<le> payloadSize then 8 else if 126 \<le> payloadSize then 2 else 0))"

definition utf8Bytes_of :: "ustring \<Rightarrow> byte list" where
  "utf8Bytes_of s = (case utf8_16Bit False s of None \<Rightarrow> [] | Some bytes \<Rightarrow> bytes)"

definition countAfterClose :: "nat \<Rightarrow> world \<Rightarrow> world" where
  "countAfterClose payloadSize w =
     w\<lparr>w_ws := (w_ws w)\<lparr>ws_bufferedAmountAfterClose :=
         saturateAdd (saturateAdd (ws_bufferedAmountAfterClose (w_ws w)) (word_of_nat payloadSize))
           (getFramingOverhead (ch_useHixie76Protocol (w_ch w)) (word_of_nat payloadSize))\<rparr>\<rparr>"

text \<open>
  The methods of \<^verbatim>\<open>WebSocket\<close>, over the operations of the channel they call. An exception leaves
  the state as it is.
\<close>

definition WebSocket_send :: "(ustring \<Rightarrow> world \<Rightarrow> world) \<Rightarrow> ustring \<Rightarrow> world \<Rightarrow> world" where
  "WebSocket_send channelSend message w =
     (case ws_readyState (w_ws w) of
        CONNECTING \<Rightarrow> w
      | OPEN \<Rightarrow> if ws_channel (w_ws w) then channelSend message w else raise NullPointer w
      | _ \<Rightarrow> countAfterClose (length (utf8Bytes_of message)) w)"

definition WebSocket_sendBinary ::
  "(ustring \<Rightarrow> world \<Rightarrow> world) \<Rightarrow> (byte list \<Rightarrow> world \<Rightarrow> world) \<Rightarrow> byte list \<Rightarrow> world \<Rightarrow> world" where
  "WebSocket_sendBinary channelSend channelSendBinary binaryData w =
     (if ch_useHixie76Protocol (w_ch w) then WebSocket_send channelSend (us ''[object ArrayBuffer]'') w
      else
        case ws_readyState (w_ws w) of
          CONNECTING \<Rightarrow> w
        | OPEN \<Rightarrow> if ws_channel (w_ws w) then channelSendBinary binaryData w else raise NullPointer w
        | _ \<Rightarrow> countAfterClose (length binaryData) w)"

definition validCloseArguments :: "int \<Rightarrow> ustring \<Rightarrow> bool" where
  "validCloseArguments code reason \<longleftrightarrow>
     code = -1 \<or> ((code = 1000 \<or> (3000 \<le> code \<and> code \<le> 4999)) \<and> length (utf8Bytes_of reason) \<le> 123)"

definition setReadyState :: "webSocketState \<Rightarrow> world \<Rightarrow> world" where
  "setReadyState s w = w\<lparr>w_ws := (w_ws w)\<lparr>ws_readyState := s\<rparr>\<rparr>"

definition WebSocket_close ::
  "(int \<Rightarrow> ustring \<Rightarrow> world \<Rightarrow> world) \<Rightarrow> (world \<Rightarrow> world) \<Rightarrow> int \<Rightarrow> ustring \<Rightarrow> world \<Rightarrow> world" where
  "WebSocket_close channelClose channelFail code reason w =
     (if \<not> validCloseArguments code reason then w
      else case ws_readyState (w_ws w) of
        CONNECTING \<Rightarrow>
          if ws_channel (w_ws w) then channelFail (setReadyState CLOSING w) else raise NullPointer w
      | OPEN \<Rightarrow>
          (let w1 = setReadyState CLOSING w in if ws_channel (w_ws w1) then channelClose code reason w1 else w1)
      | _ \<Rightarrow> w)"

definition WebSocket_stop :: "(world \<Rightarrow> world) \<Rightarrow> world \<Rightarrow> world" where
  "WebSocket_stop channelDisconnect w =
     (let w1 = (if ws_channel (w_ws w) then channelDisconnect w else w)
      in w1\<lparr>w_ws := (w_ws w1)\<lparr>ws_channel := False, ws_readyState := CLOSED\<rparr>\<rparr>)"

definition WebSocket_setBinaryType :: "ustring \<Rightarrow> world \<Rightarrow> world" where
  "WebSocket_setBinaryType t w =
     (if ch_useHixie76Protocol (w_ch w) then w
      else if t = us ''blob'' then w\<lparr>w_ws := (w_ws w)\<lparr>ws_binaryType := BinaryTypeBlob\<rparr>\<rparr>
      else if t = us ''arraybuffer'' then w\<lparr>w_ws := (w_ws w)\<lparr>ws_binaryType := BinaryTypeArrayBuffer\<rparr>\<rparr>
      else w)"

definition WebSocket_bufferedAmount :: "world \<Rightarrow> int64" where
  "WebSocket_bufferedAmount w =
     saturateAdd (word_of_nat (ws_bufferedAmount (w_ws w))) (ws_bufferedAmountAfterClose (w_ws w))"

definition WebSocket_suspend :: "world \<Rightarrow> world" where
  "WebSocket_suspend w =
     (let w1 = w\<lparr>w_ou := (w_ou w)\<lparr>ou_suspended := True\<rparr>\<rparr>
      in if ws_channel (w_ws w1) then w1\<lparr>w_ch := (w_ch w1)\<lparr>ch_suspended := True\<rparr>\<rparr> else w1)"

definition channel_resume :: "channel \<Rightarrow> channel" where
  "channel_resume c =
     (let c1 = c\<lparr>ch_suspended := False\<rparr>
      in if (ch_buffer c1 \<noteq> [] \<or> ch_closed c1) \<and> ch_client c1 then c1\<lparr>ch_resumeTimer := True\<rparr> else c1)"

definition WebSocket_resume :: "world \<Rightarrow> world" where
  "WebSocket_resume w = (if ws_channel (w_ws w) then w\<lparr>w_ch := channel_resume (w_ch w)\<rparr> else w)"

fun webSocketCommand ::
  "(ustring \<Rightarrow> world \<Rightarrow> world) \<Rightarrow> (byte list \<Rightarrow> world \<Rightarrow> world) \<Rightarrow> (int \<Rightarrow> ustring \<Rightarrow> world \<Rightarrow> world) \<Rightarrow>
    (world \<Rightarrow> world) \<Rightarrow> (world \<Rightarrow> world) \<Rightarrow> command \<Rightarrow> world \<Rightarrow> world" where
  "webSocketCommand chSend chSendBinary chClose chFail chDisconnect (Send message) w = WebSocket_send chSend message w"
| "webSocketCommand chSend chSendBinary chClose chFail chDisconnect (SendBinary data) w =
     WebSocket_sendBinary chSend chSendBinary data w"
| "webSocketCommand chSend chSendBinary chClose chFail chDisconnect (Close code reason) w =
     WebSocket_close chClose chFail code reason w"
| "webSocketCommand chSend chSendBinary chClose chFail chDisconnect Stop w = WebSocket_stop chDisconnect w"
| "webSocketCommand chSend chSendBinary chClose chFail chDisconnect (SetBinaryType t) w = WebSocket_setBinaryType t w"
| "webSocketCommand chSend chSendBinary chClose chFail chDisconnect Suspend w = WebSocket_suspend w"
| "webSocketCommand chSend chSendBinary chClose chFail chDisconnect Resume w = WebSocket_resume w"

subsection \<open>The socket closes\<close>

definition didUpdateBufferedAmount :: "world \<Rightarrow> world" where
  "didUpdateBufferedAmount w =
     (if ch_client (w_ch w) \<and> ws_readyState (w_ws w) \<noteq> CLOSED
      then w\<lparr>w_ws := (w_ws w)\<lparr>ws_bufferedAmount := length (so_buffer (w_so w))\<rparr>\<rparr> else w)"

definition abortOutgoingFrameQueue :: "channel \<Rightarrow> channel" where
  "abortOutgoingFrameQueue c =
     c\<lparr>ch_outgoingFrameQueue := [], ch_outgoingFrameQueueStatus := OutgoingFrameQueueClosed\<rparr>"

definition releaseSelf :: "world \<Rightarrow> world" where
  "releaseSelf w =
     (if ch_selfReference (w_ch w) then w\<lparr>w_ch := (w_ch w)\<lparr>ch_selfReference := False\<rparr>\<rparr> else raise UseAfterFree w)"

text \<open>
  \<open>didCloseSocketStream\<close>, over what the client does: it is called with the client, or, after
  \<open>disconnect\<close> has forgotten the client, without.
\<close>

definition streamClosed :: "(world \<Rightarrow> world) \<Rightarrow> world \<Rightarrow> world" where
  "streamClosed clientDidClose w =
     (let c = w_ch w;
          c1 = c\<lparr>ch_closed := True, ch_closingTimer := False\<rparr>;
          c2 = (if \<not> ch_useHixie76Protocol c1 \<and> ch_outgoingFrameQueueStatus c1 \<noteq> OutgoingFrameQueueClosed
                then abortOutgoingFrameQueue c1 else c1);
          w2 = w\<lparr>w_ch := c2\<rparr>
      in if ch_handle c2 then
           (let c3 = c2\<lparr>ch_unhandledBufferedAmount := length (so_buffer (w_so w))\<rparr>
            in if ch_suspended c3 then w\<lparr>w_ch := c3\<rparr>
               else
                 (let w4 = w\<lparr>w_ch := c3\<lparr>ch_client := False, ch_document := False, ch_handle := False\<rparr>\<rparr>
                  in releaseSelf (if ch_client c3 then clientDidClose w4 else w4)))
         else releaseSelf w2)"

definition deleteReadBuffer :: "world \<Rightarrow> world" where
  "deleteReadBuffer w =
     (case so_readBuffer (w_so w) of
        NoBuffer \<Rightarrow> w
      | Allocated \<Rightarrow> w\<lparr>w_so := (w_so w)\<lparr>so_readBuffer := Freed\<rparr>\<rparr>
      | Freed \<Rightarrow> raise DoubleFree w)"

definition platformClose_end :: "(world \<Rightarrow> world) \<Rightarrow> world \<Rightarrow> world" where
  "platformClose_end didClose w =
     didClose (deleteReadBuffer
       (w\<lparr>w_so := (w_so w)\<lparr>so_active := False, so_writeReadySource := False, so_socketConnection := False,
           so_streamClosed := True\<rparr>\<rparr>))"

definition setStreamState :: "socketStreamState \<Rightarrow> world \<Rightarrow> world" where
  "setStreamState s w = w\<lparr>w_so := (w_so w)\<lparr>so_state := s\<rparr>\<rparr>"

definition discardReceivedData :: "world \<Rightarrow> world" where
  "discardReceivedData w = w\<lparr>w_ch := (w_ch w)\<lparr>ch_shouldDiscardReceivedData := True\<rparr>\<rparr>"

text \<open>
  When closing the stream reports an error, the client is told that the stream failed and
  disconnects the handle, before the outer call goes on. A stream is closed only once.
\<close>

definition platformClose :: "channelEnv \<Rightarrow> (world \<Rightarrow> world) \<Rightarrow> world \<Rightarrow> world" where
  "platformClose env didClose w =
     (if so_socketConnection (w_so w) \<and> \<not> so_streamClosed (w_so w) \<and> en_closeFails env then
        (let w1 = w\<lparr>w_so := (w_so w)\<lparr>so_active := False, so_writeReadySource := False, so_streamClosed := True\<rparr>\<rparr>;
             w2 = setStreamState StreamClosed (platformClose_end didClose (discardReceivedData w1))
         in platformClose_end didClose w2)
      else platformClose_end didClose w)"

definition handle_disconnect :: "channelEnv \<Rightarrow> (world \<Rightarrow> world) \<Rightarrow> world \<Rightarrow> world" where
  "handle_disconnect env didClose w = setStreamState StreamClosed (platformClose env didClose w)"

definition channel_disconnect :: "channelEnv \<Rightarrow> world \<Rightarrow> world" where
  "channel_disconnect env w =
     (let w1 = w\<lparr>w_ch := (w_ch w)\<lparr>ch_client := False, ch_document := False\<rparr>\<rparr>
      in if ch_handle (w_ch w1) then handle_disconnect env (streamClosed (\<lambda>w. w)) w1 else w1)"

text \<open>
  The script's reaction to the close event. The ready state is \<open>CLOSED\<close>, so that its calls do not
  reach the channel.
\<close>

definition notReached :: "world \<Rightarrow> world" where
  "notReached w = raise AssertionFailed w"

definition runClosed :: "channelEnv \<Rightarrow> world \<Rightarrow> world" where
  "runClosed env w =
     fold (webSocketCommand (\<lambda>_. notReached) (\<lambda>_. notReached) (\<lambda>_ _. notReached) notReached (channel_disconnect env))
       (en_script env (ou_events (w_ou w))) w"

definition postEvent :: "scriptEvent \<Rightarrow> world \<Rightarrow> world" where
  "postEvent e w = w\<lparr>w_ou := (w_ou w)\<lparr>ou_events := ou_events (w_ou w) @ [e]\<rparr>\<rparr>"

definition WebSocket_didClose :: "channelEnv \<Rightarrow> nat \<Rightarrow> bool \<Rightarrow> nat \<Rightarrow> ustring option \<Rightarrow> world \<Rightarrow> world" where
  "WebSocket_didClose env unhandledBufferedAmount complete code reason w =
     (if \<not> ws_channel (w_ws w) then w
      else
        (let wasClean = (ws_readyState (w_ws w) = CLOSING \<and> unhandledBufferedAmount = 0 \<and> complete);
             w1 = w\<lparr>w_ws := (w_ws w)\<lparr>ws_readyState := CLOSED, ws_bufferedAmount := unhandledBufferedAmount\<rparr>\<rparr>;
             w2 = runClosed env (postEvent (CloseEvent wasClean code reason) w1)
         in if ws_channel (w_ws w2)
            then (let w3 = channel_disconnect env w2 in w3\<lparr>w_ws := (w_ws w3)\<lparr>ws_channel := False\<rparr>\<rparr>)
            else w2))"

definition didCloseSocketStream :: "channelEnv \<Rightarrow> world \<Rightarrow> world" where
  "didCloseSocketStream env =
     streamClosed (\<lambda>w. WebSocket_didClose env (ch_unhandledBufferedAmount (w_ch w))
       (ch_receivedClosingHandshake (w_ch w)) (ch_closeEventCode (w_ch w)) (ch_closeEventReason (w_ch w)) w)"

subsection \<open>Sending through the socket\<close>

definition didFailSocketStream :: "channelEnv \<Rightarrow> world \<Rightarrow> world" where
  "didFailSocketStream env w = handle_disconnect env (didCloseSocketStream env) (discardReceivedData w)"

definition channel_fail :: "channelEnv \<Rightarrow> world \<Rightarrow> world" where
  "channel_fail env w =
     (let c = w_ch w;
          w1 = (if ch_useHixie76Protocol c then w
                else w\<lparr>w_ch := c\<lparr>ch_shouldDiscardReceivedData := True, ch_buffer := [],
                         ch_hasContinuousFrame := False, ch_continuousFrameData := []\<rparr>\<rparr>)
      in if ch_handle (w_ch w1) \<and> \<not> ch_closed (w_ch w1) then handle_disconnect env (didCloseSocketStream env) w1
         else w1)"

definition platformSend :: "channelEnv \<Rightarrow> byte list \<Rightarrow> world \<Rightarrow> nat \<times> world" where
  "platformSend env data w =
     (let w1 = w\<lparr>w_ou := (w_ou w)\<lparr>ou_writes := Suc (ou_writes (w_ou w))\<rparr>\<rparr>
      in case en_write env (ou_writes (w_ou w)) of
           WouldBlock \<Rightarrow> (0, w1\<lparr>w_so := (w_so w1)\<lparr>so_writeReadySource := True\<rparr>\<rparr>)
         | WriteFailed \<Rightarrow> (0, didFailSocketStream env (w1\<lparr>w_ou := (w_ou w1)\<lparr>ou_writeFailed := True\<rparr>\<rparr>))
         | Written n \<Rightarrow>
             (let written = min n (length data);
                  w2 = w1\<lparr>w_ou := (w_ou w1)\<lparr>ou_wire := ou_wire (w_ou w1) @ take written data\<rparr>\<rparr>
              in (written, if written < length data then w2\<lparr>w_so := (w_so w2)\<lparr>so_writeReadySource := True\<rparr>\<rparr> else w2)))"

definition bufferSize :: int where
  "bufferSize = 100 * 1024 * 1024"

definition refuse :: "world \<Rightarrow> bool \<times> world" where
  "refuse w = (False, w\<lparr>w_ou := (w_ou w)\<lparr>ou_refused := True\<rparr>\<rparr>)"

definition accept :: "byte list \<Rightarrow> world \<Rightarrow> bool \<times> world" where
  "accept data w = (True, w\<lparr>w_ou := (w_ou w)\<lparr>ou_accepted := ou_accepted (w_ou w) @ data\<rparr>\<rparr>)"

definition appendToSocketBuffer :: "byte list \<Rightarrow> world \<Rightarrow> world" where
  "appendToSocketBuffer data w =
     didUpdateBufferedAmount (w\<lparr>w_so := (w_so w)\<lparr>so_buffer := so_buffer (w_so w) @ data\<rparr>\<rparr>)"

definition handle_send :: "channelEnv \<Rightarrow> byte list \<Rightarrow> world \<Rightarrow> bool \<times> world" where
  "handle_send env data w =
     (if so_state (w_so w) = StreamConnecting \<or> so_state (w_so w) = StreamClosing then refuse w
      else if so_buffer (w_so w) \<noteq> [] then
        (if bufferSize < int (length (so_buffer (w_so w)) + length data) then refuse w
         else accept data (appendToSocketBuffer data w))
      else
        (let (bytesWritten, w1) = (if so_state (w_so w) = StreamOpen then platformSend env data w else (0, w));
             w2 = (if handleAlive w1 then w1 else raise UseAfterFree w1)
         in if bufferSize < int (length (so_buffer (w_so w2)) + length data - bytesWritten) then refuse w2
            else if bytesWritten < length data then accept data (appendToSocketBuffer (drop bytesWritten data) w2)
            else accept data w2))"

definition handle_close :: "channelEnv \<Rightarrow> world \<Rightarrow> world" where
  "handle_close env w =
     (if so_state (w_so w) = StreamClosed then w
      else
        (let w1 = setStreamState StreamClosing w
         in if so_buffer (w_so w1) \<noteq> [] then w1 else handle_disconnect env (didCloseSocketStream env) w1))"

definition sendPendingData :: "channelEnv \<Rightarrow> world \<Rightarrow> world" where
  "sendPendingData env w =
     (if so_state (w_so w) \<noteq> StreamOpen \<and> so_state (w_so w) \<noteq> StreamClosing then w
      else if so_buffer (w_so w) = [] then
        (if so_state (w_so w) = StreamClosing then handle_disconnect env (didCloseSocketStream env) w else w)
      else
        (case platformSend env (so_buffer (w_so w)) w of (bytesWritten, w1) \<Rightarrow>
           if bytesWritten = 0 then w1
           else didUpdateBufferedAmount (w1\<lparr>w_so := (w_so w1)\<lparr>so_buffer := drop bytesWritten (so_buffer (w_so w1))\<rparr>\<rparr>)))"

end
