(* ===== verification/WS_Calls.thy ===== *)
theory WS_Calls
  imports WS_World
begin

section \<open>What a call keeps\<close>

text \<open>
  A call into the three objects runs through many operations, each of which changes a few fields.
  The locales here say once what a property of the world has to survive: \<open>call_invariant\<close> for the
  operations that end in closing the socket, \<open>send_invariant\<close> for those that send. The loops of the
  channel end because emptying the queue and the receive buffer are the only changes these calls
  make to them.
\<close>

definition emptied :: "channel \<Rightarrow> channel \<Rightarrow> bool" where
  "emptied c c' \<longleftrightarrow>
     (ch_outgoingFrameQueue c' = ch_outgoingFrameQueue c \<or> ch_outgoingFrameQueue c' = []) \<and>
     (ch_buffer c' = ch_buffer c \<or> ch_buffer c' = []) \<and>
     (ch_client c' \<longrightarrow> ch_client c) \<and> ch_handshake c' = ch_handshake c"

definition sameState :: "webSocket \<Rightarrow> webSocket \<Rightarrow> bool" where
  "sameState x x' \<longleftrightarrow> ws_readyState x' = ws_readyState x \<and> ws_channel x' = ws_channel x"

definition sameTraffic :: "outside \<Rightarrow> outside \<Rightarrow> bool" where
  "sameTraffic y y' \<longleftrightarrow>
     ou_wire y' = ou_wire y \<and> ou_accepted y' = ou_accepted y \<and> ou_refused y' = ou_refused y \<and> ou_events y' = ou_events y \<and>
     (ou_suspended y \<longrightarrow> ou_suspended y')"

named_theorems kept \<open>operations that keep the invariant\<close>

text \<open>
  The ready state and the events change in few places: when a closing handshake starts, when the
  document goes away and when the socket has closed. A property keeps through these by laws of
  their own.
\<close>

locale call_invariant =
  fixes P :: "world \<Rightarrow> bool"
  assumes ws: "P w \<Longrightarrow> sameState (w_ws w) x \<Longrightarrow> P (w\<lparr>w_ws := x\<rparr>)"
    and so: "P w \<Longrightarrow> so_buffer s = so_buffer (w_so w) \<Longrightarrow> P (w\<lparr>w_so := s\<rparr>)"
    and ou: "P w \<Longrightarrow> sameTraffic (w_ou w) y \<Longrightarrow> P (w\<lparr>w_ou := y\<rparr>)"
    and ch: "P w \<Longrightarrow> emptied (w_ch w) c \<Longrightarrow> P (w\<lparr>w_ch := c\<rparr>)"
    and closing: "P w \<Longrightarrow> ch_client (w_ch w) \<or> ws_readyState (w_ws w) = CONNECTING \<or> ws_readyState (w_ws w) = OPEN \<Longrightarrow>
      P (setReadyState CLOSING w)"
    and stop [kept]: "P w \<Longrightarrow> P (WebSocket_stop (channel_disconnect env) w)"
    and didClose [kept]: "P w \<Longrightarrow> P (WebSocket_didClose env n complete code reason w)"
begin

lemma updates [kept]:
  assumes "P v"
  shows "P (raise f v)" "P (setStreamState st v)" "P (discardReceivedData v)" "P (releaseSelf v)"
    "P (deleteReadBuffer v)" "P (countAfterClose n v)" "P (didUpdateBufferedAmount v)" "P (notReached v)" "P (useChannel v)"
    "P (WebSocket_setBinaryType t v)" "P (WebSocket_suspend v)" "P (WebSocket_resume v)"
  using assms
  by (auto simp: raise_def setStreamState_def discardReceivedData_def releaseSelf_def deleteReadBuffer_def
      countAfterClose_def didUpdateBufferedAmount_def notReached_def useChannel_def
      WebSocket_setBinaryType_def WebSocket_suspend_def WebSocket_resume_def channel_resume_def
      sameTraffic_def emptied_def sameState_def Let_def
      split: heapBuffer.splits intro!: ws so ou ch)

lemma if_kept [kept]: "(b \<Longrightarrow> P x) \<Longrightarrow> (\<not> b \<Longrightarrow> P y) \<Longrightarrow> P (if b then x else y)"
  by simp

lemma fold_kept [kept]: "(\<And>x v. P v \<Longrightarrow> P (f x v)) \<Longrightarrow> P v \<Longrightarrow> P (fold f xs v)"
  by (induction xs arbitrary: v) simp_all

lemma streamClosed [kept]:
  assumes "\<And>v. P v \<Longrightarrow> P (k v)" and "P v"
  shows "P (streamClosed k v)"
  using assms(2)
  by (auto simp: streamClosed_def Let_def abortOutgoingFrameQueue_def emptied_def intro!: updates(4) assms(1) ch)

lemma handle_disconnect [kept]:
  assumes "\<And>v. P v \<Longrightarrow> P (k v)" and "P v"
  shows "P (handle_disconnect env k v)"
proof -
  have a: "P (v\<lparr>w_so := (w_so v)\<lparr>so_active := False, so_writeReadySource := False, so_streamClosed := True\<rparr>\<rparr>)"
    if "P v" for v using that by (rule so) simp
  have e: "P (platformClose_end k v)" if "P v" for v
    unfolding platformClose_end_def by (rule assms(1), rule updates, rule so, rule that) simp
  show ?thesis
    unfolding handle_disconnect_def platformClose_def Let_def using assms(2) by (intro kept e a) simp_all
qed

lemma channel_disconnect [kept]: "P v \<Longrightarrow> P (channel_disconnect env v)"
proof -
  assume "P v"
  then have "P (v\<lparr>w_ch := (w_ch v)\<lparr>ch_client := False, ch_document := False\<rparr>\<rparr>)" by (rule ch) (simp add: emptied_def)
  then show ?thesis unfolding channel_disconnect_def Let_def by (intro kept) simp_all
qed

lemma webSocketCommand [kept]:
  assumes "\<And>m v. P v \<Longrightarrow> P (s m v)" and "\<And>m v. P v \<Longrightarrow> P (b m v)" and "\<And>c r v. P v \<Longrightarrow> P (k c r v)"
    and "\<And>v. P v \<Longrightarrow> P (f v)" and "P v"
  shows "P (webSocketCommand s b k f (channel_disconnect env) cmd v)"
  using assms(5)
  by (cases cmd)
    (auto simp: WebSocket_send_def WebSocket_sendBinary_def WebSocket_close_def Let_def
      split: webSocketState.splits intro!: updates closing stop assms(1-4))

lemma didCloseSocketStream [kept]: "P v \<Longrightarrow> P (didCloseSocketStream env v)"
  unfolding didCloseSocketStream_def by (intro kept) simp_all

lemma didFailSocketStream [kept]: "P v \<Longrightarrow> P (didFailSocketStream env v)"
  unfolding didFailSocketStream_def by (intro kept) simp_all

lemma handle_close [kept]: "P v \<Longrightarrow> P (handle_close env v)"
  unfolding handle_close_def Let_def by (intro kept) simp_all

lemma channel_fail [kept]: "P v \<Longrightarrow> P (channel_fail env v)"
proof -
  assume v: "P v"
  then have "P (v\<lparr>w_ch := (w_ch v)\<lparr>ch_shouldDiscardReceivedData := True, ch_buffer := [],
      ch_hasContinuousFrame := False, ch_continuousFrameData := []\<rparr>\<rparr>)" by (rule ch) (simp add: emptied_def)
  then show ?thesis unfolding channel_fail_def Let_def using v by (intro kept) simp_all
qed

end

text \<open>A property that does not look at the ready state and the events needs no laws for them.\<close>

locale plain_invariant =
  fixes P :: "world \<Rightarrow> bool"
  assumes any_ws: "P w \<Longrightarrow> P (w\<lparr>w_ws := x\<rparr>)"
    and other_so: "P w \<Longrightarrow> so_buffer s = so_buffer (w_so w) \<Longrightarrow> P (w\<lparr>w_so := s\<rparr>)"
    and other_ou: "P w \<Longrightarrow> sameTraffic (w_ou w) (y\<lparr>ou_events := ou_events (w_ou w)\<rparr>) \<Longrightarrow> P (w\<lparr>w_ou := y\<rparr>)"
    and other_ch: "P w \<Longrightarrow> emptied (w_ch w) c \<Longrightarrow> P (w\<lparr>w_ch := c\<rparr>)"
begin

lemma plain_close_end: "P w \<Longrightarrow> P (platformClose_end (streamClosed (\<lambda>w. w)) w)"
proof -
  have r: "P (raise f v)" if "P v" for f v
    using that by (auto simp: raise_def sameTraffic_def intro!: other_ou)
  have s: "P (streamClosed (\<lambda>w. w) v)" if "P v" for v
    using that by (auto simp: streamClosed_def releaseSelf_def abortOutgoingFrameQueue_def emptied_def Let_def intro!: r other_ch)
  have d: "P (deleteReadBuffer v)" if "P v" for v
    using that by (auto simp: deleteReadBuffer_def split: heapBuffer.splits intro!: other_so r)
  show "P w \<Longrightarrow> P (platformClose_end (streamClosed (\<lambda>w. w)) w)"
    by (auto simp: platformClose_end_def intro!: s d other_so)
qed

lemma plain_disconnect: "P w \<Longrightarrow> P (channel_disconnect env w)"
  by (auto simp: channel_disconnect_def handle_disconnect_def platformClose_def setStreamState_def discardReceivedData_def
      emptied_def Let_def intro!: plain_close_end other_so other_ch)

lemma plain_updates:
  assumes "P w"
  shows "P (setReadyState s w)" "P (WebSocket_stop (channel_disconnect env) w)" "P (postEvent e w)"
  using assms
  by (auto simp: setReadyState_def WebSocket_stop_def postEvent_def sameTraffic_def Let_def
      intro!: any_ws other_ou plain_disconnect)

lemma plain_command: "P w \<Longrightarrow> P (webSocketCommand (\<lambda>_. notReached) (\<lambda>_. notReached) (\<lambda>_ _. notReached) notReached
    (channel_disconnect env) cmd w)"
  by (cases cmd)
    (auto simp: WebSocket_send_def WebSocket_sendBinary_def WebSocket_close_def notReached_def raise_def
      countAfterClose_def WebSocket_setBinaryType_def WebSocket_suspend_def WebSocket_resume_def channel_resume_def sameTraffic_def emptied_def Let_def
      split: webSocketState.splits intro!: any_ws other_ou other_ch plain_updates)

lemma plain_didClose: "P w \<Longrightarrow> P (WebSocket_didClose env n complete code reason w)"
proof -
  have f: "P (fold (webSocketCommand (\<lambda>_. notReached) (\<lambda>_. notReached) (\<lambda>_ _. notReached) notReached
      (channel_disconnect env)) cs v)" if "P v" for cs v
    using that by (induction cs arbitrary: v) (simp_all add: plain_command)
  show "P w \<Longrightarrow> P (WebSocket_didClose env n complete code reason w)"
    by (auto simp: WebSocket_didClose_def runClosed_def Let_def intro!: f any_ws plain_disconnect plain_updates)
qed

end

sublocale plain_invariant \<subseteq> call_invariant
  by unfold_locales
    (auto intro: any_ws other_so other_ch plain_updates plain_didClose simp: sameTraffic_def intro!: other_ou)

locale send_invariant = call_invariant +
  fixes env :: channelEnv
  assumes handle_send: "P w \<Longrightarrow> P (snd (handle_send env data w))"
    and sendPendingData: "P w \<Longrightarrow> P (sendPendingData env w)"

text \<open>A property that no change of the socket or of the traffic can break survives a send.\<close>

locale free_invariant = call_invariant +
  assumes any_so: "P w \<Longrightarrow> P (w\<lparr>w_so := s\<rparr>)"
    and any_ou: "P w \<Longrightarrow> (ou_refused (w_ou w) \<longrightarrow> ou_refused y) \<Longrightarrow>
      (ou_suspended (w_ou w) \<longrightarrow> ou_suspended y) \<Longrightarrow> ou_events y = ou_events (w_ou w) \<Longrightarrow> P (w\<lparr>w_ou := y\<rparr>)"
begin

lemma platformSend: "P v \<Longrightarrow> P (snd (platformSend env data v))"
  by (auto simp: platformSend_def Let_def split: writeResult.splits intro!: any_so any_ou didFailSocketStream)

end

sublocale free_invariant \<subseteq> send_invariant P env for env
proof
  fix v and data :: "byte list"
  assume v: "P v"
  obtain n w1 where s: "(if so_state (w_so v) = StreamOpen then platformSend env data v else (0, v)) = (n, w1)" by fastforce
  then have "P w1" using v platformSend[OF v] by (metis snd_conv)
  then show "P (snd (handle_send env data v))"
    unfolding handle_send_def refuse_def accept_def appendToSocketBuffer_def s Let_def prod.case if_distrib[of snd] snd_conv
    using v by (intro kept any_so any_ou) simp_all
  obtain n w2 where s: "platformSend env (so_buffer (w_so v)) v = (n, w2)" by fastforce
  then have "P w2" using platformSend[OF v, of env "so_buffer (w_so v)"] by simp
  then show "P (sendPendingData env v)"
    unfolding sendPendingData_def s prod.case using v by (intro kept any_so) simp_all
qed

subsection \<open>Three properties that calls keep\<close>

text \<open>The queue and the buffer of a world stay, or are emptied.\<close>

definition settles :: "world \<Rightarrow> world \<Rightarrow> bool" where
  "settles w w' \<longleftrightarrow> emptied (w_ch w) (w_ch w')"

interpretation settles: plain_invariant "settles w" for w
  by unfold_locales (auto simp: settles_def emptied_def)

interpretation settles: free_invariant "settles w" for w
  by unfold_locales (auto simp: settles_def)

text \<open>A refused send and a suspension are remembered.\<close>

definition refused :: "world \<Rightarrow> bool" where
  "refused w \<longleftrightarrow> ou_refused (w_ou w)"

definition disturbed :: "world \<Rightarrow> bool" where
  "disturbed w \<longleftrightarrow> ou_refused (w_ou w) \<or> ou_suspended (w_ou w)"

interpretation disturbed: plain_invariant disturbed
  by unfold_locales (auto simp: disturbed_def sameTraffic_def)

interpretation disturbed: free_invariant disturbed
  by unfold_locales (auto simp: disturbed_def)

text \<open>The bytes on the wire and those in the buffer of the socket are the data that was accepted.\<close>

definition inOrder :: "world \<Rightarrow> bool" where
  "inOrder w \<longleftrightarrow> refused w \<or> ou_wire (w_ou w) @ so_buffer (w_so w) = ou_accepted (w_ou w)"

interpretation inOrder: plain_invariant inOrder
  by unfold_locales (simp_all add: inOrder_def refused_def sameTraffic_def)

text \<open>
  After a write, the bytes that were written are ahead of those accepted; what is left goes to the
  buffer, which is empty or about to lose them.
\<close>

lemma platformSend_traffic:
  assumes "platformSend env data w = (n, w1)"
  shows "n = 0 \<and> (inOrder w \<longrightarrow> inOrder w1) \<or>
    ou_wire (w_ou w1) = ou_wire (w_ou w) @ take n data \<and> so_buffer (w_so w1) = so_buffer (w_so w) \<and>
    ou_accepted (w_ou w1) = ou_accepted (w_ou w) \<and> ou_refused (w_ou w1) = ou_refused (w_ou w)"
proof (cases "en_write env (ou_writes (w_ou w))")
  case WriteFailed
  have "inOrder (didFailSocketStream env (w\<lparr>w_ou := (w_ou w)\<lparr>ou_writes := k, ou_writeFailed := b\<rparr>\<rparr>))"
    if "inOrder w" for k b
    by (intro kept inOrder.ou) (simp_all add: that sameTraffic_def)
  then show ?thesis using assms WriteFailed by (auto simp: platformSend_def Let_def)
qed (use assms in \<open>auto simp: platformSend_def Let_def min_def split: if_splits\<close>)

lemma handle_send_inOrder:
  assumes "inOrder w"
  shows "inOrder (snd (handle_send env data w))"
proof (cases "so_state (w_so w) = StreamOpen \<and> so_buffer (w_so w) = []")
  case True
  obtain n w1 where s: "platformSend env data w = (n, w1)" by fastforce
  then show ?thesis
    using True assms platformSend_traffic[OF s]
    by (auto simp: handle_send_def refuse_def accept_def raise_def appendToSocketBuffer_def didUpdateBufferedAmount_def
        inOrder_def refused_def)
next
  case False
  then show ?thesis
    using assms
    by (auto simp: handle_send_def refuse_def accept_def raise_def appendToSocketBuffer_def didUpdateBufferedAmount_def
        inOrder_def refused_def Let_def)
qed

lemma sendPendingData_inOrder:
  assumes "inOrder w"
  shows "inOrder (sendPendingData env w)"
proof -
  obtain n w1 where s: "platformSend env (so_buffer (w_so w)) w = (n, w1)" by fastforce
  have "inOrder (handle_disconnect env (didCloseSocketStream env) w)" using assms by (intro kept)
  then show ?thesis
    using assms platformSend_traffic[OF s]
    by (auto simp: sendPendingData_def s inOrder_def refused_def didUpdateBufferedAmount_def)
qed

interpretation inOrder: send_invariant inOrder env for env
  by unfold_locales (rule handle_send_inOrder sendPendingData_inOrder, assumption)+

end
