(* ===== verification/WS_Channel.thy ===== *)
theory WS_Channel
  imports WS_Calls WS_Frame_Correct WS_Handshake_Correct
begin

section \<open>The WebSocket channel\<close>

text \<open>
  \<^verbatim>\<open>websockets/WebSocketChannel.cpp\<close> above the socket: the queue of outgoing frames, the closing
  handshake, the events for the script and the frames that arrive. The methods that hold the
  channel by a \<^verbatim>\<open>RefPtr\<close> are in \<open>WS_Connection\<close>; \<open>processBuffer\<close> runs inside them.
\<close>

subsection \<open>The outgoing queue\<close>

definition sendFrame :: "channelEnv \<Rightarrow> opCode \<Rightarrow> byte list \<Rightarrow> world \<Rightarrow> bool \<times> world" where
  "sendFrame env opCode data w =
     (if \<not> ch_handle (w_ch w) then (False, raise NullPointer w)
      else handle_send env (sendFrame_bytes opCode (bytes32 (en_mask env (ou_frames (w_ou w)))) data)
             (w\<lparr>w_ou := (w_ou w)\<lparr>ou_frames := Suc (ou_frames (w_ou w))\<rparr>\<rparr>))"

definition sendQueuedFrame :: "channelEnv \<Rightarrow> queuedFrame \<Rightarrow> world \<Rightarrow> world" where
  "sendQueuedFrame env frame w =
     (case (case frame of
              QueuedFrameTypeString opCode s \<Rightarrow> sendFrame env opCode (utf8Bytes_of s) w
            | QueuedFrameTypeVector opCode data \<Rightarrow> sendFrame env opCode data w) of
        (True, w1) \<Rightarrow> useChannel w1
      | (False, w1) \<Rightarrow> useChannel (channel_fail env w1))"

context send_invariant
begin

lemma sendFrame: "P v \<Longrightarrow> P (snd (sendFrame env opCode data v))"
  unfolding sendFrame_def if_distrib[of snd] snd_conv by (intro kept ou handle_send) (simp_all add: sameTraffic_def)

lemma sendQueuedFrame [kept]:
  assumes "P v"
  shows "P (sendQueuedFrame env frame v)"
proof -
  have "P w1" if "sendFrame env opCode data v = (b, w1)" for opCode data b w1
    using sendFrame[OF assms, of opCode data] that by simp
  then show ?thesis
    by (auto simp: sendQueuedFrame_def split: queuedFrame.splits prod.splits bool.splits intro!: kept)
qed

end

function drainQueue :: "channelEnv \<Rightarrow> world \<Rightarrow> world" where
  "drainQueue env w =
     (case ch_outgoingFrameQueue (w_ch w) of
        [] \<Rightarrow> w
      | frame # frames \<Rightarrow>
          drainQueue env (sendQueuedFrame env frame (w\<lparr>w_ch := (w_ch w)\<lparr>ch_outgoingFrameQueue := frames\<rparr>\<rparr>)))"
  by pat_completeness auto
termination
proof (relation "measure (\<lambda>(env, w). length (ch_outgoingFrameQueue (w_ch w)))", goal_cases)
  case (2 env w frame frames)
  let ?w = "w\<lparr>w_ch := (w_ch w)\<lparr>ch_outgoingFrameQueue := frames\<rparr>\<rparr>"
  have "settles ?w ?w" by (simp add: settles_def emptied_def)
  then have "settles ?w (sendQueuedFrame env frame ?w)" by (rule settles.sendQueuedFrame)
  then show ?case using 2 by (auto simp: settles_def emptied_def)
qed simp

declare drainQueue.simps [simp del]

definition processOutgoingFrameQueue :: "channelEnv \<Rightarrow> world \<Rightarrow> world" where
  "processOutgoingFrameQueue env w =
     (if ch_outgoingFrameQueueStatus (w_ch w) = OutgoingFrameQueueClosed then w
      else
        (let w1 = drainQueue env w
         in if ch_outgoingFrameQueueStatus (w_ch w1) = OutgoingFrameQueueClosing then
              (let w2 = w1\<lparr>w_ch := (w_ch w1)\<lparr>ch_outgoingFrameQueueStatus := OutgoingFrameQueueClosed\<rparr>\<rparr>
               in if ch_handle (w_ch w2) then handle_close env w2 else raise NullPointer w2)
            else w1))"

definition enqueueFrame :: "channelEnv \<Rightarrow> queuedFrame \<Rightarrow> world \<Rightarrow> world" where
  "enqueueFrame env frame w =
     processOutgoingFrameQueue env
       (w\<lparr>w_ch := (w_ch w)\<lparr>ch_outgoingFrameQueue := ch_outgoingFrameQueue (w_ch w) @ [frame]\<rparr>\<rparr>)"

subsection \<open>Operations of the channel\<close>

definition channel_send :: "channelEnv \<Rightarrow> ustring \<Rightarrow> world \<Rightarrow> world" where
  "channel_send env message w =
     (if ch_useHixie76Protocol (w_ch w) then
        (if ch_handle (w_ch w) then snd (handle_send env (sendFrameHixie76_bytes (utf8Bytes_of message)) w)
         else raise NullPointer w)
      else enqueueFrame env (QueuedFrameTypeString OpCodeText message) w)"

definition channel_sendBinary :: "channelEnv \<Rightarrow> byte list \<Rightarrow> world \<Rightarrow> world" where
  "channel_sendBinary env data w = enqueueFrame env (QueuedFrameTypeVector OpCodeBinary data) w"

definition didStartClosingHandshake :: "world \<Rightarrow> world" where
  "didStartClosingHandshake w =
     (let w1 = w\<lparr>w_ch := (w_ch w)\<lparr>ch_closing := True\<rparr>\<rparr>
      in if ch_client (w_ch w1) then setReadyState CLOSING w1 else w1)"

definition startClosingHandshake :: "channelEnv \<Rightarrow> int \<Rightarrow> ustring option \<Rightarrow> world \<Rightarrow> world" where
  "startClosingHandshake env code reason w =
     (if ch_closing (w_ch w) then w
      else if ch_useHixie76Protocol (w_ch w) then
        (if \<not> ch_handle (w_ch w) then raise NullPointer w
         else
           (case handle_send env [0xFF, 0x00] w of
              (False, w1) \<Rightarrow>
                if ch_handle (w_ch w1) then handle_disconnect env (didCloseSocketStream env) w1 else raise NullPointer w1
            | (True, w1) \<Rightarrow> didStartClosingHandshake (useChannel w1)))
      else
        (let buf = (if \<not> ch_receivedClosingHandshake (w_ch w) \<and> code \<noteq> -1
                    then [word_of_int (code div 256), word_of_int code] @ (case reason of None \<Rightarrow> [] | Some s \<Rightarrow> utf8Bytes_of s)
                    else [])
         in didStartClosingHandshake (useChannel (enqueueFrame env (QueuedFrameTypeVector OpCodeClose buf) w))))"

definition channel_close :: "channelEnv \<Rightarrow> int \<Rightarrow> ustring \<Rightarrow> world \<Rightarrow> world" where
  "channel_close env code reason w =
     (if \<not> ch_handle (w_ch w) then w
      else
        (let w1 = useChannel (startClosingHandshake env code (Some reason) w)
         in if ch_closing (w_ch w1) \<and> \<not> ch_closingTimer (w_ch w1)
            then w1\<lparr>w_ch := (w_ch w1)\<lparr>ch_closingTimer := True\<rparr>\<rparr> else w1))"

subsection \<open>Events for the script\<close>

definition runCommand :: "channelEnv \<Rightarrow> command \<Rightarrow> world \<Rightarrow> world" where
  "runCommand env =
     webSocketCommand (channel_send env) (channel_sendBinary env) (channel_close env) (channel_fail env) (channel_disconnect env)"

definition dispatchEvent :: "channelEnv \<Rightarrow> scriptEvent \<Rightarrow> world \<Rightarrow> world" where
  "dispatchEvent env e w = (let w1 = postEvent e w in fold (runCommand env) (en_script env (ou_events (w_ou w1))) w1)"

definition subprotocol :: "channelEnv \<Rightarrow> world \<Rightarrow> ustring" where
  "subprotocol env w =
     (if hs_mode (ch_handshake (w_ch w)) \<noteq> Connected then []
      else case serverHeader (en_handshake env) (ch_handshake (w_ch w)) ''sec-websocket-protocol'' of
             None \<Rightarrow> [] | Some p \<Rightarrow> p)"

definition didConnect :: "channelEnv \<Rightarrow> world \<Rightarrow> world" where
  "didConnect env w =
     (if ws_readyState (w_ws w) \<noteq> CONNECTING then WebSocket_didClose env 0 False 1006 (Some []) w
      else
        dispatchEvent env OpenEvent
          (w\<lparr>w_ws := (w_ws w)\<lparr>ws_readyState := OPEN, ws_subprotocol := subprotocol env w\<rparr>\<rparr>))"

definition didReceiveMessage :: "channelEnv \<Rightarrow> ustring \<Rightarrow> world \<Rightarrow> world" where
  "didReceiveMessage env msg w =
     (if ws_readyState (w_ws w) = OPEN \<or> ws_readyState (w_ws w) = CLOSING then dispatchEvent env (MessageEvent msg) w else w)"

definition didReceiveBinaryData :: "channelEnv \<Rightarrow> byte list \<Rightarrow> world \<Rightarrow> world" where
  "didReceiveBinaryData env data w = dispatchEvent env (BinaryEvent (ws_binaryType (w_ws w)) data) w"

definition didReceiveMessageError :: "channelEnv \<Rightarrow> world \<Rightarrow> world" where
  "didReceiveMessageError env w =
     (if ws_readyState (w_ws w) = OPEN \<or> ws_readyState (w_ws w) = CLOSING then dispatchEvent env ErrorEvent w else w)"

definition toClient :: "(world \<Rightarrow> world) \<Rightarrow> world \<Rightarrow> world" where
  "toClient call w = (if ch_client (w_ch w) then call w else raise NullPointer w)"

subsection \<open>What these calls keep\<close>

text \<open>
  A message or an error is dispatched only while the channel has a client and the handshake has
  succeeded.
\<close>

definition mayDispatch :: "world \<Rightarrow> bool" where
  "mayDispatch w \<longleftrightarrow> ch_client (w_ch w) \<and> hs_mode (ch_handshake (w_ch w)) = Connected"

definition isMessage :: "scriptEvent \<Rightarrow> bool" where
  "isMessage e = (case e of OpenEvent \<Rightarrow> False | CloseEvent _ _ _ \<Rightarrow> False | _ \<Rightarrow> True)"

locale queue_invariant = send_invariant +
  assumes queue: "P w \<Longrightarrow> P (w\<lparr>w_ch := (w_ch w)\<lparr>ch_outgoingFrameQueue := q\<rparr>\<rparr>)"
    and post: "P w \<Longrightarrow> mayDispatch w \<Longrightarrow> isMessage e \<Longrightarrow> P (postEvent e w)"
begin

lemma drainQueue [kept]: "P v \<Longrightarrow> P (drainQueue env v)"
proof -
  have "e = env \<Longrightarrow> P v \<Longrightarrow> P (drainQueue e v)" for e
    by (induction e v rule: drainQueue.induct) (subst drainQueue.simps, auto split: list.split intro!: sendQueuedFrame queue)
  then show "P v \<Longrightarrow> P (drainQueue env v)" by simp
qed

lemma processOutgoingFrameQueue [kept]: "P v \<Longrightarrow> P (processOutgoingFrameQueue env v)"
  unfolding processOutgoingFrameQueue_def Let_def by (intro kept ch) (auto simp: emptied_def intro: kept)

lemma enqueueFrame [kept]: "P v \<Longrightarrow> P (enqueueFrame env frame v)"
  unfolding enqueueFrame_def by (intro kept queue)

lemma channel_sends [kept]:
  assumes "P v"
  shows "P (channel_send env message v)" "P (channel_sendBinary env data v)"
  unfolding channel_send_def channel_sendBinary_def using assms by (auto intro!: kept handle_send)

lemma didStartClosingHandshake [kept]: "P v \<Longrightarrow> P (didStartClosingHandshake v)"
  unfolding didStartClosingHandshake_def Let_def by (intro kept ch closing) (auto simp: emptied_def)

lemma startClosingHandshake [kept]:
  assumes "P v"
  shows "P (startClosingHandshake env code reason v)"
proof -
  have "P w1" if "handle_send env [0xFF, 0x00] v = (b, w1)" for b w1
    using handle_send[OF assms, of "[0xFF, 0x00]"] that by simp
  then show ?thesis
    using assms by (auto simp: startClosingHandshake_def Let_def split: prod.splits bool.splits intro!: kept)
qed

lemma channel_close [kept]: "P v \<Longrightarrow> P (channel_close env code reason v)"
  unfolding channel_close_def Let_def by (intro kept ch) (auto simp: emptied_def intro: kept)

lemma commands [kept]: "P v \<Longrightarrow> P (fold (runCommand env) cs v)"
  unfolding runCommand_def by (intro kept)

lemma client_calls [kept]:
  assumes "P v" and "mayDispatch v"
  shows "P (didReceiveMessage env msg v)" "P (didReceiveBinaryData env data v)" "P (didReceiveMessageError env v)"
  unfolding didReceiveMessage_def didReceiveBinaryData_def didReceiveMessageError_def dispatchEvent_def Let_def
  using assms by (auto simp: isMessage_def intro!: kept post)

lemma toClient [kept]: "(P v \<Longrightarrow> ch_client (w_ch v) \<Longrightarrow> P (call v)) \<Longrightarrow> P v \<Longrightarrow> P (toClient call v)"
  unfolding toClient_def by (intro kept)

end

locale plain_queue_invariant = plain_invariant P + queue_invariant P env for P env
begin

lemma plain_dispatch: "P v \<Longrightarrow> P (dispatchEvent env e v)"
  unfolding dispatchEvent_def Let_def by (intro kept plain_updates)

lemma plain_client_calls [kept]:
  assumes "P v"
  shows "P (didConnect env v)" "P (didReceiveMessage env msg v)" "P (didReceiveBinaryData env data v)"
    "P (didReceiveMessageError env v)"
  unfolding didConnect_def didReceiveMessage_def didReceiveBinaryData_def didReceiveMessageError_def
  using assms by (auto intro!: kept plain_dispatch any_ws)

end

subsection \<open>The receive buffer\<close>

definition setBuffer :: "byte list \<Rightarrow> world \<Rightarrow> world" where
  "setBuffer b w = w\<lparr>w_ch := (w_ch w)\<lparr>ch_buffer := b\<rparr>\<rparr>"

definition skipBuffer :: "nat \<Rightarrow> world \<Rightarrow> world" where
  "skipBuffer len w =
     (if len \<le> length (ch_buffer (w_ch w)) then setBuffer (drop len (ch_buffer (w_ch w))) w else raise ReadPastEnd w)"

definition moreData :: "world \<Rightarrow> bool \<times> world" where
  "moreData w = (ch_buffer (w_ch w) \<noteq> [], w)"

definition decodeText :: "byte list \<Rightarrow> fault + ustring option" where
  "decodeText payload = (if payload = [] then Inr (Some []) else fromUTF8 (Some payload))"

definition deliverText :: "channelEnv \<Rightarrow> fault + ustring option \<Rightarrow> world \<Rightarrow> world" where
  "deliverText env message w =
     (case message of
        Inl f \<Rightarrow> raise f w
      | Inr None \<Rightarrow> channel_fail env w
      | Inr (Some msg) \<Rightarrow> toClient (didReceiveMessage env msg) w)"

definition startContinuousFrame :: "opCode \<Rightarrow> byte list \<Rightarrow> world \<Rightarrow> world" where
  "startContinuousFrame opCode payload w =
     w\<lparr>w_ch := (w_ch w)\<lparr>ch_hasContinuousFrame := True, ch_continuousFrameOpCode := opCode,
         ch_continuousFrameData := ch_continuousFrameData (w_ch w) @ payload\<rparr>\<rparr>"

definition processContinuation :: "channelEnv \<Rightarrow> frameData \<Rightarrow> world \<Rightarrow> bool \<times> world" where
  "processContinuation env frame w =
     (if \<not> ch_hasContinuousFrame (w_ch w) then (False, channel_fail env w)
      else
        (let data = ch_continuousFrameData (w_ch w) @ fr_payload frame;
             w1 = skipBuffer (fr_frameEnd frame) (w\<lparr>w_ch := (w_ch w)\<lparr>ch_continuousFrameData := data\<rparr>\<rparr>)
         in if fr_final frame then
              (let w2 = w1\<lparr>w_ch := (w_ch w1)\<lparr>ch_continuousFrameData := [], ch_hasContinuousFrame := False\<rparr>\<rparr>
               in if ch_continuousFrameOpCode (w_ch w2) = OpCodeText then moreData (deliverText env (decodeText data) w2)
                  else if ch_continuousFrameOpCode (w_ch w2) = OpCodeBinary then
                    moreData (toClient (didReceiveBinaryData env data) w2)
                  else moreData w2)
            else moreData w1))"

definition processText :: "channelEnv \<Rightarrow> frameData \<Rightarrow> world \<Rightarrow> bool \<times> world" where
  "processText env frame w =
     (if fr_final frame then
        moreData (deliverText env (decodeText (fr_payload frame)) (skipBuffer (fr_frameEnd frame) w))
      else moreData (skipBuffer (fr_frameEnd frame) (startContinuousFrame OpCodeText (fr_payload frame) w)))"

definition processBinary :: "channelEnv \<Rightarrow> frameData \<Rightarrow> world \<Rightarrow> bool \<times> world" where
  "processBinary env frame w =
     (if fr_final frame then
        moreData (toClient (didReceiveBinaryData env (fr_payload frame)) (skipBuffer (fr_frameEnd frame) w))
      else moreData (skipBuffer (fr_frameEnd frame) (startContinuousFrame OpCodeBinary (fr_payload frame) w)))"

definition closeAfterAnswer :: "channelEnv \<Rightarrow> world \<Rightarrow> bool \<times> world" where
  "closeAfterAnswer env w =
     (if ch_closing (w_ch w) then
        moreData (processOutgoingFrameQueue env
          (w\<lparr>w_ch := (w_ch w)\<lparr>ch_outgoingFrameQueueStatus := OutgoingFrameQueueClosing\<rparr>\<rparr>))
      else moreData w)"

definition processClose :: "channelEnv \<Rightarrow> frameData \<Rightarrow> world \<Rightarrow> bool \<times> world" where
  "processClose env frame w =
     (let payload = fr_payload frame;
          code = (if 2 \<le> length payload then unat (payload ! 0) * 256 + unat (payload ! 1) else 1005);
          w1 = w\<lparr>w_ch := (w_ch w)\<lparr>ch_closeEventCode := code\<rparr>\<rparr>
      in case (if 3 \<le> length payload then fromUTF8 (Some (drop 2 payload)) else Inr (Some [])) of
           Inl f \<Rightarrow> (False, raise f w1)
         | Inr reason \<Rightarrow>
             (let w2 = skipBuffer (fr_frameEnd frame) (w1\<lparr>w_ch := (w_ch w1)\<lparr>ch_closeEventReason := reason\<rparr>\<rparr>);
                  w3 = w2\<lparr>w_ch := (w_ch w2)\<lparr>ch_receivedClosingHandshake := True\<rparr>\<rparr>
              in closeAfterAnswer env (startClosingHandshake env (int code) reason w3)))"

text \<open>
  After the pong, the length to skip is the difference of \<open>frameEnd\<close> and \<open>m_buffer\<close>: when sending
  the pong has failed, the buffer has been freed and \<open>m_buffer\<close> is null.
\<close>

definition processPing :: "channelEnv \<Rightarrow> frameData \<Rightarrow> world \<Rightarrow> bool \<times> world" where
  "processPing env frame w =
     (let w1 = enqueueFrame env (QueuedFrameTypeVector OpCodePong (fr_payload frame)) w
      in if ch_buffer (w_ch w1) = [] then (False, raise ReadPastEnd w1)
         else moreData (skipBuffer (fr_frameEnd frame) w1))"

definition invalidFrame :: "frameData \<Rightarrow> channel \<Rightarrow> bool" where
  "invalidFrame frame c \<longleftrightarrow>
     isReservedOpCode (fr_opCode frame) \<or> fr_reserved1 frame \<or> fr_reserved2 frame \<or> fr_reserved3 frame \<or>
     (isControlOpCode (fr_opCode frame) \<and> \<not> fr_final frame) \<or>
     (isControlOpCode (fr_opCode frame) \<and> maxPayloadLengthWithoutExtendedLengthField < length (fr_payload frame)) \<or>
     (ch_hasContinuousFrame c \<and> fr_opCode frame \<noteq> OpCodeContinuation \<and> \<not> isControlOpCode (fr_opCode frame))"

definition processFrame :: "channelEnv \<Rightarrow> world \<Rightarrow> bool \<times> world" where
  "processFrame env w =
     (case parseFrame (ch_buffer (w_ch w)) of
        (FrameIncomplete, b) \<Rightarrow> (False, setBuffer b w)
      | (FrameError n, b) \<Rightarrow> (False, channel_fail env (setBuffer b w))
      | (FrameOK frame, b) \<Rightarrow>
          (let w1 = setBuffer b w; opCode = fr_opCode frame
           in if invalidFrame frame (w_ch w1) then (False, channel_fail env w1)
              else if opCode = OpCodeContinuation then processContinuation env frame w1
              else if opCode = OpCodeText then processText env frame w1
              else if opCode = OpCodeBinary then processBinary env frame w1
              else if opCode = OpCodeClose then processClose env frame w1
              else if opCode = OpCodePing then processPing env frame w1
              else moreData (skipBuffer (fr_frameEnd frame) w1)))"

definition closeAfterAnswerHixie76 :: "channelEnv \<Rightarrow> world \<Rightarrow> bool \<times> world" where
  "closeAfterAnswerHixie76 env w =
     (if ch_closing (w_ch w) then
        (if ch_handle (w_ch w) then moreData (handle_close env w) else (False, raise NullPointer w))
      else moreData w)"

definition processFrameHixie76 :: "channelEnv \<Rightarrow> world \<Rightarrow> bool \<times> world" where
  "processFrameHixie76 env w =
     (case parseFrameHixie76 (en_address env) (ch_buffer (w_ch w)) of
        HixieIncomplete \<Rightarrow> (False, w)
      | HixieError \<Rightarrow>
          (let w1 = discardReceivedData (setBuffer [] w)
           in (False, channel_fail env (toClient (didReceiveMessageError env) w1)))
      | HixieSkipped n \<Rightarrow> moreData (toClient (didReceiveMessageError env) (skipBuffer n w))
      | HixieClosing n \<Rightarrow>
          (let w1 = skipBuffer n w;
               w2 = w1\<lparr>w_ch := (w_ch w1)\<lparr>ch_receivedClosingHandshake := True\<rparr>\<rparr>
           in closeAfterAnswerHixie76 env (startClosingHandshake env (-1) (Some []) w2))
      | HixieText message n \<Rightarrow>
          (case fromUTF8 (Some message) of
             Inl f \<Rightarrow> (False, raise f w)
           | Inr msg \<Rightarrow>
               moreData (toClient (didReceiveMessage env (case msg of None \<Rightarrow> [] | Some s \<Rightarrow> s)) (skipBuffer n w)))
      | HixieUnknown n \<Rightarrow> moreData (toClient (didReceiveMessageError env) (skipBuffer n w)))"

definition readHandshake :: "channelEnv \<Rightarrow> world \<Rightarrow> bool \<times> world" where
  "readHandshake env w =
     (case readServerHandshake (en_handshake env) (ch_buffer (w_ch w)) (ch_handshake (w_ch w)) of
        Inl f \<Rightarrow> (False, raise f w)
      | Inr (headerLength, h) \<Rightarrow>
          (let w1 = w\<lparr>w_ch := (w_ch w)\<lparr>ch_handshake := h\<rparr>\<rparr>
           in if headerLength \<le> 0 then (False, w1)
              else if hs_mode h = Connected then moreData (toClient (didConnect env) (skipBuffer (nat headerLength) w1))
              else (False, channel_fail env (discardReceivedData (skipBuffer (nat headerLength) w1)))))"

definition protectChannel :: "bool \<Rightarrow> world \<Rightarrow> world" where
  "protectChannel b w = w\<lparr>w_ch := (w_ch w)\<lparr>ch_protected := b\<rparr>\<rparr>"

definition processBuffer :: "channelEnv \<Rightarrow> world \<Rightarrow> bool \<times> world" where
  "processBuffer env w =
     (let c = w_ch w
      in if ch_shouldDiscardReceivedData c then (False, w)
         else if ch_receivedClosingHandshake c then (False, setBuffer [] w)
         else if hs_mode (ch_handshake c) = Incomplete then readHandshake env w
         else if hs_mode (ch_handshake c) \<noteq> Connected then (False, w)
         else if ch_useHixie76Protocol c then processFrameHixie76 env w
         else processFrame env w)"

end
