(* ===== verification/WS_Connection.thy ===== *)
theory WS_Connection
  imports WS_Channel WS_Properties
begin

section \<open>The life of a connection\<close>

text \<open>
  The loop over the receive buffer, the callbacks of the socket and the timers, and the step
  relation of a connection.
\<close>

subsection \<open>The receive loop ends\<close>

text \<open>No call from the script or of the channel makes the receive buffer longer.\<close>

definition keepsBuffer :: "byte list \<Rightarrow> world \<Rightarrow> bool" where
  "keepsBuffer b v \<longleftrightarrow> ch_buffer (w_ch v) = b \<or> ch_buffer (w_ch v) = []"

interpretation keepsBuffer: plain_invariant "keepsBuffer b" for b
  by unfold_locales (auto simp: keepsBuffer_def emptied_def)

interpretation keepsBuffer: free_invariant "keepsBuffer b" for b
  by unfold_locales (auto simp: keepsBuffer_def)

interpretation keepsBuffer: plain_queue_invariant "keepsBuffer b" env for b env
  by unfold_locales (simp_all add: keepsBuffer_def postEvent_def)

lemma keepsBuffer_updates [simp]:
  "ch_buffer c = ch_buffer (w_ch v) \<Longrightarrow> keepsBuffer b (v\<lparr>w_ch := c\<rparr>) = keepsBuffer b v"
  "n \<le> length (ch_buffer (w_ch v)) \<Longrightarrow> keepsBuffer (drop n (ch_buffer (w_ch v))) (skipBuffer n v)"
  by (simp_all add: keepsBuffer_def skipBuffer_def setBuffer_def)

lemma keepsBuffer_skip:
  "ch_buffer (w_ch v) = b \<Longrightarrow> n \<le> length b \<Longrightarrow> keepsBuffer (drop n b) (skipBuffer n v)"
  by (simp add: keepsBuffer_def skipBuffer_def setBuffer_def)

lemma keepsBuffer_deliverText: "keepsBuffer b v \<Longrightarrow> keepsBuffer b (deliverText env m v)"
  by (auto simp: deliverText_def split: sum.splits option.splits intro!: kept)

definition shorter :: "nat \<Rightarrow> bool \<times> world \<Rightarrow> bool" where
  "shorter n r \<longleftrightarrow> (fst r \<longrightarrow> length (ch_buffer (w_ch (snd r))) < n)"

lemma shorter_False [simp]: "shorter n (False, v)"
  by (simp add: shorter_def)

lemma shorter_more: "keepsBuffer (drop n b) v \<Longrightarrow> 0 < n \<Longrightarrow> n \<le> length b \<Longrightarrow> shorter (length b) (moreData v)"
  by (auto simp: shorter_def moreData_def keepsBuffer_def)

lemma shorter_frames:
  assumes "0 < fr_frameEnd frame" and "fr_frameEnd frame \<le> length (ch_buffer (w_ch w))"
    and "l = length (ch_buffer (w_ch w))"
  shows "shorter l (processText env frame w)" "shorter l (processBinary env frame w)"
    "shorter l (processContinuation env frame w)" "shorter l (processClose env frame w)"
    "shorter l (moreData (skipBuffer (fr_frameEnd frame) w))"
  using assms
  by (auto simp: processText_def processBinary_def processContinuation_def processClose_def closeAfterAnswer_def startContinuousFrame_def Let_def
      split: sum.split intro!: shorter_more[where n = "fr_frameEnd frame"] keepsBuffer_deliverText keepsBuffer_skip kept)

lemma shorter_ping:
  assumes "0 < fr_frameEnd frame" and "fr_frameEnd frame \<le> length (ch_buffer (w_ch w))"
    and "l = length (ch_buffer (w_ch w))"
  shows "shorter l (processPing env frame w)"
proof -
  have "keepsBuffer (ch_buffer (w_ch w)) (enqueueFrame env (QueuedFrameTypeVector OpCodePong (fr_payload frame)) w)"
    by (intro kept) (simp add: keepsBuffer_def)
  then show ?thesis
    using assms by (auto simp: processPing_def Let_def keepsBuffer_def intro!: shorter_more keepsBuffer_skip)
qed

lemma shorter_processFrame: "shorter (length (ch_buffer (w_ch w))) (processFrame env w)"
proof -
  have "0 < fr_frameEnd f \<and> fr_frameEnd f \<le> length b \<and> length b = length (ch_buffer (w_ch w))"
    if "parseFrame (ch_buffer (w_ch w)) = (FrameOK f, b)" for f b
    using parseFrame_bounds[OF that] by simp
  then show ?thesis
    by (auto simp: processFrame_def Let_def setBuffer_def split: prod.split parseFrameResult.split
        intro!: shorter_frames shorter_ping)
qed

lemma shorter_processFrameHixie76: "shorter (length (ch_buffer (w_ch w))) (processFrameHixie76 env w)"
  using parseFrameHixie76_bounds[of "en_address env" "ch_buffer (w_ch w)"]
  by (auto simp: processFrameHixie76_def closeAfterAnswerHixie76_def Let_def hixieLength_def split: hixieFrame.split sum.split
      intro!: shorter_more keepsBuffer_skip kept)

lemma shorter_readHandshake: "shorter (length (ch_buffer (w_ch w))) (readHandshake env w)"
  using readServerHandshake_range[of "en_handshake env" "ch_buffer (w_ch w)" "ch_handshake (w_ch w)"]
  by (auto simp: readHandshake_def Let_def split: sum.split prod.split intro!: shorter_more keepsBuffer_skip kept)

lemma shorter_processBuffer: "shorter (length (ch_buffer (w_ch w))) (processBuffer env w)"
  by (simp add: processBuffer_def Let_def shorter_readHandshake shorter_processFrameHixie76 shorter_processFrame)

function receive :: "channelEnv \<Rightarrow> world \<Rightarrow> world" where
  "receive env w =
     (if \<not> ch_suspended (w_ch w) \<and> ch_client (w_ch w) \<and> ch_buffer (w_ch w) \<noteq> [] then
        (case processBuffer env w of (True, w1) \<Rightarrow> receive env w1 | (False, w1) \<Rightarrow> w1)
      else w)"
  by pat_completeness auto
termination
proof (relation "measure (\<lambda>(env, w). length (ch_buffer (w_ch w)))", goal_cases)
  case (2 env w b w1)
  then show ?case using shorter_processBuffer[of w env] by (simp add: shorter_def flip: 2(2))
qed simp

declare receive.simps [simp del]

subsection \<open>Callbacks of the socket\<close>

text \<open>
  A method that takes a \<^verbatim>\<open>RefPtr\<close> on its own object keeps it alive until it returns. The memory for
  the receive buffer is assumed to be there.
\<close>

definition holdingChannel :: "(world \<Rightarrow> world) \<Rightarrow> world \<Rightarrow> world" where
  "holdingChannel body w = protectChannel (ch_protected (w_ch w)) (body (protectChannel True w))"

definition holdingHandle :: "(world \<Rightarrow> world) \<Rightarrow> world \<Rightarrow> world" where
  "holdingHandle body w =
     (let w1 = body (w\<lparr>w_so := (w_so w)\<lparr>so_protected := True\<rparr>\<rparr>)
      in w1\<lparr>w_so := (w_so w1)\<lparr>so_protected := so_protected (w_so w)\<rparr>\<rparr>)"

definition didOpenSocketStream :: "channelEnv \<Rightarrow> world \<Rightarrow> world" where
  "didOpenSocketStream env w =
     (if \<not> ch_document (w_ch w) then w
      else case handle_send env (clientHandshakeMessage (en_handshake env) (ch_handshake (w_ch w))) w of
             (True, w1) \<Rightarrow> w1
           | (False, w1) \<Rightarrow> channel_fail env w1)"

definition didReceiveSocketStreamData :: "channelEnv \<Rightarrow> byte list \<Rightarrow> world \<Rightarrow> world" where
  "didReceiveSocketStreamData env data = holdingChannel (\<lambda>w.
     if \<not> ch_document (w_ch w) then w
     else if data = [] then handle_disconnect env (didCloseSocketStream env) w
     else if \<not> ch_client (w_ch w) then handle_disconnect env (didCloseSocketStream env) (discardReceivedData w)
     else if ch_shouldDiscardReceivedData (w_ch w) then w
     else receive env (setBuffer (ch_buffer (w_ch w) @ data) w))"

definition connected :: "channelEnv \<Rightarrow> world \<Rightarrow> world" where
  "connected env w =
     holdingHandle (\<lambda>w. didOpenSocketStream env (setStreamState StreamOpen w))
       (w\<lparr>w_so := (w_so w)\<lparr>so_socketConnection := True, so_readBuffer := Allocated\<rparr>\<rparr>)"

definition readBytes :: "channelEnv \<Rightarrow> byte list \<Rightarrow> world \<Rightarrow> world" where
  "readBytes env data w =
     (if data = [] then handle_close env w else holdingHandle (didReceiveSocketStreamData env data) w)"

definition writeReady :: "channelEnv \<Rightarrow> world \<Rightarrow> world" where
  "writeReady env w =
     (if so_buffer (w_so w) = [] then w\<lparr>w_so := (w_so w)\<lparr>so_writeReadySource := False\<rparr>\<rparr> else sendPendingData env w)"

definition resumeTimerFired :: "channelEnv \<Rightarrow> world \<Rightarrow> world" where
  "resumeTimerFired env = holdingChannel (\<lambda>w.
     let w1 = receive env w; c = w_ch w1
     in if \<not> ch_suspended c \<and> ch_client c \<and> ch_closed c \<and> ch_handle c then didCloseSocketStream env w1 else w1)"

definition closingTimerFired :: "channelEnv \<Rightarrow> world \<Rightarrow> world" where
  "closingTimerFired env w =
     (if ch_handle (w_ch w) then handle_disconnect env (didCloseSocketStream env) w else w)"

subsection \<open>The step relation\<close>

text \<open>
  A callback reaches the handle only while the handle is on the list of active handles; it waits
  for the connection until there is one, and reads at most 1024 bytes at a time afterwards. The
  script and the page may act at any time.
\<close>

definition READ_BUFFER_SIZE :: nat where
  "READ_BUFFER_SIZE = 1024"

inductive step :: "channelEnv \<Rightarrow> world \<Rightarrow> world \<Rightarrow> bool" for env where
  Connected: "so_active (w_so w) \<Longrightarrow> \<not> so_socketConnection (w_so w) \<Longrightarrow> step env w (connected env w)"
| ConnectFailed: "so_active (w_so w) \<Longrightarrow> \<not> so_socketConnection (w_so w) \<Longrightarrow> step env w (didFailSocketStream env w)"
| Read: "so_active (w_so w) \<Longrightarrow> so_socketConnection (w_so w) \<Longrightarrow> length data \<le> READ_BUFFER_SIZE \<Longrightarrow>
    step env w (readBytes env data w)"
| ReadFailed: "so_active (w_so w) \<Longrightarrow> so_socketConnection (w_so w) \<Longrightarrow> step env w (didFailSocketStream env w)"
| WriteReady: "so_active (w_so w) \<Longrightarrow> so_writeReadySource (w_so w) \<Longrightarrow> step env w (writeReady env w)"
| ResumeTimer: "channelAlive w \<Longrightarrow> ch_resumeTimer (w_ch w) \<Longrightarrow>
    step env w (resumeTimerFired env (w\<lparr>w_ch := (w_ch w)\<lparr>ch_resumeTimer := False\<rparr>\<rparr>))"
| ClosingTimer: "channelAlive w \<Longrightarrow> ch_closingTimer (w_ch w) \<Longrightarrow>
    step env w (closingTimerFired env (w\<lparr>w_ch := (w_ch w)\<lparr>ch_closingTimer := False\<rparr>\<rparr>))"
| Call: "step env w (runCommand env command w)"

inductive reachable :: "channelEnv \<Rightarrow> world \<Rightarrow> world \<Rightarrow> bool" for env where
  start: "reachable env w w"
| further: "reachable env w v \<Longrightarrow> step env v u \<Longrightarrow> reachable env w u"

subsection \<open>What a step keeps\<close>

text \<open>
  Inside the channel, the client and the handshake change when the server's answer has been read;
  when it is accepted, the script is told in the same call.
\<close>

definition sameClient :: "channel \<Rightarrow> channel \<Rightarrow> bool" where
  "sameClient c c' \<longleftrightarrow> ch_client c' = ch_client c \<and> ch_handshake c' = ch_handshake c"

lemma sameClient_updates [simp]:
  "ch_handshake (w_ch (raise f v)) = ch_handshake (w_ch v)" "ch_client (w_ch (raise f v)) = ch_client (w_ch v)"
  "ch_handshake (w_ch (setBuffer b v)) = ch_handshake (w_ch v)" "ch_client (w_ch (setBuffer b v)) = ch_client (w_ch v)"
  "ch_handshake (w_ch (skipBuffer n v)) = ch_handshake (w_ch v)" "ch_client (w_ch (skipBuffer n v)) = ch_client (w_ch v)"
  "ch_handshake (w_ch (discardReceivedData v)) = ch_handshake (w_ch v)"
  "ch_client (w_ch (discardReceivedData v)) = ch_client (w_ch v)"
  by (simp_all add: raise_def setBuffer_def skipBuffer_def discardReceivedData_def)

locale step_invariant = queue_invariant +
  assumes inner: "P w \<Longrightarrow> sameClient (w_ch w) c \<Longrightarrow> P (w\<lparr>w_ch := c\<rparr>)"
    and handshake: "P w \<Longrightarrow> hs_mode h \<noteq> Connected \<Longrightarrow> P (w\<lparr>w_ch := (w_ch w)\<lparr>ch_handshake := h\<rparr>\<rparr>)"
    and connect: "P w \<Longrightarrow> hs_mode (ch_handshake (w_ch w)) = Incomplete \<Longrightarrow>
      P (toClient (didConnect env) (skipBuffer n (w\<lparr>w_ch := (w_ch w)\<lparr>ch_handshake := h\<rparr>\<rparr>)))"
begin

lemma buffer_updates [kept]:
  assumes "P v"
  shows "P (setBuffer b v)" "P (skipBuffer n v)" "P (protectChannel q v)"
  using assms by (auto simp: setBuffer_def skipBuffer_def protectChannel_def sameClient_def intro!: inner kept)

lemma deliverText [kept]: "P v \<Longrightarrow> hs_mode (ch_handshake (w_ch v)) = Connected \<Longrightarrow> P (deliverText env m v)"
  by (auto simp: deliverText_def mayDispatch_def split: sum.split option.split intro!: kept)

lemma frames [kept]:
  assumes "P v" and "hs_mode (ch_handshake (w_ch v)) = Connected"
  shows "P (snd (processText env frame v))" "P (snd (processBinary env frame v))"
    "P (snd (processContinuation env frame v))" "P (snd (processClose env frame v))" "P (snd (processPing env frame v))"
  using assms
  by (auto simp: processText_def processBinary_def processContinuation_def processClose_def closeAfterAnswer_def processPing_def
      startContinuousFrame_def Let_def moreData_def mayDispatch_def sameClient_def split: sum.split intro!: inner kept)

lemma processFrame [kept]: "P v \<Longrightarrow> hs_mode (ch_handshake (w_ch v)) = Connected \<Longrightarrow> P (snd (processFrame env v))"
  by (auto simp: processFrame_def Let_def moreData_def split: prod.split parseFrameResult.split intro!: kept)

lemma processFrameHixie76 [kept]:
  "P v \<Longrightarrow> hs_mode (ch_handshake (w_ch v)) = Connected \<Longrightarrow> P (snd (processFrameHixie76 env v))"
  by (auto simp: processFrameHixie76_def closeAfterAnswerHixie76_def Let_def moreData_def mayDispatch_def sameClient_def split: hixieFrame.split sum.split
      intro!: inner kept)

lemma readHandshake [kept]:
  "P v \<Longrightarrow> hs_mode (ch_handshake (w_ch v)) = Incomplete \<Longrightarrow> P (snd (readHandshake env v))"
  using readServerHandshake_range[of "en_handshake env" "ch_buffer (w_ch v)" "ch_handshake (w_ch v)"]
  by (auto simp: readHandshake_def Let_def moreData_def split: sum.split prod.split
      intro!: connect handshake updates buffer_updates channel_fail)

lemma processBuffer [kept]: "P v \<Longrightarrow> P (snd (processBuffer env v))"
  by (auto simp: processBuffer_def Let_def intro!: kept)

lemma receive [kept]: "P v \<Longrightarrow> P (receive env v)"
proof -
  have "e = env \<Longrightarrow> P v \<Longrightarrow> P (receive e v)" for e
  proof (induction e v rule: receive.induct)
    case (1 e w)
    then show ?case using processBuffer[of w] by (subst receive.simps) (auto split: prod.split bool.split)
  qed
  then show "P v \<Longrightarrow> P (receive env v)" by simp
qed

lemma holding [kept]:
  assumes "\<And>v. P v \<Longrightarrow> P (body v)" and "P v"
  shows "P (holdingChannel body v)" "P (holdingHandle body v)"
  using assms(2) by (auto simp: holdingChannel_def holdingHandle_def Let_def intro!: assms(1) so kept)

lemma callbacks [kept]:
  assumes "P v"
  shows "P (didReceiveSocketStreamData env data v)" "P (resumeTimerFired env v)" "P (closingTimerFired env v)"
    "P (readBytes env data v)" "P (writeReady env v)"
  using assms
  by (auto simp: didReceiveSocketStreamData_def resumeTimerFired_def closingTimerFired_def readBytes_def writeReady_def
      Let_def intro!: sendPendingData so kept)

lemma didOpenSocketStream [kept]: "P v \<Longrightarrow> P (didOpenSocketStream env v)"
  using handle_send by (auto simp: didOpenSocketStream_def split: prod.split bool.split intro!: kept) (metis snd_conv)+

lemma connected [kept]: "P v \<Longrightarrow> P (connected env v)"
  by (auto simp: connected_def intro!: so kept)

lemma step_kept: "step env v u \<Longrightarrow> P v \<Longrightarrow> P u"
  by (induction rule: step.induct) (auto simp: runCommand_def sameClient_def intro!: inner kept)

lemma reachable_kept: "reachable env w v \<Longrightarrow> P w \<Longrightarrow> P v"
  by (induction rule: reachable.induct) (auto intro: step_kept)

end

locale plain_step_invariant = plain_queue_invariant +
  assumes any_ch: "P w \<Longrightarrow> P (w\<lparr>w_ch := c\<rparr>)"

sublocale plain_step_invariant \<subseteq> step_invariant P env
  by unfold_locales (auto simp: skipBuffer_def setBuffer_def intro!: any_ch kept)

interpretation disturbed: plain_step_invariant disturbed env for env
  by unfold_locales (simp_all add: disturbed_def postEvent_def)

interpretation inOrder: plain_step_invariant inOrder env for env
  by unfold_locales (simp_all add: inOrder_def refused_def postEvent_def)

end
