(* ===== verification/WS_Events.thy ===== *)
theory WS_Events
  imports WS_Connection
begin

section \<open>The events a script sees\<close>

text \<open>
  The order of the events of one WebSocket: \<open>open\<close> first and at most once, messages and errors after
  it, \<open>close\<close> at most once and last. The channel guarantees it by the ready state, by forgetting its
  client and by the mode of the handshake; \<open>eventInvariant\<close> says how these go together.
\<close>

definition isClose :: "scriptEvent \<Rightarrow> bool" where
  "isClose e = (case e of CloseEvent _ _ _ \<Rightarrow> True | _ \<Rightarrow> False)"

fun messagesThenClose :: "scriptEvent list \<Rightarrow> bool" where
  "messagesThenClose [] = True"
| "messagesThenClose (e # es) = (if isClose e then es = [] else isMessage e \<and> messagesThenClose es)"

fun orderly :: "scriptEvent list \<Rightarrow> bool" where
  "orderly [] = True"
| "orderly (e # es) = (if e = OpenEvent then messagesThenClose es else isClose e \<and> es = [])"

definition opened :: "scriptEvent list \<Rightarrow> bool" where
  "opened es \<longleftrightarrow> es \<noteq> [] \<and> hd es = OpenEvent"

definition closed :: "scriptEvent list \<Rightarrow> bool" where
  "closed es \<longleftrightarrow> list_ex isClose es"

lemma event_kinds [simp]:
  "isClose (CloseEvent b c r)" "\<not> isClose OpenEvent" "\<not> isMessage OpenEvent" "isMessage e \<Longrightarrow> \<not> isClose e"
  by (auto simp: isClose_def isMessage_def split: scriptEvent.splits)

lemma opened_simps [simp]: "\<not> opened []" "opened (OpenEvent # es)" "opened es \<Longrightarrow> opened (es @ fs)"
  by (auto simp: opened_def)

lemma closed_simps [simp]: "\<not> closed []" "closed (es @ [e]) \<longleftrightarrow> closed es \<or> isClose e"
  by (auto simp: closed_def)

lemma closed_Cons: "closed (e # es) \<longleftrightarrow> isClose e \<or> closed es"
  by (simp add: closed_def)

lemma messagesThenClose_append:
  "messagesThenClose es \<Longrightarrow> \<not> closed es \<Longrightarrow> isMessage e \<or> isClose e \<Longrightarrow> messagesThenClose (es @ [e])"
  by (induction es) (auto simp: closed_Cons split: if_splits)

lemma orderly_append:
  assumes "orderly es" and "\<not> closed es" and "opened es \<and> isMessage e \<or> isClose e"
  shows "orderly (es @ [e])"
  using assms by (cases es) (auto simp: closed_Cons opened_def messagesThenClose_append split: if_splits)

subsection \<open>The invariant\<close>

definition eventInvariant :: "world \<Rightarrow> bool" where
  "eventInvariant w \<longleftrightarrow>
     (let es = ou_events (w_ou w); s = ws_readyState (w_ws w); c = w_ch w
      in orderly es \<and> (s = CONNECTING \<longrightarrow> es = []) \<and> (s = OPEN \<longrightarrow> opened es) \<and>
         (closed es \<longrightarrow> s = CLOSED \<and> \<not> ws_channel (w_ws w)) \<and>
         (ch_client c \<longrightarrow> ws_channel (w_ws w) \<and> s \<noteq> CLOSED) \<and>
         (ch_client c \<longrightarrow> hs_mode (ch_handshake c) = Connected \<longrightarrow> opened es))"

text \<open>Closing the socket after the client has been forgotten changes neither the WebSocket nor the events.\<close>

definition silent :: "world \<Rightarrow> world \<Rightarrow> bool" where
  "silent w v \<longleftrightarrow>
     w_ws v = w_ws w \<and> ou_events (w_ou v) = ou_events (w_ou w) \<and> ch_handshake (w_ch v) = ch_handshake (w_ch w) \<and>
     (ch_client (w_ch v) \<longrightarrow> ch_client (w_ch w))"

lemma silent_refl: "silent w w"
  by (simp add: silent_def)

lemma silent_close_end: "silent w v \<Longrightarrow> silent w (platformClose_end (streamClosed (\<lambda>w. w)) v)"
proof -
  have r: "silent w (raise f v)" if "silent w v" for f v
    using that by (auto simp: raise_def silent_def)
  have s: "silent w (streamClosed (\<lambda>w. w) v)" if "silent w v" for v
    using that by (auto simp: streamClosed_def releaseSelf_def abortOutgoingFrameQueue_def silent_def raise_def Let_def)
  have d: "silent w (deleteReadBuffer v)" if "silent w v" for v
    using that by (auto simp: deleteReadBuffer_def silent_def raise_def split: heapBuffer.splits)
  show "silent w v \<Longrightarrow> silent w (platformClose_end (streamClosed (\<lambda>w. w)) v)"
    by (auto simp: platformClose_end_def intro!: s d) (simp add: silent_def)
qed

lemma silent_disconnect: "silent (w\<lparr>w_ch := (w_ch w)\<lparr>ch_client := False\<rparr>\<rparr>) (channel_disconnect env w)"
proof -
  have u: "silent w (v\<lparr>w_so := x\<rparr>) = silent w v" "silent w (discardReceivedData v) = silent w v" for w v x
    by (simp_all add: silent_def discardReceivedData_def)
  show ?thesis
    unfolding channel_disconnect_def handle_disconnect_def platformClose_def setStreamState_def Let_def if_distrib[of "silent w'" for w'] u
    by (auto intro!: silent_close_end simp: u) (simp_all add: silent_def)
qed

lemma channel_disconnect_simps [simp]:
  "w_ws (channel_disconnect env w) = w_ws w"
  "ou_events (w_ou (channel_disconnect env w)) = ou_events (w_ou w)"
  "ch_handshake (w_ch (channel_disconnect env w)) = ch_handshake (w_ch w)"
  "\<not> ch_client (w_ch (channel_disconnect env w))"
  using silent_disconnect[of w env] by (simp_all add: silent_def)

lemma eventInvariant_stop: "eventInvariant w \<Longrightarrow> eventInvariant (WebSocket_stop (channel_disconnect env) w)"
  by (auto simp: eventInvariant_def WebSocket_stop_def Let_def)

text \<open>The handler of the close event runs while the ready state is \<open>CLOSED\<close>: it posts nothing.\<close>

definition closing_run :: "world \<Rightarrow> world \<Rightarrow> bool" where
  "closing_run w v \<longleftrightarrow>
     ws_readyState (w_ws v) = CLOSED \<and> ou_events (w_ou v) = ou_events (w_ou w) \<and>
     (ch_client (w_ch v) \<longrightarrow> ws_channel (w_ws v))"

lemma runClosed_run:
  assumes "closing_run w v"
  shows "closing_run w (runClosed env v)"
proof -
  have "closing_run w (webSocketCommand (\<lambda>_. notReached) (\<lambda>_. notReached) (\<lambda>_ _. notReached) notReached
      (channel_disconnect env) cmd u)" if "closing_run w u" for cmd u
    using that
    by (cases cmd) (auto simp: closing_run_def WebSocket_send_def WebSocket_sendBinary_def WebSocket_close_def
        WebSocket_stop_def WebSocket_setBinaryType_def WebSocket_suspend_def WebSocket_resume_def channel_resume_def countAfterClose_def Let_def)
  then have "closing_run w (fold (webSocketCommand (\<lambda>_. notReached) (\<lambda>_. notReached) (\<lambda>_ _. notReached) notReached
      (channel_disconnect env)) cs u)" if "closing_run w u" for cs u
    using that by (induction cs arbitrary: u) simp_all
  then show ?thesis using assms by (simp add: runClosed_def)
qed

lemma WebSocket_didClose_state:
  assumes "ws_channel (w_ws w)"
  shows "ws_readyState (w_ws (WebSocket_didClose env n complete code reason w)) = CLOSED"
    and "\<not> ws_channel (w_ws (WebSocket_didClose env n complete code reason w))"
    and "\<not> ch_client (w_ch (WebSocket_didClose env n complete code reason w))"
    and "ou_events (w_ou (WebSocket_didClose env n complete code reason w)) =
      ou_events (w_ou w) @ [CloseEvent (ws_readyState (w_ws w) = CLOSING \<and> n = 0 \<and> complete) code reason]"
proof -
  let ?v = "postEvent (CloseEvent (ws_readyState (w_ws w) = CLOSING \<and> n = 0 \<and> complete) code reason)
    (w\<lparr>w_ws := (w_ws w)\<lparr>ws_readyState := CLOSED, ws_bufferedAmount := n\<rparr>\<rparr>)"
  have "closing_run ?v ?v" using assms by (simp add: closing_run_def postEvent_def)
  then have r: "closing_run ?v (runClosed env ?v)" by (rule runClosed_run)
  have e: "WebSocket_didClose env n complete code reason w =
      (let w2 = runClosed env ?v in if ws_channel (w_ws w2)
       then (let w3 = channel_disconnect env w2 in w3\<lparr>w_ws := (w_ws w3)\<lparr>ws_channel := False\<rparr>\<rparr>) else w2)"
    using assms by (simp add: WebSocket_didClose_def)
  show "ws_readyState (w_ws (WebSocket_didClose env n complete code reason w)) = CLOSED"
    "\<not> ws_channel (w_ws (WebSocket_didClose env n complete code reason w))"
    "\<not> ch_client (w_ch (WebSocket_didClose env n complete code reason w))"
    "ou_events (w_ou (WebSocket_didClose env n complete code reason w)) =
      ou_events (w_ou w) @ [CloseEvent (ws_readyState (w_ws w) = CLOSING \<and> n = 0 \<and> complete) code reason]"
    unfolding e Let_def using r by (auto simp: closing_run_def postEvent_def)
qed

lemma eventInvariant_didClose:
  assumes "eventInvariant w"
  shows "eventInvariant (WebSocket_didClose env n complete code reason w)"
proof (cases "ws_channel (w_ws w)")
  case True
  then show ?thesis
    using assms
    by (auto simp: eventInvariant_def Let_def WebSocket_didClose_state intro!: orderly_append)
qed (use assms in \<open>simp add: WebSocket_didClose_def\<close>)

interpretation events: call_invariant eventInvariant
  by unfold_locales
    (auto simp: eventInvariant_stop eventInvariant_didClose, auto simp: eventInvariant_def sameState_def sameTraffic_def
      emptied_def setReadyState_def Let_def)

interpretation events: free_invariant eventInvariant
  by unfold_locales (auto simp: eventInvariant_def)

interpretation events: queue_invariant eventInvariant env for env
  by unfold_locales (auto simp: eventInvariant_def mayDispatch_def postEvent_def Let_def intro!: orderly_append)

lemma skipBuffer_outside [simp]: "w_ws (skipBuffer n w) = w_ws w" "ou_events (w_ou (skipBuffer n w)) = ou_events (w_ou w)"
  by (simp_all add: skipBuffer_def setBuffer_def raise_def)

lemma eventInvariant_didConnect:
  assumes "eventInvariant w"
  shows "eventInvariant (toClient (didConnect env) (skipBuffer n (w\<lparr>w_ch := (w_ch w)\<lparr>ch_handshake := h\<rparr>\<rparr>)))"
    (is "eventInvariant (toClient _ ?v)")
proof (cases "ch_client (w_ch w)")
  case True
  show ?thesis
  proof (cases "ws_readyState (w_ws w) = CONNECTING")
    case c: True
    then have "eventInvariant (postEvent OpenEvent (?v\<lparr>w_ws := (w_ws ?v)\<lparr>ws_readyState := OPEN, ws_subprotocol := p\<rparr>\<rparr>))"
      for p using assms True by (simp add: eventInvariant_def postEvent_def closed_Cons Let_def)
    then show ?thesis using True c by (simp add: toClient_def didConnect_def dispatchEvent_def Let_def events.commands)
  next
    case False
    then show ?thesis
      using assms True
      by (auto simp: toClient_def didConnect_def eventInvariant_def Let_def WebSocket_didClose_state intro!: orderly_append)
  qed
qed (use assms in \<open>simp add: toClient_def raise_def eventInvariant_def Let_def\<close>)

interpretation events: step_invariant eventInvariant env for env
  by unfold_locales (auto simp: eventInvariant_didConnect, auto simp: eventInvariant_def sameClient_def Let_def)

end
