(* ===== verification/WS_Connect.thy ===== *)
theory WS_Connect
  imports WS_World
begin

section \<open>Opening a WebSocket\<close>

text \<open>
  \<open>WebSocket::connect\<close> of \<^verbatim>\<open>websockets/WebSocket.cpp\<close>: the checks of the URL, whose answers are
  parameters, the checks of the subprotocols, and the state of a connection once the channel has
  been created and its socket is being connected.
\<close>

subsection \<open>Subprotocols\<close>

definition isValidProtocolCharacter :: "uchar \<Rightarrow> bool" where
  "isValidProtocolCharacter character \<longleftrightarrow>
     0x21 \<le> character \<and> character \<le> 0x7E \<and> character \<noteq> 0x22 \<and> character \<noteq> 0x28 \<and> character \<noteq> 0x29 \<and>
     character \<noteq> 0x2C \<and> character \<noteq> 0x2F \<and> \<not> (0x3A \<le> character \<and> character \<le> 0x40) \<and>
     \<not> (0x5B \<le> character \<and> character \<le> 0x5D) \<and> character \<noteq> 0x7B \<and> character \<noteq> 0x7D"

definition isValidProtocolString :: "ustring \<Rightarrow> bool" where
  "isValidProtocolString protocol \<longleftrightarrow> protocol \<noteq> [] \<and> list_all isValidProtocolCharacter protocol"

definition isValidProtocolStringHixie76 :: "ustring option \<Rightarrow> bool" where
  "isValidProtocolStringHixie76 protocol =
     (case protocol of
        None \<Rightarrow> True
      | Some p \<Rightarrow> p \<noteq> [] \<and> list_all (\<lambda>c. \<not> (c < 0x20 \<or> c > 0x7E)) p)"

definition hexDigit :: "nat \<Rightarrow> uchar" where
  "hexDigit n = (if n < 10 then word_of_nat (0x30 + n) else word_of_nat (0x41 + (n - 10)))"

definition encodeProtocolCharacter :: "uchar \<Rightarrow> ustring" where
  "encodeProtocolCharacter c =
     (if c < 0x20 \<or> c > 0x7E then
        [0x5C, 0x75] @ map (\<lambda>k. hexDigit (unat c div 16 ^ k mod 16)) [3, 2, 1, 0]
      else if c = 0x5C then [0x5C, 0x5C] else [c])"

definition encodeProtocolString :: "ustring \<Rightarrow> ustring" where
  "encodeProtocolString protocol = concat (map encodeProtocolCharacter protocol)"

fun joinStrings :: "ustring list \<Rightarrow> ustring \<Rightarrow> ustring" where
  "joinStrings [] separator = []"
| "joinStrings [s] separator = s"
| "joinStrings (s # t # ss) separator = s @ separator @ joinStrings (t # ss) separator"

fun hasDuplicate :: "ustring list \<Rightarrow> ustring list \<Rightarrow> bool" where
  "hasDuplicate visited [] = False"
| "hasDuplicate visited (p # ps) = (p \<in> set visited \<or> hasDuplicate (p # visited) ps)"

subsection \<open>WebSocket::connect\<close>

datatype exceptionCode = SYNTAX_ERR | SECURITY_ERR

record urlChecks =
  uc_isValid :: bool
  uc_webSocketScheme :: bool
  uc_hasFragmentIdentifier :: bool
  uc_portAllowed :: bool
  uc_allowConnectFromSource :: bool

definition checkURL :: "urlChecks \<Rightarrow> exceptionCode option" where
  "checkURL url =
     (if \<not> uc_isValid url then Some SYNTAX_ERR
      else if \<not> uc_webSocketScheme url then Some SYNTAX_ERR
      else if uc_hasFragmentIdentifier url then Some SYNTAX_ERR
      else if \<not> uc_portAllowed url then Some SECURITY_ERR
      else if \<not> uc_allowConnectFromSource url then Some SECURITY_ERR
      else None)"

definition protocolString :: "bool \<Rightarrow> ustring list \<Rightarrow> exceptionCode + ustring option" where
  "protocolString useHixie76Protocol protocols =
     (if useHixie76Protocol then
        (let p = (if protocols = [] then None else Some (joinStrings protocols (us '','')))
         in if isValidProtocolStringHixie76 p then Inr p else Inl SYNTAX_ERR)
      else if \<not> list_all isValidProtocolString protocols then Inl SYNTAX_ERR
      else if hasDuplicate [] protocols then Inl SYNTAX_ERR
      else Inr (if protocols = [] then None else Some (joinStrings protocols (us '', ''))))"

text \<open>
  The state after the constructors of the three objects: the channel keeps itself alive, the
  handle is on the list of active handles and waits for its connection.
\<close>

definition newWebSocket :: "bool \<Rightarrow> webSocketState \<Rightarrow> webSocket" where
  "newWebSocket hasChannel readyState =
     \<lparr>ws_channel = hasChannel, ws_readyState = readyState, ws_bufferedAmount = 0, ws_bufferedAmountAfterClose = 0,
      ws_binaryType = BinaryTypeBlob, ws_subprotocol = []\<rparr>"

definition newChannel :: "bool \<Rightarrow> handshake \<Rightarrow> channel" where
  "newChannel useHixie76Protocol h =
     \<lparr>ch_document = True, ch_client = True, ch_handle = True, ch_handshake = handshake_reset h, ch_buffer = [],
      ch_resumeTimer = False, ch_suspended = False, ch_closing = False, ch_receivedClosingHandshake = False,
      ch_closingTimer = False, ch_closed = False, ch_shouldDiscardReceivedData = False, ch_unhandledBufferedAmount = 0,
      ch_useHixie76Protocol = useHixie76Protocol, ch_hasContinuousFrame = False, ch_continuousFrameOpCode = 0,
      ch_continuousFrameData = [], ch_closeEventCode = 1006, ch_closeEventReason = None, ch_outgoingFrameQueue = [],
      ch_outgoingFrameQueueStatus = OutgoingFrameQueueOpen, ch_selfReference = True, ch_protected = False\<rparr>"

definition newSocketStreamHandle :: socketStreamHandle where
  "newSocketStreamHandle =
     \<lparr>so_state = StreamConnecting, so_buffer = [], so_socketConnection = False, so_streamClosed = False,
      so_readBuffer = NoBuffer, so_active = True, so_writeReadySource = False, so_protected = False\<rparr>"

definition newOutside :: outside where
  "newOutside =
     \<lparr>ou_writes = 0, ou_frames = 0, ou_wire = [], ou_accepted = [], ou_events = [], ou_refused = False,
      ou_writeFailed = False, ou_suspended = False, ou_fault = None\<rparr>"

definition newWorld :: "bool \<Rightarrow> handshake \<Rightarrow> world" where
  "newWorld useHixie76Protocol h =
     \<lparr>w_ws = newWebSocket True CONNECTING, w_ch = newChannel useHixie76Protocol h, w_so = newSocketStreamHandle,
      w_ou = newOutside\<rparr>"

definition WebSocket_connect ::
  "channelEnv \<Rightarrow> bool \<Rightarrow> urlChecks \<Rightarrow> handshakeURL \<Rightarrow> ustring list \<Rightarrow> uint32 list \<Rightarrow> byte list \<Rightarrow>
    (exceptionCode + world) option" where
  "WebSocket_connect env useHixie76Protocol checks url protocols random randomBytes =
     (case checkURL checks of
        Some e \<Rightarrow> Some (Inl e)
      | None \<Rightarrow>
          (case protocolString useHixie76Protocol protocols of
             Inl e \<Rightarrow> Some (Inl e)
           | Inr p \<Rightarrow>
               map_option (\<lambda>h. Inr (newWorld useHixie76Protocol h))
                 (WebSocketHandshake (en_handshake env) url (case p of None \<Rightarrow> [] | Some s \<Rightarrow> s) useHixie76Protocol
                   random randomBytes)))"

subsection \<open>What the checks guarantee\<close>

lemma hasDuplicate_iff: "hasDuplicate visited ps \<longleftrightarrow> \<not> distinct ps \<or> set visited \<inter> set ps \<noteq> {}"
  by (induction ps arbitrary: visited) auto

text \<open>The list that a server reads out of the header: split at each comma and drop the blank after it.\<close>

fun splitProtocols :: "ustring \<Rightarrow> ustring \<Rightarrow> ustring list" where
  "splitProtocols token [] = [token]"
| "splitProtocols token (c # s) =
     (if c = 0x2C then token # splitProtocols [] s
      else if c = 0x20 then splitProtocols token s else splitProtocols (token @ [c]) s)"

lemma splitProtocols_token: "list_all isValidProtocolCharacter s \<Longrightarrow> splitProtocols t (s @ r) = splitProtocols (t @ s) r"
  by (induction s arbitrary: t) (auto simp: isValidProtocolCharacter_def)

lemma splitProtocols_join:
  "ps \<noteq> [] \<Longrightarrow> list_all isValidProtocolString ps \<Longrightarrow> splitProtocols [] (joinStrings ps (us '', '')) = ps"
proof (induction ps "us '', ''" rule: joinStrings.induct)
  case (2 s)
  then show ?case using splitProtocols_token[of s "[]" "[]"] by (simp add: isValidProtocolString_def)
next
  case (3 s t ss)
  then show ?case
    using splitProtocols_token[of s "[]" "us '', '' @ joinStrings (t # ss) (us '', '')"]
    by (simp add: isValidProtocolString_def us_def)
qed simp

lemma set_joinStrings: "set (joinStrings ps separator) \<subseteq> (\<Union>p \<in> set ps. set p) \<union> set separator"
  by (induction ps separator rule: joinStrings.induct) auto

lemma valid_characters:
  assumes "list_all isValidProtocolString ps" and "c \<in> set (joinStrings ps (us '', ''))"
  shows "0x20 \<le> c \<and> c \<le> 0x7E"
proof -
  consider p where "p \<in> set ps" "c \<in> set p" | "c \<in> set (us '', '')" using assms(2) set_joinStrings by blast
  then show ?thesis
  proof cases
    case 1
    then have "0x21 \<le> c" "c \<le> 0x7E"
      using assms(1) by (auto simp: list_all_iff isValidProtocolString_def isValidProtocolCharacter_def)
    moreover have "(0x20 :: uchar) \<le> 0x21" by simp
    ultimately show ?thesis by (meson order_trans)
  next
    case 2
    then have "c = 0x2C \<or> c = 0x20" by (auto simp: us_def)
    then show ?thesis by auto
  qed
qed

text \<open>
  C38. What \<open>connect\<close> accepts as subprotocols. With either protocol every character of the string it puts into the
  request is printable ASCII, so that no subprotocol can end the header field and add another. With the hybi
  protocol the subprotocols are also distinct tokens, and the string loses nothing: a server that splits it at the commas and
  drops the blanks gets the list back. With hixie-76 neither holds: duplicates and commas are accepted.
\<close>

theorem subprotocols_accepted:
  assumes "protocolString useHixie76Protocol protocols = Inr p"
  shows "(case p of None \<Rightarrow> protocols = [] | Some s \<Rightarrow> list_all (\<lambda>c. 0x20 \<le> c \<and> c \<le> 0x7E) s) \<and>
    (\<not> useHixie76Protocol \<longrightarrow> list_all isValidProtocolString protocols \<and> distinct protocols \<and>
      (case p of None \<Rightarrow> protocols = [] | Some s \<Rightarrow> splitProtocols [] s = protocols))"
proof (cases useHixie76Protocol)
  case True
  then have "isValidProtocolStringHixie76 p" "p = None \<longleftrightarrow> protocols = []"
    using assms by (auto simp: protocolString_def Let_def split: if_splits)
  with True show ?thesis by (auto simp: isValidProtocolStringHixie76_def list_all_iff not_less split: option.splits)
next
  case False
  then have v: "list_all isValidProtocolString protocols" "distinct protocols"
    and p: "p = (if protocols = [] then None else Some (joinStrings protocols (us '', '')))"
    using assms by (auto simp: protocolString_def hasDuplicate_iff split: if_splits)
  then show ?thesis
    using splitProtocols_join[of protocols] valid_characters[OF v(1)] by (auto simp: list_all_iff)
qed

theorem subprotocols_accepted_witness:
  "\<exists>s. protocolString False [us ''chat'', us ''superchat''] = Inr (Some s) \<and>
     splitProtocols [] s = [us ''chat'', us ''superchat'']"
proof -
  have "protocolString False [us ''chat'', us ''superchat''] = Inr (Some (us ''chat, superchat''))" by code_simp
  from this subprotocols_accepted[OF this] show ?thesis by auto
qed

text \<open>A list that hixie-76 accepts and hybi refuses.\<close>

lemma hixie76_accepts_duplicates:
  "protocolString True [us ''chat'', us ''chat''] = Inr (Some (us ''chat,chat''))"
  "protocolString False [us ''chat'', us ''chat''] = Inl SYNTAX_ERR"
  by code_simp+

end
