(* ===== verification/WS_Safety.thy ===== *)
theory WS_Safety
  imports WS_Events WS_Connect
begin

section \<open>Memory safety of a connection\<close>

text \<open>
  A connection that is never suspended and whose sends are never refused, on a socket whose writes
  and whose close do not fail, is alive or dead between two steps: all three objects hold together,
  or all have let go of each other. Then no call meets a freed object or a null pointer.
\<close>

subsection \<open>Alive and dead\<close>

definition unharmed :: "world \<Rightarrow> bool" where
  "unharmed w \<longleftrightarrow> ou_fault (w_ou w) = None \<or> ou_fault (w_ou w) = Some DeliberateCrash"

definition linked :: "world \<Rightarrow> bool" where
  "linked w \<longleftrightarrow>
     ch_handle (w_ch w) \<and> ch_selfReference (w_ch w) \<and> ch_client (w_ch w) \<and> ch_document (w_ch w) \<and>
     \<not> ch_closed (w_ch w) \<and> \<not> ch_suspended (w_ch w) \<and> ws_channel (w_ws w) \<and> ws_readyState (w_ws w) \<noteq> CLOSED \<and>
     so_active (w_so w) \<and> so_readBuffer (w_so w) \<noteq> Freed \<and> unharmed w"

definition alive :: "world \<Rightarrow> bool" where
  "alive w \<longleftrightarrow>
     linked w \<and> ch_outgoingFrameQueueStatus (w_ch w) \<noteq> OutgoingFrameQueueClosing \<and>
     (hs_mode (ch_handshake (w_ch w)) \<noteq> Connected \<longrightarrow> ws_readyState (w_ws w) = CONNECTING)"

definition dead :: "world \<Rightarrow> bool" where
  "dead w \<longleftrightarrow>
     \<not> ch_handle (w_ch w) \<and> \<not> ch_selfReference (w_ch w) \<and> \<not> ch_client (w_ch w) \<and> \<not> ch_closingTimer (w_ch w) \<and>
     \<not> ws_channel (w_ws w) \<and> ws_readyState (w_ws w) = CLOSED \<and> \<not> so_active (w_so w) \<and> unharmed w"

definition sound :: "world \<Rightarrow> bool" where
  "sound w \<longleftrightarrow> disturbed w \<or> alive w \<or> dead w"

subsection \<open>Closing the socket\<close>

text \<open>The handler of the close event runs when the handle is gone and the channel still holds itself.\<close>

definition dying :: "world \<Rightarrow> bool" where
  "dying w \<longleftrightarrow>
     \<not> ch_handle (w_ch w) \<and> ch_selfReference (w_ch w) \<and> \<not> ch_client (w_ch w) \<and> \<not> ch_closingTimer (w_ch w) \<and>
     \<not> so_active (w_so w) \<and> unharmed w"

lemma dying_disconnect: "dying w \<Longrightarrow> dying (channel_disconnect env w)"
  by (simp add: dying_def channel_disconnect_def unharmed_def Let_def)

lemma dying_runClosed:
  assumes "dying w" and "ws_readyState (w_ws w) = CLOSED"
  shows "dying (runClosed env w)"
proof -
  let ?run = "webSocketCommand (\<lambda>_. notReached) (\<lambda>_. notReached) (\<lambda>_ _. notReached) notReached (channel_disconnect env)"
  have "dying (?run cmd u) \<and> ws_readyState (w_ws (?run cmd u)) = CLOSED"
    if "dying u" "ws_readyState (w_ws u) = CLOSED" for cmd u
    using that dying_disconnect[of u env]
    by (cases cmd) (auto simp: dying_def unharmed_def WebSocket_send_def WebSocket_sendBinary_def WebSocket_close_def
        WebSocket_stop_def WebSocket_setBinaryType_def WebSocket_suspend_def WebSocket_resume_def channel_resume_def
        countAfterClose_def Let_def)
  then have "dying (fold ?run cs u)" if "dying u" "ws_readyState (w_ws u) = CLOSED" for cs u
    using that by (induction cs arbitrary: u) simp_all
  then show ?thesis using assms by (simp add: runClosed_def)
qed

lemma w_ws_postEvent [simp]: "w_ws (postEvent e w) = w_ws w"
  by (simp add: postEvent_def)

lemma dying_updates [simp]: "dying (w\<lparr>w_ws := x\<rparr>) = dying w" "dying (postEvent e w) = dying w"
  by (simp_all add: dying_def unharmed_def postEvent_def)

lemma dying_didClose:
  assumes "dying w"
  shows "dying (WebSocket_didClose env n complete code reason w)"
  unfolding WebSocket_didClose_def Let_def using assms by (simp add: dying_disconnect dying_runClosed)

lemma streamClosed_dying:
  assumes "ch_handle (w_ch w)" and "ch_selfReference (w_ch w)" and "\<not> ch_suspended (w_ch w)"
    and "\<not> so_active (w_so w)" and "unharmed w"
  obtains v where "streamClosed k w = releaseSelf (if ch_client (w_ch w) then k v else v)" and "dying v" and "w_ws v = w_ws w"
proof -
  let ?c = "if \<not> ch_useHixie76Protocol (w_ch w) \<and> ch_outgoingFrameQueueStatus (w_ch w) \<noteq> OutgoingFrameQueueClosed
    then abortOutgoingFrameQueue ((w_ch w)\<lparr>ch_closed := True, ch_closingTimer := False\<rparr>)
    else (w_ch w)\<lparr>ch_closed := True, ch_closingTimer := False\<rparr>"
  let ?v = "w\<lparr>w_ch := ?c\<lparr>ch_unhandledBufferedAmount := length (so_buffer (w_so w)), ch_client := False,
    ch_document := False, ch_handle := False\<rparr>\<rparr>"
  have "streamClosed k w = releaseSelf (if ch_client (w_ch w) then k ?v else ?v)"
    using assms by (simp add: streamClosed_def abortOutgoingFrameQueue_def Let_def)
  moreover have "dying ?v" using assms by (simp add: dying_def unharmed_def abortOutgoingFrameQueue_def)
  ultimately show ?thesis using that by simp
qed

lemma dying_release:
  "dying v \<Longrightarrow> \<not> ws_channel (w_ws v) \<Longrightarrow> ws_readyState (w_ws v) = CLOSED \<Longrightarrow> dead (releaseSelf v)"
  by (simp add: dying_def dead_def releaseSelf_def unharmed_def)

lemma platformClose_end_linked:
  assumes "linked w"
  obtains v where "platformClose_end k w = k v" and "w_ch v = w_ch w" and "w_ws v = w_ws w"
    and "\<not> so_active (w_so v)" and "unharmed v"
  using assms that
  by (cases "so_readBuffer (w_so w)") (auto simp: linked_def platformClose_end_def deleteReadBuffer_def unharmed_def)

lemma didClose_dead:
  assumes "linked w" and "w_ch v = w_ch w" and "w_ws v = w_ws w" and "\<not> so_active (w_so v)" and "unharmed v"
  shows "dead (didCloseSocketStream env v)" and "closed (ou_events (w_ou (didCloseSocketStream env v)))"
proof -
  let ?k = "\<lambda>w. WebSocket_didClose env (ch_unhandledBufferedAmount (w_ch w)) (ch_receivedClosingHandshake (w_ch w))
    (ch_closeEventCode (w_ch w)) (ch_closeEventReason (w_ch w)) w"
  have a: "ch_handle (w_ch v)" "ch_selfReference (w_ch v)" "\<not> ch_suspended (w_ch v)" "ch_client (w_ch v)" "ws_channel (w_ws v)"
    using assms(1-3) by (simp_all add: linked_def)
  obtain u where u: "streamClosed ?k v = releaseSelf (if ch_client (w_ch v) then ?k u else u)" "dying u" "w_ws u = w_ws v"
    by (rule streamClosed_dying[OF a(1-3) assms(4,5)])
  then show "dead (didCloseSocketStream env v)"
    unfolding didCloseSocketStream_def using a(4,5)
    by (simp add: dying_release dying_didClose WebSocket_didClose_state)
  have "ou_events (w_ou (releaseSelf x)) = ou_events (w_ou x)" for x by (simp add: releaseSelf_def raise_def)
  then show "closed (ou_events (w_ou (didCloseSocketStream env v)))"
    unfolding didCloseSocketStream_def using u a(4,5) by (simp add: WebSocket_didClose_state)
qed

lemma disconnect_dead:
  assumes "linked w" and "\<not> en_closeFails env"
  shows "dead (handle_disconnect env (didCloseSocketStream env) w)"
    and disconnect_closes: "closed (ou_events (w_ou (handle_disconnect env (didCloseSocketStream env) w)))"
proof -
  obtain v where v: "platformClose_end (didCloseSocketStream env) w = didCloseSocketStream env v" "w_ch v = w_ch w"
      "w_ws v = w_ws w" "\<not> so_active (w_so v)" "unharmed v"
    by (rule platformClose_end_linked[OF assms(1)])
  show "dead (handle_disconnect env (didCloseSocketStream env) w)"
    "closed (ou_events (w_ou (handle_disconnect env (didCloseSocketStream env) w)))"
    using assms(2) v(1) didClose_dead[OF assms(1) v(2-5), of env]
    by (simp_all add: handle_disconnect_def platformClose_def setStreamState_def dead_def unharmed_def)
qed

text \<open>When the document goes away, the client is forgotten before the socket is closed.\<close>

lemma stop_dead:
  assumes "linked w" and "\<not> en_closeFails env"
  shows "dead (WebSocket_stop (channel_disconnect env) w)"
proof -
  let ?w = "w\<lparr>w_ch := (w_ch w)\<lparr>ch_client := False, ch_document := False\<rparr>\<rparr>"
  let ?v = "deleteReadBuffer (?w\<lparr>w_so := (w_so ?w)\<lparr>so_active := False, so_writeReadySource := False,
    so_socketConnection := False, so_streamClosed := True\<rparr>\<rparr>)"
  have v: "ch_handle (w_ch ?v)" "ch_selfReference (w_ch ?v)" "\<not> ch_suspended (w_ch ?v)" "\<not> so_active (w_so ?v)"
      "unharmed ?v" "\<not> ch_client (w_ch ?v)"
    using assms(1) by (auto simp: linked_def deleteReadBuffer_def unharmed_def split: heapBuffer.split)
  obtain u where u: "streamClosed (\<lambda>w. w) ?v = releaseSelf (if ch_client (w_ch ?v) then u else u)" "dying u"
    by (rule streamClosed_dying[OF v(1-5), of "\<lambda>w. w"])
  have "WebSocket_stop (channel_disconnect env) w =
      (let w1 = setStreamState StreamClosed (streamClosed (\<lambda>w. w) ?v)
       in w1\<lparr>w_ws := (w_ws w1)\<lparr>ws_channel := False, ws_readyState := CLOSED\<rparr>\<rparr>)"
    using assms by (simp add: WebSocket_stop_def channel_disconnect_def handle_disconnect_def platformClose_def
        platformClose_end_def linked_def Let_def)
  then show ?thesis
    unfolding u(1) using u(2) by (simp add: Let_def setStreamState_def releaseSelf_def dying_def dead_def unharmed_def)
qed

lemma fail_dead:
  assumes "linked w" and "\<not> en_closeFails env"
  shows "dead (channel_fail env w)" and "dead (didFailSocketStream env w)"
  using assms
  by (auto simp: channel_fail_def didFailSocketStream_def discardReceivedData_def Let_def intro!: disconnect_dead)
    (simp_all add: linked_def unharmed_def)

lemma alive_linked: "alive w \<Longrightarrow> linked w"
  by (simp add: alive_def)

lemma handle_close_sound:
  assumes "alive w" and "\<not> en_closeFails env"
  shows "alive (handle_close env w) \<or> dead (handle_close env w)"
proof -
  have "alive (setStreamState StreamClosing w)" using assms(1) by (simp add: alive_def linked_def setStreamState_def unharmed_def)
  then show ?thesis using assms disconnect_dead alive_linked by (auto simp: handle_close_def Let_def)
qed

subsection \<open>Sending\<close>

definition reliable :: "channelEnv \<Rightarrow> bool" where
  "reliable env \<longleftrightarrow> (\<forall>n. en_write env n \<noteq> WriteFailed) \<and> \<not> en_closeFails env"

text \<open>A send that is accepted changes the queue, the buffers and the counters.\<close>

definition sent :: "world \<Rightarrow> world \<Rightarrow> bool" where
  "sent w v \<longleftrightarrow>
     (\<exists>q. w_ch v = (w_ch w)\<lparr>ch_outgoingFrameQueue := q\<rparr>) \<and> sameState (w_ws w) (w_ws v) \<and>
     so_active (w_so v) = so_active (w_so w) \<and> so_readBuffer (w_so v) = so_readBuffer (w_so w) \<and>
     ou_fault (w_ou v) = ou_fault (w_ou w)"

lemma sent_refl: "sent w w"
  by (auto simp: sent_def sameState_def intro!: exI[of _ "ch_outgoingFrameQueue (w_ch w)"])

lemma sent_trans:
  assumes "sent w v" and "sent v u"
  shows "sent w u"
proof -
  obtain q1 q2 where "w_ch v = (w_ch w)\<lparr>ch_outgoingFrameQueue := q1\<rparr>" "w_ch u = (w_ch v)\<lparr>ch_outgoingFrameQueue := q2\<rparr>"
    using assms unfolding sent_def by (elim conjE exE)
  then have "w_ch u = (w_ch w)\<lparr>ch_outgoingFrameQueue := q2\<rparr>" by simp
  then have q: "\<exists>q. w_ch u = (w_ch w)\<lparr>ch_outgoingFrameQueue := q\<rparr>" by (rule exI)
  show ?thesis
    unfolding sent_def by (rule conjI, rule q) (use assms in \<open>simp add: sent_def sameState_def\<close>)
qed

lemma sent_alive:
  assumes "sent w v"
  shows "alive v = alive w"
  using assms by (auto simp: alive_def linked_def sent_def sameState_def unharmed_def)

lemma sent_same: "w_ch v = w_ch w \<Longrightarrow> sameState (w_ws w) (w_ws v) \<Longrightarrow> so_active (w_so v) = so_active (w_so w) \<Longrightarrow>
    so_readBuffer (w_so v) = so_readBuffer (w_so w) \<Longrightarrow> ou_fault (w_ou v) = ou_fault (w_ou w) \<Longrightarrow> sent w v"
  by (auto simp: sent_def intro!: exI[of _ "ch_outgoingFrameQueue (w_ch w)"])

lemma platformSend_sent:
  assumes "\<forall>n. en_write env n \<noteq> WriteFailed"
  shows "sent w (snd (platformSend env data w)) \<and> w_ch (snd (platformSend env data w)) = w_ch w"
  using assms
  by (cases "en_write env (ou_writes (w_ou w))") (auto simp: platformSend_def sameState_def Let_def intro!: sent_same)

lemma buffer_sent: "sent w v \<Longrightarrow> sent w (appendToSocketBuffer data v)" "sent w v \<Longrightarrow> sent w (snd (accept data v))"
  "w_ch (appendToSocketBuffer data v) = w_ch v" "w_ch (snd (accept data v)) = w_ch v" "fst (accept data v)"
  by (auto simp: appendToSocketBuffer_def accept_def didUpdateBufferedAmount_def sameState_def
      intro!: sent_trans[of w v] sent_same)

lemma refuse_disturbed: "\<not> fst (refuse w)" "disturbed (snd (refuse w))"
  by (simp_all add: refuse_def disturbed_def)

lemma handle_send_sent:
  assumes "reliable env" and "ch_handle (w_ch w)"
  shows "fst (handle_send env data w) \<Longrightarrow>
      sent w (snd (handle_send env data w)) \<and> w_ch (snd (handle_send env data w)) = w_ch w"
    and "\<not> fst (handle_send env data w) \<Longrightarrow> disturbed (snd (handle_send env data w))"
proof -
  obtain n v where s: "(if so_state (w_so w) = StreamOpen then platformSend env data w else (0, w)) = (n, v)" by fastforce
  have v: "sent w v" "w_ch v = w_ch w"
    using s platformSend_sent[of env w data] assms(1) sent_refl[of w] by (auto simp: reliable_def split: if_splits)
  then have "handleAlive v" using assms(2) by (simp add: handleAlive_def)
  then have e: "handle_send env data w =
     (if so_state (w_so w) = StreamConnecting \<or> so_state (w_so w) = StreamClosing then refuse w
      else if so_buffer (w_so w) \<noteq> [] then
        (if bufferSize < int (length (so_buffer (w_so w)) + length data) then refuse w
         else accept data (appendToSocketBuffer data w))
      else if bufferSize < int (length (so_buffer (w_so v)) + length data - n) then refuse v
      else if n < length data then accept data (appendToSocketBuffer (drop n data) v)
      else accept data v)"
    using s by (simp add: handle_send_def Let_def)
  show "fst (handle_send env data w) \<Longrightarrow>
      sent w (snd (handle_send env data w)) \<and> w_ch (snd (handle_send env data w)) = w_ch w"
    unfolding e by (auto simp: refuse_disturbed buffer_sent v sent_refl split: if_splits)
  show "\<not> fst (handle_send env data w) \<Longrightarrow> disturbed (snd (handle_send env data w))"
    unfolding e by (auto simp: refuse_disturbed buffer_sent split: if_splits)
qed

definition held :: "world \<Rightarrow> bool" where
  "held w \<longleftrightarrow> ch_handle (w_ch w) \<and> ch_selfReference (w_ch w)"

lemma held_sent: "sent w v \<Longrightarrow> held w \<Longrightarrow> held v"
  by (auto simp: held_def sent_def)

lemma held_useChannel: "held w \<Longrightarrow> useChannel w = w"
  by (simp add: held_def useChannel_def channelAlive_def)

lemma sendFrame_sent:
  assumes "reliable env" and "held w"
  shows "fst (sendFrame env opCode data w) \<Longrightarrow> sent w (snd (sendFrame env opCode data w))"
    and "\<not> fst (sendFrame env opCode data w) \<Longrightarrow> disturbed (snd (sendFrame env opCode data w))"
proof -
  let ?w = "w\<lparr>w_ou := (w_ou w)\<lparr>ou_frames := Suc (ou_frames (w_ou w))\<rparr>\<rparr>"
  have "sent w ?w" by (rule sent_same) (simp_all add: sameState_def)
  moreover have "ch_handle (w_ch ?w)" using assms(2) by (simp add: held_def)
  ultimately show "fst (sendFrame env opCode data w) \<Longrightarrow> sent w (snd (sendFrame env opCode data w))"
    "\<not> fst (sendFrame env opCode data w) \<Longrightarrow> disturbed (snd (sendFrame env opCode data w))"
    using handle_send_sent[OF assms(1), of ?w] sent_trans by (auto simp: sendFrame_def)
qed

lemma sendQueuedFrame_sent:
  assumes "reliable env" and "held w"
  shows "sent w (sendQueuedFrame env frame w) \<or> disturbed (sendQueuedFrame env frame w)"
proof -
  have "sent w (case r of (True, v) \<Rightarrow> useChannel v | (False, v) \<Rightarrow> useChannel (channel_fail env v)) \<or>
      disturbed (case r of (True, v) \<Rightarrow> useChannel v | (False, v) \<Rightarrow> useChannel (channel_fail env v))"
    if "fst r \<Longrightarrow> sent w (snd r)" "\<not> fst r \<Longrightarrow> disturbed (snd r)" for r
    using that assms(2) by (cases r) (auto simp: held_useChannel held_sent intro: kept split: bool.split)
  then show ?thesis
    unfolding sendQueuedFrame_def using sendFrame_sent[OF assms] by (auto split: queuedFrame.split)
qed

lemma drainQueue_sent:
  "reliable env \<Longrightarrow> held w \<Longrightarrow> sent w (drainQueue env w) \<or> disturbed (drainQueue env w)"
proof (induction env w rule: drainQueue.induct)
  case (1 env w)
  show ?case
  proof (cases "ch_outgoingFrameQueue (w_ch w)")
    case Nil
    then show ?thesis using sent_refl by (subst (1 2) drainQueue.simps) simp
  next
    case (Cons frame frames)
    let ?w = "w\<lparr>w_ch := (w_ch w)\<lparr>ch_outgoingFrameQueue := frames\<rparr>\<rparr>"
    let ?v = "sendQueuedFrame env frame ?w"
    have w: "sent w ?w" "held ?w" using "1.prems"(2) by (auto simp: sent_def sameState_def held_def)
    have d: "drainQueue env w = drainQueue env ?v" using Cons by (subst drainQueue.simps) simp
    show ?thesis
    proof (cases "disturbed ?v")
      case False
      then have v: "sent w ?v" "held ?v"
        using sendQueuedFrame_sent[OF "1.prems"(1) w(2), of frame] w sent_trans held_sent by blast+
      then show ?thesis using "1.IH"[OF Cons] "1.prems"(1) sent_trans unfolding d by blast
    qed (simp add: d disturbed.drainQueue)
  qed
qed

lemma enqueueFrame_sent:
  assumes "reliable env" and "alive w"
  shows "sent w (enqueueFrame env frame w) \<or> disturbed (enqueueFrame env frame w)"
proof -
  let ?w = "w\<lparr>w_ch := (w_ch w)\<lparr>ch_outgoingFrameQueue := ch_outgoingFrameQueue (w_ch w) @ [frame]\<rparr>\<rparr>"
  have w: "sent w ?w" "held ?w" using assms(2) by (auto simp: sent_def sameState_def held_def alive_def linked_def)
  then have a: "alive ?w" using sent_alive assms(2) by blast
  show ?thesis
  proof (cases "ch_outgoingFrameQueueStatus (w_ch w) = OutgoingFrameQueueClosed \<or> disturbed (drainQueue env ?w)")
    case False
    then have "sent ?w (drainQueue env ?w)" using drainQueue_sent[OF assms(1) w(2)] by blast
    then have "alive (drainQueue env ?w)" "sent w (drainQueue env ?w)" using a sent_alive w(1) sent_trans by blast+
    then show ?thesis using False by (simp add: enqueueFrame_def processOutgoingFrameQueue_def alive_def linked_def)
  next
    case True
    then show ?thesis
      using w(1) by (auto simp: enqueueFrame_def processOutgoingFrameQueue_def Let_def intro!: kept disturbed.any_ch)
  qed
qed

subsection \<open>Calls of the script\<close>

lemma disturbed_sound [simp]: "disturbed w \<Longrightarrow> sound w"
  by (simp add: sound_def)

lemma channel_send_alive:
  assumes "reliable env" and "alive w"
  shows "alive (channel_send env message w) \<or> disturbed (channel_send env message w)"
    and "alive (channel_sendBinary env data w) \<or> disturbed (channel_sendBinary env data w)"
  using enqueueFrame_sent[OF assms] handle_send_sent[OF assms(1), of w] assms(2) sent_alive
  by (auto simp: channel_send_def channel_sendBinary_def alive_def[of w] linked_def[of w]) (metis assms(2))+

text \<open>The closing handshake has started, or the send has been refused.\<close>

lemma didStartClosingHandshake_alive:
  assumes "alive w" and "hs_mode (ch_handshake (w_ch w)) = Connected"
  shows "alive (didStartClosingHandshake w)" and "ch_closing (w_ch (didStartClosingHandshake w))"
  using assms by (simp_all add: didStartClosingHandshake_def setReadyState_def alive_def linked_def unharmed_def)

lemma startClosingHandshake_started:
  assumes "reliable env" and "alive w" and "hs_mode (ch_handshake (w_ch w)) = Connected"
    and "v = startClosingHandshake env code reason w"
  shows "disturbed v \<or> alive v \<and> ch_closing (w_ch v) \<and> (ws_readyState (w_ws v) = CLOSING \<or> v = w)"
proof -
  have q: "disturbed u \<or> alive u \<and> ch_closing (w_ch u) \<and> ws_readyState (w_ws u) = CLOSING"
    if "sent w x \<or> disturbed x" "u = didStartClosingHandshake (useChannel x)" for x u
  proof (cases "disturbed x")
    case False
    then have s: "sent w x" using that(1) by blast
    have x: "alive x" using sent_alive[OF s] assms(2) by blast
    then have "useChannel x = x" by (intro held_useChannel) (simp add: held_def alive_def linked_def)
    moreover have "hs_mode (ch_handshake (w_ch x)) = Connected" using s assms(3) by (auto simp: sent_def)
    moreover have "ch_client (w_ch x)" using x by (simp add: alive_def linked_def)
    ultimately show ?thesis
      using x that(2) didStartClosingHandshake_alive[OF x]
      by (simp add: didStartClosingHandshake_def setReadyState_def)
  qed (simp add: that kept)
  have h: "ch_handle (w_ch w)" using assms(2) by (simp add: alive_def linked_def)
  show ?thesis
  proof (cases "ch_closing (w_ch w) \<or> \<not> ch_useHixie76Protocol (w_ch w)")
    case False
    obtain b x where x: "handle_send env [0xFF, 0x00] w = (b, x)" by fastforce
    then have "b \<Longrightarrow> sent w x" "\<not> b \<Longrightarrow> disturbed x" using handle_send_sent[OF assms(1) h, of "[0xFF, 0x00]"] by auto
    then show ?thesis
      using assms(4) False h q[of x] by (cases b) (auto simp: startClosingHandshake_def x intro: kept)
  next
    case True
    then show ?thesis
      using assms(2,4) h q[OF enqueueFrame_sent[OF assms(1,2)] refl] by (auto simp: startClosingHandshake_def Let_def)
  qed
qed

lemma startClosingHandshake_alive:
  assumes "reliable env" and "alive w" and "hs_mode (ch_handshake (w_ch w)) = Connected"
  shows "alive (startClosingHandshake env code reason w) \<or> disturbed (startClosingHandshake env code reason w)"
  using startClosingHandshake_started[OF assms refl, of code reason] by blast

lemma alive_closingTimer [simp]: "alive (w\<lparr>w_ch := (w_ch w)\<lparr>ch_closingTimer := b\<rparr>\<rparr>) = alive w"
  by (simp add: alive_def linked_def unharmed_def)

lemma channel_close_closing:
  assumes "reliable env" and "alive w" and "hs_mode (ch_handshake (w_ch w)) = Connected" and "ws_readyState (w_ws w) = CLOSING"
  shows "disturbed (channel_close env code reason w) \<or> alive (channel_close env code reason w) \<and>
    ws_readyState (w_ws (channel_close env code reason w)) = CLOSING \<and> ch_closingTimer (w_ch (channel_close env code reason w))"
proof -
  let ?v = "startClosingHandshake env code (Some reason) w"
  have "disturbed ?v \<or> alive ?v \<and> ch_closing (w_ch ?v) \<and> ws_readyState (w_ws ?v) = CLOSING"
    using startClosingHandshake_started[OF assms(1-3) refl, of code "Some reason"] assms(4) by metis
  moreover have "useChannel ?v = ?v" if "alive ?v"
    using that by (intro held_useChannel) (simp add: held_def alive_def linked_def)
  ultimately show ?thesis
    using assms(2) by (auto simp: channel_close_def Let_def alive_def[of w] linked_def[of w] intro!: disturbed.any_ch kept)
qed

lemma command_dead: "dead w \<Longrightarrow> sound (runCommand env cmd w)"
  by (cases cmd) (auto simp: runCommand_def sound_def dead_def unharmed_def disturbed_def WebSocket_send_def WebSocket_sendBinary_def
      WebSocket_close_def WebSocket_stop_def WebSocket_setBinaryType_def WebSocket_suspend_def WebSocket_resume_def
      countAfterClose_def Let_def)

lemma alive_updates:
  assumes "alive w"
  shows "alive (countAfterClose n w)" "alive (WebSocket_setBinaryType t w)" "alive (WebSocket_resume w)"
    "alive (discardReceivedData w)" "alive (postEvent e w)" "alive (setBuffer b w)" "alive (protectChannel p w)"
    "alive (setStreamState st w)"
  using assms
  by (auto simp: alive_def linked_def unharmed_def countAfterClose_def WebSocket_setBinaryType_def WebSocket_resume_def channel_resume_def
      discardReceivedData_def postEvent_def setBuffer_def protectChannel_def setStreamState_def Let_def)

lemma close_alive:
  assumes "reliable env" and "alive w"
  shows "sound (WebSocket_close (channel_close env) (channel_fail env) code reason w)"
proof -
  have c: "\<not> en_closeFails env" using assms(1) by (simp add: reliable_def)
  have l: "linked (setReadyState CLOSING w)" using assms(2) by (simp add: alive_def linked_def setReadyState_def unharmed_def)
  have "alive (setReadyState CLOSING w)" if "ws_readyState (w_ws w) \<noteq> CONNECTING"
    using assms(2) that by (auto simp: alive_def linked_def setReadyState_def unharmed_def)
  then have "sound (channel_close env code reason (setReadyState CLOSING w))" if "ws_readyState (w_ws w) = OPEN"
    using channel_close_closing[OF assms(1), of "setReadyState CLOSING w" code reason] that assms(2)
    by (auto simp: sound_def alive_def[of w] setReadyState_def)
  then show ?thesis
    using assms(2) fail_dead(1)[OF l c]
    by (auto simp: WebSocket_close_def sound_def Let_def alive_def[of w] linked_def[of w] setReadyState_def[of CLOSING w]
        split: webSocketState.split)
qed

lemma command_alive:
  assumes "reliable env" and "alive w"
  shows "sound (runCommand env cmd w)"
proof -
  have c: "\<not> en_closeFails env" using assms(1) by (simp add: reliable_def)
  have ch: "ws_channel (w_ws w)" using assms(2) by (simp add: alive_def linked_def)
  show ?thesis
    using assms ch channel_send_alive[OF assms] alive_updates[OF assms(2)] stop_dead[OF alive_linked[OF assms(2)] c]
      close_alive[OF assms]
    by (cases cmd) (auto simp: runCommand_def sound_def WebSocket_send_def WebSocket_sendBinary_def WebSocket_suspend_def
        disturbed_def split: webSocketState.split)
qed

lemma command_sound: "reliable env \<Longrightarrow> sound w \<Longrightarrow> sound (runCommand env cmd w)"
proof -
  have "disturbed w \<Longrightarrow> disturbed (runCommand env cmd w)"
    using disturbed.commands[of w env "[cmd]"] by simp
  then show "reliable env \<Longrightarrow> sound w \<Longrightarrow> sound (runCommand env cmd w)"
    using command_alive command_dead disturbed_sound by (metis sound_def)
qed

lemma commands_sound: "reliable env \<Longrightarrow> sound w \<Longrightarrow> sound (fold (runCommand env) cs w)"
  by (induction cs arbitrary: w) (simp_all add: command_sound)

subsection \<open>Receiving\<close>

lemma alive_ch:
  assumes "alive w" and "ch_handle c \<and> ch_selfReference c \<and> ch_client c \<and> ch_document c \<and> \<not> ch_closed c \<and> \<not> ch_suspended c"
    and "ch_outgoingFrameQueueStatus c = ch_outgoingFrameQueueStatus (w_ch w)" and "ch_handshake c = ch_handshake (w_ch w)"
  shows "alive (w\<lparr>w_ch := c\<rparr>)"
  using assms by (simp add: alive_def linked_def unharmed_def)

lemma alive_skipBuffer: "alive w \<Longrightarrow> n \<le> length (ch_buffer (w_ch w)) \<Longrightarrow> alive (skipBuffer n w)"
  by (simp add: skipBuffer_def alive_updates)

lemma alive_crash: "alive w \<Longrightarrow> alive (raise DeliberateCrash w)"
  by (simp add: alive_def linked_def unharmed_def raise_def)

lemma fail_sound:
  assumes "reliable env" and "sound w"
  shows "sound (channel_fail env w)"
proof -
  have "dead (channel_fail env w)" if "dead w"
    using that by (simp add: channel_fail_def dead_def unharmed_def Let_def)
  then show ?thesis
    using assms fail_dead(1) alive_linked kept by (auto simp: sound_def reliable_def)
qed

lemma dispatch_sound:
  assumes "reliable env" and "alive w"
  shows "sound (dispatchEvent env e w)"
  unfolding dispatchEvent_def Let_def using assms by (intro commands_sound) (simp_all add: sound_def alive_updates)

lemma client_calls_sound:
  assumes "reliable env" and "alive w"
  shows "sound (toClient (didReceiveMessage env msg) w)" "sound (toClient (didReceiveBinaryData env data) w)"
    "sound (toClient (didReceiveMessageError env) w)"
  using assms dispatch_sound[OF assms]
  by (auto simp: toClient_def didReceiveMessage_def didReceiveBinaryData_def didReceiveMessageError_def sound_def
      alive_def[of w] linked_def[of w])

lemma fromUTF8_crash: "fromUTF8 s = Inl f \<Longrightarrow> f = DeliberateCrash"
  by (auto simp: fromUTF8_def split: option.splits if_splits prod.splits)

lemma alive_sound: "alive w \<Longrightarrow> sound w"
  by (simp add: sound_def)

lemma deliverText_sound:
  assumes "reliable env" and "alive w"
  shows "sound (deliverText env (decodeText data) w)"
  using assms
  by (auto simp: deliverText_def decodeText_def dest!: fromUTF8_crash split: sum.split option.split
      intro!: client_calls_sound fail_sound alive_crash[THEN alive_sound]) (simp_all add: alive_sound)

lemma frames_sound:
  assumes "reliable env" and "alive w" and "fr_frameEnd frame \<le> length (ch_buffer (w_ch w))"
  shows "sound (snd (processText env frame w))" "sound (snd (processBinary env frame w))"
  using assms
  by (auto simp: processText_def processBinary_def moreData_def startContinuousFrame_def
      intro!: deliverText_sound client_calls_sound alive_skipBuffer alive_skipBuffer[THEN alive_sound])
    (auto simp: alive_def linked_def unharmed_def)

lemma skipBuffer_fields:
  "ch_handle (w_ch (skipBuffer n w)) = ch_handle (w_ch w)"
  "ch_selfReference (w_ch (skipBuffer n w)) = ch_selfReference (w_ch w)"
  by (simp_all add: skipBuffer_def setBuffer_def raise_def)

lemma continuation_sound:
  assumes "reliable env" and "alive w" and "fr_frameEnd frame \<le> length (ch_buffer (w_ch w))"
  shows "sound (snd (processContinuation env frame w))"
proof -
  let ?data = "ch_continuousFrameData (w_ch w) @ fr_payload frame"
  let ?w1 = "skipBuffer (fr_frameEnd frame) (w\<lparr>w_ch := (w_ch w)\<lparr>ch_continuousFrameData := ?data\<rparr>\<rparr>)"
  have w1: "alive ?w1"
    using assms(2,3) by (intro alive_skipBuffer) (simp_all add: alive_def linked_def unharmed_def)
  then have "alive (?w1\<lparr>w_ch := (w_ch ?w1)\<lparr>ch_continuousFrameData := [], ch_hasContinuousFrame := False\<rparr>\<rparr>)"
    by (simp add: alive_def linked_def unharmed_def)
  then show ?thesis
    using w1 assms(1,2)
    by (auto simp: processContinuation_def moreData_def Let_def intro!: deliverText_sound client_calls_sound fail_sound)
      (simp_all add: alive_sound)
qed

lemma ping_sound:
  assumes "reliable env" and "alive w" and "0 < fr_frameEnd frame" and "fr_frameEnd frame \<le> length (ch_buffer (w_ch w))"
  shows "sound (snd (processPing env frame w))"
proof -
  let ?v = "enqueueFrame env (QueuedFrameTypeVector OpCodePong (fr_payload frame)) w"
  show ?thesis
  proof (cases "disturbed ?v")
    case True
    then show ?thesis by (auto simp: processPing_def moreData_def Let_def intro!: disturbed_sound kept)
  next
    case False
    then have s: "sent w ?v" using enqueueFrame_sent[OF assms(1,2)] by blast
    have "ch_buffer (w_ch ?v) = ch_buffer (w_ch w)" using s by (auto simp: sent_def)
    moreover have "alive ?v" using sent_alive[OF s] assms(2) by blast
    ultimately show ?thesis using assms(3,4) by (auto simp: processPing_def moreData_def Let_def intro!: alive_skipBuffer[THEN alive_sound])
  qed
qed

text \<open>
  After the server's close frame and the answer to it, the socket is closed: the queue has been
  emptied into it.
\<close>

lemma closeQueue_sound:
  assumes "reliable env" and "alive w"
  shows "sound (processOutgoingFrameQueue env
    (w\<lparr>w_ch := (w_ch w)\<lparr>ch_outgoingFrameQueueStatus := OutgoingFrameQueueClosing\<rparr>\<rparr>))"
proof -
  let ?w = "w\<lparr>w_ch := (w_ch w)\<lparr>ch_outgoingFrameQueueStatus := OutgoingFrameQueueClosing\<rparr>\<rparr>"
  let ?v = "drainQueue env ?w"
  have h: "held ?w" using assms(2) by (simp add: held_def alive_def linked_def)
  show ?thesis
  proof (cases "disturbed ?v")
    case True
    then show ?thesis
      by (auto simp: processOutgoingFrameQueue_def Let_def intro!: disturbed_sound kept disturbed.any_ch)
  next
    case False
    then have s: "sent ?w ?v" using drainQueue_sent[OF assms(1) h] by blast
    let ?u = "?v\<lparr>w_ch := (w_ch ?v)\<lparr>ch_outgoingFrameQueueStatus := OutgoingFrameQueueClosed\<rparr>\<rparr>"
    have a: "alive ?u" using s assms(2) by (auto simp: sent_def sameState_def alive_def linked_def unharmed_def)
    have "processOutgoingFrameQueue env ?w = handle_close env ?u"
      using s assms(2) by (auto simp: processOutgoingFrameQueue_def sent_def alive_def linked_def Let_def)
    then show ?thesis using handle_close_sound[OF a] assms(1) by (auto simp: sound_def reliable_def)
  qed
qed

lemma closeAfterAnswer_sound:
  assumes "reliable env" and "alive w \<or> disturbed w"
  shows "sound (snd (closeAfterAnswer env w))" and "sound (snd (closeAfterAnswerHixie76 env w))"
proof -
  have "sound (handle_close env w)" if "alive w"
    using handle_close_sound[OF that] assms(1) by (auto simp: sound_def reliable_def)
  moreover have "ch_handle (w_ch w)" if "alive w" using that by (simp add: alive_def linked_def)
  ultimately have "sound (snd (closeAfterAnswer env w)) \<and> sound (snd (closeAfterAnswerHixie76 env w))" if "alive w"
    using that by (simp add: closeAfterAnswer_def closeAfterAnswerHixie76_def moreData_def closeQueue_sound assms(1) alive_sound)
  moreover have "sound (snd (closeAfterAnswer env w)) \<and> sound (snd (closeAfterAnswerHixie76 env w))" if "disturbed w"
    using that
    by (auto simp: closeAfterAnswer_def closeAfterAnswerHixie76_def moreData_def intro!: disturbed_sound kept disturbed.any_ch)
  ultimately show "sound (snd (closeAfterAnswer env w))" "sound (snd (closeAfterAnswerHixie76 env w))"
    using assms(2) by blast+
qed

lemma answerClose_sound:
  assumes "reliable env" and "alive w" and "hs_mode (ch_handshake (w_ch w)) = Connected"
  shows "sound (snd (closeAfterAnswer env (startClosingHandshake env code reason (w\<lparr>w_ch := (w_ch w)\<lparr>ch_receivedClosingHandshake := b\<rparr>\<rparr>))))"
    and "sound (snd (closeAfterAnswerHixie76 env (startClosingHandshake env code reason (w\<lparr>w_ch := (w_ch w)\<lparr>ch_receivedClosingHandshake := b\<rparr>\<rparr>))))"
proof -
  have "alive (w\<lparr>w_ch := (w_ch w)\<lparr>ch_receivedClosingHandshake := b\<rparr>\<rparr>)"
    using assms(2) by (simp add: alive_def linked_def unharmed_def)
  then show "sound (snd (closeAfterAnswer env (startClosingHandshake env code reason (w\<lparr>w_ch := (w_ch w)\<lparr>ch_receivedClosingHandshake := b\<rparr>\<rparr>))))"
    and "sound (snd (closeAfterAnswerHixie76 env (startClosingHandshake env code reason (w\<lparr>w_ch := (w_ch w)\<lparr>ch_receivedClosingHandshake := b\<rparr>\<rparr>))))"
    using assms(1,3) by (intro closeAfterAnswer_sound startClosingHandshake_alive; simp)+
qed

lemma close_sound:
  assumes "reliable env" and "alive w" and "hs_mode (ch_handshake (w_ch w)) = Connected"
    and "fr_frameEnd frame \<le> length (ch_buffer (w_ch w))"
  shows "sound (snd (processClose env frame w))"
proof -
  have a: "alive (w\<lparr>w_ch := (w_ch w)\<lparr>ch_closeEventCode := k\<rparr>\<rparr>)"
    "alive (w\<lparr>w_ch := (w_ch w)\<lparr>ch_closeEventCode := k, ch_closeEventReason := r\<rparr>\<rparr>)" for k r
    using assms(2) by (simp_all add: alive_def linked_def unharmed_def)
  then have "alive (skipBuffer (fr_frameEnd frame) (w\<lparr>w_ch := (w_ch w)\<lparr>ch_closeEventCode := k, ch_closeEventReason := r\<rparr>\<rparr>))" for k r
    using assms(4) by (intro alive_skipBuffer) simp_all
  then show ?thesis
    using assms(1,3) alive_sound[OF alive_crash[OF a(1)]]
    by (auto simp: processClose_def Let_def split: sum.split dest!: fromUTF8_crash intro!: answerClose_sound)
qed

lemma processFrame_sound:
  assumes "reliable env" and "alive w" and "hs_mode (ch_handshake (w_ch w)) = Connected"
  shows "sound (snd (processFrame env w))"
proof -
  have a: "alive (setBuffer b w)" for b using assms(2) by (simp add: alive_updates)
  have f: "0 < fr_frameEnd f \<and> fr_frameEnd f \<le> length b" if "parseFrame (ch_buffer (w_ch w)) = (FrameOK f, b)" for f b
    using parseFrame_bounds[OF that] by simp
  have l: "length (ch_buffer (w_ch (setBuffer b w))) = length b" for b by (simp add: setBuffer_def)
  have frames: "sound (snd (if invalidFrame f (w_ch (setBuffer b w)) then (False, channel_fail env (setBuffer b w))
      else if fr_opCode f = OpCodeContinuation then processContinuation env f (setBuffer b w)
      else if fr_opCode f = OpCodeText then processText env f (setBuffer b w)
      else if fr_opCode f = OpCodeBinary then processBinary env f (setBuffer b w)
      else if fr_opCode f = OpCodeClose then processClose env f (setBuffer b w)
      else if fr_opCode f = OpCodePing then processPing env f (setBuffer b w)
      else moreData (skipBuffer (fr_frameEnd f) (setBuffer b w))))"
    if "parseFrame (ch_buffer (w_ch w)) = (FrameOK f, b)" for f b
    using f[OF that] assms(3)
    by (simp add: l frames_sound continuation_sound ping_sound close_sound fail_sound alive_sound[OF a] a assms(1)
        moreData_def alive_skipBuffer alive_sound)
  obtain r b where p: "parseFrame (ch_buffer (w_ch w)) = (r, b)" by fastforce
  show ?thesis
  proof (cases r)
    case (FrameOK f)
    show ?thesis
      using frames[OF p[unfolded FrameOK]] unfolding processFrame_def p FrameOK Let_def prod.case parseFrameResult.case .
  qed (simp_all add: processFrame_def p fail_sound assms(1) a alive_sound)
qed

lemma processFrameHixie76_sound:
  assumes "reliable env" and "alive w" and "hs_mode (ch_handshake (w_ch w)) = Connected"
  shows "sound (snd (processFrameHixie76 env w))"
proof -
  let ?frame = "parseFrameHixie76 (en_address env) (ch_buffer (w_ch w))"
  have s: "alive (skipBuffer n w)" if "n = hixieLength ?frame" "?frame \<noteq> HixieIncomplete" "?frame \<noteq> HixieError" for n
    using parseFrameHixie76_bounds[OF refl that(2,3)] that(1) assms(2) by (simp add: alive_skipBuffer)
  have d: "alive (discardReceivedData (setBuffer b w))" for b using assms(2) by (simp add: alive_updates)
  show ?thesis
  proof (cases ?frame)
    case (HixieClosing n)
    then have "alive (skipBuffer n w)" by (intro s) (simp_all add: hixieLength_def)
    then show ?thesis
      using HixieClosing assms(1,3) by (auto simp: processFrameHixie76_def Let_def intro!: answerClose_sound)
  qed (use assms s d in \<open>auto simp: processFrameHixie76_def Let_def moreData_def hixieLength_def alive_sound
      split: sum.split dest!: fromUTF8_crash intro!: client_calls_sound fail_sound alive_crash[THEN alive_sound]\<close>)
qed

text \<open>The only fault of the handshake is the deliberate crash on a string of more than four gigabytes.\<close>

definition crashOnly :: "fault + 'a \<Rightarrow> bool" where
  "crashOnly r = (case r of Inl f \<Rightarrow> f = DeliberateCrash | Inr _ \<Rightarrow> True)"

lemma crashOnly_simps [simp]: "crashOnly (Inl f) \<longleftrightarrow> f = DeliberateCrash" "crashOnly (Inr v)"
  by (simp_all add: crashOnly_def)

lemma crashOnly_thenS: "crashOnly r \<Longrightarrow> (\<And>v. crashOnly (k v)) \<Longrightarrow> crashOnly (thenS r k)"
  by (cases r) simp_all

lemma crashOnly_fromUTF8 [simp]: "crashOnly (fromUTF8 s)"
  by (cases "fromUTF8 s") (auto dest: fromUTF8_crash)

lemma crashOnly_quoted: "crashOnly (consumeQuotedStringOrToken q)"
  by (auto simp: consumeQuotedStringOrToken_def consumeQuotedString_def Let_def split: list.split prod.split bool.split
      intro!: crashOnly_thenS)

lemma crashOnly_parametersLoop: "crashOnly (parametersLoop p params)"
proof (induction p params rule: parametersLoop.induct)
  case (1 p params)
  have q: "f = DeliberateCrash" if "consumeQuotedStringOrToken q = Inl f" for q f
    using crashOnly_quoted[of q] that by simp
  show ?case
    using 1 by (subst parametersLoop.simps) (auto dest: q split: prod.split bool.split sum.split)
qed

lemma crashOnly_extensionsLoop: "crashOnly (extensionsLoop iterate p d)"
proof (induction iterate p d rule: extensionsLoop.induct)
  case (1 iterate p d)
  have q: "f = DeliberateCrash" if "parametersLoop q ps = Inl f" for q ps f
    using crashOnly_parametersLoop[of q ps] that by simp
  show ?case
    using 1 by (subst extensionsLoop.simps) (auto dest: q split: prod.split bool.split sum.split option.split)
qed

lemma headersLoop_crash: "headersLoop env p h = HeadersFault f \<Longrightarrow> f = DeliberateCrash"
proof (induction env p h rule: headersLoop.induct)
  case (1 env p h)
  have x: "crashOnly (processHeaderValue it v d)" for it v d
    by (simp add: processHeaderValue_def crashOnly_extensionsLoop)
  have "crashOnly (storeHeader env n v h)" for n v
    using x[of "he_iterate env" v "hs_extensionDispatcher h"]
    by (auto simp: storeHeader_def split: sum.split prod.split bool.split)
  then have "crashOnly (endOfHeader env name val q h)" for name val q
    by (auto simp: endOfHeader_def intro!: crashOnly_thenS split: option.split)
  then have e: "f = DeliberateCrash" if "endOfHeader env name val q h = Inl f" for name val q
    using that by (metis crashOnly_simps(1))
  show ?case
    using "1.prems" by (subst (asm) headersLoop.simps)
      (auto dest: e "1.IH" split: if_splits nameResult.splits valueResult.splits sum.splits prod.splits bool.splits)
qed

lemma readServerHandshake_crash: "readServerHandshake env b h = Inl f \<Longrightarrow> f = DeliberateCrash"
  by (auto simp: readServerHandshake_def readHTTPHeaders_def Let_def dest: headersLoop_crash
      split: if_splits headersResult.splits)

lemma alive_handshake:
  "alive w \<Longrightarrow> hs_mode (ch_handshake (w_ch w)) \<noteq> Connected \<Longrightarrow> alive (w\<lparr>w_ch := (w_ch w)\<lparr>ch_handshake := h\<rparr>\<rparr>)"
  by (simp add: alive_def linked_def unharmed_def)

lemma didConnect_sound:
  assumes "reliable env" and "alive w" and "ws_readyState (w_ws w) = CONNECTING" and "hs_mode (ch_handshake (w_ch w)) = Connected"
  shows "sound (toClient (didConnect env) w)"
proof -
  have "alive (w\<lparr>w_ws := (w_ws w)\<lparr>ws_readyState := OPEN, ws_subprotocol := p\<rparr>\<rparr>)" for p
    using assms(2,4) by (simp add: alive_def linked_def unharmed_def)
  moreover have "ch_client (w_ch w)" using assms(2) by (simp add: alive_def linked_def)
  ultimately show ?thesis using assms(1,3) by (simp add: toClient_def didConnect_def dispatch_sound)
qed

lemma readHandshake_sound:
  assumes "reliable env" and "alive w" and "hs_mode (ch_handshake (w_ch w)) = Incomplete"
  shows "sound (snd (readHandshake env w))"
proof (cases "readServerHandshake (en_handshake env) (ch_buffer (w_ch w)) (ch_handshake (w_ch w))")
  case (Inl f)
  then show ?thesis using readServerHandshake_crash[OF Inl] assms(2) by (simp add: readHandshake_def alive_crash alive_sound)
next
  case (Inr r)
  obtain n h where r: "r = (n, h)" by fastforce
  let ?w = "w\<lparr>w_ch := (w_ch w)\<lparr>ch_handshake := h\<rparr>\<rparr>"
  have a: "alive ?w" using assms(2,3) by (simp add: alive_handshake)
  have c: "ws_readyState (w_ws w) = CONNECTING" using assms(2,3) by (simp add: alive_def)
  have "alive (skipBuffer (nat n) ?w)" if "\<not> n \<le> 0"
    using readServerHandshake_range[OF Inr[unfolded r]] that a by (intro alive_skipBuffer) auto
  then show ?thesis
    using Inr r a c assms(1)
    by (auto simp: readHandshake_def moreData_def Let_def alive_sound alive_updates intro!: didConnect_sound fail_sound)
qed

lemma processBuffer_sound: "reliable env \<Longrightarrow> alive w \<Longrightarrow> sound (snd (processBuffer env w))"
  by (auto simp: processBuffer_def Let_def alive_sound alive_updates
      intro!: readHandshake_sound processFrame_sound processFrameHixie76_sound)

lemma receive_sound: "reliable env \<Longrightarrow> sound w \<Longrightarrow> sound (receive env w)"
proof (induction env w rule: receive.induct)
  case (1 env w)
  show ?case
  proof (cases "disturbed w")
    case False
    then have "alive w" if "ch_client (w_ch w)" using "1.prems"(2) that by (auto simp: sound_def dead_def)
    then have "sound (snd (processBuffer env w))" if "ch_client (w_ch w)"
      using that processBuffer_sound "1.prems"(1) by blast
    then show ?thesis
      using 1 by (subst receive.simps) (auto split: prod.split bool.split)
  qed (simp add: disturbed.receive)
qed

subsection \<open>Every step\<close>

lemma sound_updates:
  assumes "sound w"
  shows "sound (protectChannel b w)" "sound (w\<lparr>w_so := (w_so w)\<lparr>so_protected := b\<rparr>\<rparr>)"
    "sound (w\<lparr>w_so := (w_so w)\<lparr>so_writeReadySource := b\<rparr>\<rparr>)" "sound (w\<lparr>w_ch := (w_ch w)\<lparr>ch_resumeTimer := b\<rparr>\<rparr>)"
  using assms
  by (auto simp: sound_def disturbed_def alive_def linked_def dead_def unharmed_def protectChannel_def)

lemma alive_so:
  assumes "alive w" and "so_active s" and "so_readBuffer s \<noteq> Freed"
  shows "alive (w\<lparr>w_so := s\<rparr>)"
  using assms by (simp add: alive_def linked_def unharmed_def)

lemma holdingHandle_sound:
  assumes "\<And>v. alive v \<Longrightarrow> sound (body v)" and "alive w"
  shows "sound (holdingHandle body w)"
proof -
  have "alive (w\<lparr>w_so := (w_so w)\<lparr>so_protected := True\<rparr>\<rparr>)" using assms(2) by (simp add: alive_def linked_def unharmed_def)
  then show ?thesis unfolding holdingHandle_def Let_def by (intro sound_updates assms(1))
qed

lemma didOpen_sound:
  assumes "reliable env" and "alive w"
  shows "sound (didOpenSocketStream env w)"
proof -
  let ?m = "clientHandshakeMessage (en_handshake env) (ch_handshake (w_ch w))"
  have h: "ch_handle (w_ch w)" "ch_document (w_ch w)" using assms(2) by (simp_all add: alive_def linked_def)
  obtain b v where v: "handle_send env ?m w = (b, v)" by fastforce
  have "b \<Longrightarrow> alive v" "\<not> b \<Longrightarrow> disturbed v"
    using handle_send_sent[OF assms(1) h(1), of ?m] sent_alive[of w v] assms(2) v by auto
  then show ?thesis
    using h(2) v assms(1) by (cases b) (simp_all add: didOpenSocketStream_def alive_sound fail_sound)
qed

lemma connected_sound:
  assumes "reliable env" and "alive w"
  shows "sound (connected env w)"
proof -
  have "alive (w\<lparr>w_so := (w_so w)\<lparr>so_socketConnection := True, so_readBuffer := Allocated\<rparr>\<rparr>)"
    using assms(2) by (intro alive_so) (simp_all add: alive_def linked_def)
  then show ?thesis
    unfolding connected_def using assms(1) by (intro holdingHandle_sound didOpen_sound alive_updates)
qed

lemma didReceive_sound:
  assumes "reliable env" and "alive w" and "data \<noteq> []"
  shows "sound (didReceiveSocketStreamData env data w)"
proof -
  have a: "alive (protectChannel True w)" using assms(2) by (rule alive_updates)
  have "ch_document (w_ch v) \<and> ch_client (w_ch v)" if "alive v" for v using that by (simp add: alive_def linked_def)
  with a show ?thesis
    using assms(1,3) alive_updates(6)[OF a] unfolding didReceiveSocketStreamData_def holdingChannel_def
    by (intro sound_updates) (simp add: receive_sound alive_sound)
qed

lemma readBytes_sound:
  assumes "reliable env" and "alive w"
  shows "sound (readBytes env data w)"
proof -
  have "sound (handle_close env w)" using handle_close_sound[OF assms(2)] assms(1) by (auto simp: sound_def reliable_def)
  then show ?thesis using assms by (simp add: readBytes_def holdingHandle_sound didReceive_sound)
qed

lemma writeReady_sound:
  assumes "reliable env" and "alive w"
  shows "sound (writeReady env w)"
proof -
  obtain n v where v: "platformSend env (so_buffer (w_so w)) w = (n, v)" by fastforce
  have a: "alive v" using platformSend_sent[of env w "so_buffer (w_so w)"] sent_alive[of w v] assms v by (simp add: reliable_def)
  then have "alive (didUpdateBufferedAmount (v\<lparr>w_so := (w_so v)\<lparr>so_buffer := b\<rparr>\<rparr>))" for b
    by (simp add: didUpdateBufferedAmount_def alive_def linked_def unharmed_def)
  then show ?thesis
    using a assms(2) by (auto simp: writeReady_def sendPendingData_def v alive_sound intro: sound_updates)
qed

lemma resumeTimerFired_sound:
  assumes "reliable env" and "sound w"
  shows "sound (resumeTimerFired env w)"
proof -
  have "sound (if \<not> ch_suspended (w_ch v) \<and> ch_client (w_ch v) \<and> ch_closed (w_ch v) \<and> ch_handle (w_ch v)
      then didCloseSocketStream env v else v)" if "sound v" for v
    using that by (auto simp: sound_def alive_def linked_def dead_def intro: kept)
  then show ?thesis
    unfolding resumeTimerFired_def holdingChannel_def Let_def
    using assms by (intro sound_updates) (simp add: receive_sound sound_updates)
qed

lemma step_sound:
  assumes "reliable env" and "step env w v" and "sound w"
  shows "sound v"
proof (cases "disturbed w")
  case True
  then show ?thesis using disturbed.step_kept[OF assms(2)] by simp
next
  case False
  then have ad: "alive w \<or> dead w" using assms(3) by (simp add: sound_def)
  then have active: "alive w" if "so_active (w_so w)" using that by (auto simp: dead_def)
  have c: "\<not> en_closeFails env" using assms(1) by (simp add: reliable_def)
  have fails: "sound (didFailSocketStream env w)" if "so_active (w_so w)"
    using fail_dead(2)[OF alive_linked[OF active[OF that]] c] by (simp add: sound_def)
  from assms(2) show ?thesis
  proof cases
    case ClosingTimer
    then have "alive w" using ad by (auto simp: dead_def)
    then show ?thesis using ClosingTimer disconnect_dead[OF alive_linked c] by (auto simp: closingTimerFired_def sound_def)
  qed (use active fails assms(1,3) in
      \<open>auto intro: connected_sound readBytes_sound writeReady_sound resumeTimerFired_sound sound_updates command_sound\<close>)
qed

lemma reachable_sound: "reachable env w v \<Longrightarrow> reliable env \<Longrightarrow> sound w \<Longrightarrow> sound v"
  by (induction rule: reachable.induct) (auto intro: step_sound)

lemma newWorld_sound: "alive (newWorld useHixie76Protocol h)"
  by (simp add: newWorld_def newWebSocket_def newChannel_def newSocketStreamHandle_def newOutside_def handshake_reset_def
      alive_def linked_def unharmed_def)

lemma newWorld_events: "eventInvariant (newWorld useHixie76Protocol h)"
  by (simp add: newWorld_def newWebSocket_def newChannel_def newOutside_def handshake_reset_def eventInvariant_def)

lemma newWorld_inOrder: "inOrder (newWorld useHixie76Protocol h)"
  by (simp add: newWorld_def newSocketStreamHandle_def newOutside_def inOrder_def)

end
