(* ===== verification/WS_Session.thy ===== *)
theory WS_Session
  imports WS_Safety
begin

section \<open>What a connection guarantees\<close>

text \<open>
  The theorems on whole connections: every world that the steps reach from a WebSocket whose
  socket is being connected.
\<close>

subsection \<open>A connection to test with\<close>

text \<open>The script sends a message when the connection opens; the socket takes what it is given.\<close>

definition exampleScript :: "scriptEvent list \<Rightarrow> command list" where
  "exampleScript es = (if es = [OpenEvent] then [Send (us ''hi'')] else [])"

definition exampleChannelEnv :: channelEnv where
  "exampleChannelEnv =
     \<lparr>en_handshake = exampleEnv, en_script = exampleScript, en_write = (\<lambda>n. Written 4000), en_mask = (\<lambda>n. 0),
      en_closeFails = False, en_address = 0\<rparr>"

definition exampleWorld :: world where
  "exampleWorld = newWorld False exampleHandshake"

definition connectedWorld :: world where
  "connectedWorld = connected exampleChannelEnv exampleWorld"

definition closedWorld :: world where
  "closedWorld = runCommand exampleChannelEnv (Close (-1) []) exampleWorld"

lemma connectedWorld_reachable: "reachable exampleChannelEnv (newWorld False exampleHandshake) connectedWorld"
proof -
  have "so_active (w_so exampleWorld)" "\<not> so_socketConnection (w_so exampleWorld)" by code_simp+
  then have "step exampleChannelEnv exampleWorld connectedWorld" unfolding connectedWorld_def by (rule step.Connected)
  then show ?thesis unfolding exampleWorld_def by (intro reachable.further[OF reachable.start])
qed

lemma closedWorld_reachable: "reachable exampleChannelEnv (newWorld False exampleHandshake) closedWorld"
  unfolding closedWorld_def exampleWorld_def by (intro reachable.further[OF reachable.start] step.Call)

definition exampleRequest :: ustring where
  "exampleRequest =
     (let h = handshake_reset exampleHandshake
      in us ''GET '' @ resourceName (hs_url h) @ us '' HTTP/1.1'' @ CRLF @
         concat (map (\<lambda>field. field @ CRLF) (requestFields exampleEnv h)) @ CRLF)"

lemma exampleRequest_ascii: "wellFormedUTF16 exampleRequest" "exampleRequest \<noteq> []" "int (length exampleRequest) \<le> 1000"
  by code_simp+

lemma exampleMessage:
  "clientHandshakeMessage exampleEnv (handshake_reset exampleHandshake) \<noteq> [] \<and>
   length (clientHandshakeMessage exampleEnv (handshake_reset exampleHandshake)) \<le> 3000"
proof -
  obtain ns where ns: "scalars ns" "exampleRequest = utf16 ns" using wellFormedUTF16_scalars exampleRequest_ascii(1) by blast
  then have "utf8_16Bit False exampleRequest = Some (utf8 ns)" using utf8_16Bit_utf16[OF ns(1)] exampleRequest_ascii(3) by simp
  then have "clientHandshakeMessage exampleEnv (handshake_reset exampleHandshake) = utf8 ns"
    by (simp add: clientHandshakeMessage_def exampleRequest_def exampleHandshake_def emptyHandshake_def handshake_reset_def)
  then show ?thesis using utf_lengths[of ns] ns(2) exampleRequest_ascii(2,3) by auto
qed


lemma connected_writes:
  assumes "en_write env 0 = Written k" and "length m \<le> k" and "m = clientHandshakeMessage (en_handshake env) (handshake_reset h)"
  shows "ou_wire (w_ou (connected env (newWorld b h))) = m \<and> \<not> ou_refused (w_ou (connected env (newWorld b h)))"
proof -
  let ?w = "(newWorld b h)\<lparr>w_so := newSocketStreamHandle\<lparr>so_socketConnection := True, so_readBuffer := Allocated,
    so_protected := True, so_state := StreamOpen\<rparr>\<rparr>"
  have "platformSend env m ?w = (length m, ?w\<lparr>w_ou := newOutside\<lparr>ou_writes := 1, ou_wire := m\<rparr>\<rparr>)"
    using assms(1,2) by (simp add: platformSend_def newWorld_def newOutside_def min_def)
  then have "snd (handle_send env m ?w) = ?w\<lparr>w_ou := newOutside\<lparr>ou_writes := 1, ou_wire := m, ou_accepted := m\<rparr>\<rparr>"
    "fst (handle_send env m ?w)"
    by (simp_all add: handle_send_def newWorld_def newSocketStreamHandle_def newChannel_def handleAlive_def accept_def newOutside_def
        bufferSize_def)
  moreover have "connected env (newWorld b h) = (let v = didOpenSocketStream env ?w in v\<lparr>w_so := (w_so v)\<lparr>so_protected := False\<rparr>\<rparr>)"
    by (simp add: connected_def holdingHandle_def newWorld_def newSocketStreamHandle_def setStreamState_def)
  moreover have "ch_document (w_ch ?w)" "ch_handshake (w_ch ?w) = handshake_reset h" by (simp_all add: newWorld_def newChannel_def)
  ultimately show ?thesis
    using assms(3)
    by (cases "handle_send env m ?w") (simp add: didOpenSocketStream_def Let_def newOutside_def)
qed

lemma connectedWorld_sent: "ou_wire (w_ou connectedWorld) \<noteq> [] \<and> \<not> ou_refused (w_ou connectedWorld)"
proof -
  let ?m = "clientHandshakeMessage exampleEnv (handshake_reset exampleHandshake)"
  have e: "en_write exampleChannelEnv 0 = Written 4000" "?m = clientHandshakeMessage (en_handshake exampleChannelEnv) (handshake_reset exampleHandshake)"
    by (simp_all add: exampleChannelEnv_def)
  have "length ?m \<le> 4000" using exampleMessage by linarith
  from connected_writes[OF e(1) this e(2), of False] show ?thesis
    unfolding connectedWorld_def exampleWorld_def using exampleMessage by simp
qed

lemma closedWorld_events: "ou_events (w_ou closedWorld) = [CloseEvent False 1006 None]"
  by code_simp

lemma closedWorld_undisturbed: "\<not> ou_refused (w_ou closedWorld)" "\<not> ou_suspended (w_ou closedWorld)"
  by code_simp+

lemma example_reliable: "reliable exampleChannelEnv"
  by (simp add: reliable_def exampleChannelEnv_def)

text \<open>A connection after the handshake, with nothing in its buffers.\<close>

definition openWorld :: world where
  "openWorld = (newWorld False exampleHandshake)
     \<lparr>w_ws := newWebSocket True OPEN,
      w_ch := (newChannel False exampleHandshake)\<lparr>ch_handshake := exampleHandshake\<lparr>hs_mode := Connected\<rparr>\<rparr>,
      w_so := newSocketStreamHandle\<lparr>so_state := StreamOpen, so_socketConnection := True, so_readBuffer := Allocated\<rparr>\<rparr>"

lemma openWorld_alive: "alive openWorld" "ws_readyState (w_ws openWorld) = OPEN"
  by (simp_all add: openWorld_def newWorld_def newWebSocket_def newChannel_def newSocketStreamHandle_def newOutside_def
      alive_def linked_def unharmed_def)

definition openHixie76World :: world where
  "openHixie76World = openWorld\<lparr>w_ch := (w_ch openWorld)\<lparr>ch_useHixie76Protocol := True\<rparr>\<rparr>"

lemma openHixie76World_alive: "alive openHixie76World" "ws_readyState (w_ws openHixie76World) = OPEN"
  using openWorld_alive by (simp_all add: openHixie76World_def alive_def linked_def unharmed_def)

lemma openHixie76World_closes:
  "validCloseArguments 1000 []" "\<not> disturbed (runCommand exampleChannelEnv (Close 1000 []) openHixie76World)"
  by code_simp+

subsection \<open>Events\<close>

text \<open>
  C3. In every state that a WebSocket can reach, whatever the server sends, the socket does and the
  script answers, the script has seen an orderly sequence of events: \<open>open\<close> first and once, messages
  and errors only after it, \<open>close\<close> last and once. The ready state agrees with it: nothing has been
  dispatched while the state is \<open>CONNECTING\<close>, \<open>open\<close> has been when it is \<open>OPEN\<close>, and after \<open>close\<close> the
  state is \<open>CLOSED\<close>.
\<close>

theorem event_order:
  assumes "reachable env (newWorld useHixie76Protocol h) w"
  shows "orderly (ou_events (w_ou w)) \<and>
    (ws_readyState (w_ws w) = CONNECTING \<longrightarrow> ou_events (w_ou w) = []) \<and>
    (ws_readyState (w_ws w) = OPEN \<longrightarrow> opened (ou_events (w_ou w))) \<and>
    (closed (ou_events (w_ou w)) \<longrightarrow> ws_readyState (w_ws w) = CLOSED)"
  using events.reachable_kept[OF assms newWorld_events] by (auto simp: eventInvariant_def Let_def)

theorem event_order_witness:
  "reachable exampleChannelEnv (newWorld False exampleHandshake) closedWorld \<and> orderly (ou_events (w_ou closedWorld)) \<and>
   ou_events (w_ou closedWorld) = [CloseEvent False 1006 None]"
  using event_order[OF closedWorld_reachable] closedWorld_reachable closedWorld_events by blast

subsection \<open>Memory\<close>

text \<open>
  C4. On a reliable socket, that is one whose writes and whose close do not fail, a connection that is never suspended and
  whose sends are never refused does not use a freed object, free a buffer twice or follow a null
  pointer, in whatever order the server, the socket and the script act; its only fault is the
  deliberate crash on a string of more than four gigabytes. And it does not leak: once the ready
  state is \<open>CLOSED\<close>, the channel and the handle have been released.
\<close>

theorem connection_memory_safe:
  assumes "reliable env" and "reachable env (newWorld useHixie76Protocol h) w"
    and "\<not> ou_refused (w_ou w)" and "\<not> ou_suspended (w_ou w)"
  shows "(ou_fault (w_ou w) = None \<or> ou_fault (w_ou w) = Some DeliberateCrash) \<and>
    (ws_readyState (w_ws w) = CLOSED \<longrightarrow>
      \<not> ws_channel (w_ws w) \<and> \<not> ch_handle (w_ch w) \<and> \<not> ch_selfReference (w_ch w) \<and> \<not> so_active (w_so w))"
  using reachable_sound[OF assms(2,1) alive_sound[OF newWorld_sound]] assms(3,4)
  by (auto simp: sound_def disturbed_def alive_def linked_def dead_def unharmed_def)

theorem connection_memory_safe_witness:
  "reliable exampleChannelEnv \<and> reachable exampleChannelEnv (newWorld False exampleHandshake) closedWorld \<and>
   (ou_fault (w_ou closedWorld) = None \<or> ou_fault (w_ou closedWorld) = Some DeliberateCrash)"
  using connection_memory_safe[OF example_reliable closedWorld_reachable closedWorld_undisturbed]
    example_reliable closedWorld_reachable by blast

subsection \<open>The order of the bytes\<close>

text \<open>
  C11. As long as no send was refused, the bytes that have gone out, followed by those in the buffer of the
  socket, are the data that \<open>send\<close> accepted, in order: the handshake and the frames, however the socket splits or delays
  them. A send that is refused because the buffer is full may already have written a part of its data.
\<close>

theorem bytes_in_order:
  assumes "reachable env (newWorld useHixie76Protocol h) w" and "\<not> ou_refused (w_ou w)"
  shows "ou_wire (w_ou w) @ so_buffer (w_so w) = ou_accepted (w_ou w)"
  using inOrder.reachable_kept[OF assms(1) newWorld_inOrder] assms(2) by (simp add: inOrder_def refused_def)

theorem bytes_in_order_witness:
  "ou_wire (w_ou connectedWorld) \<noteq> [] \<and>
   ou_wire (w_ou connectedWorld) @ so_buffer (w_so connectedWorld) = ou_accepted (w_ou connectedWorld)"
  using bytes_in_order[OF connectedWorld_reachable] connectedWorld_sent by blast

subsection \<open>Closing\<close>

text \<open>
  C14. A script that closes an open WebSocket does not wait for the server for ever. From a sound state with the ready
  state \<open>OPEN\<close>, on a socket whose writes and close do not fail, \<open>close\<close> with valid arguments leaves the connection in the
  state \<open>CLOSING\<close> with the closing timer running, unless a send was refused or the page is suspended; and when the timer
  fires, the ready state is \<open>CLOSED\<close>, the script has seen the close event and the objects have been released. In the state
  \<open>CONNECTING\<close> the code fails the connection at once and starts no timer.
\<close>

theorem close_times_out:
  assumes "reliable env" and "alive w" and "ws_readyState (w_ws w) = OPEN" and "validCloseArguments code reason"
    and "v = runCommand env (Close code reason) w" and "\<not> disturbed v"
  shows "alive v \<and> ws_readyState (w_ws v) = CLOSING \<and> ch_closingTimer (w_ch v) \<and>
    (let u = closingTimerFired env (v\<lparr>w_ch := (w_ch v)\<lparr>ch_closingTimer := False\<rparr>\<rparr>) in dead u \<and> closed (ou_events (w_ou u)))"
proof -
  let ?w = "setReadyState CLOSING w"
  have c: "\<not> en_closeFails env" using assms(1) by (simp add: reliable_def)
  have w: "alive ?w" "hs_mode (ch_handshake (w_ch ?w)) = Connected" "ws_readyState (w_ws ?w) = CLOSING" "ws_channel (w_ws ?w)"
    using assms(2,3) by (auto simp: alive_def linked_def setReadyState_def unharmed_def)
  have v: "v = channel_close env code reason ?w"
    using assms(3-5) w(4) by (simp add: runCommand_def WebSocket_close_def Let_def)
  then have a: "alive v \<and> ws_readyState (w_ws v) = CLOSING \<and> ch_closingTimer (w_ch v)"
    using channel_close_closing[OF assms(1) w(1-3), of code reason] assms(6) by blast
  then have l: "linked (v\<lparr>w_ch := (w_ch v)\<lparr>ch_closingTimer := False\<rparr>\<rparr>)" by (simp add: alive_linked)
  then show ?thesis
    using a disconnect_dead[OF l c] disconnect_closes[OF l c] by (simp add: closingTimerFired_def linked_def Let_def)
qed

theorem close_times_out_witness:
  "\<exists>v. v = runCommand exampleChannelEnv (Close 1000 []) openHixie76World \<and> ws_readyState (w_ws v) = CLOSING \<and>
     ch_closingTimer (w_ch v)"
  using close_times_out[OF example_reliable openHixie76World_alive openHixie76World_closes(1) refl openHixie76World_closes(2)]
  by blast

text \<open>
  C40. Data that is pending when the handle is closed keeps it open. In the state \<open>Closing\<close>, a call of
  \<open>writeReady\<close> sends what it can, but leaves the state, the channel and the list of active handles as
  they are, also when the last byte has gone; with an empty buffer it only stops waiting. The branch
  of \<open>sendPendingData\<close> that disconnects is not reached from there.
\<close>

theorem pending_close_not_completed:
  assumes "reliable env" and "so_state (w_so w) = StreamClosing"
  shows "so_state (w_so (writeReady env w)) = StreamClosing \<and> w_ch (writeReady env w) = w_ch w \<and>
    so_active (w_so (writeReady env w)) = so_active (w_so w) \<and>
    (so_buffer (w_so w) = [] \<longrightarrow> \<not> so_writeReadySource (w_so (writeReady env w)))"
proof (cases "so_buffer (w_so w) = []")
  case False
  obtain n v where v: "platformSend env (so_buffer (w_so w)) w = (n, v)" by fastforce
  have "so_state (w_so v) = so_state (w_so w) \<and> w_ch v = w_ch w \<and> so_active (w_so v) = so_active (w_so w)"
    using v assms(1)
    by (cases "en_write env (ou_writes (w_ou w))") (auto simp: platformSend_def reliable_def Let_def split: if_splits)
  then show ?thesis
    using False assms(2) v by (simp add: writeReady_def sendPendingData_def didUpdateBufferedAmount_def)
qed (use assms in \<open>simp add: writeReady_def\<close>)

theorem pending_close_not_completed_witness:
  "\<exists>w. so_state (w_so w) = StreamClosing \<and> so_buffer (w_so w) \<noteq> [] \<and>
     so_state (w_so (writeReady exampleChannelEnv w)) = StreamClosing \<and> so_active (w_so (writeReady exampleChannelEnv w))"
proof -
  let ?w = "openWorld\<lparr>w_so := (w_so openWorld)\<lparr>so_state := StreamClosing, so_buffer := [1], so_writeReadySource := True\<rparr>\<rparr>"
  have "so_active (w_so openWorld)" by code_simp
  then show ?thesis
    using pending_close_not_completed[OF example_reliable, of ?w] by (intro exI[of _ ?w]) simp
qed

subsection \<open>Where memory is lost or misused\<close>

definition leaked :: "world \<Rightarrow> bool" where
  "leaked w \<longleftrightarrow>
     ch_handle (w_ch w) \<and> ch_selfReference (w_ch w) \<and> \<not> ch_client (w_ch w) \<and> \<not> ch_closingTimer (w_ch w) \<and>
     \<not> ws_channel (w_ws w) \<and> ws_readyState (w_ws w) = CLOSED \<and> \<not> so_active (w_so w)"

lemma leaked_resume: "leaked w \<Longrightarrow> leaked (resumeTimerFired env (w\<lparr>w_ch := (w_ch w)\<lparr>ch_resumeTimer := False\<rparr>\<rparr>))"
  by (simp add: leaked_def resumeTimerFired_def holdingChannel_def protectChannel_def receive.simps Let_def)

lemma leaked_command: "leaked w \<Longrightarrow> leaked (runCommand env cmd w)"
  by (cases cmd) (auto simp: leaked_def runCommand_def WebSocket_send_def WebSocket_sendBinary_def WebSocket_close_def
      WebSocket_stop_def WebSocket_setBinaryType_def WebSocket_suspend_def WebSocket_resume_def countAfterClose_def Let_def)

lemma leaked_step: "step env w v \<Longrightarrow> leaked w \<Longrightarrow> leaked v"
  by (induction rule: step.induct) (auto simp: leaked_command leaked_resume, auto simp: leaked_def)

lemma leaked_reachable: "reachable env w v \<Longrightarrow> leaked w \<Longrightarrow> leaked v"
  by (induction rule: reachable.induct) (auto intro: leaked_step)

lemma leaked_close_end:
  assumes "ch_handle (w_ch w) \<and> ch_selfReference (w_ch w) \<and> ch_suspended (w_ch w) \<and> \<not> ch_client (w_ch w)"
    and "v = platformClose_end (streamClosed (\<lambda>w. w)) w"
  shows "ch_handle (w_ch v) \<and> ch_selfReference (w_ch v) \<and> ch_suspended (w_ch v) \<and> \<not> ch_client (w_ch v) \<and>
    \<not> ch_closingTimer (w_ch v) \<and> \<not> so_active (w_so v)"
  using assms
  by (cases "so_readBuffer (w_so w)")
    (simp_all add: platformClose_end_def deleteReadBuffer_def streamClosed_def abortOutgoingFrameQueue_def raise_def Let_def)

lemma leaked_stop:
  assumes "ch_handle (w_ch w)" and "ch_selfReference (w_ch w)" and "ch_suspended (w_ch w)" and "ws_channel (w_ws w)"
  shows "leaked (runCommand env Stop w)"
proof -
  have "ch_handle (w_ch (channel_disconnect env w)) \<and> ch_selfReference (w_ch (channel_disconnect env w)) \<and>
      \<not> ch_closingTimer (w_ch (channel_disconnect env w)) \<and> \<not> so_active (w_so (channel_disconnect env w))"
    using assms
    by (auto simp: channel_disconnect_def handle_disconnect_def platformClose_def setStreamState_def discardReceivedData_def Let_def
        leaked_close_end[OF _ refl])
  then show ?thesis using assms(4) by (simp add: runCommand_def WebSocket_stop_def leaked_def Let_def)
qed

text \<open>
  When the document goes away while the page is suspended, the socket is closed but neither the
  handle nor the channel is ever released: \<open>didCloseSocketStream\<close> returns before it lets go of them,
  the WebSocket has forgotten its channel, and no step brings them back.
\<close>

theorem stop_while_suspended_leaks:
  assumes "ch_handle (w_ch w)" and "ch_selfReference (w_ch w)" and "ch_suspended (w_ch w)" and "ws_channel (w_ws w)"
    and "reachable env (runCommand env Stop w) v"
  shows "ch_handle (w_ch v) \<and> ch_selfReference (w_ch v) \<and> \<not> so_active (w_so v) \<and> \<not> ws_channel (w_ws v)"
  using leaked_reachable[OF assms(5) leaked_stop[OF assms(1-4)]] by (simp add: leaked_def)

theorem stop_while_suspended_leaks_witness:
  "\<exists>v. v = runCommand exampleChannelEnv Stop (WebSocket_suspend openWorld) \<and> ch_handle (w_ch v) \<and> ch_selfReference (w_ch v)"
proof -
  have "ch_handle (w_ch (WebSocket_suspend openWorld))" "ch_selfReference (w_ch (WebSocket_suspend openWorld))"
    "ch_suspended (w_ch (WebSocket_suspend openWorld))" "ws_channel (w_ws (WebSocket_suspend openWorld))"
    by (simp_all add: WebSocket_suspend_def openWorld_def newWebSocket_def newChannel_def)
  from stop_while_suspended_leaks[OF this reachable.start] show ?thesis by blast
qed

text \<open>
  A write that fails while the script sends, outside any callback of the socket: the handle is
  disconnected and freed, and \<open>send\<close> goes on with its buffer.
\<close>

definition failingEnv :: channelEnv where
  "failingEnv = exampleChannelEnv\<lparr>en_write := (\<lambda>n. WriteFailed), en_script := (\<lambda>es. [])\<rparr>"

lemma failing_send: "ou_fault (w_ou (runCommand failingEnv (Send []) openHixie76World)) = Some UseAfterFree"
  by code_simp

text \<open>
  A page that is suspended when the server closes, and whose document then goes away: the handle is
  disconnected a second time, and its read buffer deleted twice.
\<close>

lemma suspended_double_free:
  "ou_fault (w_ou (runCommand exampleChannelEnv Stop (readBytes exampleChannelEnv [] (WebSocket_suspend openWorld)))) = Some DoubleFree"
  by code_simp

end
