(* ===== verification/WK_IntRect.thy ===== *)
theory WK_IntRect
  imports WK_Prelude
begin

section \<open>Integer rectangles\<close>

text \<open>
  The rectangles of \<^verbatim>\<open>platform/graphics/IntRect\<close>, with the location and the size of the class as
  four fields. Every sum and difference of two coordinates is an operation on a 32-bit signed
  integer: \<open>checked\<close> faults where it would overflow. The methods that take a scale factor
  compute with floating-point numbers and are left out.
\<close>

type_synonym 'a checked = "fault + 'a"

definition INT_MAX :: int where
  "INT_MAX = 2147483647"

definition INT_MIN :: int where
  "INT_MIN = - 2147483648"

definition checked :: "int \<Rightarrow> int checked" where
  "checked n = (if INT_MIN \<le> n \<and> n \<le> INT_MAX then Inr n else Inl SignedOverflow)"

record intRect =
  rect_x :: int
  rect_y :: int
  rect_width :: int
  rect_height :: int

definition IntRect :: "int \<Rightarrow> int \<Rightarrow> int \<Rightarrow> int \<Rightarrow> intRect" where
  "IntRect x y w h = \<lparr>rect_x = x, rect_y = y, rect_width = w, rect_height = h\<rparr>"

definition IntRect_default :: intRect where
  "IntRect_default = IntRect 0 0 0 0"

definition maxX :: "intRect \<Rightarrow> int checked" where
  "maxX r = checked (rect_x r + rect_width r)"

definition maxY :: "intRect \<Rightarrow> int checked" where
  "maxY r = checked (rect_y r + rect_height r)"

definition IntRect_isEmpty :: "intRect \<Rightarrow> bool" where
  "IntRect_isEmpty r \<longleftrightarrow> rect_width r \<le> 0 \<or> rect_height r \<le> 0"

definition IntRect_move :: "int \<Rightarrow> int \<Rightarrow> intRect \<Rightarrow> intRect checked" where
  "IntRect_move dx dy r =
     thenS (checked (rect_x r + dx)) (\<lambda>x.
     thenS (checked (rect_y r + dy)) (\<lambda>y. Inr (r\<lparr>rect_x := x, rect_y := y\<rparr>)))"

definition IntRect_intersects :: "intRect \<Rightarrow> intRect \<Rightarrow> bool checked" where
  "IntRect_intersects r other =
     (if IntRect_isEmpty r \<or> IntRect_isEmpty other then Inr False
      else thenS (maxX other) (\<lambda>mx'.
        if \<not> rect_x r < mx' then Inr False
        else thenS (maxX r) (\<lambda>mx.
        if \<not> rect_x other < mx then Inr False
        else thenS (maxY other) (\<lambda>my'.
        if \<not> rect_y r < my' then Inr False
        else thenS (maxY r) (\<lambda>my. Inr (rect_y other < my))))))"

definition IntRect_contains :: "intRect \<Rightarrow> intRect \<Rightarrow> bool checked" where
  "IntRect_contains r other =
     (if \<not> rect_x r \<le> rect_x other then Inr False
      else thenS (maxX r) (\<lambda>mx. thenS (maxX other) (\<lambda>mx'.
        if \<not> mx \<ge> mx' \<or> \<not> rect_y r \<le> rect_y other then Inr False
        else thenS (maxY r) (\<lambda>my. thenS (maxY other) (\<lambda>my'. Inr (my \<ge> my'))))))"

text \<open>The four edges as both \<^verbatim>\<open>intersect\<close> and \<^verbatim>\<open>unite\<close> store them in the end.\<close>

definition setEdges :: "int \<Rightarrow> int \<Rightarrow> int \<Rightarrow> int \<Rightarrow> intRect checked" where
  "setEdges l t r b =
     thenS (checked (r - l)) (\<lambda>w. thenS (checked (b - t)) (\<lambda>h. Inr (IntRect l t w h)))"

definition IntRect_intersect :: "intRect \<Rightarrow> intRect \<Rightarrow> intRect checked" where
  "IntRect_intersect rect other =
     thenS (maxX rect) (\<lambda>mx. thenS (maxX other) (\<lambda>mx'.
     thenS (maxY rect) (\<lambda>my. thenS (maxY other) (\<lambda>my'.
       let l = max (rect_x rect) (rect_x other);
           t = max (rect_y rect) (rect_y other);
           r = min mx mx';
           b = min my my'
       in if l \<ge> r \<or> t \<ge> b then setEdges 0 0 0 0 else setEdges l t r b))))"

definition uniteEdges :: "intRect \<Rightarrow> intRect \<Rightarrow> intRect checked" where
  "uniteEdges rect other =
     thenS (maxX rect) (\<lambda>mx. thenS (maxX other) (\<lambda>mx'.
     thenS (maxY rect) (\<lambda>my. thenS (maxY other) (\<lambda>my'.
       setEdges (min (rect_x rect) (rect_x other)) (min (rect_y rect) (rect_y other))
         (max mx mx') (max my my')))))"

definition IntRect_unite :: "intRect \<Rightarrow> intRect \<Rightarrow> intRect checked" where
  "IntRect_unite rect other =
     (if IntRect_isEmpty other then Inr rect
      else if IntRect_isEmpty rect then Inr other
      else uniteEdges rect other)"

definition IntRect_uniteIfNonZero :: "intRect \<Rightarrow> intRect \<Rightarrow> intRect checked" where
  "IntRect_uniteIfNonZero rect other =
     (if rect_width other = 0 \<and> rect_height other = 0 then Inr rect
      else if rect_width rect = 0 \<and> rect_height rect = 0 then Inr other
      else uniteEdges rect other)"

fun uniteAll :: "intRect list \<Rightarrow> intRect \<Rightarrow> intRect checked" where
  "uniteAll [] result = Inr result"
| "uniteAll (r # rects) result = thenS (IntRect_unite result r) (uniteAll rects)"

definition unionRect :: "intRect list \<Rightarrow> intRect checked" where
  "unionRect rects = uniteAll rects IntRect_default"

subsection \<open>Rectangles as sets of points\<close>

text \<open>
  A rectangle stands for the points with integer coordinates in its two half-open
  intervals. \<open>near\<close> bounds the coordinates so that the difference of two of them is a
  32-bit integer; all four edges of a rectangle that is \<open>rectNear\<close> are within that bound.
\<close>

type_synonym point = "int \<times> int"

definition near :: "int \<Rightarrow> bool" where
  "near n \<longleftrightarrow> - 1073741824 \<le> n \<and> n < 1073741824"

definition rectNear :: "intRect \<Rightarrow> bool" where
  "rectNear r \<longleftrightarrow> near (rect_x r) \<and> near (rect_x r + rect_width r) \<and>
     near (rect_y r) \<and> near (rect_y r + rect_height r)"

definition rectPoints :: "intRect \<Rightarrow> point set" where
  "rectPoints r = {rect_x r ..< rect_x r + rect_width r} \<times> {rect_y r ..< rect_y r + rect_height r}"

lemmas rect_defs = IntRect_def IntRect_default_def IntRect_isEmpty_def

lemma thenS_cong [fundef_cong]:
  "r = r' \<Longrightarrow> (\<And>v. r' = Inr v \<Longrightarrow> k v = k' v) \<Longrightarrow> thenS r k = thenS r' k'"
  by (cases r') auto

lemma thenS_Inr_iff: "thenS r k = Inr w \<longleftrightarrow> (\<exists>v. r = Inr v \<and> k v = Inr w)"
  by (cases r) auto

lemma near_diff [simp]: "near a \<Longrightarrow> near b \<Longrightarrow> checked (a - b) = Inr (a - b)"
  by (auto simp: near_def checked_def INT_MIN_def INT_MAX_def)

lemma near_checked [simp]: "near a \<Longrightarrow> checked a = Inr a"
  by (auto simp: near_def checked_def INT_MIN_def INT_MAX_def)

lemma checked_zero [simp]: "checked 0 = Inr 0"
  by (simp add: checked_def INT_MIN_def INT_MAX_def)

lemma near_min_max [simp]: "near a \<Longrightarrow> near b \<Longrightarrow> near (min a b)" "near a \<Longrightarrow> near b \<Longrightarrow> near (max a b)"
  by (auto simp: near_def)

lemma rectNear_max [simp]:
  "rectNear r \<Longrightarrow> maxX r = Inr (rect_x r + rect_width r)"
  "rectNear r \<Longrightarrow> maxY r = Inr (rect_y r + rect_height r)"
  by (auto simp: rectNear_def maxX_def maxY_def)

lemma rectPoints_empty_iff: "rectPoints r = {} \<longleftrightarrow> IntRect_isEmpty r"
  by (auto simp: rectPoints_def IntRect_isEmpty_def)

lemma mem_rectPoints:
  "(x, y) \<in> rectPoints r \<longleftrightarrow>
   rect_x r \<le> x \<and> x < rect_x r + rect_width r \<and> rect_y r \<le> y \<and> y < rect_y r + rect_height r"
  by (auto simp: rectPoints_def)

lemma intersects_iff:
  assumes "rectNear r" and "rectNear s"
  shows "IntRect_intersects r s = Inr (rectPoints r \<inter> rectPoints s \<noteq> {})"
proof -
  have "rectPoints r \<inter> rectPoints s \<noteq> {} \<longleftrightarrow>
    \<not> IntRect_isEmpty r \<and> \<not> IntRect_isEmpty s \<and> rect_x r < rect_x s + rect_width s \<and>
    rect_x s < rect_x r + rect_width r \<and> rect_y r < rect_y s + rect_height s \<and>
    rect_y s < rect_y r + rect_height r" (is "?L \<longleftrightarrow> ?R")
  proof
    assume ?R
    then have "(max (rect_x r) (rect_x s), max (rect_y r) (rect_y s)) \<in> rectPoints r \<inter> rectPoints s"
      by (auto simp: mem_rectPoints IntRect_isEmpty_def)
    then show ?L by blast
  qed (auto simp: mem_rectPoints IntRect_isEmpty_def)
  then show ?thesis
    using assms by (auto simp: IntRect_intersects_def)
qed

lemma rectPoints_subset_iff:
  assumes "\<not> IntRect_isEmpty s"
  shows "rectPoints s \<subseteq> rectPoints r \<longleftrightarrow> rect_x r \<le> rect_x s \<and>
    rect_x s + rect_width s \<le> rect_x r + rect_width r \<and> rect_y r \<le> rect_y s \<and>
    rect_y s + rect_height s \<le> rect_y r + rect_height r" (is "?L \<longleftrightarrow> ?R")
proof
  assume L: ?L
  have "(rect_x s, rect_y s) \<in> rectPoints s"
    and "(rect_x s + rect_width s - 1, rect_y s + rect_height s - 1) \<in> rectPoints s"
    using assms by (auto simp: mem_rectPoints IntRect_isEmpty_def)
  with L have "(rect_x s, rect_y s) \<in> rectPoints r"
    and "(rect_x s + rect_width s - 1, rect_y s + rect_height s - 1) \<in> rectPoints r"
    by blast+
  then show ?R by (auto simp: mem_rectPoints)
qed (auto simp: mem_rectPoints)

lemma contains_iff:
  assumes "rectNear r" and "rectNear s" and "\<not> IntRect_isEmpty s"
  shows "IntRect_contains r s = Inr (rectPoints s \<subseteq> rectPoints r)"
  using assms by (auto simp: IntRect_contains_def rectPoints_subset_iff)

lemma setEdges_near:
  "near l \<Longrightarrow> near t \<Longrightarrow> near r \<Longrightarrow> near b \<Longrightarrow>
   setEdges l t r b = Inr (IntRect l t (r - l) (b - t)) \<and> rectNear (IntRect l t (r - l) (b - t))"
  by (simp add: setEdges_def rectNear_def IntRect_def)

lemma intersect_points:
  assumes "rectNear r" and "rectNear s"
  shows "\<exists>q. IntRect_intersect r s = Inr q \<and> rectNear q \<and> rectPoints q = rectPoints r \<inter> rectPoints s"
proof -
  let ?l = "max (rect_x r) (rect_x s)" and ?t = "max (rect_y r) (rect_y s)"
  let ?r = "min (rect_x r + rect_width r) (rect_x s + rect_width s)"
  let ?b = "min (rect_y r + rect_height r) (rect_y s + rect_height s)"
  have n: "near ?l" "near ?t" "near ?r" "near ?b" "near 0"
    using assms by (auto simp: rectNear_def near_def)
  show ?thesis
  proof (cases "?l \<ge> ?r \<or> ?t \<ge> ?b")
    case True
    then show ?thesis
      using assms setEdges_near[OF n(5) n(5) n(5) n(5)]
      by (auto simp: IntRect_intersect_def mem_rectPoints IntRect_def Let_def)
  next
    case False
    then show ?thesis
      using assms setEdges_near[OF n(1-4)]
      by (auto simp: IntRect_intersect_def mem_rectPoints IntRect_def Let_def)
  qed
qed

text \<open>The union rectangle is the least rectangle that holds both.\<close>

lemma unite_least:
  assumes "rectNear r" and "rectNear s"
  shows "\<exists>q. IntRect_unite r s = Inr q \<and> rectNear q \<and> rectPoints r \<union> rectPoints s \<subseteq> rectPoints q \<and>
    (\<forall>p. rectPoints r \<union> rectPoints s \<subseteq> rectPoints p \<longrightarrow> rectPoints q \<subseteq> rectPoints p)"
proof (cases "IntRect_isEmpty r \<or> IntRect_isEmpty s")
  case True
  then show ?thesis
    using assms by (auto simp: IntRect_unite_def rectPoints_empty_iff[symmetric])
next
  case False
  let ?l = "min (rect_x r) (rect_x s)" and ?t = "min (rect_y r) (rect_y s)"
  let ?r = "max (rect_x r + rect_width r) (rect_x s + rect_width s)"
  let ?b = "max (rect_y r + rect_height r) (rect_y s + rect_height s)"
  let ?q = "IntRect ?l ?t (?r - ?l) (?b - ?t)"
  have n: "near ?l" "near ?t" "near ?r" "near ?b"
    using assms by (auto simp: rectNear_def)
  have u: "IntRect_unite r s = Inr ?q"
    using False assms setEdges_near[OF n] by (simp add: IntRect_unite_def uniteEdges_def)
  have least: "rectPoints ?q \<subseteq> rectPoints p" if "rectPoints r \<union> rectPoints s \<subseteq> rectPoints p" for p
  proof -
    from that False have "rect_x p \<le> ?l \<and> ?r \<le> rect_x p + rect_width p \<and>
        rect_y p \<le> ?t \<and> ?b \<le> rect_y p + rect_height p"
      by (simp add: rectPoints_subset_iff)
    then show ?thesis by (auto simp: mem_rectPoints IntRect_def)
  qed
  have "rectPoints r \<union> rectPoints s \<subseteq> rectPoints ?q"
    by (auto simp: mem_rectPoints IntRect_def)
  with u least setEdges_near[OF n] show ?thesis by blast
qed

end
