(* ===== verification/WK_Region.thy ===== *)
theory WK_Region
  imports WK_IntRect
begin

unbundle bit_operations_syntax

section \<open>Regions\<close>

text \<open>
  The region class of \<^verbatim>\<open>platform/graphics/Region\<close>: a set of points cut into horizontal spans, each
  with the sorted list of the coordinates where a scan line enters and leaves the set. As in the
  code the segments of all spans are in one vector and a span holds the index of its first one;
  a span ends where the next begins.

  A span iterator is a pointer into the vector of spans: it is the list of the spans from there
  on, \<^verbatim>\<open>++it\<close> its tail and the end iterator the empty list. A segment iterator is \<open>None\<close> for
  the null pointer and an index otherwise, and the range of two of them is the list of the
  segments between.
\<close>

record span =
  span_y :: int
  span_segmentIndex :: nat

record shape =
  m_segments :: "int list"
  m_spans :: "span list"

type_synonym spanIterator = "span list"
type_synonym segmentIterator = "nat option"

definition Shape_default :: shape where
  "Shape_default = \<lparr>m_segments = [], m_spans = []\<rparr>"

definition Shape_isEmpty :: "shape \<Rightarrow> bool" where
  "Shape_isEmpty s \<longleftrightarrow> m_spans s = []"

definition appendSpan :: "int \<Rightarrow> shape \<Rightarrow> shape" where
  "appendSpan y s = s\<lparr>m_spans := m_spans s @ [\<lparr>span_y = y, span_segmentIndex = length (m_segments s)\<rparr>]\<rparr>"

definition appendSegment :: "int \<Rightarrow> shape \<Rightarrow> shape" where
  "appendSegment x s = s\<lparr>m_segments := m_segments s @ [x]\<rparr>"

definition Shape_rect :: "intRect \<Rightarrow> shape checked" where
  "Shape_rect rect =
     thenS (maxX rect) (\<lambda>mx. thenS (maxY rect) (\<lambda>my.
       Inr (appendSpan my (appendSegment mx (appendSegment (rect_x rect) (appendSpan (rect_y rect) Shape_default))))))"

definition canCoalesce :: "int list \<Rightarrow> shape \<Rightarrow> bool" where
  "canCoalesce segs s =
     (if m_spans s = [] then False
      else let lastSpanBegin = span_segmentIndex (last (m_spans s)); lastSpanEnd = length (m_segments s)
           in if lastSpanEnd - lastSpanBegin \<noteq> length segs then False
              else segs = take (length segs) (drop lastSpanBegin (m_segments s)))"

definition appendSpanSegments :: "int \<Rightarrow> int list \<Rightarrow> shape \<Rightarrow> shape" where
  "appendSpanSegments y segs s =
     (if canCoalesce segs s then s
      else let s' = appendSpan y s in s'\<lparr>m_segments := m_segments s' @ segs\<rparr>)"

definition spans_begin :: "shape \<Rightarrow> spanIterator" where
  "spans_begin s = m_spans s"

definition spans_end :: "shape \<Rightarrow> spanIterator" where
  "spans_end s = []"

fun segments_begin :: "shape \<Rightarrow> spanIterator \<Rightarrow> segmentIterator checked" where
  "segments_begin s [] = Inl ReadPastEnd"
| "segments_begin s (it # _) =
     (if span_segmentIndex it = length (m_segments s) then Inr None else Inr (Some (span_segmentIndex it)))"

fun segments_end :: "shape \<Rightarrow> spanIterator \<Rightarrow> segmentIterator checked" where
  "segments_end s [] = Inl ReadPastEnd"
| "segments_end s [it] =
     (if span_segmentIndex it = length (m_segments s) then Inr None else Inl ReadPastEnd)"
| "segments_end s (it # next # _) =
     (if span_segmentIndex it = length (m_segments s) then Inr None else Inr (Some (span_segmentIndex next)))"

text \<open>What a loop from one iterator to the other reads: nothing when both are null.\<close>

fun segmentRange :: "shape \<Rightarrow> segmentIterator \<Rightarrow> segmentIterator \<Rightarrow> int list checked" where
  "segmentRange s None None = Inr []"
| "segmentRange s (Some b) (Some e) =
     (if b \<le> e \<and> e \<le> length (m_segments s) then Inr (take (e - b) (drop b (m_segments s))) else Inl ReadPastEnd)"
| "segmentRange s _ _ = Inl ReadPastEnd"

definition segmentsOf :: "shape \<Rightarrow> spanIterator \<Rightarrow> int list checked" where
  "segmentsOf s it =
     thenS (segments_begin s it) (\<lambda>b. thenS (segments_end s it) (\<lambda>e. segmentRange s b e))"

fun appendSpans :: "shape \<Rightarrow> spanIterator \<Rightarrow> shape \<Rightarrow> shape checked" where
  "appendSpans from [] s = Inr s"
| "appendSpans from (it # rest) s =
     thenS (segmentsOf from (it # rest)) (\<lambda>segs. appendSpans from rest (appendSpanSegments (span_y it) segs s))"

text \<open>
  The smallest rectangle around a shape. A span without segments before the last one has equal,
  non-null iterators: the code then reads the first segment of the next span and the last
  segment of the one before.
\<close>

definition readSegment :: "shape \<Rightarrow> nat \<Rightarrow> int checked" where
  "readSegment s i = (if i < length (m_segments s) then Inr (m_segments s ! i) else Inl ReadPastEnd)"

fun boundsLoop :: "shape \<Rightarrow> spanIterator \<Rightarrow> int \<Rightarrow> int \<Rightarrow> (int \<times> int) checked" where
  "boundsLoop s [] left right = Inl ReadPastEnd"
| "boundsLoop s [lastSpan] left right = Inr (left, right)"
| "boundsLoop s (span # next # rest) left right =
     thenS (segments_begin s (span # next # rest)) (\<lambda>first.
     thenS (segments_end s (span # next # rest)) (\<lambda>end.
       case (first, end) of
         (Some f, Some e) \<Rightarrow>
           if e = 0 then Inl ReadPastEnd
           else thenS (readSegment s f) (\<lambda>a. thenS (readSegment s (e - 1)) (\<lambda>z.
             boundsLoop s (next # rest) (if a < left then a else left) (if z > right then z else right)))
       | _ \<Rightarrow> boundsLoop s (next # rest) left right))"

definition Shape_bounds :: "shape \<Rightarrow> intRect checked" where
  "Shape_bounds s =
     (if Shape_isEmpty s then Inr IntRect_default
      else let topY = span_y (hd (m_spans s)); bottom = span_y (last (m_spans s))
           in thenS (boundsLoop s (spans_begin s) INT_MAX INT_MIN) (\<lambda>(left, right).
                setEdges left topY right bottom))"

fun addAll :: "int \<Rightarrow> int list \<Rightarrow> int list checked" where
  "addAll d [] = Inr []"
| "addAll d (x # xs) = thenS (checked (x + d)) (\<lambda>x'. thenS (addAll d xs) (\<lambda>xs'. Inr (x' # xs')))"

fun moveSpans :: "int \<Rightarrow> span list \<Rightarrow> span list checked" where
  "moveSpans d [] = Inr []"
| "moveSpans d (sp # sps) =
     thenS (checked (span_y sp + d)) (\<lambda>y. thenS (moveSpans d sps) (\<lambda>sps'. Inr (sp\<lparr>span_y := y\<rparr> # sps')))"

definition Shape_translate :: "int \<Rightarrow> int \<Rightarrow> shape \<Rightarrow> shape checked" where
  "Shape_translate dx dy s =
     thenS (addAll dx (m_segments s)) (\<lambda>segs.
     thenS (moveSpans dy (m_spans s)) (\<lambda>spans. Inr \<lparr>m_segments = segs, m_spans = spans\<rparr>))"

subsection \<open>The three operations\<close>

datatype operation = UnionOperation | IntersectOperation | SubtractOperation

fun trySimpleOperation :: "operation \<Rightarrow> shape \<Rightarrow> shape \<Rightarrow> shape option" where
  "trySimpleOperation UnionOperation shape1 shape2 =
     (if Shape_isEmpty shape1 then Some shape2
      else if Shape_isEmpty shape2 then Some shape1
      else None)"
| "trySimpleOperation IntersectOperation shape1 shape2 =
     (if Shape_isEmpty shape1 then Some Shape_default
      else if Shape_isEmpty shape2 then Some shape1
      else None)"
| "trySimpleOperation SubtractOperation shape1 shape2 =
     (if Shape_isEmpty shape1 \<or> Shape_isEmpty shape2 then Some Shape_default else None)"

fun region_opCode :: "operation \<Rightarrow> int" where
  "region_opCode UnionOperation = 0"
| "region_opCode IntersectOperation = 3"
| "region_opCode SubtractOperation = 1"

fun shouldAddRemainingSegmentsFromSpan1 :: "operation \<Rightarrow> bool" where
  "shouldAddRemainingSegmentsFromSpan1 UnionOperation = True"
| "shouldAddRemainingSegmentsFromSpan1 IntersectOperation = False"
| "shouldAddRemainingSegmentsFromSpan1 SubtractOperation = True"

fun shouldAddRemainingSegmentsFromSpan2 :: "operation \<Rightarrow> bool" where
  "shouldAddRemainingSegmentsFromSpan2 UnionOperation = True"
| "shouldAddRemainingSegmentsFromSpan2 IntersectOperation = False"
| "shouldAddRemainingSegmentsFromSpan2 SubtractOperation = False"

fun shouldAddRemainingSpansFromShape1 :: "operation \<Rightarrow> bool" where
  "shouldAddRemainingSpansFromShape1 UnionOperation = True"
| "shouldAddRemainingSpansFromShape1 IntersectOperation = False"
| "shouldAddRemainingSpansFromShape1 SubtractOperation = True"

fun shouldAddRemainingSpansFromShape2 :: "operation \<Rightarrow> bool" where
  "shouldAddRemainingSpansFromShape2 UnionOperation = True"
| "shouldAddRemainingSpansFromShape2 IntersectOperation = False"
| "shouldAddRemainingSpansFromShape2 SubtractOperation = False"

text \<open>
  The inner loop over the segments of two spans, from the iterators \<open>s1\<close> and \<open>s2\<close> on. The result
  is the vector of new segments with what the loop left of \<open>s1\<close> and of \<open>s2\<close>.
\<close>

function (sequential) segmentLoop ::
  "operation \<Rightarrow> int list \<Rightarrow> int list \<Rightarrow> int \<Rightarrow> int \<Rightarrow> int list \<Rightarrow> (int list \<times> int list \<times> int list) checked" where
  "segmentLoop op (a # s1) (b # s2) flag oldFlag segments =
     thenS (checked (a - b)) (\<lambda>test.
       let flag1 = (if test \<le> 0 then flag XOR 1 else flag);
           flag2 = (if test \<ge> 0 then flag1 XOR 2 else flag1);
           x = (if test \<ge> 0 then b else a);
           segments' = (if flag2 = region_opCode op \<or> oldFlag = region_opCode op then segments @ [x] else segments)
       in segmentLoop op (if test \<le> 0 then s1 else a # s1) (if test \<ge> 0 then s2 else b # s2)
            flag2 flag2 segments')"
| "segmentLoop op s1 s2 flag oldFlag segments = Inr (segments, s1, s2)"
  by pat_completeness auto

termination segmentLoop
  by (relation "measure (\<lambda>(op, s1, s2, _). length s1 + length s2)") auto

definition combineSegments :: "operation \<Rightarrow> int list \<Rightarrow> int list \<Rightarrow> int list checked" where
  "combineSegments op segments1 segments2 =
     thenS (segmentLoop op segments1 segments2 0 0 []) (\<lambda>(segments, s1, s2). Inr
       (if shouldAddRemainingSegmentsFromSpan1 op \<and> s1 \<noteq> [] then segments @ s1
        else if shouldAddRemainingSegmentsFromSpan2 op \<and> s2 \<noteq> [] then segments @ s2
        else segments))"

definition addSpan :: "int \<Rightarrow> int list \<Rightarrow> shape \<Rightarrow> shape" where
  "addSpan y segments result =
     (if segments \<noteq> [] \<or> \<not> Shape_isEmpty result then appendSpanSegments y segments result else result)"

text \<open>
  The outer loop over the spans of both shapes; \<open>segments1\<close> and \<open>segments2\<close> are those of the spans
  the scan line is in.
\<close>

function (sequential) spanLoop ::
  "operation \<Rightarrow> shape \<Rightarrow> shape \<Rightarrow> spanIterator \<Rightarrow> spanIterator \<Rightarrow> int list \<Rightarrow> int list \<Rightarrow> shape \<Rightarrow>
   (shape \<times> spanIterator \<times> spanIterator) checked" where
  "spanLoop op shape1 shape2 (sp1 # spans1) (sp2 # spans2) segments1 segments2 result =
     thenS (checked (span_y sp1 - span_y sp2)) (\<lambda>test.
     thenS (if test \<le> 0 then segmentsOf shape1 (sp1 # spans1) else Inr segments1) (\<lambda>segs1.
     thenS (if test \<ge> 0 then segmentsOf shape2 (sp2 # spans2) else Inr segments2) (\<lambda>segs2.
     thenS (combineSegments op segs1 segs2) (\<lambda>segments.
       spanLoop op shape1 shape2
         (if test \<le> 0 then spans1 else sp1 # spans1) (if test \<ge> 0 then spans2 else sp2 # spans2)
         segs1 segs2 (addSpan (if test \<ge> 0 then span_y sp2 else span_y sp1) segments result)))))"
| "spanLoop op shape1 shape2 spans1 spans2 segments1 segments2 result = Inr (result, spans1, spans2)"
  by pat_completeness auto

termination spanLoop
  by (relation "measure (\<lambda>(op, sh1, sh2, sp1, sp2, _). length sp1 + length sp2)") auto

definition shapeOperation :: "operation \<Rightarrow> shape \<Rightarrow> shape \<Rightarrow> shape checked" where
  "shapeOperation op shape1 shape2 =
     (case trySimpleOperation op shape1 shape2 of
        Some result \<Rightarrow> Inr result
      | None \<Rightarrow>
          thenS (spanLoop op shape1 shape2 (spans_begin shape1) (spans_begin shape2) [] [] Shape_default)
            (\<lambda>(result, spans1, spans2).
              if shouldAddRemainingSpansFromShape1 op \<and> spans1 \<noteq> spans_end shape1
              then appendSpans shape1 spans1 result
              else if shouldAddRemainingSpansFromShape2 op \<and> spans2 \<noteq> spans_end shape2
              then appendSpans shape2 spans2 result
              else Inr result))"

definition unionShapes :: "shape \<Rightarrow> shape \<Rightarrow> shape checked" where
  "unionShapes shape1 shape2 = shapeOperation UnionOperation shape1 shape2"

definition intersectShapes :: "shape \<Rightarrow> shape \<Rightarrow> shape checked" where
  "intersectShapes shape1 shape2 = shapeOperation IntersectOperation shape1 shape2"

definition subtractShapes :: "shape \<Rightarrow> shape \<Rightarrow> shape checked" where
  "subtractShapes shape1 shape2 = shapeOperation SubtractOperation shape1 shape2"

subsection \<open>The class\<close>

text \<open>A region keeps the bounding rectangle of its shape beside it.\<close>

record region =
  m_bounds :: intRect
  m_shape :: shape

definition Region_default :: region where
  "Region_default = \<lparr>m_bounds = IntRect_default, m_shape = Shape_default\<rparr>"

definition Region_rect :: "intRect \<Rightarrow> region checked" where
  "Region_rect rect = thenS (Shape_rect rect) (\<lambda>s. Inr \<lparr>m_bounds = rect, m_shape = s\<rparr>)"

definition Region_isEmpty :: "region \<Rightarrow> bool" where
  "Region_isEmpty r = IntRect_isEmpty (m_bounds r)"

fun spanRects :: "int \<Rightarrow> int \<Rightarrow> int list \<Rightarrow> intRect list checked" where
  "spanRects y height (a # b # segs) =
     thenS (checked (b - a)) (\<lambda>width. thenS (spanRects y height segs) (\<lambda>rs. Inr (IntRect a y width height # rs)))"
| "spanRects y height _ = Inr []"

fun rectsLoop :: "shape \<Rightarrow> spanIterator \<Rightarrow> intRect list checked" where
  "rectsLoop s (span # next # rest) =
     thenS (checked (span_y next - span_y span)) (\<lambda>height.
     thenS (segmentsOf s (span # next # rest)) (\<lambda>segs.
     thenS (spanRects (span_y span) height segs) (\<lambda>rs.
     thenS (rectsLoop s (next # rest)) (\<lambda>rs'. Inr (rs @ rs')))))"
| "rectsLoop s _ = Inr []"

definition rects :: "region \<Rightarrow> intRect list checked" where
  "rects r = rectsLoop (m_shape r) (spans_begin (m_shape r))"

definition Region_intersect :: "region \<Rightarrow> region \<Rightarrow> region checked" where
  "Region_intersect this region =
     thenS (IntRect_intersects (m_bounds this) (m_bounds region)) (\<lambda>meet.
       if \<not> meet then Inr \<lparr>m_bounds = IntRect_default, m_shape = Shape_default\<rparr>
       else thenS (intersectShapes (m_shape this) (m_shape region)) (\<lambda>s.
            thenS (Shape_bounds s) (\<lambda>b. Inr \<lparr>m_bounds = b, m_shape = s\<rparr>)))"

definition Region_unite :: "region \<Rightarrow> region \<Rightarrow> region checked" where
  "Region_unite this region =
     thenS (unionShapes (m_shape this) (m_shape region)) (\<lambda>s.
     thenS (IntRect_unite (m_bounds this) (m_bounds region)) (\<lambda>b. Inr \<lparr>m_bounds = b, m_shape = s\<rparr>))"

definition Region_subtract :: "region \<Rightarrow> region \<Rightarrow> region checked" where
  "Region_subtract this region =
     thenS (subtractShapes (m_shape this) (m_shape region)) (\<lambda>s.
     thenS (Shape_bounds s) (\<lambda>b. Inr \<lparr>m_bounds = b, m_shape = s\<rparr>))"

definition Region_translate :: "int \<Rightarrow> int \<Rightarrow> region \<Rightarrow> region checked" where
  "Region_translate dx dy r =
     thenS (IntRect_move dx dy (m_bounds r)) (\<lambda>b.
     thenS (Shape_translate dx dy (m_shape r)) (\<lambda>s. Inr \<lparr>m_bounds = b, m_shape = s\<rparr>))"

definition Region_contains :: "region \<Rightarrow> region \<Rightarrow> bool checked" where
  "Region_contains this region = thenS (Region_intersect region this) (\<lambda>r. Inr (r = region))"

definition Region_containsPoint :: "region \<Rightarrow> int \<Rightarrow> int \<Rightarrow> bool checked" where
  "Region_containsPoint this x y =
     thenS (Region_rect (IntRect x y 1 1)) (Region_contains this)"

end
