(* ===== verification/WK_Region_Lines.thy ===== *)
theory WK_Region_Lines
  imports WK_Region
begin

unbundle bit_operations_syntax

section \<open>Regions: scan lines and rows\<close>

text \<open>
  What the data of a shape mean. A sorted list of segments stands for the points of a scan line
  that have an odd number of its elements at or before them. A row is a span with its segments;
  the segments in force at a height are those of the last row at or above it. Sorted lists with
  the same points are equal, and so are lists of rows in which adjacent rows differ: the
  representation is canonical.
\<close>

primrec inside :: "int list \<Rightarrow> int \<Rightarrow> bool" where
  "inside [] x = False"
| "inside (a # segs) x = ((a \<le> x) \<noteq> inside segs x)"

definition segsOK :: "int list \<Rightarrow> bool" where
  "segsOK segs \<longleftrightarrow> sorted_wrt (<) segs \<and> even (length segs) \<and> (\<forall>x \<in> set segs. near x)"

fun member_op :: "operation \<Rightarrow> bool \<Rightarrow> bool \<Rightarrow> bool" where
  "member_op UnionOperation a b = (a \<or> b)"
| "member_op IntersectOperation a b = (a \<and> b)"
| "member_op SubtractOperation a b = (a \<and> \<not> b)"

named_theorems region_simps \<open>the operations of a shape on rows\<close>

lemma inside_before: "(\<And>a. a \<in> set segs \<Longrightarrow> x < a) \<Longrightarrow> \<not> inside segs x"
  by (induction segs) (auto simp: not_le)

lemma inside_after: "(\<And>a. a \<in> set segs \<Longrightarrow> a \<le> x) \<Longrightarrow> inside segs x = odd (length segs)"
  by (induction segs) auto

lemma inside_ex:
  "sorted_wrt (<) segs \<Longrightarrow> segs \<noteq> [] \<Longrightarrow> inside segs (hd segs)"
  by (cases segs) (auto intro!: inside_before)

lemma inside_ext:
  "sorted_wrt (<) s \<Longrightarrow> sorted_wrt (<) t \<Longrightarrow> (\<And>x. inside s x = inside t x) \<Longrightarrow> s = t"
proof (induction s arbitrary: t)
  case Nil
  then show ?case using inside_ex[of t] by fastforce
next
  case (Cons a s)
  then obtain b u where t: "t = b # u"
    using inside_ex[of "a # s"] by (cases t) auto
  have "a = b"
  proof (rule antisym)
    show "a \<le> b" using Cons.prems(2) Cons.prems(3)[of b] inside_before[of "a # s" b] inside_ex[of t] t
      Cons.prems(1) by (fastforce simp: not_le)
    show "b \<le> a" using Cons.prems(1) Cons.prems(3)[of a] inside_before[of t a] inside_ex[of "a # s"] t
      Cons.prems(2) by (fastforce simp: not_le)
  qed
  with Cons.prems(3) t have "inside s x = inside u x" for x
    by (metis inside.simps(2))
  with Cons t \<open>a = b\<close> show ?case by auto
qed

subsection \<open>The inner loop\<close>

definition flagOf :: "bool \<Rightarrow> bool \<Rightarrow> int" where
  "flagOf a b = (if a then 1 else 0) + (if b then 2 else 0)"

lemma flagOf_XOR [simp]: "flagOf a b XOR 1 = flagOf (\<not> a) b" "flagOf a b XOR 2 = flagOf a (\<not> b)"
  by (cases a; cases b; simp add: flagOf_def)+

text \<open>When a flag changes, one of both values is the code exactly if membership changes.\<close>

lemma flagOf_toggle:
  "(a, b) \<noteq> (a', b') \<Longrightarrow>
   flagOf a' b' = region_opCode op \<or> flagOf a b = region_opCode op \<longleftrightarrow> member_op op a b \<noteq> member_op op a' b'"
  by (cases op; cases a; cases b; cases a'; cases b'; simp add: flagOf_def)

definition addRemaining :: "operation \<Rightarrow> int list \<times> int list \<times> int list \<Rightarrow> int list" where
  "addRemaining op = (\<lambda>(segments, s1, s2).
     if shouldAddRemainingSegmentsFromSpan1 op \<and> s1 \<noteq> [] then segments @ s1
     else if shouldAddRemainingSegmentsFromSpan2 op \<and> s2 \<noteq> [] then segments @ s2
     else segments)"

definition mergedFrom :: "operation \<Rightarrow> bool \<Rightarrow> bool \<Rightarrow> int list \<Rightarrow> int list \<Rightarrow> int list \<Rightarrow> bool" where
  "mergedFrom op a b s1 s2 r \<longleftrightarrow> sorted_wrt (<) r \<and> set r \<subseteq> set s1 \<union> set s2 \<and>
     (\<forall>x. inside r x \<longleftrightarrow> member_op op (a \<noteq> inside s1 x) (b \<noteq> inside s2 x) \<noteq> member_op op a b)"

text \<open>
  One step of the merge: the next event is at \<open>x\<close>, where the flags go from \<open>a, b\<close> to \<open>a', b'\<close>,
  and the point \<open>x\<close> is put out exactly when membership changes.
\<close>

lemma mergedFrom_step:
  assumes m: "mergedFrom op a' b' t1 t2 r"
    and above: "\<And>z. z \<in> set t1 \<union> set t2 \<Longrightarrow> x < z" and sub: "set t1 \<subseteq> set s1" "set t2 \<subseteq> set s2"
    and x: "x \<in> set s1 \<union> set s2" "\<And>z. z \<in> set s1 \<union> set s2 \<Longrightarrow> x \<le> z"
    and s1: "\<And>z. x \<le> z \<Longrightarrow> (a \<noteq> inside s1 z) = (a' \<noteq> inside t1 z)"
    and s2: "\<And>z. x \<le> z \<Longrightarrow> (b \<noteq> inside s2 z) = (b' \<noteq> inside t2 z)"
  shows "mergedFrom op a b s1 s2 (if member_op op a b \<noteq> member_op op a' b' then x # r else r)"
proof -
  have r: "sorted_wrt (<) r" "set r \<subseteq> set t1 \<union> set t2"
    "inside r z \<longleftrightarrow> member_op op (a' \<noteq> inside t1 z) (b' \<noteq> inside t2 z) \<noteq> member_op op a' b'" for z
    using m by (auto simp: mergedFrom_def)
  have low: "\<not> inside s1 z" "\<not> inside s2 z" "\<not> inside r z" if "z < x" for z
    using that x(2) above r(2) by (force intro!: inside_before)+
  have "inside (if member_op op a b \<noteq> member_op op a' b' then x # r else r) z \<longleftrightarrow>
      member_op op (a \<noteq> inside s1 z) (b \<noteq> inside s2 z) \<noteq> member_op op a b" for z
  proof (cases "z < x")
    case True
    with low show ?thesis by simp
  next
    case False
    then show ?thesis using s1[of z] s2[of z] r(3)[of z] by (simp only: not_less inside.simps if_split) auto
  qed
  moreover have "sorted_wrt (<) (x # r)" using r above by auto
  ultimately show ?thesis
    unfolding mergedFrom_def using r x(1) sub by auto
qed

lemma segmentLoop_merges:
  assumes "sorted_wrt (<) s1" "sorted_wrt (<) s2" "\<And>x. x \<in> set s1 \<union> set s2 \<Longrightarrow> near x"
    and "a = odd (length s1)" "b = odd (length s2)"
  shows "\<exists>r. thenS (segmentLoop op s1 s2 (flagOf a b) (flagOf a b) acc) (\<lambda>t. Inr (addRemaining op t)) = Inr (acc @ r) \<and>
    mergedFrom op a b s1 s2 r"
  using assms
proof (induction "length s1 + length s2" arbitrary: s1 s2 a b acc rule: less_induct)
  case less
  show ?case
  proof (cases "s1 = [] \<or> s2 = []")
    case True
    then have fin: "segmentLoop op s1 s2 (flagOf a b) (flagOf a b) acc = Inr (acc, s1, s2)"
      by (cases s1) auto
    show ?thesis
      using True less.prems unfolding fin by (cases op) (auto simp: addRemaining_def mergedFrom_def)
  next
    case False
    then obtain u s1' v s2' where s: "s1 = u # s1'" "s2 = v # s2'" by (metis list.exhaust)
    have chk: "checked (u - v) = Inr (u - v)" using less.prems(3) s by simp
    define a' b' where "a' = (if u \<le> v then \<not> a else a)" and "b' = (if v \<le> u then \<not> b else b)"
    define t1 t2 where "t1 = (if u \<le> v then s1' else s1)" and "t2 = (if v \<le> u then s2' else s2)"
    define x where "x = (if v \<le> u then v else u)"
    define acc' where "acc' = (if member_op op a b \<noteq> member_op op a' b' then acc @ [x] else acc)"
    have "(a, b) \<noteq> (a', b')" by (auto simp: a'_def b'_def)
    from flagOf_toggle[OF this, of op]
    have step: "segmentLoop op s1 s2 (flagOf a b) (flagOf a b) acc = segmentLoop op t1 t2 (flagOf a' b') (flagOf a' b') acc'"
      by (cases "u \<le> v"; cases "v \<le> u") (simp_all add: s chk Let_def a'_def b'_def t1_def t2_def x_def acc'_def)
    have "length t1 + length t2 < length s1 + length s2" "sorted_wrt (<) t1" "sorted_wrt (<) t2"
      "\<And>x. x \<in> set t1 \<union> set t2 \<Longrightarrow> near x" "a' = odd (length t1)" "b' = odd (length t2)"
      using less.prems by (auto simp: s a'_def b'_def t1_def t2_def split: if_splits)
    from less.hyps[OF this, of acc'] obtain r where
      r: "thenS (segmentLoop op t1 t2 (flagOf a' b') (flagOf a' b') acc') (\<lambda>t. Inr (addRemaining op t)) = Inr (acc' @ r)"
      "mergedFrom op a' b' t1 t2 r" by blast
    have "mergedFrom op a b s1 s2 (if member_op op a b \<noteq> member_op op a' b' then x # r else r)"
      by (rule mergedFrom_step[OF r(2)])
        (use less.prems(1,2) in \<open>auto simp: s a'_def b'_def t1_def t2_def x_def split: if_splits\<close>)
    with r(1) step show ?thesis by (auto simp: acc'_def)
  qed
qed

lemma combineSegments_ok:
  assumes "segsOK s1" and "segsOK s2"
  obtains r where "combineSegments op s1 s2 = Inr r" "segsOK r"
    "\<And>x. inside r x = member_op op (inside s1 x) (inside s2 x)"
proof -
  obtain r where r: "thenS (segmentLoop op s1 s2 0 0 []) (\<lambda>t. Inr (addRemaining op t)) = Inr r"
    "mergedFrom op False False s1 s2 r"
    using segmentLoop_merges[of s1 s2 False False op "[]"] assms by (auto simp: segsOK_def flagOf_def)
  have F: "\<not> member_op op False False" by (cases op) auto
  have ins: "inside r x = member_op op (inside s1 x) (inside s2 x)" for x
    using r(2) F by (simp add: mergedFrom_def)
  have "bdd_above (set s1 \<union> set s2 \<union> set r)" by simp
  then obtain x where "\<forall>z \<in> set s1 \<union> set s2 \<union> set r. z \<le> x"
    by (auto simp: bdd_above.unfold)
  then have "odd (length r) = member_op op (odd (length s1)) (odd (length s2))"
    using ins[of x] by (auto simp: inside_after)
  then have "segsOK r"
    using assms r(2) F by (auto simp: segsOK_def mergedFrom_def)
  moreover have "combineSegments op s1 s2 = Inr r"
    using r(1) by (simp add: combineSegments_def addRemaining_def case_prod_unfold)
  ultimately show ?thesis using ins that by blast
qed

end
