(* ===== verification/WK_Region_Rows.thy ===== *)
theory WK_Region_Rows
  imports WK_Region_Lines
begin

section \<open>Regions: the rows of a shape\<close>

text \<open>
  The two vectors of a shape are the flattening of a list of rows, each a height with its
  segments: \<open>shapeOf\<close> builds the vectors, \<open>rowsOf\<close> reads the rows back. \<open>rowsOK\<close> is the
  well-formedness of the rows: heights increase, every list of segments is sorted and of even
  length, adjacent rows differ, the first has segments and the last has none. The operations of a
  shape are followed on the rows, and \<open>spanLoop_rows\<close> is the correctness of the scan.
\<close>

type_synonym row = "int \<times> int list"

primrec spansFrom :: "nat \<Rightarrow> row list \<Rightarrow> span list" where
  "spansFrom n [] = []"
| "spansFrom n (r # rs) = \<lparr>span_y = fst r, span_segmentIndex = n\<rparr> # spansFrom (n + length (snd r)) rs"

definition rowSegments :: "row list \<Rightarrow> int list" where
  "rowSegments rs = concat (map snd rs)"

definition shapeOf :: "row list \<Rightarrow> shape" where
  "shapeOf rs = \<lparr>m_segments = rowSegments rs, m_spans = spansFrom 0 rs\<rparr>"

fun rowsFrom :: "int list \<Rightarrow> span list \<Rightarrow> row list" where
  "rowsFrom segs [] = []"
| "rowsFrom segs [sp] = [(span_y sp, drop (span_segmentIndex sp) segs)]"
| "rowsFrom segs (sp # next # rest) =
     (span_y sp, take (span_segmentIndex next - span_segmentIndex sp) (drop (span_segmentIndex sp) segs)) #
     rowsFrom segs (next # rest)"

definition rowsOf :: "shape \<Rightarrow> row list" where
  "rowsOf s = rowsFrom (m_segments s) (m_spans s)"

primrec segmentsAt :: "int list \<Rightarrow> row list \<Rightarrow> int \<Rightarrow> int list" where
  "segmentsAt c [] y = c"
| "segmentsAt c (r # rs) y = (if fst r \<le> y then segmentsAt (snd r) rs y else c)"

primrec linkedRows :: "int list \<Rightarrow> row list \<Rightarrow> bool" where
  "linkedRows c [] \<longleftrightarrow> c = []"
| "linkedRows c (r # rs) \<longleftrightarrow> snd r \<noteq> c \<and> linkedRows (snd r) rs"

definition ordered :: "row list \<Rightarrow> bool" where
  "ordered rs \<longleftrightarrow> sorted_wrt (\<lambda>r q. fst r < fst q) rs \<and> (\<forall>r \<in> set rs. near (fst r) \<and> segsOK (snd r))"

definition rowsOK :: "row list \<Rightarrow> bool" where
  "rowsOK rs \<longleftrightarrow> ordered rs \<and> linkedRows [] rs"

definition currentSegments :: "row list \<Rightarrow> int list" where
  "currentSegments rs = (if rs = [] then [] else snd (last rs))"

lemma rowSegments_simps [simp]:
  "rowSegments [] = []" "rowSegments (r # rs) = snd r @ rowSegments rs"
  "rowSegments (rs @ rs') = rowSegments rs @ rowSegments rs'"
  by (auto simp: rowSegments_def)

lemma spansFrom_append [simp]:
  "spansFrom n (rs @ rs') = spansFrom n rs @ spansFrom (n + length (rowSegments rs)) rs'"
  by (induction rs arbitrary: n) (auto simp: add.assoc)

lemma spansFrom_Nil_iff [simp]: "spansFrom n rs = [] \<longleftrightarrow> rs = []"
  by (cases rs) auto

lemma shapeOf_Nil: "shapeOf [] = Shape_default"
  by (simp add: shapeOf_def Shape_default_def)

lemma Shape_isEmpty_shapeOf [region_simps]: "Shape_isEmpty (shapeOf rs) \<longleftrightarrow> rs = []"
  by (simp add: Shape_isEmpty_def shapeOf_def)

lemma rowsFrom_spansFrom: "rowsFrom (pre @ rowSegments rs) (spansFrom (length pre) rs) = rs"
proof (induction rs arbitrary: pre)
  case (Cons r rs)
  from Cons.IH[of "pre @ snd r"] show ?case
    by (cases rs) auto
qed simp

lemma rowsOf_shapeOf [simp]: "rowsOf (shapeOf rs) = rs"
  using rowsFrom_spansFrom[of "[]" rs] by (simp add: rowsOf_def shapeOf_def)

lemma linked_append: "linkedRows c (rs @ r # rs') \<Longrightarrow> linkedRows (snd r) rs'"
  by (induction rs arbitrary: c) auto

lemma segmentsOf_suffix [region_simps]:
  assumes "linkedRows (snd r) rs'"
  shows "segmentsOf (shapeOf (rs @ r # rs')) (spansFrom (length (rowSegments rs)) (r # rs')) = Inr (snd r)"
proof (cases rs')
  case Nil
  with assms show ?thesis by (simp add: segmentsOf_def shapeOf_def)
next
  case (Cons q qs)
  then show ?thesis by (auto simp: segmentsOf_def shapeOf_def)
qed

lemma appendSpanSegments_shapeOf [region_simps]:
  "appendSpanSegments y segs (shapeOf rs) =
   shapeOf (if rs \<noteq> [] \<and> snd (last rs) = segs then rs else rs @ [(y, segs)])"
proof (cases rs rule: rev_cases)
  case Nil
  then show ?thesis
    by (simp add: appendSpanSegments_def canCoalesce_def shapeOf_def appendSpan_def Let_def)
next
  case (snoc qs q)
  then have "canCoalesce segs (shapeOf rs) \<longleftrightarrow> snd q = segs"
    by (auto simp: canCoalesce_def shapeOf_def Let_def)
  then show ?thesis
    using snoc by (simp add: appendSpanSegments_def) (simp add: shapeOf_def appendSpan_def Let_def)
qed

lemma addSpan_shapeOf [region_simps]:
  "addSpan y segs (shapeOf rs) = shapeOf (if currentSegments rs = segs then rs else rs @ [(y, segs)])"
  by (auto simp: addSpan_def currentSegments_def region_simps)

lemma appendSpans_shapeOf:
  assumes "linkedRows (currentSegments acc) rs'"
  shows "appendSpans (shapeOf (rs @ rs')) (spansFrom (length (rowSegments rs)) rs') (shapeOf acc) = Inr (shapeOf (acc @ rs'))"
  using assms
proof (induction rs' arbitrary: rs acc)
  case (Cons r rs')
  have l: "linkedRows (snd r) rs'" using Cons.prems by simp
  have push: "appendSpanSegments (fst r) (snd r) (shapeOf acc) = shapeOf (acc @ [r])"
    using Cons.prems(1) by (auto simp: region_simps currentSegments_def split: if_splits)
  have "appendSpans (shapeOf (rs @ r # rs')) (spansFrom (length (rowSegments (rs @ [r]))) rs') (shapeOf (acc @ [r])) =
      Inr (shapeOf ((acc @ [r]) @ rs'))"
    using Cons.IH[of "acc @ [r]" "rs @ [r]"] Cons.prems l by (simp add: currentSegments_def)
  then show ?case
    using segmentsOf_suffix[OF l, of rs] push by (simp del: region_simps)
qed simp

subsection \<open>Canonical rows\<close>

lemma segmentsAt_before: "(\<And>r. r \<in> set rs \<Longrightarrow> y < fst r) \<Longrightarrow> segmentsAt c rs y = c"
proof (cases rs)
  case (Cons r rs')
  assume "\<And>r. r \<in> set rs \<Longrightarrow> y < fst r"
  from this[of r] Cons show ?thesis by simp
qed simp

lemma ordered_Cons:
  "ordered (r # rs) \<longleftrightarrow> near (fst r) \<and> segsOK (snd r) \<and> (\<forall>q \<in> set rs. fst r < fst q) \<and> ordered rs"
  by (auto simp: ordered_def)

lemma segmentsAt_OK: "segsOK c \<Longrightarrow> ordered rs \<Longrightarrow> segsOK (segmentsAt c rs y)"
  by (induction rs arbitrary: c) (auto simp: ordered_Cons)

lemma rows_ext:
  assumes "ordered rs" "ordered qs" "linkedRows c rs" "linkedRows c qs"
    and "\<And>y. segmentsAt c rs y = segmentsAt c qs y"
  shows "rs = qs"
  using assms
proof (induction rs arbitrary: c qs)
  case Nil
  show ?case
  proof (cases qs)
    case (Cons q qs')
    then have "segmentsAt c qs (fst q) = snd q"
      using Nil.prems by (auto simp: ordered_Cons intro!: segmentsAt_before)
    with Nil.prems(4) Nil.prems(5)[of "fst q"] Cons show ?thesis by simp
  qed simp
next
  case (Cons r rs)
  have r: "segmentsAt c (r # rs) (fst r) = snd r" "snd r \<noteq> c"
    using Cons.prems by (auto simp: ordered_Cons intro!: segmentsAt_before)
  obtain q qs' where qs: "qs = q # qs'"
    using Cons.prems(5)[of "fst r"] r by (cases qs) auto
  have q: "segmentsAt c qs (fst q) = snd q" "snd q \<noteq> c"
    using Cons.prems qs by (auto simp: ordered_Cons intro!: segmentsAt_before)
  have "fst q \<le> fst r"
    using Cons.prems(5)[of "fst r"] r qs by (auto split: if_splits)
  moreover have "fst r \<le> fst q"
    using Cons.prems(5)[of "fst q"] q by (auto split: if_splits)
  ultimately have y: "fst r = fst q" by simp
  with Cons.prems(5)[of "fst r"] r q have "snd r = snd q" by simp
  have "segmentsAt (snd r) rs y = segmentsAt (snd r) qs' y" for y
  proof (cases "fst r \<le> y")
    case True
    with Cons.prems(5)[of y] qs \<open>fst r = fst q\<close> \<open>snd r = snd q\<close> show ?thesis by simp
  next
    case False
    then have "segmentsAt (snd r) rs y = snd r" "segmentsAt (snd r) qs' y = snd r"
      using Cons.prems(1,2) qs \<open>fst r = fst q\<close> by (auto simp: ordered_Cons intro!: segmentsAt_before)
    then show ?thesis by simp
  qed
  then have "rs = qs'"
    using Cons.IH[of qs' "snd r"] Cons.prems qs \<open>snd r = snd q\<close> by (auto simp: ordered_Cons)
  with qs y \<open>snd r = snd q\<close> show ?case by (simp add: prod_eq_iff)
qed

subsection \<open>The outer loop\<close>

text \<open>
  \<open>scanned op c1 q1 c2 q2 c new\<close>: below the scan line the rows \<open>new\<close>, with \<open>c\<close> in force above them,
  hold the combination of the rows \<open>q1\<close> and \<open>q2\<close>.
\<close>

definition combined :: "operation \<Rightarrow> int list \<Rightarrow> int list \<Rightarrow> int list \<Rightarrow> bool" where
  "combined op c1 c2 c \<longleftrightarrow> (\<forall>x. inside c x = member_op op (inside c1 x) (inside c2 x))"

definition heights :: "row list \<Rightarrow> int set" where
  "heights rs = fst ` set rs"

lemma heights_simps [simp]: "heights [] = {}" "heights (r # rs) = insert (fst r) (heights rs)"
  by (auto simp: heights_def)

definition scanned :: "operation \<Rightarrow> int list \<Rightarrow> row list \<Rightarrow> int list \<Rightarrow> row list \<Rightarrow> int list \<Rightarrow> row list \<Rightarrow> bool" where
  "scanned op c1 q1 c2 q2 c new \<longleftrightarrow> ordered new \<and> linkedRows c new \<and> heights new \<subseteq> heights q1 \<union> heights q2 \<and>
     (\<forall>y. combined op (segmentsAt c1 q1 y) (segmentsAt c2 q2 y) (segmentsAt c new y))"

lemma scanned_step:
  assumes s: "scanned op d1 t1 d2 t2 d new"
    and above: "\<And>z. z \<in> heights t1 \<union> heights t2 \<Longrightarrow> y < z"
    and sub: "heights t1 \<subseteq> heights q1" "heights t2 \<subseteq> heights q2"
    and y: "y \<in> heights q1 \<union> heights q2" "near y" "segsOK d" "combined op c1 c2 c"
    and q1: "\<And>z. segmentsAt c1 q1 z = (if y \<le> z then segmentsAt d1 t1 z else c1)"
    and q2: "\<And>z. segmentsAt c2 q2 z = (if y \<le> z then segmentsAt d2 t2 z else c2)"
  shows "scanned op c1 q1 c2 q2 c (if c = d then new else (y, d) # new)"
proof -
  have n: "ordered new" "linkedRows d new" "heights new \<subseteq> heights t1 \<union> heights t2"
    "combined op (segmentsAt d1 t1 z) (segmentsAt d2 t2 z) (segmentsAt d new z)" for z
    using s by (auto simp: scanned_def)
  have low: "y < fst r" if "r \<in> set new" for r
    using that n(3) above by (auto simp: heights_def)
  have "segmentsAt c (if c = d then new else (y, d) # new) z = (if y \<le> z then segmentsAt d new z else c)" for z
    using low by (auto simp: not_le intro!: segmentsAt_before intro: less_trans)
  moreover have "ordered ((y, d) # new)" using n low y by (simp add: ordered_Cons)
  ultimately show ?thesis
    unfolding scanned_def using n y sub by (auto simp: q1 q2)
qed

lemma combined_empty2:
  assumes "combined op c1 [] c" "segsOK c1" "segsOK c"
  shows "c = (if op = IntersectOperation then [] else c1)"
  using assms by (cases op) (auto simp: combined_def segsOK_def intro!: inside_ext)

lemma combined_empty1:
  assumes "combined op [] c2 c" "segsOK c2" "segsOK c"
  shows "c = (if op = UnionOperation then c2 else [])"
  using assms by (cases op) (auto simp: combined_def segsOK_def intro!: inside_ext)

lemma scanned_rest:
  assumes "ordered q" "linkedRows d q"
  shows "op \<noteq> IntersectOperation \<Longrightarrow> scanned op d q [] [] d q"
    and "scanned UnionOperation [] [] d q d q"
    and "scanned IntersectOperation d q [] [] [] []"
    and "op \<noteq> UnionOperation \<Longrightarrow> scanned op [] [] d q [] []"
  using assms by (cases op; auto simp: scanned_def combined_def ordered_def)+

definition addRemainingSpans :: "operation \<Rightarrow> shape \<Rightarrow> shape \<Rightarrow> shape \<times> spanIterator \<times> spanIterator \<Rightarrow> shape checked" where
  "addRemainingSpans op shape1 shape2 = (\<lambda>(result, spans1, spans2).
     if shouldAddRemainingSpansFromShape1 op \<and> spans1 \<noteq> spans_end shape1
     then appendSpans shape1 spans1 result
     else if shouldAddRemainingSpansFromShape2 op \<and> spans2 \<noteq> spans_end shape2
     then appendSpans shape2 spans2 result
     else Inr result)"

lemma addRemainingSpans_rows:
  assumes "q1 = [] \<or> q2 = []" "ordered q1" "ordered q2" "linkedRows c1 q1" "linkedRows c2 q2"
    "segsOK c1" "segsOK c2" "segsOK (currentSegments acc)" "combined op c1 c2 (currentSegments acc)"
  shows "\<exists>new. addRemainingSpans op (shapeOf (p1 @ q1)) (shapeOf (p2 @ q2))
      (shapeOf acc, spansFrom (length (rowSegments p1)) q1, spansFrom (length (rowSegments p2)) q2) =
      Inr (shapeOf (acc @ new)) \<and> scanned op c1 q1 c2 q2 (currentSegments acc) new"
proof (cases "q2 = []")
  case True
  with assms have "c2 = []" and c: "currentSegments acc = (if op = IntersectOperation then [] else c1)"
    using combined_empty2 by auto
  show ?thesis
  proof (cases "op = IntersectOperation")
    case True
    then show ?thesis
      using scanned_rest(3)[of q1 c1] assms c \<open>c2 = []\<close> \<open>q2 = []\<close>
      by (auto simp: addRemainingSpans_def intro!: exI[of _ "[]"])
  next
    case False
    then have "shouldAddRemainingSpansFromShape1 op" by (cases op) auto
    then show ?thesis
      using False scanned_rest(1)[of q1 c1 op] assms c \<open>c2 = []\<close> \<open>q2 = []\<close> appendSpans_shapeOf[of acc q1 p1]
      by (auto simp: addRemainingSpans_def spans_end_def intro!: exI[of _ q1])
  qed
next
  case False
  with assms have "q1 = []" "c1 = []" and c: "currentSegments acc = (if op = UnionOperation then c2 else [])"
    using combined_empty1 by auto
  show ?thesis
  proof (cases "op = UnionOperation")
    case True
    then show ?thesis
      using False scanned_rest(2)[of q2 c2] assms c \<open>q1 = []\<close> \<open>c1 = []\<close> appendSpans_shapeOf[of acc q2 p2]
      by (auto simp: addRemainingSpans_def spans_end_def intro!: exI[of _ q2])
  next
    case False
    then have "\<not> shouldAddRemainingSpansFromShape2 op" by (cases op) auto
    then show ?thesis
      using False scanned_rest(4)[of q2 c2 op] assms c \<open>q1 = []\<close> \<open>c1 = []\<close>
      by (auto simp: addRemainingSpans_def spans_end_def intro!: exI[of _ "[]"])
  qed
qed

lemma segmentsAt_above:
  assumes "\<And>z. z \<in> heights q \<Longrightarrow> y < z"
  shows "segmentsAt c q z = (if y \<le> z then segmentsAt c q z else c)"
  using assms by (force simp: heights_def intro!: segmentsAt_before)

lemma spanLoop_rows:
  assumes "ordered q1" "ordered q2" "linkedRows c1 q1" "linkedRows c2 q2"
    "segsOK c1" "segsOK c2" "segsOK (currentSegments acc)" "combined op c1 c2 (currentSegments acc)"
  shows "\<exists>new. thenS (spanLoop op (shapeOf (p1 @ q1)) (shapeOf (p2 @ q2))
      (spansFrom (length (rowSegments p1)) q1) (spansFrom (length (rowSegments p2)) q2) c1 c2 (shapeOf acc))
      (addRemainingSpans op (shapeOf (p1 @ q1)) (shapeOf (p2 @ q2))) = Inr (shapeOf (acc @ new)) \<and>
    scanned op c1 q1 c2 q2 (currentSegments acc) new"
  using assms
proof (induction "length q1 + length q2" arbitrary: q1 q2 c1 c2 p1 p2 acc rule: less_induct)
  case less
  show ?case
  proof (cases "q1 = [] \<or> q2 = []")
    case True
    then have fin: "spanLoop op sh1 sh2 (spansFrom n1 q1) (spansFrom n2 q2) c1 c2 r = Inr (r, spansFrom n1 q1, spansFrom n2 q2)"
      for sh1 sh2 n1 n2 r by (cases q1) auto
    show ?thesis using addRemainingSpans_rows[OF True less.prems] by (simp add: fin)
  next
    case False
    then obtain r1 t1' r2 t2' where q: "q1 = r1 # t1'" "q2 = r2 # t2'" by (metis list.exhaust)
    have chk: "checked (fst r1 - fst r2) = Inr (fst r1 - fst r2)"
      using less.prems(1,2) q by (simp add: ordered_Cons)
    define d1 d2 where "d1 = (if fst r1 \<le> fst r2 then snd r1 else c1)" and "d2 = (if fst r2 \<le> fst r1 then snd r2 else c2)"
    define t1 t2 where "t1 = (if fst r1 \<le> fst r2 then t1' else q1)" and "t2 = (if fst r2 \<le> fst r1 then t2' else q2)"
    define o1 o2 where "o1 = (if fst r1 \<le> fst r2 then p1 @ [r1] else p1)" and "o2 = (if fst r2 \<le> fst r1 then p2 @ [r2] else p2)"
    define y where "y = (if fst r2 \<le> fst r1 then fst r2 else fst r1)"
    have ok: "ordered t1" "ordered t2" "linkedRows d1 t1" "linkedRows d2 t2" "segsOK d1" "segsOK d2" "near y"
      using less.prems by (auto simp: q ordered_Cons d1_def d2_def t1_def t2_def y_def)
    obtain d where d: "combineSegments op d1 d2 = Inr d" "segsOK d" "combined op d1 d2 d"
      using combineSegments_ok[OF ok(5,6), of op] by (auto simp: combined_def)
    define acc' where "acc' = (if currentSegments acc = d then acc else acc @ [(y, d)])"
    have acc': "currentSegments acc' = d" "addSpan y d (shapeOf acc) = shapeOf acc'"
      by (auto simp: acc'_def currentSegments_def region_simps)
    have o: "o1 @ t1 = p1 @ q1" "o2 @ t2 = p2 @ q2"
      by (auto simp: o1_def o2_def t1_def t2_def q)
    have segs: "segmentsOf (shapeOf (p1 @ q1)) (spansFrom (length (rowSegments p1)) q1) = Inr (snd r1)"
      "segmentsOf (shapeOf (p2 @ q2)) (spansFrom (length (rowSegments p2)) q2) = Inr (snd r2)"
      using segmentsOf_suffix[of r1 t1' p1] segmentsOf_suffix[of r2 t2' p2] less.prems(3,4) q by simp_all
    have step: "spanLoop op (shapeOf (p1 @ q1)) (shapeOf (p2 @ q2)) (spansFrom (length (rowSegments p1)) q1)
        (spansFrom (length (rowSegments p2)) q2) c1 c2 (shapeOf acc) =
      spanLoop op (shapeOf (o1 @ t1)) (shapeOf (o2 @ t2)) (spansFrom (length (rowSegments o1)) t1)
        (spansFrom (length (rowSegments o2)) t2) d1 d2 (shapeOf acc')"
      unfolding o using segs d(1) acc'(2)
      by (cases "fst r1 \<le> fst r2"; cases "fst r2 \<le> fst r1")
        (simp_all add: q chk d1_def d2_def t1_def t2_def o1_def o2_def y_def)
    have "length t1 + length t2 < length q1 + length q2" by (auto simp: t1_def t2_def q)
    from less.hyps[OF this ok(1-6), of acc' o1 o2] d acc' obtain new where
      new: "thenS (spanLoop op (shapeOf (o1 @ t1)) (shapeOf (o2 @ t2)) (spansFrom (length (rowSegments o1)) t1)
          (spansFrom (length (rowSegments o2)) t2) d1 d2 (shapeOf acc'))
        (addRemainingSpans op (shapeOf (o1 @ t1)) (shapeOf (o2 @ t2))) = Inr (shapeOf (acc' @ new))"
        "scanned op d1 t1 d2 t2 d new" by auto
    have "scanned op c1 q1 c2 q2 (currentSegments acc) (if currentSegments acc = d then new else (y, d) # new)"
    proof (rule scanned_step[OF new(2)])
      show above: "y < z" if "z \<in> heights t1 \<union> heights t2" for z
        using that less.prems(1,2) by (auto simp: q ordered_Cons heights_def y_def t1_def t2_def split: if_splits)
      show "segmentsAt c1 q1 z = (if y \<le> z then segmentsAt d1 t1 z else c1)" for z
        using segmentsAt_above[of q1 y c1 z] above less.prems(1) by (auto simp: q d1_def t1_def y_def)
      show "segmentsAt c2 q2 z = (if y \<le> z then segmentsAt d2 t2 z else c2)" for z
        using segmentsAt_above[of q2 y c2 z] above less.prems(2) by (auto simp: q d2_def t2_def y_def)
    qed (use less.prems ok d in \<open>auto simp: q y_def t1_def t2_def\<close>)
    with new(1) step o show ?thesis by (auto simp: acc'_def)
  qed
qed

end
