(* ===== verification/WK_Region_Bounds.thy ===== *)
theory WK_Region_Bounds
  imports WK_Region_Rows
begin

section \<open>Regions: points, bounds and rectangles of a shape\<close>

text \<open>
  The set of points a shape stands for, the three operations as operations on such sets, the
  bounding rectangle that the code computes, translation, and the decomposition into rectangles.
\<close>

definition rowPoints :: "row list \<Rightarrow> point set" where
  "rowPoints rs = {(x, y). inside (segmentsAt [] rs y) x}"

definition shapePoints :: "shape \<Rightarrow> point set" where
  "shapePoints s = rowPoints (rowsOf s)"

definition shapeOK :: "shape \<Rightarrow> bool" where
  "shapeOK s \<longleftrightarrow> s = shapeOf (rowsOf s) \<and> rowsOK (rowsOf s)"

lemma mem_rowPoints: "(x, y) \<in> rowPoints rs \<longleftrightarrow> inside (segmentsAt [] rs y) x"
  by (simp add: rowPoints_def)

lemma shapeOK_shapeOf [simp]: "shapeOK (shapeOf rs) \<longleftrightarrow> rowsOK rs"
  by (simp add: shapeOK_def)

lemma shapePoints_shapeOf [simp]: "shapePoints (shapeOf rs) = rowPoints rs"
  by (simp add: shapePoints_def)

lemma shapeOK_E:
  assumes "shapeOK s"
  obtains rs where "s = shapeOf rs" "rowsOK rs"
  using assms by (auto simp: shapeOK_def)

lemma segsOK_Nil [simp]: "segsOK []"
  by (simp add: segsOK_def)

lemma rowsOK_Nil [simp]: "rowsOK []"
  by (simp add: rowsOK_def ordered_def)

lemma rowPoints_Nil [simp]: "rowPoints [] = {}"
  by (simp add: rowPoints_def)

text \<open>Rows with the same points are equal.\<close>

lemma rowPoints_inject:
  assumes "rowsOK rs" "rowsOK qs" "rowPoints rs = rowPoints qs"
  shows "rs = qs"
proof (rule rows_ext)
  fix y
  have "segsOK (segmentsAt [] rs y)" "segsOK (segmentsAt [] qs y)"
    using assms by (auto simp: rowsOK_def intro: segmentsAt_OK)
  moreover have "inside (segmentsAt [] rs y) x = inside (segmentsAt [] qs y) x" for x
    using assms(3) by (simp flip: mem_rowPoints)
  ultimately show "segmentsAt [] rs y = segmentsAt [] qs y"
    by (auto simp: segsOK_def intro: inside_ext)
qed (use assms in \<open>auto simp: rowsOK_def\<close>)

lemma shapePoints_inject:
  "shapeOK s \<Longrightarrow> shapeOK t \<Longrightarrow> shapePoints s = shapePoints t \<Longrightarrow> s = t"
  using rowPoints_inject[of "rowsOf s" "rowsOf t"] by (simp add: shapeOK_def shapePoints_def)

lemma shape_default [simp]: "shapeOK Shape_default" "shapePoints Shape_default = {}"
  by (simp_all flip: shapeOf_Nil)

lemma shapePoints_empty_iff:
  assumes "shapeOK s"
  shows "shapePoints s = {} \<longleftrightarrow> Shape_isEmpty s"
proof -
  obtain rs where rs: "s = shapeOf rs" "rowsOK rs" using assms by (rule shapeOK_E)
  with rowPoints_inject[OF rs(2) rowsOK_Nil] show ?thesis by (auto simp: region_simps)
qed

subsection \<open>The operations\<close>

lemma shapeOperation_rows:
  assumes "rowsOK rs" "rowsOK qs" "trySimpleOperation op (shapeOf rs) (shapeOf qs) = None"
  shows "\<exists>new. shapeOperation op (shapeOf rs) (shapeOf qs) = Inr (shapeOf new) \<and> rowsOK new \<and>
    rowPoints new = {p. member_op op (p \<in> rowPoints rs) (p \<in> rowPoints qs)}"
proof -
  have start: "combined op [] [] (currentSegments [])" by (cases op) (auto simp: combined_def currentSegments_def)
  have ok: "ordered rs" "ordered qs" "linkedRows [] rs" "linkedRows [] qs" "segsOK (currentSegments [])"
    using assms by (auto simp: rowsOK_def currentSegments_def)
  from spanLoop_rows[OF ok(1-4) segsOK_Nil segsOK_Nil ok(5) start, of "[]" "[]"]
  obtain new where new: "thenS (spanLoop op (shapeOf rs) (shapeOf qs) (m_spans (shapeOf rs)) (m_spans (shapeOf qs)) [] [] Shape_default)
      (addRemainingSpans op (shapeOf rs) (shapeOf qs)) = Inr (shapeOf new)"
    and sc: "scanned op [] rs [] qs [] new"
    by (auto simp: currentSegments_def shapeOf_Nil) (auto simp: shapeOf_def)
  have "shapeOperation op (shapeOf rs) (shapeOf qs) = Inr (shapeOf new)"
    using new assms(3) by (simp add: shapeOperation_def spans_begin_def addRemainingSpans_def)
  with sc show ?thesis
    by (auto simp: scanned_def rowsOK_def rowPoints_def combined_def)
qed

lemma shapeOperation_ok:
  assumes "shapeOK s" "shapeOK t" "trySimpleOperation op s t = None"
  shows "\<exists>r. shapeOperation op s t = Inr r \<and> shapeOK r \<and>
    shapePoints r = {p. member_op op (p \<in> shapePoints s) (p \<in> shapePoints t)}"
proof -
  obtain rs qs where r: "s = shapeOf rs" "rowsOK rs" "t = shapeOf qs" "rowsOK qs"
    using assms(1,2) by (auto elim!: shapeOK_E)
  from shapeOperation_rows[OF r(2,4), of op] assms(3) r show ?thesis by auto
qed

lemma unionShapes_ok:
  assumes "shapeOK s" "shapeOK t"
  shows "\<exists>r. unionShapes s t = Inr r \<and> shapeOK r \<and> shapePoints r = shapePoints s \<union> shapePoints t"
proof (cases "trySimpleOperation UnionOperation s t")
  case None
  from shapeOperation_ok[OF assms None] show ?thesis
    by (simp add: unionShapes_def Un_def)
next
  case (Some r)
  then show ?thesis
    using assms shapePoints_empty_iff[OF assms(1)] shapePoints_empty_iff[OF assms(2)]
    by (auto simp: unionShapes_def shapeOperation_def simp del: trySimpleOperation.simps)
      (auto split: if_splits)
qed

lemma intersectShapes_ok:
  assumes "shapeOK s" "shapeOK t" "\<not> Shape_isEmpty t"
  shows "\<exists>r. intersectShapes s t = Inr r \<and> shapeOK r \<and> shapePoints r = shapePoints s \<inter> shapePoints t"
proof (cases "trySimpleOperation IntersectOperation s t")
  case None
  from shapeOperation_ok[OF assms(1,2) None] show ?thesis
    by (simp add: intersectShapes_def Int_def)
next
  case (Some r)
  then show ?thesis
    using assms shapePoints_empty_iff[OF assms(1)]
    by (auto simp: intersectShapes_def shapeOperation_def split: if_splits)
qed

lemma subtractShapes_ok:
  assumes "shapeOK s" "shapeOK t" "\<not> Shape_isEmpty t"
  shows "\<exists>r. subtractShapes s t = Inr r \<and> shapeOK r \<and> shapePoints r = shapePoints s - shapePoints t"
proof (cases "trySimpleOperation SubtractOperation s t")
  case None
  from shapeOperation_ok[OF assms(1,2) None] show ?thesis
    by (simp add: subtractShapes_def set_diff_eq)
next
  case (Some r)
  then show ?thesis
    using assms shapePoints_empty_iff[OF assms(1)]
    by (auto simp: subtractShapes_def shapeOperation_def split: if_splits)
qed

subsection \<open>Bounds\<close>

lemma segmentsAt_row:
  assumes "ordered (p @ r # q)" "fst r \<le> y" "q = [] \<or> y < fst (hd q)"
  shows "segmentsAt c (p @ r # q) y = snd r"
  using assms
proof (induction p arbitrary: c)
  case Nil
  then show ?case by (cases q) auto
next
  case (Cons s p)
  then show ?case by (auto simp: ordered_Cons)
qed

lemma row_points:
  assumes "ordered (p @ r # q)" "fst r \<le> y" "q = [] \<or> y < fst (hd q)"
  shows "(x, y) \<in> rowPoints (p @ r # q) \<longleftrightarrow> inside (snd r) x"
  using segmentsAt_row[OF assms] by (simp add: mem_rowPoints)

lemma inside_last:
  assumes "segsOK s" "s \<noteq> []"
  shows "inside s (last s - 1)"
proof -
  from assms obtain t z where s: "s = t @ [z]" by (cases s rule: rev_cases) auto
  have "inside (t @ [z]) x = (inside t x \<noteq> (z \<le> x))" for x by (induction t) auto
  moreover have "inside t (z - 1) = odd (length t)"
    using assms(1) s by (intro inside_after) (auto simp: segsOK_def sorted_wrt_append)
  ultimately show ?thesis using assms(1) s by (auto simp: segsOK_def)
qed

lemma boundsLoop_rows:
  assumes "q \<noteq> []" "linkedRows (currentSegments p) q" "rowSegments p \<noteq> [] \<or> snd (hd q) \<noteq> []"
  shows "\<exists>l h. boundsLoop (shapeOf (p @ q)) (spansFrom (length (rowSegments p)) q) l0 h0 = Inr (l, h) \<and>
    l \<le> l0 \<and> h0 \<le> h \<and> (\<forall>r \<in> set q. snd r \<noteq> [] \<longrightarrow> l \<le> hd (snd r) \<and> last (snd r) \<le> h) \<and>
    l \<in> insert l0 (set (rowSegments (p @ q))) \<and> h \<in> insert h0 (set (rowSegments (p @ q)))"
  using assms
proof (induction q arbitrary: p l0 h0)
  case (Cons r q)
  show ?case
  proof (cases q)
    case Nil
    with Cons.prems show ?thesis by auto
  next
    case (Cons r' q')
    let ?S = "rowSegments (p @ r # q)" and ?i = "length (rowSegments p)" and ?j = "length (rowSegments (p @ [r]))"
    have IH: "\<exists>l h. boundsLoop (shapeOf (p @ r # q)) (spansFrom ?j q) l1 h1 = Inr (l, h) \<and>
      l \<le> l1 \<and> h1 \<le> h \<and> (\<forall>r \<in> set q. snd r \<noteq> [] \<longrightarrow> l \<le> hd (snd r) \<and> last (snd r) \<le> h) \<and>
      l \<in> insert l1 (set ?S) \<and> h \<in> insert h1 (set ?S)" for l1 h1
      using Cons.IH[of "p @ [r]" l1 h1] Cons.prems \<open>q = r' # q'\<close> by (auto simp: currentSegments_def)
    have sp: "spansFrom ?i (r # q) = \<lparr>span_y = fst r, span_segmentIndex = ?i\<rparr> # spansFrom ?j q"
      "spansFrom ?j q = \<lparr>span_y = fst r', span_segmentIndex = ?j\<rparr> # spansFrom (?j + length (snd r')) q'"
      using Cons by simp_all
    have seg: "m_segments (shapeOf (p @ r # q)) = ?S" by (simp add: shapeOf_def)
    show ?thesis
    proof (cases "?i = length ?S")
      case True
      then have "snd r = []" by simp
      moreover have "boundsLoop (shapeOf (p @ r # q)) (spansFrom ?i (r # q)) l0 h0 =
          boundsLoop (shapeOf (p @ r # q)) (spansFrom ?j q) l0 h0"
        by (simp only: sp boundsLoop.simps segments_begin.simps segments_end.simps seg span.simps
            eqTrueI[OF True] if_True thenS_simps option.case prod.case)
      ultimately show ?thesis using IH[of l0 h0] by auto
    next
      case False
      have j: "0 < ?j" using Cons.prems(3) by auto
      have "?i \<le> length ?S" "?j \<le> length ?S" by simp_all
      with False j have bnd: "?i < length ?S" "?j - 1 < length ?S" by linarith+
      define l1 h1 where "l1 = (if ?S ! ?i < l0 then ?S ! ?i else l0)" and "h1 = (if ?S ! (?j - 1) > h0 then ?S ! (?j - 1) else h0)"
      have reads: "readSegment (shapeOf (p @ r # q)) ?i = Inr (?S ! ?i)"
        "readSegment (shapeOf (p @ r # q)) (?j - 1) = Inr (?S ! (?j - 1))"
        using bnd by (simp_all only: readSegment_def seg if_True)
      have "boundsLoop (shapeOf (p @ r # q)) (spansFrom ?i (r # q)) l0 h0 =
          boundsLoop (shapeOf (p @ r # q)) (spansFrom ?j q) l1 h1"
        using False j reads
        by (simp only: sp boundsLoop.simps segments_begin.simps segments_end.simps seg l1_def h1_def
            span.simps if_False thenS_simps option.case prod.case neq0_conv[symmetric])
      moreover have "l1 \<le> l0" "h0 \<le> h1" "l1 \<in> insert l0 (set ?S)" "h1 \<in> insert h0 (set ?S)"
        using bnd by (auto simp: l1_def h1_def simp del: rowSegments_simps)
      moreover have "l1 \<le> hd (snd r) \<and> last (snd r) \<le> h1" if "snd r \<noteq> []"
      proof -
        have "?S ! ?i = hd (snd r)" using that by (simp add: nth_append hd_conv_nth)
        moreover have "?S ! (?j - 1) = last (snd r)"
          using that by (cases "snd r" rule: rev_cases) (auto simp: nth_append)
        ultimately show ?thesis by (auto simp: l1_def h1_def)
      qed
      ultimately show ?thesis using IH[of l1 h1] by fastforce
    qed
  qed
qed simp

lemma sorted_hd_last: "sorted_wrt (<) s \<Longrightarrow> x \<in> set s \<Longrightarrow> hd s \<le> x \<and> x \<le> (last s :: int)"
proof -
  assume s: "sorted_wrt (<) s" "x \<in> set s"
  have "hd s \<le> x" using s by (cases s) auto
  moreover have "x \<le> last s" using s by (cases s rule: rev_cases) (auto simp: sorted_wrt_append)
  ultimately show ?thesis ..
qed

lemma bounds_edges:
  assumes "rowsOK rs" "rs \<noteq> []"
  obtains l h where "Shape_bounds (shapeOf rs) = Inr (IntRect l (fst (hd rs)) (h - l) (fst (last rs) - fst (hd rs)))"
    "rectNear (IntRect l (fst (hd rs)) (h - l) (fst (last rs) - fst (hd rs)))"
    "l \<in> set (rowSegments rs)" "h \<in> set (rowSegments rs)" "\<And>x. x \<in> set (rowSegments rs) \<Longrightarrow> l \<le> x \<and> x \<le> h"
proof -
  have near: "near x" if "x \<in> set (rowSegments rs)" for x
    using that assms(1) by (auto simp: rowsOK_def ordered_def rowSegments_def segsOK_def)
  have ends: "near (fst (hd rs))" "near (fst (last rs))"
    using assms by (auto simp: rowsOK_def ordered_def)
  have first: "snd (hd rs) \<noteq> []" using assms by (cases rs) (auto simp: rowsOK_def)
  obtain l h where b: "boundsLoop (shapeOf rs) (spansFrom 0 rs) INT_MAX INT_MIN = Inr (l, h)"
    and lh: "\<forall>r \<in> set rs. snd r \<noteq> [] \<longrightarrow> l \<le> hd (snd r) \<and> last (snd r) \<le> h"
    and mem: "l \<in> insert INT_MAX (set (rowSegments rs))" "h \<in> insert INT_MIN (set (rowSegments rs))"
    using boundsLoop_rows[of rs "[]" INT_MAX INT_MIN] assms first by (auto simp: rowsOK_def currentSegments_def)
  have all: "l \<le> x \<and> x \<le> h" if x: "x \<in> set (rowSegments rs)" for x
  proof -
    obtain r where r: "r \<in> set rs" "x \<in> set (snd r)" using x by (auto simp: rowSegments_def)
    then have "hd (snd r) \<le> x \<and> x \<le> last (snd r)"
      using assms(1) by (intro sorted_hd_last) (auto simp: rowsOK_def ordered_def segsOK_def)
    moreover have "snd r \<noteq> []" using r(2) by auto
    ultimately show ?thesis using lh r(1) by force
  qed
  have one: "hd (snd (hd rs)) \<in> set (rowSegments rs)"
    using first assms(2) by (auto simp: rowSegments_def intro!: bexI[of _ "hd rs"])
  have "l \<noteq> INT_MAX" "h \<noteq> INT_MIN"
    using all[OF one] near[OF one] by (auto simp: near_def INT_MAX_def INT_MIN_def)
  with mem have m: "l \<in> set (rowSegments rs)" "h \<in> set (rowSegments rs)" by auto
  have "hd (m_spans (shapeOf rs)) = \<lparr>span_y = fst (hd rs), span_segmentIndex = 0\<rparr>"
    using assms(2) by (cases rs) (auto simp: shapeOf_def)
  moreover have "span_y (last (m_spans (shapeOf rs))) = fst (last rs)"
    using assms(2) by (cases rs rule: rev_cases) (auto simp: shapeOf_def)
  ultimately have "Shape_bounds (shapeOf rs) = setEdges l (fst (hd rs)) h (fst (last rs))"
    using b assms(2) by (simp add: Shape_bounds_def region_simps spans_begin_def Let_def) (simp add: shapeOf_def)
  with setEdges_near[OF near[OF m(1)] ends(1) near[OF m(2)] ends(2)] m all that show ?thesis by simp
qed

lemma segmentsAt_takeWhile:
  "segmentsAt c rs y = (let qs = takeWhile (\<lambda>r. fst r \<le> y) rs in if qs = [] then c else snd (last qs))"
  by (induction rs arbitrary: c) (auto simp: Let_def)

lemma segmentsAt_cases:
  assumes "segmentsAt [] rs y \<noteq> []"
  obtains p r q where "rs = p @ r # q" "fst r \<le> y" "q = [] \<or> y < fst (hd q)" "segmentsAt [] rs y = snd r"
proof -
  let ?t = "takeWhile (\<lambda>r. fst r \<le> y) rs" and ?q = "dropWhile (\<lambda>r. fst r \<le> y) rs"
  have "?t \<noteq> []" using assms by (auto simp: segmentsAt_takeWhile)
  then obtain p r where t: "?t = p @ [r]" by (cases ?t rule: rev_cases) auto
  have "fst r \<le> y" using set_takeWhileD[of r "\<lambda>r. fst r \<le> y" rs] t by simp
  moreover have "?q = [] \<or> y < fst (hd ?q)"
    using hd_dropWhile[of "\<lambda>r. fst r \<le> y" rs] by (cases "?q = []") auto
  moreover have "rs = p @ r # ?q" using takeWhile_dropWhile_id[of "\<lambda>r. fst r \<le> y" rs] t by simp
  moreover have "segmentsAt [] rs y = snd r" using t by (simp add: segmentsAt_takeWhile)
  ultimately show ?thesis using that by blast
qed

definition tight :: "point set \<Rightarrow> intRect \<Rightarrow> bool" where
  "tight P b \<longleftrightarrow> P \<noteq> {} \<and> P \<subseteq> rectPoints b \<and> (\<forall>c. P \<subseteq> rectPoints c \<longrightarrow> rectPoints b \<subseteq> rectPoints c)"

lemma tight_unique:
  assumes "tight P b" "tight P c"
  shows "b = c"
proof -
  have "rectPoints b = rectPoints c" "rectPoints b \<noteq> {}" using assms by (auto simp: tight_def)
  then have "\<not> IntRect_isEmpty b" "\<not> IntRect_isEmpty c" "rectPoints b \<subseteq> rectPoints c" "rectPoints c \<subseteq> rectPoints b"
    by (auto simp flip: rectPoints_empty_iff)
  then show ?thesis by (auto simp: rectPoints_subset_iff intro!: intRect.equality)
qed

lemma linked_last: "linkedRows c rs \<Longrightarrow> rs \<noteq> [] \<Longrightarrow> snd (last rs) = []"
  by (induction rs arbitrary: c) auto

lemma ordered_append:
  "ordered (p @ q) \<longleftrightarrow> ordered p \<and> ordered q \<and> (\<forall>r \<in> set p. \<forall>s \<in> set q. fst r < fst s)"
  by (auto simp: ordered_def sorted_wrt_append)

lemma row_point_iff:
  assumes "ordered rs" "r \<in> set rs"
  shows "(x, fst r) \<in> rowPoints rs \<longleftrightarrow> inside (snd r) x"
proof -
  obtain p q where rs: "rs = p @ r # q" using assms(2) by (meson split_list)
  then have "q = [] \<or> fst r < fst (hd q)" using assms(1) by (cases q) (auto simp: ordered_append ordered_Cons)
  with assms(1) rs show ?thesis using row_points[of p r q "fst r" x] by simp
qed

lemma rowPoints_within:
  assumes "rowsOK rs" "(x, y) \<in> rowPoints rs"
  shows "\<exists>a b. a \<in> set (rowSegments rs) \<and> b \<in> set (rowSegments rs) \<and> a \<le> x \<and> x < b \<and> fst (hd rs) \<le> y \<and> y < fst (last rs)"
proof -
  have ne: "segmentsAt [] rs y \<noteq> []" using assms(2) by (auto simp: mem_rowPoints)
  then obtain p r q where r: "rs = p @ r # q" "fst r \<le> y" "q = [] \<or> y < fst (hd q)" "segmentsAt [] rs y = snd r"
    by (rule segmentsAt_cases)
  have ok: "segsOK (snd r)" "linkedRows [] rs" "ordered rs" using assms(1) r(1) by (auto simp: rowsOK_def ordered_def)
  have ins: "inside (snd r) x" using assms(2) r(4) by (simp add: mem_rowPoints)
  then obtain a where "a \<in> set (snd r)" "a \<le> x" using inside_before[of "snd r" x] by force
  moreover obtain b where "b \<in> set (snd r)" "x < b"
    using ins inside_after[of "snd r" x] ok(1) by (force simp: segsOK_def)
  moreover have "q \<noteq> []" using linked_last[OF ok(2)] ne r(1,4) by auto
  moreover have "fst (hd rs) \<le> fst r" using ok(3) r(1) by (cases p) (auto simp: ordered_Cons)
  moreover have "fst (hd q) \<le> fst (last rs)"
    using ok(3) r(1) \<open>q \<noteq> []\<close> by (cases q rule: rev_cases) (auto simp: ordered_append ordered_Cons hd_append less_imp_le)
  ultimately show ?thesis using r by (intro exI[of _ a] exI[of _ b]) (auto)
qed

lemma mem_rowSegments: "r \<in> set rs \<Longrightarrow> x \<in> set (snd r) \<Longrightarrow> x \<in> set (rowSegments rs)"
  by (auto simp: rowSegments_def)

lemma bounds_tight:
  assumes "rowsOK rs" "rs \<noteq> []"
  obtains b where "Shape_bounds (shapeOf rs) = Inr b" "rectNear b" "tight (rowPoints rs) b"
    "\<And>x. x \<in> set (rowSegments rs) \<Longrightarrow> rect_x b \<le> x \<and> x \<le> rect_x b + rect_width b"
    "\<And>r. r \<in> set rs \<Longrightarrow> rect_y b \<le> fst r \<and> fst r \<le> rect_y b + rect_height b"
proof -
  obtain l h where B: "Shape_bounds (shapeOf rs) = Inr (IntRect l (fst (hd rs)) (h - l) (fst (last rs) - fst (hd rs)))"
    "rectNear (IntRect l (fst (hd rs)) (h - l) (fst (last rs) - fst (hd rs)))"
    and m: "l \<in> set (rowSegments rs)" "h \<in> set (rowSegments rs)" "\<And>x. x \<in> set (rowSegments rs) \<Longrightarrow> l \<le> x \<and> x \<le> h"
    using bounds_edges[OF assms] by metis
  let ?b = "IntRect l (fst (hd rs)) (h - l) (fst (last rs) - fst (hd rs))"
  have ok: "ordered rs" "linkedRows [] rs" "\<And>r. r \<in> set rs \<Longrightarrow> segsOK (snd r)"
    using assms(1) by (auto simp: rowsOK_def ordered_def)
  have hs: "fst (hd rs) \<le> fst r \<and> fst r \<le> fst (last rs)" if "r \<in> set rs" for r
    using that ok(1) sorted_hd_last[of "map fst rs" "fst r"]
    by (auto simp: ordered_def sorted_wrt_map hd_map last_map assms(2))
  have sub: "rowPoints rs \<subseteq> rectPoints ?b"
    using rowPoints_within[OF assms(1)] m(3) by (fastforce simp: mem_rectPoints IntRect_def)
  have seg: "\<exists>r \<in> set rs. x \<in> set (snd r) \<and> hd (snd r) \<le> x \<and> x \<le> last (snd r) \<and> snd r \<noteq> []"
    if x: "x \<in> set (rowSegments rs)" for x
  proof -
    obtain r where r: "r \<in> set rs" "x \<in> set (snd r)" using x by (auto simp: rowSegments_def)
    then show ?thesis using ok(3)[OF r(1)] sorted_hd_last[of "snd r" x] by (auto simp: segsOK_def)
  qed
  have left: "\<exists>y. (l, y) \<in> rowPoints rs"
  proof -
    obtain r where r: "r \<in> set rs" "snd r \<noteq> []" "hd (snd r) \<le> l" using seg[OF m(1)] by blast
    moreover have "l \<le> hd (snd r)" using m(3)[OF mem_rowSegments[OF r(1)], of "hd (snd r)"] r by simp
    ultimately show ?thesis
      using inside_ex[of "snd r"] ok row_point_iff[OF ok(1) r(1), of l] by (auto simp: segsOK_def)
  qed
  have right: "\<exists>y. (h - 1, y) \<in> rowPoints rs"
  proof -
    obtain r where r: "r \<in> set rs" "snd r \<noteq> []" "h \<le> last (snd r)" using seg[OF m(2)] by blast
    moreover have "last (snd r) \<le> h" using m(3)[OF mem_rowSegments[OF r(1)], of "last (snd r)"] r by simp
    ultimately show ?thesis
      using inside_last[of "snd r"] ok row_point_iff[OF ok(1) r(1), of "h - 1"] by auto
  qed
  have topP: "\<exists>x. (x, fst (hd rs)) \<in> rowPoints rs"
  proof -
    have "hd rs \<in> set rs" "snd (hd rs) \<noteq> []" using assms(2) ok(2) by (cases rs; simp)+
    then show ?thesis using inside_ex[of "snd (hd rs)"] ok row_point_iff[OF ok(1), of "hd rs"] by (auto simp: segsOK_def)
  qed
  have bottomP: "\<exists>x. (x, fst (last rs) - 1) \<in> rowPoints rs"
  proof -
    obtain p r where r: "rs = p @ [r]" using assms(2) by (cases rs rule: rev_cases) auto
    with ok(2) obtain p' r' where p: "p = p' @ [r']" by (cases p rule: rev_cases) auto
    have "snd r' \<noteq> []" using ok(2) r p linked_append[of "[]" p' r' "[r]"] by auto
    moreover have "fst r' < fst r" "ordered (p' @ r' # [r])" using ok(1) r p by (auto simp: ordered_append ordered_Cons)
    ultimately show ?thesis
      using row_points[of p' r' "[r]" "fst r - 1"] inside_ex[of "snd r'"] ok(3)[of r'] r p by (auto simp: segsOK_def)
  qed
  have "rectPoints ?b \<subseteq> rectPoints c" if c: "rowPoints rs \<subseteq> rectPoints c" for c
  proof -
    obtain y1 y2 x1 x2 where "{(l, y1), (h - 1, y2), (x1, fst (hd rs)), (x2, fst (last rs) - 1)} \<subseteq> rectPoints c"
      using left right topP bottomP c by blast
    then show ?thesis by (auto simp: mem_rectPoints IntRect_def)
  qed
  with sub topP have "tight (rowPoints rs) ?b" by (auto simp: tight_def)
  with B hs m(3) that show ?thesis by (auto simp: IntRect_def)
qed

lemma bounds_tight_ex:
  assumes "rowsOK rs" "rs \<noteq> []"
  shows "\<exists>b. Shape_bounds (shapeOf rs) = Inr b \<and> rectNear b \<and> tight (rowPoints rs) b"
  using bounds_tight[OF assms] by metis

subsection \<open>Translation\<close>

definition moveRows :: "int \<Rightarrow> int \<Rightarrow> row list \<Rightarrow> row list" where
  "moveRows dx dy = map (\<lambda>(y, segs). (y + dy, map (\<lambda>x. x + dx) segs))"

lemma moveRows_Cons: "moveRows dx dy (r # rs) = (fst r + dy, map (\<lambda>x. x + dx) (snd r)) # moveRows dx dy rs"
  by (simp add: moveRows_def case_prod_unfold)

lemma addAll_near: "(\<And>x. x \<in> set xs \<Longrightarrow> near (x + d)) \<Longrightarrow> addAll d xs = Inr (map (\<lambda>x. x + d) xs)"
  by (induction xs) auto

lemma moveSpans_near:
  "(\<And>r. r \<in> set rs \<Longrightarrow> near (fst r + dy)) \<Longrightarrow> moveSpans dy (spansFrom n rs) = Inr (spansFrom n (moveRows dx dy rs))"
  by (induction rs arbitrary: n) (auto simp: moveRows_def case_prod_unfold)

lemma rowSegments_moveRows: "rowSegments (moveRows dx dy rs) = map (\<lambda>x. x + dx) (rowSegments rs)"
  by (induction rs) (auto simp: moveRows_def)

lemma translate_rows:
  assumes "\<And>x. x \<in> set (rowSegments rs) \<Longrightarrow> near (x + dx)" "\<And>r. r \<in> set rs \<Longrightarrow> near (fst r + dy)"
  shows "Shape_translate dx dy (shapeOf rs) = Inr (shapeOf (moveRows dx dy rs))"
  using moveSpans_near[of rs dy 0 dx] addAll_near[of "rowSegments rs" dx] assms
  by (simp add: Shape_translate_def shapeOf_def rowSegments_moveRows)

lemma inside_map: "inside (map (\<lambda>x. x + d) s) x = inside s (x - d)"
  by (induction s) auto

lemma segmentsAt_moveRows:
  "segmentsAt (map (\<lambda>x. x + dx) c) (moveRows dx dy rs) y = map (\<lambda>x. x + dx) (segmentsAt c rs (y - dy))"
  by (induction rs arbitrary: c) (auto simp: moveRows_def)

lemma rowPoints_moveRows: "(x, y) \<in> rowPoints (moveRows dx dy rs) \<longleftrightarrow> (x - dx, y - dy) \<in> rowPoints rs"
  using segmentsAt_moveRows[of dx "[]" dy rs y] by (simp add: mem_rowPoints inside_map)

lemma linked_moveRows: "linkedRows (map (\<lambda>x. x + dx) c) (moveRows dx dy rs) = linkedRows c rs"
proof (induction rs arbitrary: c)
  case (Cons r rs)
  have "inj (\<lambda>x. x + dx)" by simp
  then have "map (\<lambda>x. x + dx) (snd r) = map (\<lambda>x. x + dx) c \<longleftrightarrow> snd r = c" by (rule inj_map_eq_map)
  then show ?case by (simp only: moveRows_Cons linkedRows.simps snd_conv Cons.IH)
qed (simp add: moveRows_def)

lemma rowsOK_moveRows:
  assumes "rowsOK rs" "\<And>x. x \<in> set (rowSegments rs) \<Longrightarrow> near (x + dx)" "\<And>r. r \<in> set rs \<Longrightarrow> near (fst r + dy)"
  shows "rowsOK (moveRows dx dy rs)"
proof -
  have "ordered (moveRows dx dy rs)"
    using assms by (auto simp: rowsOK_def ordered_def moveRows_def segsOK_def rowSegments_def sorted_wrt_map case_prod_unfold)
  then show ?thesis using assms(1) linked_moveRows[of dx "[]" dy rs] by (simp add: rowsOK_def)
qed

subsection \<open>Decomposition into rectangles\<close>

text \<open>How many rectangles of a list hold a point: the decomposition covers each point once.\<close>

definition covers :: "intRect list \<Rightarrow> point \<Rightarrow> nat" where
  "covers rs p = length (filter (\<lambda>r. p \<in> rectPoints r) rs)"

lemma covers_simps [simp]:
  "covers [] p = 0" "covers (r # rs) p = (if p \<in> rectPoints r then 1 else 0) + covers rs p"
  "covers (rs @ rs') p = covers rs p + covers rs' p"
  by (auto simp: covers_def)

lemma spanRects_cover:
  assumes "segsOK segs"
  shows "\<exists>rs. spanRects y h segs = Inr rs \<and>
    (\<forall>x z. covers rs (x, z) = (if inside segs x \<and> y \<le> z \<and> z < y + h then 1 else 0)) \<and>
    (\<forall>r \<in> set rs. rect_y r = y \<and> rect_height r = h \<and> near (rect_x r) \<and> near (rect_x r + rect_width r) \<and> 0 < rect_width r)"
  using assms
proof (induction y h segs rule: spanRects.induct)
  case (1 y h a b segs)
  then have ok: "segsOK segs" "a < b" "near a" "near b" "\<And>x. x \<in> set segs \<Longrightarrow> b < x" by (auto simp: segsOK_def)
  have out: "\<not> inside segs x" if "x \<le> b" for x
    using that ok(5) by (intro inside_before) force
  obtain rs where rs: "spanRects y h segs = Inr rs"
    "\<And>x z. covers rs (x, z) = (if inside segs x \<and> y \<le> z \<and> z < y + h then 1 else 0)"
    "\<And>r. r \<in> set rs \<Longrightarrow> rect_y r = y \<and> rect_height r = h \<and> near (rect_x r) \<and> near (rect_x r + rect_width r) \<and> 0 < rect_width r"
    using "1.IH"[of "b - a"] ok by auto
  let ?r = "IntRect a y (b - a) h"
  have "spanRects y h (a # b # segs) = Inr (?r # rs)" using ok rs(1) by simp
  moreover have "covers (?r # rs) (x, z) = (if inside (a # b # segs) x \<and> y \<le> z \<and> z < y + h then 1 else 0)" for x z
    using rs(2)[of x z] out[of x] ok(2) by (cases "x < b") (auto simp: mem_rectPoints IntRect_def)
  ultimately show ?case
    using ok rs(3) by (intro exI[of _ "?r # rs"]) (auto simp: IntRect_def)
qed (auto simp: segsOK_def)

lemma rectsLoop_cover:
  assumes "ordered q" "linkedRows c q"
  shows "\<exists>rs. rectsLoop (shapeOf (p @ q)) (spansFrom (length (rowSegments p)) q) = Inr rs \<and>
    (\<forall>x z. covers rs (x, z) = (if inside (segmentsAt [] q z) x then 1 else 0)) \<and>
    (\<forall>r \<in> set rs. rectNear r \<and> \<not> IntRect_isEmpty r \<and> (q \<noteq> [] \<longrightarrow> fst (hd q) \<le> rect_y r))"
  using assms
proof (induction q arbitrary: p c)
  case (Cons r q)
  show ?case
  proof (cases q)
    case Nil
    with Cons.prems show ?thesis by auto
  next
    case (Cons r' q')
    let ?i = "length (rowSegments p)" and ?j = "length (rowSegments (p @ [r]))" and ?S = "shapeOf (p @ r # q)"
    have ok: "segsOK (snd r)" "near (fst r)" "near (fst r')" "fst r < fst r'" "linkedRows (snd r) q" "ordered q"
      using Cons.prems Cons by (auto simp: ordered_Cons)
    obtain rs where rs: "rectsLoop ?S (spansFrom ?j q) = Inr rs"
      "\<And>x z. covers rs (x, z) = (if inside (segmentsAt [] q z) x then 1 else 0)"
      "\<And>s. s \<in> set rs \<Longrightarrow> rectNear s \<and> \<not> IntRect_isEmpty s \<and> fst r' \<le> rect_y s"
      using Cons.IH[OF ok(6,5), of "p @ [r]"] Cons by auto
    obtain ss where ss: "spanRects (fst r) (fst r' - fst r) (snd r) = Inr ss"
      "\<And>x z. covers ss (x, z) = (if inside (snd r) x \<and> fst r \<le> z \<and> z < fst r' then 1 else 0)"
      "\<And>s. s \<in> set ss \<Longrightarrow> rect_y s = fst r \<and> rect_height s = fst r' - fst r \<and> near (rect_x s) \<and> near (rect_x s + rect_width s) \<and> 0 < rect_width s"
      using spanRects_cover[OF ok(1), of "fst r" "fst r' - fst r"] by auto
    have sp: "spansFrom ?i (r # q) = \<lparr>span_y = fst r, span_segmentIndex = ?i\<rparr> # spansFrom ?j q"
      "spansFrom ?j q = \<lparr>span_y = fst r', span_segmentIndex = ?j\<rparr> # spansFrom (?j + length (snd r')) q'"
      using Cons by simp_all
    have loop: "rectsLoop ?S (spansFrom ?i (r # q)) = Inr (ss @ rs)"
      using segmentsOf_suffix[OF ok(5), of p] rs(1) ss(1) ok(2,3) by (simp only: sp rectsLoop.simps span.simps near_diff thenS_simps)
    have "covers (ss @ rs) (x, z) = (if inside (segmentsAt [] (r # q) z) x then 1 else 0)" for x z
      using ok(4) by (simp add: rs(2) ss(2) Cons)
    moreover have "rectNear s \<and> \<not> IntRect_isEmpty s \<and> fst r \<le> rect_y s" if "s \<in> set (ss @ rs)" for s
      using that rs(3)[of s] ss(3)[of s] ok by (auto simp: rectNear_def IntRect_isEmpty_def)
    ultimately show ?thesis using loop by (intro exI[of _ "ss @ rs"]) simp
  qed
qed simp

end
