(* ===== verification/WK_Region_Correct.thy ===== *)
theory WK_Region_Correct
  imports WK_Region_Bounds
begin

section \<open>Regions as sets of points\<close>

text \<open>
  The contract of the region class. The locale \<open>point_sets\<close> is what a client may rely on: the
  operations compute union and intersection of sets of points, and equal sets have equal
  representations. In it containment, which the code tests by comparing the intersection with
  the argument, is inclusion of sets, and a list of regions united one by one is their union.
  The interpretation on the model of the code discharges the laws for regions with
  \<open>regionOK\<close>, the invariant that every operation keeps.
\<close>

locale point_sets =
  fixes points :: "'r \<Rightarrow> point set"
    and ok :: "'r \<Rightarrow> bool"
    and empty :: 'r
    and unite :: "'r \<Rightarrow> 'r \<Rightarrow> 'r checked"
    and intersect :: "'r \<Rightarrow> 'r \<Rightarrow> 'r checked"
  assumes empty: "ok empty" "points empty = {}"
    and unite: "ok a \<Longrightarrow> ok b \<Longrightarrow> \<exists>c. unite a b = Inr c \<and> ok c \<and> points c = points a \<union> points b"
    and intersect: "ok a \<Longrightarrow> ok b \<Longrightarrow> \<exists>c. intersect a b = Inr c \<and> ok c \<and> points c = points a \<inter> points b"
    and canonical: "ok a \<Longrightarrow> ok b \<Longrightarrow> points a = points b \<Longrightarrow> a = b"
begin

lemma contains_by_intersection:
  assumes "ok a" "ok b"
  shows "thenS (intersect b a) (\<lambda>r. Inr (r = b)) = Inr (points b \<subseteq> points a)"
proof -
  obtain c where c: "intersect b a = Inr c" "ok c" "points c = points b \<inter> points a"
    using intersect[OF assms(2,1)] by blast
  have "c = b \<longleftrightarrow> points b \<subseteq> points a"
    using canonical[OF c(2) assms(2)] c(3) by auto
  with c(1) show ?thesis by simp
qed

lemma unite_all:
  assumes "ok a" "\<forall>b \<in> set bs. ok b"
  shows "\<exists>c. foldl (\<lambda>r b. thenS r (\<lambda>a. unite a b)) (Inr a) bs = Inr c \<and> ok c \<and>
    points c = points a \<union> (\<Union>b \<in> set bs. points b)"
  using assms
proof (induction bs arbitrary: a)
  case (Cons b bs)
  obtain d where "unite a b = Inr d" "ok d" "points d = points a \<union> points b"
    using unite[of a b] Cons.prems by auto
  with Cons.IH[of d] Cons.prems show ?case by (auto simp: Un_assoc)
qed simp

end

definition regionPoints :: "region \<Rightarrow> point set" where
  "regionPoints r = shapePoints (m_shape r)"

definition regionOK :: "region \<Rightarrow> bool" where
  "regionOK r \<longleftrightarrow> shapeOK (m_shape r) \<and> Shape_bounds (m_shape r) = Inr (m_bounds r)"

lemma Shape_bounds_default [simp]: "Shape_bounds Shape_default = Inr IntRect_default"
  by (simp add: Shape_bounds_def Shape_isEmpty_def Shape_default_def)

lemma rectNear_default [simp]: "rectNear IntRect_default"
  by (simp add: rectNear_def IntRect_default_def IntRect_def near_def)

lemma rectPoints_default [simp]: "rectPoints IntRect_default = {}"
  by (simp add: rectPoints_empty_iff rect_defs)

text \<open>The bounds of a well-formed region: empty, or tight around its points.\<close>

lemma regionOK_bounds:
  assumes "regionOK r"
  shows "rectNear (m_bounds r)" "regionPoints r \<noteq> {} \<Longrightarrow> tight (regionPoints r) (m_bounds r)"
    "regionPoints r = {} \<Longrightarrow> r = Region_default"
proof -
  obtain rs where rs: "m_shape r = shapeOf rs" "rowsOK rs" using assms by (auto simp: regionOK_def elim: shapeOK_E)
  have b: "Shape_bounds (shapeOf rs) = Inr (m_bounds r)" using assms rs by (simp add: regionOK_def)
  show "rectNear (m_bounds r)"
    using b rs(2) by (cases "rs = []") (auto simp: shapeOf_Nil elim: bounds_tight)
  show "tight (regionPoints r) (m_bounds r)" if "regionPoints r \<noteq> {}"
    using that b rs by (cases "rs = []") (auto simp: regionPoints_def elim: bounds_tight)
  show "r = Region_default" if "regionPoints r = {}"
  proof -
    have "rs = []" using that rs rowPoints_inject[OF rs(2) rowsOK_Nil] by (simp add: regionPoints_def)
    with b rs show ?thesis by (simp add: Region_default_def shapeOf_Nil)
  qed
qed

lemma region_from_shape:
  assumes "shapeOK s"
  obtains b where "Shape_bounds s = Inr b" "regionOK \<lparr>m_bounds = b, m_shape = s\<rparr>"
    "regionPoints \<lparr>m_bounds = b, m_shape = s\<rparr> = shapePoints s"
proof -
  obtain rs where rs: "s = shapeOf rs" "rowsOK rs" using assms by (rule shapeOK_E)
  obtain b where "Shape_bounds s = Inr b"
    using rs by (cases "rs = []") (auto simp: shapeOf_Nil elim: bounds_tight)
  with assms that show ?thesis by (simp add: regionOK_def regionPoints_def)
qed

lemma regionPoints_inject:
  assumes "regionOK a" "regionOK b" "regionPoints a = regionPoints b"
  shows "a = b"
proof -
  have "m_shape a = m_shape b"
    using assms by (auto simp: regionOK_def regionPoints_def intro: shapePoints_inject)
  with assms show ?thesis by (auto simp: regionOK_def)
qed

lemma regionOK_default [simp]: "regionOK Region_default" "regionPoints Region_default = {}"
  by (simp_all add: regionOK_def regionPoints_def Region_default_def)

lemma regionPoints_in_bounds: "regionOK r \<Longrightarrow> regionPoints r \<subseteq> rectPoints (m_bounds r)"
  using regionOK_bounds(2)[of r] by (auto simp: tight_def)

lemma regionOK_isEmpty: "regionOK r \<Longrightarrow> Region_isEmpty r \<longleftrightarrow> regionPoints r = {}"
  using regionPoints_in_bounds[of r] regionOK_bounds(3)[of r]
  by (auto simp: Region_isEmpty_def Region_default_def rectPoints_empty_iff[symmetric])

lemma regionOK_shape_isEmpty: "regionOK r \<Longrightarrow> Shape_isEmpty (m_shape r) \<longleftrightarrow> regionPoints r = {}"
  by (simp add: regionOK_def regionPoints_def shapePoints_empty_iff)

subsection \<open>The operations\<close>

lemma Region_rect_ok:
  assumes "rectNear rect" "\<not> IntRect_isEmpty rect"
  shows "\<exists>r. Region_rect rect = Inr r \<and> regionOK r \<and> regionPoints r = rectPoints rect"
proof -
  let ?x = "rect_x rect" and ?y = "rect_y rect"
  let ?mx = "rect_x rect + rect_width rect" and ?my = "rect_y rect + rect_height rect"
  let ?rs = "[(?y, [?x, ?mx]), (?my, [])]"
  have S: "Shape_rect rect = Inr (shapeOf ?rs)"
    using assms by (simp add: Shape_rect_def appendSpan_def appendSegment_def Shape_default_def shapeOf_def)
  have ok: "rowsOK ?rs"
    using assms by (simp add: rowsOK_def ordered_def segsOK_def rectNear_def IntRect_isEmpty_def)
  have "(x, y) \<in> rowPoints ?rs \<longleftrightarrow> (x, y) \<in> rectPoints rect" for x y
    using assms(2) by (simp add: mem_rowPoints mem_rectPoints IntRect_isEmpty_def) linarith
  then have pts: "rowPoints ?rs = rectPoints rect" by auto
  then have t: "tight (rowPoints ?rs) rect"
    using assms(2) by (simp add: tight_def rectPoints_empty_iff)
  obtain b where b: "Shape_bounds (shapeOf ?rs) = Inr b" "tight (rowPoints ?rs) b"
    using bounds_tight_ex[OF ok] by auto
  have "b = rect" using b(2) t by (rule tight_unique)
  with b(1) have "regionOK \<lparr>m_bounds = rect, m_shape = shapeOf ?rs\<rparr>"
    using ok by (simp only: regionOK_def region.simps shapeOK_shapeOf)
  moreover have "regionPoints \<lparr>m_bounds = rect, m_shape = shapeOf ?rs\<rparr> = rectPoints rect"
    using pts by (simp only: regionPoints_def region.simps shapePoints_shapeOf)
  ultimately show ?thesis using S by (simp only: Region_rect_def thenS_simps) blast
qed

lemma Region_unite_ok:
  assumes "regionOK a" "regionOK b"
  shows "\<exists>c. Region_unite a b = Inr c \<and> regionOK c \<and> regionPoints c = regionPoints a \<union> regionPoints b"
proof -
  obtain s where s: "unionShapes (m_shape a) (m_shape b) = Inr s" "shapeOK s"
    "shapePoints s = regionPoints a \<union> regionPoints b"
    using unionShapes_ok[of "m_shape a" "m_shape b"] assms by (auto simp: regionOK_def regionPoints_def)
  obtain q where q: "IntRect_unite (m_bounds a) (m_bounds b) = Inr q"
    "rectPoints (m_bounds a) \<union> rectPoints (m_bounds b) \<subseteq> rectPoints q"
    "\<And>p. rectPoints (m_bounds a) \<union> rectPoints (m_bounds b) \<subseteq> rectPoints p \<Longrightarrow> rectPoints q \<subseteq> rectPoints p"
    using unite_least[of "m_bounds a" "m_bounds b"] regionOK_bounds(1) assms by blast
  obtain c where c: "Shape_bounds s = Inr c" "regionOK \<lparr>m_bounds = c, m_shape = s\<rparr>"
    "regionPoints \<lparr>m_bounds = c, m_shape = s\<rparr> = shapePoints s"
    using s(2) by (rule region_from_shape)
  have "q = c"
  proof (cases "regionPoints a \<union> regionPoints b = {}")
    case True
    then have "a = Region_default" "b = Region_default" "\<lparr>m_bounds = c, m_shape = s\<rparr> = Region_default"
      using assms c(3) s(3) by (auto intro!: regionOK_bounds(3) c(2))
    with q(1) show ?thesis by (simp add: Region_default_def IntRect_unite_def rect_defs)
  next
    case False
    have "tight (shapePoints s) q"
      unfolding tight_def
    proof (intro conjI allI impI)
      show "shapePoints s \<subseteq> rectPoints q"
        using regionPoints_in_bounds assms q(2) unfolding s(3) by blast
      show "rectPoints q \<subseteq> rectPoints p" if p: "shapePoints s \<subseteq> rectPoints p" for p
      proof (rule q(3))
        have "rectPoints (m_bounds r) \<subseteq> rectPoints p" if "regionOK r" "regionPoints r \<subseteq> rectPoints p" for r
          using that regionOK_bounds(2,3)[OF that(1)] by (cases "regionPoints r = {}") (auto simp: tight_def Region_default_def)
        with assms p s(3) show "rectPoints (m_bounds a) \<union> rectPoints (m_bounds b) \<subseteq> rectPoints p" by simp
      qed
    qed (use False s(3) in simp)
    moreover have "tight (shapePoints s) c" using regionOK_bounds(2)[OF c(2)] c(3) False s(3) by simp
    ultimately show ?thesis by (rule tight_unique)
  qed
  with s q(1) c show ?thesis by (auto simp: Region_unite_def)
qed

lemma Region_intersect_ok:
  assumes "regionOK a" "regionOK b"
  shows "\<exists>c. Region_intersect a b = Inr c \<and> regionOK c \<and> regionPoints c = regionPoints a \<inter> regionPoints b"
proof -
  have meet: "IntRect_intersects (m_bounds a) (m_bounds b) = Inr (rectPoints (m_bounds a) \<inter> rectPoints (m_bounds b) \<noteq> {})"
    using assms regionOK_bounds(1) by (blast intro: intersects_iff)
  show ?thesis
  proof (cases "rectPoints (m_bounds a) \<inter> rectPoints (m_bounds b) = {}")
    case True
    then have "regionPoints a \<inter> regionPoints b = {}"
      using regionPoints_in_bounds assms by blast
    with True meet show ?thesis
      using regionOK_default by (auto simp: Region_intersect_def Region_default_def)
  next
    case False
    then have "regionPoints b \<noteq> {}" using regionOK_bounds(3)[OF assms(2)] by (auto simp: Region_default_def)
    then have "\<not> Shape_isEmpty (m_shape b)" using assms(2) by (simp add: regionOK_shape_isEmpty)
    then obtain s where s: "intersectShapes (m_shape a) (m_shape b) = Inr s" "shapeOK s"
      "shapePoints s = regionPoints a \<inter> regionPoints b"
      using intersectShapes_ok[of "m_shape a" "m_shape b"] assms by (auto simp: regionOK_def regionPoints_def)
    from s(2) obtain c where "Shape_bounds s = Inr c" "regionOK \<lparr>m_bounds = c, m_shape = s\<rparr>"
      "regionPoints \<lparr>m_bounds = c, m_shape = s\<rparr> = shapePoints s" by (rule region_from_shape)
    with False meet s show ?thesis by (simp add: Region_intersect_def)
  qed
qed

lemma Region_subtract_ok:
  assumes "regionOK a" "regionOK b" "regionPoints b \<noteq> {}"
  shows "\<exists>c. Region_subtract a b = Inr c \<and> regionOK c \<and> regionPoints c = regionPoints a - regionPoints b"
proof -
  have "\<not> Shape_isEmpty (m_shape b)" using assms by (simp add: regionOK_shape_isEmpty)
  then obtain s where s: "subtractShapes (m_shape a) (m_shape b) = Inr s" "shapeOK s"
    "shapePoints s = regionPoints a - regionPoints b"
    using subtractShapes_ok[of "m_shape a" "m_shape b"] assms by (auto simp: regionOK_def regionPoints_def)
  from s(2) obtain c where "Shape_bounds s = Inr c" "regionOK \<lparr>m_bounds = c, m_shape = s\<rparr>"
    "regionPoints \<lparr>m_bounds = c, m_shape = s\<rparr> = shapePoints s" by (rule region_from_shape)
  with s show ?thesis by (simp add: Region_subtract_def)
qed

interpretation reg: point_sets regionPoints regionOK Region_default Region_unite Region_intersect
  by unfold_locales (simp_all add: Region_unite_ok Region_intersect_ok regionPoints_inject)

lemma tight_move:
  assumes t: "tight P b"
    and c: "c = b\<lparr>rect_x := rect_x b + dx, rect_y := rect_y b + dy\<rparr>"
    and Q: "Q = (\<lambda>(x, y). (x + dx, y + dy)) ` P"
  shows "tight Q c"
proof -
  have "Q \<noteq> {}" "Q \<subseteq> rectPoints c"
    using t unfolding tight_def Q c by (auto simp: mem_rectPoints subset_eq)
  moreover have "rectPoints c \<subseteq> rectPoints d" if "Q \<subseteq> rectPoints d" for d
  proof -
    have "P \<subseteq> rectPoints (d\<lparr>rect_x := rect_x d - dx, rect_y := rect_y d - dy\<rparr>)"
      using that unfolding Q by (auto simp: mem_rectPoints subset_eq)
    then have "rectPoints b \<subseteq> rectPoints (d\<lparr>rect_x := rect_x d - dx, rect_y := rect_y d - dy\<rparr>)"
      using t by (simp add: tight_def)
    moreover have "\<not> IntRect_isEmpty b"
      using t by (auto simp: tight_def simp flip: rectPoints_empty_iff)
    ultimately show ?thesis unfolding c by (auto simp: rectPoints_subset_iff IntRect_isEmpty_def)
  qed
  ultimately show ?thesis by (simp add: tight_def)
qed

text \<open>Moving a region moves its points, as long as the moved bounds stay in range.\<close>

lemma Region_translate_ok:
  assumes r: "regionOK r" and near: "IntRect_move dx dy (m_bounds r) = Inr b" "rectNear b"
  shows "\<exists>c. Region_translate dx dy r = Inr c \<and> regionPoints c = (\<lambda>(x, y). (x + dx, y + dy)) ` regionPoints r \<and>
    (regionPoints r \<noteq> {} \<longrightarrow> regionOK c)"
proof (cases "regionPoints r = {}")
  case True
  then have "r = Region_default" using r by (rule regionOK_bounds(3)[rotated])
  with near(1) show ?thesis
    by (auto simp: Region_translate_def Region_default_def Shape_translate_def Shape_default_def regionPoints_def shapePoints_def rowsOf_def)
next
  case False
  obtain rs where rs: "m_shape r = shapeOf rs" "rowsOK rs" using r by (auto simp: regionOK_def elim: shapeOK_E)
  have "rs \<noteq> []" using False rs by (auto simp: regionPoints_def)
  obtain m where m: "Shape_bounds (shapeOf rs) = Inr m"
    "\<And>x. x \<in> set (rowSegments rs) \<Longrightarrow> rect_x m \<le> x \<and> x \<le> rect_x m + rect_width m"
    "\<And>q. q \<in> set rs \<Longrightarrow> rect_y m \<le> fst q \<and> fst q \<le> rect_y m + rect_height m"
    using bounds_tight[OF rs(2) \<open>rs \<noteq> []\<close>] by metis
  then have "m = m_bounds r" using r rs by (simp add: regionOK_def)
  have b: "b = (m_bounds r)\<lparr>rect_x := rect_x (m_bounds r) + dx, rect_y := rect_y (m_bounds r) + dy\<rparr>"
    using near(1) by (auto simp: IntRect_move_def thenS_Inr_iff checked_def split: if_splits)
  have moved: "near (x + dx)" if "x \<in> set (rowSegments rs)" for x
    using m(2)[OF that] near(2) b \<open>m = m_bounds r\<close> by (auto simp: rectNear_def near_def)
  have movedy: "near (fst q + dy)" if "q \<in> set rs" for q
    using m(3)[OF that] near(2) b \<open>m = m_bounds r\<close> by (auto simp: rectNear_def near_def)
  let ?s = "shapeOf (moveRows dx dy rs)"
  have T: "Region_translate dx dy r = Inr \<lparr>m_bounds = b, m_shape = ?s\<rparr>"
    using translate_rows[of rs dx dy] moved movedy rs(1) near(1) by (simp add: Region_translate_def)
  have P: "rowPoints (moveRows dx dy rs) = (\<lambda>(x, y). (x + dx, y + dy)) ` rowPoints rs"
    by (force simp: rowPoints_moveRows image_iff)
  have ok: "shapeOK ?s" using rowsOK_moveRows[OF rs(2)] moved movedy by simp
  have "tight (rowPoints rs) (m_bounds r)"
    using regionOK_bounds(2)[OF r False] rs(1) by (simp add: regionPoints_def)
  then have "tight (rowPoints (moveRows dx dy rs)) b"
    by (rule tight_move[OF _ b P])
  moreover obtain b' where "Shape_bounds ?s = Inr b'" "tight (rowPoints (moveRows dx dy rs)) b'"
    using bounds_tight_ex[of "moveRows dx dy rs"] rowsOK_moveRows[OF rs(2)] moved movedy \<open>rs \<noteq> []\<close>
    by (auto simp: moveRows_def)
  ultimately have "Shape_bounds ?s = Inr b" using tight_unique by blast
  with T P ok rs show ?thesis by (simp add: regionOK_def regionPoints_def)
qed

lemma rects_ok:
  assumes "regionOK r"
  shows "\<exists>rs. rects r = Inr rs \<and> (\<forall>p. covers rs p = (if p \<in> regionPoints r then 1 else 0)) \<and>
    (\<forall>q \<in> set rs. rectNear q \<and> \<not> IntRect_isEmpty q)"
proof -
  obtain qs where q: "m_shape r = shapeOf qs" "rowsOK qs" using assms by (auto simp: regionOK_def elim: shapeOK_E)
  from rectsLoop_cover[of qs "[]" "[]"] q show ?thesis
    by (auto simp: rects_def spans_begin_def rowsOK_def shapeOf_def regionPoints_def shapePoints_def
        rowsOf_shapeOf[unfolded shapeOf_def] mem_rowPoints)
qed

lemma covers_pos_iff: "0 < covers rs p \<longleftrightarrow> (\<exists>r \<in> set rs. p \<in> rectPoints r)"
  by (auto simp: covers_def filter_empty_conv)

lemma covers_points:
  assumes "\<forall>p. covers rs p = (if p \<in> P then 1 else 0)"
  shows "(\<Union>r \<in> set rs. rectPoints r) = P"
proof (rule set_eqI)
  fix p
  have "p \<in> (\<Union>r \<in> set rs. rectPoints r) \<longleftrightarrow> 0 < covers rs p" by (simp add: covers_pos_iff)
  also have "\<dots> \<longleftrightarrow> p \<in> P" using spec[OF assms, of p] by simp
  finally show "p \<in> (\<Union>r \<in> set rs. rectPoints r) \<longleftrightarrow> p \<in> P" .
qed

lemma regions_of_rects:
  assumes "\<forall>q \<in> set rs. rectNear q \<and> \<not> IntRect_isEmpty q"
  obtains bs where "map Region_rect rs = map Inr bs" "\<forall>b \<in> set bs. regionOK b" "map regionPoints bs = map rectPoints rs"
  using assms
proof (induction rs arbitrary: thesis)
  case (Cons q rs)
  obtain bs where "map Region_rect rs = map Inr bs" "\<forall>b \<in> set bs. regionOK b" "map regionPoints bs = map rectPoints rs"
    using Cons.IH Cons.prems(2) by auto
  moreover obtain b where "Region_rect q = Inr b" "regionOK b" "regionPoints b = rectPoints q"
    using Region_rect_ok[of q] Cons.prems(2) by auto
  ultimately show ?case using Cons.prems(1)[of "b # bs"] by simp
qed simp

subsection \<open>Properties\<close>

text \<open>
  C6. On well-formed regions, whose coordinates are below \<open>2 ^ 30\<close> in absolute value, \<^verbatim>\<open>unite\<close>,
  \<^verbatim>\<open>intersect\<close> and, for an argument that is not empty, \<^verbatim>\<open>subtract\<close> return without overflow and
  without reading outside the two vectors; the result is well-formed and stands for the union,
  the intersection and the difference of the two sets of points.
\<close>

theorem region_operations:
  assumes "regionOK a" "regionOK b"
  shows "(\<exists>u. Region_unite a b = Inr u \<and> regionOK u \<and> regionPoints u = regionPoints a \<union> regionPoints b) \<and>
    (\<exists>i. Region_intersect a b = Inr i \<and> regionOK i \<and> regionPoints i = regionPoints a \<inter> regionPoints b) \<and>
    (regionPoints b \<noteq> {} \<longrightarrow>
      (\<exists>d. Region_subtract a b = Inr d \<and> regionOK d \<and> regionPoints d = regionPoints a - regionPoints b))"
  using Region_unite_ok[OF assms] Region_intersect_ok[OF assms] Region_subtract_ok[OF assms] by blast

definition sampleRegion :: "int \<Rightarrow> int \<Rightarrow> int \<Rightarrow> int \<Rightarrow> region" where
  "sampleRegion x y w h =
     \<lparr>m_bounds = IntRect x y w h,
      m_shape = \<lparr>m_segments = [x, x + w],
                 m_spans = [\<lparr>span_y = y, span_segmentIndex = 0\<rparr>, \<lparr>span_y = y + h, span_segmentIndex = 2\<rparr>]\<rparr>\<rparr>"

theorem region_operations_witness:
  "(\<exists>u. Region_unite (sampleRegion 0 0 10 10) (sampleRegion 5 5 10 10) = Inr u \<and> regionOK u \<and>
      regionPoints u = regionPoints (sampleRegion 0 0 10 10) \<union> regionPoints (sampleRegion 5 5 10 10))"
proof -
  have "regionOK (sampleRegion 0 0 10 10)" "regionOK (sampleRegion 5 5 10 10)" by code_simp+
  from region_operations[OF this] show ?thesis by blast
qed

text \<open>
  C17. The representation is canonical: two well-formed regions are equal, field by field, exactly
  when they hold the same points. So \<^verbatim>\<open>contains\<close>, which compares the intersection with its
  argument, decides inclusion, and on a point membership.
\<close>

theorem region_contains_iff:
  assumes "regionOK a" "regionOK b" "near x" "near y" "near (x + 1)" "near (y + 1)"
  shows "(a = b \<longleftrightarrow> regionPoints a = regionPoints b) \<and>
    Region_contains a b = Inr (regionPoints b \<subseteq> regionPoints a) \<and>
    Region_containsPoint a x y = Inr ((x, y) \<in> regionPoints a)"
proof (intro conjI)
  have contains: "Region_contains a c = Inr (regionPoints c \<subseteq> regionPoints a)" if "regionOK c" for c
    unfolding Region_contains_def by (rule reg.contains_by_intersection[OF assms(1) that])
  then show "Region_contains a b = Inr (regionPoints b \<subseteq> regionPoints a)" using assms(2) .
  have "rectNear (IntRect x y 1 1)" "\<not> IntRect_isEmpty (IntRect x y 1 1)"
    using assms by (simp_all add: rectNear_def rect_defs)
  then obtain c where c: "Region_rect (IntRect x y 1 1) = Inr c" "regionOK c" "regionPoints c = rectPoints (IntRect x y 1 1)"
    using Region_rect_ok by blast
  moreover have "rectPoints (IntRect x y 1 1) = {(x, y)}" by (auto simp: mem_rectPoints IntRect_def)
  ultimately show "Region_containsPoint a x y = Inr ((x, y) \<in> regionPoints a)"
    using contains[OF c(2)] by (simp add: Region_containsPoint_def)
qed (use reg.canonical[OF assms(1,2)] in auto)

theorem region_contains_iff_witness:
  "Region_containsPoint (sampleRegion 0 0 10 10) 3 4 = Inr ((3, 4) \<in> regionPoints (sampleRegion 0 0 10 10))"
proof -
  have "regionOK (sampleRegion 0 0 10 10)" "near 3" "near 4" "near (3 + 1)" "near (4 + 1)" by code_simp+
  from region_contains_iff[OF this(1,1,2-5)] show ?thesis by simp
qed

text \<open>
  C20. The rectangles of a well-formed region are well-formed, cover each of its points exactly once and
  no other point, and uniting them one by one with the empty region gives the region back.
\<close>

theorem region_rects_roundtrip:
  assumes "regionOK r"
  shows "\<exists>rs bs. rects r = Inr rs \<and> (\<forall>p. covers rs p = (if p \<in> regionPoints r then 1 else 0)) \<and>
    map Region_rect rs = map Inr bs \<and>
    foldl (\<lambda>s b. thenS s (\<lambda>a. Region_unite a b)) (Inr Region_default) bs = Inr r"
proof -
  obtain rs where rs: "rects r = Inr rs" "\<forall>p. covers rs p = (if p \<in> regionPoints r then 1 else 0)"
    "\<forall>q \<in> set rs. rectNear q \<and> \<not> IntRect_isEmpty q" using rects_ok[OF assms] by blast
  obtain bs where bs: "map Region_rect rs = map Inr bs" "\<forall>b \<in> set bs. regionOK b" "map regionPoints bs = map rectPoints rs"
    using regions_of_rects[OF rs(3)] by blast
  obtain c where c: "foldl (\<lambda>s b. thenS s (\<lambda>a. Region_unite a b)) (Inr Region_default) bs = Inr c" "regionOK c"
    "regionPoints c = (\<Union>b \<in> set bs. regionPoints b)"
    using reg.unite_all[OF reg.empty(1) bs(2)] by auto
  have "(\<Union>b \<in> set bs. regionPoints b) = (\<Union>q \<in> set rs. rectPoints q)"
    using arg_cong[OF bs(3), of set] by (simp flip: image_set)
  with covers_points[OF rs(2)] c(3) have "c = r" using reg.canonical[OF c(2) assms] by simp
  with rs bs c(1) show ?thesis by blast
qed

theorem region_rects_roundtrip_witness:
  "\<exists>rs bs. rects (sampleRegion 2 3 10 20) = Inr rs \<and>
    (\<forall>p. covers rs p = (if p \<in> regionPoints (sampleRegion 2 3 10 20) then 1 else 0)) \<and>
    map Region_rect rs = map Inr bs \<and>
    foldl (\<lambda>s b. thenS s (\<lambda>a. Region_unite a b)) (Inr Region_default) bs = Inr (sampleRegion 2 3 10 20)"
proof -
  have "regionOK (sampleRegion 2 3 10 20)" by code_simp
  from region_rects_roundtrip[OF this] show ?thesis .
qed

text \<open>
  Subtracting the empty region from any region gives the empty region: the shortcut for an
  empty argument returns the empty shape where it should return the first one.
\<close>

lemma subtract_empty_region: "Region_subtract r Region_default = Inr Region_default"
  by (simp add: Region_subtract_def subtractShapes_def shapeOperation_def Region_default_def
      Shape_isEmpty_def) (simp add: Shape_default_def)

text \<open>
  The region of an empty rectangle keeps two spans and two equal segments. It holds no point, but
  \<^verbatim>\<open>contains\<close> does not find it in any other region.
\<close>

lemma empty_rect_region:
  "Region_rect (IntRect 5 5 0 0) = Inr (sampleRegion 5 5 0 0) \<and> regionPoints (sampleRegion 5 5 0 0) = {} \<and>
   \<not> regionOK (sampleRegion 5 5 0 0) \<and>
   Region_contains (sampleRegion 0 0 10 10) (sampleRegion 5 5 0 0) = Inr False"
proof (intro conjI)
  show "Region_rect (IntRect 5 5 0 0) = Inr (sampleRegion 5 5 0 0)" by code_simp
  show "regionPoints (sampleRegion 5 5 0 0) = {}"
    by (auto simp: regionPoints_def shapePoints_def rowPoints_def rowsOf_def sampleRegion_def split: if_splits)
  show "\<not> regionOK (sampleRegion 5 5 0 0)" by code_simp
  show "Region_contains (sampleRegion 0 0 10 10) (sampleRegion 5 5 0 0) = Inr False" by code_simp
qed

text \<open>The order of two coordinates is read off the sign of their difference, which overflows when they are far apart.\<close>

lemma region_far_apart:
  "Region_unite (sampleRegion 0 2000000000 1 1) (sampleRegion 0 (- 2000000000) 1 1) = Inl SignedOverflow"
  by code_simp

end
