(* ===== verification/DA_WebProcess.thy ===== *)
theory DA_WebProcess
  imports WK_Region
begin

section \<open>Painting in the web process\<close>

text \<open>
  The drawing area of the web process (\<^verbatim>\<open>DrawingAreaImpl\<close>): it collects what has to be painted again
  in a dirty region and a pending scroll, and sends the UI process an update of that much when
  the display timer fires and the previous update has been acknowledged.

  The model is that of the GTK port, where \<^verbatim>\<open>LayerTreeHost::create\<close> returns null: the branches for
  accelerated compositing are left out. The page is its size and its content, a function from
  points to pixels of some type. What layout and scripts do is a list of calls that change the
  content and then tell the drawing area. The device scale factor is one. The pixels of a page are
  opaque, as those of a view that paints its background are; a bitmap also has transparent pixels
  (\<open>None\<close>), those that nothing was painted on. The identifiers of
  backing store states are counters of 64 bits in the code and natural numbers here.
\<close>

type_synonym intSize = "int \<times> int"
type_synonym 'c pixels = "point \<Rightarrow> 'c"
type_synonym 'c bitmap = "'c option pixels"

record 'c updateInfo =
  viewSize :: intSize
  info_scrollRect :: intRect
  info_scrollOffset :: intSize
  updateRectBounds :: intRect
  updateRects :: "intRect list"
  bitmapHandle :: "'c bitmap option"

definition UpdateInfo :: "'c updateInfo" where
  "UpdateInfo = \<lparr>viewSize = (0, 0), info_scrollRect = IntRect_default, info_scrollOffset = (0, 0),
     updateRectBounds = IntRect_default, updateRects = [], bitmapHandle = None\<rparr>"

datatype 'c uiMessage =
    Update nat "'c updateInfo"
  | DidUpdateBackingStoreState nat "'c updateInfo"

datatype webMessage =
    UpdateBackingStoreState nat bool intSize intSize
  | DidUpdate
  | SuspendPainting
  | ResumePainting

record 'c webProcess =
  m_backingStoreStateID :: nat
  m_dirtyRegion :: region
  m_scrollRect :: intRect
  m_scrollOffset :: intSize
  m_isPaintingEnabled :: bool
  m_inUpdateBackingStoreState :: bool
  m_shouldSendDidUpdateBackingStoreState :: bool
  m_isWaitingForDidUpdate :: bool
  m_isPaintingSuspended :: bool
  m_displayTimer :: bool
  page_size :: intSize
  page_content :: "'c pixels"
  page_customRepresentation :: bool
  web_sent :: "'c uiMessage list"

definition page_bounds :: "'c webProcess \<Rightarrow> intRect" where
  "page_bounds w = IntRect 0 0 (fst (page_size w)) (snd (page_size w))"

definition sendToUI :: "'c uiMessage \<Rightarrow> 'c webProcess \<Rightarrow> 'c webProcess" where
  "sendToUI msg w = w\<lparr>web_sent := web_sent w @ [msg]\<rparr>"

definition newDrawingArea :: "intSize \<Rightarrow> 'c pixels \<Rightarrow> bool \<Rightarrow> 'c webProcess" where
  "newDrawingArea sz content isVisible = \<lparr>m_backingStoreStateID = 0, m_dirtyRegion = Region_default,
     m_scrollRect = IntRect_default, m_scrollOffset = (0, 0), m_isPaintingEnabled = True,
     m_inUpdateBackingStoreState = False, m_shouldSendDidUpdateBackingStoreState = False,
     m_isWaitingForDidUpdate = False, m_isPaintingSuspended = (\<not> isVisible), m_displayTimer = False,
     page_size = sz, page_content = content, page_customRepresentation = False, web_sent = []\<rparr>"

subsection \<open>Invalidation and scrolling\<close>

definition scheduleDisplay :: "'c webProcess \<Rightarrow> 'c webProcess" where
  "scheduleDisplay w =
     (if m_isWaitingForDidUpdate w then w
      else if m_isPaintingSuspended w then w
      else if Region_isEmpty (m_dirtyRegion w) then w
      else if m_displayTimer w then w
      else w\<lparr>m_displayTimer := True\<rparr>)"

definition setNeedsDisplay :: "intRect \<Rightarrow> 'c webProcess \<Rightarrow> 'c webProcess checked" where
  "setNeedsDisplay rect w =
     (if \<not> m_isPaintingEnabled w then Inr w
      else thenS (IntRect_intersect rect (page_bounds w)) (\<lambda>dirtyRect.
        if IntRect_isEmpty dirtyRect then Inr w
        else if page_customRepresentation w then Inr w
        else thenS (Region_rect dirtyRect) (\<lambda>r.
             thenS (Region_unite (m_dirtyRegion w) r) (\<lambda>d.
               Inr (scheduleDisplay (w\<lparr>m_dirtyRegion := d\<rparr>))))))"

definition rectArea :: "intRect \<Rightarrow> int checked" where
  "rectArea r = thenS (checked (rect_width r * rect_height r)) (\<lambda>n. Inr (n mod 4294967296))"

text \<open>
  A scroll of another rectangle than the pending one: the smaller of both is invalidated. The
  flag says that \<^verbatim>\<open>scroll\<close> returns.
\<close>

definition replaceScroll :: "intRect \<Rightarrow> 'c webProcess \<Rightarrow> ('c webProcess \<times> bool) checked" where
  "replaceScroll scrollRect w =
     (if \<not> IntRect_isEmpty (m_scrollRect w) \<and> scrollRect \<noteq> m_scrollRect w then
        thenS (rectArea scrollRect) (\<lambda>scrollArea. thenS (rectArea (m_scrollRect w)) (\<lambda>currentScrollArea.
          if currentScrollArea \<ge> scrollArea then thenS (setNeedsDisplay scrollRect w) (\<lambda>w'. Inr (w', True))
          else thenS (setNeedsDisplay (m_scrollRect w) w) (\<lambda>w'.
            Inr (w'\<lparr>m_scrollRect := IntRect_default, m_scrollOffset := (0, 0)\<rparr>, False))))
      else Inr (w, False))"

definition moveDirtyRegion :: "region \<Rightarrow> int \<Rightarrow> int \<Rightarrow> region \<Rightarrow> region checked" where
  "moveDirtyRegion scrollRegion dx dy dirty =
     thenS (Region_intersect scrollRegion dirty) (\<lambda>dirtyRegionInScrollRect.
       if Region_isEmpty dirtyRegionInScrollRect then Inr dirty
       else thenS (Region_subtract dirty scrollRegion) (\<lambda>rest.
            thenS (Region_translate dx dy dirtyRegionInScrollRect) (\<lambda>t.
            thenS (Region_intersect t scrollRegion) (\<lambda>moved. Region_unite rest moved))))"

definition scrollRepaintRegion :: "region \<Rightarrow> int \<Rightarrow> int \<Rightarrow> region checked" where
  "scrollRepaintRegion scrollRegion dx dy = thenS (Region_translate dx dy scrollRegion) (Region_subtract scrollRegion)"

definition scrollDirtyRegion :: "intRect \<Rightarrow> int \<Rightarrow> int \<Rightarrow> region \<Rightarrow> region checked" where
  "scrollDirtyRegion scrollRect dx dy dirty =
     thenS (Region_rect scrollRect) (\<lambda>s.
     thenS (moveDirtyRegion s dx dy dirty) (\<lambda>d.
     thenS (scrollRepaintRegion s dx dy) (Region_unite d)))"

definition addSize :: "intSize \<Rightarrow> intSize \<Rightarrow> intSize checked" where
  "addSize a b = thenS (checked (fst a + fst b)) (\<lambda>x. thenS (checked (snd a + snd b)) (\<lambda>y. Inr (x, y)))"

definition scroll :: "intRect \<Rightarrow> intSize \<Rightarrow> 'c webProcess \<Rightarrow> 'c webProcess checked" where
  "scroll scrollRect scrollOffset w =
     (if \<not> m_isPaintingEnabled w then Inr w
      else if page_customRepresentation w then Inr w
      else thenS (replaceScroll scrollRect w) (\<lambda>(w1, returns).
        if returns then Inr w1
        else thenS (scrollDirtyRegion scrollRect (fst scrollOffset) (snd scrollOffset) (m_dirtyRegion w1)) (\<lambda>d.
          let w2 = scheduleDisplay (w1\<lparr>m_dirtyRegion := d\<rparr>)
          in thenS (addSize (m_scrollOffset w2) scrollOffset) (\<lambda>offset.
               Inr (w2\<lparr>m_scrollRect := scrollRect, m_scrollOffset := offset\<rparr>)))))"

definition setPaintingEnabled :: "bool \<Rightarrow> 'c webProcess \<Rightarrow> 'c webProcess" where
  "setPaintingEnabled paintingEnabled w = w\<lparr>m_isPaintingEnabled := paintingEnabled\<rparr>"

subsection \<open>What the page does\<close>

text \<open>The page changes its content and calls the drawing area.\<close>

datatype 'c pageCall =
    Invalidate intRect "'c pixels"
  | Scroll intRect intSize "'c pixels"

fun runCall :: "'c pageCall \<Rightarrow> 'c webProcess \<Rightarrow> 'c webProcess checked" where
  "runCall (Invalidate rect content) w = setNeedsDisplay rect (w\<lparr>page_content := content\<rparr>)"
| "runCall (Scroll rect offset content) w = scroll rect offset (w\<lparr>page_content := content\<rparr>)"

fun runCalls :: "'c pageCall list \<Rightarrow> 'c webProcess \<Rightarrow> 'c webProcess checked" where
  "runCalls [] w = Inr w"
| "runCalls (c # cs) w = thenS (runCall c w) (runCalls cs)"

text \<open>
  Resizing the page: the area to paint is clipped to the old size, which is replaced only afterwards.
\<close>

definition page_setSize :: "intSize \<Rightarrow> 'c pixels \<Rightarrow> 'c webProcess \<Rightarrow> 'c webProcess checked" where
  "page_setSize sz content w =
     (if page_size w = sz then Inr w
      else thenS (setNeedsDisplay (IntRect 0 0 (fst sz) (snd sz)) (w\<lparr>page_content := content\<rparr>)) (\<lambda>w'.
             Inr (w'\<lparr>page_size := sz\<rparr>)))"

subsection \<open>Display\<close>

fun areaSum :: "intRect list \<Rightarrow> int \<Rightarrow> int checked" where
  "areaSum [] n = Inr n"
| "areaSum (r # rs) n =
     thenS (checked (rect_width r * rect_height r)) (\<lambda>a. areaSum rs ((n + a) mod 4294967296))"

text \<open>
  At most three quarters of the bounds may be wasted. The quotient of the areas is compared as a
  floating-point number in the code; for 32-bit areas rounding does not change the comparison, and
  a quotient by zero is infinite or no number.
\<close>

definition shouldPaintBoundsRect :: "intRect \<Rightarrow> intRect list \<Rightarrow> bool checked" where
  "shouldPaintBoundsRect bounds rs =
     (if length rs \<le> 1 \<or> length rs > 10 then Inr True
      else thenS (rectArea bounds) (\<lambda>boundsArea. thenS (areaSum rs 0) (\<lambda>rectsArea.
        Inr (if boundsArea = 0 then rectsArea \<noteq> 0 else boundsArea \<le> 4 * rectsArea))))"

definition rectHas :: "intRect \<Rightarrow> point \<Rightarrow> bool" where
  "rectHas r p \<longleftrightarrow> rect_x r \<le> fst p \<and> fst p < rect_x r + rect_width r \<and>
     rect_y r \<le> snd p \<and> snd p < rect_y r + rect_height r"

text \<open>The bitmap after the page has drawn some rectangles into it, moved by the location of the bounds.\<close>

definition drawRects :: "'c pixels \<Rightarrow> intRect \<Rightarrow> intRect list \<Rightarrow> 'c bitmap" where
  "drawRects content bounds rs = (\<lambda>(x, y).
     let p = (x + rect_x bounds, y + rect_y bounds)
     in if list_ex (\<lambda>r. rectHas r p) rs then Some (content p) else None)"

text \<open>
  What display and the messages of the UI process run into: whether the bitmap and its handle can
  be created, and the calls that layout makes.
\<close>

record 'c reaction =
  r_bitmap :: bool
  r_layout :: "'c pageCall list"

definition display_info :: "'c reaction \<Rightarrow> 'c webProcess \<Rightarrow> ('c updateInfo \<times> 'c webProcess) checked" where
  "display_info env w =
     (if page_customRepresentation w then Inr (UpdateInfo, w\<lparr>m_dirtyRegion := Region_default\<rparr>)
      else thenS (runCalls (r_layout env) w) (\<lambda>w1.
        let info = UpdateInfo\<lparr>viewSize := page_size w1\<rparr>; bounds = m_bounds (m_dirtyRegion w1)
        in if \<not> r_bitmap env then Inr (info, w1)
           else thenS (rects (m_dirtyRegion w1)) (\<lambda>rs0.
                thenS (shouldPaintBoundsRect bounds rs0) (\<lambda>whole.
                  let rs = (if whole then [bounds] else rs0)
                  in Inr (info\<lparr>info_scrollRect := m_scrollRect w1, info_scrollOffset := m_scrollOffset w1,
                            updateRectBounds := bounds, updateRects := rs,
                            bitmapHandle := Some (drawRects (page_content w1) bounds rs)\<rparr>,
                          w1\<lparr>m_dirtyRegion := Region_default, m_scrollRect := IntRect_default,
                             m_scrollOffset := (0, 0), m_displayTimer := False\<rparr>)))))"

definition sendDidUpdateBackingStoreState :: "'c reaction \<Rightarrow> 'c webProcess \<Rightarrow> 'c webProcess checked" where
  "sendDidUpdateBackingStoreState env w =
     (let w1 = w\<lparr>m_shouldSendDidUpdateBackingStoreState := False\<rparr>
      in thenS (if m_isPaintingSuspended w1 then Inr (UpdateInfo\<lparr>viewSize := page_size w1\<rparr>, w1)
                else display_info env w1) (\<lambda>(info, w2).
           Inr (sendToUI (DidUpdateBackingStoreState (m_backingStoreStateID w2) info) w2)))"

definition display :: "'c reaction \<Rightarrow> 'c webProcess \<Rightarrow> 'c webProcess checked" where
  "display env w =
     (if m_isPaintingSuspended w then Inr w
      else if Region_isEmpty (m_dirtyRegion w) then Inr w
      else if m_shouldSendDidUpdateBackingStoreState w then sendDidUpdateBackingStoreState env w
      else thenS (display_info env w) (\<lambda>(info, w1).
             Inr ((sendToUI (Update (m_backingStoreStateID w1) info) w1)\<lparr>m_isWaitingForDidUpdate := True\<rparr>)))"

text \<open>
  The timer is still active while its callback runs, and cleared after it unless it was started
  again, which nothing in \<^verbatim>\<open>display\<close> does.
\<close>

definition displayTimerFired :: "'c reaction \<Rightarrow> 'c webProcess \<Rightarrow> 'c webProcess checked" where
  "displayTimerFired env w = thenS (display env w) (\<lambda>w1. Inr (w1\<lparr>m_displayTimer := False\<rparr>))"

definition forceRepaint :: "'c pageCall list \<Rightarrow> 'c reaction \<Rightarrow> 'c webProcess \<Rightarrow> 'c webProcess checked" where
  "forceRepaint layout env w =
     thenS (setNeedsDisplay (page_bounds w) w) (\<lambda>w1.
     thenS (runCalls layout w1) (\<lambda>w2.
       display env (w2\<lparr>m_isWaitingForDidUpdate := False\<rparr>)))"

subsection \<open>Messages from the UI process\<close>

definition didUpdate :: "'c reaction \<Rightarrow> 'c webProcess \<Rightarrow> 'c webProcess checked" where
  "didUpdate env w = display env (w\<lparr>m_isWaitingForDidUpdate := False\<rparr>)"

definition suspendPainting :: "'c webProcess \<Rightarrow> 'c webProcess" where
  "suspendPainting w = w\<lparr>m_isPaintingSuspended := True, m_displayTimer := False\<rparr>"

definition resumePainting :: "'c webProcess \<Rightarrow> 'c webProcess checked" where
  "resumePainting w =
     (if \<not> m_isPaintingSuspended w then Inr w
      else let w1 = w\<lparr>m_isPaintingSuspended := False\<rparr> in setNeedsDisplay (page_bounds w1) w1)"

definition updatePage :: "nat \<Rightarrow> intSize \<Rightarrow> 'c pixels \<Rightarrow> 'c pageCall list \<Rightarrow> 'c webProcess \<Rightarrow> 'c webProcess checked" where
  "updatePage stateID sz content layout w =
     thenS (page_setSize sz content
              (w\<lparr>m_backingStoreStateID := stateID, m_shouldSendDidUpdateBackingStoreState := True\<rparr>)) (\<lambda>w1.
     thenS (runCalls layout w1) (\<lambda>w2.
     thenS (Region_rect (page_bounds w2)) (\<lambda>r. Inr (w2\<lparr>m_dirtyRegion := r\<rparr>))))"

definition updateBackingStoreState ::
  "nat \<Rightarrow> bool \<Rightarrow> intSize \<Rightarrow> 'c pixels \<Rightarrow> 'c pageCall list \<Rightarrow> 'c reaction \<Rightarrow> 'c webProcess \<Rightarrow> 'c webProcess checked" where
  "updateBackingStoreState stateID respondImmediately sz content layout env w =
     (let w0 = w\<lparr>m_inUpdateBackingStoreState := True\<rparr>
      in if stateID = m_backingStoreStateID w0 \<and> \<not> m_shouldSendDidUpdateBackingStoreState w0
         then Inr (w0\<lparr>m_inUpdateBackingStoreState := False\<rparr>)
         else thenS (if stateID \<noteq> m_backingStoreStateID w0 then updatePage stateID sz content layout w0 else Inr w0) (\<lambda>w1.
              let w2 = w1\<lparr>m_isWaitingForDidUpdate := False\<rparr>
              in thenS (if respondImmediately
                        then thenS (if m_isPaintingSuspended w2 then resumePainting w2 else Inr w2)
                               (sendDidUpdateBackingStoreState env)
                        else Inr w2) (\<lambda>w3.
                   Inr (w3\<lparr>m_inUpdateBackingStoreState := False\<rparr>))))"

end
