(* ===== verification/DA_UIProcess.thy ===== *)
theory DA_UIProcess
  imports DA_WebProcess
begin

section \<open>Painting in the UI process\<close>

text \<open>
  The counterpart of the drawing area in the UI process (\<^verbatim>\<open>DrawingAreaProxyImpl\<close>) and the backing store it
  keeps (\<^verbatim>\<open>BackingStore\<close>, and \<^verbatim>\<open>WidgetBackingStore\<close> on X11): an update scrolls the pixels of the store and
  paints rectangles of the bitmap over them with cairo's operator \<^verbatim>\<open>OVER\<close>, under which an opaque pixel
  replaces what is there and a transparent one leaves it. The copy of an area within a pixmap is a
  function of the X server and a parameter here, as are the pixels of a new pixmap. The flag \<open>mapped\<close> says whether
  the UI process can map the bitmap of an update into its memory. The model is that of a
  build without accelerated compositing, in which waiting for a message does nothing.
\<close>

record 'c graphics =
  g_fresh :: "'c pixels"
  g_copyArea :: "intSize \<Rightarrow> 'c pixels \<Rightarrow> int \<Rightarrow> int \<Rightarrow> int \<Rightarrow> int \<Rightarrow> int \<Rightarrow> int \<Rightarrow> 'c pixels"

record 'c backingStore =
  bs_size :: intSize
  bs_pixels :: "'c pixels"

definition WidgetBackingStore_scroll :: "'c graphics \<Rightarrow> intRect \<Rightarrow> intSize \<Rightarrow> 'c backingStore \<Rightarrow> 'c backingStore checked" where
  "WidgetBackingStore_scroll g scrollRect scrollOffset bs =
     thenS (IntRect_move (fst scrollOffset) (snd scrollOffset) scrollRect) (\<lambda>moved.
     thenS (IntRect_intersect moved scrollRect) (\<lambda>targetRect.
       if IntRect_isEmpty targetRect then Inr bs
       else thenS (checked (rect_x targetRect - fst scrollOffset)) (\<lambda>sx.
            thenS (checked (rect_y targetRect - snd scrollOffset)) (\<lambda>sy.
              Inr (bs\<lparr>bs_pixels := g_copyArea g (bs_size bs) (bs_pixels bs) sx sy
                       (rect_width targetRect) (rect_height targetRect) (rect_x targetRect) (rect_y targetRect)\<rparr>)))))"

definition BackingStore_scroll :: "'c graphics \<Rightarrow> intRect \<Rightarrow> intSize \<Rightarrow> 'c backingStore \<Rightarrow> 'c backingStore checked" where
  "BackingStore_scroll g scrollRect scrollOffset bs =
     (if scrollOffset = (0, 0) then Inr bs else WidgetBackingStore_scroll g scrollRect scrollOffset bs)"

text \<open>
  Painting a part of a bitmap: both rectangles have one size, so that the pattern is only moved,
  and the pixels of the destination are composed with it.
\<close>

definition over :: "'c option \<Rightarrow> 'c \<Rightarrow> 'c" where
  "over source dest = (case source of None \<Rightarrow> dest | Some c \<Rightarrow> c)"

definition drawSurfaceToContext :: "'c bitmap \<Rightarrow> intRect \<Rightarrow> intRect \<Rightarrow> 'c pixels \<Rightarrow> 'c pixels" where
  "drawSurfaceToContext surface destRect srcRect pix = (\<lambda>p.
     if rectHas destRect p
     then over (surface (fst p - rect_x destRect + rect_x srcRect, snd p - rect_y destRect + rect_y srcRect)) (pix p)
     else pix p)"

definition ShareableBitmap_paint :: "'c bitmap \<Rightarrow> int \<Rightarrow> int \<Rightarrow> intRect \<Rightarrow> 'c pixels \<Rightarrow> 'c pixels" where
  "ShareableBitmap_paint bitmap x y srcRect =
     drawSurfaceToContext bitmap (IntRect x y (rect_width srcRect) (rect_height srcRect)) srcRect"

fun paintRects :: "'c bitmap \<Rightarrow> intRect \<Rightarrow> intRect list \<Rightarrow> 'c backingStore \<Rightarrow> 'c backingStore checked" where
  "paintRects bitmap bounds [] bs = Inr bs"
| "paintRects bitmap bounds (updateRect # rs) bs =
     thenS (IntRect_move (- rect_x bounds) (- rect_y bounds) updateRect) (\<lambda>srcRect.
       paintRects bitmap bounds rs
         (bs\<lparr>bs_pixels := ShareableBitmap_paint bitmap (rect_x updateRect) (rect_y updateRect) srcRect (bs_pixels bs)\<rparr>))"

definition BackingStore_incorporateUpdate :: "'c graphics \<Rightarrow> bool \<Rightarrow> 'c updateInfo \<Rightarrow> 'c backingStore \<Rightarrow> 'c backingStore checked" where
  "BackingStore_incorporateUpdate g mapped info bs =
     (case bitmapHandle info of
        None \<Rightarrow> Inr bs
      | Some bitmap \<Rightarrow>
          if \<not> mapped then Inr bs
          else thenS (BackingStore_scroll g (info_scrollRect info) (info_scrollOffset info) bs)
                 (paintRects bitmap (updateRectBounds info) (updateRects info)))"

record 'c uiProcess =
  m_currentBackingStoreStateID :: nat
  m_nextBackingStoreStateID :: nat
  m_isWaitingForDidUpdateBackingStoreState :: bool
  m_hasReceivedFirstUpdate :: bool
  m_isBackingStoreDiscardable :: bool
  m_backingStore :: "'c backingStore option"
  m_discardBackingStoreTimer :: bool
  proxy_size :: intSize
  proxy_scrollOffset :: intSize
  proxy_isValid :: bool
  proxy_viewSize :: intSize
  ui_sent :: "webMessage list"

definition newDrawingAreaProxy :: "intSize \<Rightarrow> 'c uiProcess" where
  "newDrawingAreaProxy sz = \<lparr>m_currentBackingStoreStateID = 0, m_nextBackingStoreStateID = 0,
     m_isWaitingForDidUpdateBackingStoreState = False, m_hasReceivedFirstUpdate = False,
     m_isBackingStoreDiscardable = True, m_backingStore = None, m_discardBackingStoreTimer = False,
     proxy_size = sz, proxy_scrollOffset = (0, 0), proxy_isValid = True, proxy_viewSize = sz, ui_sent = []\<rparr>"

definition sendToWeb :: "webMessage \<Rightarrow> 'c uiProcess \<Rightarrow> 'c uiProcess" where
  "sendToWeb msg u = u\<lparr>ui_sent := ui_sent u @ [msg]\<rparr>"

definition sizeIsEmpty :: "intSize \<Rightarrow> bool" where
  "sizeIsEmpty sz \<longleftrightarrow> fst sz \<le> 0 \<or> snd sz \<le> 0"

definition sendUpdateBackingStoreState :: "bool \<Rightarrow> 'c uiProcess \<Rightarrow> 'c uiProcess" where
  "sendUpdateBackingStoreState respondImmediately u =
     (if \<not> proxy_isValid u then u
      else if m_isWaitingForDidUpdateBackingStoreState u then u
      else if sizeIsEmpty (proxy_viewSize u) then u
      else (sendToWeb (UpdateBackingStoreState (m_nextBackingStoreStateID u) respondImmediately (proxy_size u) (proxy_scrollOffset u))
              (u\<lparr>m_isWaitingForDidUpdateBackingStoreState := respondImmediately\<rparr>))\<lparr>proxy_scrollOffset := (0, 0)\<rparr>)"

definition backingStoreStateDidChange :: "bool \<Rightarrow> 'c uiProcess \<Rightarrow> 'c uiProcess" where
  "backingStoreStateDidChange respondImmediately u =
     sendUpdateBackingStoreState respondImmediately
       (u\<lparr>m_nextBackingStoreStateID := m_nextBackingStoreStateID u + 1\<rparr>)"

definition proxy_incorporateUpdate :: "'c graphics \<Rightarrow> bool \<Rightarrow> 'c updateInfo \<Rightarrow> 'c uiProcess \<Rightarrow> 'c uiProcess checked" where
  "proxy_incorporateUpdate g mapped info u =
     (if IntRect_isEmpty (updateRectBounds info) then Inr u
      else let bs = (case m_backingStore u of
                       None \<Rightarrow> \<lparr>bs_size = viewSize info, bs_pixels = g_fresh g\<rparr>
                     | Some bs \<Rightarrow> bs)
           in thenS (BackingStore_incorporateUpdate g mapped info bs) (\<lambda>bs'. Inr (u\<lparr>m_backingStore := Some bs'\<rparr>)))"

definition proxy_update :: "'c graphics \<Rightarrow> bool \<Rightarrow> nat \<Rightarrow> 'c updateInfo \<Rightarrow> 'c uiProcess \<Rightarrow> 'c uiProcess checked" where
  "proxy_update g mapped backingStoreStateID info u =
     (if backingStoreStateID < m_currentBackingStoreStateID u then Inr u
      else thenS (proxy_incorporateUpdate g mapped info u) (\<lambda>u'. Inr (sendToWeb DidUpdate u')))"

definition dropStaleStore :: "'c updateInfo \<Rightarrow> 'c uiProcess \<Rightarrow> 'c uiProcess" where
  "dropStaleStore info u =
     (case m_backingStore u of
        None \<Rightarrow> u
      | Some bs \<Rightarrow> if bs_size bs \<noteq> viewSize info then u\<lparr>m_backingStore := None\<rparr> else u)"

definition proxy_didUpdateBackingStoreState :: "'c graphics \<Rightarrow> bool \<Rightarrow> nat \<Rightarrow> 'c updateInfo \<Rightarrow> 'c uiProcess \<Rightarrow> 'c uiProcess checked" where
  "proxy_didUpdateBackingStoreState g mapped backingStoreStateID info u =
     (let u1 = u\<lparr>m_currentBackingStoreStateID := backingStoreStateID, m_isWaitingForDidUpdateBackingStoreState := False\<rparr>;
          u2 = (if m_nextBackingStoreStateID u1 \<noteq> m_currentBackingStoreStateID u1
                then sendUpdateBackingStoreState True u1
                else u1\<lparr>m_hasReceivedFirstUpdate := True\<rparr>)
      in proxy_incorporateUpdate g mapped info (dropStaleStore info u2))"

definition proxy_sizeDidChange :: "'c uiProcess \<Rightarrow> 'c uiProcess" where
  "proxy_sizeDidChange u = backingStoreStateDidChange True u"

definition proxy_setSize :: "intSize \<Rightarrow> intSize \<Rightarrow> 'c uiProcess \<Rightarrow> 'c uiProcess checked" where
  "proxy_setSize sz scrollOffset u =
     (if proxy_size u = sz \<and> scrollOffset = (0, 0) then Inr u
      else thenS (addSize (proxy_scrollOffset u) scrollOffset) (\<lambda>offset.
             Inr (proxy_sizeDidChange (u\<lparr>proxy_size := sz, proxy_scrollOffset := offset\<rparr>))))"

definition visibilityDidChange :: "bool \<Rightarrow> 'c uiProcess \<Rightarrow> 'c uiProcess" where
  "visibilityDidChange isViewVisible u = sendToWeb (if isViewVisible then ResumePainting else SuspendPainting) u"

definition discardBackingStoreSoon :: "'c uiProcess \<Rightarrow> 'c uiProcess" where
  "discardBackingStoreSoon u =
     (if \<not> m_isBackingStoreDiscardable u \<or> m_discardBackingStoreTimer u then u
      else u\<lparr>m_discardBackingStoreTimer := True\<rparr>)"

definition setBackingStoreIsDiscardable :: "bool \<Rightarrow> 'c uiProcess \<Rightarrow> 'c uiProcess" where
  "setBackingStoreIsDiscardable isBackingStoreDiscardable u =
     (if m_isBackingStoreDiscardable u = isBackingStoreDiscardable then u
      else let u1 = u\<lparr>m_isBackingStoreDiscardable := isBackingStoreDiscardable\<rparr>
           in if isBackingStoreDiscardable then discardBackingStoreSoon u1
              else u1\<lparr>m_discardBackingStoreTimer := False\<rparr>)"

definition waitForBackingStoreUpdateOnNextPaint :: "'c uiProcess \<Rightarrow> 'c uiProcess" where
  "waitForBackingStoreUpdateOnNextPaint u = u\<lparr>m_hasReceivedFirstUpdate := True\<rparr>"

text \<open>The callback of the timer that discards the store; the timer is cleared after it.\<close>

definition discardBackingStore :: "'c uiProcess \<Rightarrow> 'c uiProcess" where
  "discardBackingStore u =
     (backingStoreStateDidChange False (u\<lparr>m_backingStore := None\<rparr>))\<lparr>m_discardBackingStoreTimer := False\<rparr>"

text \<open>
  Painting the view: the pixels that are copied to the screen, if there are any, and the part of the
  rectangle that the store does not cover.
\<close>

definition paintStore :: "region \<Rightarrow> 'c uiProcess \<Rightarrow> ('c pixels option \<times> region \<times> 'c uiProcess) checked" where
  "paintStore unpainted u =
     (case m_backingStore u of
        None \<Rightarrow> Inr (None, unpainted, u)
      | Some bs \<Rightarrow>
          thenS (Region_rect (IntRect 0 0 (fst (bs_size bs)) (snd (bs_size bs)))) (\<lambda>r.
          thenS (Region_subtract unpainted r) (\<lambda>rest.
            Inr (Some (bs_pixels bs), rest, discardBackingStoreSoon u))))"

definition proxy_paint :: "intRect \<Rightarrow> 'c uiProcess \<Rightarrow> ('c pixels option \<times> region \<times> 'c uiProcess) checked" where
  "proxy_paint rect u =
     thenS (Region_rect rect) (\<lambda>unpainted.
       if m_currentBackingStoreStateID u < m_nextBackingStoreStateID u then
         let u1 = sendUpdateBackingStoreState True u
         in if \<not> m_hasReceivedFirstUpdate u1 then Inr (None, unpainted, u1)
            else paintStore unpainted u1
       else paintStore unpainted u)"

section \<open>Both processes\<close>

text \<open>
  The two processes with the messages under way in either direction, each channel in order. An event is
  one turn of a run loop: a call of the page, the display timer, a message at the head of a channel, or
  what the user's window does.
\<close>

record 'c painting =
  s_web :: "'c webProcess"
  s_ui :: "'c uiProcess"

datatype 'c paintEvent =
    PageCall "'c pageCall"
  | DisplayTimer "'c reaction"
  | ForceRepaint "'c pageCall list" "'c reaction"
  | WebReceives "'c pixels" "'c pageCall list" "'c reaction"
  | UIReceives bool
  | ViewResized intSize intSize
  | ViewVisible bool
  | ViewPaints intRect
  | DiscardTimer
  | StoreDiscardable bool

fun webReceives :: "webMessage \<Rightarrow> 'c pixels \<Rightarrow> 'c pageCall list \<Rightarrow> 'c reaction \<Rightarrow> 'c webProcess \<Rightarrow> 'c webProcess checked" where
  "webReceives (UpdateBackingStoreState stateID respond sz offset) content layout env w =
     updateBackingStoreState stateID respond sz content layout env w"
| "webReceives DidUpdate content layout env w = didUpdate env w"
| "webReceives SuspendPainting content layout env w = Inr (suspendPainting w)"
| "webReceives ResumePainting content layout env w = resumePainting w"

fun uiReceives :: "'c graphics \<Rightarrow> bool \<Rightarrow> 'c uiMessage \<Rightarrow> 'c uiProcess \<Rightarrow> 'c uiProcess checked" where
  "uiReceives g mapped (Update stateID info) u = proxy_update g mapped stateID info u"
| "uiReceives g mapped (DidUpdateBackingStoreState stateID info) u = proxy_didUpdateBackingStoreState g mapped stateID info u"

text \<open>An event that cannot happen in a state leaves it as it is.\<close>

fun paintStep :: "'c graphics \<Rightarrow> 'c paintEvent \<Rightarrow> 'c painting \<Rightarrow> 'c painting checked" where
  "paintStep g (PageCall call) s = thenS (runCall call (s_web s)) (\<lambda>w. Inr (s\<lparr>s_web := w\<rparr>))"
| "paintStep g (DisplayTimer env) s =
     (if m_displayTimer (s_web s) then thenS (displayTimerFired env (s_web s)) (\<lambda>w. Inr (s\<lparr>s_web := w\<rparr>)) else Inr s)"
| "paintStep g (ForceRepaint layout env) s = thenS (forceRepaint layout env (s_web s)) (\<lambda>w. Inr (s\<lparr>s_web := w\<rparr>))"
| "paintStep g (WebReceives content layout env) s =
     (case ui_sent (s_ui s) of
        [] \<Rightarrow> Inr s
      | msg # msgs \<Rightarrow> thenS (webReceives msg content layout env (s_web s)) (\<lambda>w.
          Inr (s\<lparr>s_web := w, s_ui := (s_ui s)\<lparr>ui_sent := msgs\<rparr>\<rparr>)))"
| "paintStep g (UIReceives mapped) s =
     (case web_sent (s_web s) of
        [] \<Rightarrow> Inr s
      | msg # msgs \<Rightarrow> thenS (uiReceives g mapped msg (s_ui s)) (\<lambda>u.
          Inr (s\<lparr>s_ui := u, s_web := (s_web s)\<lparr>web_sent := msgs\<rparr>\<rparr>)))"
| "paintStep g (ViewResized sz offset) s =
     thenS (proxy_setSize sz offset ((s_ui s)\<lparr>proxy_viewSize := sz\<rparr>)) (\<lambda>u. Inr (s\<lparr>s_ui := u\<rparr>))"
| "paintStep g (ViewVisible visible) s = Inr (s\<lparr>s_ui := visibilityDidChange visible (s_ui s)\<rparr>)"
| "paintStep g (ViewPaints rect) s = thenS (proxy_paint rect (s_ui s)) (\<lambda>(_, _, u). Inr (s\<lparr>s_ui := u\<rparr>))"
| "paintStep g DiscardTimer s =
     (if m_discardBackingStoreTimer (s_ui s) then Inr (s\<lparr>s_ui := discardBackingStore (s_ui s)\<rparr>) else Inr s)"
| "paintStep g (StoreDiscardable b) s = Inr (s\<lparr>s_ui := setBackingStoreIsDiscardable b (s_ui s)\<rparr>)"

end
