(* ===== verification/DA_Repaint.thy ===== *)
theory DA_Repaint
  imports DA_UIProcess WK_Region_Correct
begin

section \<open>Why nothing stale stays on the screen\<close>

text \<open>
  The idea behind incremental painting, on sets of points. \<open>agrees B D S O c s\<close>: on the page \<open>B\<close>, outside
  the dirty points \<open>D\<close>, the content \<open>c\<close> is what the stored pixels \<open>s\<close> become when the pending scroll of
  the points \<open>S\<close> by \<open>O\<close> has been done, and a clean point of \<open>S\<close> is scrolled from a point of \<open>S\<close>.
  Invalidating, scrolling and replacing one pending scroll by another keep this for every \<open>s\<close>.
\<close>

definition minus_pt :: "point \<Rightarrow> intSize \<Rightarrow> point" where
  "minus_pt p d = (fst p - fst d, snd p - snd d)"

definition scrolled :: "point set \<Rightarrow> intSize \<Rightarrow> 'c pixels \<Rightarrow> 'c pixels" where
  "scrolled S d s p = (if p \<in> S \<and> minus_pt p d \<in> S then s (minus_pt p d) else s p)"

definition agrees :: "point set \<Rightarrow> point set \<Rightarrow> point set \<Rightarrow> intSize \<Rightarrow> 'c pixels \<Rightarrow> 'c pixels \<Rightarrow> bool" where
  "agrees B D S d c s \<longleftrightarrow>
     (\<forall>p \<in> B. p \<notin> D \<longrightarrow> c p = scrolled S d s p \<and> (p \<in> S \<longrightarrow> minus_pt p d \<in> S \<and> minus_pt p d \<in> B))"

definition scrolledDirty :: "point set \<Rightarrow> point set \<Rightarrow> intSize \<Rightarrow> point set" where
  "scrolledDirty D S d = (D - S) \<union> {p \<in> S. minus_pt p d \<in> S \<longrightarrow> minus_pt p d \<in> D}"

text \<open>What the page guarantees when it scrolls a rectangle: points move inside it, nothing changes outside.\<close>

definition moves :: "point set \<Rightarrow> intSize \<Rightarrow> 'c pixels \<Rightarrow> 'c pixels \<Rightarrow> bool" where
  "moves S d c c' \<longleftrightarrow> (\<forall>p. p \<notin> S \<longrightarrow> c' p = c p) \<and> (\<forall>p \<in> S. minus_pt p d \<in> S \<longrightarrow> c' p = c (minus_pt p d))"

lemma agrees_invalidate:
  assumes "agrees B D S d c s" "\<And>p. p \<notin> R \<Longrightarrow> c' p = c p"
  shows "agrees B (D \<union> (R \<inter> B)) S d c' s"
  using assms by (auto simp: agrees_def)

lemma agrees_drop:
  assumes "agrees B D S d c s"
  shows "agrees B (D \<union> (S \<inter> B)) {} d' c s"
  using assms by (auto simp: agrees_def scrolled_def)

lemma minus_pt_add: "minus_pt p (fst d + fst e, snd d + snd e) = minus_pt (minus_pt p e) d"
  by (simp add: minus_pt_def algebra_simps)

lemma minus_pt_0 [simp]: "minus_pt p (0, 0) = p"
  by (simp add: minus_pt_def)

lemma agrees_scroll:
  assumes a: "agrees B D S d c s" and S': "S' \<subseteq> B" "S = S' \<or> S = {} \<and> d = (0, 0)" and m: "moves S' e c c'"
  shows "agrees B (scrolledDirty D S' e) S' (fst d + fst e, snd d + snd e) c' s"
  unfolding agrees_def
proof (intro ballI impI)
  fix p assume p: "p \<in> B" "p \<notin> scrolledDirty D S' e"
  let ?q = "minus_pt p e" and ?d = "(fst d + fst e, snd d + snd e)"
  show "c' p = scrolled S' ?d s p \<and> (p \<in> S' \<longrightarrow> minus_pt p ?d \<in> S' \<and> minus_pt p ?d \<in> B)"
  proof (cases "p \<in> S'")
    case False
    then have "p \<notin> D" using p(2) by (auto simp: scrolledDirty_def)
    then have "c p = scrolled S d s p" using a p(1) by (simp add: agrees_def)
    moreover have "c' p = c p" using m False unfolding moves_def by blast
    ultimately show ?thesis using False S'(2) by (auto simp: scrolled_def)
  next
    case True
    then have q: "?q \<in> S'" "?q \<notin> D" using p(2) by (auto simp: scrolledDirty_def)
    then have "?q \<in> B" using S'(1) by auto
    then have cq: "c ?q = scrolled S d s ?q" "?q \<in> S \<Longrightarrow> minus_pt ?q d \<in> S \<and> minus_pt ?q d \<in> B"
      using a q(2) by (auto simp: agrees_def)
    have "c' p = c ?q" using m True q(1) by (simp add: moves_def)
    with cq q(1) True S'(2) \<open>?q \<in> B\<close> show ?thesis
      by (auto simp: scrolled_def minus_pt_add)
  qed
qed

lemma scrolledDirty_covers: "B \<subseteq> D \<Longrightarrow> S \<subseteq> B \<Longrightarrow> B \<subseteq> scrolledDirty D S d"
  by (auto simp: scrolledDirty_def)

lemma scrolledDirty_nonempty: "S \<noteq> {} \<Longrightarrow> S - {p. minus_pt p d \<in> S} \<noteq> {} \<Longrightarrow> scrolledDirty D S d \<noteq> {}"
  by (auto simp: scrolledDirty_def)

text \<open>With nothing dirty a scroll of a rectangle on the page can only be pending by zero.\<close>

lemma agrees_clean:
  assumes a: "agrees (rectPoints b) {} (rectPoints r) d c s" and r: "IntRect_isEmpty r \<or> rectPoints r \<subseteq> rectPoints b"
    and p: "p \<in> rectPoints b"
  shows "c p = s p"
proof (cases "IntRect_isEmpty r")
  case True
  then have "rectPoints r = {}" by (simp add: rectPoints_empty_iff)
  with a p show ?thesis by (auto simp: agrees_def scrolled_def)
next
  case False
  let ?lo = "(rect_x r, rect_y r)" and ?hi = "(rect_x r + rect_width r - 1, rect_y r + rect_height r - 1)"
  have lh: "?lo \<in> rectPoints r" "?hi \<in> rectPoints r" using False by (auto simp: mem_rectPoints IntRect_isEmpty_def)
  have "minus_pt q d \<in> rectPoints r" if "q \<in> rectPoints r" for q
    using a r False that by (auto simp: agrees_def)
  from this[OF lh(1)] this[OF lh(2)] have "d = (0, 0)"
    by (cases d) (auto simp: minus_pt_def mem_rectPoints)
  with a p show ?thesis by (auto simp: agrees_def scrolled_def)
qed

subsection \<open>The state of the web process\<close>

definition rectSmall :: "intRect \<Rightarrow> bool" where
  "rectSmall r \<longleftrightarrow> 0 \<le> rect_x r \<and> 0 \<le> rect_width r \<and> rect_x r + rect_width r \<le> 32768 \<and>
     0 \<le> rect_y r \<and> 0 \<le> rect_height r \<and> rect_y r + rect_height r \<le> 32768"

definition sizeOK :: "intSize \<Rightarrow> bool" where
  "sizeOK sz \<longleftrightarrow> 0 < fst sz \<and> fst sz \<le> 32768 \<and> 0 < snd sz \<and> snd sz \<le> 32768"

definition offsetOK :: "intSize \<Rightarrow> bool" where
  "offsetOK d \<longleftrightarrow> \<bar>fst d\<bar> \<le> 268435456 \<and> \<bar>snd d\<bar> \<le> 268435456"

definition pagePoints :: "'c webProcess \<Rightarrow> point set" where
  "pagePoints w = rectPoints (page_bounds w)"

definition dirtyPoints :: "'c webProcess \<Rightarrow> point set" where
  "dirtyPoints w = regionPoints (m_dirtyRegion w)"

definition box :: "point set" where
  "box = rectPoints (IntRect 0 0 32768 32768)"

definition webOK :: "'c webProcess \<Rightarrow> bool" where
  "webOK w \<longleftrightarrow> regionOK (m_dirtyRegion w) \<and> dirtyPoints w \<subseteq> box \<and> m_isPaintingEnabled w \<and> \<not> page_customRepresentation w \<and>
     sizeOK (page_size w) \<and> rectSmall (m_scrollRect w) \<and> offsetOK (m_scrollOffset w) \<and>
     (IntRect_isEmpty (m_scrollRect w) \<longrightarrow> m_scrollOffset w = (0, 0))"

definition agreesWeb :: "'c webProcess \<Rightarrow> 'c pixels \<Rightarrow> bool" where
  "agreesWeb w s \<longleftrightarrow>
     agrees (pagePoints w) (dirtyPoints w) (rectPoints (m_scrollRect w)) (m_scrollOffset w) (page_content w) s"

definition scrollInside :: "'c webProcess \<Rightarrow> bool" where
  "scrollInside w \<longleftrightarrow> IntRect_isEmpty (m_scrollRect w) \<or> rectPoints (m_scrollRect w) \<subseteq> pagePoints w"

definition scheduled :: "'c webProcess \<Rightarrow> bool" where
  "scheduled w \<longleftrightarrow> dirtyPoints w = {} \<or> m_displayTimer w \<or> m_isWaitingForDidUpdate w \<or> m_isPaintingSuspended w"

lemma webOK_update [simp]:
  "webOK (w\<lparr>page_content := c\<rparr>) = webOK w"
  "webOK (w\<lparr>m_displayTimer := b\<rparr>) = webOK w"
  "webOK (w\<lparr>m_isWaitingForDidUpdate := b\<rparr>) = webOK w"
  "webOK (w\<lparr>m_shouldSendDidUpdateBackingStoreState := b\<rparr>) = webOK w"
  "webOK (w\<lparr>m_inUpdateBackingStoreState := b\<rparr>) = webOK w"
  "webOK (w\<lparr>m_isPaintingSuspended := b\<rparr>) = webOK w"
  "webOK (w\<lparr>m_backingStoreStateID := i\<rparr>) = webOK w"
  "webOK (w\<lparr>web_sent := q\<rparr>) = webOK w"
  by (simp_all add: webOK_def dirtyPoints_def)

lemma pagePoints_update [simp]:
  "pagePoints (w\<lparr>page_content := c\<rparr>) = pagePoints w"
  "pagePoints (w\<lparr>m_displayTimer := b\<rparr>) = pagePoints w"
  "pagePoints (w\<lparr>m_isWaitingForDidUpdate := b\<rparr>) = pagePoints w"
  "pagePoints (w\<lparr>m_shouldSendDidUpdateBackingStoreState := b\<rparr>) = pagePoints w"
  "pagePoints (w\<lparr>m_inUpdateBackingStoreState := b\<rparr>) = pagePoints w"
  "pagePoints (w\<lparr>m_isPaintingSuspended := b\<rparr>) = pagePoints w"
  "pagePoints (w\<lparr>m_backingStoreStateID := i\<rparr>) = pagePoints w"
  "pagePoints (w\<lparr>web_sent := q\<rparr>) = pagePoints w"
  "pagePoints (w\<lparr>m_dirtyRegion := d\<rparr>) = pagePoints w"
  "pagePoints (w\<lparr>m_scrollRect := r\<rparr>) = pagePoints w"
  "pagePoints (w\<lparr>m_scrollOffset := e\<rparr>) = pagePoints w"
  by (simp_all add: pagePoints_def page_bounds_def)

lemma dirtyPoints_update [simp]:
  "dirtyPoints (w\<lparr>page_content := c\<rparr>) = dirtyPoints w"
  "dirtyPoints (w\<lparr>m_displayTimer := b\<rparr>) = dirtyPoints w"
  "dirtyPoints (w\<lparr>m_isWaitingForDidUpdate := b\<rparr>) = dirtyPoints w"
  "dirtyPoints (w\<lparr>m_shouldSendDidUpdateBackingStoreState := b\<rparr>) = dirtyPoints w"
  "dirtyPoints (w\<lparr>m_inUpdateBackingStoreState := b\<rparr>) = dirtyPoints w"
  "dirtyPoints (w\<lparr>m_isPaintingSuspended := b\<rparr>) = dirtyPoints w"
  "dirtyPoints (w\<lparr>m_backingStoreStateID := i\<rparr>) = dirtyPoints w"
  "dirtyPoints (w\<lparr>web_sent := q\<rparr>) = dirtyPoints w"
  "dirtyPoints (w\<lparr>page_size := z\<rparr>) = dirtyPoints w"
  "dirtyPoints (w\<lparr>m_scrollRect := r\<rparr>) = dirtyPoints w"
  "dirtyPoints (w\<lparr>m_scrollOffset := e\<rparr>) = dirtyPoints w"
  "dirtyPoints (w\<lparr>m_dirtyRegion := d\<rparr>) = regionPoints d"
  by (simp_all add: dirtyPoints_def)

lemma rectSmall_near: "rectSmall r \<Longrightarrow> rectNear r"
  by (auto simp: rectSmall_def rectNear_def near_def)

lemma rectSmall_box: "rectSmall r \<Longrightarrow> rectPoints r \<subseteq> box"
  by (auto simp: rectSmall_def box_def mem_rectPoints IntRect_def)

lemma page_bounds_small: "sizeOK (page_size w) \<Longrightarrow> rectSmall (page_bounds w) \<and> \<not> IntRect_isEmpty (page_bounds w)"
  by (auto simp: sizeOK_def rectSmall_def page_bounds_def rect_defs)

lemma pagePoints_box: "webOK w \<Longrightarrow> pagePoints w \<subseteq> box"
  using page_bounds_small[of w] rectSmall_box by (auto simp: webOK_def pagePoints_def)

lemma scheduleDisplay_cases:
  assumes "regionOK (m_dirtyRegion w)"
  shows "\<exists>t. scheduleDisplay w = w\<lparr>m_displayTimer := t\<rparr> \<and> scheduled (w\<lparr>m_displayTimer := t\<rparr>)"
proof (cases "m_isWaitingForDidUpdate w \<or> m_isPaintingSuspended w \<or> Region_isEmpty (m_dirtyRegion w) \<or> m_displayTimer w")
  case True
  then have "scheduleDisplay w = w" by (auto simp: scheduleDisplay_def)
  moreover have "scheduled w" using True regionOK_isEmpty[OF assms] by (auto simp: scheduled_def dirtyPoints_def)
  ultimately show ?thesis by (intro exI[of _ "m_displayTimer w"]) simp
next
  case False
  then show ?thesis by (intro exI[of _ True]) (simp add: scheduleDisplay_def scheduled_def)
qed

lemma setNeedsDisplay_ok:
  assumes w: "webOK w" and r: "rectNear rect"
  shows "\<exists>d t. setNeedsDisplay rect w = Inr (w\<lparr>m_dirtyRegion := d, m_displayTimer := t\<rparr>) \<and> regionOK d \<and>
    regionPoints d = dirtyPoints w \<union> (rectPoints rect \<inter> pagePoints w) \<and>
    (scheduled w \<or> rectPoints rect \<inter> pagePoints w \<noteq> {} \<longrightarrow> scheduled (w\<lparr>m_dirtyRegion := d, m_displayTimer := t\<rparr>))"
proof -
  have b: "rectNear (page_bounds w)" using w page_bounds_small rectSmall_near by (auto simp: webOK_def)
  obtain q where q: "IntRect_intersect rect (page_bounds w) = Inr q" "rectNear q"
    "rectPoints q = rectPoints rect \<inter> pagePoints w"
    using intersect_points[OF r b] by (auto simp: pagePoints_def)
  show ?thesis
  proof (cases "IntRect_isEmpty q")
    case True
    then have "rectPoints rect \<inter> pagePoints w = {}" using q(3) by (simp flip: rectPoints_empty_iff)
    with True w q show ?thesis
      by (intro exI[of _ "m_dirtyRegion w"] exI[of _ "m_displayTimer w"])
        (simp add: setNeedsDisplay_def webOK_def dirtyPoints_def)
  next
    case False
    obtain rr where rr: "Region_rect q = Inr rr" "regionOK rr" "regionPoints rr = rectPoints q"
      using Region_rect_ok[OF q(2) False] by blast
    obtain d where d: "Region_unite (m_dirtyRegion w) rr = Inr d" "regionOK d"
      "regionPoints d = dirtyPoints w \<union> rectPoints q"
      using Region_unite_ok[of "m_dirtyRegion w" rr] w rr by (auto simp: webOK_def dirtyPoints_def)
    obtain t where "scheduleDisplay (w\<lparr>m_dirtyRegion := d\<rparr>) = w\<lparr>m_dirtyRegion := d, m_displayTimer := t\<rparr>"
      "scheduled (w\<lparr>m_dirtyRegion := d, m_displayTimer := t\<rparr>)"
      using scheduleDisplay_cases[of "w\<lparr>m_dirtyRegion := d\<rparr>"] d(2) by auto
    with False w q rr d show ?thesis
      by (intro exI[of _ d] exI[of _ t]) (simp add: setNeedsDisplay_def webOK_def)
  qed
qed

subsection \<open>Scrolling the dirty region\<close>

lemma shifted_points: "(\<lambda>(x, y). (x + dx, y + dy)) ` P = {p. minus_pt p (dx, dy) \<in> P}"
  by (force simp: minus_pt_def image_iff)

lemma translate_small:
  assumes "regionOK q" "regionPoints q \<noteq> {}" "regionPoints q \<subseteq> rectPoints r" "rectSmall r" "offsetOK (dx, dy)"
  shows "\<exists>c. Region_translate dx dy q = Inr c \<and> regionOK c \<and> regionPoints c = {p. minus_pt p (dx, dy) \<in> regionPoints q}"
proof -
  have "tight (regionPoints q) (m_bounds q)" using regionOK_bounds(2)[OF assms(1,2)] .
  then have "rectPoints (m_bounds q) \<subseteq> rectPoints r" "\<not> IntRect_isEmpty (m_bounds q)"
    using assms(2,3) by (auto simp: tight_def simp flip: rectPoints_empty_iff)
  then have e: "rect_x r \<le> rect_x (m_bounds q)" "rect_x (m_bounds q) + rect_width (m_bounds q) \<le> rect_x r + rect_width r"
    "rect_y r \<le> rect_y (m_bounds q)" "rect_y (m_bounds q) + rect_height (m_bounds q) \<le> rect_y r + rect_height r"
    "0 < rect_width (m_bounds q)" "0 < rect_height (m_bounds q)"
    by (auto simp: rectPoints_subset_iff IntRect_isEmpty_def)
  let ?b = "(m_bounds q)\<lparr>rect_x := rect_x (m_bounds q) + dx, rect_y := rect_y (m_bounds q) + dy\<rparr>"
  have "near (rect_x (m_bounds q) + dx)" "near (rect_y (m_bounds q) + dy)" "rectNear ?b"
    using e assms(4,5) by (auto simp: near_def rectSmall_def offsetOK_def rectNear_def)
  then have "IntRect_move dx dy (m_bounds q) = Inr ?b" by (simp add: IntRect_move_def)
  from Region_translate_ok[OF assms(1) this \<open>rectNear ?b\<close>] assms(2) show ?thesis
    by (auto simp: shifted_points)
qed

lemma moveDirtyRegion_ok:
  assumes s: "regionOK s" "regionPoints s = rectPoints r" "rectSmall r" and off: "offsetOK (dx, dy)" and D: "regionOK D"
  shows "\<exists>d. moveDirtyRegion s dx dy D = Inr d \<and> regionOK d \<and> regionPoints d =
    (regionPoints D - rectPoints r) \<union> {p \<in> rectPoints r. minus_pt p (dx, dy) \<in> rectPoints r \<inter> regionPoints D}"
proof -
  obtain i where i: "Region_intersect s D = Inr i" "regionOK i" "regionPoints i = rectPoints r \<inter> regionPoints D"
    using Region_intersect_ok[OF s(1) D] s(2) by auto
  show ?thesis
  proof (cases "regionPoints i = {}")
    case True
    then have "regionPoints D - rectPoints r \<union> {p \<in> rectPoints r. minus_pt p (dx, dy) \<in> rectPoints r \<inter> regionPoints D} = regionPoints D"
      using i(3) by auto
    with True i D show ?thesis by (simp add: moveDirtyRegion_def regionOK_isEmpty)
  next
    case False
    then have ne: "regionPoints s \<noteq> {}" "\<not> Region_isEmpty i" using i s(2) regionOK_isEmpty[OF i(2)] by auto
    obtain rest where rest: "Region_subtract D s = Inr rest" "regionOK rest" "regionPoints rest = regionPoints D - rectPoints r"
      using Region_subtract_ok[OF D s(1) ne(1)] s(2) by auto
    obtain t where t: "Region_translate dx dy i = Inr t" "regionOK t"
      "regionPoints t = {p. minus_pt p (dx, dy) \<in> regionPoints i}"
      using translate_small[OF i(2) False _ s(3) off] i(3) by auto
    obtain m where m: "Region_intersect t s = Inr m" "regionOK m" "regionPoints m = regionPoints t \<inter> rectPoints r"
      using Region_intersect_ok[OF t(2) s(1)] s(2) by auto
    obtain d where "Region_unite rest m = Inr d" "regionOK d" "regionPoints d = regionPoints rest \<union> regionPoints m"
      using Region_unite_ok[OF rest(2) m(2)] by blast
    with i rest t m ne show ?thesis by (auto simp: moveDirtyRegion_def)
  qed
qed

lemma scrollDirtyRegion_ok:
  assumes r: "rectSmall r" "\<not> IntRect_isEmpty r" and off: "offsetOK (dx, dy)" and D: "regionOK D"
  shows "\<exists>d. scrollDirtyRegion r dx dy D = Inr d \<and> regionOK d \<and>
    regionPoints d = scrolledDirty (regionPoints D) (rectPoints r) (dx, dy)"
proof -
  obtain s where s: "Region_rect r = Inr s" "regionOK s" "regionPoints s = rectPoints r"
    using Region_rect_ok[OF rectSmall_near[OF r(1)] r(2)] by blast
  have ne: "regionPoints s \<noteq> {}" using s(3) r(2) by (simp add: rectPoints_empty_iff)
  obtain d where d: "moveDirtyRegion s dx dy D = Inr d" "regionOK d" "regionPoints d =
    (regionPoints D - rectPoints r) \<union> {p \<in> rectPoints r. minus_pt p (dx, dy) \<in> rectPoints r \<inter> regionPoints D}"
    using moveDirtyRegion_ok[OF s(2,3) r(1) off D] by blast
  obtain t where t: "Region_translate dx dy s = Inr t" "regionOK t" "regionPoints t = {p. minus_pt p (dx, dy) \<in> rectPoints r}"
    using translate_small[OF s(2) ne _ r(1) off] s(3) by auto
  have R: "\<exists>q. Region_subtract s t = Inr q \<and> regionOK q \<and> regionPoints q = rectPoints r - {p. minus_pt p (dx, dy) \<in> rectPoints r}"
  proof -
    have "(rect_x r + dx, rect_y r + dy) \<in> regionPoints t"
      using t(3) r(2) by (simp add: minus_pt_def mem_rectPoints IntRect_isEmpty_def)
    then have "regionPoints t \<noteq> {}" by auto
    from Region_subtract_ok[OF s(2) t(2) this] s(3) t(3) show ?thesis by simp
  qed
  then obtain q where q: "scrollRepaintRegion s dx dy = Inr q" "regionOK q"
    "regionPoints q = rectPoints r - {p. minus_pt p (dx, dy) \<in> rectPoints r}"
    using t(1) by (auto simp: scrollRepaintRegion_def)
  obtain u where u: "Region_unite d q = Inr u" "regionOK u" "regionPoints u = regionPoints d \<union> regionPoints q"
    using Region_unite_ok[OF d(2) q(2)] by blast
  have "regionPoints u = scrolledDirty (regionPoints D) (rectPoints r) (dx, dy)"
    unfolding u(3) d(3) q(3) scrolledDirty_def by blast
  with s(1) d(1) q(1) u show ?thesis by (simp add: scrollDirtyRegion_def)
qed

subsection \<open>The calls of the page\<close>

text \<open>What the page guarantees: nothing changes outside an invalidated rectangle, and a scroll moves points.\<close>

fun callOK :: "'c pageCall \<Rightarrow> 'c webProcess \<Rightarrow> bool" where
  "callOK (Invalidate rect content) w \<longleftrightarrow>
     rectNear rect \<and> (\<forall>p. p \<notin> rectPoints rect \<longrightarrow> content p = page_content w p)"
| "callOK (Scroll rect offset content) w \<longleftrightarrow>
     rectSmall rect \<and> \<not> IntRect_isEmpty rect \<and> rectPoints rect \<subseteq> pagePoints w \<and> offsetOK offset \<and>
     offsetOK (fst (m_scrollOffset w) + fst offset, snd (m_scrollOffset w) + snd offset) \<and>
     moves (rectPoints rect) offset (page_content w) content"

fun callsOK :: "'c pageCall list \<Rightarrow> 'c webProcess \<Rightarrow> bool" where
  "callsOK [] w = True"
| "callsOK (c # cs) w = (callOK c w \<and> (case runCall c w of Inl _ \<Rightarrow> True | Inr w' \<Rightarrow> callsOK cs w'))"

text \<open>What a call may change, and what it keeps.\<close>

definition onlyPaint :: "'c webProcess \<Rightarrow> 'c webProcess \<Rightarrow> bool" where
  "onlyPaint w w' \<longleftrightarrow> w' = w\<lparr>m_dirtyRegion := m_dirtyRegion w', m_scrollRect := m_scrollRect w',
     m_scrollOffset := m_scrollOffset w', m_displayTimer := m_displayTimer w', page_content := page_content w'\<rparr>"

definition keeps :: "'c webProcess \<Rightarrow> 'c webProcess \<Rightarrow> bool" where
  "keeps w w' \<longleftrightarrow> webOK w' \<and> onlyPaint w w' \<and> (\<forall>s. agreesWeb w s \<longrightarrow> agreesWeb w' s) \<and>
     (pagePoints w \<subseteq> dirtyPoints w \<longrightarrow> pagePoints w' \<subseteq> dirtyPoints w') \<and>
     (scheduled w \<longrightarrow> scheduled w') \<and> (scrollInside w \<longrightarrow> scrollInside w')"

lemma onlyPaint_trans: "onlyPaint a b \<Longrightarrow> onlyPaint b c \<Longrightarrow> onlyPaint a c"
  unfolding onlyPaint_def by (cases a; cases b; cases c) simp

lemma onlyPaint_refl [simp]: "onlyPaint w w"
  by (simp add: onlyPaint_def)

lemma onlyPaint_fields:
  assumes "onlyPaint w w'"
  shows "m_backingStoreStateID w' = m_backingStoreStateID w" "m_isPaintingEnabled w' = m_isPaintingEnabled w"
    "m_inUpdateBackingStoreState w' = m_inUpdateBackingStoreState w"
    "m_shouldSendDidUpdateBackingStoreState w' = m_shouldSendDidUpdateBackingStoreState w"
    "m_isWaitingForDidUpdate w' = m_isWaitingForDidUpdate w" "m_isPaintingSuspended w' = m_isPaintingSuspended w"
    "page_size w' = page_size w" "page_customRepresentation w' = page_customRepresentation w" "web_sent w' = web_sent w"
    "page_bounds w' = page_bounds w" "pagePoints w' = pagePoints w"
  using assms unfolding onlyPaint_def by (cases w; cases w'; simp add: page_bounds_def pagePoints_def)+

lemma keeps_refl [simp]: "webOK w \<Longrightarrow> keeps w w"
  by (simp add: keeps_def)

lemma keeps_trans: "keeps a b \<Longrightarrow> keeps b c \<Longrightarrow> keeps a c"
  unfolding keeps_def using onlyPaint_trans by blast

lemma setNeedsDisplay_result:
  assumes "webOK w" "rectNear rect"
  shows "\<exists>w'. setNeedsDisplay rect w = Inr w' \<and> webOK w' \<and> onlyPaint w w' \<and> page_content w' = page_content w \<and>
    m_scrollRect w' = m_scrollRect w \<and> m_scrollOffset w' = m_scrollOffset w \<and>
    dirtyPoints w' = dirtyPoints w \<union> (rectPoints rect \<inter> pagePoints w) \<and>
    (scheduled w \<or> rectPoints rect \<inter> pagePoints w \<noteq> {} \<longrightarrow> scheduled w')"
proof -
  obtain d t where d: "setNeedsDisplay rect w = Inr (w\<lparr>m_dirtyRegion := d, m_displayTimer := t\<rparr>)" "regionOK d"
    "regionPoints d = dirtyPoints w \<union> (rectPoints rect \<inter> pagePoints w)"
    "scheduled w \<or> rectPoints rect \<inter> pagePoints w \<noteq> {} \<longrightarrow> scheduled (w\<lparr>m_dirtyRegion := d, m_displayTimer := t\<rparr>)"
    using setNeedsDisplay_ok[OF assms] by blast
  show ?thesis
    by (rule exI[of _ "w\<lparr>m_dirtyRegion := d, m_displayTimer := t\<rparr>"])
      (use assms(1) d pagePoints_box[OF assms(1)] in \<open>auto simp: webOK_def onlyPaint_def dirtyPoints_def\<close>)
qed

lemma rectArea_small: "rectSmall r \<Longrightarrow> \<exists>n. rectArea r = Inr n"
proof -
  assume "rectSmall r"
  then have "0 \<le> rect_width r" "rect_width r \<le> 32768" "0 \<le> rect_height r" "rect_height r \<le> 32768"
    by (auto simp: rectSmall_def)
  then have "0 \<le> rect_width r * rect_height r" "rect_width r * rect_height r \<le> 32768 * 32768"
    using mult_mono[of "rect_width r" 32768 "rect_height r" 32768] by auto
  then show ?thesis by (auto simp: rectArea_def checked_def INT_MIN_def INT_MAX_def)
qed

lemma offsetOK_add:
  assumes "offsetOK (fst a + fst b, snd a + snd b)"
  shows "addSize a b = Inr (fst a + fst b, snd a + snd b)"
  using assms by (auto simp: addSize_def offsetOK_def checked_def INT_MIN_def INT_MAX_def)

text \<open>The last part of \<^verbatim>\<open>scroll\<close>, after a pending scroll of another rectangle is out of the way.\<close>

lemma scroll_tail:
  assumes w: "webOK w" and r: "rectSmall r" "\<not> IntRect_isEmpty r" and e: "offsetOK e"
    and sum: "offsetOK (fst (m_scrollOffset w) + fst e, snd (m_scrollOffset w) + snd e)"
    and same: "IntRect_isEmpty (m_scrollRect w) \<or> m_scrollRect w = r"
  shows "\<exists>w'. scroll r e w = Inr w' \<and> webOK w' \<and> onlyPaint w w' \<and> page_content w' = page_content w \<and> scheduled w' \<and>
    m_scrollRect w' = r \<and> m_scrollOffset w' = (fst (m_scrollOffset w) + fst e, snd (m_scrollOffset w) + snd e) \<and>
    dirtyPoints w' = scrolledDirty (dirtyPoints w) (rectPoints r) e"
proof -
  obtain d where d: "scrollDirtyRegion r (fst e) (snd e) (m_dirtyRegion w) = Inr d" "regionOK d"
    "regionPoints d = scrolledDirty (dirtyPoints w) (rectPoints r) e"
    using scrollDirtyRegion_ok[OF r, of "fst e" "snd e" "m_dirtyRegion w"] e w by (auto simp: webOK_def dirtyPoints_def)
  obtain t where t: "scheduleDisplay (w\<lparr>m_dirtyRegion := d\<rparr>) = w\<lparr>m_dirtyRegion := d, m_displayTimer := t\<rparr>"
    "scheduled (w\<lparr>m_dirtyRegion := d, m_displayTimer := t\<rparr>)"
    using scheduleDisplay_cases[of "w\<lparr>m_dirtyRegion := d\<rparr>"] d(2) by auto
  let ?w = "w\<lparr>m_dirtyRegion := d, m_displayTimer := t, m_scrollRect := r,
      m_scrollOffset := (fst (m_scrollOffset w) + fst e, snd (m_scrollOffset w) + snd e)\<rparr>"
  have "replaceScroll r w = Inr (w, False)" using same by (auto simp: replaceScroll_def)
  then have "scroll r e w = Inr ?w"
    using w d(1) t(1) offsetOK_add[OF sum] by (simp add: scroll_def webOK_def Let_def)
  moreover have "regionPoints d \<subseteq> box"
    using d(3) w rectSmall_box[OF r(1)] by (auto simp: scrolledDirty_def webOK_def)
  ultimately show ?thesis
    by (intro exI[of _ ?w]) (use w d(2,3) r sum t(2) in \<open>simp add: webOK_def onlyPaint_def dirtyPoints_def scheduled_def\<close>)
qed

lemma webOK_scroll_near: "webOK w \<Longrightarrow> rectNear (m_scrollRect w)"
  by (simp add: webOK_def rectSmall_near)

lemma scroll_other:
  assumes w: "webOK w" and r: "rectSmall r" and other: "\<not> IntRect_isEmpty (m_scrollRect w)" "m_scrollRect w \<noteq> r"
  shows "scroll r e w = setNeedsDisplay r w \<or>
    (\<exists>w1. setNeedsDisplay (m_scrollRect w) w = Inr w1 \<and>
       scroll r e w = scroll r e (w1\<lparr>m_scrollRect := IntRect_default, m_scrollOffset := (0, 0)\<rparr>))"
proof -
  obtain a c where a: "rectArea r = Inr a" "rectArea (m_scrollRect w) = Inr c"
    using rectArea_small[OF r] rectArea_small[of "m_scrollRect w"] w by (auto simp: webOK_def)
  have d: "IntRect_isEmpty IntRect_default" by (simp add: rect_defs)
  have en: "m_isPaintingEnabled w" "\<not> page_customRepresentation w" using w by (auto simp: webOK_def)
  obtain w1 where w1: "setNeedsDisplay (m_scrollRect w) w = Inr w1" "webOK w1"
    using setNeedsDisplay_result[OF w webOK_scroll_near[OF w]] by blast
  obtain w2 where w2: "setNeedsDisplay r w = Inr w2"
    using setNeedsDisplay_result[OF w rectSmall_near[OF r]] by blast
  show ?thesis
  proof (cases "c \<ge> a")
    case True
    then show ?thesis using other a en w2 by (auto simp: scroll_def replaceScroll_def)
  next
    case False
    let ?v = "w1\<lparr>m_scrollRect := IntRect_default, m_scrollOffset := (0, 0)\<rparr>"
    have "replaceScroll r w = Inr (?v, False)" using False other a w1 by (auto simp: replaceScroll_def)
    moreover have "replaceScroll r ?v = Inr (?v, False)" using d by (simp add: replaceScroll_def)
    ultimately have "scroll r e w = scroll r e ?v" using en w1(2) by (simp add: scroll_def webOK_def)
    with w1(1) show ?thesis by blast
  qed
qed

lemma invalidate_keeps:
  assumes w: "webOK w" and c: "callOK (Invalidate r content) w"
  shows "\<exists>w'. runCall (Invalidate r content) w = Inr w' \<and> keeps w w'"
proof -
  let ?v = "w\<lparr>page_content := content\<rparr>"
  have v: "webOK ?v" "rectNear r" using w c by simp_all
  obtain w' where w': "setNeedsDisplay r ?v = Inr w'" "webOK w'" "onlyPaint ?v w'" "page_content w' = content"
    "m_scrollRect w' = m_scrollRect w" "m_scrollOffset w' = m_scrollOffset w"
    "dirtyPoints w' = dirtyPoints w \<union> (rectPoints r \<inter> pagePoints w)" "scheduled ?v \<Longrightarrow> scheduled w'"
    using setNeedsDisplay_result[OF v] by (auto simp: dirtyPoints_def pagePoints_def page_bounds_def)
  have o: "onlyPaint w w'" using w'(3) unfolding onlyPaint_def by (cases w; cases w') simp
  have p: "pagePoints w' = pagePoints w" using onlyPaint_fields(11)[OF o] .
  have "agreesWeb w' s" if "agreesWeb w s" for s
    using agrees_invalidate[OF that[unfolded agreesWeb_def], of "rectPoints r" content] c w'(4-7) p
    by (auto simp: agreesWeb_def simp del: split_paired_All)
  moreover have "scheduled w \<Longrightarrow> scheduled w'" using w'(8) by (simp add: scheduled_def dirtyPoints_def)
  ultimately have "keeps w w'" using w' o p by (auto simp: keeps_def scrollInside_def)
  with w'(1) show ?thesis by auto
qed

lemma scrollInside_rect: "m_scrollRect w = r \<Longrightarrow> rectPoints r \<subseteq> pagePoints w \<Longrightarrow> scrollInside w"
  by (simp add: scrollInside_def)

lemma onlyPaint_content: "onlyPaint (w\<lparr>page_content := c\<rparr>) w' \<Longrightarrow> onlyPaint w w'"
  unfolding onlyPaint_def by (cases w; cases w') simp

text \<open>The scroll of the pending rectangle, or of any when none is pending.\<close>

lemma scroll_same_keeps:
  assumes w: "webOK w" and c: "callOK (Scroll r e content) w"
    and same: "IntRect_isEmpty (m_scrollRect w) \<or> m_scrollRect w = r"
  shows "\<exists>w'. scroll r e (w\<lparr>page_content := content\<rparr>) = Inr w' \<and> keeps w w' \<and> scheduled w'"
proof -
  let ?v = "w\<lparr>page_content := content\<rparr>" and ?o = "(fst (m_scrollOffset w) + fst e, snd (m_scrollOffset w) + snd e)"
  have v: "webOK ?v" "IntRect_isEmpty (m_scrollRect ?v) \<or> m_scrollRect ?v = r" "offsetOK (fst (m_scrollOffset ?v) + fst e, snd (m_scrollOffset ?v) + snd e)"
    using w same c by simp_all
  have r: "rectSmall r" "\<not> IntRect_isEmpty r" "offsetOK e" "rectPoints r \<subseteq> pagePoints w"
    "moves (rectPoints r) e (page_content w) content" using c by auto
  obtain w' where w': "scroll r e ?v = Inr w'" "webOK w'" "onlyPaint ?v w'" "page_content w' = content" "scheduled w'"
    "m_scrollRect w' = r" "m_scrollOffset w' = ?o" "dirtyPoints w' = scrolledDirty (dirtyPoints w) (rectPoints r) e"
    using scroll_tail[OF v(1) r(1-3) v(3,2)] by (auto simp: dirtyPoints_def)
  have o: "onlyPaint w w'" using w'(3) by (rule onlyPaint_content)
  have p: "pagePoints w' = pagePoints w" using onlyPaint_fields(11)[OF o] .
  have "rectPoints (m_scrollRect w) = rectPoints r \<or> rectPoints (m_scrollRect w) = {} \<and> m_scrollOffset w = (0, 0)"
    using same w by (auto simp: webOK_def rectPoints_empty_iff)
  then have "agreesWeb w' s" if "agreesWeb w s" for s
    using agrees_scroll[OF that[unfolded agreesWeb_def] r(4) _ r(5)] w'(4,6-8) p by (simp add: agreesWeb_def)
  then have "keeps w w'"
    using w' o p r(4) scrolledDirty_covers[of "pagePoints w" "dirtyPoints w" "rectPoints r" e]
    by (simp add: keeps_def scrollInside_def)
  with w'(1,5) show ?thesis by blast
qed

lemma drop_scroll_keeps:
  assumes w: "webOK w"
  shows "\<exists>w'. setNeedsDisplay (m_scrollRect w) w = Inr w' \<and>
    keeps w (w'\<lparr>m_scrollRect := IntRect_default, m_scrollOffset := (0, 0)\<rparr>) \<and> page_content w' = page_content w"
proof -
  obtain w' where w': "setNeedsDisplay (m_scrollRect w) w = Inr w'" "webOK w'" "onlyPaint w w'" "page_content w' = page_content w"
    "dirtyPoints w' = dirtyPoints w \<union> (rectPoints (m_scrollRect w) \<inter> pagePoints w)" "scheduled w \<Longrightarrow> scheduled w'"
    using setNeedsDisplay_result[OF w webOK_scroll_near[OF w]] by blast
  let ?v = "w'\<lparr>m_scrollRect := IntRect_default, m_scrollOffset := (0, 0)\<rparr>"
  have o: "onlyPaint w ?v" using w'(3) unfolding onlyPaint_def by (cases w; cases w') simp
  have f: "pagePoints ?v = pagePoints w" "dirtyPoints ?v = dirtyPoints w'" "IntRect_isEmpty (m_scrollRect ?v)"
    using onlyPaint_fields(11)[OF o] by (simp_all add: dirtyPoints_def rect_defs)
  have "agreesWeb ?v s" if "agreesWeb w s" for s
    using agrees_drop[OF that[unfolded agreesWeb_def], of "(0, 0)"] w'(4,5) f by (simp add: agreesWeb_def)
  moreover have "webOK ?v" using w'(2) by (simp add: webOK_def dirtyPoints_def rectSmall_def offsetOK_def rect_defs)
  moreover have "scheduled w \<Longrightarrow> scheduled ?v" using w'(6) by (simp add: scheduled_def dirtyPoints_def)
  ultimately have "keeps w ?v" using o f w'(5) by (auto simp: keeps_def scrollInside_def)
  with w' show ?thesis by blast
qed

lemma setNeedsDisplay_content:
  "setNeedsDisplay r (w\<lparr>page_content := c\<rparr>) = thenS (setNeedsDisplay r w) (\<lambda>w'. Inr (w'\<lparr>page_content := c\<rparr>))"
proof -
  have s: "scheduleDisplay (v\<lparr>page_content := c\<rparr>) = (scheduleDisplay v)\<lparr>page_content := c\<rparr>" for v :: "'a webProcess"
    by (simp add: scheduleDisplay_def)
  have b: "page_bounds (w\<lparr>page_content := c\<rparr>) = page_bounds w" by (simp add: page_bounds_def)
  have u: "w\<lparr>page_content := c, m_dirtyRegion := d\<rparr> = (w\<lparr>m_dirtyRegion := d\<rparr>)\<lparr>page_content := c\<rparr>" for d by simp
  show ?thesis
    by (cases "IntRect_intersect r (page_bounds w)"; cases "Region_rect (projr (IntRect_intersect r (page_bounds w)))";
        cases "Region_unite (m_dirtyRegion w) (projr (Region_rect (projr (IntRect_intersect r (page_bounds w)))))")
      (simp_all add: setNeedsDisplay_def b s u del: webProcess.simps)
qed

lemma scroll_keeps:
  assumes w: "webOK w" and c: "callOK (Scroll r e content) w"
  shows "\<exists>w'. runCall (Scroll r e content) w = Inr w' \<and> keeps w w'"
proof (cases "IntRect_isEmpty (m_scrollRect w) \<or> m_scrollRect w = r")
  case True
  from scroll_same_keeps[OF w c this] show ?thesis by auto
next
  case False
  let ?v = "w\<lparr>page_content := content\<rparr>"
  have v: "webOK ?v" "rectSmall r" "\<not> IntRect_isEmpty (m_scrollRect ?v)" "m_scrollRect ?v \<noteq> r"
    using w c False by simp_all
  obtain w0 where w0: "setNeedsDisplay (m_scrollRect w) w = Inr w0"
    "keeps w (w0\<lparr>m_scrollRect := IntRect_default, m_scrollOffset := (0, 0)\<rparr>)" "page_content w0 = page_content w"
    using drop_scroll_keeps[OF w] by blast
  let ?u = "w0\<lparr>m_scrollRect := IntRect_default, m_scrollOffset := (0, 0)\<rparr>"
  have u: "webOK ?u" "pagePoints ?u = pagePoints w" "IntRect_isEmpty (m_scrollRect ?u) \<or> m_scrollRect ?u = r"
    using w0(2) onlyPaint_fields(11)[of w ?u] by (auto simp: keeps_def rect_defs)
  have cu: "callOK (Scroll r e content) ?u" using c u(2) w0(3) by simp
  from scroll_other[OF v, of e] consider
      (whole) "scroll r e ?v = setNeedsDisplay r ?v"
    | (other) w1 where "setNeedsDisplay (m_scrollRect w) ?v = Inr w1"
        "scroll r e ?v = scroll r e (w1\<lparr>m_scrollRect := IntRect_default, m_scrollOffset := (0, 0)\<rparr>)"
    by auto
  then show ?thesis
  proof cases
    case whole
    have "callOK (Invalidate r content) w"
      using c rectSmall_near by (simp add: moves_def del: split_paired_All)
    from invalidate_keeps[OF w this] whole show ?thesis by simp
  next
    case other
    have "w1 = w0\<lparr>page_content := content\<rparr>"
      using other(1) w0(1) by (simp add: setNeedsDisplay_content)
    then have "w1\<lparr>m_scrollRect := IntRect_default, m_scrollOffset := (0, 0)\<rparr> = ?u\<lparr>page_content := content\<rparr>"
      by (cases w0) simp
    then have "scroll r e ?v = scroll r e (?u\<lparr>page_content := content\<rparr>)" using other(2) by simp
    moreover obtain w' where "scroll r e (?u\<lparr>page_content := content\<rparr>) = Inr w'" "keeps ?u w'"
      using scroll_same_keeps[OF u(1) cu u(3)] by blast
    ultimately show ?thesis using keeps_trans[OF w0(2)] by simp
  qed
qed

lemma runCall_keeps:
  assumes "webOK w" "callOK c w"
  shows "\<exists>w'. runCall c w = Inr w' \<and> keeps w w'"
  using assms invalidate_keeps scroll_keeps by (cases c) blast+

lemma runCalls_keeps:
  assumes "webOK w" "callsOK cs w"
  shows "\<exists>w'. runCalls cs w = Inr w' \<and> keeps w w'"
  using assms
proof (induction cs arbitrary: w)
  case (Cons c cs)
  have "callOK c w" using Cons.prems(2) by simp
  then obtain w1 where w1: "runCall c w = Inr w1" "keeps w w1" using runCall_keeps[OF Cons.prems(1)] by blast
  then have "webOK w1" "callsOK cs w1" using Cons.prems(2) by (simp_all add: keeps_def)
  then obtain w2 where w2: "runCalls cs w1 = Inr w2" "keeps w1 w2" using Cons.IH by blast
  show ?case using w1(1) w2(1) keeps_trans[OF w1(2) w2(2)] by simp
qed simp

end
