(* ===== verification/DA_Store.thy ===== *)
theory DA_Store
  imports DA_Repaint
begin

section \<open>An update brings the backing store up to date\<close>

text \<open>
  What the X server guarantees, as \<open>graphicsOK\<close>: copying an area moves the pixels whose source is
  in the pixmap and leaves those outside the destination alone. From it follows the effect of an update on the store: scrolled first, then painted.
\<close>

definition sizePoints :: "intSize \<Rightarrow> point set" where
  "sizePoints sz = rectPoints (IntRect 0 0 (fst sz) (snd sz))"

definition copiesPixel :: "'c graphics \<Rightarrow> intSize \<Rightarrow> 'c pixels \<Rightarrow> int \<Rightarrow> int \<Rightarrow> intRect \<Rightarrow> point \<Rightarrow> bool" where
  "copiesPixel g sz pix sx sy dest p \<longleftrightarrow>
     (let q = (fst p - rect_x dest + sx, snd p - rect_y dest + sy);
          r = g_copyArea g sz pix sx sy (rect_width dest) (rect_height dest) (rect_x dest) (rect_y dest) p
      in if p \<in> rectPoints dest then q \<in> sizePoints sz \<longrightarrow> r = pix q else r = pix p)"

definition graphicsOK :: "'c graphics \<Rightarrow> bool" where
  "graphicsOK g \<longleftrightarrow>
     (\<forall>sz pix sx sy dest p. copiesPixel g sz pix sx sy dest p)"

lemma pagePoints_size: "pagePoints w = sizePoints (page_size w)"
  by (simp add: pagePoints_def page_bounds_def sizePoints_def)

lemma store_scroll:
  assumes g: "graphicsOK g" and r: "rectSmall r" and d: "offsetOK d"
  shows "\<exists>bs'. BackingStore_scroll g r d bs = Inr bs' \<and> bs_size bs' = bs_size bs \<and>
    (\<forall>p. (p \<in> rectPoints r \<longrightarrow> minus_pt p d \<in> rectPoints r \<and> minus_pt p d \<in> sizePoints (bs_size bs)) \<longrightarrow>
      bs_pixels bs' p = scrolled (rectPoints r) d (bs_pixels bs) p)"
proof (cases "d = (0, 0)")
  case True
  then show ?thesis by (simp add: BackingStore_scroll_def scrolled_def)
next
  case False
  obtain dx dy where dd: "d = (dx, dy)" by (cases d)
  let ?m = "r\<lparr>rect_x := rect_x r + dx, rect_y := rect_y r + dy\<rparr>"
  have "near (rect_x r + dx)" "near (rect_y r + dy)" and nm: "rectNear ?m"
    using r d dd by (auto simp: rectSmall_def offsetOK_def near_def rectNear_def)
  then have mv: "IntRect_move dx dy r = Inr ?m" by (simp add: IntRect_move_def)
  obtain t where t: "IntRect_intersect ?m r = Inr t" "rectNear t" "rectPoints t = rectPoints ?m \<inter> rectPoints r"
    using intersect_points[OF nm rectSmall_near[OF r]] by blast
  have mem: "p \<in> rectPoints t \<longleftrightarrow> p \<in> rectPoints r \<and> minus_pt p d \<in> rectPoints r" for p
    unfolding t(3) by (cases p) (auto simp: mem_rectPoints minus_pt_def dd)
  show ?thesis
  proof (cases "IntRect_isEmpty t")
    case True
    then have "p \<in> rectPoints r \<Longrightarrow> minus_pt p d \<notin> rectPoints r" for p using mem by (auto simp flip: rectPoints_empty_iff)
    with True False mv t(1) show ?thesis
      by (auto simp: BackingStore_scroll_def WidgetBackingStore_scroll_def dd scrolled_def)
  next
    case ne: False
    have "rect_x t \<in> {rect_x r..<rect_x r + rect_width r}" "rect_y t \<in> {rect_y r..<rect_y r + rect_height r}"
      using ne mem[of "(rect_x t, rect_y t)"] by (auto simp: mem_rectPoints IntRect_isEmpty_def)
    then have chk: "checked (rect_x t - dx) = Inr (rect_x t - dx)" "checked (rect_y t - dy) = Inr (rect_y t - dy)"
      using r d dd by (auto simp: rectSmall_def offsetOK_def checked_def INT_MIN_def INT_MAX_def)
    let ?pix = "g_copyArea g (bs_size bs) (bs_pixels bs) (rect_x t - dx) (rect_y t - dy) (rect_width t) (rect_height t) (rect_x t) (rect_y t)"
    have "BackingStore_scroll g r d bs = Inr (bs\<lparr>bs_pixels := ?pix\<rparr>)"
      using ne False mv t(1) chk by (auto simp: BackingStore_scroll_def WidgetBackingStore_scroll_def dd)
    moreover have "?pix p = scrolled (rectPoints r) d (bs_pixels bs) p"
      if q: "p \<in> rectPoints r \<longrightarrow> minus_pt p d \<in> rectPoints r \<and> minus_pt p d \<in> sizePoints (bs_size bs)" for p
    proof -
      have c: "copiesPixel g (bs_size bs) (bs_pixels bs) (rect_x t - dx) (rect_y t - dy) t p"
        using g unfolding graphicsOK_def by blast
      show ?thesis
      proof (cases "p \<in> rectPoints t")
        case True
        with q mem have "minus_pt p d \<in> sizePoints (bs_size bs)" by blast
        with True c mem[of p] show ?thesis
          by (simp add: copiesPixel_def minus_pt_def dd scrolled_def)
      next
        case False
        with c mem[of p] show ?thesis by (auto simp: copiesPixel_def scrolled_def Let_def)
      qed
    qed
    ultimately show ?thesis by (intro exI[of _ "bs\<lparr>bs_pixels := ?pix\<rparr>"]) simp
  qed
qed

lemma rectHas_points: "rectHas r p \<longleftrightarrow> p \<in> rectPoints r"
  by (cases p) (auto simp: rectHas_def mem_rectPoints)

lemma store_paint:
  assumes b: "rectNear b" and rs: "\<forall>r \<in> set rs. rectNear r"
  shows "\<exists>bs'. paintRects bitmap b rs bs = Inr bs' \<and> bs_size bs' = bs_size bs \<and>
    (\<forall>p. bs_pixels bs' p = (if \<exists>r \<in> set rs. p \<in> rectPoints r then over (bitmap (minus_pt p (rect_x b, rect_y b))) (bs_pixels bs p) else bs_pixels bs p))"
  using rs
proof (induction rs arbitrary: bs)
  case (Cons r rs)
  have r: "near (rect_x r)" "near (rect_y r)" "near (rect_x b)" "near (rect_y b)" using Cons.prems b by (auto simp: rectNear_def)
  let ?src = "r\<lparr>rect_x := rect_x r - rect_x b, rect_y := rect_y r - rect_y b\<rparr>"
  let ?bs = "bs\<lparr>bs_pixels := ShareableBitmap_paint bitmap (rect_x r) (rect_y r) ?src (bs_pixels bs)\<rparr>"
  have "IntRect_move (- rect_x b) (- rect_y b) r = Inr ?src" using r by (simp add: IntRect_move_def)
  moreover obtain bs' where bs': "paintRects bitmap b rs ?bs = Inr bs'" "bs_size bs' = bs_size ?bs"
    "\<And>p. bs_pixels bs' p = (if \<exists>r \<in> set rs. p \<in> rectPoints r then over (bitmap (minus_pt p (rect_x b, rect_y b))) (bs_pixels ?bs p) else bs_pixels ?bs p)"
    using Cons.IH[of ?bs] Cons.prems by auto
  moreover have "bs_pixels ?bs p = (if p \<in> rectPoints r then over (bitmap (minus_pt p (rect_x b, rect_y b))) (bs_pixels bs p) else bs_pixels bs p)" for p
  proof -
    have "rectHas (IntRect (rect_x r) (rect_y r) (rect_width r) (rect_height r)) p \<longleftrightarrow> p \<in> rectPoints r"
      by (simp add: rectHas_points[symmetric] rectHas_def IntRect_def)
    then show ?thesis by (simp add: ShareableBitmap_paint_def drawSurfaceToContext_def IntRect_def minus_pt_def)
  qed
  moreover have "over x (over x y) = over x y" for x and y :: 'a by (simp add: over_def split: option.split)
  ultimately show ?case by (intro exI[of _ bs']) (auto simp del: split_paired_All)
qed simp

subsection \<open>What display sends\<close>

lemma rectSmall_of_points:
  assumes "rectPoints r \<subseteq> box" "\<not> IntRect_isEmpty r"
  shows "rectSmall r"
  using assms by (auto simp: box_def rectPoints_subset_iff rectSmall_def rect_defs)

lemma areaSum_small: "\<forall>r \<in> set rs. rectSmall r \<Longrightarrow> \<exists>n. areaSum rs m = Inr n"
proof (induction rs arbitrary: m)
  case (Cons r rs)
  then obtain k where "checked (rect_width r * rect_height r) = Inr k"
    using rectArea_small[of r] by (auto simp: rectArea_def thenS_Inr_iff)
  with Cons show ?case by simp
qed simp

lemma dirty_rects:
  assumes w: "webOK w"
  shows "\<exists>rs0 whole. rects (m_dirtyRegion w) = Inr rs0 \<and> shouldPaintBoundsRect (m_bounds (m_dirtyRegion w)) rs0 = Inr whole \<and>
    (\<forall>r \<in> set (if whole then [m_bounds (m_dirtyRegion w)] else rs0). rectNear r) \<and>
    dirtyPoints w \<subseteq> (\<Union>r \<in> set (if whole then [m_bounds (m_dirtyRegion w)] else rs0). rectPoints r)"
proof -
  let ?d = "m_dirtyRegion w"
  have ok: "regionOK ?d" "dirtyPoints w \<subseteq> box" using w by (auto simp: webOK_def)
  obtain rs where rs: "rects ?d = Inr rs" "\<forall>p. covers rs p = (if p \<in> regionPoints ?d then 1 else 0)"
    "\<forall>q \<in> set rs. rectNear q \<and> \<not> IntRect_isEmpty q" using rects_ok[OF ok(1)] by blast
  have U: "(\<Union>r \<in> set rs. rectPoints r) = dirtyPoints w" using covers_points[OF rs(2)] by (simp add: dirtyPoints_def)
  have small: "\<forall>r \<in> set rs. rectSmall r"
  proof
    fix r assume r: "r \<in> set rs"
    have "rectPoints r \<subseteq> box" using U ok(2) r by blast
    then show "rectSmall r" using rs(3) r by (simp add: rectSmall_of_points)
  qed
  have b: "rectSmall (m_bounds ?d)"
  proof (cases "regionPoints ?d = {}")
    case True
    then have "?d = Region_default" by (rule regionOK_bounds(3)[OF ok(1)])
    then show ?thesis by (simp add: Region_default_def rectSmall_def rect_defs)
  next
    case False
    have "tight (regionPoints ?d) (m_bounds ?d)" using regionOK_bounds(2)[OF ok(1) False] .
    then have "rectPoints (m_bounds ?d) \<subseteq> box" "\<not> IntRect_isEmpty (m_bounds ?d)"
      using ok(2) by (auto simp: tight_def box_def dirtyPoints_def simp flip: rectPoints_empty_iff)
    then show ?thesis by (rule rectSmall_of_points)
  qed
  have "\<exists>whole. shouldPaintBoundsRect (m_bounds ?d) rs = Inr whole"
    using rectArea_small[OF b] areaSum_small[OF small, of 0] by (auto simp: shouldPaintBoundsRect_def)
  then obtain whole where "shouldPaintBoundsRect (m_bounds ?d) rs = Inr whole" by blast
  moreover have "dirtyPoints w \<subseteq> rectPoints (m_bounds ?d)"
    using regionPoints_in_bounds[OF ok(1)] by (simp add: dirtyPoints_def)
  ultimately show ?thesis
    using rs(1,3) U rectSmall_near[OF b]
    by (intro exI[of _ rs] exI[of _ whole] conjI) auto
qed

definition updateInfoFor :: "intRect list \<Rightarrow> 'c webProcess \<Rightarrow> 'c updateInfo" where
  "updateInfoFor rs w =
     \<lparr>viewSize = page_size w, info_scrollRect = m_scrollRect w, info_scrollOffset = m_scrollOffset w,
      updateRectBounds = m_bounds (m_dirtyRegion w), updateRects = rs,
      bitmapHandle = Some (drawRects (page_content w) (m_bounds (m_dirtyRegion w)) rs)\<rparr>"

definition displayed :: "'c webProcess \<Rightarrow> 'c webProcess" where
  "displayed w = w\<lparr>m_dirtyRegion := Region_default, m_scrollRect := IntRect_default,
     m_scrollOffset := (0, 0), m_displayTimer := False\<rparr>"

lemma drawRects_has:
  assumes "r \<in> set rs" "p \<in> rectPoints r"
  shows "drawRects c b rs (minus_pt p (rect_x b, rect_y b)) = Some (c p)"
proof -
  have "rectHas r p" using assms(2) by (cases p) (simp add: rectHas_def mem_rectPoints)
  then show ?thesis using assms(1) by (auto simp: drawRects_def minus_pt_def list_ex_iff)
qed

lemma update_applies:
  assumes g: "graphicsOK g" and w: "webOK w" and bs: "bs_size bs = page_size w" "agreesWeb w (bs_pixels bs)"
    and rs: "\<forall>r \<in> set rs. rectNear r" "dirtyPoints w \<subseteq> (\<Union>r \<in> set rs. rectPoints r)"
  shows "\<exists>bs'. BackingStore_incorporateUpdate g True (updateInfoFor rs w) bs = Inr bs' \<and> bs_size bs' = page_size w \<and>
    (\<forall>p \<in> pagePoints w. bs_pixels bs' p = page_content w p)"
proof -
  let ?b = "m_bounds (m_dirtyRegion w)" and ?S = "rectPoints (m_scrollRect w)"
  have ok: "rectSmall (m_scrollRect w)" "offsetOK (m_scrollOffset w)" "rectNear ?b"
    using w regionOK_bounds(1) by (auto simp: webOK_def)
  obtain b1 where b1: "BackingStore_scroll g (m_scrollRect w) (m_scrollOffset w) bs = Inr b1" "bs_size b1 = bs_size bs"
    "\<And>p. (p \<in> ?S \<longrightarrow> minus_pt p (m_scrollOffset w) \<in> ?S \<and> minus_pt p (m_scrollOffset w) \<in> sizePoints (bs_size bs)) \<Longrightarrow>
       bs_pixels b1 p = scrolled ?S (m_scrollOffset w) (bs_pixels bs) p"
    using store_scroll[OF g ok(1,2), of bs] by blast
  let ?bitmap = "drawRects (page_content w) ?b rs"
  obtain b2 where b2: "paintRects ?bitmap ?b rs b1 = Inr b2" "bs_size b2 = bs_size b1"
    "\<And>p. bs_pixels b2 p = (if \<exists>r \<in> set rs. p \<in> rectPoints r then over (?bitmap (minus_pt p (rect_x ?b, rect_y ?b))) (bs_pixels b1 p) else bs_pixels b1 p)"
    using store_paint[OF ok(3) rs(1), of ?bitmap b1] by blast
  have "bs_pixels b2 p = page_content w p" if p: "p \<in> pagePoints w" for p
  proof (cases "\<exists>r \<in> set rs. p \<in> rectPoints r")
    case True
    then obtain r where "r \<in> set rs" "p \<in> rectPoints r" by blast
    from drawRects_has[OF this, of "page_content w" ?b] True b2(3)[of p] show ?thesis by (simp add: over_def)
  next
    case False
    then have "p \<notin> dirtyPoints w" using rs(2) by auto
    then have "page_content w p = scrolled ?S (m_scrollOffset w) (bs_pixels bs) p"
      "p \<in> ?S \<longrightarrow> minus_pt p (m_scrollOffset w) \<in> ?S \<and> minus_pt p (m_scrollOffset w) \<in> sizePoints (bs_size bs)"
      using bs p by (auto simp: agreesWeb_def agrees_def pagePoints_size)
    with False b2(3)[of p] b1(3)[of p] show ?thesis by simp
  qed
  with b1 b2 bs(1) show ?thesis
    by (intro exI[of _ b2]) (simp add: BackingStore_incorporateUpdate_def updateInfoFor_def)
qed

text \<open>
  Display either keeps everything, when no bitmap can be made, or sends an update that covers the
  dirty region.
\<close>

lemma display_info_cases:
  assumes w: "webOK w" and c: "callsOK (r_layout env) w"
  obtains w1 where "keeps w w1" "\<not> r_bitmap env" "display_info env w = Inr (UpdateInfo\<lparr>viewSize := page_size w\<rparr>, w1)"
  | w1 rs where "keeps w w1" "r_bitmap env" "display_info env w = Inr (updateInfoFor rs w1, displayed w1)"
      "\<forall>r \<in> set rs. rectNear r" "dirtyPoints w1 \<subseteq> (\<Union>r \<in> set rs. rectPoints r)"
proof -
  obtain w1 where w1: "runCalls (r_layout env) w = Inr w1" "keeps w w1" using runCalls_keeps[OF w c] by blast
  have ok: "webOK w1" "page_size w1 = page_size w" "\<not> page_customRepresentation w"
    using w1(2) w onlyPaint_fields(7)[of w w1] by (auto simp: keeps_def webOK_def)
  show ?thesis
  proof (cases "r_bitmap env")
    case False
    then have "display_info env w = Inr (UpdateInfo\<lparr>viewSize := page_size w\<rparr>, w1)"
      using w1(1) ok by (simp add: display_info_def Let_def)
    with that(1) w1(2) False show ?thesis by blast
  next
    case True
    obtain rs0 whole where r: "rects (m_dirtyRegion w1) = Inr rs0"
      "shouldPaintBoundsRect (m_bounds (m_dirtyRegion w1)) rs0 = Inr whole"
      "\<forall>r \<in> set (if whole then [m_bounds (m_dirtyRegion w1)] else rs0). rectNear r"
      "dirtyPoints w1 \<subseteq> (\<Union>r \<in> set (if whole then [m_bounds (m_dirtyRegion w1)] else rs0). rectPoints r)"
      using dirty_rects[OF ok(1)] by blast
    have "display_info env w = Inr (updateInfoFor (if whole then [m_bounds (m_dirtyRegion w1)] else rs0) w1, displayed w1)"
      using True w1(1) ok r(1,2) by (simp add: display_info_def Let_def updateInfoFor_def displayed_def UpdateInfo_def)
    with that(2) w1(2) True r(3,4) show ?thesis by blast
  qed
qed

lemma displayed_OK:
  assumes "webOK w"
  shows "webOK (displayed w)" "scheduled (displayed w)" "scrollInside (displayed w)" "dirtyPoints (displayed w) = {}"
  using assms by (simp_all add: webOK_def displayed_def scheduled_def scrollInside_def dirtyPoints_def rectSmall_def offsetOK_def rect_defs)

lemma displayed_agrees:
  assumes "\<forall>p \<in> pagePoints w. s p = page_content w p"
  shows "agreesWeb (displayed w) s"
  using assms by (auto simp: agreesWeb_def agrees_def displayed_def scrolled_def pagePoints_def page_bounds_def)

end
