(* ===== verification/DA_Sync.thy ===== *)
theory DA_Sync
  imports DA_Store
begin

section \<open>The store that is on its way\<close>

text \<open>
  What the UI process will hold once it has received the messages under way: its current state
  identifier and its store, followed through the list of messages by \<open>absorbAll\<close>. The web process is
  \<open>synced\<close> with that store when the store agrees with the page outside the dirty region, or when the
  whole page is dirty.
\<close>

definition absorbInfo :: "'c graphics \<Rightarrow> 'c updateInfo \<Rightarrow> 'c backingStore option \<Rightarrow> 'c backingStore option checked" where
  "absorbInfo g info so =
     (if IntRect_isEmpty (updateRectBounds info) then Inr so
      else thenS (BackingStore_incorporateUpdate g True info
                    (case so of None \<Rightarrow> \<lparr>bs_size = viewSize info, bs_pixels = g_fresh g\<rparr> | Some bs \<Rightarrow> bs)) (\<lambda>bs. Inr (Some bs)))"

definition staleDropped :: "'c updateInfo \<Rightarrow> 'c backingStore option \<Rightarrow> 'c backingStore option" where
  "staleDropped info so = (case so of None \<Rightarrow> None | Some bs \<Rightarrow> if bs_size bs \<noteq> viewSize info then None else so)"

fun absorb :: "'c graphics \<Rightarrow> 'c uiMessage \<Rightarrow> nat \<times> 'c backingStore option \<Rightarrow> (nat \<times> 'c backingStore option) checked" where
  "absorb g (Update i info) (cur, so) =
     (if i < cur then Inr (cur, so) else thenS (absorbInfo g info so) (\<lambda>so'. Inr (cur, so')))"
| "absorb g (DidUpdateBackingStoreState i info) (cur, so) =
     thenS (absorbInfo g info (staleDropped info so)) (\<lambda>so'. Inr (i, so'))"

fun absorbAll :: "'c graphics \<Rightarrow> 'c uiMessage list \<Rightarrow> nat \<times> 'c backingStore option \<Rightarrow> (nat \<times> 'c backingStore option) checked" where
  "absorbAll g [] v = Inr v"
| "absorbAll g (m # ms) v = thenS (absorb g m v) (absorbAll g ms)"

definition uiView :: "'c uiProcess \<Rightarrow> nat \<times> 'c backingStore option" where
  "uiView u = (m_currentBackingStoreStateID u, m_backingStore u)"

lemma absorbAll_append: "absorbAll g (ms @ ms') v = thenS (absorbAll g ms v) (absorbAll g ms')"
proof (induction ms arbitrary: v)
  case (Cons m ms)
  then show ?case by (cases "absorb g m v") simp_all
qed simp

text \<open>What the UI process does to its view when it receives a message, and what it sends.\<close>

lemma sendUpdate_view [simp]:
  "uiView (sendUpdateBackingStoreState b u) = uiView u"
  "m_nextBackingStoreStateID (sendUpdateBackingStoreState b u) = m_nextBackingStoreStateID u"
  "proxy_size (sendUpdateBackingStoreState b u) = proxy_size u"
  "proxy_viewSize (sendUpdateBackingStoreState b u) = proxy_viewSize u"
  "m_backingStore (sendUpdateBackingStoreState b u) = m_backingStore u"
  "m_currentBackingStoreStateID (sendUpdateBackingStoreState b u) = m_currentBackingStoreStateID u"
  by (simp_all add: sendUpdateBackingStoreState_def sendToWeb_def uiView_def)

lemma incorporate_view:
  "proxy_incorporateUpdate g True info u =
   thenS (absorbInfo g info (m_backingStore u)) (\<lambda>so. Inr (u\<lparr>m_backingStore := so\<rparr>))"
proof (cases "IntRect_isEmpty (updateRectBounds info)")
  case False
  let ?bs = "case m_backingStore u of None \<Rightarrow> \<lparr>bs_size = viewSize info, bs_pixels = g_fresh g\<rparr> | Some bs \<Rightarrow> bs"
  show ?thesis
    using False by (cases "BackingStore_incorporateUpdate g True info ?bs") (simp_all add: proxy_incorporateUpdate_def absorbInfo_def)
qed (simp add: proxy_incorporateUpdate_def absorbInfo_def)

lemma dropStale_view: "dropStaleStore info u = u\<lparr>m_backingStore := staleDropped info (m_backingStore u)\<rparr>"
  by (simp add: dropStaleStore_def staleDropped_def split: option.split)

lemma uiReceives_view:
  assumes "absorb g m (uiView u) = Inr v"
  obtains u' where "uiReceives g True m u = Inr u'" "uiView u' = v" "m_nextBackingStoreStateID u' = m_nextBackingStoreStateID u"
    "proxy_size u' = proxy_size u" "proxy_viewSize u' = proxy_viewSize u"
    "ui_sent u' = ui_sent u @ (case m of Update i _ \<Rightarrow> if i < fst (uiView u) then [] else [DidUpdate]
       | DidUpdateBackingStoreState i _ \<Rightarrow>
           if m_nextBackingStoreStateID u \<noteq> i \<and> proxy_isValid u \<and> \<not> sizeIsEmpty (proxy_viewSize u)
           then [UpdateBackingStoreState (m_nextBackingStoreStateID u) True (proxy_size u) (proxy_scrollOffset u)] else [])"
proof (cases m)
  case (Update i info)
  show ?thesis
  proof (cases "i < m_currentBackingStoreStateID u")
    case True
    then show ?thesis using that[of u] assms Update by (auto simp: proxy_update_def uiView_def)
  next
    case False
    then obtain so where so: "absorbInfo g info (m_backingStore u) = Inr so" "v = (m_currentBackingStoreStateID u, so)"
      using assms Update by (auto simp: uiView_def thenS_Inr_iff)
    then have "uiReceives g True m u = Inr (sendToWeb DidUpdate (u\<lparr>m_backingStore := so\<rparr>))"
      using Update False by (simp add: proxy_update_def incorporate_view)
    then show ?thesis by (rule that) (use Update False so in \<open>simp_all add: sendToWeb_def uiView_def\<close>)
  qed
next
  case (DidUpdateBackingStoreState i info)
  let ?u1 = "u\<lparr>m_currentBackingStoreStateID := i, m_isWaitingForDidUpdateBackingStoreState := False\<rparr>"
  let ?u2 = "if m_nextBackingStoreStateID ?u1 \<noteq> i then sendUpdateBackingStoreState True ?u1 else ?u1\<lparr>m_hasReceivedFirstUpdate := True\<rparr>"
  obtain so where so: "absorbInfo g info (staleDropped info (m_backingStore u)) = Inr so" "v = (i, so)"
    using assms DidUpdateBackingStoreState by (auto simp: uiView_def thenS_Inr_iff)
  have "m_backingStore ?u2 = m_backingStore u" "m_currentBackingStoreStateID ?u2 = i" by simp_all
  then have "uiReceives g True m u = Inr (?u2\<lparr>m_backingStore := so\<rparr>)"
    using DidUpdateBackingStoreState so(1)
    by (simp add: proxy_didUpdateBackingStoreState_def Let_def incorporate_view dropStale_view)
  then show ?thesis
    by (rule that) (use DidUpdateBackingStoreState so in
      \<open>simp_all add: uiView_def sendUpdateBackingStoreState_def sendToWeb_def\<close>)
qed

subsection \<open>Updates that can be incorporated\<close>

definition infoOK :: "'c updateInfo \<Rightarrow> bool" where
  "infoOK info \<longleftrightarrow> rectSmall (info_scrollRect info) \<and> offsetOK (info_scrollOffset info) \<and>
     rectNear (updateRectBounds info) \<and> (\<forall>r \<in> set (updateRects info). rectNear r) \<and> sizeOK (viewSize info)"

fun msgInfo :: "'c uiMessage \<Rightarrow> 'c updateInfo" where
  "msgInfo (Update i info) = info"
| "msgInfo (DidUpdateBackingStoreState i info) = info"

fun msgID :: "'c uiMessage \<Rightarrow> nat" where
  "msgID (Update i info) = i"
| "msgID (DidUpdateBackingStoreState i info) = i"

definition storeOK :: "'c backingStore option \<Rightarrow> bool" where
  "storeOK so \<longleftrightarrow> (\<forall>bs. so = Some bs \<longrightarrow> sizeOK (bs_size bs))"

lemma absorbInfo_total:
  assumes g: "graphicsOK g" and i: "infoOK info"
  shows "\<exists>so'. absorbInfo g info so = Inr so' \<and> (storeOK so \<longrightarrow> storeOK so')"
proof -
  have "\<exists>bs'. BackingStore_incorporateUpdate g True info bs = Inr bs' \<and> bs_size bs' = bs_size bs" for bs
  proof (cases "bitmapHandle info")
    case (Some bitmap)
    obtain b1 where b1: "BackingStore_scroll g (info_scrollRect info) (info_scrollOffset info) bs = Inr b1" "bs_size b1 = bs_size bs"
      using store_scroll[OF g, of "info_scrollRect info" "info_scrollOffset info" bs] i by (auto simp: infoOK_def)
    obtain b2 where "paintRects bitmap (updateRectBounds info) (updateRects info) b1 = Inr b2" "bs_size b2 = bs_size b1"
      using store_paint[of "updateRectBounds info" "updateRects info" bitmap b1] i by (auto simp: infoOK_def)
    with b1 Some show ?thesis by (simp add: BackingStore_incorporateUpdate_def)
  qed (simp add: BackingStore_incorporateUpdate_def)
  then obtain bs' where "BackingStore_incorporateUpdate g True info
      (case so of None \<Rightarrow> \<lparr>bs_size = viewSize info, bs_pixels = g_fresh g\<rparr> | Some bs \<Rightarrow> bs) = Inr bs'"
    "bs_size bs' = bs_size (case so of None \<Rightarrow> \<lparr>bs_size = viewSize info, bs_pixels = g_fresh g\<rparr> | Some bs \<Rightarrow> bs)" by blast
  with i show ?thesis by (auto simp: absorbInfo_def storeOK_def infoOK_def split: option.splits)
qed

lemma absorbAll_total:
  assumes g: "graphicsOK g" and i: "\<forall>m \<in> set ms. infoOK (msgInfo m)"
  shows "\<exists>v'. absorbAll g ms v = Inr v'"
  using i
proof (induction ms arbitrary: v)
  case (Cons m ms)
  have "\<exists>v'. absorb g m v = Inr v'"
    using absorbInfo_total[OF g, of "msgInfo m"] Cons.prems by (cases m; cases v) (fastforce simp: thenS_Inr_iff)+
  with Cons show ?case by auto
qed simp

subsection \<open>Agreement with a store\<close>

definition synced :: "'c webProcess \<Rightarrow> 'c backingStore option \<Rightarrow> bool" where
  "synced w so \<longleftrightarrow> (\<forall>bs. so = Some bs \<longrightarrow> bs_size bs = page_size w) \<and>
     (pagePoints w \<subseteq> dirtyPoints w \<or> (\<exists>bs. so = Some bs \<and> agreesWeb w (bs_pixels bs) \<and> scrollInside w))"

lemma synced_keeps: "synced w so \<Longrightarrow> keeps w w' \<Longrightarrow> synced w' so"
  using onlyPaint_fields(7)[of w w'] unfolding synced_def keeps_def by auto

lemma synced_stale:
  assumes "pagePoints w \<subseteq> dirtyPoints w" "viewSize info = page_size w"
  shows "synced w (staleDropped info so)"
  using assms by (auto simp: synced_def staleDropped_def split: option.splits if_splits)

lemma covers_agrees: "pagePoints w \<subseteq> dirtyPoints w \<Longrightarrow> agreesWeb w s"
  by (auto simp: agreesWeb_def agrees_def)

lemma pagePoints_nonempty: "webOK w \<Longrightarrow> pagePoints w \<noteq> {}"
  using page_bounds_small[of w] by (simp add: webOK_def pagePoints_def rectPoints_empty_iff)

lemma displayed_size [simp]: "page_size (displayed w) = page_size w" "pagePoints (displayed w) = pagePoints w"
  by (simp_all add: displayed_def)

lemma updateInfoFor_fields [simp]:
  "viewSize (updateInfoFor rs w) = page_size w"
  "updateRectBounds (updateInfoFor rs w) = m_bounds (m_dirtyRegion w)"
  by (simp_all add: updateInfoFor_def)

text \<open>An update computed from a synced state leaves both sides synced.\<close>

lemma update_syncs:
  assumes g: "graphicsOK g" and w: "webOK w" "synced w so"
    and rs: "\<forall>r \<in> set rs. rectNear r" "dirtyPoints w \<subseteq> (\<Union>r \<in> set rs. rectPoints r)"
  shows "\<exists>so'. absorbInfo g (updateInfoFor rs w) so = Inr so' \<and> synced (displayed w) so'"
proof (cases "IntRect_isEmpty (m_bounds (m_dirtyRegion w))")
  case True
  have "dirtyPoints w = {}"
    using regionOK_isEmpty[of "m_dirtyRegion w"] True w(1) by (simp add: webOK_def dirtyPoints_def Region_isEmpty_def)
  then obtain bs where bs: "so = Some bs" "agreesWeb w (bs_pixels bs)" "scrollInside w" "bs_size bs = page_size w"
    using w pagePoints_nonempty by (auto simp: synced_def)
  have "\<forall>p \<in> pagePoints w. bs_pixels bs p = page_content w p"
    using agrees_clean[of "page_bounds w" "m_scrollRect w" "m_scrollOffset w" "page_content w" "bs_pixels bs"] bs(2,3) \<open>dirtyPoints w = {}\<close>
    by (auto simp: agreesWeb_def pagePoints_def scrollInside_def)
  then have "synced (displayed w) so"
    using bs displayed_agrees displayed_OK(3)[OF w(1)] by (auto simp: synced_def)
  with True show ?thesis by (simp add: absorbInfo_def)
next
  case False
  let ?bs = "case so of None \<Rightarrow> \<lparr>bs_size = page_size w, bs_pixels = g_fresh g\<rparr> | Some bs \<Rightarrow> bs"
  have bs: "bs_size ?bs = page_size w" using w(2) by (auto simp: synced_def split: option.split)
  have ag: "agreesWeb w (bs_pixels ?bs)" using w(2) covers_agrees by (auto simp: synced_def split: option.split)
  obtain bs' where b': "BackingStore_incorporateUpdate g True (updateInfoFor rs w) ?bs = Inr bs'" "bs_size bs' = page_size w"
    "\<forall>p \<in> pagePoints w. bs_pixels bs' p = page_content w p"
    using update_applies[OF g w(1) bs ag rs] by blast
  have "absorbInfo g (updateInfoFor rs w) so = Inr (Some bs')"
    using b'(1) False by (simp add: absorbInfo_def cong: option.case_cong)
  moreover have "synced (displayed w) (Some bs')"
    using b'(2) displayed_agrees[OF b'(3)] displayed_OK(3)[OF w(1)] by (simp add: synced_def)
  ultimately show ?thesis by blast
qed

subsection \<open>What the web process sends\<close>

definition sameState :: "'c webProcess \<Rightarrow> 'c webProcess \<Rightarrow> bool" where
  "sameState w w' \<longleftrightarrow> m_backingStoreStateID w' = m_backingStoreStateID w \<and>
     m_shouldSendDidUpdateBackingStoreState w' = m_shouldSendDidUpdateBackingStoreState w \<and>
     m_isWaitingForDidUpdate w' = m_isWaitingForDidUpdate w \<and> m_isPaintingSuspended w' = m_isPaintingSuspended w \<and>
     web_sent w' = web_sent w \<and> page_size w' = page_size w"

lemma keeps_same: "keeps w w' \<Longrightarrow> sameState w w'"
  using onlyPaint_fields[of w w'] by (simp add: keeps_def sameState_def)

lemma displayed_same: "sameState w (displayed w)"
  by (simp add: sameState_def displayed_def)

lemma sameState_trans: "sameState a b \<Longrightarrow> sameState b c \<Longrightarrow> sameState a c"
  by (simp add: sameState_def)

lemma infoOK_default: "sizeOK z \<Longrightarrow> infoOK (UpdateInfo\<lparr>viewSize := z\<rparr>)"
  by (simp add: infoOK_def UpdateInfo_def rectSmall_def offsetOK_def rectNear_def near_def rect_defs)

lemma infoOK_for: "webOK w \<Longrightarrow> \<forall>r \<in> set rs. rectNear r \<Longrightarrow> infoOK (updateInfoFor rs w)"
  using regionOK_bounds(1)[of "m_dirtyRegion w"] by (simp add: infoOK_def updateInfoFor_def webOK_def)

lemma display_info_delivers:
  assumes g: "graphicsOK g" and w: "webOK w" and c: "callsOK (r_layout env) w"
  shows "\<exists>info w'. display_info env w = Inr (info, w') \<and> webOK w' \<and> sameState w w' \<and> infoOK info \<and>
    viewSize info = page_size w \<and> (\<forall>so. synced w so \<longrightarrow> (\<exists>so'. absorbInfo g info so = Inr so' \<and> synced w' so')) \<and>
    (r_bitmap env \<longrightarrow> dirtyPoints w' = {})"
  using w c
proof (cases rule: display_info_cases)
  case (1 w1)
  have "absorbInfo g (UpdateInfo\<lparr>viewSize := page_size w\<rparr>) so = Inr so" for so
    by (simp add: absorbInfo_def UpdateInfo_def rect_defs)
  moreover have "webOK w1" using 1(1) by (simp add: keeps_def)
  moreover have "synced w1 so" if "synced w so" for so using that 1(1) by (rule synced_keeps)
  ultimately show ?thesis
    using 1(2,3) keeps_same[OF 1(1)] infoOK_default[of "page_size w"] w(1)[unfolded webOK_def]
    by (intro exI[of _ "UpdateInfo\<lparr>viewSize := page_size w\<rparr>"] exI[of _ w1]) simp
next
  case (2 w1 rs)
  have w1: "webOK w1" "page_size w1 = page_size w" using 2(1) keeps_same[OF 2(1)] by (auto simp: keeps_def sameState_def)
  have "synced w so \<Longrightarrow> \<exists>so'. absorbInfo g (updateInfoFor rs w1) so = Inr so' \<and> synced (displayed w1) so'" for so
    using update_syncs[OF g w1(1) _ 2(4,5)] synced_keeps[OF _ 2(1)] by blast
  moreover have "sameState w (displayed w1)"
    using sameState_trans[OF keeps_same[OF 2(1)] displayed_same] .
  ultimately show ?thesis
    using 2(3) w1 displayed_OK(1,4)[OF w1(1)] infoOK_for[OF w1(1) 2(4)]
    by (intro exI[of _ "updateInfoFor rs w1"] exI[of _ "displayed w1"]) simp
qed

text \<open>The relation between the web process and the view the UI process will have.\<close>

definition viewOK :: "nat \<Rightarrow> 'c webProcess \<Rightarrow> nat \<times> 'c backingStore option \<Rightarrow> bool" where
  "viewOK nxt w v \<longleftrightarrow> m_backingStoreStateID w \<le> nxt \<and>
     (if m_shouldSendDidUpdateBackingStoreState w then fst v < m_backingStoreStateID w else fst v = m_backingStoreStateID w) \<and>
     (m_backingStoreStateID w = nxt \<and> nxt \<noteq> 0 \<longrightarrow>
        (if m_shouldSendDidUpdateBackingStoreState w then pagePoints w \<subseteq> dirtyPoints w else synced w (snd v)))"

definition lively :: "'c webProcess \<Rightarrow> bool" where
  "lively w \<longleftrightarrow> \<not> m_shouldSendDidUpdateBackingStoreState w \<longrightarrow> scheduled w"

definition delivers :: "'c graphics \<Rightarrow> bool \<Rightarrow> nat \<Rightarrow> 'c webProcess \<Rightarrow> nat \<times> 'c backingStore option \<Rightarrow> 'c webProcess \<Rightarrow> bool" where
  "delivers g b nxt w v w' \<longleftrightarrow> webOK w' \<and> m_backingStoreStateID w' = m_backingStoreStateID w \<and>
     (\<exists>ms v'. web_sent w' = web_sent w @ ms \<and>
        (\<forall>m \<in> set ms. infoOK (msgInfo m) \<and> msgID m = m_backingStoreStateID w) \<and>
        absorbAll g ms v = Inr v' \<and> viewOK nxt w' v' \<and>
        (m_isWaitingForDidUpdate w' \<longrightarrow>
           m_isWaitingForDidUpdate w \<or> (\<exists>info. Update (m_backingStoreStateID w) info \<in> set ms))) \<and>
     (b \<and> lively w \<longrightarrow> lively w')"

lemma quiet_lively: "m_isPaintingSuspended w \<or> dirtyPoints w = {} \<Longrightarrow> lively w"
  by (auto simp: lively_def scheduled_def)

lemma viewOK_update [simp]:
  "viewOK nxt (w\<lparr>m_isWaitingForDidUpdate := x\<rparr>) v = viewOK nxt w v"
  "viewOK nxt (w\<lparr>m_displayTimer := x\<rparr>) v = viewOK nxt w v"
  "viewOK nxt (w\<lparr>m_isPaintingSuspended := x\<rparr>) v = viewOK nxt w v"
  "viewOK nxt (w\<lparr>m_inUpdateBackingStoreState := x\<rparr>) v = viewOK nxt w v"
  by (simp_all add: viewOK_def synced_def agreesWeb_def scrollInside_def)

lemma delivers_silent:
  assumes "webOK w'" "m_backingStoreStateID w' = m_backingStoreStateID w" "web_sent w' = web_sent w" "viewOK nxt w' v"
    "m_isWaitingForDidUpdate w' \<longrightarrow> m_isWaitingForDidUpdate w" "b \<and> lively w \<longrightarrow> lively w'"
  shows "delivers g b nxt w v w'"
  unfolding delivers_def using assms by (intro conjI exI[of _ "[]"] exI[of _ v]) simp_all

lemma delivers_message:
  assumes "webOK w'" "m_backingStoreStateID w' = m_backingStoreStateID w" "web_sent w' = web_sent w @ [m]" "viewOK nxt w' v'"
    "infoOK (msgInfo m)" "msgID m = m_backingStoreStateID w" "absorb g m v = Inr v'"
    "m_isWaitingForDidUpdate w' \<longrightarrow> m_isWaitingForDidUpdate w \<or> (\<exists>info. Update (m_backingStoreStateID w) info = m)"
    "b \<and> lively w \<longrightarrow> lively w'"
  shows "delivers g b nxt w v w'"
  unfolding delivers_def using assms by (intro conjI exI[of _ "[m]"] exI[of _ v']) simp_all

lemma keeps_pagePoints: "keeps w w' \<Longrightarrow> pagePoints w' = pagePoints w"
  unfolding keeps_def by (intro onlyPaint_fields(11)) simp

lemma viewOK_keeps:
  assumes "keeps w w'" "viewOK nxt w v"
  shows "viewOK nxt w' v"
proof -
  have s: "sameState w w'" by (rule keeps_same[OF assms(1)])
  have "pagePoints w \<subseteq> dirtyPoints w \<Longrightarrow> pagePoints w' \<subseteq> dirtyPoints w'" using assms(1) by (simp add: keeps_def)
  with assms(2) s synced_keeps[OF _ assms(1)] show ?thesis by (simp add: viewOK_def sameState_def split: if_splits)
qed

lemma delivers_keeps:
  assumes "keeps w w'" "viewOK nxt w v"
  shows "delivers g b nxt w v w'"
proof (rule delivers_silent)
  show "viewOK nxt w' v" using viewOK_keeps[OF assms] .
qed (use keeps_same[OF assms(1)] assms(1) in \<open>simp_all add: sameState_def keeps_def lively_def\<close>)

lemma sendDid_delivers:
  assumes g: "graphicsOK g" and w: "webOK w" "viewOK nxt w v"
    and q: "m_shouldSendDidUpdateBackingStoreState w" "\<not> m_isPaintingSuspended w"
    and c: "callsOK (r_layout env) (w\<lparr>m_shouldSendDidUpdateBackingStoreState := False\<rparr>)" and b: "b \<longrightarrow> r_bitmap env"
  shows "\<exists>w'. sendDidUpdateBackingStoreState env w = Inr w' \<and> delivers g b nxt w v w' \<and> (b \<longrightarrow> dirtyPoints w' = {})"
proof -
  let ?w1 = "w\<lparr>m_shouldSendDidUpdateBackingStoreState := False\<rparr>" and ?i = "m_backingStoreStateID w"
  have "webOK ?w1" using w(1) by simp
  from display_info_delivers[OF g this c] obtain info w2 where
    d: "display_info env ?w1 = Inr (info, w2)" "webOK w2" "sameState ?w1 w2" "infoOK info" "viewSize info = page_size w"
      "\<And>so. synced ?w1 so \<Longrightarrow> \<exists>so'. absorbInfo g info so = Inr so' \<and> synced w2 so'" "r_bitmap env \<longrightarrow> dirtyPoints w2 = {}"
    by auto
  let ?w' = "sendToUI (DidUpdateBackingStoreState ?i info) w2"
  obtain so' where so': "absorbInfo g info (staleDropped info (snd v)) = Inr so'"
    using absorbInfo_total[OF g d(4)] by blast
  have "synced w2 so'" if "?i = nxt" "nxt \<noteq> 0"
  proof -
    have "pagePoints ?w1 \<subseteq> dirtyPoints ?w1" using w(2) q(1) that by (simp add: viewOK_def)
    then have "synced ?w1 (staleDropped info (snd v))" using d(5) by (intro synced_stale) simp_all
    from d(6)[OF this] so' show ?thesis by simp
  qed
  then have "viewOK nxt ?w' (?i, so')"
    using w(2) d(3) by (simp add: viewOK_def sameState_def sendToUI_def synced_def agreesWeb_def scrollInside_def)
  moreover have "sendDidUpdateBackingStoreState env w = Inr ?w'"
    using q(2) d(1,3) by (simp add: sendDidUpdateBackingStoreState_def Let_def sameState_def)
  moreover have "absorb g (DidUpdateBackingStoreState ?i info) v = Inr (?i, so')"
    using so' by (cases v) simp
  moreover have "b \<Longrightarrow> lively ?w'" using d(7) b by (simp add: lively_def sendToUI_def scheduled_def)
  ultimately show ?thesis
    using d(2,3,4,7) b by (intro exI[of _ ?w'] conjI delivers_message[where m = "DidUpdateBackingStoreState ?i info"])
      (simp_all add: sameState_def sendToUI_def)
qed

text \<open>The page's part of the contract when display runs layout.\<close>

definition displayOK :: "'c reaction \<Rightarrow> 'c webProcess \<Rightarrow> bool" where
  "displayOK env w \<longleftrightarrow> callsOK (r_layout env) (w\<lparr>m_shouldSendDidUpdateBackingStoreState := False\<rparr>)"

lemma display_delivers:
  assumes g: "graphicsOK g" and w: "webOK w" "viewOK nxt w v" and c: "displayOK env w" and b: "b \<longrightarrow> r_bitmap env"
  shows "\<exists>w'. display env w = Inr w' \<and> delivers g b nxt w v w' \<and> (b \<longrightarrow> m_isPaintingSuspended w' \<or> dirtyPoints w' = {})"
proof (cases "m_isPaintingSuspended w \<or> Region_isEmpty (m_dirtyRegion w)")
  case True
  moreover have "Region_isEmpty (m_dirtyRegion w) \<longleftrightarrow> dirtyPoints w = {}"
    using w(1) regionOK_isEmpty by (auto simp: webOK_def dirtyPoints_def)
  ultimately show ?thesis
    using delivers_keeps[OF keeps_refl[OF w(1)] w(2)] by (auto simp: display_def)
next
  case False
  show ?thesis
  proof (cases "m_shouldSendDidUpdateBackingStoreState w")
    case True
    have susp: "\<not> m_isPaintingSuspended w" using False by simp
    obtain w' where "sendDidUpdateBackingStoreState env w = Inr w'" "delivers g b nxt w v w'" "b \<longrightarrow> dirtyPoints w' = {}"
      using sendDid_delivers[OF g w True susp _ b] c by (auto simp: displayOK_def)
    with True False show ?thesis by (simp add: display_def)
  next
    case plain: False
    let ?i = "m_backingStoreStateID w"
    have "w\<lparr>m_shouldSendDidUpdateBackingStoreState := False\<rparr> = w" using plain by simp
    then have c': "callsOK (r_layout env) w" using c by (simp add: displayOK_def)
    obtain info w2 where d: "display_info env w = Inr (info, w2)" "webOK w2" "sameState w w2" "infoOK info"
        "\<And>so. synced w so \<Longrightarrow> \<exists>so'. absorbInfo g info so = Inr so' \<and> synced w2 so'" "r_bitmap env \<longrightarrow> dirtyPoints w2 = {}"
      using display_info_delivers[OF g w(1) c'] by auto
    let ?w' = "(sendToUI (Update ?i info) w2)\<lparr>m_isWaitingForDidUpdate := True\<rparr>"
    have cur: "fst v = ?i" using w(2) plain by (simp add: viewOK_def)
    obtain so' where so': "absorbInfo g info (snd v) = Inr so'" using absorbInfo_total[OF g d(4)] by blast
    have "synced w2 so'" if "?i = nxt" "nxt \<noteq> 0"
      using d(5)[of "snd v"] so' w(2) plain that by (auto simp: viewOK_def)
    then have "viewOK nxt ?w' (?i, so')"
      using w(2) d(3) plain by (simp add: viewOK_def sameState_def sendToUI_def synced_def agreesWeb_def scrollInside_def)
    moreover have "display env w = Inr ?w'"
      using False plain d(1,3) by (simp add: display_def sameState_def)
    moreover have "absorb g (Update ?i info) v = Inr (?i, so')"
      using so' cur by (cases v) simp
    moreover have "b \<Longrightarrow> lively ?w'" using d(6) b by (intro quiet_lively) (simp add: sendToUI_def)
    ultimately show ?thesis
      using d(2,3,4,6) b by (intro exI[of _ ?w'] conjI delivers_message[where m = "Update ?i info"])
        (simp_all add: sameState_def sendToUI_def)
  qed
qed

text \<open>The handlers that begin with a change of the flags.\<close>

lemma delivers_from:
  assumes "delivers g b nxt w0 v w'" "m_backingStoreStateID w0 = m_backingStoreStateID w" "web_sent w0 = web_sent w"
    "m_isWaitingForDidUpdate w0 \<longrightarrow> m_isWaitingForDidUpdate w" "b \<longrightarrow> m_isPaintingSuspended w' \<or> dirtyPoints w' = {}"
  shows "delivers g b nxt w v w'"
  using assms quiet_lively[of w'] unfolding delivers_def by auto

lemma delivers_flags:
  assumes "delivers g b nxt w v w'" "b \<longrightarrow> m_isPaintingSuspended w' \<or> dirtyPoints w' = {}"
  shows "delivers g b nxt w v (w'\<lparr>m_displayTimer := x\<rparr>)" "delivers g b nxt w v (w'\<lparr>m_inUpdateBackingStoreState := x\<rparr>)"
  using assms by (auto simp: delivers_def lively_def scheduled_def)

lemma didUpdate_delivers:
  assumes g: "graphicsOK g" and w: "webOK w" "viewOK nxt w v"
    and c: "displayOK env (w\<lparr>m_isWaitingForDidUpdate := False\<rparr>)" and b: "b \<longrightarrow> r_bitmap env"
  shows "\<exists>w'. didUpdate env w = Inr w' \<and> delivers g b nxt w v w' \<and>
    (m_isWaitingForDidUpdate w' \<longrightarrow> (\<exists>info. Update (m_backingStoreStateID w) info \<in> set (web_sent w')))"
proof -
  let ?w0 = "w\<lparr>m_isWaitingForDidUpdate := False\<rparr>"
  obtain w' where w': "display env ?w0 = Inr w'" "delivers g b nxt ?w0 v w'" "b \<longrightarrow> m_isPaintingSuspended w' \<or> dirtyPoints w' = {}"
    using display_delivers[OF g, of ?w0 nxt v env b] w c b by (simp del: split_paired_All) blast
  then have "m_isWaitingForDidUpdate w' \<longrightarrow> (\<exists>info. Update (m_backingStoreStateID w) info \<in> set (web_sent w'))"
    by (auto simp: delivers_def)
  with w' delivers_from[OF w'(2) _ _ _ w'(3), of w] show ?thesis by (simp add: didUpdate_def)
qed

lemma displayTimerFired_delivers:
  assumes g: "graphicsOK g" and w: "webOK w" "viewOK nxt w v" and c: "displayOK env w" and b: "b \<longrightarrow> r_bitmap env"
  shows "\<exists>w'. displayTimerFired env w = Inr w' \<and> delivers g b nxt w v w'"
  using display_delivers[OF assms] delivers_flags(1)[of g b nxt w v _ False] by (auto simp: displayTimerFired_def)

definition afterwards :: "'a checked \<Rightarrow> ('a \<Rightarrow> bool) \<Rightarrow> bool" where
  "afterwards r P = (case r of Inl _ \<Rightarrow> True | Inr w \<Rightarrow> P w)"

lemma afterwards_Inr [simp]: "afterwards (Inr w) P = P w"
  by (simp add: afterwards_def)

lemma needsDisplay_all:
  assumes w: "webOK w"
  shows "\<exists>w'. setNeedsDisplay (page_bounds w) w = Inr w' \<and> keeps w w' \<and> pagePoints w' \<subseteq> dirtyPoints w' \<and> scheduled w'"
proof -
  have n: "rectNear (page_bounds w)" using w page_bounds_small rectSmall_near by (auto simp: webOK_def)
  then have "callOK (Invalidate (page_bounds w) (page_content w)) w" by simp
  from invalidate_keeps[OF w this] obtain w' where w': "setNeedsDisplay (page_bounds w) w = Inr w'" "keeps w w'" by auto
  have "dirtyPoints w' = dirtyPoints w \<union> (rectPoints (page_bounds w) \<inter> pagePoints w) \<and> scheduled w'"
    using setNeedsDisplay_result[OF w n] w'(1) pagePoints_nonempty[OF w] by (auto simp: pagePoints_def)
  moreover have "pagePoints w' = pagePoints w" using w'(2) by (rule keeps_pagePoints)
  ultimately show ?thesis using w' by (auto simp: pagePoints_def)
qed

lemma suspend_delivers:
  assumes "webOK w" "viewOK nxt w v"
  shows "delivers g b nxt w v (suspendPainting w)"
  by (rule delivers_silent) (use assms in \<open>simp_all add: suspendPainting_def lively_def scheduled_def\<close>)

lemma resume_delivers:
  assumes w: "webOK w" "viewOK nxt w v"
  shows "\<exists>w'. resumePainting w = Inr w' \<and> delivers g b nxt w v w' \<and> \<not> m_isPaintingSuspended w' \<and>
    sameState (w\<lparr>m_isPaintingSuspended := False\<rparr>) w' \<and> viewOK nxt w' v"
proof (cases "m_isPaintingSuspended w")
  case True
  let ?w1 = "w\<lparr>m_isPaintingSuspended := False\<rparr>"
  obtain w' where w': "setNeedsDisplay (page_bounds ?w1) ?w1 = Inr w'" "keeps ?w1 w'" "scheduled w'"
    using needsDisplay_all[of ?w1] w(1) by auto
  have s: "sameState ?w1 w'" "viewOK nxt w' v" "webOK w'"
    using keeps_same[OF w'(2)] viewOK_keeps[OF w'(2)] w'(2) w(2) by (simp_all add: keeps_def)
  have "delivers g b nxt w v w'"
    by (rule delivers_silent) (use s w'(3) in \<open>simp_all add: sameState_def lively_def\<close>)
  with w' s True show ?thesis by (simp add: resumePainting_def Let_def sameState_def)
next
  case False
  then have "w\<lparr>m_isPaintingSuspended := False\<rparr> = w" by simp
  with False show ?thesis
    using delivers_keeps[OF keeps_refl[OF w(1)] w(2)] w(2) by (simp add: resumePainting_def sameState_def)
qed

definition forceRepaintOK :: "'c pageCall list \<Rightarrow> 'c reaction \<Rightarrow> 'c webProcess \<Rightarrow> bool" where
  "forceRepaintOK layout env w \<longleftrightarrow> afterwards (setNeedsDisplay (page_bounds w) w) (\<lambda>w1.
     callsOK layout w1 \<and> afterwards (runCalls layout w1) (\<lambda>w2. displayOK env (w2\<lparr>m_isWaitingForDidUpdate := False\<rparr>)))"

lemma forceRepaint_delivers:
  assumes g: "graphicsOK g" and w: "webOK w" "viewOK nxt w v" and c: "forceRepaintOK layout env w" and b: "b \<longrightarrow> r_bitmap env"
  shows "\<exists>w'. forceRepaint layout env w = Inr w' \<and> delivers g b nxt w v w'"
proof -
  obtain w1 where w1: "setNeedsDisplay (page_bounds w) w = Inr w1" "keeps w w1" using needsDisplay_all[OF w(1)] by blast
  then have c1: "webOK w1" "callsOK layout w1" using c by (simp_all add: forceRepaintOK_def keeps_def)
  obtain w2 where w2: "runCalls layout w1 = Inr w2" "keeps w1 w2" using runCalls_keeps[OF c1] by blast
  let ?w3 = "w2\<lparr>m_isWaitingForDidUpdate := False\<rparr>"
  have k: "keeps w w2" using keeps_trans[OF w1(2) w2(2)] .
  have w3: "webOK ?w3" "viewOK nxt ?w3 v" "displayOK env ?w3"
    using k viewOK_keeps[OF k w(2)] c w1(1) w2(1) by (simp_all add: keeps_def forceRepaintOK_def)
  obtain w' where w': "display env ?w3 = Inr w'" "delivers g b nxt ?w3 v w'" "b \<longrightarrow> m_isPaintingSuspended w' \<or> dirtyPoints w' = {}"
    using display_delivers[OF g w3 b] by blast
  have "delivers g b nxt w v w'"
    by (rule delivers_from[OF w'(2) _ _ _ w'(3)]) (use keeps_same[OF k] in \<open>simp_all add: sameState_def\<close>)
  with w1(1) w2(1) w'(1) show ?thesis by (simp add: forceRepaint_def)
qed

subsection \<open>A new state of the backing store\<close>

definition deliversTo :: "'c graphics \<Rightarrow> bool \<Rightarrow> nat \<Rightarrow> nat \<Rightarrow> 'c webProcess \<Rightarrow> nat \<times> 'c backingStore option \<Rightarrow> 'c webProcess \<Rightarrow> bool" where
  "deliversTo g b nxt i w v w' \<longleftrightarrow> webOK w' \<and> m_backingStoreStateID w' = i \<and>
     (\<exists>ms v'. web_sent w' = web_sent w @ ms \<and> (\<forall>m \<in> set ms. infoOK (msgInfo m) \<and> msgID m = i) \<and>
        absorbAll g ms v = Inr v' \<and> viewOK nxt w' v' \<and>
        (m_isWaitingForDidUpdate w' \<longrightarrow>
           m_isWaitingForDidUpdate w \<and> i = m_backingStoreStateID w \<or> (\<exists>info. Update i info \<in> set ms))) \<and>
     (b \<and> lively w \<longrightarrow> lively w')"

lemma deliversTo_same: "delivers g b nxt w v w' \<Longrightarrow> deliversTo g b nxt (m_backingStoreStateID w) w v w'"
  unfolding delivers_def deliversTo_def by auto

lemma deliversTo_from:
  assumes "delivers g b nxt w0 v w'" "m_backingStoreStateID w0 = i" "web_sent w0 = web_sent w" "\<not> m_isWaitingForDidUpdate w0"
    "b \<and> lively w \<longrightarrow> lively w'"
  shows "deliversTo g b nxt i w v w'"
  using assms unfolding delivers_def deliversTo_def by auto

lemma updatePage_ok:
  assumes w: "webOK w" and z: "sizeOK sz"
    and c: "afterwards (page_setSize sz content (w\<lparr>m_backingStoreStateID := i, m_shouldSendDidUpdateBackingStoreState := True\<rparr>)) (callsOK layout)"
  shows "\<exists>w'. updatePage i sz content layout w = Inr w' \<and> webOK w' \<and> pagePoints w' \<subseteq> dirtyPoints w' \<and>
    m_backingStoreStateID w' = i \<and> m_shouldSendDidUpdateBackingStoreState w' \<and> web_sent w' = web_sent w \<and>
    m_isPaintingSuspended w' = m_isPaintingSuspended w"
proof -
  let ?w0 = "w\<lparr>m_backingStoreStateID := i, m_shouldSendDidUpdateBackingStoreState := True\<rparr>"
  have "\<exists>w1. page_setSize sz content ?w0 = Inr w1 \<and> webOK w1 \<and> m_backingStoreStateID w1 = i \<and>
      m_shouldSendDidUpdateBackingStoreState w1 \<and> web_sent w1 = web_sent w \<and> m_isPaintingSuspended w1 = m_isPaintingSuspended w"
  proof (cases "page_size w = sz")
    case True
    then show ?thesis using w by (simp add: page_setSize_def)
  next
    case False
    have n: "rectNear (IntRect 0 0 (fst sz) (snd sz))" using z by (auto simp: sizeOK_def rectNear_def near_def rect_defs)
    obtain w1 where w1: "setNeedsDisplay (IntRect 0 0 (fst sz) (snd sz)) (?w0\<lparr>page_content := content\<rparr>) = Inr w1" "webOK w1"
      "onlyPaint (?w0\<lparr>page_content := content\<rparr>) w1"
      using setNeedsDisplay_result[OF _ n, of "?w0\<lparr>page_content := content\<rparr>"] w by auto
    have "webOK (w1\<lparr>page_size := sz\<rparr>)" using w1(2) z by (simp add: webOK_def)
    with False w1(1) onlyPaint_fields[OF w1(3)] show ?thesis by (simp add: page_setSize_def)
  qed
  then obtain w1 where w1: "page_setSize sz content ?w0 = Inr w1" "webOK w1" "m_backingStoreStateID w1 = i"
    "m_shouldSendDidUpdateBackingStoreState w1" "web_sent w1 = web_sent w" "m_isPaintingSuspended w1 = m_isPaintingSuspended w" by blast
  obtain w2 where w2: "runCalls layout w1 = Inr w2" "keeps w1 w2" using runCalls_keeps[OF w1(2)] c w1(1) by auto
  have ok2: "webOK w2" "sameState w1 w2" using w2(2) keeps_same[OF w2(2)] by (simp_all add: keeps_def)
  have small: "rectSmall (page_bounds w2)" "\<not> IntRect_isEmpty (page_bounds w2)"
    using ok2(1) page_bounds_small by (auto simp: webOK_def)
  obtain r where r: "Region_rect (page_bounds w2) = Inr r" "regionOK r" "regionPoints r = rectPoints (page_bounds w2)"
    using Region_rect_ok[OF rectSmall_near[OF small(1)] small(2)] by blast
  let ?w3 = "w2\<lparr>m_dirtyRegion := r\<rparr>"
  have "webOK ?w3" using ok2(1) r rectSmall_box[OF small(1)] by (simp add: webOK_def)
  moreover have "pagePoints ?w3 \<subseteq> dirtyPoints ?w3" using r(3) by (simp add: pagePoints_def page_bounds_def)
  ultimately show ?thesis
    using w1 w2(1) ok2(2) r(1) by (intro exI[of _ ?w3]) (simp add: updatePage_def sameState_def)
qed

definition updateOK :: "nat \<Rightarrow> bool \<Rightarrow> intSize \<Rightarrow> 'c pixels \<Rightarrow> 'c pageCall list \<Rightarrow> 'c reaction \<Rightarrow> 'c webProcess \<Rightarrow> bool" where
  "updateOK i respond sz content layout env w \<longleftrightarrow>
     (let w0 = w\<lparr>m_inUpdateBackingStoreState := True\<rparr>
      in (i \<noteq> m_backingStoreStateID w0 \<longrightarrow>
            afterwards (page_setSize sz content (w0\<lparr>m_backingStoreStateID := i, m_shouldSendDidUpdateBackingStoreState := True\<rparr>)) (callsOK layout)) \<and>
         (respond \<longrightarrow>
            afterwards (if i \<noteq> m_backingStoreStateID w0 then updatePage i sz content layout w0 else Inr w0) (\<lambda>w1.
              let w2 = w1\<lparr>m_isWaitingForDidUpdate := False\<rparr>
              in afterwards (if m_isPaintingSuspended w2 then resumePainting w2 else Inr w2) (displayOK env))))"

text \<open>The answer to a request, from the state in which the whole page is dirty.\<close>

lemma respond_delivers:
  assumes g: "graphicsOK g" and w: "webOK w" "viewOK nxt w v" "m_shouldSendDidUpdateBackingStoreState w" "\<not> m_isWaitingForDidUpdate w"
    and c: "afterwards (if m_isPaintingSuspended w then resumePainting w else Inr w) (displayOK env)" and b: "b \<longrightarrow> r_bitmap env"
  shows "\<exists>w'. thenS (if m_isPaintingSuspended w then resumePainting w else Inr w) (sendDidUpdateBackingStoreState env) = Inr w' \<and>
    delivers g b nxt w v w' \<and> (b \<longrightarrow> dirtyPoints w' = {})"
proof -
  have "\<exists>w1. (if m_isPaintingSuspended w then resumePainting w else Inr w) = Inr w1 \<and> webOK w1 \<and> viewOK nxt w1 v \<and>
      \<not> m_isPaintingSuspended w1 \<and> sameState (w\<lparr>m_isPaintingSuspended := False\<rparr>) w1"
    using resume_delivers[OF w(1,2), of g b] w by (auto simp: delivers_def sameState_def)
  then obtain w1 where w1: "(if m_isPaintingSuspended w then resumePainting w else Inr w) = Inr w1" "webOK w1" "viewOK nxt w1 v"
    "\<not> m_isPaintingSuspended w1" "sameState (w\<lparr>m_isPaintingSuspended := False\<rparr>) w1" by blast
  have q: "m_shouldSendDidUpdateBackingStoreState w1" using w(3) w1(5) by (simp add: sameState_def)
  have "displayOK env w1" using c w1(1) by simp
  then obtain w' where w': "sendDidUpdateBackingStoreState env w1 = Inr w'" "delivers g b nxt w1 v w'" "b \<longrightarrow> dirtyPoints w' = {}"
    using sendDid_delivers[OF g w1(2,3) q w1(4) _ b] by (auto simp: displayOK_def)
  have "delivers g b nxt w v w'"
    by (rule delivers_from[OF w'(2)]) (use w1(5) w'(3) in \<open>simp_all add: sameState_def\<close>)
  with w1(1) w' show ?thesis by simp
qed

lemma updateBackingStoreState_delivers:
  assumes g: "graphicsOK g" and w: "webOK w" "viewOK nxt w v" and i: "m_backingStoreStateID w \<le> i" "i \<le> nxt" and z: "sizeOK sz"
    and c: "updateOK i respond sz content layout env w" and b: "b \<longrightarrow> r_bitmap env"
  shows "\<exists>w'. updateBackingStoreState i respond sz content layout env w = Inr w' \<and> deliversTo g b nxt i w v w'"
proof (cases "i = m_backingStoreStateID w \<and> \<not> m_shouldSendDidUpdateBackingStoreState w")
  case True
  have "delivers g b nxt w v (w\<lparr>m_inUpdateBackingStoreState := False\<rparr>)"
    by (rule delivers_silent) (use w in \<open>simp_all add: lively_def scheduled_def\<close>)
  with True deliversTo_same show ?thesis by (fastforce simp: updateBackingStoreState_def Let_def)
next
  case False
  let ?w0 = "w\<lparr>m_inUpdateBackingStoreState := True\<rparr>"
  have "\<exists>w1. (if i \<noteq> m_backingStoreStateID ?w0 then updatePage i sz content layout ?w0 else Inr ?w0) = Inr w1 \<and> webOK w1 \<and>
      m_backingStoreStateID w1 = i \<and> m_shouldSendDidUpdateBackingStoreState w1 \<and> web_sent w1 = web_sent w \<and> viewOK nxt w1 v"
  proof (cases "i = m_backingStoreStateID w")
    case True
    with False w show ?thesis by simp
  next
    case new: False
    obtain w1 where w1: "updatePage i sz content layout ?w0 = Inr w1" "webOK w1" "pagePoints w1 \<subseteq> dirtyPoints w1"
      "m_backingStoreStateID w1 = i" "m_shouldSendDidUpdateBackingStoreState w1" "web_sent w1 = web_sent w"
      using updatePage_ok[of ?w0 sz content i layout] w(1) z c new by (auto simp: updateOK_def Let_def)
    have "fst v < i" using w(2) i(1) new by (auto simp: viewOK_def split: if_splits)
    then have "viewOK nxt w1 v" using w1 i(2) by (simp add: viewOK_def)
    with new w1 show ?thesis by simp
  qed
  then obtain w1 where w1: "(if i \<noteq> m_backingStoreStateID ?w0 then updatePage i sz content layout ?w0 else Inr ?w0) = Inr w1" "webOK w1"
    "m_backingStoreStateID w1 = i" "m_shouldSendDidUpdateBackingStoreState w1" "web_sent w1 = web_sent w" "viewOK nxt w1 v" by blast
  let ?w2 = "w1\<lparr>m_isWaitingForDidUpdate := False\<rparr>"
  have w2: "webOK ?w2" "viewOK nxt ?w2 v" "m_shouldSendDidUpdateBackingStoreState ?w2" "\<not> m_isWaitingForDidUpdate ?w2"
    using w1 by simp_all
  have "\<exists>w3. (if respond then thenS (if m_isPaintingSuspended ?w2 then resumePainting ?w2 else Inr ?w2) (sendDidUpdateBackingStoreState env)
        else Inr ?w2) = Inr w3 \<and> delivers g b nxt ?w2 v w3 \<and> (b \<longrightarrow> m_shouldSendDidUpdateBackingStoreState w3 \<or> dirtyPoints w3 = {})"
  proof (cases respond)
    case True
    have "afterwards (if m_isPaintingSuspended ?w2 then resumePainting ?w2 else Inr ?w2) (displayOK env)"
      using c True w1(1) by (simp add: updateOK_def Let_def)
    from respond_delivers[OF g w2 this b] True show ?thesis by auto
  next
    case False
    then show ?thesis using delivers_keeps[OF keeps_refl[OF w2(1)] w2(2)] w2(3) by simp
  qed
  then obtain w3 where w3: "(if respond then thenS (if m_isPaintingSuspended ?w2 then resumePainting ?w2 else Inr ?w2) (sendDidUpdateBackingStoreState env)
        else Inr ?w2) = Inr w3" "delivers g b nxt ?w2 v w3" "b \<longrightarrow> m_shouldSendDidUpdateBackingStoreState w3 \<or> dirtyPoints w3 = {}" by blast
  let ?w' = "w3\<lparr>m_inUpdateBackingStoreState := False\<rparr>"
  have l: "b \<longrightarrow> lively ?w'" using w3(3) by (auto simp: lively_def scheduled_def)
  have d: "delivers g b nxt ?w2 v ?w'"
    using w3(2) l unfolding delivers_def by (simp del: split_paired_All split_paired_Ex)
  have "deliversTo g b nxt i w v ?w'"
    by (rule deliversTo_from[OF d]) (use w1(3,5) l in simp_all)
  moreover have "updateBackingStoreState i respond sz content layout env w = Inr ?w'"
    using False w1(1) w3(1) by (auto simp: updateBackingStoreState_def Let_def)
  ultimately show ?thesis by blast
qed

end
