(* ===== verification/DA_Session.thy ===== *)
theory DA_Session
  imports DA_Sync
begin

section \<open>Painting in two processes\<close>

text \<open>
  The reachable states of both processes, whatever the order of page calls, timers, messages, resizes and
  visibility changes, and the invariant that ties the page, the dirty region, the updates under way and
  the backing store together. \<open>eventOK\<close> is what the page and the view guarantee: content only changes where the
  drawing area is told, sizes are at most 32768 pixels (an X11 window has no more), rectangles within \<open>2 ^ 30\<close> of the
  origin, scrolled rectangles on the page, and the UI process can map the bitmaps it is sent. The code itself checks none of this.
\<close>

fun eventOK :: "'c paintEvent \<Rightarrow> 'c painting \<Rightarrow> bool" where
  "eventOK (PageCall call) s = callOK call (s_web s)"
| "eventOK (DisplayTimer env) s = displayOK env (s_web s)"
| "eventOK (ForceRepaint layout env) s = forceRepaintOK layout env (s_web s)"
| "eventOK (WebReceives content layout env) s =
     (case ui_sent (s_ui s) of
        UpdateBackingStoreState i respond sz _ # _ \<Rightarrow> updateOK i respond sz content layout env (s_web s)
      | DidUpdate # _ \<Rightarrow> displayOK env ((s_web s)\<lparr>m_isWaitingForDidUpdate := False\<rparr>)
      | _ \<Rightarrow> True)"
| "eventOK (ViewResized sz offset) s =
     ((sizeOK sz \<or> sizeIsEmpty sz) \<and>
      offsetOK (fst (proxy_scrollOffset (s_ui s)) + fst offset, snd (proxy_scrollOffset (s_ui s)) + snd offset))"
| "eventOK (ViewPaints rect) s = (rectNear rect \<and> \<not> IntRect_isEmpty rect)"
| "eventOK (UIReceives mapped) s = mapped"
| "eventOK _ s = True"

text \<open>The events in which every bitmap can be allocated.\<close>

fun bitmapsMade :: "'c paintEvent \<Rightarrow> bool" where
  "bitmapsMade (DisplayTimer env) = r_bitmap env"
| "bitmapsMade (ForceRepaint layout env) = r_bitmap env"
| "bitmapsMade (WebReceives content layout env) = r_bitmap env"
| "bitmapsMade _ = True"

definition newPainting :: "intSize \<Rightarrow> 'c pixels \<Rightarrow> bool \<Rightarrow> 'c painting" where
  "newPainting sz content visible = \<lparr>s_web = newDrawingArea sz content visible, s_ui = newDrawingAreaProxy sz\<rparr>"

text \<open>The states reached without a fault, when bitmaps may fail (\<open>b\<close> false) and when they do not.\<close>

inductive paintReachable :: "'c graphics \<Rightarrow> bool \<Rightarrow> 'c painting \<Rightarrow> bool" for g b where
  start: "sizeOK sz \<Longrightarrow> paintReachable g b (newPainting sz content visible)"
| step: "paintReachable g b s \<Longrightarrow> eventOK e s \<Longrightarrow> b \<longrightarrow> bitmapsMade e \<Longrightarrow> paintStep g e s = Inr s' \<Longrightarrow> paintReachable g b s'"

inductive_cases paintReachable_stepE: "paintReachable g b s"

fun requests :: "webMessage list \<Rightarrow> nat list" where
  "requests [] = []"
| "requests (UpdateBackingStoreState i r sz d # ms) = i # requests ms"
| "requests (m # ms) = requests ms"

fun requestOK :: "webMessage \<Rightarrow> bool" where
  "requestOK (UpdateBackingStoreState i r sz d) = sizeOK sz"
| "requestOK m = True"

definition uiOK :: "'c uiProcess \<Rightarrow> bool" where
  "uiOK u \<longleftrightarrow> proxy_viewSize u = proxy_size u \<and> (sizeOK (proxy_size u) \<or> sizeIsEmpty (proxy_size u)) \<and>
     storeOK (m_backingStore u) \<and> offsetOK (proxy_scrollOffset u) \<and>
     (\<forall>m \<in> set (ui_sent u). requestOK m)"

definition idsOK :: "nat \<Rightarrow> 'c uiProcess \<Rightarrow> bool" where
  "idsOK i u \<longleftrightarrow> m_currentBackingStoreStateID u \<le> i \<and>
     sorted (i # requests (ui_sent u) @ [m_nextBackingStoreStateID u])"

definition inFlight :: "'c webProcess \<Rightarrow> 'c uiProcess \<Rightarrow> bool" where
  "inFlight w u \<longleftrightarrow> (\<exists>info. Update (m_backingStoreStateID w) info \<in> set (web_sent w)) \<or> DidUpdate \<in> set (ui_sent u)"

definition paintInv :: "'c graphics \<Rightarrow> bool \<Rightarrow> 'c webProcess \<Rightarrow> 'c uiProcess \<Rightarrow> bool" where
  "paintInv g b w u \<longleftrightarrow> webOK w \<and> uiOK u \<and> idsOK (m_backingStoreStateID w) u \<and>
     (\<forall>m \<in> set (web_sent w). infoOK (msgInfo m) \<and> msgID m \<le> m_backingStoreStateID w) \<and>
     (\<exists>v. absorbAll g (web_sent w) (uiView u) = Inr v \<and> viewOK (m_nextBackingStoreStateID u) w v) \<and>
     (m_isWaitingForDidUpdate w \<longrightarrow> inFlight w u) \<and> (b \<longrightarrow> lively w)"

lemma requests_append [simp]: "requests (xs @ ys) = requests xs @ requests ys"
  by (induction xs rule: requests.induct) auto

subsection \<open>Steps of the web process\<close>

lemma web_step:
  assumes inv: "paintInv g b w u" and v: "absorbAll g (web_sent w) (uiView u) = Inr v"
    and d: "deliversTo g b (m_nextBackingStoreStateID u) i w v w'" and i: "m_backingStoreStateID w \<le> i"
    and q: "sorted (i # requests q @ [m_nextBackingStoreStateID u])" "set q \<subseteq> set (ui_sent u)"
    and wait: "m_isWaitingForDidUpdate w' \<longrightarrow> inFlight w' (u\<lparr>ui_sent := q\<rparr>)"
  shows "paintInv g b w' (u\<lparr>ui_sent := q\<rparr>)"
proof -
  let ?n = "m_nextBackingStoreStateID u"
  obtain ms v' where ms: "web_sent w' = web_sent w @ ms" "\<forall>m \<in> set ms. infoOK (msgInfo m) \<and> msgID m = i"
    "absorbAll g ms v = Inr v'" "viewOK ?n w' v'" and w': "webOK w'" "m_backingStoreStateID w' = i" "b \<and> lively w \<longrightarrow> lively w'"
    using d unfolding deliversTo_def by blast
  have "absorbAll g (web_sent w') (uiView (u\<lparr>ui_sent := q\<rparr>)) = Inr v'"
    using v ms(1,3) by (simp add: absorbAll_append uiView_def)
  moreover have "\<forall>m \<in> set (web_sent w'). infoOK (msgInfo m) \<and> msgID m \<le> i"
    using inv i ms(1,2) by (fastforce simp: paintInv_def)
  moreover have "uiOK (u\<lparr>ui_sent := q\<rparr>)" using inv q(2) by (auto simp: paintInv_def uiOK_def)
  moreover have "idsOK i (u\<lparr>ui_sent := q\<rparr>)" using inv i q(1) by (auto simp: paintInv_def idsOK_def)
  ultimately show ?thesis
    using inv w' ms(4) wait by (auto simp: paintInv_def)
qed

lemma web_step_same:
  assumes inv: "paintInv g b w u" and v: "absorbAll g (web_sent w) (uiView u) = Inr v"
    and d: "delivers g b (m_nextBackingStoreStateID u) w v w'"
  shows "paintInv g b w' u"
proof -
  have "m_isWaitingForDidUpdate w' \<longrightarrow> inFlight w' u"
    using d inv by (auto simp: delivers_def paintInv_def inFlight_def)
  then have "paintInv g b w' (u\<lparr>ui_sent := ui_sent u\<rparr>)"
    using inv by (intro web_step[OF inv v deliversTo_same[OF d]]) (auto simp: paintInv_def idsOK_def)
  then show ?thesis by simp
qed

lemma webReceives_step:
  assumes g: "graphicsOK g" and inv: "paintInv g b w u" and q: "ui_sent u = msg # q"
    and ok: "eventOK (WebReceives content layout env) \<lparr>s_web = w, s_ui = u\<rparr>" and b: "b \<longrightarrow> r_bitmap env"
  shows "\<exists>w'. webReceives msg content layout env w = Inr w' \<and> paintInv g b w' (u\<lparr>ui_sent := q\<rparr>)"
proof -
  let ?n = "m_nextBackingStoreStateID u" and ?i = "m_backingStoreStateID w"
  obtain v where v: "absorbAll g (web_sent w) (uiView u) = Inr v" "viewOK ?n w v" and w: "webOK w"
    using inv by (auto simp: paintInv_def)
  have srt: "sorted (?i # requests (msg # q) @ [?n])" and sub: "set q \<subseteq> set (ui_sent u)"
    using inv q by (auto simp: paintInv_def idsOK_def)
  show ?thesis
  proof (cases msg)
    case (UpdateBackingStoreState i respond sz d)
    have i: "?i \<le> i" "i \<le> ?n" and srt': "sorted (i # requests q @ [?n])" using srt UpdateBackingStoreState by (auto simp: sorted_append)
    have "sizeOK sz" using inv q UpdateBackingStoreState by (auto simp: paintInv_def uiOK_def)
    moreover have "updateOK i respond sz content layout env w" using ok q UpdateBackingStoreState by simp
    ultimately obtain w' where w': "updateBackingStoreState i respond sz content layout env w = Inr w'" "deliversTo g b ?n i w v w'"
      using updateBackingStoreState_delivers[OF g w v(2) i _ _ b] by blast
    have "m_isWaitingForDidUpdate w' \<longrightarrow> inFlight w' (u\<lparr>ui_sent := q\<rparr>)"
      using w'(2) inv q UpdateBackingStoreState by (auto simp: deliversTo_def paintInv_def inFlight_def)
    with web_step[OF inv v(1) w'(2) i(1) srt' sub] w'(1) UpdateBackingStoreState show ?thesis by simp
  next
    case DidUpdate
    have "displayOK env (w\<lparr>m_isWaitingForDidUpdate := False\<rparr>)" using ok q DidUpdate by simp
    then obtain w' where w': "didUpdate env w = Inr w'" "delivers g b ?n w v w'"
      "m_isWaitingForDidUpdate w' \<longrightarrow> (\<exists>info. Update ?i info \<in> set (web_sent w'))"
      using didUpdate_delivers[OF g w v(2) _ b] by blast
    have "m_isWaitingForDidUpdate w' \<longrightarrow> inFlight w' (u\<lparr>ui_sent := q\<rparr>)"
      using w'(2,3) by (auto simp: delivers_def inFlight_def)
    moreover have "sorted (?i # requests q @ [?n])" using srt DidUpdate by simp
    ultimately show ?thesis
      using web_step[OF inv v(1) deliversTo_same[OF w'(2)] le_refl _ sub] w'(1) DidUpdate by simp
  next
    case SuspendPainting
    have d: "delivers g b ?n w v (suspendPainting w)" by (rule suspend_delivers[OF w v(2)])
    have "m_isWaitingForDidUpdate (suspendPainting w) \<longrightarrow> inFlight (suspendPainting w) (u\<lparr>ui_sent := q\<rparr>)"
      using inv q SuspendPainting by (auto simp: paintInv_def inFlight_def suspendPainting_def)
    moreover have "sorted (?i # requests q @ [?n])" using srt SuspendPainting by simp
    ultimately show ?thesis
      using web_step[OF inv v(1) deliversTo_same[OF d] le_refl _ sub] SuspendPainting by simp
  next
    case ResumePainting
    obtain w' where w': "resumePainting w = Inr w'" "delivers g b ?n w v w'" "sameState (w\<lparr>m_isPaintingSuspended := False\<rparr>) w'"
      using resume_delivers[OF w v(2), of g b] by blast
    have "m_isWaitingForDidUpdate w' \<longrightarrow> inFlight w' (u\<lparr>ui_sent := q\<rparr>)"
      using inv q ResumePainting w'(3) by (auto simp: paintInv_def inFlight_def sameState_def)
    moreover have "sorted (?i # requests q @ [?n])" using srt ResumePainting by simp
    ultimately show ?thesis
      using web_step[OF inv v(1) deliversTo_same[OF w'(2)] le_refl _ sub] w'(1) ResumePainting by simp
  qed
qed

subsection \<open>Steps of the UI process\<close>

fun curAfter :: "'c uiMessage list \<Rightarrow> nat \<Rightarrow> nat" where
  "curAfter [] cur = cur"
| "curAfter (Update i info # ms) cur = curAfter ms cur"
| "curAfter (DidUpdateBackingStoreState i info # ms) cur = curAfter ms i"

lemma absorbAll_cur: "absorbAll g ms v = Inr v' \<Longrightarrow> fst v' = curAfter ms (fst v)"
proof (induction ms arbitrary: v)
  case (Cons m ms)
  then obtain v1 where v1: "absorb g m v = Inr v1" "absorbAll g ms v1 = Inr v'" by (auto simp: thenS_Inr_iff)
  have "curAfter (m # ms) (fst v) = curAfter ms (fst v1)"
    using v1(1) by (cases m; cases v) (auto simp: thenS_Inr_iff split: if_splits)
  with Cons.IH[OF v1(2)] show ?case by simp
qed simp

lemma curAfter_cases:
  "curAfter ms cur = cur \<or> (\<exists>i info. DidUpdateBackingStoreState i info \<in> set ms \<and> curAfter ms cur = i)"
  by (induction ms cur rule: curAfter.induct) auto

lemma sorted_same: "(\<forall>x \<in> set xs. x = n) \<Longrightarrow> sorted (xs @ [n])" for n :: nat
  by (induction xs) auto

lemma idsOK_send:
  assumes "idsOK i u" "m_nextBackingStoreStateID u \<le> m_nextBackingStoreStateID u'"
    "m_currentBackingStoreStateID u' = m_currentBackingStoreStateID u" "ui_sent u' = ui_sent u @ ms"
    "\<forall>j \<in> set (requests ms). j = m_nextBackingStoreStateID u'"
  shows "idsOK i u'"
  using assms sorted_same[OF assms(5)] by (auto simp: idsOK_def sorted_append)

text \<open>
  A step of the UI process that may send requests with its next identifier: it keeps its view, or it
  takes a new identifier.
\<close>

lemma ui_step:
  assumes g: "graphicsOK g" and inv: "paintInv g b w u" and ok: "uiOK u'"
    and new: "uiView u' = uiView u \<and> m_nextBackingStoreStateID u' = m_nextBackingStoreStateID u \<or>
      m_currentBackingStoreStateID u' = m_currentBackingStoreStateID u \<and> m_nextBackingStoreStateID u < m_nextBackingStoreStateID u'"
    and sent: "ui_sent u' = ui_sent u @ ms" "\<forall>j \<in> set (requests ms). j = m_nextBackingStoreStateID u'"
  shows "paintInv g b w u'"
proof -
  obtain v where v: "absorbAll g (web_sent w) (uiView u) = Inr v" "viewOK (m_nextBackingStoreStateID u) w v"
    using inv by (auto simp: paintInv_def)
  have i: "\<forall>m \<in> set (web_sent w). infoOK (msgInfo m)" using inv by (simp add: paintInv_def)
  obtain v' where v': "absorbAll g (web_sent w) (uiView u') = Inr v'" using absorbAll_total[OF g i] by blast
  have cur: "m_currentBackingStoreStateID u' = m_currentBackingStoreStateID u" using new by (auto simp: uiView_def)
  then have f: "fst v' = fst v" using absorbAll_cur[OF v(1)] absorbAll_cur[OF v'] by (simp add: uiView_def)
  have "viewOK (m_nextBackingStoreStateID u') w v'"
    using new
  proof
    assume "uiView u' = uiView u \<and> m_nextBackingStoreStateID u' = m_nextBackingStoreStateID u"
    with v v' show ?thesis by simp
  next
    assume "m_currentBackingStoreStateID u' = m_currentBackingStoreStateID u \<and> m_nextBackingStoreStateID u < m_nextBackingStoreStateID u'"
    with v(2) f show ?thesis by (simp add: viewOK_def)
  qed
  moreover have "idsOK (m_backingStoreStateID w) u'"
  proof (rule idsOK_send[of _ u u' ms])
    show "idsOK (m_backingStoreStateID w) u" using inv by (simp add: paintInv_def)
    show "m_nextBackingStoreStateID u \<le> m_nextBackingStoreStateID u'" using new by auto
  qed (use sent cur in simp_all)
  moreover have "inFlight w u \<Longrightarrow> inFlight w u'" using sent(1) by (auto simp: inFlight_def)
  ultimately show ?thesis using inv ok v' unfolding paintInv_def by blast
qed

lemma sendUpdate_cases:
  "ui_sent (sendUpdateBackingStoreState r u) = ui_sent u \<or>
   ui_sent (sendUpdateBackingStoreState r u) =
     ui_sent u @ [UpdateBackingStoreState (m_nextBackingStoreStateID u) r (proxy_size u) (proxy_scrollOffset u)] \<and>
   \<not> sizeIsEmpty (proxy_viewSize u)"
  by (simp add: sendUpdateBackingStoreState_def sendToWeb_def)

lemma sendUpdate_offset: "offsetOK (proxy_scrollOffset u) \<Longrightarrow> offsetOK (proxy_scrollOffset (sendUpdateBackingStoreState r u))"
  by (simp add: sendUpdateBackingStoreState_def sendToWeb_def offsetOK_def)

lemma uiOK_sendUpdate: "uiOK u \<Longrightarrow> uiOK (sendUpdateBackingStoreState r u)"
  using sendUpdate_cases[of r u] sendUpdate_offset[of u r] by (auto simp: uiOK_def)

lemma sendUpdate_step:
  assumes "graphicsOK g" "paintInv g b w u" "uiOK u0"
    and "uiView u0 = uiView u \<and> m_nextBackingStoreStateID u0 = m_nextBackingStoreStateID u \<or>
      m_currentBackingStoreStateID u0 = m_currentBackingStoreStateID u \<and> m_nextBackingStoreStateID u < m_nextBackingStoreStateID u0"
    and "ui_sent u0 = ui_sent u"
  shows "paintInv g b w (sendUpdateBackingStoreState r u0)"
proof -
  have "\<exists>ms. ui_sent (sendUpdateBackingStoreState r u0) = ui_sent u @ ms \<and> (\<forall>j \<in> set (requests ms). j = m_nextBackingStoreStateID u0)"
    using sendUpdate_cases[of r u0] assms(5) by (elim disjE) auto
  then obtain ms where ms: "ui_sent (sendUpdateBackingStoreState r u0) = ui_sent u @ ms" "\<forall>j \<in> set (requests ms). j = m_nextBackingStoreStateID u0"
    by blast
  show ?thesis
    by (rule ui_step[OF assms(1,2) uiOK_sendUpdate[OF assms(3)] _ ms(1)]) (use assms(4) ms(2) in simp_all)
qed

text \<open>The head of the messages under way is received.\<close>

lemma absorb_storeOK:
  assumes "graphicsOK g" "infoOK (msgInfo m)" "absorb g m v = Inr v'" "storeOK (snd v)"
  shows "storeOK (snd v')"
proof -
  have d: "storeOK (staleDropped info so)" if "storeOK so" for info :: "'a updateInfo" and so
    using that by (auto simp: storeOK_def staleDropped_def split: option.splits)
  show ?thesis
  proof (cases m)
    case (Update i info)
    then show ?thesis
      using assms absorbInfo_total[OF assms(1), of info "snd v"] by (cases v) (auto simp: thenS_Inr_iff split: if_splits)
  next
    case (DidUpdateBackingStoreState i info)
    then show ?thesis
      using assms d absorbInfo_total[OF assms(1), of info "staleDropped info (snd v)"] by (cases v) (auto simp: thenS_Inr_iff)
  qed
qed

lemma uiReceives_offset:
  assumes "uiReceives g True m u = Inr u'" "offsetOK (proxy_scrollOffset u)"
  shows "offsetOK (proxy_scrollOffset u')"
proof (cases m)
  case (Update i info)
  then show ?thesis
    using assms by (auto simp: proxy_update_def incorporate_view thenS_Inr_iff sendToWeb_def split: if_splits)
next
  case (DidUpdateBackingStoreState i info)
  let ?u1 = "u\<lparr>m_currentBackingStoreStateID := i, m_isWaitingForDidUpdateBackingStoreState := False\<rparr>"
  have "offsetOK (proxy_scrollOffset (sendUpdateBackingStoreState True ?u1))" by (rule sendUpdate_offset) (use assms(2) in simp)
  with DidUpdateBackingStoreState show ?thesis
    using assms by (auto simp: proxy_didUpdateBackingStoreState_def Let_def incorporate_view dropStale_view thenS_Inr_iff split: if_splits)
qed

lemma uiReceives_step:
  assumes g: "graphicsOK g" and inv: "paintInv g b w u" and q: "web_sent w = m # ms"
  shows "\<exists>u'. uiReceives g True m u = Inr u' \<and> paintInv g b (w\<lparr>web_sent := ms\<rparr>) u'"
proof -
  let ?n = "m_nextBackingStoreStateID u" and ?i = "m_backingStoreStateID w"
  obtain v where v: "absorbAll g (m # ms) (uiView u) = Inr v" "viewOK ?n w v" using inv q by (auto simp: paintInv_def)
  then obtain v1 where v1: "absorb g m (uiView u) = Inr v1" "absorbAll g ms v1 = Inr v" by (auto simp: thenS_Inr_iff)
  have m: "infoOK (msgInfo m)" "msgID m \<le> ?i" "\<forall>m \<in> set ms. infoOK (msgInfo m) \<and> msgID m \<le> ?i"
    using inv q by (auto simp: paintInv_def)
  have u: "uiOK u" "idsOK ?i u" using inv by (simp_all add: paintInv_def)
  let ?sent = "case m of Update i _ \<Rightarrow> if i < fst (uiView u) then [] else [DidUpdate]
       | DidUpdateBackingStoreState i _ \<Rightarrow>
           if ?n \<noteq> i \<and> proxy_isValid u \<and> \<not> sizeIsEmpty (proxy_viewSize u)
           then [UpdateBackingStoreState ?n True (proxy_size u) (proxy_scrollOffset u)] else []"
  obtain u' where u': "uiReceives g True m u = Inr u'" "uiView u' = v1" "m_nextBackingStoreStateID u' = ?n"
    "proxy_size u' = proxy_size u" "proxy_viewSize u' = proxy_viewSize u" "ui_sent u' = ui_sent u @ ?sent"
    using uiReceives_view[OF v1(1)] by blast
  have cur: "m_currentBackingStoreStateID u' \<le> ?i"
  proof -
    have "fst v1 = curAfter [m] (fst (uiView u))" using absorbAll_cur[of g "[m]" "uiView u" v1] v1(1) by simp
    then show ?thesis using u'(2) u(2) m(2) by (cases m) (auto simp: uiView_def idsOK_def)
  qed
  have "storeOK (m_backingStore u')"
    using absorb_storeOK[OF g m(1) v1(1)] u(1) u'(2) by (auto simp: uiOK_def uiView_def)
  moreover have "offsetOK (proxy_scrollOffset u')" using uiReceives_offset[OF u'(1)] u(1) by (simp add: uiOK_def)
  moreover have "\<forall>m \<in> set ?sent. requestOK m" using u(1) by (auto simp: uiOK_def split: uiMessage.splits)
  ultimately have ok: "uiOK u'" using u(1) u'(4,5,6) by (auto simp: uiOK_def)
  have "sorted (requests ?sent @ [?n])" "\<forall>j \<in> set (requests ?sent). j = ?n" by (auto split: uiMessage.splits)
  then have ids: "idsOK ?i u'" using u(2) cur u'(3,6) by (auto simp: idsOK_def sorted_append)
  have fl: "inFlight (w\<lparr>web_sent := ms\<rparr>) u'" if "inFlight w u"
  proof (cases "\<exists>info. m = Update ?i info")
    case True
    then have "\<not> msgID m < fst (uiView u)" using u(2) by (auto simp: idsOK_def uiView_def)
    with True u'(6) show ?thesis by (auto simp: inFlight_def)
  next
    case False
    with that q u'(6) show ?thesis by (auto simp: inFlight_def)
  qed
  have "synced (w\<lparr>web_sent := ms\<rparr>) so = synced w so" for so by (simp add: synced_def agreesWeb_def scrollInside_def)
  then have "viewOK ?n (w\<lparr>web_sent := ms\<rparr>) v" using v(2) by (simp add: viewOK_def)
  then have "paintInv g b (w\<lparr>web_sent := ms\<rparr>) u'"
    using inv ok ids fl m(3) v1(2) u'(2,3) by (simp add: paintInv_def lively_def scheduled_def)
  with u'(1) show ?thesis by blast
qed

text \<open>What the user's window does.\<close>

lemma uiOK_update:
  "uiOK u \<Longrightarrow> uiOK (u\<lparr>m_nextBackingStoreStateID := n\<rparr>)"
  "uiOK u \<Longrightarrow> uiOK (u\<lparr>m_backingStore := None\<rparr>)"
  "uiOK (u\<lparr>m_discardBackingStoreTimer := t\<rparr>) = uiOK u"
  "uiOK (u\<lparr>m_isBackingStoreDiscardable := t\<rparr>) = uiOK u"
  by (simp_all add: uiOK_def storeOK_def)

lemma ui_flag_step:
  assumes "graphicsOK g" "paintInv g b w u"
  shows "paintInv g b w (u\<lparr>m_discardBackingStoreTimer := t\<rparr>)" "paintInv g b w (u\<lparr>m_isBackingStoreDiscardable := t\<rparr>)"
  by (rule ui_step[OF assms, of _ "[]"]; use assms(2) in \<open>simp add: paintInv_def uiOK_update uiView_def\<close>)+

lemma discardSoon_step:
  assumes "graphicsOK g" "paintInv g b w u"
  shows "paintInv g b w (discardBackingStoreSoon u)"
  using assms(2) ui_flag_step(1)[OF assms] by (simp add: discardBackingStoreSoon_def)

lemma discardable_step:
  assumes "graphicsOK g" "paintInv g b w u"
  shows "paintInv g b w (setBackingStoreIsDiscardable t u)"
proof -
  let ?u1 = "u\<lparr>m_isBackingStoreDiscardable := t\<rparr>"
  have "paintInv g b w ?u1" by (rule ui_flag_step(2)[OF assms])
  then show ?thesis
    using assms(2) discardSoon_step[OF assms(1), of b w ?u1] ui_flag_step(1)[OF assms(1), of b w ?u1 False]
    by (cases t) (simp_all add: setBackingStoreIsDiscardable_def Let_def)
qed

lemma discard_step:
  assumes "graphicsOK g" "paintInv g b w u"
  shows "paintInv g b w (discardBackingStore u)"
proof -
  let ?u0 = "u\<lparr>m_backingStore := None, m_nextBackingStoreStateID := m_nextBackingStoreStateID u + 1\<rparr>"
  have "uiOK ?u0" using assms(2) by (simp add: paintInv_def uiOK_update)
  then have "paintInv g b w (sendUpdateBackingStoreState False ?u0)" by (rule sendUpdate_step[OF assms]) simp_all
  from ui_flag_step(1)[OF assms(1) this, of False] show ?thesis
    by (simp add: discardBackingStore_def backingStoreStateDidChange_def)
qed

lemma visibility_step:
  assumes "graphicsOK g" "paintInv g b w u"
  shows "paintInv g b w (visibilityDidChange t u)"
  by (rule ui_step[OF assms, of _ "[if t then ResumePainting else SuspendPainting]"])
    (use assms(2) in \<open>simp_all add: paintInv_def uiOK_def visibilityDidChange_def sendToWeb_def uiView_def\<close>)

lemma resize_step:
  assumes g: "graphicsOK g" "paintInv g b w u" and ok: "eventOK (ViewResized sz offset) \<lparr>s_web = w', s_ui = u\<rparr>"
  shows "\<exists>u'. proxy_setSize sz offset (u\<lparr>proxy_viewSize := sz\<rparr>) = Inr u' \<and> paintInv g b w u'"
proof (cases "proxy_size u = sz \<and> offset = (0, 0)")
  case True
  then have "u\<lparr>proxy_viewSize := sz\<rparr> = u" using g(2) by (auto simp: paintInv_def uiOK_def)
  with True g(2) show ?thesis by (simp add: proxy_setSize_def)
next
  case False
  let ?d = "(fst (proxy_scrollOffset u) + fst offset, snd (proxy_scrollOffset u) + snd offset)"
  let ?u0 = "u\<lparr>proxy_viewSize := sz, proxy_size := sz, proxy_scrollOffset := ?d,
    m_nextBackingStoreStateID := m_nextBackingStoreStateID u + 1\<rparr>"
  have d: "addSize (proxy_scrollOffset u) offset = Inr ?d" using ok by (intro offsetOK_add) simp
  have "uiOK ?u0" using g(2) ok by (simp add: paintInv_def uiOK_def)
  then have "paintInv g b w (sendUpdateBackingStoreState True ?u0)" by (rule sendUpdate_step[OF g]) simp_all
  moreover have "proxy_setSize sz offset (u\<lparr>proxy_viewSize := sz\<rparr>) = Inr (sendUpdateBackingStoreState True ?u0)"
    using False d by (auto simp: proxy_setSize_def proxy_sizeDidChange_def backingStoreStateDidChange_def)
  ultimately show ?thesis by blast
qed

lemma paintStore_step:
  assumes g: "graphicsOK g" "paintInv g b w u" and r: "regionOK r"
  shows "\<exists>pix rest u'. paintStore r u = Inr (pix, rest, u') \<and> paintInv g b w u' \<and>
    (case m_backingStore u of
       None \<Rightarrow> pix = None \<and> regionPoints rest = regionPoints r
     | Some bs \<Rightarrow> pix = Some (bs_pixels bs) \<and> regionPoints rest = regionPoints r - sizePoints (bs_size bs))"
proof (cases "m_backingStore u")
  case None
  with g(2) show ?thesis by (simp add: paintStore_def)
next
  case (Some bs)
  let ?b = "IntRect 0 0 (fst (bs_size bs)) (snd (bs_size bs))"
  have z: "sizeOK (bs_size bs)" using g(2) Some by (auto simp: paintInv_def uiOK_def storeOK_def)
  then have ne: "rectNear ?b" "\<not> IntRect_isEmpty ?b" by (auto simp: sizeOK_def rectNear_def near_def rect_defs)
  obtain q where q: "Region_rect ?b = Inr q" "regionOK q" "regionPoints q = rectPoints ?b" using Region_rect_ok[OF ne] by blast
  have "regionPoints q \<noteq> {}" using ne(2) q(3) by (simp add: rectPoints_empty_iff)
  then obtain rest where "Region_subtract r q = Inr rest" "regionPoints rest = regionPoints r - regionPoints q"
    using Region_subtract_ok[OF r q(2)] by blast
  with q Some discardSoon_step[OF g] show ?thesis by (simp add: paintStore_def sizePoints_def)
qed

lemma paint_step:
  assumes g: "graphicsOK g" "paintInv g b w u" and r: "rectNear rect" "\<not> IntRect_isEmpty rect"
  shows "\<exists>pix rest u'. proxy_paint rect u = Inr (pix, rest, u') \<and> paintInv g b w u'"
proof -
  obtain q where q: "Region_rect rect = Inr q" "regionOK q" using Region_rect_ok[OF r] by blast
  have "uiOK u" using g(2) by (simp add: paintInv_def)
  then have "paintInv g b w (sendUpdateBackingStoreState True u)" by (rule sendUpdate_step[OF g]) simp_all
  with paintStore_step[OF g q(2)] paintStore_step[OF g(1) this q(2)] q(1) show ?thesis
    by (auto simp: proxy_paint_def Let_def)
qed

subsection \<open>Every step\<close>

lemma paintStep_keeps:
  assumes g: "graphicsOK g" and inv: "paintInv g b (s_web s) (s_ui s)" and e: "eventOK e s" and b: "b \<longrightarrow> bitmapsMade e"
  shows "\<exists>s'. paintStep g e s = Inr s' \<and> paintInv g b (s_web s') (s_ui s')"
proof -
  obtain v where v: "absorbAll g (web_sent (s_web s)) (uiView (s_ui s)) = Inr v"
    "viewOK (m_nextBackingStoreStateID (s_ui s)) (s_web s) v" and w: "webOK (s_web s)"
    using inv by (auto simp: paintInv_def)
  note same = web_step_same[OF inv v(1)]
  show ?thesis
  proof (cases e)
    case (PageCall call)
    then obtain w' where "runCall call (s_web s) = Inr w'" "keeps (s_web s) w'" using runCall_keeps[OF w] e by auto
    with PageCall same[OF delivers_keeps[OF _ v(2)]] show ?thesis by simp
  next
    case (DisplayTimer env)
    then obtain w' where "displayTimerFired env (s_web s) = Inr w'"
      "delivers g b (m_nextBackingStoreStateID (s_ui s)) (s_web s) v w'"
      using displayTimerFired_delivers[OF g w v(2)] e b by auto
    with DisplayTimer same inv show ?thesis by simp
  next
    case (ForceRepaint layout env)
    then have "forceRepaintOK layout env (s_web s)" "b \<longrightarrow> r_bitmap env" using e b by simp_all
    then obtain w' where "forceRepaint layout env (s_web s) = Inr w'"
      "delivers g b (m_nextBackingStoreStateID (s_ui s)) (s_web s) v w'"
      using forceRepaint_delivers[OF g w v(2)] by blast
    with ForceRepaint same show ?thesis by simp
  next
    case (WebReceives content layout env)
    show ?thesis
    proof (cases "ui_sent (s_ui s)")
      case (Cons msg q)
      have "\<lparr>s_web = s_web s, s_ui = s_ui s\<rparr> = s" by simp
      then have "eventOK (WebReceives content layout env) \<lparr>s_web = s_web s, s_ui = s_ui s\<rparr>" using e WebReceives by (simp only:)
      with webReceives_step[OF g inv Cons, of content layout env] WebReceives b Cons show ?thesis by auto
    qed (use WebReceives inv in simp)
  next
    case (UIReceives mapped)
    with uiReceives_step[OF g inv] inv e show ?thesis by (cases "web_sent (s_web s)") auto
  next
    case (ViewResized sz offset)
    with resize_step[OF g inv, of sz offset "s_web s"] e show ?thesis by auto
  next
    case (ViewVisible visible)
    with visibility_step[OF g inv] show ?thesis by simp
  next
    case (ViewPaints rect)
    with paint_step[OF g inv, of rect] e show ?thesis by auto
  next
    case DiscardTimer
    with discard_step[OF g inv] inv show ?thesis by simp
  next
    case (StoreDiscardable t)
    with discardable_step[OF g inv] show ?thesis by simp
  qed
qed

lemma new_inv:
  assumes "sizeOK sz"
  shows "paintInv g b (newDrawingArea sz content visible) (newDrawingAreaProxy sz)"
proof -
  let ?w = "newDrawingArea sz content visible"
  have "dirtyPoints ?w = {}" by (simp add: newDrawingArea_def dirtyPoints_def)
  moreover have "webOK ?w"
    using assms by (simp add: webOK_def newDrawingArea_def dirtyPoints_def rectSmall_def offsetOK_def rect_defs)
  ultimately show ?thesis
    using assms by (simp add: paintInv_def uiOK_def idsOK_def viewOK_def newDrawingAreaProxy_def newDrawingArea_def uiView_def
      storeOK_def offsetOK_def lively_def scheduled_def)
qed

lemma reachable_inv:
  assumes "graphicsOK g" "paintReachable g b s"
  shows "paintInv g b (s_web s) (s_ui s)"
  using assms(2)
proof (induction rule: paintReachable.induct)
  case (start sz content visible)
  then show ?case using new_inv by (simp add: newPainting_def)
next
  case (step s e s')
  with paintStep_keeps[OF assms(1)] show ?case by fastforce
qed

text \<open>
  When the UI process holds the newest state of the store, and nothing is under way or left to paint, its
  store is the page.
\<close>

lemma settled_store:
  assumes g: "graphicsOK g" and inv: "paintInv g b w u" and quiet: "web_sent w = []" "Region_isEmpty (m_dirtyRegion w)"
    and cur: "m_currentBackingStoreStateID u = m_nextBackingStoreStateID u" "m_nextBackingStoreStateID u \<noteq> 0"
  shows "\<exists>bs. m_backingStore u = Some bs \<and> bs_size bs = page_size w \<and> (\<forall>p \<in> pagePoints w. bs_pixels bs p = page_content w p)"
proof -
  let ?n = "m_nextBackingStoreStateID u"
  have w: "webOK w" and v: "viewOK ?n w (uiView u)" using inv quiet(1) by (auto simp: paintInv_def)
  have "m_backingStoreStateID w = ?n" using inv cur(1) by (auto simp: paintInv_def idsOK_def)
  moreover have "\<not> m_shouldSendDidUpdateBackingStoreState w"
    using v cur(1) calculation by (auto simp: viewOK_def uiView_def)
  ultimately have s: "synced w (m_backingStore u)" using v cur(2) by (simp add: viewOK_def uiView_def)
  have d: "dirtyPoints w = {}" using w quiet(2) regionOK_isEmpty by (auto simp: webOK_def dirtyPoints_def)
  then obtain bs where bs: "m_backingStore u = Some bs" "agreesWeb w (bs_pixels bs)" "scrollInside w" "bs_size bs = page_size w"
    using s pagePoints_nonempty[OF w] by (auto simp: synced_def)
  have "bs_pixels bs p = page_content w p" if "p \<in> pagePoints w" for p
    using agrees_clean[of "page_bounds w" "m_scrollRect w" "m_scrollOffset w" "page_content w" "bs_pixels bs" p] bs(2,3) d that
    by (simp add: agreesWeb_def pagePoints_def scrollInside_def)
  with bs(1,4) show ?thesis by blast
qed

text \<open>A request for a new state that is still unanswered: the UI process is, or will be, behind.\<close>

lemma unanswered_request:
  assumes inv: "paintInv g b w u" and q: "m_shouldSendDidUpdateBackingStoreState w"
  shows "m_currentBackingStoreStateID u < m_nextBackingStoreStateID u \<or>
    (\<exists>i info. DidUpdateBackingStoreState i info \<in> set (web_sent w) \<and> i < m_nextBackingStoreStateID u)"
proof -
  obtain v where v: "absorbAll g (web_sent w) (uiView u) = Inr v" "viewOK (m_nextBackingStoreStateID u) w v"
    using inv by (auto simp: paintInv_def)
  then have "fst v < m_nextBackingStoreStateID u" using q by (simp add: viewOK_def)
  moreover have "fst v = curAfter (web_sent w) (m_currentBackingStoreStateID u)" using absorbAll_cur[OF v(1)] by (simp add: uiView_def)
  ultimately show ?thesis using curAfter_cases[of "web_sent w" "m_currentBackingStoreStateID u"] by auto
qed

text \<open>
  One round of repainting, from a state in which nothing is under way: the timer sends the update, the UI process
  incorporates and acknowledges it, and the acknowledgement finds nothing left to display.
\<close>

lemma plain_events:
  assumes "r_layout env = []"
  shows "eventOK (DisplayTimer env) s" "eventOK (WebReceives content [] env) s"
  using assms by (auto simp: displayOK_def updateOK_def afterwards_def Let_def split: list.split webMessage.split sum.split)

lemma display_plain:
  assumes w: "webOK w" "\<not> m_isPaintingSuspended w" "\<not> Region_isEmpty (m_dirtyRegion w)" "\<not> m_shouldSendDidUpdateBackingStoreState w"
    and env: "r_layout env = []" "r_bitmap env"
  shows "\<exists>info. display env w =
    Inr ((sendToUI (Update (m_backingStoreStateID w) info) (displayed w))\<lparr>m_isWaitingForDidUpdate := True\<rparr>)"
proof -
  obtain rs0 whole where r: "rects (m_dirtyRegion w) = Inr rs0"
    "shouldPaintBoundsRect (m_bounds (m_dirtyRegion w)) rs0 = Inr whole"
    using dirty_rects[OF w(1)] by blast
  have "\<not> page_customRepresentation w" using w(1) by (simp add: webOK_def)
  with w(2-4) env r show ?thesis
    by (cases whole) (auto simp: display_def display_info_def Let_def displayed_def)
qed

lemma quiescent_web:
  assumes inv: "paintInv g b w u" and q: "web_sent w = []" "ui_sent u = []"
    and cur: "m_currentBackingStoreStateID u = m_nextBackingStoreStateID u"
  shows "webOK w" "m_backingStoreStateID w = m_nextBackingStoreStateID u" "\<not> m_shouldSendDidUpdateBackingStoreState w"
    "\<not> m_isWaitingForDidUpdate w"
proof -
  have v: "viewOK (m_nextBackingStoreStateID u) w (uiView u)" using inv q(1) by (auto simp: paintInv_def)
  show "webOK w" using inv by (simp add: paintInv_def)
  show i: "m_backingStoreStateID w = m_nextBackingStoreStateID u" using inv cur by (auto simp: paintInv_def idsOK_def)
  show "\<not> m_shouldSendDidUpdateBackingStoreState w" using v cur i by (auto simp: viewOK_def uiView_def)
  show "\<not> m_isWaitingForDidUpdate w" using inv q by (auto simp: paintInv_def inFlight_def)
qed

lemma repaint_round:
  assumes g: "graphicsOK g" and inv: "paintInv g True (s_web s) (s_ui s)"
    and q: "web_sent (s_web s) = []" "ui_sent (s_ui s) = []" "\<not> m_isPaintingSuspended (s_web s)"
    and cur: "m_currentBackingStoreStateID (s_ui s) = m_nextBackingStoreStateID (s_ui s)" "m_nextBackingStoreStateID (s_ui s) \<noteq> 0"
    and d: "\<not> Region_isEmpty (m_dirtyRegion (s_web s))" and env: "r_layout env = []" "r_bitmap env"
  shows "\<exists>s1 s2 s3 bs. paintStep g (DisplayTimer env) s = Inr s1 \<and> paintStep g (UIReceives True) s1 = Inr s2 \<and>
    paintStep g (WebReceives content [] env) s2 = Inr s3 \<and> web_sent (s_web s3) = [] \<and> ui_sent (s_ui s3) = [] \<and>
    Region_isEmpty (m_dirtyRegion (s_web s3)) \<and> m_backingStore (s_ui s3) = Some bs \<and> bs_size bs = page_size (s_web s) \<and>
    (\<forall>p \<in> pagePoints (s_web s). bs_pixels bs p = page_content (s_web s) p)"
proof -
  let ?w = "s_web s" and ?u = "s_ui s"
  note w = quiescent_web[OF inv q(1,2) cur(1)]
  have "dirtyPoints ?w \<noteq> {}" using w(1) d regionOK_isEmpty by (auto simp: webOK_def dirtyPoints_def)
  then have t: "m_displayTimer ?w" using inv q(3) w by (auto simp: paintInv_def lively_def scheduled_def)
  obtain info where info: "display env ?w =
      Inr ((sendToUI (Update (m_backingStoreStateID ?w) info) (displayed ?w))\<lparr>m_isWaitingForDidUpdate := True\<rparr>)"
    using display_plain[OF w(1) q(3) d w(3) env] by blast
  let ?m = "Update (m_backingStoreStateID ?w) info"
  let ?w1 = "(sendToUI ?m (displayed ?w))\<lparr>m_isWaitingForDidUpdate := True, m_displayTimer := False\<rparr>"
  let ?s1 = "s\<lparr>s_web := ?w1\<rparr>"
  have s1: "paintStep g (DisplayTimer env) s = Inr ?s1" using t info by (simp add: displayTimerFired_def)
  have i1: "paintInv g True ?w1 ?u" using paintStep_keeps[OF g inv plain_events(1)[OF env(1)]] s1 env(2) by simp
  have sent: "web_sent ?w1 = [?m]" using q(1) by (simp add: sendToUI_def displayed_def)
  then obtain v where "absorb g ?m (uiView ?u) = Inr v" using i1 by (auto simp: paintInv_def thenS_Inr_iff simp del: absorb.simps)
  then obtain u2 where u2: "uiReceives g True ?m ?u = Inr u2" "uiView u2 = v" "m_nextBackingStoreStateID u2 = m_nextBackingStoreStateID ?u"
    "ui_sent u2 = ui_sent ?u @ (if m_backingStoreStateID ?w < fst (uiView ?u) then [] else [DidUpdate])"
    using uiReceives_view[of g ?m ?u v] by auto
  have c2: "ui_sent u2 = [DidUpdate]" "m_currentBackingStoreStateID u2 = m_nextBackingStoreStateID u2"
    using u2 q(2) w(2) cur(1) \<open>absorb g ?m (uiView ?u) = Inr v\<close> by (auto simp: uiView_def thenS_Inr_iff)
  let ?w2 = "?w1\<lparr>web_sent := []\<rparr>"
  let ?s2 = "\<lparr>s_web = ?w2, s_ui = u2\<rparr>" and ?w3 = "?w2\<lparr>m_isWaitingForDidUpdate := False\<rparr>" and ?u3 = "u2\<lparr>ui_sent := []\<rparr>"
  have s2: "paintStep g (UIReceives True) ?s1 = Inr ?s2" using sent u2(1) by simp
  have e: "Region_isEmpty (m_dirtyRegion ?w2)" by (simp add: sendToUI_def displayed_def Region_isEmpty_def Region_default_def rect_defs)
  have "paintInv g True ?w2 u2" using paintStep_keeps[OF g, of True ?s1 "UIReceives True"] i1 s2 by simp
  moreover have s3: "paintStep g (WebReceives content [] env) ?s2 = Inr \<lparr>s_web = ?w3, s_ui = ?u3\<rparr>"
    using c2(1) e by (simp add: didUpdate_def display_def)
  ultimately have i3: "paintInv g True ?w3 ?u3"
    using paintStep_keeps[OF g, of True ?s2 "WebReceives content [] env"] plain_events(2)[OF env(1), of content ?s2] env(2)
    by (simp del: eventOK.simps)
  obtain bs where "m_backingStore ?u3 = Some bs" "bs_size bs = page_size ?w3"
    "\<forall>p \<in> pagePoints ?w3. bs_pixels bs p = page_content ?w3 p"
    using settled_store[OF g i3] e c2(2) cur(2) u2(3) by auto
  with s1 s2 s3 e show ?thesis by (auto simp: sendToUI_def displayed_def)
qed

end
