(* ===== verification/DA_Properties.thy ===== *)
theory DA_Properties
  imports DA_Session
begin

section \<open>What the window shows\<close>

text \<open>
  The theorems on both processes and concrete runs: a window is opened and resized, the page changes a square and repaints
  it. In the last two runs a bitmap cannot be allocated while the backing store is being rebuilt, and cannot be mapped.
\<close>

text \<open>Graphics that copy point by point, a reaction without layout, and the states of the runs.\<close>

definition inside :: "int \<Rightarrow> int \<Rightarrow> int \<Rightarrow> int \<Rightarrow> point \<Rightarrow> bool" where
  "inside x y w h p \<longleftrightarrow> x \<le> fst p \<and> fst p < x + w \<and> y \<le> snd p \<and> snd p < y + h"

definition plainGraphics :: "nat graphics" where
  "plainGraphics = \<lparr>g_fresh = (\<lambda>_. 0),
     g_copyArea = (\<lambda>sz pix sx sy w h dx dy p. if inside dx dy w h p then pix (fst p - dx + sx, snd p - dy + sy) else pix p)\<rparr>"

lemma inside_points: "inside (rect_x r) (rect_y r) (rect_width r) (rect_height r) p \<longleftrightarrow> p \<in> rectPoints r"
  by (cases p) (auto simp: inside_def mem_rectPoints)

lemma plainGraphics_OK: "graphicsOK plainGraphics"
proof -
  have "copiesPixel plainGraphics sz pix sx sy dest p" for sz pix sx sy dest p
    by (simp add: copiesPixel_def plainGraphics_def inside_points)
  then show ?thesis by (simp add: graphicsOK_def)
qed

definition quiet :: "bool \<Rightarrow> nat reaction" where
  "quiet b = \<lparr>r_bitmap = b, r_layout = []\<rparr>"

definition openedWindow :: "nat painting" where
  "openedWindow = newPainting (8, 6) (\<lambda>_. 7) True"

definition took :: "nat paintEvent \<Rightarrow> nat painting \<Rightarrow> nat painting" where
  "took e s = (case paintStep plainGraphics e s of Inl _ \<Rightarrow> s | Inr s' \<Rightarrow> s')"

definition resized :: "bool \<Rightarrow> nat painting" where
  "resized t = took (UIReceives True) (took (WebReceives (\<lambda>_. 7) [] (quiet t)) (took (ViewResized (10, 6) (0, 0)) openedWindow))"

definition invalidated :: "nat painting" where
  "invalidated = took (PageCall (Invalidate (IntRect 1 1 2 2) (\<lambda>p. if inside 1 1 2 2 p then 8 else 7))) (resized True)"

definition repainted :: "nat painting" where
  "repainted = took (WebReceives (\<lambda>_. 7) [] (quiet True)) (took (UIReceives True) (took (DisplayTimer (quiet True)) invalidated))"

definition discarded :: "nat painting" where
  "discarded = took (WebReceives (\<lambda>_. 7) [] (quiet True)) (took DiscardTimer (took (ViewPaints (IntRect 0 0 10 6)) (resized True)))"

lemma took_reachable:
  assumes "paintReachable plainGraphics b s" "eventOK e s" "b \<longrightarrow> bitmapsMade e"
  shows "paintReachable plainGraphics b (took e s)"
  using paintStep_keeps[OF plainGraphics_OK reachable_inv[OF plainGraphics_OK assms(1)] assms(2,3)] paintReachable.step[OF assms]
  by (auto simp: took_def)

lemma quiet_events:
  "eventOK (DisplayTimer (quiet t)) s"
  "eventOK (WebReceives content [] (quiet t)) s"
  "r_bitmap (quiet t) = t"
  by (auto simp: quiet_def displayOK_def updateOK_def afterwards_def Let_def split: list.split webMessage.split sum.split)

lemma resized_content: "page_content (s_web (resized True)) p = 7"
  by code_simp

lemma resized_reachable: "b \<longrightarrow> t \<Longrightarrow> paintReachable plainGraphics b (resized t)"
proof -
  assume t: "b \<longrightarrow> t"
  have o: "paintReachable plainGraphics b openedWindow"
    unfolding openedWindow_def by (rule paintReachable.start) (simp add: sizeOK_def)
  have "paintReachable plainGraphics b (took (ViewResized (10, 6) (0, 0)) openedWindow)"
    by (rule took_reachable[OF o]) (simp_all add: openedWindow_def newPainting_def newDrawingAreaProxy_def sizeOK_def offsetOK_def)
  then have "paintReachable plainGraphics b (took (WebReceives (\<lambda>_. 7) [] (quiet t)) (took (ViewResized (10, 6) (0, 0)) openedWindow))"
    by (rule took_reachable) (use t in \<open>simp_all add: quiet_events del: eventOK.simps\<close>)
  then show ?thesis unfolding resized_def by (rule took_reachable) simp_all
qed

lemma invalidated_reachable: "paintReachable plainGraphics True invalidated"
  unfolding invalidated_def
proof (rule took_reachable[OF resized_reachable])
  show "eventOK (PageCall (Invalidate (IntRect 1 1 2 2) (\<lambda>p. if inside 1 1 2 2 p then 8 else 7))) (resized True)"
    using inside_points[of "IntRect 1 1 2 2"] by (simp add: resized_content rectNear_def near_def rect_defs)
qed simp_all

lemma repainted_reachable: "paintReachable plainGraphics True repainted"
  unfolding repainted_def
  by (intro took_reachable invalidated_reachable) (simp_all add: quiet_events del: eventOK.simps(2,4))

lemma discarded_reachable: "paintReachable plainGraphics True discarded"
  unfolding discarded_def
  by (intro took_reachable resized_reachable)
    (simp_all add: quiet_events rectNear_def near_def rect_defs del: eventOK.simps(2,4))

lemma repainted_settled:
  "web_sent (s_web repainted) = []" "Region_isEmpty (m_dirtyRegion (s_web repainted))"
  "m_currentBackingStoreStateID (s_ui repainted) = 1" "m_nextBackingStoreStateID (s_ui repainted) = 1"
  "page_size (s_web repainted) = (10, 6)"
proof -
  have "List.null (web_sent (s_web repainted))" by code_simp
  then show "web_sent (s_web repainted) = []" by (simp add: List.null_iff)
  show "Region_isEmpty (m_dirtyRegion (s_web repainted))" by code_simp
  show "m_currentBackingStoreStateID (s_ui repainted) = 1" by code_simp
  show "m_nextBackingStoreStateID (s_ui repainted) = 1" by code_simp
  show "page_size (s_web repainted) = (10, 6)" by code_simp
qed

text \<open>
  C2. Whatever the page, the window and the timers did before, within the contract \<open>eventOK\<close>: once the UI process has received
  what was sent, holds the newest state of the backing store (and has asked for one at all) and the page has nothing left to
  repaint, painting a non-empty rectangle of the window copies exactly the pixels of the page, and leaves unpainted exactly the
  points outside it. The contract is that content changes only where the drawing area is told, that pages and sizes are
  at most 32768 pixels, that scrolled rectangles lie on the page, and that the UI process can map the bitmaps it receives; bitmaps may
  fail to be allocated in the web process.
\<close>

theorem window_shows_page:
  assumes "graphicsOK g" "paintReachable g b s"
    and "web_sent (s_web s) = []" "Region_isEmpty (m_dirtyRegion (s_web s))"
    and "m_currentBackingStoreStateID (s_ui s) = m_nextBackingStoreStateID (s_ui s)" "m_nextBackingStoreStateID (s_ui s) \<noteq> 0"
    and "rectNear rect" "\<not> IntRect_isEmpty rect"
  shows "\<exists>pixels unpainted u'. proxy_paint rect (s_ui s) = Inr (Some pixels, unpainted, u') \<and>
    (\<forall>p. p \<in> sizePoints (page_size (s_web s)) \<longrightarrow> pixels p = page_content (s_web s) p) \<and>
    regionPoints unpainted = rectPoints rect - sizePoints (page_size (s_web s))"
proof -
  have inv: "paintInv g b (s_web s) (s_ui s)" using reachable_inv[OF assms(1,2)] .
  obtain bs where bs: "m_backingStore (s_ui s) = Some bs" "bs_size bs = page_size (s_web s)"
    "\<forall>p \<in> pagePoints (s_web s). bs_pixels bs p = page_content (s_web s) p"
    using settled_store[OF assms(1) inv assms(3-6)] by blast
  obtain q where q: "Region_rect rect = Inr q" "regionOK q" "regionPoints q = rectPoints rect" using Region_rect_ok[OF assms(7,8)] by blast
  from paintStore_step[OF assms(1) inv q(2)] bs q(1,3) assms(5) show ?thesis
    by (auto simp: proxy_paint_def pagePoints_size)
qed

theorem window_shows_page_witness:
  "\<exists>pixels unpainted u'. proxy_paint (IntRect 0 0 12 6) (s_ui repainted) = Inr (Some pixels, unpainted, u') \<and>
     pixels (1, 1) = 8 \<and> pixels (5, 5) = 7 \<and> (11, 3) \<in> regionPoints unpainted"
proof -
  have "rectNear (IntRect 0 0 12 6)" "\<not> IntRect_isEmpty (IntRect 0 0 12 6)" by (simp_all add: rectNear_def near_def rect_defs)
  moreover have "m_currentBackingStoreStateID (s_ui repainted) = m_nextBackingStoreStateID (s_ui repainted)"
    "m_nextBackingStoreStateID (s_ui repainted) \<noteq> 0" using repainted_settled(3,4) by simp_all
  ultimately obtain pixels unpainted u' where
    r: "proxy_paint (IntRect 0 0 12 6) (s_ui repainted) = Inr (Some pixels, unpainted, u')"
      "\<forall>p. p \<in> sizePoints (page_size (s_web repainted)) \<longrightarrow> pixels p = page_content (s_web repainted) p"
      "regionPoints unpainted = rectPoints (IntRect 0 0 12 6) - sizePoints (page_size (s_web repainted))"
    using window_shows_page[OF plainGraphics_OK repainted_reachable repainted_settled(1,2)] by blast
  have "(1, 1) \<in> sizePoints (10, 6)" "(5, 5) \<in> sizePoints (10, 6)" "(11, 3) \<notin> sizePoints (10, 6)" "(11, 3) \<in> rectPoints (IntRect 0 0 12 6)"
    by (simp_all add: sizePoints_def mem_rectPoints rect_defs)
  moreover have "page_content (s_web repainted) (1, 1) = 8" "page_content (s_web repainted) (5, 5) = 7" by code_simp+
  ultimately have "pixels (1, 1) = 8" "pixels (5, 5) = 7" "(11, 3) \<in> regionPoints unpainted"
    using r(2,3) repainted_settled(5) by (simp_all del: split_paired_All)
  with r(1) show ?thesis by blast
qed

text \<open>
  C19. Within the limits \<open>eventOK\<close> sets (sizes of at most 32768 pixels, which is what an X11 window can have; rectangles
  within \<open>2 ^ 30\<close> of the origin; scrolled rectangles on the page and summed scroll offsets of at most \<open>2 ^ 28\<close>), no order of page calls, timers,
  messages and window events makes either process compute outside the range of an \<^verbatim>\<open>int\<close> or read outside the vectors of a
  region: every step from a reachable state returns. Without the limits it is not so, see \<open>region_far_apart\<close>.
\<close>

theorem painting_returns:
  assumes "graphicsOK g" "paintReachable g b s" "eventOK e s"
  shows "\<exists>s'. paintStep g e s = Inr s'"
proof -
  have r: "paintReachable g False s" using assms(2) by induction (auto intro: paintReachable.intros)
  from paintStep_keeps[OF assms(1) reachable_inv[OF assms(1) r] assms(3)] show ?thesis by blast
qed

theorem painting_returns_witness: "\<exists>s'. paintStep plainGraphics (DisplayTimer (quiet False)) invalidated = Inr s'"
  by (rule painting_returns[OF plainGraphics_OK invalidated_reachable]) (rule quiet_events(1))

text \<open>
  C10. No repaint is lost as long as bitmaps can be allocated. Whatever is dirty in a drawing area that is not suspended is on
  its way to the window: the display timer runs; or an update is under way to the UI process, or its acknowledgement, which
  displays the rest, is under way back; or the drawing area still owes the answer to a request for a new state, and then
  the UI process knows that it is behind and asks again at its next paint, or when it receives an older answer that is under way.
\<close>

theorem repaint_not_lost:
  assumes "graphicsOK g" "paintReachable g True s"
    and "\<not> m_isPaintingSuspended (s_web s)" "\<not> Region_isEmpty (m_dirtyRegion (s_web s))"
  shows "m_displayTimer (s_web s) \<or>
    (m_isWaitingForDidUpdate (s_web s) \<and>
      ((\<exists>info. Update (m_backingStoreStateID (s_web s)) info \<in> set (web_sent (s_web s))) \<or> DidUpdate \<in> set (ui_sent (s_ui s)))) \<or>
    (m_shouldSendDidUpdateBackingStoreState (s_web s) \<and>
      (m_currentBackingStoreStateID (s_ui s) < m_nextBackingStoreStateID (s_ui s) \<or>
       (\<exists>i info. DidUpdateBackingStoreState i info \<in> set (web_sent (s_web s)) \<and> i < m_nextBackingStoreStateID (s_ui s))))"
proof (cases "m_shouldSendDidUpdateBackingStoreState (s_web s)")
  case True
  then show ?thesis using unanswered_request[OF reachable_inv[OF assms(1,2)] True] by blast
next
  case False
  have inv: "paintInv g True (s_web s) (s_ui s)" using reachable_inv[OF assms(1,2)] .
  then have "dirtyPoints (s_web s) \<noteq> {}"
    using assms(4) regionOK_isEmpty by (auto simp: paintInv_def webOK_def dirtyPoints_def)
  with inv assms(3) False show ?thesis by (auto simp: paintInv_def lively_def scheduled_def inFlight_def)
qed

theorem repaint_not_lost_witness:
  "m_shouldSendDidUpdateBackingStoreState (s_web discarded) \<and> \<not> m_displayTimer (s_web discarded) \<and>
   (m_currentBackingStoreStateID (s_ui discarded) < m_nextBackingStoreStateID (s_ui discarded) \<or>
    (\<exists>i info. DidUpdateBackingStoreState i info \<in> set (web_sent (s_web discarded)) \<and> i < m_nextBackingStoreStateID (s_ui discarded)))"
proof -
  have d: "\<not> m_isPaintingSuspended (s_web discarded)" "\<not> Region_isEmpty (m_dirtyRegion (s_web discarded))"
    "\<not> m_displayTimer (s_web discarded)" "\<not> m_isWaitingForDidUpdate (s_web discarded)" by code_simp+
  from repaint_not_lost[OF plainGraphics_OK discarded_reachable d(1,2)] d(3,4) show ?thesis by simp
qed

text \<open>
  C5. A repaint completes in one round. When nothing is under way in either direction, the UI process holds the
  newest state, painting is not suspended, something is dirty and the bitmap can be allocated, then the display timer, the update received
  by the UI process and the acknowledgement received by the web process, with no other call of the page in between, leave a backing
  store that equals the page, nothing dirty and no message.
\<close>

theorem repaint_completes:
  assumes "graphicsOK g" "paintReachable g True s"
    and "web_sent (s_web s) = []" "ui_sent (s_ui s) = []" "\<not> m_isPaintingSuspended (s_web s)"
    and "m_currentBackingStoreStateID (s_ui s) = m_nextBackingStoreStateID (s_ui s)" "m_nextBackingStoreStateID (s_ui s) \<noteq> 0"
    and "\<not> Region_isEmpty (m_dirtyRegion (s_web s))" "r_layout env = []" "r_bitmap env"
  shows "\<exists>s1 s2 s3 bs. paintStep g (DisplayTimer env) s = Inr s1 \<and> paintStep g (UIReceives True) s1 = Inr s2 \<and>
    paintStep g (WebReceives content [] env) s2 = Inr s3 \<and> web_sent (s_web s3) = [] \<and> ui_sent (s_ui s3) = [] \<and>
    Region_isEmpty (m_dirtyRegion (s_web s3)) \<and> m_backingStore (s_ui s3) = Some bs \<and> bs_size bs = page_size (s_web s) \<and>
    (\<forall>p. p \<in> sizePoints (page_size (s_web s)) \<longrightarrow> bs_pixels bs p = page_content (s_web s) p)"
  using repaint_round[OF assms(1) reachable_inv[OF assms(1,2)] assms(3-10), of content] unfolding pagePoints_size Ball_def .

theorem repaint_completes_witness:
  "\<exists>s1 s2 s3 bs. paintStep plainGraphics (DisplayTimer (quiet True)) invalidated = Inr s1 \<and> paintStep plainGraphics (UIReceives True) s1 = Inr s2 \<and>
    paintStep plainGraphics (WebReceives (\<lambda>_. 7) [] (quiet True)) s2 = Inr s3 \<and> m_backingStore (s_ui s3) = Some bs \<and>
    bs_pixels bs (2, 2) = 8"
proof -
  have n: "List.null (web_sent (s_web invalidated))" "List.null (ui_sent (s_ui invalidated))" by code_simp+
  have c: "m_currentBackingStoreStateID (s_ui invalidated) = m_nextBackingStoreStateID (s_ui invalidated)"
    "m_nextBackingStoreStateID (s_ui invalidated) \<noteq> 0" "\<not> m_isPaintingSuspended (s_web invalidated)"
    "\<not> Region_isEmpty (m_dirtyRegion (s_web invalidated))" "page_size (s_web invalidated) = (10, 6)"
    "page_content (s_web invalidated) (2, 2) = 8" by code_simp+
  have "(2, 2) \<in> sizePoints (10, 6)" by (simp add: sizePoints_def mem_rectPoints rect_defs)
  with repaint_completes[OF plainGraphics_OK invalidated_reachable n[unfolded List.null_iff] c(3,1,2,4),
      of "quiet True" "\<lambda>_. 7"] c(5,6)
  show ?thesis by (auto simp: quiet_def simp del: split_paired_All)
qed

text \<open>
  When the store has been discarded and the bitmap for the new one cannot be allocated, the answer to the request
  has no pixels, and nothing remains that would repaint: the UI process takes its state for
  the newest and holds no store, and no timer and no message is under way.
\<close>

definition stalled :: "nat painting" where
  "stalled = took (UIReceives True) (took (WebReceives (\<lambda>_. 7) [] (quiet False)) (took (ViewPaints (IntRect 0 0 10 6)) discarded))"

lemma stalled_reachable: "paintReachable plainGraphics False stalled"
  unfolding stalled_def discarded_def
  by (intro took_reachable resized_reachable)
    (simp_all add: quiet_events rectNear_def near_def rect_defs del: eventOK.simps(2,4))

lemma failed_bitmap_stalls:
  "\<not> m_isPaintingSuspended (s_web stalled)" "\<not> Region_isEmpty (m_dirtyRegion (s_web stalled))"
  "\<not> m_displayTimer (s_web stalled)" "\<not> m_isWaitingForDidUpdate (s_web stalled)"
  "\<not> m_shouldSendDidUpdateBackingStoreState (s_web stalled)"
  "List.null (web_sent (s_web stalled))" "List.null (ui_sent (s_ui stalled))" "Option.is_none (m_backingStore (s_ui stalled))"
  "m_currentBackingStoreStateID (s_ui stalled) = m_nextBackingStoreStateID (s_ui stalled)"
  by code_simp+

text \<open>
  An update whose bitmap the UI process cannot map is acknowledged although nothing of it was painted: the web process
  considers the page displayed, and the window keeps the old pixels.
\<close>

definition unmapped :: "nat painting" where
  "unmapped = took (WebReceives (\<lambda>_. 7) [] (quiet True)) (took (UIReceives False) (took (DisplayTimer (quiet True)) invalidated))"

lemma unmapped_update_lost:
  "Region_isEmpty (m_dirtyRegion (s_web unmapped))" "\<not> m_displayTimer (s_web unmapped)"
  "List.null (web_sent (s_web unmapped))" "List.null (ui_sent (s_ui unmapped))"
  "page_content (s_web unmapped) (1, 1) = 8"
  "(case m_backingStore (s_ui unmapped) of None \<Rightarrow> False | Some bs \<Rightarrow> bs_pixels bs (1, 1) = 7)"
  by code_simp+

end
