(* ===== verification/Spec2Isabelle.thy ===== *)
theory Spec2Isabelle
  imports IDB_Properties HTML_Properties WTF_Properties WK_Base64_Correct WS_Properties WS_Handshake_Key WTF_SHA1_Correct WTF_MD5_Correct WS_Session WK_Region_Correct DA_Properties
begin

text \<open>
  A verification library for WebKitGTK: parts of WTF, WebCore and WebKit2 that carry algorithms,
  protocols and state machines with exact contracts, translated function by function, with the theorems
  that make them correct. Paths are below \<^verbatim>\<open>src/Source/WebCore\<close> unless they start with another directory of
  \<^verbatim>\<open>src/Source\<close>.

  \<^bold>\<open>The parts and how they interact.\<close> Text from the network and from scripts reaches the HTML tokenizer through an
  input stream. Scripts store data in IndexedDB, whose keys are byte strings that LevelDB orders, and talk to
  servers over WebSockets, whose handshake and frames rest on SHA-1, MD5, base64 and UTF-8. What the page looks like
  after all that is painted in the web process into updates, computed with regions, that the UI process
  copies into the backing store of the window.

  \<^bold>\<open>The HTML front end.\<close> Text from the network and from \<^verbatim>\<open>document.write\<close> reaches the parser
  through an input stream of segmented strings; the tokenizer consumes it character by character
  and fills in tokens; the source tracker recovers the source of a token for the XSS auditor and
  the source view.

  \<^item> \<open>WK_SegmentedString\<close>: \<^verbatim>\<open>platform/text/SegmentedString.{h,cpp}\<close>. The record \<open>segmentedString\<close> has
    the members of the class; \<open>advance\<close>, \<open>advance_line\<close>, \<open>push\<close>, \<open>ss_append\<close>, \<open>ss_prepend\<close>, \<open>lookAhead\<close>
    and the position functions have the names of the methods. \<open>ss_wf\<close> is the invariant of the
    class. The locale \<open>char_stream\<close> states what a tokenizer needs of its input; it is interpreted
    on both overloads of \<open>advance\<close>.
  \<^item> \<open>HTML_Token\<close>: \<^verbatim>\<open>xml/parser/MarkupTokenBase.h\<close>, \<^verbatim>\<open>html/parser/HTMLToken.h\<close>. The field
    \<open>tk_sound\<close> monitors assertions on the type and null pointers.
  \<^item> \<open>HTML_Entity\<close>: character references, \<^verbatim>\<open>xml/parser/CharacterReferenceParserInlineMethods.h\<close>,
    \<^verbatim>\<open>html/parser/HTMLEntityParser.cpp\<close>, \<^verbatim>\<open>HTMLEntitySearch.cpp\<close>. The entity table is generated
    by the build and so a parameter; \<open>entityTable_ok\<close> says what the search relies on.
    \<open>HTML_Entity_Correct\<close> shows that the binary search is a search for prefixes and that failed
    references restore the source, \<open>HTML_Entity_Numeric\<close> what numeric references decode to.
  \<^item> \<open>HTML_Tokenizer\<close>: \<^verbatim>\<open>html/parser/HTMLTokenizer.cpp\<close> with \<^verbatim>\<open>MarkupTokenizerBase.h\<close> and
    \<^verbatim>\<open>MarkupTokenizerInlineMethods.h\<close>. Each of the 71 states is one function \<open>step_<State>\<close>; the
    exit macros are functions into \<open>outcome\<close>, \<open>Return\<close> for leaving \<open>nextToken\<close> and \<open>Goto\<close> for a
    jump; \<open>run\<close> is the switch with its jumps, a partial function into option. Case folding of a
    whole string (\<^verbatim>\<open>umemcasecmp\<close>) is a parameter.
  \<^item> \<open>HTML_Tokenizer_Invariant\<close>, \<open>HTML_Tokenizer_States\<close>, \<open>HTML_Tokenizer_Correct\<close>: the kind of token
    each state expects, the invariant, its preservation by every exit and every state, and the
    termination of \<open>run\<close> by the pair of remaining text and \<open>state_rank\<close>.
  \<^item> \<open>HTML_Input\<close>: \<^verbatim>\<open>html/parser/HTMLInputStream.h\<close> and \<^verbatim>\<open>HTMLSourceTracker.cpp\<close>.
  \<^item> \<open>HTML_Session\<close>: how clients drive the tokenizer, as an inductive relation; every reachable
    configuration satisfies the invariant. \<open>HTML_Token_Range\<close>: the tokenizer keeps the range of the
    token. \<open>HTML_Properties\<close>: the properties.

  \<^bold>\<open>IndexedDB on LevelDB.\<close> \<^verbatim>\<open>storage/IDBLevelDBCoding.{h,cpp}\<close> encodes keys as bytes and gives
  LevelDB a comparator on them.

  \<^item> \<open>IDB_Primitives\<close>: bytes, integers of fixed and variable length, strings, doubles.
  \<^item> \<open>IDB_Key\<close>, \<open>IDB_Key_Correct\<close>: user keys, encoded, decoded, extracted and compared, with arrays;
    loops that need not return are partial functions into option, undefined behaviour is a fault.
  \<^item> \<open>IDB_Keys\<close>, \<open>IDB_Keys_Correct\<close>: the key classes of the store and the comparator. The locale
    \<open>comparator\<close> of \<open>WK_Comparator\<close> is the contract of a three-way comparison; it is interpreted on
    code units, strings, doubles, keys, entries and the comparator given to LevelDB.
  \<^item> \<open>IDB_Properties\<close>: the properties, among them that the comparator returns and refines the order
    on entries, and that encodings round-trip.

  \<^bold>\<open>Character and byte codings.\<close>

  \<^item> \<open>WTF_Unicode\<close>, \<open>WTF_UTF8\<close>, \<open>WTF_UTF8_Correct\<close>, \<open>WTF_Properties\<close>: the UTF-16 macros and
    \<^verbatim>\<open>JavaScriptCore/wtf/unicode/UTF8.cpp\<close> with the conversions of \<^verbatim>\<open>WTFString.cpp\<close>. Strings without unpaired
    surrogates round-trip, and what the decoder accepts is canonical outside the sequences it misjudges.
  \<^item> \<open>WK_Base64\<close>, \<open>WK_Base64_Correct\<close>: \<^verbatim>\<open>platform/text/Base64.cpp\<close>, with the round trip for every policy.
  \<^item> \<open>WTF_Digest\<close>, \<open>WTF_SHA1\<close>, \<open>WTF_MD5\<close> and their \<open>_Correct\<close> theories: \<^verbatim>\<open>JavaScriptCore/wtf/SHA1.cpp\<close> and
    \<^verbatim>\<open>MD5.cpp\<close>. The locales \<open>block_digest\<close> and \<open>padded_digest\<close> are the contract of a digest fed in pieces; interpreted
    on both, they give the digests of RFC 3174 and RFC 1321, which are written down apart from the code, on machines of either
    byte order.

  \<^bold>\<open>WebSockets.\<close> \<^verbatim>\<open>websockets/\<close> and \<^verbatim>\<open>platform/network/\<close>.

  \<^item> \<open>WS_Frame\<close>, \<open>WS_Frame_Correct\<close>, \<open>WS_Extension\<close>: framing, masking and the extension dispatcher.
  \<^item> \<open>WS_Handshake\<close>, \<open>WS_Handshake_Correct\<close>, \<open>WS_Handshake_Key\<close>, \<open>WS_Properties\<close>: both versions of the handshake,
    what is accepted, how much of the buffer is consumed and what the keys carry.
  \<^item> \<open>WS_World\<close>, \<open>WS_Calls\<close>, \<open>WS_Connect\<close>, \<open>WS_Channel\<close>, \<open>WS_Connection\<close>: \<^verbatim>\<open>WebSocket.cpp\<close>, \<^verbatim>\<open>WebSocketChannel.cpp\<close>,
    \<^verbatim>\<open>SocketStreamHandleBase.cpp\<close> and \<^verbatim>\<open>soup/SocketStreamHandleSoup.cpp\<close> as one state \<open>world\<close> with reference counts,
    timers, queues and a store of live objects; use of a freed object is a fault. The locales \<open>call_invariant\<close>,
    \<open>plain_invariant\<close>, \<open>send_invariant\<close>, \<open>free_invariant\<close>, \<open>queue_invariant\<close> and \<open>step_invariant\<close> say which operations an
    invariant has to survive for every handler to keep it; each invariant interprets them.
  \<^item> \<open>WS_Events\<close>, \<open>WS_Safety\<close>, \<open>WS_Session\<close>: the order of events, memory safety, the order of bytes and the closing
    timeout in all reachable states, whatever the script does in its handlers.

  \<^bold>\<open>Regions and painting.\<close> \<^verbatim>\<open>platform/graphics/{IntRect,Region}.{h,cpp}\<close>, and in WebKit2
  \<^verbatim>\<open>WebProcess/WebPage/DrawingAreaImpl.cpp\<close>, \<^verbatim>\<open>UIProcess/DrawingAreaProxyImpl.cpp\<close>, \<^verbatim>\<open>BackingStore.cpp\<close> and
  \<^verbatim>\<open>cairo/BackingStoreCairo.cpp\<close>.

  \<^item> \<open>WK_IntRect\<close>, \<open>WK_Region\<close>: rectangles, and regions as the two vectors of spans and segments of the class. Signed overflow and
    reads outside a vector are faults.
  \<^item> \<open>WK_Region_Lines\<close>, \<open>WK_Region_Rows\<close>, \<open>WK_Region_Bounds\<close>, \<open>WK_Region_Correct\<close>: the merging of segments on a line, of spans
    in a shape, the bounds, and the refinement of sets of points. The locale \<open>point_sets\<close> is the contract of the class; its interpretation \<open>reg\<close>
    is on the functions of \<open>WK_Region\<close>.
  \<^item> \<open>DA_WebProcess\<close>, \<open>DA_UIProcess\<close>: both sides of painting, their messages, timers and window events as \<open>paintStep\<close>. The page is its
    size and a function from points to opaque pixels.
  \<^item> \<open>DA_Repaint\<close>: every call of the page keeps the agreement of the page with the pixels on the other side, outside the dirty region and
    up to the pending scroll. \<open>DA_Store\<close>: an update brings a backing store that agrees up to date. \<open>DA_Sync\<close>: the store that
    results from the messages under way. \<open>DA_Session\<close>: the invariant of both processes and all channels, kept by every event.
    \<open>DA_Properties\<close>: what the window shows, that repaints complete and are not lost, and that nothing overflows
    within the sizes and rectangles that \<open>eventOK\<close> allows.

  \<open>WK_Prelude\<close> has the shared types (\<open>uchar\<close>, \<open>ustring\<close>), faults and list lemmas.

  \<^bold>\<open>Machine integers.\<close> Code units are 16-bit words, \<^verbatim>\<open>UChar32\<close>, the ids of IndexedDB, digests and masks are words of
  their width with signed readings where the code compares them as signed; \<^verbatim>\<open>size_t\<close> has 64 bits. Coordinates are integers with
  overflow as a fault, and regions are well-formed for coordinates below \<open>2 ^ 30\<close> in absolute value; pages are at most 32768 pixels wide and
  high. Counters of characters, lines, state identifiers and buffered bytes are unbounded.

  \<^bold>\<open>Fuel.\<close> None is used: loops that need not end are partial functions into option and proved to return where the code does.

  \<^bold>\<open>Parameters.\<close> The entity table, case folding, the parts and checks of URLs, random numbers, extension processors, byte
  order, what scripts do in event handlers, what a socket write returns and whether closing reports an error, whether a bitmap can be
  allocated or mapped, what layout invalidates, and copies within a pixmap. What the code relies on is a hypothesis with a
  name (\<open>entityTable_ok\<close>, \<open>graphicsOK\<close>, \<open>eventOK\<close>, ...), and each property with such a hypothesis has a witness.

  \<^bold>\<open>Not modelled.\<close> The JavaScript engine, rendering, style, DOM, loader, editing, SVG, media, the inspector, plug-ins, the rest of the
  multi-process layer and the GTK ports: object graphs with callbacks into each other and into platform code, whose behaviour is
  not a function of a state small enough to be written down here. The tree builder and the document parser, which drive the
  tokenizer, are represented by the steps a session allows. Within the modelled parts: frames sent from a Blob, cookies and the inspector's
  notifications of the channel, accelerated compositing, page overlays and partly transparent pages of the drawing area, the debug dumps. Copying a segmented string is
  value semantics. Assertions that a character is not null, and the assertions of the drawing areas, are not monitored.
\<close>

end
